(* ===== verification/Nfp_Prelude.thy ===== *)
theory Nfp_Prelude
  imports Main "HOL-Library.Word"
begin

text \<open>
  Shared vocabulary of the development: the machine integers of the C sources, the
  error numbers and the two error conventions the driver uses, byte-addressed memory
  with its copy operations, and the generic lemmas on lists, words and memory that the
  component theories rely on.
\<close>

unbundle bit_operations_syntax

section \<open>Machine integers\<close>

type_synonym u8 = "8 word"
type_synonym u16 = "16 word"
type_synonym u32 = "32 word"
type_synonym u64 = "64 word"

text \<open>
  The collections of the development: \<open>word_facts\<close> moves word expressions to
  natural numbers, \<open>mem_simps\<close> evaluates reads over writes, \<open>ret_simps\<close> evaluates
  the numeric return codes.
\<close>

named_theorems word_facts \<open>word expressions read as natural numbers\<close>
named_theorems mem_simps \<open>reads of byte memory after writes\<close>
named_theorems ret_simps \<open>numeric values of the return codes\<close>

section \<open>Error numbers\<close>

text \<open>
  The error numbers of \<open>errno.h\<close> that the sources use, with their Linux values.
  A function of the driver reports failure in one of three ways: by
  \<open>NFP_ERRNO(e)\<close>, which stores \<open>e\<close> in \<open>errno\<close> and returns \<open>-1\<close>
  (\<open>RetErrno\<close>); by \<open>return -e\<close>, which leaves \<open>errno\<close> alone (\<open>RetNeg\<close>); or by
  a bare \<open>return -1\<close> (\<open>RetFail\<close>). The difference is visible to callers that compare
  the returned number, so the model keeps it.
\<close>

datatype errno =
    EPERM | ENOENT | EINTR | EIO | E2BIG | EAGAIN | ENOMEM | EACCES | EFAULT | EBUSY
  | EEXIST | ENODEV | ENOTDIR | EINVAL | ETXTBSY | ENOSPC | EOPNOTSUPP | ETIMEDOUT

fun errno_code :: "errno \<Rightarrow> int" where
  "errno_code EPERM = 1"
| "errno_code ENOENT = 2"
| "errno_code EINTR = 4"
| "errno_code EIO = 5"
| "errno_code E2BIG = 7"
| "errno_code EAGAIN = 11"
| "errno_code ENOMEM = 12"
| "errno_code EACCES = 13"
| "errno_code EFAULT = 14"
| "errno_code EBUSY = 16"
| "errno_code EEXIST = 17"
| "errno_code ENODEV = 19"
| "errno_code ENOTDIR = 20"
| "errno_code EINVAL = 22"
| "errno_code ETXTBSY = 26"
| "errno_code ENOSPC = 28"
| "errno_code EOPNOTSUPP = 95"
| "errno_code ETIMEDOUT = 110"

datatype c_fail = RetErrno errno | RetNeg errno | RetFail

fun ret_code :: "c_fail \<Rightarrow> int" where
  "ret_code (RetErrno e) = -1"
| "ret_code (RetNeg e) = - errno_code e"
| "ret_code RetFail = -1"

declare ret_code.simps [ret_simps] errno_code.simps [ret_simps]

lemma errno_code_pos [simp]: "0 < errno_code e"
  by (cases e) auto

lemma errno_code_inject [simp]: "errno_code a = errno_code b \<longleftrightarrow> a = b"
  by (cases a; cases b) auto

lemma ret_code_negative [simp]: "ret_code f < 0"
  by (cases f) auto

text \<open>Error numbers are ordered by their numeric value.\<close>

instantiation errno :: linorder
begin

definition less_eq_errno :: "errno \<Rightarrow> errno \<Rightarrow> bool" where
  "less_eq_errno a b \<longleftrightarrow> errno_code a \<le> errno_code b"

definition less_errno :: "errno \<Rightarrow> errno \<Rightarrow> bool" where
  "less_errno a b \<longleftrightarrow> errno_code a < errno_code b"

instance
  by standard (auto simp: less_eq_errno_def less_errno_def)

end

text \<open>Run-time faults of the C sources: a failing \<open>assert\<close> and a division by zero.\<close>

datatype trap = AssertFail | DivByZero

section \<open>Byte-addressed memory\<close>

type_synonym mem = "u64 \<Rightarrow> u8"

definition mem_rd :: "mem \<Rightarrow> u64 \<Rightarrow> nat \<Rightarrow> u8 list" where
  "mem_rd m a n = map (\<lambda>i. m (a + of_nat i)) [0..<n]"

fun mem_wr :: "mem \<Rightarrow> u64 \<Rightarrow> u8 list \<Rightarrow> mem" where
  "mem_wr m a [] = m"
| "mem_wr m a (b # bs) = mem_wr (m(a := b)) (a + 1) bs"

text \<open>Two address ranges without a common byte.\<close>

definition disj_range :: "u64 \<Rightarrow> nat \<Rightarrow> u64 \<Rightarrow> nat \<Rightarrow> bool" where
  "disj_range a n b k \<longleftrightarrow> (\<forall>i<n. \<forall>j<k. a + of_nat i \<noteq> b + of_nat j)"

lemma disj_range_sym: "disj_range a n b k \<Longrightarrow> disj_range b k a n"
  unfolding disj_range_def by metis

lemma length_mem_rd [simp]: "length (mem_rd m a n) = n"
  by (simp add: mem_rd_def)

lemma nth_mem_rd [simp]: "i < n \<Longrightarrow> mem_rd m a n ! i = m (a + of_nat i)"
  by (simp add: mem_rd_def)

lemma mem_rd_0 [simp]: "mem_rd m a 0 = []"
  by (simp add: mem_rd_def)

lemma mem_wr_other:
  "(\<And>i. i < length bs \<Longrightarrow> x \<noteq> a + of_nat i) \<Longrightarrow> mem_wr m a bs x = m x"
proof (induction bs arbitrary: m a)
  case (Cons b bs)
  have "x \<noteq> a" using Cons.prems [of 0] by simp
  moreover have "x \<noteq> (a + 1) + of_nat i" if "i < length bs" for i
    using Cons.prems [of "Suc i"] that by (simp add: add.commute add.left_commute)
  ultimately have "mem_wr (m(a := b)) (a + 1) bs x = (m(a := b)) x"
    by (intro Cons.IH) auto
  with \<open>x \<noteq> a\<close> show ?case by simp
qed simp

lemma of_nat_word_inj:
  assumes "i < 2 ^ 64" "j < 2 ^ 64" "(of_nat i :: u64) = of_nat j"
  shows "i = j"
proof -
  have "unat (of_nat i :: u64) = unat (of_nat j :: u64)" using assms(3) by simp
  then show ?thesis using assms(1,2) by (simp add: unat_of_nat)
qed

lemma mem_wr_same:
  "i < length bs \<Longrightarrow> length bs \<le> 2 ^ 64 \<Longrightarrow> mem_wr m a bs (a + of_nat i) = bs ! i"
proof (induction bs arbitrary: m a i)
  case (Cons b bs)
  show ?case
  proof (cases i)
    case 0
    have "mem_wr (m(a := b)) (a + 1) bs a = (m(a := b)) a"
    proof (rule mem_wr_other)
      fix j assume "j < length bs"
      then have "Suc j < 2 ^ 64" using Cons.prems(2) by simp
      then have "(of_nat (Suc j) :: u64) \<noteq> of_nat 0"
        using of_nat_word_inj [of "Suc j" 0] by fastforce
      then show "a \<noteq> a + 1 + of_nat j" by (simp add: add.assoc)
    qed
    then show ?thesis using 0 by simp
  next
    case (Suc k)
    have "mem_wr (m(a := b)) (a + 1) bs ((a + 1) + of_nat k) = bs ! k"
      using Cons.prems Suc by (intro Cons.IH) auto
    then show ?thesis using Suc by (simp add: add.commute add.left_commute)
  qed
qed simp

lemma mem_wr_append:
  "mem_wr m a (xs @ ys) = mem_wr (mem_wr m a xs) (a + of_nat (length xs)) ys"
  by (induction xs arbitrary: m a) (auto simp: add.assoc)

lemma mem_rd_wr_same [mem_simps]:
  "length bs \<le> 2 ^ 64 \<Longrightarrow> n = length bs \<Longrightarrow> mem_rd (mem_wr m a bs) a n = bs"
  by (intro nth_equalityI) (auto simp: mem_wr_same)

lemma mem_rd_wr_disj [mem_simps]:
  "disj_range a (length bs) b n \<Longrightarrow> mem_rd (mem_wr m a bs) b n = mem_rd m b n"
  by (intro nth_equalityI) (auto simp: disj_range_def intro!: mem_wr_other, metis)

lemma mem_rd_split: "mem_rd m a (n + k) = mem_rd m a n @ mem_rd m (a + of_nat n) k"
  by (intro nth_equalityI) (auto simp: nth_append add.assoc simp flip: of_nat_add)

lemma take_mem_rd: "n \<le> k \<Longrightarrow> take n (mem_rd m a k) = mem_rd m a n"
  by (intro nth_equalityI) auto

lemma drop_mem_rd: "n \<le> k \<Longrightarrow> drop n (mem_rd m a k) = mem_rd m (a + of_nat n) (k - n)"
  by (intro nth_equalityI) (auto simp: add.assoc simp flip: of_nat_add)

text \<open>Ranges inside one buffer that does not wrap around the address space are compared
  by their offsets.\<close>

lemma disj_range_offsets:
  assumes "n + x \<le> y \<or> k + y \<le> x" "x + n \<le> L" "y + k \<le> L" "L \<le> 2 ^ 64"
  shows "disj_range (a + of_nat x) n (a + of_nat y) k"
  unfolding disj_range_def
proof (intro allI impI notI)
  fix i j assume ij: "i < n" "j < k" and eq: "a + of_nat x + of_nat i = a + of_nat y + of_nat j"
  then have "(of_nat (x + i) :: u64) = of_nat (y + j)" by (simp add: add.assoc)
  then have "x + i = y + j" using ij assms by (intro of_nat_word_inj) auto
  then show False using ij assms(1) by auto
qed

text \<open>Sub-ranges of disjoint ranges are disjoint.\<close>

lemma disj_range_sub:
  assumes "disj_range a n b k" "x + i \<le> n" "y + j \<le> k"
  shows "disj_range (a + of_nat x) i (b + of_nat y) j"
  unfolding disj_range_def
proof (intro allI impI)
  fix p q assume "p < i" "q < j"
  then have "x + p < n" "y + q < k" using assms by auto
  then have "a + of_nat (x + p) \<noteq> b + of_nat (y + q)"
    using assms(1) unfolding disj_range_def by blast
  then show "a + of_nat x + of_nat p \<noteq> b + of_nat y + of_nat q" by (simp add: add.assoc)
qed

section \<open>Words as natural numbers\<close>

lemma unat_add_small [word_facts]:
  fixes a b :: "'a::len word"
  shows "unat a + unat b < 2 ^ LENGTH('a) \<Longrightarrow> unat (a + b) = unat a + unat b"
  by (simp add: unat_word_ariths)

lemma unat_sub_small [word_facts]:
  fixes a b :: "'a::len word"
  shows "unat b \<le> unat a \<Longrightarrow> unat (a - b) = unat a - unat b"
  by (simp add: unat_sub word_le_nat_alt)

lemma unat_ucast_up [word_facts]:
  "LENGTH('a::len) \<le> LENGTH('b::len) \<Longrightarrow> unat (ucast (x :: 'a word) :: 'b word) = unat x"
proof -
  assume "LENGTH('a) \<le> LENGTH('b)"
  then have "unat x < 2 ^ LENGTH('b)"
    by (meson order_less_le_trans unsigned_less power_increasing one_le_numeral)
  then show ?thesis by (simp add: unsigned_ucast_eq take_bit_nat_eq_self)
qed

end
