(* ===== verification/Byte_Codec.thy ===== *)
theory Byte_Codec
  imports Nfp_Prelude
begin

text \<open>
  Words as byte sequences, in both byte orders: what a load or store of a wide value
  does to byte-addressed memory, and the layout of protocol headers. The round trips
  hold for every word length.
\<close>

fun le_bytes :: "nat \<Rightarrow> 'a::len word \<Rightarrow> u8 list" where
  "le_bytes 0 w = []"
| "le_bytes (Suc n) w = ucast w # le_bytes n (drop_bit 8 w)"

fun le_word :: "u8 list \<Rightarrow> 'a::len word" where
  "le_word [] = 0"
| "le_word (b # bs) = ucast b OR push_bit 8 (le_word bs)"

definition be_bytes :: "nat \<Rightarrow> 'a::len word \<Rightarrow> u8 list" where
  "be_bytes n w = rev (le_bytes n w)"

definition be_word :: "u8 list \<Rightarrow> 'a::len word" where
  "be_word bs = le_word (rev bs)"

lemma le_bytes_numeral:
  "le_bytes (numeral k) w = ucast w # le_bytes (pred_numeral k) (drop_bit 8 w)"
  by (simp add: numeral_eq_Suc)

lemma length_le_bytes [simp]: "length (le_bytes n w) = n"
  by (induction n arbitrary: w) simp_all

lemma length_be_bytes [simp]: "length (be_bytes n w) = n"
  by (simp add: be_bytes_def)

lemma le_word_bytes_bit:
  "bit (le_word (le_bytes n (w :: 'a::len word)) :: 'a word) k \<longleftrightarrow> k < 8 * n \<and> bit w k"
proof (induction n arbitrary: w k)
  case (Suc n)
  have ih: "bit (le_word (le_bytes n (drop_bit 8 w)) :: 'a word) (k - 8) \<longleftrightarrow>
      k - 8 < 8 * n \<and> bit (drop_bit 8 w) (k - 8)" by (rule Suc.IH)
  show ?case
  proof (cases "k < 8")
    case True
    then show ?thesis
      by (auto simp: bit_or_iff bit_push_bit_iff bit_unsigned_iff dest: bit_imp_le_length)
  next
    case False
    then have "\<not> bit (ucast (ucast w :: u8) :: 'a word) k"
      by (auto simp: bit_unsigned_iff dest: bit_imp_le_length)
    then show ?thesis using False ih
      by (auto simp: bit_or_iff bit_push_bit_iff bit_drop_bit_eq dest: bit_imp_le_length)
  qed
qed simp

lemma le_word_bytes [simp]:
  "LENGTH('a) \<le> 8 * n \<Longrightarrow> le_word (le_bytes n w) = (w :: 'a::len word)"
  by (rule bit_word_eqI) (simp add: le_word_bytes_bit)

lemma le_word_head:
  "8 \<le> LENGTH('a) \<Longrightarrow> ucast (le_word (b # bs) :: 'a::len word) = (b :: u8)"
  by (rule bit_word_eqI)
    (auto simp: bit_or_iff bit_push_bit_iff bit_unsigned_iff)

lemma le_word_tail_bit:
  "8 * length (b # bs) \<le> LENGTH('a) \<Longrightarrow>
     bit (le_word bs :: 'a::len word) k \<Longrightarrow> k < 8 * length bs"
proof (induction bs arbitrary: b k)
  case (Cons c cs)
  show ?case
  proof (cases "k < 8")
    case False
    then have "bit (le_word cs :: 'a word) (k - 8)"
      using Cons.prems(2) by (auto simp: bit_or_iff bit_push_bit_iff bit_unsigned_iff dest: bit_imp_le_length)
    moreover have "8 * length (c # cs) \<le> LENGTH('a)" using Cons.prems(1) by simp
    ultimately have "k - 8 < 8 * length cs" using Cons.IH by blast
    then show ?thesis by simp
  qed simp
qed simp

lemma le_word_tail:
  assumes "8 * length (b # bs) \<le> LENGTH('a)"
  shows "drop_bit 8 (le_word (b # bs) :: 'a::len word) = le_word bs"
proof (rule bit_word_eqI)
  fix k assume "k < LENGTH('a)"
  then show "bit (drop_bit 8 (le_word (b # bs) :: 'a word)) k = bit (le_word bs :: 'a word) k"
    using assms le_word_tail_bit [OF assms, of k]
    by (auto simp: bit_drop_bit_eq bit_or_iff bit_push_bit_iff bit_unsigned_iff
        dest: bit_imp_le_length)
qed

lemma le_bytes_word [simp]:
  "8 * n \<le> LENGTH('a) \<Longrightarrow> length bs = n \<Longrightarrow> le_bytes n (le_word bs :: 'a::len word) = bs"
proof (induction n arbitrary: bs)
  case (Suc n)
  then obtain b cs where bs: "bs = b # cs" "length cs = n" by (cases bs) auto
  have "8 \<le> LENGTH('a)" using Suc.prems by simp
  then have "ucast (le_word bs :: 'a word) = b" unfolding bs by (rule le_word_head)
  moreover have "drop_bit 8 (le_word bs :: 'a word) = le_word cs"
    unfolding bs using Suc.prems bs by (intro le_word_tail) simp
  ultimately show ?case using Suc bs by simp
qed simp

lemma be_word_bytes [simp]:
  "LENGTH('a) \<le> 8 * n \<Longrightarrow> be_word (be_bytes n w) = (w :: 'a::len word)"
  by (simp add: be_word_def be_bytes_def)

lemma be_bytes_word [simp]:
  "8 * n \<le> LENGTH('a) \<Longrightarrow> length bs = n \<Longrightarrow> be_bytes n (be_word bs :: 'a::len word) = bs"
  by (simp add: be_word_def be_bytes_def)

end
