(* ===== verification/Firmware_Packet.thy ===== *)
theory Firmware_Packet
  imports Byte_Codec
begin

text \<open>
  Packet handling of the micro-engine firmware: the packet structures of
  firmware/pktdef.h, the receive, filter, rewrite and free operations of
  firmware/rxops.c, the DMA commands of firmware/dma.c and the allocation and
  transmission of firmware/txops.c.

  The Netronome SDK the firmware is compiled against is not part of the repository. What
  the sources call from it is an argument of the model, the record \<open>sdk\<close>: the address
  of a packet's CTM buffer, the address a buffer handle stands for, the byte layout of
  the header structures, the effect of one PCIe DMA command and the signal numbers the
  compiler picks. The predicate \<open>sdk_ok\<close> collects what the firmware relies on.
\<close>

section \<open>Structures\<close>

text \<open>\<open>struct pkt_hdr_t\<close>: the MAC prepend, the Ethernet and IPv4 headers, the UDP/ICMP
  union and the padding. Header fields the firmware never names are kept as bytes; the
  first byte of the union is the ICMP type.\<close>

record pkt_hdr_t =
  mac_timestamp :: u32
  mac_prepend :: u32
  eth_dst :: "48 word"
  eth_src :: "48 word"
  eth_type :: u16
  ip_other :: "u8 list"
  ip_proto :: u8
  ip_src :: u32
  ip_dst :: u32
  icmp_type :: u8
  l4_other :: "u8 list"
  hdr_pad :: "u8 list"

text \<open>The metadata of a packet (\<open>struct nbi_meta_catamaran\<close>): the fields the sources use.\<close>

record nbi_meta_t =
  isl :: u8
  pnum :: u16
  pkt_len :: u16
  bls :: u8
  muptr :: u32
  split_flag :: u8
  seqr :: u8
  seq :: u16

record pkt_t =
  nbi_meta :: nbi_meta_t
  hdr :: pkt_hdr_t

text \<open>A PCIe DMA descriptor and the DMA configuration register pair.\<close>

record nfp_pcie_dma_cmd =
  cmd_mode :: u32
  cmd_cpp_token :: u32
  cmd_cpp_addr_hi :: u32
  cmd_cpp_addr_lo :: u32
  cmd_pcie_addr_hi :: u32
  cmd_pcie_addr_lo :: u32
  cmd_length :: u32

record nfp_pcie_dma_cfg =
  target_64_even :: u8
  cpp_target_even :: u8
  target_64_odd :: u8
  cpp_target_odd :: u8

datatype dma_queue = NFP_PCIE_DMA_TOPCI_HI | NFP_PCIE_DMA_FROMPCI_HI

text \<open>Commands to the buffer list manager, the CTM and the network block interface.\<close>

datatype nbi_event =
    BlmFree u32 u8
  | CtmFree u8 u16
  | NbiDrop u8 u16 u16 u8 u16
  | MacEgressCmd u64 u32 bool bool
  | MsdWrite u64 u32
  | NbiSend u8 u16 u16 u32 u32 u32

text \<open>What the firmware acts on: the 40-bit device memory (CTM and MU), host memory behind
  PCIe, the DMA configuration and the commands issued so far.\<close>

record me_state =
  mem40 :: mem
  pci_mem :: mem
  dma_cfg :: nfp_pcie_dma_cfg
  events :: "nbi_event list"

record sdk =
  pkt_ctm_ptr40 :: "u8 \<Rightarrow> u16 \<Rightarrow> u32 \<Rightarrow> u64"
  hdr_bytes :: "pkt_hdr_t \<Rightarrow> u8 list"
  bytes_hdr :: "u8 list \<Rightarrow> pkt_hdr_t"
  meta_bytes :: "nbi_meta_t \<Rightarrow> u8 list"
  dma_run :: "nfp_pcie_dma_cmd \<Rightarrow> dma_queue \<Rightarrow> mem \<times> mem \<Rightarrow> mem \<times> mem"
  ISLAND :: u8
  MEID :: u32
  ctm_signo :: u32
  buf_signo :: u32

section \<open>Constants\<close>

definition PKT_NBI_OFFSET :: u32 where "PKT_NBI_OFFSET = 64"
definition MAC_PREPEND_BYTES :: u32 where "MAC_PREPEND_BYTES = 4"
definition PORT_TO_CHANNEL :: "u32 \<Rightarrow> u32" where "PORT_TO_CHANNEL x = push_bit 3 x"

lemmas pkt_consts = PKT_NBI_OFFSET_def MAC_PREPEND_BYTES_def

text \<open>Protocol numbers: IPv4 as an EtherType, UDP and ICMP as IP protocols, and the ICMP
  echo reply.\<close>

abbreviation (input) NET_ETH_TYPE_IPV4 :: u16 where "NET_ETH_TYPE_IPV4 \<equiv> 0x0800"
abbreviation (input) NET_IP_PROTO_UDP :: u8 where "NET_IP_PROTO_UDP \<equiv> 17"
abbreviation (input) NET_IP_PROTO_ICMP :: u8 where "NET_IP_PROTO_ICMP \<equiv> 1"
abbreviation (input) NET_ICMP_TYPE_ECHO_REPLY :: u8 where "NET_ICMP_TYPE_ECHO_REPLY \<equiv> 0"

text \<open>\<open>sizeof(struct pkt_hdr_t)\<close>: 8 bytes of MAC prepend, 14 of Ethernet, 20 of IPv4, 8 of
  the union and 2 of padding.\<close>

definition pkt_hdr_sz :: nat where "pkt_hdr_sz = 52"

section \<open>Receiving a packet\<close>

text \<open>The network block interface hands over the metadata; the header follows from the
  packet's CTM buffer. \<open>receive_packet_with_hdrs\<close> gets both in one command.\<close>

definition receive_packet_with_hdrs :: "sdk \<Rightarrow> nbi_meta_t \<Rightarrow> me_state \<Rightarrow> pkt_t \<times> u64" where
  "receive_packet_with_hdrs K meta s =
     (let pkt = \<lparr>nbi_meta = meta,
                 hdr = bytes_hdr K (mem_rd (mem40 s)
                         (pkt_ctm_ptr40 K (isl meta) (pnum meta) PKT_NBI_OFFSET) pkt_hdr_sz)\<rparr>
      in (pkt, pkt_ctm_ptr40 K (isl (nbi_meta pkt)) (pnum (nbi_meta pkt)) PKT_NBI_OFFSET))"

definition receive_packet :: "sdk \<Rightarrow> nbi_meta_t \<Rightarrow> pkt_t \<Rightarrow> pkt_t \<times> u64" where
  "receive_packet K meta pkt =
     (pkt\<lparr>nbi_meta := meta\<rparr>, pkt_ctm_ptr40 K (isl meta) (pnum meta) PKT_NBI_OFFSET)"

definition read_packet_header :: "sdk \<Rightarrow> pkt_t \<Rightarrow> me_state \<Rightarrow> pkt_t" where
  "read_packet_header K pkt s =
     (let a = pkt_ctm_ptr40 K (isl (nbi_meta pkt)) (pnum (nbi_meta pkt)) PKT_NBI_OFFSET
      in pkt\<lparr>hdr := bytes_hdr K (mem_rd (mem40 s) a pkt_hdr_sz)\<rparr>)"

definition write_packet_header :: "sdk \<Rightarrow> pkt_t \<Rightarrow> me_state \<Rightarrow> me_state" where
  "write_packet_header K pkt s =
     (let a = pkt_ctm_ptr40 K (isl (nbi_meta pkt)) (pnum (nbi_meta pkt)) PKT_NBI_OFFSET
      in s\<lparr>mem40 := mem_wr (mem40 s) a (hdr_bytes K (hdr pkt))\<rparr>)"

section \<open>Filtering and rewriting\<close>

datatype verdict = ALLOW | DROP

definition filter_packets :: "u32 \<Rightarrow> pkt_t \<Rightarrow> verdict" where
  "filter_packets packet_size pkt =
     (if eth_type (hdr pkt) \<noteq> NET_ETH_TYPE_IPV4 then DROP
      else if ip_proto (hdr pkt) \<noteq> NET_IP_PROTO_UDP \<and> ip_proto (hdr pkt) \<noteq> NET_IP_PROTO_ICMP
        then DROP
      else if ucast (pkt_len (nbi_meta pkt)) - 2 * MAC_PREPEND_BYTES \<noteq> packet_size then DROP
      else ALLOW)"

definition modify_packet_header :: "pkt_t \<Rightarrow> pkt_t" where
  "modify_packet_header pkt =
     (let h = hdr pkt;
          temp_eth_addr = eth_dst h;
          h = h\<lparr>eth_dst := eth_src h\<rparr>;
          h = h\<lparr>eth_src := temp_eth_addr\<rparr>;
          temp_ip_addr = ip_dst h;
          h = h\<lparr>ip_dst := ip_src h\<rparr>;
          h = h\<lparr>ip_src := temp_ip_addr\<rparr>;
          h = (if ip_proto h = NET_IP_PROTO_ICMP
               then h\<lparr>icmp_type := NET_ICMP_TYPE_ECHO_REPLY\<rparr> else h)
      in pkt\<lparr>hdr := h\<rparr>)"

section \<open>Releasing a packet\<close>

definition free_packet :: "pkt_t \<Rightarrow> me_state \<Rightarrow> me_state" where
  "free_packet pkt s =
     (let m = nbi_meta pkt
      in s\<lparr>events := events s @ [BlmFree (muptr m) (bls m), CtmFree (isl m) (pnum m)]\<rparr>)"

definition drop_packet :: "pkt_t \<Rightarrow> me_state \<Rightarrow> me_state" where
  "drop_packet pkt s =
     (let m = nbi_meta pkt; s' = free_packet pkt s
      in s'\<lparr>events := events s' @
             [NbiDrop (isl m) (pnum m) (pkt_len m) (seqr m) (seq m)]\<rparr>)"

section \<open>DMA commands\<close>

text \<open>\<open>pcie_dma_desc_setup\<close> fills everything but the PCIe address, which \<open>dma_op\<close> adds;
  the completion signal goes to the issuing micro-engine and context.\<close>

definition dma_mode :: "u32 \<Rightarrow> u32 \<Rightarrow> u32 \<Rightarrow> u32" where
  "dma_mode meid cx signo =
     push_bit 13 (meid AND 0xF) OR push_bit 7 (drop_bit 4 meid AND 0x3F)
     OR push_bit 4 (cx AND 7) OR signo"

definition pcie_dma_desc_setup ::
  "sdk \<Rightarrow> u32 \<Rightarrow> u32 \<Rightarrow> u32 \<Rightarrow> u32 \<Rightarrow> u32 \<Rightarrow> nfp_pcie_dma_cmd \<times> nfp_pcie_dma_cfg" where
  "pcie_dma_desc_setup K cx signo len dev_addr_hi dev_addr_lo =
     (\<lparr>cmd_mode = dma_mode (MEID K) cx signo, cmd_cpp_token = 0,
       cmd_cpp_addr_hi = dev_addr_hi, cmd_cpp_addr_lo = dev_addr_lo,
       cmd_pcie_addr_hi = 0, cmd_pcie_addr_lo = 0, cmd_length = len - 1\<rparr>,
      \<lparr>target_64_even = 1, cpp_target_even = 7, target_64_odd = 1, cpp_target_odd = 7\<rparr>)"

definition dma_op ::
  "sdk \<Rightarrow> u32 \<Rightarrow> u32 \<Rightarrow> u64 \<Rightarrow> u32 \<Rightarrow> u64 \<Rightarrow> dma_queue \<Rightarrow> me_state \<Rightarrow> me_state" where
  "dma_op K cx signo addr len pcie_addr q s =
     (let (cmd, cfg) = pcie_dma_desc_setup K cx signo len
                         (ucast (drop_bit 32 addr)) (ucast (addr AND 0xFFFFFFFF));
          cmd = cmd\<lparr>cmd_pcie_addr_hi := ucast (drop_bit 32 pcie_addr),
                    cmd_pcie_addr_lo := ucast (pcie_addr AND 0xFFFFFFFF)\<rparr>;
          (m, p) = dma_run K cmd q (mem40 s, pci_mem s)
      in s\<lparr>mem40 := m, pci_mem := p, dma_cfg := cfg\<rparr>)"

definition dma_send :: "sdk \<Rightarrow> u32 \<Rightarrow> u32 \<Rightarrow> u64 \<Rightarrow> u32 \<Rightarrow> u64 \<Rightarrow> me_state \<Rightarrow> me_state" where
  "dma_send K cx signo addr len pcie_addr s =
     dma_op K cx signo addr len pcie_addr NFP_PCIE_DMA_TOPCI_HI s"

definition dma_recv :: "sdk \<Rightarrow> u32 \<Rightarrow> u32 \<Rightarrow> u64 \<Rightarrow> u32 \<Rightarrow> u64 \<Rightarrow> me_state \<Rightarrow> me_state" where
  "dma_recv K cx signo addr len pcie_addr s =
     dma_op K cx signo addr len pcie_addr NFP_PCIE_DMA_FROMPCI_HI s"

text \<open>The expression \<open>(muptr << 11) + 256\<close> is computed in the 32 bits of \<open>muptr\<close> before it becomes
  a 40-bit pointer.\<close>

definition pkt_mu_buffer :: "u32 \<Rightarrow> u64" where
  "pkt_mu_buffer mu = ucast (push_bit 11 mu + 256)"

text \<open>A packet's first 256 bytes are in its CTM buffer, the rest in its MU buffer.
  Both functions wait for their commands to complete before they return.\<close>

definition dma_packet_send :: "sdk \<Rightarrow> u32 \<Rightarrow> pkt_t \<Rightarrow> u64 \<Rightarrow> me_state \<Rightarrow> me_state" where
  "dma_packet_send K cx pkt pcie_addr s =
     (let m = nbi_meta pkt;
          len = ucast (pkt_len m) - 2 * MAC_PREPEND_BYTES;
          offset = PKT_NBI_OFFSET + 2 * MAC_PREPEND_BYTES;
          ctm_transfer_len = min (256 - PKT_NBI_OFFSET - 2 * MAC_PREPEND_BYTES) len;
          buf_transfer_len = len - ctm_transfer_len;
          s = dma_op K cx (ctm_signo K) (pkt_ctm_ptr40 K (isl m) (pnum m) offset) ctm_transfer_len
                pcie_addr NFP_PCIE_DMA_TOPCI_HI s
      in if buf_transfer_len > 0
         then dma_op K cx (buf_signo K) (pkt_mu_buffer (muptr m)) buf_transfer_len
                (pcie_addr + ucast ctm_transfer_len) NFP_PCIE_DMA_TOPCI_HI s
         else s)"

definition dma_packet_recv :: "sdk \<Rightarrow> u32 \<Rightarrow> pkt_t \<Rightarrow> u32 \<Rightarrow> u64 \<Rightarrow> me_state \<Rightarrow> me_state" where
  "dma_packet_recv K cx pkt len pcie_addr s =
     (let m = nbi_meta pkt;
          offset = PKT_NBI_OFFSET + MAC_PREPEND_BYTES;
          ctm_transfer_len = min (256 - PKT_NBI_OFFSET - MAC_PREPEND_BYTES) len;
          buf_transfer_len = len - ctm_transfer_len;
          s = dma_op K cx (ctm_signo K) (pkt_ctm_ptr40 K (isl m) (pnum m) offset) ctm_transfer_len
                pcie_addr NFP_PCIE_DMA_FROMPCI_HI s
      in if buf_transfer_len > 0
         then dma_op K cx (buf_signo K) (pkt_mu_buffer (muptr m)) buf_transfer_len
                (pcie_addr + ucast ctm_transfer_len) NFP_PCIE_DMA_FROMPCI_HI s
         else s)"

section \<open>Allocating and sending a packet\<close>

text \<open>Both allocators are polled until they succeed; the lists give the results of the
  successive calls, and \<open>None\<close> means that the firmware is still polling when they end.\<close>

fun poll_ctm_alloc :: "u32 list \<Rightarrow> u32 option" where
  "poll_ctm_alloc [] = None"
| "poll_ctm_alloc (r # rs) = (if r \<noteq> -1 then Some r else poll_ctm_alloc rs)"

fun poll_blm_alloc :: "(int \<times> u32) list \<Rightarrow> u32 option" where
  "poll_blm_alloc [] = None"
| "poll_blm_alloc ((r, buf) # rs) = (if r = 0 then Some buf else poll_blm_alloc rs)"

definition allocate_packet ::
  "sdk \<Rightarrow> u32 list \<Rightarrow> (int \<times> u32) list \<Rightarrow> pkt_t \<Rightarrow> me_state \<Rightarrow> (pkt_t \<times> u64 \<times> me_state) option"
where
  "allocate_packet K ctm_results blm_results pkt s =
     (case poll_ctm_alloc ctm_results of
        None \<Rightarrow> None
      | Some pkt_num \<Rightarrow>
          (case poll_blm_alloc blm_results of
             None \<Rightarrow> None
           | Some buf \<Rightarrow>
               let m = (nbi_meta pkt)\<lparr>isl := ISLAND K, pnum := ucast pkt_num, bls := 0,
                         muptr := buf, split_flag := 1, pkt_len := 0\<rparr>;
                   a = pkt_ctm_ptr40 K (ISLAND K) (ucast pkt_num) 0
               in Some (pkt\<lparr>nbi_meta := m\<rparr>,
                        pkt_ctm_ptr40 K (ISLAND K) (ucast pkt_num) PKT_NBI_OFFSET,
                        s\<lparr>mem40 := mem_wr (mem40 s) a (meta_bytes K m)\<rparr>)))"

definition send_packet :: "sdk \<Rightarrow> pkt_t \<Rightarrow> me_state \<Rightarrow> me_state" where
  "send_packet K pkt s =
     (let m = nbi_meta pkt;
          pkt_data = pkt_ctm_ptr40 K (isl m) (pnum m) 0;
          q_dst = PORT_TO_CHANNEL 3
      in s\<lparr>events := events s @
            [MacEgressCmd pkt_data (PKT_NBI_OFFSET + MAC_PREPEND_BYTES) True True,
             MsdWrite pkt_data PKT_NBI_OFFSET,
             NbiSend (isl m) (pnum m) (pkt_len m) q_dst 0 0]\<rparr>)"

section \<open>What the firmware relies on\<close>

text \<open>A header whose opaque parts have their C sizes.\<close>

definition hdr_wf :: "pkt_hdr_t \<Rightarrow> bool" where
  "hdr_wf h \<longleftrightarrow> length (ip_other h) = 11 \<and> length (l4_other h) = 7 \<and> length (hdr_pad h) = 2"

definition cmd_cpp_addr :: "nfp_pcie_dma_cmd \<Rightarrow> u64" where
  "cmd_cpp_addr c = push_bit 32 (ucast (cmd_cpp_addr_hi c)) OR ucast (cmd_cpp_addr_lo c)"

definition cmd_pcie_addr :: "nfp_pcie_dma_cmd \<Rightarrow> u64" where
  "cmd_pcie_addr c = push_bit 32 (ucast (cmd_pcie_addr_hi c)) OR ucast (cmd_pcie_addr_lo c)"

text \<open>The layout of the header bytes: network byte order, the fields at the offsets of the
  Ethernet, IPv4, UDP and ICMP standards behind the 8 bytes of MAC prepend.\<close>

definition rfc_hdr_bytes :: "pkt_hdr_t \<Rightarrow> u8 list" where
  "rfc_hdr_bytes h =
     be_bytes 4 (mac_timestamp h) @ be_bytes 4 (mac_prepend h)
     @ be_bytes 6 (eth_dst h) @ be_bytes 6 (eth_src h) @ be_bytes 2 (eth_type h)
     @ take 9 (ip_other h) @ [ip_proto h] @ drop 9 (ip_other h)
     @ be_bytes 4 (ip_src h) @ be_bytes 4 (ip_dst h)
     @ [icmp_type h] @ l4_other h @ hdr_pad h"

definition seg :: "nat \<Rightarrow> nat \<Rightarrow> 'a list \<Rightarrow> 'a list" where
  "seg i n xs = take n (drop i xs)"

definition rfc_bytes_hdr :: "u8 list \<Rightarrow> pkt_hdr_t" where
  "rfc_bytes_hdr bs =
     \<lparr>mac_timestamp = be_word (seg 0 4 bs), mac_prepend = be_word (seg 4 4 bs),
      eth_dst = be_word (seg 8 6 bs), eth_src = be_word (seg 14 6 bs),
      eth_type = be_word (seg 20 2 bs),
      ip_other = seg 22 9 bs @ seg 32 2 bs, ip_proto = bs ! 31,
      ip_src = be_word (seg 34 4 bs), ip_dst = be_word (seg 38 4 bs),
      icmp_type = bs ! 42, l4_other = seg 43 7 bs, hdr_pad = seg 50 2 bs\<rparr>"

text \<open>
  \<open>sdk_ok\<close>: a CTM pointer is the buffer's base plus the offset; the SDK's header
  structures have the standard layout; a DMA command to PCI copies the described bytes
  from device memory to host memory, and one from PCI copies the other way.
\<close>

definition ctm_ptr_ok :: "sdk \<Rightarrow> bool" where
  "ctm_ptr_ok K \<longleftrightarrow> (\<forall>i p x. pkt_ctm_ptr40 K i p x = pkt_ctm_ptr40 K i p 0 + ucast x)"

definition hdr_layout_ok :: "sdk \<Rightarrow> bool" where
  "hdr_layout_ok K \<longleftrightarrow>
     (\<forall>h. hdr_wf h \<longrightarrow> hdr_bytes K h = rfc_hdr_bytes h)
     \<and> (\<forall>bs. length bs = pkt_hdr_sz \<longrightarrow> bytes_hdr K bs = rfc_bytes_hdr bs)"

definition dma_engine_ok :: "sdk \<Rightarrow> bool" where
  "dma_engine_ok K \<longleftrightarrow>
     (\<forall>c m p. dma_run K c NFP_PCIE_DMA_TOPCI_HI (m, p) =
        (m, mem_wr p (cmd_pcie_addr c) (mem_rd m (cmd_cpp_addr c) (Suc (unat (cmd_length c))))))
     \<and> (\<forall>c m p. dma_run K c NFP_PCIE_DMA_FROMPCI_HI (m, p) =
        (mem_wr m (cmd_cpp_addr c) (mem_rd p (cmd_pcie_addr c) (Suc (unat (cmd_length c)))), p))"

definition sdk_ok :: "sdk \<Rightarrow> bool" where
  "sdk_ok K \<longleftrightarrow> ctm_ptr_ok K \<and> hdr_layout_ok K \<and> dma_engine_ok K"

section \<open>Lemmas\<close>

text \<open>A 64-bit address is rebuilt from the two halves that \<open>dma_op\<close> stores.\<close>

lemma addr_halves:
  "push_bit 32 (ucast (ucast (drop_bit 32 a) :: u32) :: u64) OR
     ucast (ucast (a AND 0xFFFFFFFF) :: u32) = (a :: u64)"
proof (rule bit_word_eqI)
  fix n :: nat
  assume n: "n < LENGTH(64)"
  have m: "(0xFFFFFFFF :: u64) = mask 32" by (simp add: mask_eq_exp_minus_1)
  have b: "bit (0xFFFFFFFF :: u64) n \<longleftrightarrow> n < 32" unfolding m using n by (simp add: bit_mask_iff)
  show "bit (push_bit 32 (ucast (ucast (drop_bit 32 a) :: u32) :: u64) OR
      ucast (ucast (a AND 0xFFFFFFFF) :: u32)) n = bit a n"
  proof (cases "n < 32")
    case True
    then show ?thesis using n b
      by (simp add: bit_or_iff bit_push_bit_iff bit_unsigned_iff bit_and_iff)
  next
    case False
    then have "n - 32 < 32" "32 + (n - 32) = n" using n by simp_all
    then show ?thesis using False n b
      by (simp add: bit_or_iff bit_push_bit_iff bit_unsigned_iff bit_and_iff bit_drop_bit_eq)
  qed
qed

lemma dma_op_topci:
  assumes "dma_engine_ok K" "0 < unat len"
  shows "dma_op K cx sg addr len pa NFP_PCIE_DMA_TOPCI_HI s =
    s\<lparr>pci_mem := mem_wr (pci_mem s) pa (mem_rd (mem40 s) addr (unat len)),
      dma_cfg := \<lparr>target_64_even = 1, cpp_target_even = 7,
                  target_64_odd = 1, cpp_target_odd = 7\<rparr>\<rparr>"
proof -
  have "Suc (unat (len - 1)) = unat len" using assms(2) by (simp add: unat_sub_small)
  then show ?thesis using assms(1)
    by (simp add: dma_op_def pcie_dma_desc_setup_def dma_engine_ok_def cmd_cpp_addr_def
        cmd_pcie_addr_def addr_halves Let_def)
qed

lemma dma_op_frompci:
  assumes "dma_engine_ok K" "0 < unat len"
  shows "dma_op K cx sg addr len pa NFP_PCIE_DMA_FROMPCI_HI s =
    s\<lparr>mem40 := mem_wr (mem40 s) addr (mem_rd (pci_mem s) pa (unat len)),
      dma_cfg := \<lparr>target_64_even = 1, cpp_target_even = 7,
                  target_64_odd = 1, cpp_target_odd = 7\<rparr>\<rparr>"
proof -
  have "Suc (unat (len - 1)) = unat len" using assms(2) by (simp add: unat_sub_small)
  then show ?thesis using assms(1)
    by (simp add: dma_op_def pcie_dma_desc_setup_def dma_engine_ok_def cmd_cpp_addr_def
        cmd_pcie_addr_def addr_halves Let_def)
qed

end
