(* ===== verification/Packet_Echo.thy ===== *)
theory Packet_Echo
  imports Firmware_Packet
begin

text \<open>
  What the packet operations of the firmware mean for the bytes of a frame. A frame is
  the part of a packet the host sees: it starts in the CTM buffer behind the MAC prepend
  and continues at offset 256 of the MU buffer. \<open>echo_frame\<close> and \<open>accept_frame\<close> specify,
  on bytes alone, the rewriting and the filter; the lemmas show that header read, filter,
  rewrite and header write together implement them, and that the two DMA transfers move
  whole frames.
\<close>

section \<open>Frames in device memory\<close>

text \<open>The MU buffer of a packet: the metadata holds its 40-bit address in units of 2 KiB.\<close>

definition mu_addr :: "u32 \<Rightarrow> u64" where
  "mu_addr x = push_bit 11 (ucast x)"

lemma unat_mu_addr: "unat (mu_addr x) = unat x * 2 ^ 11"
proof -
  have "unat x < 2 ^ 32" using unsigned_less [of x, where 'a = nat] by simp
  then show ?thesis by (simp add: mu_addr_def push_bit_eq_mult unat_word_ariths unat_ucast_up)
qed

text \<open>The firmware computes the address of the part behind the first 256 bytes in 32 bits.\<close>

lemma mu_part_unat: "unat (pkt_mu_buffer x) = unat (mu_addr x) mod 2 ^ 32 + 256"
proof -
  define r where "r = unat (mu_addr x) mod 2 ^ 32"
  have "unat (push_bit 11 x) = r" by (simp add: r_def unat_mu_addr push_bit_eq_mult unat_word_ariths)
  moreover have "r + 256 < 2 ^ 32"
  proof -
    have "2 ^ 11 dvd r" unfolding r_def unat_mu_addr by (simp add: dvd_mod_iff)
    then obtain q where "r = 2048 * q" by auto
    moreover have "r < 2 ^ 32" by (simp add: r_def)
    ultimately show ?thesis by simp
  qed
  ultimately have "unat (pkt_mu_buffer x) = r + 256" by (simp add: pkt_mu_buffer_def unat_ucast_up unat_word_ariths)
  then show ?thesis by (simp only: r_def)
qed

lemma mu_part_low:
  assumes "unat x < 2 ^ 21"
  shows "pkt_mu_buffer x = mu_addr x + 256"
proof -
  have "unat (mu_addr x + 256) = unat (mu_addr x) + 256" using assms by (simp add: unat_word_ariths unat_mu_addr)
  then show ?thesis using assms mu_part_unat [of x] by (simp add: word_unat_eq_iff unat_mu_addr)
qed

lemma mu_part_cut:
  assumes "2 ^ 21 \<le> unat x"
  shows "pkt_mu_buffer x \<noteq> mu_addr x + 256"
proof
  assume e: "pkt_mu_buffer x = mu_addr x + 256"
  have "unat x < 2 ^ 32" using unsigned_less [of x, where 'a = nat] by simp
  then have "unat (mu_addr x + 256) = unat (mu_addr x) + 256" by (simp add: unat_word_ariths unat_mu_addr)
  then have "unat (mu_addr x) mod 2 ^ 32 = unat (mu_addr x)" using mu_part_unat [of x] e by simp
  then have "unat (mu_addr x) < 2 ^ 32" by (metis mod_less_divisor zero_less_numeral zero_less_power)
  then show False using assms by (simp add: unat_mu_addr)
qed

text \<open>\<open>n\<close> bytes of a packet from offset \<open>off\<close> of its CTM buffer on.\<close>

definition pkt_bytes :: "sdk \<Rightarrow> nbi_meta_t \<Rightarrow> nat \<Rightarrow> nat \<Rightarrow> mem \<Rightarrow> u8 list" where
  "pkt_bytes K m off n mm =
     mem_rd mm (pkt_ctm_ptr40 K (isl m) (pnum m) (of_nat off)) (min (256 - off) n)
     @ mem_rd mm (mu_addr (muptr m) + 256) (n - (256 - off))"

abbreviation rx_frame :: "sdk \<Rightarrow> nbi_meta_t \<Rightarrow> nat \<Rightarrow> mem \<Rightarrow> u8 list" where
  "rx_frame K m n mm \<equiv> pkt_bytes K m 72 n mm"

abbreviation tx_frame :: "sdk \<Rightarrow> nbi_meta_t \<Rightarrow> nat \<Rightarrow> mem \<Rightarrow> u8 list" where
  "tx_frame K m n mm \<equiv> pkt_bytes K m 68 n mm"

text \<open>The two buffers of a packet of \<open>n\<close> bytes do not overlap.\<close>

definition pkt_bufs_ok :: "sdk \<Rightarrow> nbi_meta_t \<Rightarrow> nat \<Rightarrow> bool" where
  "pkt_bufs_ok K m n \<longleftrightarrow>
     disj_range (pkt_ctm_ptr40 K (isl m) (pnum m) 0) 256 (mu_addr (muptr m)) (256 + n)"

lemma length_pkt_bytes [simp]: "length (pkt_bytes K m off n mm) = n"
  by (simp add: pkt_bytes_def)

lemma ctm_ptr_off:
  "ctm_ptr_ok K \<Longrightarrow> x < 2 ^ 32 \<Longrightarrow>
     pkt_ctm_ptr40 K i p (of_nat x) = pkt_ctm_ptr40 K i p 0 + of_nat x"
proof -
  assume "ctm_ptr_ok K" "x < 2 ^ 32"
  then have "pkt_ctm_ptr40 K i p (of_nat x) = pkt_ctm_ptr40 K i p 0 + ucast (of_nat x :: u32)"
    unfolding ctm_ptr_ok_def by blast
  moreover have "(ucast (of_nat x :: u32) :: u64) = of_nat x"
    using \<open>x < 2 ^ 32\<close> by (intro word_unat_eq_iff [THEN iffD2])
      (simp add: unsigned_ucast_eq unat_of_nat take_bit_nat_eq_self)
  ultimately show ?thesis by simp
qed

section \<open>The specification on bytes\<close>

text \<open>The reply to a frame: MAC addresses exchanged (bytes 0 to 11), IP addresses exchanged
  (26 to 33), and the ICMP type (34) set to echo reply when the protocol (23) is ICMP.\<close>

definition echo_frame :: "u8 list \<Rightarrow> u8 list" where
  "echo_frame f =
     seg 6 6 f @ seg 0 6 f @ seg 12 14 f @ seg 30 4 f @ seg 26 4 f
     @ [if f ! 23 = 1 then 0 else f ! 34] @ drop 35 f"

text \<open>Frames the firmware forwards: IPv4, UDP or ICMP, of the configured size.\<close>

definition accept_frame :: "nat \<Rightarrow> u8 list \<Rightarrow> bool" where
  "accept_frame n f \<longleftrightarrow>
     length f = n \<and> seg 12 2 f = [0x08, 0x00] \<and> (f ! 23 = 17 \<or> f ! 23 = 1)"

lemma length_seg [simp]: "length (seg i n xs) = min (length xs - i) n"
  by (simp add: seg_def)

lemma seg_append1: "i + n \<le> length xs \<Longrightarrow> seg i n (xs @ ys) = seg i n xs"
  by (simp add: seg_def)

lemma seg_drop: "seg i n (drop k xs) = seg (k + i) n xs"
  by (simp add: seg_def add.commute)

lemma echo_frame_append:
  "35 \<le> length f \<Longrightarrow> echo_frame (f @ g) = echo_frame f @ g"
  by (simp add: echo_frame_def seg_append1 nth_append)

lemma length_echo_frame: "35 \<le> length f \<Longrightarrow> length (echo_frame f) = length f"
  by (simp add: echo_frame_def)

text \<open>Adjacent slices join, so that a list cut at fixed offsets is put together again.\<close>

lemma seg_join: "j = i + n \<Longrightarrow> seg i n xs @ seg j k xs = seg i (n + k) xs"
  unfolding seg_def by (simp add: take_add) (simp add: add.commute)

lemma seg_join_rest:
  "j = i + n \<Longrightarrow> seg i n xs @ seg j k xs @ ys = seg i (n + k) xs @ ys"
  using seg_join [of j i n xs k] by (metis append_assoc)

lemma seg_one: "i < length xs \<Longrightarrow> seg i (Suc 0) xs = [xs ! i]"
  by (simp add: seg_def take_Suc_conv_app_nth hd_drop_conv_nth)

lemma seg_all: "length xs \<le> n \<Longrightarrow> seg 0 n xs = xs"
  by (simp add: seg_def)

lemma seg_slice: "j + k \<le> n \<Longrightarrow> seg j k (seg i n xs) = seg (i + j) k xs"
  by (simp add: seg_def drop_take min_def add.commute)

lemmas seg_simps = seg_join seg_join_rest seg_all

lemma rfc_segs:
  assumes "length bs = 52"
  shows "seg 0 4 bs @ seg 4 4 bs @ seg 8 6 bs @ seg 14 6 bs @ seg 20 2 bs
    @ seg 22 9 bs @ seg 31 1 bs @ seg 32 2 bs @ seg 34 4 bs @ seg 38 4 bs
    @ seg 42 1 bs @ seg 43 7 bs @ seg 50 2 bs = bs"
  using assms by (simp add: seg_simps)

lemma rfc_bytes_hdr_wf: "length bs = 52 \<Longrightarrow> hdr_wf (rfc_bytes_hdr bs)"
  by (simp add: hdr_wf_def rfc_bytes_hdr_def)

lemma rfc_bytes_of_hdr:
  assumes "length bs = 52"
  shows "rfc_hdr_bytes (rfc_bytes_hdr bs) = bs"
  using assms rfc_segs [OF assms]
  by (simp add: rfc_hdr_bytes_def rfc_bytes_hdr_def seg_one)

lemma rfc_hdr_of_bytes: "hdr_wf h \<Longrightarrow> rfc_bytes_hdr (rfc_hdr_bytes h) = h"
  by (cases h) (simp add: hdr_wf_def rfc_hdr_bytes_def rfc_bytes_hdr_def seg_def nth_append)

section \<open>Header rewriting on bytes\<close>

lemma modify_header_bytes:
  assumes "length bs = 52" "hdr pkt = rfc_bytes_hdr bs"
  shows "rfc_hdr_bytes (hdr (modify_packet_header pkt)) = seg 0 8 bs @ echo_frame (drop 8 bs)"
proof -
  have "drop 43 bs = seg 43 9 bs" using assms(1) by (simp add: seg_def)
  then have echo: "echo_frame (drop 8 bs) = seg 14 6 bs @ seg 8 6 bs @ seg 20 14 bs
      @ seg 38 4 bs @ seg 34 4 bs @ [if bs ! 31 = 1 then 0 else bs ! 42] @ seg 43 9 bs"
    using assms(1) by (simp add: echo_frame_def seg_drop)
  have cut: "seg 20 14 bs = seg 20 2 bs @ seg 22 9 bs @ [bs ! 31] @ seg 32 2 bs"
    "seg 43 9 bs = seg 43 7 bs @ seg 50 2 bs" "seg 0 8 bs = seg 0 4 bs @ seg 4 4 bs"
    using assms(1) by (simp_all add: seg_one [symmetric] seg_simps)
  show ?thesis using assms unfolding echo cut
    by (auto simp: modify_packet_header_def rfc_hdr_bytes_def rfc_bytes_hdr_def Let_def)
qed

lemma modify_hdr_wf: "hdr_wf (hdr pkt) \<Longrightarrow> hdr_wf (hdr (modify_packet_header pkt))"
  by (simp add: modify_packet_header_def hdr_wf_def Let_def)

lemma nbi_meta_modify [simp]: "nbi_meta (modify_packet_header pkt) = nbi_meta pkt"
  by (simp add: modify_packet_header_def Let_def)

lemma mem_rd_wr_inside [mem_simps]:
  assumes "x + k \<le> length bs" "length bs \<le> 2 ^ 64"
  shows "mem_rd (mem_wr m a bs) (a + of_nat x) k = seg x k bs"
proof (intro nth_equalityI)
  fix i assume "i < length (mem_rd (mem_wr m a bs) (a + of_nat x) k)"
  then have i: "i < k" by simp
  then have "mem_wr m a bs (a + of_nat (x + i)) = bs ! (x + i)"
    using assms by (intro mem_wr_same) auto
  then show "mem_rd (mem_wr m a bs) (a + of_nat x) k ! i = seg x k bs ! i"
    using i assms(1) by (simp add: seg_def add.assoc)
qed (use assms in simp)

text \<open>Writing a header back changes the first 44 bytes of the frame and nothing else.\<close>

lemma frame_header_write:
  assumes K: "ctm_ptr_ok K" and n: "44 \<le> n" and bufs: "pkt_bufs_ok K m n"
    and len: "length hb = 52"
  shows "rx_frame K m n (mem_wr mm (pkt_ctm_ptr40 K (isl m) (pnum m) 64) hb) =
    drop 8 hb @ drop 44 (rx_frame K m n mm)"
proof -
  define a where "a = pkt_ctm_ptr40 K (isl m) (pnum m) 0"
  have c: "pkt_ctm_ptr40 K (isl m) (pnum m) 64 = a + of_nat 64"
    "pkt_ctm_ptr40 K (isl m) (pnum m) 72 = a + of_nat 72"
    using ctm_ptr_off [OF K, of 64 "isl m" "pnum m"] ctm_ptr_off [OF K, of 72 "isl m" "pnum m"]
    by (simp_all add: a_def)
  define r where "r = min 184 n - 44"
  have r: "min 184 n = 44 + r" "r \<le> 140" using n by (auto simp: r_def)
  define mm' where "mm' = mem_wr mm (a + of_nat 64) hb"
  have bufs': "disj_range a 256 (mu_addr (muptr m)) (256 + n)"
    using bufs by (simp add: pkt_bufs_ok_def a_def)
  have "disj_range (a + of_nat 64) 52 (mu_addr (muptr m) + of_nat 256) (n - 184)"
    using bufs' by (rule disj_range_sub) simp_all
  then have mu: "mem_rd mm' (mu_addr (muptr m) + 256) (n - 184) =
      mem_rd mm (mu_addr (muptr m) + 256) (n - 184)"
    by (simp add: mm'_def mem_rd_wr_disj len)
  have "disj_range (a + of_nat 64) 52 (a + of_nat 116) r"
    using r(2) by (rule_tac L = 256 in disj_range_offsets) simp_all
  then have rest: "mem_rd mm' (a + of_nat 116) r = mem_rd mm (a + of_nat 116) r"
    by (simp add: mm'_def mem_rd_wr_disj len del: of_nat_numeral)
  have "mem_rd mm' (a + of_nat 64 + of_nat 8) 44 = seg 8 44 hb"
    unfolding mm'_def by (rule mem_rd_wr_inside) (simp_all add: len)
  then have first: "mem_rd mm' (a + of_nat 72) 44 = drop 8 hb"
    by (simp add: seg_def len add.assoc)
  have split: "mem_rd x (a + of_nat 72) (min 184 n) =
      mem_rd x (a + of_nat 72) 44 @ mem_rd x (a + of_nat 116) r" for x
    unfolding r(1) mem_rd_split by (simp add: add.assoc)
  have "mem_wr mm (pkt_ctm_ptr40 K (isl m) (pnum m) 64) hb = mm'" by (simp add: c mm'_def)
  then show ?thesis
    using first rest mu split [of mm'] split [of mm] by (simp add: pkt_bytes_def c)
qed

text \<open>The firmware's header path implements \<open>echo_frame\<close>.\<close>

lemma header_path_echo:
  assumes K: "sdk_ok K" and n: "44 \<le> n" and bufs: "pkt_bufs_ok K (nbi_meta pkt) n"
    and hdr: "hdr pkt = bytes_hdr K (mem_rd (mem40 s)
               (pkt_ctm_ptr40 K (isl (nbi_meta pkt)) (pnum (nbi_meta pkt)) PKT_NBI_OFFSET) pkt_hdr_sz)"
  shows "rx_frame K (nbi_meta pkt) n (mem40 (write_packet_header K (modify_packet_header pkt) s)) =
    echo_frame (rx_frame K (nbi_meta pkt) n (mem40 s))"
proof -
  define m where "m = nbi_meta pkt"
  define bs where "bs = mem_rd (mem40 s) (pkt_ctm_ptr40 K (isl m) (pnum m) 64) 52"
  have len: "length bs = 52" by (simp add: bs_def)
  have hdr': "hdr pkt = rfc_bytes_hdr bs"
    using K hdr by (simp add: sdk_ok_def hdr_layout_ok_def bs_def m_def pkt_hdr_sz_def pkt_consts)
  have hb: "hdr_bytes K (hdr (modify_packet_header pkt)) = seg 0 8 bs @ echo_frame (drop 8 bs)"
    using K rfc_bytes_hdr_wf [OF len] modify_header_bytes [OF len hdr'] modify_hdr_wf [of pkt] hdr'
    by (simp add: sdk_ok_def hdr_layout_ok_def)
  have d: "length (echo_frame (drop 8 bs)) = 44" by (simp add: length_echo_frame len)
  have c: "ctm_ptr_ok K" using K by (simp add: sdk_ok_def)
  have f: "take 44 (rx_frame K m n (mem40 s)) = drop 8 bs"
  proof -
    have p: "pkt_ctm_ptr40 K (isl m) (pnum m) 72 = pkt_ctm_ptr40 K (isl m) (pnum m) 64 + of_nat 8"
      using ctm_ptr_off [OF c, of 72 "isl m" "pnum m"] ctm_ptr_off [OF c, of 64 "isl m" "pnum m"]
      by (simp add: add.assoc)
    show ?thesis using n
      by (simp add: pkt_bytes_def bs_def drop_mem_rd take_mem_rd p)
  qed
  have "mem40 (write_packet_header K (modify_packet_header pkt) s) =
      mem_wr (mem40 s) (pkt_ctm_ptr40 K (isl m) (pnum m) 64) (seg 0 8 bs @ echo_frame (drop 8 bs))"
    using hb by (simp add: write_packet_header_def m_def pkt_consts Let_def)
  then have "rx_frame K m n (mem40 (write_packet_header K (modify_packet_header pkt) s)) =
      echo_frame (drop 8 bs) @ drop 44 (rx_frame K m n (mem40 s))"
    using frame_header_write [OF c n bufs, of "seg 0 8 bs @ echo_frame (drop 8 bs)"] len d
    by (simp add: m_def)
  also have "\<dots> = echo_frame (drop 8 bs @ drop 44 (rx_frame K m n (mem40 s)))"
    by (simp add: echo_frame_append len)
  finally show ?thesis using f by (metis append_take_drop_id m_def)
qed

section \<open>The filter on bytes\<close>

lemma be_word_eq_iff:
  "8 * length bs \<le> LENGTH('a) \<Longrightarrow> LENGTH('a) \<le> 8 * length bs \<Longrightarrow>
     (be_word bs = (w :: 'a::len word)) \<longleftrightarrow> bs = be_bytes (length bs) w"
  by (metis be_bytes_word be_word_bytes)

lemma be_bytes_0x800: "be_bytes 2 (0x0800 :: u16) = [0x08, 0x00]"
  by code_simp

lemma filter_packets_frame:
  assumes K: "sdk_ok K" and n: "n = unat packet_size" "44 \<le> n"
    and len: "8 \<le> unat (pkt_len (nbi_meta pkt))"
    and hdr: "hdr pkt = bytes_hdr K (mem_rd mm
               (pkt_ctm_ptr40 K (isl (nbi_meta pkt)) (pnum (nbi_meta pkt)) PKT_NBI_OFFSET) pkt_hdr_sz)"
  shows "filter_packets packet_size pkt = ALLOW \<longleftrightarrow>
    accept_frame n (rx_frame K (nbi_meta pkt) (unat (pkt_len (nbi_meta pkt)) - 8) mm)"
proof -
  define m where "m = nbi_meta pkt"
  define a where "a = pkt_ctm_ptr40 K (isl m) (pnum m) 0"
  define bs where "bs = mem_rd mm (a + 64) 52"
  have c: "ctm_ptr_ok K" using K by (simp add: sdk_ok_def)
  have p: "pkt_ctm_ptr40 K (isl m) (pnum m) 64 = a + 64" "pkt_ctm_ptr40 K (isl m) (pnum m) 72 = a + 72"
    using ctm_ptr_off [OF c, of 64 "isl m" "pnum m"] ctm_ptr_off [OF c, of 72 "isl m" "pnum m"]
    by (simp_all add: a_def)
  have h: "hdr pkt = rfc_bytes_hdr bs"
    using K hdr p by (simp add: sdk_ok_def hdr_layout_ok_def bs_def pkt_hdr_sz_def pkt_consts flip: m_def)
  have sz: "ucast (pkt_len m) - 2 * MAC_PREPEND_BYTES = packet_size \<longleftrightarrow> unat (pkt_len m) - 8 = n"
  proof -
    have "unat (ucast (pkt_len m) :: u32) = unat (pkt_len m)" by (simp add: unat_ucast_up)
    then have "unat (ucast (pkt_len m) - (8::u32)) = unat (pkt_len m) - 8"
      using len by (simp add: unat_sub_small m_def)
    then show ?thesis using n by (simp add: word_unat_eq_iff pkt_consts)
  qed
  show ?thesis
  proof (cases "unat (pkt_len m) - 8 = n")
    case False
    then show ?thesis using sz
      by (simp add: filter_packets_def accept_frame_def flip: m_def)
  next
    case True
    define f where "f = rx_frame K m n mm"
    have "mem_rd mm (a + 72) (min 184 n) ! i = bs ! (8 + i)" if "i < 44" for i
      using that n(2) by (simp add: bs_def add.assoc)
    then have nth: "f ! i = bs ! (8 + i)" if "i < 44" for i
      using that n(2) by (simp add: f_def pkt_bytes_def p nth_append)
    have "seg 12 2 f = seg 20 2 bs"
    proof (intro nth_equalityI)
      fix i assume "i < length (seg 12 2 f)"
      then have "i < 2" by simp
      then show "seg 12 2 f ! i = seg 20 2 bs ! i"
        using nth [of "12 + i"] n(2) by (simp add: seg_def f_def bs_def)
    qed (use n in \<open>simp add: f_def bs_def\<close>)
    then have ty: "eth_type (hdr pkt) = NET_ETH_TYPE_IPV4 \<longleftrightarrow> seg 12 2 f = [0x08, 0x00]"
      using be_word_eq_iff [of "seg 20 2 bs", where 'a = 16, of "0x0800"]
      by (simp add: h rfc_bytes_hdr_def bs_def be_bytes_0x800)
    have "ip_proto (hdr pkt) = f ! 23" using nth [of 23] by (simp add: h rfc_bytes_hdr_def)
    then show ?thesis using ty sz True
      by (auto simp: filter_packets_def accept_frame_def f_def simp flip: m_def)
  qed
qed

lemma accept_echo_frame:
  assumes "accept_frame n f" "44 \<le> n"
  shows "accept_frame n (echo_frame f)"
proof -
  have len: "length f = n" using assms by (simp add: accept_frame_def)
  have "seg 12 2 (echo_frame f) = seg 12 2 f" "echo_frame f ! 23 = f ! 23"
    using len assms(2) by (simp_all add: echo_frame_def seg_def nth_append drop_take)
  then show ?thesis using assms length_echo_frame [of f] by (simp add: accept_frame_def)
qed

lemma echo_frame_icmp_reply: "35 \<le> length f \<Longrightarrow> f ! 23 = 1 \<Longrightarrow> echo_frame f ! 34 = 0"
  by (simp add: echo_frame_def nth_append)

lemma nth_seg: "k < n \<Longrightarrow> i + k < length xs \<Longrightarrow> seg i n xs ! k = xs ! (i + k)"
  by (simp add: seg_def)

lemma echo_frame_twice:
  assumes "44 \<le> length f" "f ! 23 \<noteq> 1"
  shows "echo_frame (echo_frame f) = f"
proof -
  have l: "length (seg i n f) = n" if "i + n \<le> 44" for i n using assms(1) that by simp
  have cut: "f = seg 0 6 f @ seg 6 6 f @ seg 12 14 f @ seg 26 4 f @ seg 30 4 f @ [f ! 34] @ drop 35 f"
    using assms(1) by (simp add: seg_one [symmetric] seg_simps) (simp add: seg_def)
  have "echo_frame f ! 23 = f ! 23" using assms(1) by (simp add: echo_frame_def nth_append nth_seg)
  moreover have "echo_frame f ! 34 = f ! 34" using assms by (simp add: echo_frame_def nth_append)
  moreover have "seg 0 6 (echo_frame f) = seg 6 6 f" "seg 6 6 (echo_frame f) = seg 0 6 f"
    "seg 12 14 (echo_frame f) = seg 12 14 f" "seg 26 4 (echo_frame f) = seg 30 4 f"
    "seg 30 4 (echo_frame f) = seg 26 4 f" "drop 35 (echo_frame f) = drop 35 f"
    using assms(1) by (simp_all add: echo_frame_def seg_def)
  ultimately show ?thesis
    using assms(2) cut by (subst echo_frame_def) simp
qed

section \<open>Whole-frame DMA\<close>

abbreviation dma_cfg_set :: nfp_pcie_dma_cfg where
  "dma_cfg_set \<equiv> \<lparr>target_64_even = 1, cpp_target_even = 7, target_64_odd = 1, cpp_target_odd = 7\<rparr>"

lemma unat_min_u32: "unat (min a (b :: u32)) = min (unat a) (unat b)"
  by (auto simp: min_def word_le_nat_alt)

lemma ucast_u32_of_nat: "(ucast (x :: u32) :: u64) = of_nat (unat x)"
  by (simp add: word_unat_eq_iff unat_ucast_up)

lemma dma_packet_send_bytes:
  assumes K: "dma_engine_ok K" and len: "9 \<le> unat (pkt_len (nbi_meta pkt))"
  shows "dma_packet_send K cx pkt pa s =
    s\<lparr>pci_mem := mem_wr (pci_mem s) pa
        (mem_rd (mem40 s) (pkt_ctm_ptr40 K (isl (nbi_meta pkt)) (pnum (nbi_meta pkt)) 72)
           (min 184 (unat (pkt_len (nbi_meta pkt)) - 8))
         @ mem_rd (mem40 s) (pkt_mu_buffer (muptr (nbi_meta pkt))) (unat (pkt_len (nbi_meta pkt)) - 8 - 184)),
      dma_cfg := dma_cfg_set\<rparr>"
proof -
  define m where "m = nbi_meta pkt"
  define L :: u32 where "L = ucast (pkt_len m) - 8"
  define C where "C = min 184 L"
  have L: "unat L = unat (pkt_len m) - 8"
    using len by (simp add: L_def m_def unat_sub_small unat_ucast_up)
  have C: "unat C = min 184 (unat L)" by (simp add: C_def unat_min_u32)
  have B: "unat (L - C) = unat L - 184" using C by (simp add: unat_sub_small)
  have pos: "0 < unat C" using C L len by (simp add: m_def)
  have gt: "L - C > 0 \<longleftrightarrow> 0 < unat L - 184" by (simp add: word_less_nat_alt B)
  have send: "dma_packet_send K cx pkt pa s =
     (let s1 = dma_op K cx (ctm_signo K) (pkt_ctm_ptr40 K (isl m) (pnum m) 72) C pa
                 NFP_PCIE_DMA_TOPCI_HI s
      in if L - C > 0
         then dma_op K cx (buf_signo K) (pkt_mu_buffer (muptr m)) (L - C) (pa + ucast C)
                NFP_PCIE_DMA_TOPCI_HI s1
         else s1)"
    by (simp add: dma_packet_send_def Let_def pkt_consts C_def L_def m_def)
  show ?thesis
  proof (cases "0 < unat L - 184")
    case True
    then have two: "dma_packet_send K cx pkt pa s =
        s\<lparr>pci_mem := mem_wr (mem_wr (pci_mem s) pa
             (mem_rd (mem40 s) (pkt_ctm_ptr40 K (isl m) (pnum m) 72) (min 184 (unat L))))
             (pa + of_nat (min 184 (unat L)))
             (mem_rd (mem40 s) (pkt_mu_buffer (muptr m)) (unat L - 184)),
          dma_cfg := dma_cfg_set\<rparr>"
      using gt B C by (simp add: send Let_def dma_op_topci [OF K pos] dma_op_topci [OF K, of "L - C"]
          ucast_u32_of_nat)
    show ?thesis unfolding two L [symmetric] m_def [symmetric] mem_wr_append
      by (simp add: min.commute)
  next
    case False
    then have "\<not> L - C > 0" using gt by simp
    then show ?thesis using False C
      by (simp add: send Let_def dma_op_topci [OF K pos] flip: L m_def)
  qed
qed

lemma dma_packet_send_frame:
  assumes K: "dma_engine_ok K" and len: "9 \<le> unat (pkt_len (nbi_meta pkt))"
    and low: "192 < unat (pkt_len (nbi_meta pkt)) \<Longrightarrow> unat (muptr (nbi_meta pkt)) < 2 ^ 21"
  shows "dma_packet_send K cx pkt pa s =
    s\<lparr>pci_mem := mem_wr (pci_mem s) pa
        (rx_frame K (nbi_meta pkt) (unat (pkt_len (nbi_meta pkt)) - 8) (mem40 s)),
      dma_cfg := dma_cfg_set\<rparr>"
  using dma_packet_send_bytes [OF K len, of cx pa s] mu_part_low [OF low]
  by (cases "192 < unat (pkt_len (nbi_meta pkt))") (simp_all add: pkt_bytes_def)

lemma dma_packet_recv_writes:
  assumes K: "dma_engine_ok K" and len: "0 < unat len"
  shows "dma_packet_recv K cx pkt len pa s =
    s\<lparr>mem40 := mem_wr (mem_wr (mem40 s)
          (pkt_ctm_ptr40 K (isl (nbi_meta pkt)) (pnum (nbi_meta pkt)) 68)
          (mem_rd (pci_mem s) pa (min 188 (unat len))))
        (pkt_mu_buffer (muptr (nbi_meta pkt)))
        (mem_rd (pci_mem s) (pa + of_nat (min 188 (unat len))) (unat len - 188)),
      dma_cfg := dma_cfg_set\<rparr>"
proof -
  define m where "m = nbi_meta pkt"
  define C where "C = min 188 len"
  have C: "unat C = min 188 (unat len)" by (simp add: C_def unat_min_u32)
  have B: "unat (len - C) = unat len - 188" using C by (simp add: unat_sub_small)
  have pos: "0 < unat C" using C len by simp
  have gt: "len - C > 0 \<longleftrightarrow> 0 < unat len - 188" by (simp add: word_less_nat_alt B)
  have recv: "dma_packet_recv K cx pkt len pa s =
     (let s1 = dma_op K cx (ctm_signo K) (pkt_ctm_ptr40 K (isl m) (pnum m) 68) C pa
                 NFP_PCIE_DMA_FROMPCI_HI s
      in if len - C > 0
         then dma_op K cx (buf_signo K) (pkt_mu_buffer (muptr m)) (len - C) (pa + ucast C)
                NFP_PCIE_DMA_FROMPCI_HI s1
         else s1)"
    by (simp add: dma_packet_recv_def Let_def pkt_consts C_def m_def)
  show ?thesis
  proof (cases "0 < unat len - 188")
    case True
    then show ?thesis
      using gt B C by (simp add: recv Let_def dma_op_frompci [OF K pos]
          dma_op_frompci [OF K, of "len - C"] ucast_u32_of_nat m_def)
  next
    case False
    then have "\<not> len - C > 0" using gt by simp
    then show ?thesis using False C
      by (simp add: recv Let_def dma_op_frompci [OF K pos] flip: m_def)
  qed
qed

lemma dma_packet_recv_frame:
  assumes K: "dma_engine_ok K" "ctm_ptr_ok K" and len: "0 < unat len"
    and bufs: "pkt_bufs_ok K (nbi_meta pkt) (unat len)"
    and low: "188 < unat len \<Longrightarrow> unat (muptr (nbi_meta pkt)) < 2 ^ 21"
  shows "tx_frame K (nbi_meta pkt) (unat len) (mem40 (dma_packet_recv K cx pkt len pa s)) =
    mem_rd (pci_mem s) pa (unat len)"
proof -
  define m where "m = nbi_meta pkt"
  define n where "n = unat len"
  define a where "a = pkt_ctm_ptr40 K (isl m) (pnum m) 0"
  define k where "k = min 188 n"
  have n: "n < 2 ^ 32" using unsigned_less [of len] by (simp add: n_def)
  have p: "pkt_ctm_ptr40 K (isl m) (pnum m) 68 = a + of_nat 68"
    using ctm_ptr_off [OF K(2), of 68 "isl m" "pnum m"] by (simp add: a_def)
  let ?x = "mem_rd (pci_mem s) pa k" and ?y = "mem_rd (pci_mem s) (pa + of_nat k) (n - 188)"
  let ?m1 = "mem_wr (mem40 s) (a + of_nat 68) ?x" and ?mu = "mu_addr (muptr m) + of_nat 256"
  have d: "disj_range ?mu (n - 188) (a + of_nat 68) k"
    using bufs unfolding pkt_bufs_ok_def m_def [symmetric] n_def [symmetric] a_def [symmetric]
    by (intro disj_range_sym [OF disj_range_sub, of a 256 "mu_addr (muptr m)"])
      (auto simp: k_def)
  have "mem_rd (mem_wr ?m1 ?mu ?y) (a + of_nat 68) k = ?x"
    using mem_rd_wr_disj [of ?mu ?y "a + of_nat 68" k ?m1] d
      mem_rd_wr_same [of ?x k "mem40 s" "a + of_nat 68"] n by (simp add: k_def)
  moreover have "mem_rd (mem_wr ?m1 ?mu ?y) ?mu (n - 188) = ?y"
    using n by (intro mem_rd_wr_same) auto
  moreover have "mem40 (dma_packet_recv K cx pkt len pa s) = mem_wr ?m1 ?mu ?y"
    using dma_packet_recv_writes [OF K(1) len, of cx pkt pa s] mu_part_low [OF low]
    by (cases "188 < n") (simp_all add: k_def p flip: m_def n_def)
  ultimately have "tx_frame K m n (mem40 (dma_packet_recv K cx pkt len pa s)) = ?x @ ?y"
    by (simp add: pkt_bytes_def p k_def)
  also have "\<dots> = mem_rd (pci_mem s) pa (k + (n - 188))" by (simp add: mem_rd_split)
  also have "k + (n - 188) = n" by (simp add: k_def)
  finally show ?thesis by (simp add: m_def n_def)
qed

end
