(* ===== verification/Device_Config.thy ===== *)
theory Device_Config
  imports Byte_Codec
begin

text \<open>
  The block of configuration words and ring cursors that host and firmware share
  (devcfg.h), the sizes the host is compiled with (user/config.h) and the register
  accessors of user/lib/io.h.
\<close>

section \<open>The shared block\<close>

record device_meta_t =
  rx_buffer_iova :: u64
  tx_buffer_iova :: u64
  buffer_size :: u32
  cfg_packet_size :: u32
  start_signal :: u64
  rx_head :: u32
  rx_tail :: u32
  tx_head :: u32
  tx_tail :: u32

definition UDP_PACKET_SIZE :: u32 where "UDP_PACKET_SIZE = 64"
definition RING_BUFFER_SIZE :: u32 where "RING_BUFFER_SIZE = 512"

lemmas size_consts = UDP_PACKET_SIZE_def RING_BUFFER_SIZE_def

section \<open>Register accesses\<close>

text \<open>\<open>rte_read32\<close> and its siblings are plain loads and stores of the little-endian host; a
  64-bit access is two 32-bit ones, high half first.\<close>

definition nn_readb :: "mem \<Rightarrow> u64 \<Rightarrow> u8" where
  "nn_readb m a = m a"

definition nn_writeb :: "u8 \<Rightarrow> u64 \<Rightarrow> mem \<Rightarrow> mem" where
  "nn_writeb v a m = m(a := v)"

definition nn_readl :: "mem \<Rightarrow> u64 \<Rightarrow> u32" where
  "nn_readl m a = le_word (mem_rd m a 4)"

definition nn_writel :: "u32 \<Rightarrow> u64 \<Rightarrow> mem \<Rightarrow> mem" where
  "nn_writel v a m = mem_wr m a (le_bytes 4 v)"

definition nn_writew :: "u16 \<Rightarrow> u64 \<Rightarrow> mem \<Rightarrow> mem" where
  "nn_writew v a m = mem_wr m a (le_bytes 2 v)"

definition nn_readq :: "mem \<Rightarrow> u64 \<Rightarrow> u64" where
  "nn_readq m a =
     (let high = nn_readl m (a + 4); low = nn_readl m a
      in ucast low + push_bit 32 (ucast high))"

definition nn_writeq :: "u64 \<Rightarrow> u64 \<Rightarrow> mem \<Rightarrow> mem" where
  "nn_writeq v a m = nn_writel (ucast v) a (nn_writel (ucast (drop_bit 32 v)) (a + 4) m)"

lemma nn_readl_writel_same: "nn_readl (nn_writel v a m) a = v"
  by (simp add: nn_readl_def nn_writel_def mem_rd_wr_same)

lemma nn_readl_writel_disj:
  "disj_range a 4 b 4 \<Longrightarrow> nn_readl (nn_writel v a m) b = nn_readl m b"
  unfolding nn_readl_def nn_writel_def by (subst mem_rd_wr_disj) simp_all

lemma disj_halves: "disj_range a 4 (a + 4) 4"
  using disj_range_offsets [of 4 0 4 4 8 a] by simp

text \<open>The two halves of a 64-bit value add up without a carry.\<close>

lemma halves_add:
  "ucast (ucast v :: u32) + push_bit 32 (ucast (ucast (drop_bit 32 v) :: u32)) = (v :: u64)"
proof -
  have disj: "ucast (ucast v :: u32) AND push_bit 32 (ucast (ucast (drop_bit 32 v) :: u32)) = (0 :: u64)"
    by (rule bit_word_eqI) (auto simp: bit_and_iff bit_push_bit_iff bit_unsigned_iff)
  have "ucast (ucast v :: u32) OR push_bit 32 (ucast (ucast (drop_bit 32 v) :: u32)) = v"
  proof (rule bit_word_eqI)
    fix k assume k: "k < LENGTH(64)"
    show "bit (ucast (ucast v :: u32) OR push_bit 32 (ucast (ucast (drop_bit 32 v) :: u32)) :: u64) k = bit v k"
    proof (cases "k < 32")
      case True
      then show ?thesis using k by (simp add: bit_or_iff bit_push_bit_iff bit_unsigned_iff)
    next
      case False
      then have "k - 32 < 32" "32 + (k - 32) = k" using k by simp_all
      then show ?thesis using False k
        by (simp add: bit_or_iff bit_push_bit_iff bit_unsigned_iff bit_drop_bit_eq)
    qed
  qed
  then show ?thesis using disj by (simp add: disjunctive_add_eq_or)
qed

lemma nn_readq_writeq: "nn_readq (nn_writeq v a m) a = v"
proof -
  let ?m1 = "nn_writel (ucast (drop_bit 32 v)) (a + 4) m"
  have "nn_readl (nn_writeq v a m) (a + 4) = nn_readl ?m1 (a + 4)"
    unfolding nn_writeq_def using disj_halves by (rule nn_readl_writel_disj)
  then have hi: "nn_readl (nn_writeq v a m) (a + 4) = ucast (drop_bit 32 v)"
    by (simp add: nn_readl_writel_same)
  have lo: "nn_readl (nn_writeq v a m) a = ucast v"
    by (simp add: nn_writeq_def nn_readl_writel_same)
  show ?thesis unfolding nn_readq_def Let_def hi lo by (rule halves_add)
qed

section \<open>Configuring the device\<close>

text \<open>\<open>configure_device\<close> fills the block and, behind a write barrier, raises the start signal.\<close>

definition configure_fields :: "u64 \<Rightarrow> u64 \<Rightarrow> device_meta_t \<Rightarrow> device_meta_t" where
  "configure_fields rx_iova tx_iova meta =
     meta\<lparr>cfg_packet_size := UDP_PACKET_SIZE, buffer_size := RING_BUFFER_SIZE,
          rx_buffer_iova := rx_iova, tx_buffer_iova := tx_iova,
          rx_head := 0, rx_tail := 0, tx_head := 0, tx_tail := 0\<rparr>"

definition configure_device :: "u64 \<Rightarrow> u64 \<Rightarrow> device_meta_t \<Rightarrow> device_meta_t" where
  "configure_device rx_iova tx_iova meta =
     (configure_fields rx_iova tx_iova meta)\<lparr>start_signal := 1\<rparr>"

end
