(* ===== verification/Ring_Arith.thy ===== *)
theory Ring_Arith
  imports Nfp_Prelude
begin

text \<open>
  Cursor arithmetic of the two packet rings. Host library and firmware both advance a
  byte offset by the entry size and reset it to zero at the capacity; the theory relates
  such 32-bit offsets to unbounded sequence numbers, and states the contract of a
  bounded ring of slots as a locale, which the host's ring buffer interprets.
\<close>

section \<open>Advancing a cursor\<close>

definition ring_advance :: "u32 \<Rightarrow> u32 \<Rightarrow> u32 \<Rightarrow> u32" where
  "ring_advance sz cap x = (let x' = x + sz in if x' \<ge> cap then 0 else x')"

text \<open>The geometry of a ring: \<open>n\<close> slots of \<open>e\<close> bytes, at least two of them, with a
  capacity that a 32-bit offset can hold.\<close>

definition ring_geom :: "nat \<Rightarrow> nat \<Rightarrow> bool" where
  "ring_geom e n \<longleftrightarrow> 0 < e \<and> 1 < n \<and> e * n < 2 ^ 32"

text \<open>The byte offset of the slot that holds the entry with sequence number \<open>k\<close>.\<close>

definition ring_pos :: "nat \<Rightarrow> nat \<Rightarrow> nat \<Rightarrow> u32" where
  "ring_pos e n k = of_nat ((k mod n) * e)"

lemma ring_geomD:
  assumes "ring_geom e n"
  shows "0 < e" "1 < n" "0 < n" "e * n < 2 ^ 32" "e < 2 ^ 32" "n < 2 ^ 32"
proof -
  have e: "0 < e" and n: "1 < n" and en: "e * n < 2 ^ 32"
    using assms by (auto simp: ring_geom_def)
  have "e \<le> e * n" "n \<le> e * n" using e n by simp_all
  then show "e < 2 ^ 32" "n < 2 ^ 32" using en by linarith+
  show "0 < e" "1 < n" "0 < n" "e * n < 2 ^ 32" using e n en by simp_all
qed

lemma slot_offset_bound:
  assumes "ring_geom e n"
  shows "(k mod n) * e + e \<le> e * n"
proof -
  have "k mod n < n" using ring_geomD(3) [OF assms] by simp
  then have "Suc (k mod n) * e \<le> n * e" by (intro mult_le_mono1) simp
  then show ?thesis by (simp add: mult.commute)
qed

lemma unat_ring_pos [word_facts]:
  assumes "ring_geom e n"
  shows "unat (ring_pos e n k) = (k mod n) * e"
  unfolding ring_pos_def
  using slot_offset_bound [OF assms, of k] ring_geomD(4) [OF assms]
  by (simp add: unat_of_nat del: of_nat_mult)

lemma ring_pos_eq_iff:
  assumes "ring_geom e n"
  shows "ring_pos e n j = ring_pos e n k \<longleftrightarrow> j mod n = k mod n"
proof -
  have "ring_pos e n j = ring_pos e n k \<longleftrightarrow> (j mod n) * e = (k mod n) * e"
    using unat_ring_pos [OF assms] by (metis word_unat_eq_iff)
  then show ?thesis using ring_geomD(1) [OF assms] by simp
qed

text \<open>Sequence numbers less than \<open>n\<close> apart are told apart by their offsets.\<close>

lemma ring_pos_eq_close:
  assumes "ring_geom e n" "j \<le> k" "k < j + n"
  shows "ring_pos e n j = ring_pos e n k \<longleftrightarrow> j = k"
proof -
  have "j = k" if "j mod n = k mod n"
  proof -
    have "n dvd k - j" using that assms(2) mod_eq_dvd_iff_nat by metis
    moreover have "k - j < n" using assms(2,3) by linarith
    ultimately have "k - j = 0" using nat_dvd_not_less by blast
    then show ?thesis using assms(2) by simp
  qed
  then show ?thesis using ring_pos_eq_iff [OF assms(1)] by blast
qed

lemma ring_pos_0 [simp]: "ring_pos e n 0 = 0"
  by (simp add: ring_pos_def)

lemma ring_advance_pos:
  assumes g: "ring_geom e n"
  shows "ring_advance (of_nat e) (of_nat (e * n)) (ring_pos e n k) = ring_pos e n (Suc k)"
proof -
  note b = ring_geomD [OF g]
  let ?x = "ring_pos e n k"
  have ue: "unat (of_nat e :: u32) = e" and uc: "unat (of_nat (e * n) :: u32) = e * n"
    using b by (simp_all add: unat_of_nat del: of_nat_mult)
  have sum: "unat (?x + of_nat e) = Suc (k mod n) * e"
  proof -
    have "unat ?x + unat (of_nat e :: u32) < 2 ^ LENGTH(32)"
      using slot_offset_bound [OF g, of k] b(4) by (simp add: unat_ring_pos [OF g] ue)
    then have "unat (?x + of_nat e) = unat ?x + unat (of_nat e :: u32)"
      by (rule unat_add_small)
    then show ?thesis by (simp add: unat_ring_pos [OF g] ue)
  qed
  show ?thesis
  proof (cases "Suc (k mod n) = n")
    case True
    then have "?x + of_nat e \<ge> of_nat (e * n)"
      using sum uc by (simp add: word_le_nat_alt mult.commute)
    moreover have "Suc k mod n = 0" using True by (simp add: mod_Suc)
    ultimately show ?thesis by (simp add: ring_advance_def Let_def ring_pos_def)
  next
    case False
    then have lt: "Suc (k mod n) < n" using b(3) mod_less_divisor [of n k] by linarith
    then have "Suc (k mod n) * e < n * e" using b(1) by (intro mult_less_mono1)
    then have "\<not> ?x + of_nat e \<ge> of_nat (e * n)"
      using sum uc by (simp add: word_le_nat_alt mult.commute)
    moreover have "?x + of_nat e = ring_pos e n (Suc k)"
      using lt by (simp add: ring_pos_def mod_Suc add.commute)
    ultimately show ?thesis by (simp add: ring_advance_def Let_def)
  qed
qed

text \<open>The modulo form of the next offset, as the host's full test computes it.\<close>

lemma ring_pos_mod:
  assumes g: "ring_geom e n"
  shows "(ring_pos e n k + of_nat e) mod of_nat (e * n) = ring_pos e n (Suc k)"
proof -
  note b = ring_geomD [OF g]
  have ue: "unat (of_nat e :: u32) = e" and uc: "unat (of_nat (e * n) :: u32) = e * n"
    using b by (simp_all add: unat_of_nat del: of_nat_mult)
  have sm: "unat (ring_pos e n k) + unat (of_nat e :: u32) < 2 ^ LENGTH(32)"
    using slot_offset_bound [OF g, of k] b(4) by (simp add: unat_ring_pos [OF g] ue)
  have "unat ((ring_pos e n k + of_nat e) mod of_nat (e * n)) =
      ((k mod n) * e + e) mod (e * n)"
    using unat_add_small [OF sm] by (simp add: unat_mod unat_ring_pos [OF g] ue uc del: of_nat_mult)
  also have "\<dots> = (Suc (k mod n) * e) mod (n * e)"
    by (simp add: mult.commute add.commute)
  also have "\<dots> = (Suc (k mod n) mod n) * e" by (rule mod_mult_mult2)
  also have "\<dots> = (Suc k mod n) * e" by (simp add: mod_Suc_eq)
  finally show ?thesis using unat_ring_pos [OF g, of "Suc k"] by (metis word_unat_eq_iff)
qed

section \<open>The contract of a bounded ring of slots\<close>

text \<open>
  A ring is seen through the list of the slot numbers it holds, oldest first. The laws
  say what the tests answer and what the two operations do to that list; a full ring
  refuses a push and an empty ring refuses a pop. One slot always stays free.
\<close>

locale slot_ring =
  fixes invar :: "'r \<Rightarrow> bool"
    and nslots :: "'r \<Rightarrow> nat"
    and slots :: "'r \<Rightarrow> nat list"
    and free_slot :: "'r \<Rightarrow> nat"
    and push :: "'r \<Rightarrow> 'r option"
    and pop :: "'r \<Rightarrow> 'r option"
  assumes slots_bound: "invar r \<Longrightarrow> length (slots r) < nslots r"
    and slots_distinct: "invar r \<Longrightarrow> distinct (slots r)"
    and slot_free: "invar r \<Longrightarrow> free_slot r < nslots r \<and> free_slot r \<notin> set (slots r)"
    and slots_range: "invar r \<Longrightarrow> set (slots r) \<subseteq> {..<nslots r}"
    and push_Some: "invar r \<Longrightarrow> push r = Some r' \<Longrightarrow>
          invar r' \<and> slots r' = slots r @ [free_slot r] \<and> nslots r' = nslots r"
    and push_iff: "invar r \<Longrightarrow> push r \<noteq> None \<longleftrightarrow> Suc (length (slots r)) < nslots r"
    and pop_Some: "invar r \<Longrightarrow> pop r = Some r' \<Longrightarrow>
          invar r' \<and> slots r' = tl (slots r) \<and> nslots r' = nslots r \<and> free_slot r' = free_slot r"
    and pop_iff: "invar r \<Longrightarrow> pop r \<noteq> None \<longleftrightarrow> slots r \<noteq> []"
begin

text \<open>A sequence of operations that all succeed; \<open>True\<close> is a push.\<close>

fun ring_run :: "bool list \<Rightarrow> 'r \<Rightarrow> 'r option" where
  "ring_run [] r = Some r"
| "ring_run (b # bs) r =
     (case (if b then push r else pop r) of None \<Rightarrow> None | Some r' \<Rightarrow> ring_run bs r')"

lemma ring_run_invar:
  "ring_run bs r = Some r' \<Longrightarrow> invar r \<Longrightarrow> invar r' \<and> nslots r' = nslots r"
proof (induction bs arbitrary: r)
  case (Cons b bs)
  from Cons.prems(1) obtain q
    where q: "(if b then push r else pop r) = Some q" and "ring_run bs q = Some r'"
    by (cases "if b then push r else pop r") simp_all
  moreover have "invar q \<and> nslots q = nslots r"
    using q Cons.prems(2) push_Some [of r q] pop_Some [of r q] by (cases b) auto
  ultimately show ?case using Cons.IH by auto
qed simp

text \<open>The occupancy after a run is the balance of its pushes and pops, and never
  reaches the number of slots.\<close>

lemma ring_run_occupancy:
  "ring_run bs r = Some r' \<Longrightarrow> invar r \<Longrightarrow>
     length (slots r') + count_list bs False = length (slots r) + count_list bs True"
proof (induction bs arbitrary: r)
  case (Cons b bs)
  from Cons.prems(1) obtain q
    where q: "(if b then push r else pop r) = Some q" and run: "ring_run bs q = Some r'"
    by (cases "if b then push r else pop r") simp_all
  have inv: "invar q" using q Cons.prems(2) push_Some [of r q] pop_Some [of r q] by (cases b) auto
  note IH = Cons.IH [OF run inv]
  show ?case
  proof (cases b)
    case True
    then have "slots q = slots r @ [free_slot r]" using q Cons.prems(2) push_Some [of r q] by auto
    then show ?thesis using True IH by simp
  next
    case False
    then have "slots q = tl (slots r)" "slots r \<noteq> []"
      using q Cons.prems(2) pop_Some [of r q] pop_iff [of r] by auto
    then show ?thesis using False IH by (cases "slots r") auto
  qed
qed simp

lemma ring_run_bounded:
  assumes "ring_run bs r = Some r'" "invar r" "slots r = []"
  shows "count_list bs True < nslots r + count_list bs False"
  using ring_run_occupancy [OF assms(1,2)] ring_run_invar [OF assms(1,2)]
    slots_bound [of r'] assms(3) by auto

text \<open>What was pushed into an empty ring comes out first.\<close>

lemma push_then_pop:
  assumes "invar r" "slots r = []" "push r = Some q"
  shows "\<exists>p. pop q = Some p \<and> slots q = [free_slot r] \<and> slots p = []"
proof -
  have q: "invar q" "slots q = [free_slot r]" using push_Some [OF assms(1,3)] assms(2) by auto
  then obtain p where p: "pop q = Some p" using pop_iff [OF q(1)] by auto
  then show ?thesis using pop_Some [OF q(1) p] q(2) by auto
qed

end

end
