(* ===== verification/Firmware_Rx.thy ===== *)
theory Firmware_Rx
  imports Firmware_Packet Device_Config Ring_Arith
begin

text \<open>
  The receive micro-engine (firmware/rx.c): \<open>rx_process\<close> as one function of the values its
  poll of \<open>rx_head\<close> reads, and the same code as a step function with the program points at
  which other parties can interleave. \<open>rx_steps_process\<close> shows that the two agree.
\<close>

section \<open>Local memory and boot\<close>

text \<open>The two words every context of a micro-engine shares in local memory.\<close>

record me_local =
  buffer_capacity :: u32
  packet_size :: u32

definition load_config :: "device_meta_t \<Rightarrow> me_local" where
  "load_config c = \<lparr>buffer_capacity = buffer_size c, packet_size = cfg_packet_size c\<rparr>"

section \<open>One packet\<close>

text \<open>Steps 1 to 5: receive, filter, rewrite and write the header back. \<open>None\<close> is the early
  return after a drop.\<close>

definition rx_accept :: "sdk \<Rightarrow> me_local \<Rightarrow> nbi_meta_t \<Rightarrow> me_state \<Rightarrow> pkt_t option \<times> me_state" where
  "rx_accept K lm meta s =
     (let (pkt, pkt_data) = receive_packet_with_hdrs K meta s
      in case filter_packets (packet_size lm) pkt of
           DROP \<Rightarrow> (None, drop_packet pkt s)
         | ALLOW \<Rightarrow>
             let pkt = modify_packet_header pkt
             in (Some pkt, write_packet_header K pkt s))"

text \<open>Step 6: the loop that reads \<open>rx_head\<close> until the ring has room; the list holds the
  values read.\<close>

fun rx_wait :: "u32 \<Rightarrow> u32 list \<Rightarrow> bool" where
  "rx_wait updated_tail [] = False"
| "rx_wait updated_tail (head # heads) =
     (if updated_tail = head then rx_wait updated_tail heads else True)"

definition rx_process ::
  "sdk \<Rightarrow> u32 \<Rightarrow> me_local \<Rightarrow> nbi_meta_t \<Rightarrow> u32 list \<Rightarrow> device_meta_t \<Rightarrow> me_state
     \<Rightarrow> (device_meta_t \<times> me_state) option" where
  "rx_process K cx lm meta heads c s =
     (case rx_accept K lm meta s of
        (None, s) \<Rightarrow> Some (c, s)
      | (Some pkt, s) \<Rightarrow>
          let tail = rx_tail c;
              updated_tail = tail + packet_size lm;
              updated_tail = (if updated_tail \<ge> buffer_capacity lm then 0 else updated_tail)
          in if rx_wait updated_tail heads
             then let pcie_addr = rx_buffer_iova c + ucast tail;
                      s = dma_packet_send K cx pkt pcie_addr s;
                      c = c\<lparr>rx_tail := updated_tail\<rparr>
                  in Some (c, drop_packet pkt s)
             else None)"

section \<open>The program as steps\<close>

datatype rx_pc =
    RxExit
  | RxBoot
  | RxIdle
  | RxReserve pkt_t
  | RxPoll pkt_t u32 u32
  | RxDma pkt_t u32 u32
  | RxCommit pkt_t u32
  | RxFree pkt_t

text \<open>\<open>main\<close> runs on context 0 only, waits for the start signal, loads the configuration and
  calls \<open>rx_process\<close> for ever.\<close>

definition rx_main :: "u32 \<Rightarrow> rx_pc" where
  "rx_main cx = (if cx \<noteq> 0 then RxExit else RxBoot)"

fun rx_step :: "sdk \<Rightarrow> u32 \<Rightarrow> nbi_meta_t \<Rightarrow> me_local \<times> rx_pc \<times> device_meta_t \<times> me_state
    \<Rightarrow> me_local \<times> rx_pc \<times> device_meta_t \<times> me_state" where
  "rx_step K cx meta (lm, RxExit, c, s) = (lm, RxExit, c, s)"
| "rx_step K cx meta (lm, RxBoot, c, s) =
     (if start_signal c \<noteq> 0 then (load_config c, RxIdle, c, s) else (lm, RxBoot, c, s))"
| "rx_step K cx meta (lm, RxIdle, c, s) =
     (case rx_accept K lm meta s of
        (None, s) \<Rightarrow> (lm, RxIdle, c, s)
      | (Some pkt, s) \<Rightarrow> (lm, RxReserve pkt, c, s))"
| "rx_step K cx meta (lm, RxReserve pkt, c, s) =
     (let updated_tail = rx_tail c + packet_size lm;
          updated_tail = (if updated_tail \<ge> buffer_capacity lm then 0 else updated_tail)
      in (lm, RxPoll pkt (rx_tail c) updated_tail, c, s))"
| "rx_step K cx meta (lm, RxPoll pkt tail updated_tail, c, s) =
     (if updated_tail = rx_head c then (lm, RxPoll pkt tail updated_tail, c, s)
      else (lm, RxDma pkt tail updated_tail, c, s))"
| "rx_step K cx meta (lm, RxDma pkt tail updated_tail, c, s) =
     (lm, RxCommit pkt updated_tail, c,
      dma_packet_send K cx pkt (rx_buffer_iova c + ucast tail) s)"
| "rx_step K cx meta (lm, RxCommit pkt updated_tail, c, s) =
     (lm, RxFree pkt, c\<lparr>rx_tail := updated_tail\<rparr>, s)"
| "rx_step K cx meta (lm, RxFree pkt, c, s) = (lm, RxIdle, c, drop_packet pkt s)"

lemma rx_wait_iff: "rx_wait u hs \<longleftrightarrow> (\<exists>h\<in>set hs. h \<noteq> u)"
  by (induction hs) auto

lemma rx_advance:
  "(let u = x + packet_size lm in if u \<ge> buffer_capacity lm then 0 else u) =
     ring_advance (packet_size lm) (buffer_capacity lm) x"
  by (simp add: ring_advance_def)

text \<open>Run alone on a ring with room, the steps compute what \<open>rx_process\<close> computes.\<close>

lemma rx_steps_process:
  assumes "rx_accept K lm meta s = (Some pkt, s1)"
    and "ring_advance (packet_size lm) (buffer_capacity lm) (rx_tail c) \<noteq> rx_head c"
  shows "rx_process K cx lm meta [rx_head c] c s =
    Some (snd (snd ((rx_step K cx meta ^^ 6) (lm, RxIdle, c, s))))
    \<and> fst (snd ((rx_step K cx meta ^^ 6) (lm, RxIdle, c, s))) = RxIdle"
  using assms by (simp add: rx_process_def eval_nat_numeral ring_advance_def Let_def)

end
