(* ===== verification/Firmware_Tx.thy ===== *)
theory Firmware_Tx
  imports Firmware_Rx
begin

text \<open>
  The transmit micro-engine (firmware/tx.c), in the same two forms as the receive side:
  \<open>tx_process\<close> as one function of what its polls return, and \<open>tx_step\<close> with the program
  points at which host and receive engine can interleave.
\<close>

section \<open>One packet\<close>

fun tx_wait :: "u32 \<Rightarrow> u32 list \<Rightarrow> bool" where
  "tx_wait head [] = False"
| "tx_wait head (tail # tails) = (if head = tail then tx_wait head tails else True)"

definition tx_set_len :: "me_local \<Rightarrow> pkt_t \<Rightarrow> pkt_t" where
  "tx_set_len lm pkt =
     pkt\<lparr>nbi_meta := (nbi_meta pkt)\<lparr>pkt_len := ucast (packet_size lm + MAC_PREPEND_BYTES)\<rparr>\<rparr>"

text \<open>\<open>pkt0\<close> is the uninitialised local variable that \<open>allocate_packet\<close> fills.\<close>

definition tx_process ::
  "sdk \<Rightarrow> u32 \<Rightarrow> me_local \<Rightarrow> pkt_t \<Rightarrow> u32 list \<Rightarrow> (int \<times> u32) list \<Rightarrow> u32 list
     \<Rightarrow> device_meta_t \<Rightarrow> me_state \<Rightarrow> (device_meta_t \<times> me_state) option" where
  "tx_process K cx lm pkt0 ctm_results blm_results tails c s =
     (case allocate_packet K ctm_results blm_results pkt0 s of
        None \<Rightarrow> None
      | Some (pkt, pkt_data, s) \<Rightarrow>
          let head = tx_head c;
              updated_head = head + packet_size lm;
              updated_head = (if updated_head \<ge> buffer_capacity lm then 0 else updated_head)
          in if tx_wait head tails
             then let pcie_addr = tx_buffer_iova c + ucast head;
                      s = dma_packet_recv K cx pkt (packet_size lm) pcie_addr s;
                      pkt = tx_set_len lm pkt;
                      c = c\<lparr>tx_head := updated_head\<rparr>
                  in Some (c, send_packet K pkt s)
             else None)"

section \<open>The program as steps\<close>

datatype tx_pc =
    TxExit
  | TxBoot
  | TxIdle
  | TxReserve pkt_t
  | TxPoll pkt_t u32 u32
  | TxDma pkt_t u32 u32
  | TxCommit pkt_t u32
  | TxSend pkt_t

definition tx_main :: "u32 \<Rightarrow> tx_pc" where
  "tx_main cx = (if cx \<noteq> 0 then TxExit else TxBoot)"

fun tx_step :: "sdk \<Rightarrow> u32 \<Rightarrow> pkt_t \<Rightarrow> u32 list \<Rightarrow> (int \<times> u32) list
    \<Rightarrow> me_local \<times> tx_pc \<times> device_meta_t \<times> me_state
    \<Rightarrow> me_local \<times> tx_pc \<times> device_meta_t \<times> me_state" where
  "tx_step K cx pkt0 ctm blm (lm, TxExit, c, s) = (lm, TxExit, c, s)"
| "tx_step K cx pkt0 ctm blm (lm, TxBoot, c, s) =
     (if start_signal c \<noteq> 0 then (load_config c, TxIdle, c, s) else (lm, TxBoot, c, s))"
| "tx_step K cx pkt0 ctm blm (lm, TxIdle, c, s) =
     (case allocate_packet K ctm blm pkt0 s of
        None \<Rightarrow> (lm, TxIdle, c, s)
      | Some (pkt, pkt_data, s) \<Rightarrow> (lm, TxReserve pkt, c, s))"
| "tx_step K cx pkt0 ctm blm (lm, TxReserve pkt, c, s) =
     (let updated_head = tx_head c + packet_size lm;
          updated_head = (if updated_head \<ge> buffer_capacity lm then 0 else updated_head)
      in (lm, TxPoll pkt (tx_head c) updated_head, c, s))"
| "tx_step K cx pkt0 ctm blm (lm, TxPoll pkt head updated_head, c, s) =
     (if head = tx_tail c then (lm, TxPoll pkt head updated_head, c, s)
      else (lm, TxDma pkt head updated_head, c, s))"
| "tx_step K cx pkt0 ctm blm (lm, TxDma pkt head updated_head, c, s) =
     (lm, TxCommit (tx_set_len lm pkt) updated_head, c,
      dma_packet_recv K cx pkt (packet_size lm) (tx_buffer_iova c + ucast head) s)"
| "tx_step K cx pkt0 ctm blm (lm, TxCommit pkt updated_head, c, s) =
     (lm, TxSend pkt, c\<lparr>tx_head := updated_head\<rparr>, s)"
| "tx_step K cx pkt0 ctm blm (lm, TxSend pkt, c, s) = (lm, TxIdle, c, send_packet K pkt s)"

lemma tx_wait_iff: "tx_wait h ts \<longleftrightarrow> (\<exists>t\<in>set ts. t \<noteq> h)"
  by (induction ts) auto

lemma tx_steps_process:
  assumes "allocate_packet K ctm blm pkt0 s \<noteq> None" "tx_head c \<noteq> tx_tail c"
  shows "tx_process K cx lm pkt0 ctm blm [tx_tail c] c s =
    Some (snd (snd ((tx_step K cx pkt0 ctm blm ^^ 6) (lm, TxIdle, c, s))))
    \<and> fst (snd ((tx_step K cx pkt0 ctm blm ^^ 6) (lm, TxIdle, c, s))) = TxIdle"
  using assms by (auto simp: tx_process_def eval_nat_numeral Let_def split: option.splits)

text \<open>The allocators are polled until they answer: with a free buffer among the results of
  each, \<open>allocate_packet\<close> returns.\<close>

lemma poll_ctm_alloc_returns: "(\<exists>r\<in>set rs. r \<noteq> -1) \<longleftrightarrow> poll_ctm_alloc rs \<noteq> None"
  by (induction rs) auto

lemma poll_blm_alloc_returns: "(\<exists>r\<in>set rs. fst r = 0) \<longleftrightarrow> poll_blm_alloc rs \<noteq> None"
  by (induction rs) auto

end
