(* ===== verification/Ring_Buffer.thy ===== *)
theory Ring_Buffer
  imports Ring_Arith
begin

text \<open>
  The host's ring buffer (user/lib/ring_buffer.h, ring_buffer.c): a record of the C
  struct, its five queries and the two cursor updates, with the failing \<open>assert\<close>s and
  the division of the full test as explicit traps. A ring buffer that satisfies
  \<open>rb_wf\<close> is a bounded FIFO of slots; the interpretation \<open>host_ring\<close> discharges the
  contract of \<open>slot_ring\<close> for the C operations.
\<close>

section \<open>The struct and its operations\<close>

record ringbuffer_t =
  base_addr :: u64
  entry_size :: u32
  capacity :: u32
  rb_head :: u32
  rb_tail :: u32

definition ringbuffer_empty :: "ringbuffer_t \<Rightarrow> bool" where
  "ringbuffer_empty rb \<longleftrightarrow> rb_head rb = rb_tail rb"

definition ringbuffer_size :: "ringbuffer_t \<Rightarrow> u32" where
  "ringbuffer_size rb =
     (if rb_head rb > rb_tail rb then (capacity rb - rb_head rb) + rb_tail rb
      else rb_tail rb - rb_head rb)"

definition ringbuffer_full :: "ringbuffer_t \<Rightarrow> trap + bool" where
  "ringbuffer_full rb =
     (if capacity rb = 0 then Inl DivByZero
      else Inr ((rb_tail rb + entry_size rb) mod capacity rb = rb_head rb))"

definition ringbuffer_front :: "ringbuffer_t \<Rightarrow> u64" where
  "ringbuffer_front rb = base_addr rb + ucast (rb_head rb)"

definition ringbuffer_back :: "ringbuffer_t \<Rightarrow> u64" where
  "ringbuffer_back rb = base_addr rb + ucast (rb_tail rb)"

definition ringbuffer_push :: "ringbuffer_t \<Rightarrow> trap + ringbuffer_t" where
  "ringbuffer_push rb =
     (case ringbuffer_full rb of
        Inl t \<Rightarrow> Inl t
      | Inr full \<Rightarrow>
          if full then Inl AssertFail
          else let tl' = rb_tail rb + entry_size rb
               in Inr (rb\<lparr>rb_tail := (if tl' \<ge> capacity rb then 0 else tl')\<rparr>))"

definition ringbuffer_pop :: "ringbuffer_t \<Rightarrow> trap + ringbuffer_t" where
  "ringbuffer_pop rb =
     (if ringbuffer_empty rb then Inl AssertFail
      else let hd' = rb_head rb + entry_size rb
           in Inr (rb\<lparr>rb_head := (if hd' \<ge> capacity rb then 0 else hd')\<rparr>))"

section \<open>Well-formed ring buffers and their slots\<close>

definition rb_wf :: "ringbuffer_t \<Rightarrow> bool" where
  "rb_wf rb \<longleftrightarrow>
     0 < unat (entry_size rb)
     \<and> unat (entry_size rb) dvd unat (capacity rb)
     \<and> 2 * unat (entry_size rb) \<le> unat (capacity rb)
     \<and> unat (entry_size rb) dvd unat (rb_head rb) \<and> rb_head rb < capacity rb
     \<and> unat (entry_size rb) dvd unat (rb_tail rb) \<and> rb_tail rb < capacity rb"

definition rb_nslots :: "ringbuffer_t \<Rightarrow> nat" where
  "rb_nslots rb = unat (capacity rb) div unat (entry_size rb)"

definition rb_slots :: "ringbuffer_t \<Rightarrow> nat list" where
  "rb_slots rb =
     (let e = unat (entry_size rb); n = rb_nslots rb;
          h = unat (rb_head rb) div e; t = unat (rb_tail rb) div e
      in map (\<lambda>k. k mod n) [h..<(if t < h then t + n else t)])"

definition rb_free_slot :: "ringbuffer_t \<Rightarrow> nat" where
  "rb_free_slot rb = unat (rb_tail rb) div unat (entry_size rb)"

text \<open>The view of a ring buffer through sequence numbers: entries \<open>h\<close> up to \<open>t\<close> are in
  the ring.\<close>

definition rb_view :: "nat \<Rightarrow> nat \<Rightarrow> nat \<Rightarrow> nat \<Rightarrow> ringbuffer_t \<Rightarrow> bool" where
  "rb_view e n h t rb \<longleftrightarrow>
     ring_geom e n \<and> entry_size rb = of_nat e \<and> capacity rb = of_nat (e * n)
     \<and> rb_head rb = ring_pos e n h \<and> rb_tail rb = ring_pos e n t \<and> h \<le> t \<and> t < h + n"

lemma rb_viewD:
  assumes "rb_view e n h t rb"
  shows "ring_geom e n" "unat (entry_size rb) = e" "unat (capacity rb) = e * n"
    "unat (rb_head rb) = (h mod n) * e" "unat (rb_tail rb) = (t mod n) * e"
    "h \<le> t" "t < h + n"
proof -
  have g: "ring_geom e n" using assms by (simp add: rb_view_def)
  then show "ring_geom e n" "h \<le> t" "t < h + n" using assms by (simp_all add: rb_view_def)
  show "unat (entry_size rb) = e" "unat (capacity rb) = e * n"
    using assms ring_geomD [OF g] by (simp_all add: rb_view_def unat_of_nat del: of_nat_mult)
  show "unat (rb_head rb) = (h mod n) * e" "unat (rb_tail rb) = (t mod n) * e"
    using assms unat_ring_pos [OF g] by (simp_all add: rb_view_def)
qed

lemma rb_view_wf:
  assumes "rb_view e n h t rb"
  shows "rb_wf rb" "rb_nslots rb = n"
proof -
  note d = rb_viewD [OF assms]
  note b = ring_geomD [OF d(1)]
  have "2 * e \<le> e * n" using b(1,2) by (metis Suc_leI mult.commute mult_le_mono2 numeral_2_eq_2 One_nat_def)
  moreover have "(h mod n) * e < e * n" "(t mod n) * e < e * n"
    using slot_offset_bound [OF d(1), of h] slot_offset_bound [OF d(1), of t] b(1) by linarith+
  ultimately show "rb_wf rb"
    using b d by (simp add: rb_wf_def word_less_nat_alt)
  show "rb_nslots rb = n" using d b by (simp add: rb_nslots_def)
qed

lemma rb_wf_view:
  assumes "rb_wf rb"
  shows "\<exists>e n h t. rb_view e n h t rb"
proof -
  define e where "e = unat (entry_size rb)"
  define n where "n = unat (capacity rb) div e"
  define h where "h = unat (rb_head rb) div e"
  define t0 where "t0 = unat (rb_tail rb) div e"
  have e: "0 < e" and cap: "unat (capacity rb) = e * n"
    and hd: "unat (rb_head rb) = h * e" and tl: "unat (rb_tail rb) = t0 * e"
    using assms by (auto simp: rb_wf_def e_def n_def h_def t0_def)
  have "2 * e \<le> n * e" using assms cap by (simp add: rb_wf_def e_def mult.commute)
  then have n: "1 < n" using e by simp
  have "h * e < n * e" "t0 * e < n * e"
    using assms hd tl cap by (auto simp: rb_wf_def word_less_nat_alt mult.commute)
  then have hn: "h < n" and tn: "t0 < n" by auto
  have "unat (capacity rb) < 2 ^ 32" using unsigned_less [of "capacity rb"] by simp
  then have g: "ring_geom e n" using e n cap by (simp add: ring_geom_def)
  define t where "t = (if t0 < h then t0 + n else t0)"
  have tm: "t mod n = t0" using tn by (simp add: t_def)
  have "rb_head rb = ring_pos e n h"
    using hd hn unat_ring_pos [OF g, of h] by (simp add: word_unat_eq_iff)
  moreover have "rb_tail rb = ring_pos e n t"
    using tl tm unat_ring_pos [OF g, of t] by (simp add: word_unat_eq_iff)
  moreover have "capacity rb = of_nat (e * n)" by (simp flip: cap)
  moreover have "entry_size rb = of_nat e" by (simp add: e_def)
  moreover have "h \<le> t" "t < h + n" using hn tn by (auto simp: t_def)
  ultimately have "rb_view e n h t rb" using g by (simp add: rb_view_def)
  then show ?thesis by blast
qed

lemma rb_view_slots:
  assumes v: "rb_view e n h t rb"
  shows "rb_slots rb = map (\<lambda>k. k mod n) [h..<t]" "rb_free_slot rb = t mod n"
proof -
  note d = rb_viewD [OF v] and w = rb_view_wf [OF v]
  note b = ring_geomD [OF d(1)]
  show "rb_free_slot rb = t mod n" using d b by (simp add: rb_free_slot_def)
  let ?h = "h mod n" let ?t = "t mod n"
  let ?u = "if ?t < ?h then ?t + n else ?t"
  have "(?h + (t - h)) mod n = (h + (t - h)) mod n" by (rule mod_add_left_eq)
  then have t: "?t = (?h + (t - h)) mod n" using d(6) by simp
  have u: "?u = ?h + (t - h)"
  proof (cases "?h + (t - h) < n")
    case True
    then show ?thesis using t by simp
  next
    case False
    have "?h < n" "t - h < n" using b(3) d(6,7) by simp_all
    then have "(?h + (t - h) - n) mod n = ?h + (t - h) - n" by (intro mod_less) linarith
    then have "?t = ?h + (t - h) - n" using t False by (metis le_mod_geq linorder_not_less)
    then have "?t < ?h" "?t + n = ?h + (t - h)" using False \<open>t - h < n\<close> by linarith+
    then show ?thesis by simp
  qed
  have "map (\<lambda>k. k mod n) [?h..<?u] = map (\<lambda>k. k mod n) [h..<t]"
    by (rule nth_equalityI) (auto simp: u mod_add_left_eq)
  moreover have "rb_slots rb = map (\<lambda>k. k mod n) [?h..<?u]"
    using d b w(2) by (simp add: rb_slots_def Let_def)
  ultimately show "rb_slots rb = map (\<lambda>k. k mod n) [h..<t]" by (rule trans [rotated])
qed

section \<open>Behaviour of the operations on a view\<close>

lemma rb_view_empty: "rb_view e n h t rb \<Longrightarrow> ringbuffer_empty rb \<longleftrightarrow> h = t"
  using ring_pos_eq_close [of e n h t] by (auto simp: rb_view_def ringbuffer_empty_def)

lemma rb_view_full:
  assumes v: "rb_view e n h t rb"
  shows "ringbuffer_full rb = Inr (Suc t = h + n)"
proof -
  have g: "ring_geom e n" using v by (simp add: rb_view_def)
  note b = ring_geomD [OF g]
  have "capacity rb \<noteq> 0"
  proof
    assume "capacity rb = 0"
    then have "e * n = 0" using rb_viewD(3) [OF v] by simp
    then show False using b by simp
  qed
  moreover have "(rb_tail rb + entry_size rb) mod capacity rb = ring_pos e n (Suc t)"
    using v ring_pos_mod [OF g] by (simp add: rb_view_def)
  moreover have "ring_pos e n (Suc t) = ring_pos e n h \<longleftrightarrow> Suc t = h + n"
  proof (cases "Suc t = h + n")
    case True
    then show ?thesis by (simp add: ring_pos_def)
  next
    case False
    then have "Suc t < h + n" "h \<le> Suc t" using v by (auto simp: rb_view_def)
    then show ?thesis using ring_pos_eq_close [OF g, of h "Suc t"] v
      by (auto simp: rb_view_def)
  qed
  ultimately show ?thesis using v by (simp add: ringbuffer_full_def rb_view_def)
qed

lemma rb_view_push:
  assumes v: "rb_view e n h t rb"
  shows "ringbuffer_push rb =
    (if Suc t = h + n then Inl AssertFail else Inr (rb\<lparr>rb_tail := ring_pos e n (Suc t)\<rparr>))"
  using v rb_view_full [OF v] ring_advance_pos [of e n t]
  by (simp add: ringbuffer_push_def rb_view_def ring_advance_def Let_def)

lemma rb_view_pop:
  assumes v: "rb_view e n h t rb"
  shows "ringbuffer_pop rb =
    (if h = t then Inl AssertFail else Inr (rb\<lparr>rb_head := ring_pos e n (Suc h)\<rparr>))"
  using v rb_view_empty [OF v] ring_advance_pos [of e n h]
  by (simp add: ringbuffer_pop_def rb_view_def ring_advance_def Let_def)

lemma rb_view_pushed:
  "rb_view e n h t rb \<Longrightarrow> Suc t < h + n \<Longrightarrow>
     rb_view e n h (Suc t) (rb\<lparr>rb_tail := ring_pos e n (Suc t)\<rparr>)"
  by (simp add: rb_view_def)

lemma rb_view_popped:
  "rb_view e n h t rb \<Longrightarrow> h < t \<Longrightarrow>
     rb_view e n (Suc h) t (rb\<lparr>rb_head := ring_pos e n (Suc h)\<rparr>)"
  by (simp add: rb_view_def)

lemma rb_view_size:
  assumes v: "rb_view e n h t rb"
  shows "unat (ringbuffer_size rb) = (t - h) * e"
proof -
  note d = rb_viewD [OF v] and b = ring_geomD [OF rb_viewD(1) [OF v]]
  have len: "length (rb_slots rb) = t - h" using rb_view_slots(1) [OF v] by simp
  have slots: "length (rb_slots rb) =
      (if t mod n < h mod n then t mod n + n else t mod n) - h mod n"
    using d b rb_view_wf(2) [OF v] by (simp add: rb_slots_def Let_def)
  have lt: "rb_head rb > rb_tail rb \<longleftrightarrow> t mod n < h mod n"
    using d(4,5) b(1) by (simp add: word_less_nat_alt)
  show ?thesis
  proof (cases "t mod n < h mod n")
    case True
    have hb: "(h mod n) * e \<le> e * n" using slot_offset_bound [OF d(1), of h] by linarith
    have "unat (capacity rb - rb_head rb) = e * n - (h mod n) * e"
      using d(3,4) hb by (simp add: unat_sub_small)
    moreover have "e * n - (h mod n) * e + (t mod n) * e < 2 ^ LENGTH(32)"
    proof -
      have len32: "(2::nat) ^ LENGTH(32) = 2 ^ 32" by simp
      have "(t mod n) * e \<le> (h mod n) * e" using True by simp
      then show ?thesis using hb b(4) unfolding len32 by linarith
    qed
    ultimately have "unat (ringbuffer_size rb) = e * n - (h mod n) * e + (t mod n) * e"
      using True lt d(5) by (simp add: ringbuffer_size_def unat_add_small)
    also have "\<dots> = (t mod n + n - h mod n) * e"
      using hb by (simp add: algebra_simps)
    finally show ?thesis using len slots True by simp
  next
    case False
    then have "unat (ringbuffer_size rb) = (t mod n) * e - (h mod n) * e"
      using lt d(4,5) by (simp add: ringbuffer_size_def unat_sub_small)
    also have "\<dots> = (t mod n - h mod n) * e" by (simp add: diff_mult_distrib)
    finally show ?thesis using len slots False by simp
  qed
qed

section \<open>The host ring fulfils the contract\<close>

definition rb_push_opt :: "ringbuffer_t \<Rightarrow> ringbuffer_t option" where
  "rb_push_opt rb = (case ringbuffer_push rb of Inl _ \<Rightarrow> None | Inr r \<Rightarrow> Some r)"

definition rb_pop_opt :: "ringbuffer_t \<Rightarrow> ringbuffer_t option" where
  "rb_pop_opt rb = (case ringbuffer_pop rb of Inl _ \<Rightarrow> None | Inr r \<Rightarrow> Some r)"

lemma distinct_map_mod:
  assumes "h \<le> t" "t < h + n"
  shows "distinct (map (\<lambda>k. k mod n) [h..<t])" "t mod n \<notin> set (map (\<lambda>k. k mod n) [h..<t])"
proof -
  have cong: "j = k" if "j mod n = k mod n" "h \<le> j" "j \<le> k" "k \<le> t" for j k
  proof -
    have "n dvd k - j" using that mod_eq_dvd_iff_nat by metis
    moreover have "k - j < n" using that assms by linarith
    ultimately show ?thesis using that(3) nat_dvd_not_less by fastforce
  qed
  show "t mod n \<notin> set (map (\<lambda>k. k mod n) [h..<t])"
  proof
    assume "t mod n \<in> set (map (\<lambda>k. k mod n) [h..<t])"
    then obtain k where k: "k mod n = t mod n" "h \<le> k" "k < t" by auto
    then show False using cong [of k t] by simp
  qed
  have "inj_on (\<lambda>k. k mod n) {h..<t}"
  proof (rule linorder_inj_onI')
    fix i j assume "i \<in> {h..<t}" "j \<in> {h..<t}" "i < j"
    then show "i mod n \<noteq> j mod n" using cong [of i j] by auto
  qed
  then show "distinct (map (\<lambda>k. k mod n) [h..<t])" by (simp add: distinct_map)
qed

interpretation host_ring: slot_ring rb_wf rb_nslots rb_slots rb_free_slot rb_push_opt rb_pop_opt
proof unfold_locales
  fix r assume wf: "rb_wf r"
  then obtain e n h t where v: "rb_view e n h t r" using rb_wf_view by blast
  note d = rb_viewD [OF v] and w = rb_view_wf [OF v] and s = rb_view_slots [OF v]
  note b = ring_geomD [OF d(1)] and m = distinct_map_mod [OF d(6,7)]
  show "length (rb_slots r) < rb_nslots r" using s w d(6,7) by simp
  show "distinct (rb_slots r)" using s m by simp
  show "rb_free_slot r < rb_nslots r \<and> rb_free_slot r \<notin> set (rb_slots r)"
    using s w m b(3) by simp
  show "set (rb_slots r) \<subseteq> {..<rb_nslots r}" using s w b(3) by auto
  show "(rb_push_opt r \<noteq> None) = (Suc (length (rb_slots r)) < rb_nslots r)"
    using rb_view_push [OF v] s w d(6,7) by (auto simp: rb_push_opt_def)
  show "(rb_pop_opt r \<noteq> None) = (rb_slots r \<noteq> [])"
    using rb_view_pop [OF v] s d(6) by (auto simp: rb_pop_opt_def)
  show "rb_wf r' \<and> rb_slots r' = rb_slots r @ [rb_free_slot r] \<and> rb_nslots r' = rb_nslots r"
    if "rb_push_opt r = Some r'" for r'
  proof -
    have c: "Suc t \<noteq> h + n" and r': "r' = r\<lparr>rb_tail := ring_pos e n (Suc t)\<rparr>"
      using that rb_view_push [OF v] by (auto simp: rb_push_opt_def split: if_splits)
    have v': "rb_view e n h (Suc t) r'"
      using rb_view_pushed [OF v] c d(7) r' by simp
    show ?thesis using rb_view_wf [OF v'] rb_view_slots [OF v'] w s d(6) by simp
  qed
  show "rb_wf r' \<and> rb_slots r' = tl (rb_slots r) \<and> rb_nslots r' = rb_nslots r \<and>
      rb_free_slot r' = rb_free_slot r"
    if "rb_pop_opt r = Some r'" for r'
  proof -
    have c: "h < t" and r': "r' = r\<lparr>rb_head := ring_pos e n (Suc h)\<rparr>"
      using that rb_view_pop [OF v] d(6) by (auto simp: rb_pop_opt_def split: if_splits)
    have v': "rb_view e n (Suc h) t r'" using rb_view_popped [OF v c] r' by simp
    show ?thesis using rb_view_wf [OF v'] rb_view_slots [OF v'] w s c
      by (simp add: upt_conv_Cons)
  qed
qed

end
