(* ===== verification/Host_App.thy ===== *)
theory Host_App
  imports Ring_Buffer Device_Config
begin

text \<open>
  The host's worker thread (\<open>udp_worker\<close> of user/app_main.c): it sets up the two ring
  buffers, configures the device and then moves packets from the receive ring to the
  transmit ring. \<open>host_step\<close> has one program point per access to memory shared with the
  device; \<open>udp_worker_iter\<close> is one turn of its loop as a function.
\<close>

section \<open>Host memory\<close>

text \<open>
  The worker uses virtual addresses, the device the I/O addresses of the same memory; the
  page tables of the operating system, \<open>host_map\<close>, relate them. \<open>buffer_rx\<close> and
  \<open>buffer_tx\<close> are the two memory zones.
\<close>

record host_env =
  rx_addr :: u64
  rx_iova :: u64
  tx_addr :: u64
  tx_iova :: u64
  host_map :: "u64 \<Rightarrow> u64"

definition host_rd :: "(u64 \<Rightarrow> u64) \<Rightarrow> mem \<Rightarrow> u64 \<Rightarrow> nat \<Rightarrow> u8 list" where
  "host_rd hm p v n = map (\<lambda>i. p (hm (v + of_nat i))) [0..<n]"

fun host_wr :: "(u64 \<Rightarrow> u64) \<Rightarrow> mem \<Rightarrow> u64 \<Rightarrow> u8 list \<Rightarrow> mem" where
  "host_wr hm p v [] = p"
| "host_wr hm p v (b # bs) = host_wr hm (p(hm v := b)) (v + 1) bs"

definition host_memcpy :: "(u64 \<Rightarrow> u64) \<Rightarrow> u64 \<Rightarrow> u64 \<Rightarrow> nat \<Rightarrow> mem \<Rightarrow> mem" where
  "host_memcpy hm dst src n p = host_wr hm p dst (host_rd hm p src n)"

section \<open>The worker\<close>

definition setup_rings :: "host_env \<Rightarrow> ringbuffer_t \<times> ringbuffer_t \<Rightarrow> ringbuffer_t \<times> ringbuffer_t"
where
  "setup_rings H rings =
     (let (rrx, rtx) = rings
      in (rrx\<lparr>base_addr := rx_addr H, capacity := RING_BUFFER_SIZE, entry_size := UDP_PACKET_SIZE\<rparr>,
          rtx\<lparr>base_addr := tx_addr H, capacity := RING_BUFFER_SIZE, entry_size := UDP_PACKET_SIZE\<rparr>))"

datatype host_pc =
    HConfig | HStart | HReadRx | HReadTx | HTest | HCopy | HPop | HPush | HPubTx | HPubRx
  | HTrap trap

type_synonym host_conf = "host_pc \<times> ringbuffer_t \<times> ringbuffer_t \<times> device_meta_t \<times> mem"

fun host_step :: "host_env \<Rightarrow> host_conf \<Rightarrow> host_conf" where
  "host_step H (HConfig, rrx, rtx, c, p) =
     (let (rrx, rtx) = setup_rings H (rrx, rtx)
      in (HStart, rrx, rtx, configure_fields (rx_iova H) (tx_iova H) c, p))"
| "host_step H (HStart, rrx, rtx, c, p) = (HReadRx, rrx, rtx, c\<lparr>start_signal := 1\<rparr>, p)"
| "host_step H (HReadRx, rrx, rtx, c, p) = (HReadTx, rrx\<lparr>rb_tail := rx_tail c\<rparr>, rtx, c, p)"
| "host_step H (HReadTx, rrx, rtx, c, p) = (HTest, rrx, rtx\<lparr>rb_head := tx_head c\<rparr>, c, p)"
| "host_step H (HTest, rrx, rtx, c, p) =
     (if \<not> ringbuffer_empty rrx
      then case ringbuffer_full rtx of
             Inl t \<Rightarrow> (HTrap t, rrx, rtx, c, p)
           | Inr full \<Rightarrow> (if \<not> full then HCopy else HReadRx, rrx, rtx, c, p)
      else (HReadRx, rrx, rtx, c, p))"
| "host_step H (HCopy, rrx, rtx, c, p) =
     (HPop, rrx, rtx, c,
      host_memcpy (host_map H) (ringbuffer_back rtx) (ringbuffer_front rrx)
        (unat UDP_PACKET_SIZE) p)"
| "host_step H (HPop, rrx, rtx, c, p) =
     (case ringbuffer_pop rrx of
        Inl t \<Rightarrow> (HTrap t, rrx, rtx, c, p)
      | Inr rrx \<Rightarrow> (HPush, rrx, rtx, c, p))"
| "host_step H (HPush, rrx, rtx, c, p) =
     (case ringbuffer_push rtx of
        Inl t \<Rightarrow> (HTrap t, rrx, rtx, c, p)
      | Inr rtx \<Rightarrow> (HPubTx, rrx, rtx, c, p))"
| "host_step H (HPubTx, rrx, rtx, c, p) = (HPubRx, rrx, rtx, c\<lparr>tx_tail := rb_tail rtx\<rparr>, p)"
| "host_step H (HPubRx, rrx, rtx, c, p) = (HReadRx, rrx, rtx, c\<lparr>rx_head := rb_head rrx\<rparr>, p)"
| "host_step H (HTrap t, rrx, rtx, c, p) = (HTrap t, rrx, rtx, c, p)"

text \<open>One turn of the worker's loop without interference.\<close>

definition udp_worker_iter ::
  "host_env \<Rightarrow> ringbuffer_t \<times> ringbuffer_t \<times> device_meta_t \<times> mem
     \<Rightarrow> trap + ringbuffer_t \<times> ringbuffer_t \<times> device_meta_t \<times> mem" where
  "udp_worker_iter H = (\<lambda>(rrx, rtx, c, p).
     let rrx = rrx\<lparr>rb_tail := rx_tail c\<rparr>; rtx = rtx\<lparr>rb_head := tx_head c\<rparr>
     in if ringbuffer_empty rrx then Inr (rrx, rtx, c, p)
        else case ringbuffer_full rtx of
          Inl t \<Rightarrow> Inl t
        | Inr full \<Rightarrow>
            if full then Inr (rrx, rtx, c, p)
            else let p = host_memcpy (host_map H) (ringbuffer_back rtx) (ringbuffer_front rrx)
                           (unat UDP_PACKET_SIZE) p
                 in case ringbuffer_pop rrx of
                      Inl t \<Rightarrow> Inl t
                    | Inr rrx \<Rightarrow>
                        (case ringbuffer_push rtx of
                           Inl t \<Rightarrow> Inl t
                         | Inr rtx \<Rightarrow>
                             let c = c\<lparr>tx_tail := rb_tail rtx\<rparr>; c = c\<lparr>rx_head := rb_head rrx\<rparr>
                             in Inr (rrx, rtx, c, p)))"

section \<open>Lemmas\<close>

text \<open>On a range that is mapped contiguously, host accesses are accesses at the I/O
  address.\<close>

definition contig :: "(u64 \<Rightarrow> u64) \<Rightarrow> u64 \<Rightarrow> u64 \<Rightarrow> nat \<Rightarrow> bool" where
  "contig hm v a n \<longleftrightarrow> (\<forall>i<n. hm (v + of_nat i) = a + of_nat i)"

lemma contig_sub:
  assumes "contig hm v a n" "x + k \<le> n"
  shows "contig hm (v + of_nat x) (a + of_nat x) k"
  unfolding contig_def
proof (intro allI impI)
  fix i assume "i < k"
  then have "hm (v + of_nat (x + i)) = a + of_nat (x + i)"
    using assms unfolding contig_def by (metis add_less_le_mono add_strict_left_mono order_less_le_trans)
  then show "hm (v + of_nat x + of_nat i) = a + of_nat x + of_nat i" by (simp add: add.assoc)
qed

lemma host_rd_contig: "contig hm v a n \<Longrightarrow> host_rd hm p v n = mem_rd p a n"
  by (simp add: contig_def host_rd_def mem_rd_def)

lemma host_wr_contig: "contig hm v a (length bs) \<Longrightarrow> host_wr hm p v bs = mem_wr p a bs"
proof (induction bs arbitrary: p v a)
  case (Cons b bs)
  have "contig hm (v + of_nat 1) (a + of_nat 1) (length bs)"
    using Cons.prems by (rule contig_sub) simp
  then have "host_wr hm (p(a := b)) (v + 1) bs = mem_wr (p(a := b)) (a + 1) bs"
    by (intro Cons.IH) simp
  moreover have "hm v = a"
    using Cons.prems by (auto simp: contig_def dest: spec [of _ 0])
  ultimately show ?case by (simp only: host_wr.simps mem_wr.simps)
qed simp

lemma udp_worker_steps:
  assumes "rb_head rrx \<noteq> rx_tail c" "ringbuffer_full (rtx\<lparr>rb_head := tx_head c\<rparr>) = Inr False"
  shows "udp_worker_iter H (rrx, rtx, c, p) =
    Inr (snd ((host_step H ^^ 8) (HReadRx, rrx, rtx, c, p)))
    \<and> fst ((host_step H ^^ 8) (HReadRx, rrx, rtx, c, p)) = HReadRx"
  using assms
  by (simp add: udp_worker_iter_def eval_nat_numeral Let_def ringbuffer_empty_def
      ringbuffer_pop_def ringbuffer_push_def)

end
