(* ===== verification/Echo_System.thy ===== *)
theory Echo_System
  imports Packet_Echo Firmware_Tx Host_App
begin

text \<open>
  The running system: receive engine, host worker and transmit engine work at the same
  time on the shared configuration block, host memory and device memory. A step of the
  system is one step of one of the three programs; the network delivers packets to the
  receive engine. The invariant relates the ring cursors to five unbounded counters and
  says which frame every occupied slot holds.
\<close>

section \<open>State and steps\<close>

record echo_state =
  shared_cfg :: device_meta_t
  dev :: me_state
  rx_local :: me_local
  rx_at :: rx_pc
  tx_local :: me_local
  tx_at :: tx_pc
  host_at :: host_pc
  ring_rx :: ringbuffer_t
  ring_tx :: ringbuffer_t
  accepted :: "u8 list list"
  wire_out :: "u8 list list"

text \<open>
  \<open>accepted\<close> and \<open>wire_out\<close> record history: the frames that passed the filter, as they
  arrived, and the frames handed to the network for transmission.
\<close>

text \<open>The device memory that belongs to a packet of \<open>n\<close> bytes.\<close>

definition pkt_range :: "sdk \<Rightarrow> nbi_meta_t \<Rightarrow> nat \<Rightarrow> u64 set" where
  "pkt_range K m n =
     (\<lambda>i. pkt_ctm_ptr40 K (isl m) (pnum m) 0 + of_nat i) ` {..<256}
     \<union> (\<lambda>i. mu_addr (muptr m) + of_nat i) ` {..<256 + n}"

text \<open>The packet whose bytes an engine still needs.\<close>

fun rx_pkt :: "rx_pc \<Rightarrow> pkt_t option" where
  "rx_pkt (RxReserve p) = Some p"
| "rx_pkt (RxPoll p t u) = Some p"
| "rx_pkt (RxDma p t u) = Some p"
| "rx_pkt _ = None"

fun tx_pkt :: "tx_pc \<Rightarrow> pkt_t option" where
  "tx_pkt (TxReserve p) = Some p"
| "tx_pkt (TxPoll p h u) = Some p"
| "tx_pkt (TxDma p h u) = Some p"
| "tx_pkt (TxCommit p u) = Some p"
| "tx_pkt (TxSend p) = Some p"
| "tx_pkt _ = None"

text \<open>
  What the hardware guarantees. A packet arrives in buffers of its own: its CTM and MU
  buffers are apart, it has at least its MAC prepend, and the buffers of the packet being
  transmitted neither overlap nor change. An allocated buffer does not overlap the packet
  being received.
\<close>

definition arrival_ok :: "sdk \<Rightarrow> echo_state \<Rightarrow> nbi_meta_t \<Rightarrow> mem \<Rightarrow> bool" where
  "arrival_ok K s meta mm \<longleftrightarrow>
     pkt_bufs_ok K meta 64 \<and> 8 \<le> unat (pkt_len meta)
     \<and> (\<forall>p. tx_pkt (tx_at s) = Some p \<longrightarrow>
           pkt_range K meta 64 \<inter> pkt_range K (nbi_meta p) 64 = {}
           \<and> (\<forall>a\<in>pkt_range K (nbi_meta p) 64. mm a = mem40 (dev s) a))"

definition alloc_ok :: "sdk \<Rightarrow> echo_state \<Rightarrow> nbi_meta_t \<Rightarrow> bool" where
  "alloc_ok K s meta \<longleftrightarrow>
     pkt_bufs_ok K meta 64
     \<and> (\<forall>p. rx_pkt (rx_at s) = Some p \<longrightarrow>
           pkt_range K meta 64 \<inter> pkt_range K (nbi_meta p) 64 = {})"

definition sent_frame :: "sdk \<Rightarrow> echo_state \<Rightarrow> u8 list list" where
  "sent_frame K s =
     (case tx_at s of
        TxSend p \<Rightarrow> [tx_frame K (nbi_meta p)
                      (unat (pkt_len (nbi_meta p)) - unat MAC_PREPEND_BYTES) (mem40 (dev s))]
      | _ \<Rightarrow> [])"

inductive echo_step :: "sdk \<Rightarrow> host_env \<Rightarrow> echo_state \<Rightarrow> echo_state \<Rightarrow> bool"
  for K :: sdk and H :: host_env where
  receive:
    "rx_at s = RxIdle \<Longrightarrow> arrival_ok K s meta mm \<Longrightarrow>
     rx_step K 0 meta (rx_local s, RxIdle, shared_cfg s, (dev s)\<lparr>mem40 := mm\<rparr>) = (lm, pc, c, d) \<Longrightarrow>
     echo_step K H s (s\<lparr>rx_local := lm, rx_at := pc, shared_cfg := c, dev := d,
       accepted := accepted s @ (if pc = RxIdle then [] else [rx_frame K meta 64 mm])\<rparr>)"
| rx:
    "rx_at s \<noteq> RxIdle \<Longrightarrow>
     rx_step K 0 meta (rx_local s, rx_at s, shared_cfg s, dev s) = (lm, pc, c, d) \<Longrightarrow>
     echo_step K H s (s\<lparr>rx_local := lm, rx_at := pc, shared_cfg := c, dev := d\<rparr>)"
| tx:
    "(tx_at s = TxIdle \<longrightarrow> (\<forall>p a d. allocate_packet K ctm blm pkt0 (dev s) = Some (p, a, d) \<longrightarrow>
        alloc_ok K s (nbi_meta p))) \<Longrightarrow>
     tx_step K 0 pkt0 ctm blm (tx_local s, tx_at s, shared_cfg s, dev s) = (lm, pc, c, d) \<Longrightarrow>
     echo_step K H s (s\<lparr>tx_local := lm, tx_at := pc, shared_cfg := c, dev := d,
       wire_out := wire_out s @ sent_frame K s\<rparr>)"
| host:
    "host_step H (host_at s, ring_rx s, ring_tx s, shared_cfg s, pci_mem (dev s)) =
       (pc, rrx, rtx, c, p) \<Longrightarrow>
     echo_step K H s (s\<lparr>host_at := pc, ring_rx := rrx, ring_tx := rtx, shared_cfg := c,
       dev := (dev s)\<lparr>pci_mem := p\<rparr>\<rparr>)"

definition echo_init :: "echo_state \<Rightarrow> bool" where
  "echo_init s \<longleftrightarrow>
     start_signal (shared_cfg s) = 0
     \<and> rx_head (shared_cfg s) = 0 \<and> rx_tail (shared_cfg s) = 0
     \<and> tx_head (shared_cfg s) = 0 \<and> tx_tail (shared_cfg s) = 0
     \<and> rx_at s = rx_main 0 \<and> tx_at s = tx_main 0 \<and> host_at s = HConfig
     \<and> rb_head (ring_rx s) = 0 \<and> rb_tail (ring_rx s) = 0
     \<and> rb_head (ring_tx s) = 0 \<and> rb_tail (ring_tx s) = 0
     \<and> accepted s = [] \<and> wire_out s = []"

inductive echo_reach :: "sdk \<Rightarrow> host_env \<Rightarrow> echo_state \<Rightarrow> bool"
  for K :: sdk and H :: host_env where
  init: "echo_init s \<Longrightarrow> echo_reach K H s"
| step: "echo_reach K H s \<Longrightarrow> echo_step K H s t \<Longrightarrow> echo_reach K H t"

text \<open>What the programs rely on: the SDK, a packet metadata block that fits in front of the
  packet data, and two ring buffers that are mapped contiguously and do not overlap.\<close>

definition env_ok :: "sdk \<Rightarrow> host_env \<Rightarrow> bool" where
  "env_ok K H \<longleftrightarrow> sdk_ok K \<and> (\<forall>m. length (meta_bytes K m) \<le> 64)
     \<and> contig (host_map H) (rx_addr H) (rx_iova H) 512
     \<and> contig (host_map H) (tx_addr H) (tx_iova H) 512
     \<and> disj_range (rx_iova H) 512 (tx_iova H) 512"

section \<open>The invariant\<close>

abbreviation pos :: "nat \<Rightarrow> u32" where "pos \<equiv> ring_pos 64 8"

definition slot_at :: "u64 \<Rightarrow> nat \<Rightarrow> mem \<Rightarrow> u8 list" where
  "slot_at base k p = mem_rd p (base + ucast (pos k)) 64"

definition echoed :: "echo_state \<Rightarrow> nat \<Rightarrow> u8 list" where
  "echoed s i = echo_frame (accepted s ! i)"

text \<open>How far the worker is in the turn of its loop that moves entry \<open>h\<close>: entry copied,
  popped, pushed, published.\<close>

definition copied :: "host_pc \<Rightarrow> nat" where
  "copied pc = (if pc \<in> {HPop, HPush, HPubTx, HPubRx} then 1 else 0)"
definition popped :: "host_pc \<Rightarrow> nat" where
  "popped pc = (if pc \<in> {HPush, HPubTx, HPubRx} then 1 else 0)"
definition pushed :: "host_pc \<Rightarrow> nat" where
  "pushed pc = (if pc \<in> {HPubTx, HPubRx} then 1 else 0)"
definition published :: "host_pc \<Rightarrow> nat" where
  "published pc = (if pc = HPubRx then 1 else 0)"

lemmas progress_defs = copied_def popped_def pushed_def published_def

fun rx_pending :: "rx_pc \<Rightarrow> nat" where
  "rx_pending (RxReserve p) = 1"
| "rx_pending (RxPoll p t u) = 1"
| "rx_pending (RxDma p t u) = 1"
| "rx_pending (RxCommit p u) = 1"
| "rx_pending _ = 0"

fun rx_written :: "rx_pc \<Rightarrow> nat" where
  "rx_written (RxCommit p u) = 1"
| "rx_written _ = 0"

fun tx_unsent :: "tx_pc \<Rightarrow> nat" where
  "tx_unsent (TxSend p) = 1"
| "tx_unsent _ = 0"

text \<open>Configuration: once configured, block and ring buffers keep their parameters; before
  the start signal both engines are booting.\<close>

definition inv_static :: "host_env \<Rightarrow> echo_state \<Rightarrow> bool" where
  "inv_static H s \<longleftrightarrow>
     (host_at s \<noteq> HConfig \<longrightarrow>
        rx_buffer_iova (shared_cfg s) = rx_iova H \<and> tx_buffer_iova (shared_cfg s) = tx_iova H
        \<and> buffer_size (shared_cfg s) = 512 \<and> cfg_packet_size (shared_cfg s) = 64
        \<and> base_addr (ring_rx s) = rx_addr H \<and> capacity (ring_rx s) = 512
        \<and> entry_size (ring_rx s) = 64
        \<and> base_addr (ring_tx s) = tx_addr H \<and> capacity (ring_tx s) = 512
        \<and> entry_size (ring_tx s) = 64)
     \<and> (host_at s \<in> {HConfig, HStart} \<longrightarrow>
          start_signal (shared_cfg s) = 0 \<and> rx_at s = RxBoot \<and> tx_at s = TxBoot
          \<and> accepted s = [])
     \<and> (rx_at s \<noteq> RxBoot \<longrightarrow> rx_local s = \<lparr>buffer_capacity = 512, packet_size = 64\<rparr>)
     \<and> (tx_at s \<noteq> TxBoot \<longrightarrow> tx_local s = \<lparr>buffer_capacity = 512, packet_size = 64\<rparr>)
     \<and> (\<forall>t. host_at s \<noteq> HTrap t)"

text \<open>Cursors: \<open>a\<close> frames were committed to the receive ring, of which \<open>h\<close> are released;
  the worker last saw \<open>a0\<close> and \<open>d0\<close>; the transmit engine took \<open>d\<close>.\<close>

definition inv_cursor :: "nat \<Rightarrow> nat \<Rightarrow> nat \<Rightarrow> nat \<Rightarrow> nat \<Rightarrow> echo_state \<Rightarrow> bool" where
  "inv_cursor a h a0 d d0 s \<longleftrightarrow>
     rx_tail (shared_cfg s) = pos a \<and> rx_head (shared_cfg s) = pos h
     \<and> tx_tail (shared_cfg s) = pos (h + published (host_at s)) \<and> tx_head (shared_cfg s) = pos d
     \<and> rb_head (ring_rx s) = pos (h + popped (host_at s)) \<and> rb_tail (ring_rx s) = pos a0
     \<and> rb_head (ring_tx s) = pos d0 \<and> rb_tail (ring_tx s) = pos (h + pushed (host_at s))
     \<and> h + copied (host_at s) \<le> a0 \<and> a0 \<le> a \<and> a < h + 8
     \<and> d0 \<le> d \<and> d \<le> h + published (host_at s) \<and> h + copied (host_at s) < d0 + 8
     \<and> (host_at s = HCopy \<longrightarrow> h < a0 \<and> h + 1 < d0 + 8)
     \<and> length (accepted s) = a + rx_pending (rx_at s)
     \<and> (\<forall>f\<in>set (accepted s). length f = 64)"

definition inv_rx :: "sdk \<Rightarrow> nat \<Rightarrow> nat \<Rightarrow> echo_state \<Rightarrow> bool" where
  "inv_rx K a h s \<longleftrightarrow>
     (\<forall>p. rx_pkt (rx_at s) = Some p \<longrightarrow>
        unat (pkt_len (nbi_meta p)) = 72
        \<and> rx_frame K (nbi_meta p) 64 (mem40 (dev s)) = echoed s a)
     \<and> (\<forall>p t u. rx_at s = RxPoll p t u \<longrightarrow> t = pos a \<and> u = pos (Suc a))
     \<and> (\<forall>p t u. rx_at s = RxDma p t u \<longrightarrow> t = pos a \<and> u = pos (Suc a) \<and> Suc a < h + 8)
     \<and> (\<forall>p u. rx_at s = RxCommit p u \<longrightarrow> u = pos (Suc a) \<and> Suc a < h + 8)"

definition inv_tx :: "sdk \<Rightarrow> nat \<Rightarrow> nat \<Rightarrow> echo_state \<Rightarrow> bool" where
  "inv_tx K h d s \<longleftrightarrow>
     (\<forall>p t u. tx_at s = TxPoll p t u \<longrightarrow> t = pos d \<and> u = pos (Suc d))
     \<and> (\<forall>p t u. tx_at s = TxDma p t u \<longrightarrow>
          t = pos d \<and> u = pos (Suc d) \<and> d < h + published (host_at s))
     \<and> (\<forall>p u. tx_at s = TxCommit p u \<longrightarrow>
          u = pos (Suc d) \<and> d < h + published (host_at s) \<and> unat (pkt_len (nbi_meta p)) = 68
          \<and> tx_frame K (nbi_meta p) 64 (mem40 (dev s)) = echoed s d)
     \<and> (\<forall>p. tx_at s = TxSend p \<longrightarrow>
          0 < d \<and> unat (pkt_len (nbi_meta p)) = 68
          \<and> tx_frame K (nbi_meta p) 64 (mem40 (dev s)) = echoed s (d - 1))"

text \<open>Ring contents: every occupied slot holds the reply to the frame of its number.\<close>

definition inv_slots :: "host_env \<Rightarrow> nat \<Rightarrow> nat \<Rightarrow> nat \<Rightarrow> echo_state \<Rightarrow> bool" where
  "inv_slots H a h d s \<longleftrightarrow>
     (\<forall>i. h \<le> i \<and> i < a + rx_written (rx_at s) \<longrightarrow>
        slot_at (rx_iova H) i (pci_mem (dev s)) = echoed s i)
     \<and> (\<forall>i. d \<le> i \<and> i < h + copied (host_at s) \<longrightarrow>
        slot_at (tx_iova H) i (pci_mem (dev s)) = echoed s i)"

definition inv_bufs :: "sdk \<Rightarrow> echo_state \<Rightarrow> bool" where
  "inv_bufs K s \<longleftrightarrow>
     (\<forall>p. tx_pkt (tx_at s) = Some p \<longrightarrow> pkt_bufs_ok K (nbi_meta p) 64)
     \<and> (\<forall>p q. tx_pkt (tx_at s) = Some p \<longrightarrow> rx_pkt (rx_at s) = Some q \<longrightarrow>
          pkt_range K (nbi_meta p) 64 \<inter> pkt_range K (nbi_meta q) 64 = {})"

definition inv_wire :: "nat \<Rightarrow> echo_state \<Rightarrow> bool" where
  "inv_wire d s \<longleftrightarrow> wire_out s = map (echoed s) [0..<d - tx_unsent (tx_at s)]"

definition echo_view ::
  "sdk \<Rightarrow> host_env \<Rightarrow> nat \<Rightarrow> nat \<Rightarrow> nat \<Rightarrow> nat \<Rightarrow> nat \<Rightarrow> echo_state \<Rightarrow> bool" where
  "echo_view K H a h a0 d d0 s \<longleftrightarrow>
     inv_static H s \<and> inv_cursor a h a0 d d0 s \<and> inv_rx K a h s \<and> inv_tx K h d s
     \<and> inv_slots H a h d s \<and> inv_bufs K s \<and> inv_wire d s"

definition echo_inv :: "sdk \<Rightarrow> host_env \<Rightarrow> echo_state \<Rightarrow> bool" where
  "echo_inv K H s \<longleftrightarrow> (\<exists>a h a0 d d0. echo_view K H a h a0 d d0 s)"

lemmas inv_defs = inv_static_def inv_cursor_def inv_rx_def inv_tx_def inv_slots_def
  inv_bufs_def inv_wire_def

end
