(* ===== verification/Echo_Proof.thy ===== *)
theory Echo_Proof
  imports Echo_System
begin

text \<open>
  The steps of the three programs preserve the invariant of the system.
\<close>

section \<open>Slots and packet buffers\<close>

lemma geo: "ring_geom 64 8"
  by (simp add: ring_geom_def)

lemma slot_addr: "(base :: u64) + ucast (pos k) = base + of_nat ((k mod 8) * 64)"
  using unat_ring_pos [OF geo, of k] ucast_u32_of_nat [of "pos k"] by simp

lemma slot_off_bound: "(k mod 8) * 64 + 64 \<le> (512::nat)"
proof -
  have "k mod 8 < 8" by simp
  then show ?thesis by linarith
qed

lemma pos_Suc:
  "(if pos k + 64 \<ge> 512 then 0 else pos k + 64) = pos (Suc k)"
  using ring_advance_pos [OF geo, of k] by (simp add: ring_advance_def Let_def)

lemma pos_eq: "j \<le> k \<Longrightarrow> k < j + 8 \<Longrightarrow> pos j = pos k \<longleftrightarrow> j = k"
  by (rule ring_pos_eq_close [OF geo])

lemma pos_wrap: "j \<le> k \<Longrightarrow> k < j + 8 \<Longrightarrow> pos (Suc k) = pos j \<longleftrightarrow> Suc k = j + 8"
proof (cases "Suc k = j + 8")
  case True
  then show ?thesis by (simp add: ring_pos_def)
next
  case False
  assume "j \<le> k" "k < j + 8"
  with False show ?thesis using pos_eq [of j "Suc k"] by auto
qed

lemma slot_wr_same:
  "length bs = 64 \<Longrightarrow> slot_at b k (mem_wr p (b + ucast (pos k)) bs) = bs"
  unfolding slot_at_def by (rule mem_rd_wr_same) simp_all

lemma mod_neq: "i \<noteq> k \<Longrightarrow> i < k + 8 \<Longrightarrow> k < i + 8 \<Longrightarrow> i mod 8 \<noteq> k mod (8::nat)"
  using pos_eq [of i k] pos_eq [of k i] ring_pos_eq_iff [OF geo, of i k]
  by (metis linorder_linear)

lemma slot_wr_other:
  assumes "i \<noteq> k" "i < k + 8" "k < i + 8" "length bs = 64"
  shows "slot_at b i (mem_wr p (b + ucast (pos k)) bs) = slot_at b i p"
proof -
  have "i mod 8 < k mod 8 \<or> k mod 8 < i mod 8" using mod_neq [OF assms(1-3)] by linarith
  then have "disj_range (b + of_nat ((k mod 8) * 64)) 64 (b + of_nat ((i mod 8) * 64)) 64"
    using slot_off_bound by (intro disj_range_offsets [where L = 512]) auto
  then show ?thesis unfolding slot_at_def slot_addr
    by (intro mem_rd_wr_disj) (simp add: assms(4))
qed

lemma slot_wr_ring:
  assumes "disj_range b 512 b' 512" "length bs = 64"
  shows "slot_at b' i (mem_wr p (b + ucast (pos k)) bs) = slot_at b' i p"
proof -
  have "disj_range (b + of_nat ((k mod 8) * 64)) 64 (b' + of_nat ((i mod 8) * 64)) 64"
    using assms(1) by (rule disj_range_sub) (use slot_off_bound in auto)
  then show ?thesis unfolding slot_at_def slot_addr
    by (intro mem_rd_wr_disj) (simp add: assms(2))
qed

lemma ctm_in_range: "x < 256 \<Longrightarrow> pkt_ctm_ptr40 K (isl m) (pnum m) 0 + of_nat x \<in> pkt_range K m n"
  by (auto simp: pkt_range_def)

lemma mu_in_range: "x < 256 + n \<Longrightarrow> mu_addr (muptr m) + of_nat x \<in> pkt_range K m n"
  by (auto simp: pkt_range_def)

lemma pkt_bytes_cong:
  assumes K: "ctm_ptr_ok K" and off: "off \<le> 256" and eq: "\<forall>a\<in>pkt_range K m n. mm a = mm' a"
  shows "pkt_bytes K m off n mm = pkt_bytes K m off n mm'"
proof -
  let ?a = "pkt_ctm_ptr40 K (isl m) (pnum m) 0" and ?u = "mu_addr (muptr m)"
  have "mm (?a + of_nat off + of_nat i) = mm' (?a + of_nat off + of_nat i)"
    if "i < min (256 - off) n" for i
  proof -
    have "?a + of_nat (off + i) \<in> pkt_range K m n" using that by (intro ctm_in_range) linarith
    then show ?thesis using eq by (simp add: add.assoc)
  qed
  moreover have "mm (?u + 256 + of_nat i) = mm' (?u + 256 + of_nat i)" if "i < n - (256 - off)" for i
  proof -
    have "?u + of_nat (256 + i) \<in> pkt_range K m n" using that by (intro mu_in_range) simp
    then show ?thesis using eq by (simp add: add.assoc)
  qed
  ultimately show ?thesis using off
    by (simp add: pkt_bytes_def ctm_ptr_off [OF K] mem_rd_def)
qed

text \<open>The firmware writes device memory inside the buffers of its own packet only.\<close>

lemma mem_wr_outside:
  assumes "\<And>i. i < length bs \<Longrightarrow> a + of_nat i \<in> S" "x \<notin> S"
  shows "mem_wr m a bs x = m x"
  using assms by (intro mem_wr_other) auto

lemma ctm_write_outside:
  assumes K: "ctm_ptr_ok K" and off: "off + length bs \<le> 256" and x: "x \<notin> pkt_range K m n"
  shows "mem_wr mm (pkt_ctm_ptr40 K (isl m) (pnum m) (of_nat off)) bs x = mm x"
proof (rule mem_wr_outside [OF _ x])
  fix i assume "i < length bs"
  then have "pkt_ctm_ptr40 K (isl m) (pnum m) 0 + of_nat (off + i) \<in> pkt_range K m n"
    using off by (intro ctm_in_range) simp
  moreover have "pkt_ctm_ptr40 K (isl m) (pnum m) (of_nat off) =
      pkt_ctm_ptr40 K (isl m) (pnum m) 0 + of_nat off"
    using off by (intro ctm_ptr_off [OF K]) simp
  ultimately show "pkt_ctm_ptr40 K (isl m) (pnum m) (of_nat off) + of_nat i \<in> pkt_range K m n"
    by (simp add: add.assoc)
qed

lemma write_header_outside:
  assumes K: "sdk_ok K" and wf: "hdr_wf (hdr pkt)" and x: "x \<notin> pkt_range K (nbi_meta pkt) n"
  shows "mem40 (write_packet_header K pkt s) x = mem40 s x"
proof -
  have "length (hdr_bytes K (hdr pkt)) = 52"
    using K wf by (simp add: sdk_ok_def hdr_layout_ok_def rfc_hdr_bytes_def hdr_wf_def)
  then show ?thesis
    using ctm_write_outside [of K 64 "hdr_bytes K (hdr pkt)" x "nbi_meta pkt" n "mem40 s"] K x
    by (simp add: write_packet_header_def pkt_consts sdk_ok_def)
qed

lemma dma_recv_outside:
  assumes K: "sdk_ok K" and len: "0 < unat len" and x: "x \<notin> pkt_range K (nbi_meta pkt) (unat len)"
    and low: "188 < unat len \<Longrightarrow> unat (muptr (nbi_meta pkt)) < 2 ^ 21"
  shows "mem40 (dma_packet_recv K cx pkt len pa s) x = mem40 s x"
proof -
  let ?m = "nbi_meta pkt" and ?n = "unat len"
  let ?y = "mem_rd (pci_mem s) (pa + of_nat (min 188 ?n)) (?n - 188)"
  have e: "dma_engine_ok K" "ctm_ptr_ok K" using K by (simp_all add: sdk_ok_def)
  have "mu_addr (muptr ?m) + 256 + of_nat i \<in> pkt_range K ?m ?n" if "i < length ?y" for i
    using mu_in_range [of "256 + i" ?n ?m K] that by (simp add: add.assoc)
  then have "mem_wr mm (mu_addr (muptr ?m) + 256) ?y x = mm x" for mm
    using x by (intro mem_wr_outside) auto
  then have "mem_wr mm (pkt_mu_buffer (muptr ?m)) ?y x = mm x" for mm
    using mu_part_low [OF low] by (cases "188 < ?n") simp_all
  moreover have "mem_wr mm (pkt_ctm_ptr40 K (isl ?m) (pnum ?m) 68)
      (mem_rd (pci_mem s) pa (min 188 ?n)) x = mm x" for mm
    using ctm_write_outside [OF e(2), of 68 "mem_rd (pci_mem s) pa (min 188 ?n)" x ?m ?n mm] x
    by simp
  ultimately show ?thesis by (simp add: dma_packet_recv_writes [OF e(1) len])
qed

lemma allocate_outside:
  assumes K: "sdk_ok K" "\<forall>m. length (meta_bytes K m) \<le> 64"
    and al: "allocate_packet K ctm blm pkt0 s = Some (p, a, s')"
  shows "pci_mem s' = pci_mem s" "x \<notin> pkt_range K (nbi_meta p) n \<Longrightarrow> mem40 s' x = mem40 s x"
proof -
  have "allocate_packet K ctm blm pkt0 s = None" if "poll_ctm_alloc ctm = None \<or> poll_blm_alloc blm = None"
    using that by (auto simp: allocate_packet_def split: option.split)
  then have "poll_ctm_alloc ctm \<noteq> None" "poll_blm_alloc blm \<noteq> None"
    using al option.distinct(1) by metis+
  then obtain num buf where r: "poll_ctm_alloc ctm = Some num" "poll_blm_alloc blm = Some buf"
    by blast
  define m where "m = (nbi_meta pkt0)\<lparr>isl := ISLAND K, pnum := ucast num, bls := 0,
                         muptr := buf, split_flag := 1, pkt_len := 0\<rparr>"
  have p: "p = pkt0\<lparr>nbi_meta := m\<rparr>" and s': "s' = s\<lparr>mem40 :=
      mem_wr (mem40 s) (pkt_ctm_ptr40 K (ISLAND K) (ucast num) 0) (meta_bytes K m)\<rparr>"
    using al unfolding allocate_packet_def r Let_def m_def option.case by blast+
  show "pci_mem s' = pci_mem s" by (simp add: s')
  assume x: "x \<notin> pkt_range K (nbi_meta p) n"
  have d: "isl (nbi_meta p) = ISLAND K" "pnum (nbi_meta p) = ucast num" "nbi_meta p = m"
    by (simp_all add: p m_def)
  have "length (meta_bytes K (nbi_meta p)) \<le> 256" using K(2) [rule_format, of "nbi_meta p"] by linarith
  then show "mem40 s' x = mem40 s x"
    using ctm_write_outside [of K 0 "meta_bytes K (nbi_meta p)" x "nbi_meta p" n "mem40 s"] K(1) x d
    by (simp add: sdk_ok_def s')
qed

section \<open>The worker\<close>

lemma echo_viewI:
  assumes "inv_static H s" "inv_cursor a h a0 d d0 s" "inv_rx K a h s" "inv_tx K h d s"
    "inv_slots H a h d s" "inv_bufs K s" "inv_wire d s"
  shows "echo_inv K H s"
  using assms unfolding echo_inv_def echo_view_def by blast

lemma echo_viewD:
  assumes "echo_view K H a h a0 d d0 s"
  shows "inv_static H s" "inv_cursor a h a0 d d0 s" "inv_rx K a h s" "inv_tx K h d s"
    "inv_slots H a h d s" "inv_bufs K s" "inv_wire d s"
  using assms unfolding echo_view_def by blast+

lemmas host_simps = inv_defs echoed_def progress_defs

text \<open>The state after a step of the worker.\<close>

abbreviation host_upd :: "echo_state \<Rightarrow> host_conf \<Rightarrow> echo_state" where
  "host_upd s x \<equiv> (case x of (pc, rrx, rtx, c, p) \<Rightarrow> s\<lparr>host_at := pc, ring_rx := rrx, ring_tx := rtx,
     shared_cfg := c, dev := (dev s)\<lparr>pci_mem := p\<rparr>\<rparr>)"

abbreviation host_conf_of :: "echo_state \<Rightarrow> host_conf" where
  "host_conf_of s \<equiv> (host_at s, ring_rx s, ring_tx s, shared_cfg s, pci_mem (dev s))"

lemma rings_view:
  assumes "echo_view K H a h a0 d d0 s" "host_at s \<noteq> HConfig"
  shows "rb_view 64 8 (h + popped (host_at s)) a0 (ring_rx s)"
    "rb_view 64 8 d0 (h + pushed (host_at s)) (ring_tx s)"
  using echo_viewD(1,2) [OF assms(1)] assms(2) geo
  by (auto simp: rb_view_def inv_static_def inv_cursor_def progress_defs split: if_splits)

lemma host_config_preserves:
  assumes v: "echo_view K H a h a0 d d0 s" and pc: "host_at s = HConfig"
  shows "echo_inv K H (host_upd s (host_step H (host_conf_of s)))"
proof -
  have "a = 0 \<and> h = 0 \<and> a0 = 0 \<and> d = 0 \<and> d0 = 0"
    using echo_viewD(1,2) [OF v] pc by (simp add: inv_static_def inv_cursor_def progress_defs)
  then show ?thesis
    using echo_viewD [OF v] pc
    by (intro echo_viewI [of _ _ 0 0 0 0 0])
      (simp_all add: host_simps setup_rings_def configure_fields_def size_consts)
qed

lemma host_start_preserves:
  assumes v: "echo_view K H a h a0 d d0 s" and pc: "host_at s = HStart"
  shows "echo_inv K H (host_upd s (host_step H (host_conf_of s)))"
proof -
  note i = echo_viewD [OF v]
  show ?thesis
  proof (rule echo_viewI [of _ _ a h a0 d d0])
  qed (use i pc in \<open>simp_all add: host_simps\<close>)
qed

lemma host_read_rx_preserves:
  assumes v: "echo_view K H a h a0 d d0 s" and pc: "host_at s = HReadRx"
  shows "echo_inv K H (host_upd s (host_step H (host_conf_of s)))"
  by (rule echo_viewI [of _ _ a h a d d0]) 
     (use echo_viewD [OF v] pc in \<open>simp_all add: host_simps\<close>)

lemma host_read_tx_preserves:
  assumes v: "echo_view K H a h a0 d d0 s" and pc: "host_at s = HReadTx"
  shows "echo_inv K H (host_upd s (host_step H (host_conf_of s)))"
  by (rule echo_viewI [of _ _ a h a0 d d]) 
     (use echo_viewD [OF v] pc in \<open>simp_all add: host_simps\<close>)

lemma host_test_preserves:
  assumes v: "echo_view K H a h a0 d d0 s" and pc: "host_at s = HTest"
  shows "echo_inv K H (host_upd s (host_step H (host_conf_of s)))"
proof -
  have e: "ringbuffer_empty (ring_rx s) \<longleftrightarrow> h = a0"
    using rb_view_empty [OF rings_view(1) [OF v]] pc by (simp add: progress_defs)
  have f: "ringbuffer_full (ring_tx s) = Inr (Suc h = d0 + 8)"
    using rb_view_full [OF rings_view(2) [OF v]] pc by (simp add: progress_defs)
  show ?thesis
  proof (cases "h = a0 \<or> Suc h = d0 + 8")
    case True
    then have "host_step H (host_conf_of s) =
        (HReadRx, ring_rx s, ring_tx s, shared_cfg s, pci_mem (dev s))" using pc e f by auto
    then show ?thesis
      using echo_viewD [OF v] pc by (intro echo_viewI [of _ _ a h a0 d d0]) (simp_all add: host_simps)
  next
    case False
    then have "host_step H (host_conf_of s) =
        (HCopy, ring_rx s, ring_tx s, shared_cfg s, pci_mem (dev s))" using pc e f by auto
    then show ?thesis using echo_viewD [OF v] pc False
      by (intro echo_viewI [of _ _ a h a0 d d0]) (simp_all add: host_simps)
  qed
qed

lemma host_pop_preserves:
  assumes v: "echo_view K H a h a0 d d0 s" and pc: "host_at s = HPop"
  shows "echo_inv K H (host_upd s (host_step H (host_conf_of s)))"
proof -
  have "h < a0" using echo_viewD(2) [OF v] pc by (simp add: inv_cursor_def progress_defs)
  then have "ringbuffer_pop (ring_rx s) = Inr ((ring_rx s)\<lparr>rb_head := pos (Suc h)\<rparr>)"
    using rb_view_pop [OF rings_view(1) [OF v]] pc by (simp add: progress_defs)
  then show ?thesis
    using echo_viewD [OF v] pc by (intro echo_viewI [of _ _ a h a0 d d0]) (simp_all add: host_simps)
qed

lemma host_push_preserves:
  assumes v: "echo_view K H a h a0 d d0 s" and pc: "host_at s = HPush"
  shows "echo_inv K H (host_upd s (host_step H (host_conf_of s)))"
proof -
  have "Suc h \<noteq> d0 + 8" using echo_viewD(2) [OF v] pc by (simp add: inv_cursor_def progress_defs)
  then have "ringbuffer_push (ring_tx s) = Inr ((ring_tx s)\<lparr>rb_tail := pos (Suc h)\<rparr>)"
    using rb_view_push [OF rings_view(2) [OF v]] pc by (simp add: progress_defs)
  then show ?thesis
    using echo_viewD [OF v] pc by (intro echo_viewI [of _ _ a h a0 d d0]) (simp_all add: host_simps)
qed

lemma host_pub_tx_preserves:
  assumes v: "echo_view K H a h a0 d d0 s" and pc: "host_at s = HPubTx"
  shows "echo_inv K H (host_upd s (host_step H (host_conf_of s)))"
  by (rule echo_viewI [of _ _ a h a0 d d0])
     (use echo_viewD [OF v] pc in \<open>auto simp add: host_simps\<close>)

lemma host_pub_rx_preserves:
  assumes v: "echo_view K H a h a0 d d0 s" and pc: "host_at s = HPubRx"
  shows "echo_inv K H (host_upd s (host_step H (host_conf_of s)))"
  by (rule echo_viewI [of _ _ a "Suc h" a0 d d0])
     (use echo_viewD [OF v] pc in \<open>auto simp add: host_simps\<close>)

lemma host_copy_mem:
  assumes env: "env_ok K H" and v: "echo_view K H a h a0 d d0 s" and pc: "host_at s = HCopy"
  shows "host_memcpy (host_map H) (ringbuffer_back (ring_tx s)) (ringbuffer_front (ring_rx s)) 64 p =
    mem_wr p (tx_iova H + ucast (pos h)) (slot_at (rx_iova H) h p)"
proof -
  have b: "ringbuffer_back (ring_tx s) = tx_addr H + of_nat ((h mod 8) * 64)"
    "ringbuffer_front (ring_rx s) = rx_addr H + of_nat ((h mod 8) * 64)"
    using echo_viewD(1,2) [OF v] pc
    by (simp_all add: ringbuffer_back_def ringbuffer_front_def inv_static_def inv_cursor_def
        progress_defs slot_addr)
  have c: "contig (host_map H) (tx_addr H + of_nat ((h mod 8) * 64)) (tx_iova H + of_nat ((h mod 8) * 64)) 64"
    "contig (host_map H) (rx_addr H + of_nat ((h mod 8) * 64)) (rx_iova H + of_nat ((h mod 8) * 64)) 64"
    using env slot_off_bound [of h] unfolding env_ok_def by (blast intro: contig_sub)+
  show ?thesis unfolding host_memcpy_def b slot_at_def slot_addr host_rd_contig [OF c(2)]
    by (rule host_wr_contig) (use c(1) in simp)
qed

lemma host_copy_preserves:
  assumes env: "env_ok K H" and v: "echo_view K H a h a0 d d0 s" and pc: "host_at s = HCopy"
  shows "echo_inv K H (host_upd s (host_step H (host_conf_of s)))"
proof -
  note i = echo_viewD [OF v]
  let ?p = "pci_mem (dev s)"
  let ?q = "mem_wr ?p (tx_iova H + ucast (pos h)) (slot_at (rx_iova H) h ?p)"
  have len: "length (slot_at (rx_iova H) h ?p) = 64" by (simp add: slot_at_def)
  have b: "h < a0" "a0 \<le> a" "a < h + 8" "h + 1 < d0 + 8" "d0 \<le> d" "d \<le> h"
    using i(2) pc by (auto simp: inv_cursor_def progress_defs)
  have disj: "disj_range (tx_iova H) 512 (rx_iova H) 512"
    using env disj_range_sym by (auto simp: env_ok_def)
  have rx: "slot_at (rx_iova H) j ?q = slot_at (rx_iova H) j ?p" for j
    by (rule slot_wr_ring [OF disj len])
  have same: "slot_at (tx_iova H) h ?q = slot_at (rx_iova H) h ?p" by (rule slot_wr_same [OF len])
  have tx: "slot_at (tx_iova H) j ?q = slot_at (tx_iova H) j ?p" if "d \<le> j" "j < h" for j
    using that b by (intro slot_wr_other len) auto
  have sl: "inv_slots H a h d (host_upd s (host_step H (host_conf_of s)))"
    using i(5) b same tx rx pc host_copy_mem [OF env v pc, of ?p]
    by (auto simp: inv_slots_def echoed_def progress_defs size_consts less_Suc_eq)
  show ?thesis
    by (rule echo_viewI [OF _ _ _ _ sl, of a0 d0])
      (use i pc b in \<open>simp_all add: host_simps\<close>)
qed

lemma host_preserves:
  assumes env: "env_ok K H" and inv: "echo_inv K H s"
  shows "echo_inv K H (host_upd s (host_step H (host_conf_of s)))"
proof -
  obtain a h a0 d d0 where v: "echo_view K H a h a0 d d0 s" using inv by (auto simp: echo_inv_def)
  have "\<forall>t. host_at s \<noteq> HTrap t" using echo_viewD(1) [OF v] by (simp add: inv_static_def)
  then show ?thesis
    using v env host_config_preserves host_start_preserves host_read_rx_preserves
      host_read_tx_preserves host_test_preserves host_copy_preserves host_pop_preserves
      host_push_preserves host_pub_tx_preserves host_pub_rx_preserves
    by (cases "host_at s") metis+
qed

section \<open>The receive engine\<close>

abbreviation rx_upd :: "echo_state \<Rightarrow> me_local \<times> rx_pc \<times> device_meta_t \<times> me_state \<Rightarrow> echo_state" where
  "rx_upd s x \<equiv> (case x of (lm, pc, c, d) \<Rightarrow>
     s\<lparr>rx_local := lm, rx_at := pc, shared_cfg := c, dev := d\<rparr>)"

abbreviation rx_conf_of :: "echo_state \<Rightarrow> me_local \<times> rx_pc \<times> device_meta_t \<times> me_state" where
  "rx_conf_of s \<equiv> (rx_local s, rx_at s, shared_cfg s, dev s)"

lemma drop_packet_mem [simp]:
  "mem40 (drop_packet p s) = mem40 s" "pci_mem (drop_packet p s) = pci_mem s"
  by (simp_all add: drop_packet_def free_packet_def Let_def)

lemma rx_boot_preserves:
  assumes v: "echo_view K H a h a0 d d0 s" and pc: "rx_at s = RxBoot"
  shows "echo_inv K H (rx_upd s (rx_step K 0 meta (rx_conf_of s)))"
proof (cases "start_signal (shared_cfg s) = 0")
  case True
  then show ?thesis using echo_viewD [OF v] pc
    by (intro echo_viewI [of _ _ a h a0 d d0]) (simp_all add: inv_defs echoed_def)
next
  case False
  then show ?thesis using echo_viewD [OF v] pc
    by (intro echo_viewI [of _ _ a h a0 d d0]) (auto simp: inv_defs echoed_def load_config_def)
qed

lemma rx_reserve_preserves:
  assumes v: "echo_view K H a h a0 d d0 s" and pc: "rx_at s = RxReserve p"
  shows "echo_inv K H (rx_upd s (rx_step K 0 meta (rx_conf_of s)))"
proof -
  have "rx_tail (shared_cfg s) = pos a" "packet_size (rx_local s) = 64" "buffer_capacity (rx_local s) = 512"
    using echo_viewD(1,2) [OF v] pc by (simp_all add: inv_static_def inv_cursor_def)
  then have "rx_step K 0 meta (rx_conf_of s) =
      (rx_local s, RxPoll p (pos a) (pos (Suc a)), shared_cfg s, dev s)"
    using pc pos_Suc [of a] by (simp add: Let_def)
  then show ?thesis using echo_viewD [OF v] pc
    by (intro echo_viewI [of _ _ a h a0 d d0]) (simp_all add: inv_defs echoed_def)
qed

lemma rx_poll_preserves:
  assumes v: "echo_view K H a h a0 d d0 s" and pc: "rx_at s = RxPoll p t u"
  shows "echo_inv K H (rx_upd s (rx_step K 0 meta (rx_conf_of s)))"
proof (cases "u = rx_head (shared_cfg s)")
  case True
  then show ?thesis using echo_viewD [OF v] pc
    by (intro echo_viewI [of _ _ a h a0 d d0]) (simp_all add: inv_defs echoed_def)
next
  case False
  have b: "h \<le> a" "a < h + 8" "rx_head (shared_cfg s) = pos h" "u = pos (Suc a)"
    using echo_viewD(2,3) [OF v] pc by (auto simp: inv_cursor_def inv_rx_def)
  then have "Suc a < h + 8" using False pos_wrap [of h a] by auto
  then show ?thesis using echo_viewD [OF v] pc False
    by (intro echo_viewI [of _ _ a h a0 d d0]) (simp_all add: inv_defs echoed_def)
qed

lemma rx_dma_preserves:
  assumes env: "env_ok K H" and v: "echo_view K H a h a0 d d0 s" and pc: "rx_at s = RxDma p t u"
  shows "echo_inv K H (rx_upd s (rx_step K 0 meta (rx_conf_of s)))"
proof -
  note i = echo_viewD [OF v]
  have hc: "host_at s \<noteq> HConfig" using i(1) pc by (auto simp: inv_static_def)
  have b: "t = pos a" "u = pos (Suc a)" "Suc a < h + 8" "h \<le> a"
    "unat (pkt_len (nbi_meta p)) = 72" "rx_frame K (nbi_meta p) 64 (mem40 (dev s)) = echoed s a"
    using i(2,3) pc by (auto simp: inv_rx_def inv_cursor_def)
  let ?p = "pci_mem (dev s)" and ?q = "mem_wr (pci_mem (dev s)) (rx_iova H + ucast (pos a)) (echoed s a)"
  have len: "length (echoed s a) = 64" using b(6) length_pkt_bytes by metis
  have "dma_engine_ok K" and disj: "disj_range (rx_iova H) 512 (tx_iova H) 512"
    using env by (auto simp: env_ok_def sdk_ok_def)
  then have st: "rx_step K 0 meta (rx_conf_of s) = (rx_local s, RxCommit p u, shared_cfg s,
      (dev s)\<lparr>pci_mem := ?q, dma_cfg := dma_cfg_set\<rparr>)"
    using pc b hc i(1) by (simp add: dma_packet_send_frame inv_static_def)
  have "slot_at (rx_iova H) j ?q = echoed s j" if "h \<le> j" "j < Suc a" for j
  proof (cases "j = a")
    case True
    then show ?thesis using slot_wr_same [OF len] by simp
  next
    case False
    then have "slot_at (rx_iova H) j ?q = slot_at (rx_iova H) j ?p"
      using that b by (intro slot_wr_other len) auto
    then show ?thesis using i(5) that False pc by (simp add: inv_slots_def)
  qed
  moreover have "slot_at (tx_iova H) j ?q = slot_at (tx_iova H) j ?p" for j
    by (rule slot_wr_ring [OF disj len])
  ultimately have sl: "inv_slots H a h d (rx_upd s (rx_step K 0 meta (rx_conf_of s)))"
    using i(5) st by (simp add: inv_slots_def echoed_def)
  show ?thesis
    by (rule echo_viewI [OF _ _ _ _ sl, of a0 d0])
      (use i pc b st in \<open>simp_all add: inv_defs echoed_def\<close>)
qed

lemma rx_commit_preserves:
  assumes v: "echo_view K H a h a0 d d0 s" and pc: "rx_at s = RxCommit p u"
  shows "echo_inv K H (rx_upd s (rx_step K 0 meta (rx_conf_of s)))"
  by (rule echo_viewI [of _ _ "Suc a" h a0 d d0])
    (use echo_viewD [OF v] pc in \<open>simp_all add: inv_defs echoed_def\<close>)

lemma rx_free_preserves:
  assumes v: "echo_view K H a h a0 d d0 s" and pc: "rx_at s = RxFree p"
  shows "echo_inv K H (rx_upd s (rx_step K 0 meta (rx_conf_of s)))"
  by (rule echo_viewI [of _ _ a h a0 d d0])
    (use echo_viewD [OF v] pc in \<open>simp_all add: inv_defs echoed_def\<close>)

lemma rx_preserves:
  assumes env: "env_ok K H" and inv: "echo_inv K H s" and pc: "rx_at s \<noteq> RxIdle"
  shows "echo_inv K H (rx_upd s (rx_step K 0 meta (rx_conf_of s)))"
proof -
  obtain a h a0 d d0 where v: "echo_view K H a h a0 d d0 s" using inv by (auto simp: echo_inv_def)
  show ?thesis
  proof (cases "rx_at s")
    case RxExit
    then show ?thesis using echo_viewD [OF v]
      by (intro echo_viewI [of _ _ a h a0 d d0]) (simp_all add: inv_defs echoed_def)
  next
    case RxBoot then show ?thesis by (rule rx_boot_preserves [OF v])
  next
    case RxIdle then show ?thesis using pc by simp
  next
    case RxReserve then show ?thesis by (rule rx_reserve_preserves [OF v])
  next
    case RxPoll then show ?thesis by (rule rx_poll_preserves [OF v])
  next
    case RxDma then show ?thesis by (rule rx_dma_preserves [OF env v])
  next
    case RxCommit then show ?thesis by (rule rx_commit_preserves [OF v])
  next
    case RxFree then show ?thesis by (rule rx_free_preserves [OF v])
  qed
qed

text \<open>What the transmit engine knows survives steps that leave its packet alone.\<close>

lemma inv_tx_frame:
  assumes "inv_tx K h d s" "ctm_ptr_ok K" "tx_at t = tx_at s" "host_at t = host_at s"
    "\<forall>p. tx_pkt (tx_at s) = Some p \<longrightarrow>
       (\<forall>x\<in>pkt_range K (nbi_meta p) 64. mem40 (dev t) x = mem40 (dev s) x)"
    "\<And>i. i < h + published (host_at s) \<Longrightarrow> echoed t i = echoed s i" "d \<le> h + published (host_at s)"
  shows "inv_tx K h d t"
proof -
  have "tx_frame K (nbi_meta p) 64 (mem40 (dev t)) = tx_frame K (nbi_meta p) 64 (mem40 (dev s))"
    if "tx_pkt (tx_at s) = Some p" for p
    using assms(5) that by (intro pkt_bytes_cong [OF assms(2)]) auto
  moreover have "echoed t (d - 1) = echoed s (d - 1)" if "0 < d"
    using assms(6) [of "d - 1"] assms(7) that by simp
  ultimately show ?thesis using assms(1,3,4,6,7) by (auto simp: inv_tx_def)
qed

lemma rx_accept_cases:
  assumes env: "env_ok K H" and lm: "packet_size lm = 64" and mm: "mem40 s = mm"
    and bufs: "pkt_bufs_ok K meta 64" and len: "8 \<le> unat (pkt_len meta)"
  obtains (drop) pkt where "rx_accept K lm meta s = (None, drop_packet pkt s)" "nbi_meta pkt = meta"
      "\<not> accept_frame 64 (rx_frame K meta (unat (pkt_len meta) - 8) mm)"
  | (allow) pkt d where "rx_accept K lm meta s = (Some pkt, d)" "nbi_meta pkt = meta"
      "accept_frame 64 (rx_frame K meta (unat (pkt_len meta) - 8) mm)"
      "unat (pkt_len meta) = 72" "pci_mem d = pci_mem s"
      "rx_frame K meta 64 (mem40 d) = echo_frame (rx_frame K meta 64 mm)"
      "\<And>x. x \<notin> pkt_range K meta 64 \<Longrightarrow> mem40 d x = mm x"
proof -
  have K: "sdk_ok K" using env by (simp add: env_ok_def)
  define q where "q = fst (receive_packet_with_hdrs K meta s)"
  have qm: "nbi_meta q = meta"
    and qh: "hdr q = bytes_hdr K (mem_rd (mem40 s)
        (pkt_ctm_ptr40 K (isl (nbi_meta q)) (pnum (nbi_meta q)) PKT_NBI_OFFSET) pkt_hdr_sz)"
    by (simp_all add: q_def receive_packet_with_hdrs_def Let_def)
  have ac: "rx_accept K lm meta s = (case filter_packets 64 q of DROP \<Rightarrow> (None, drop_packet q s)
      | ALLOW \<Rightarrow> (Some (modify_packet_header q), write_packet_header K (modify_packet_header q) s))"
    by (cases "filter_packets 64 q") (simp_all add: rx_accept_def q_def lm split_beta Let_def)
  have "filter_packets 64 q = ALLOW \<longleftrightarrow>
      accept_frame 64 (rx_frame K (nbi_meta q) (unat (pkt_len (nbi_meta q)) - 8) (mem40 s))"
    by (rule filter_packets_frame [OF K _ _ _ qh]) (use len qm in simp_all)
  then have fa: "filter_packets 64 q = ALLOW \<longleftrightarrow>
      accept_frame 64 (rx_frame K meta (unat (pkt_len meta) - 8) mm)" using qm mm by simp
  show ?thesis
  proof (cases "filter_packets 64 q")
    case DROP
    then show ?thesis using ac fa qm by (intro drop) simp_all
  next
    case ALLOW
    then have "unat (pkt_len meta) - 8 = 64" using fa by (simp add: accept_frame_def)
    then have l: "unat (pkt_len meta) = 72" by linarith
    have "length (mem_rd (mem40 s) (pkt_ctm_ptr40 K (isl meta) (pnum meta) PKT_NBI_OFFSET) pkt_hdr_sz) = 52"
      by (simp add: pkt_hdr_sz_def)
    then have wf: "hdr_wf (hdr (modify_packet_header q))"
      using K qh qm rfc_bytes_hdr_wf by (intro modify_hdr_wf) (simp add: sdk_ok_def hdr_layout_ok_def pkt_hdr_sz_def)
    show ?thesis
    proof (rule allow)
      show "rx_accept K lm meta s =
          (Some (modify_packet_header q), write_packet_header K (modify_packet_header q) s)"
        using ac ALLOW by simp
      show "rx_frame K meta 64 (mem40 (write_packet_header K (modify_packet_header q) s)) =
          echo_frame (rx_frame K meta 64 mm)"
        using header_path_echo [OF K _ _ qh, of 64] bufs qm mm by simp
      show "mem40 (write_packet_header K (modify_packet_header q) s) x = mm x"
        if "x \<notin> pkt_range K meta 64" for x
        using write_header_outside [OF K wf, of x 64 s] that qm mm by simp
    qed (use l qm fa ALLOW in \<open>simp_all add: write_packet_header_def Let_def\<close>)
  qed
qed

lemma receive_preserves:
  assumes env: "env_ok K H" and inv: "echo_inv K H s" and pc: "rx_at s = RxIdle"
    and arr: "arrival_ok K s meta mm"
    and st: "rx_step K 0 meta (rx_local s, RxIdle, shared_cfg s, (dev s)\<lparr>mem40 := mm\<rparr>) = (lm, pc', c, d')"
  shows "echo_inv K H (s\<lparr>rx_local := lm, rx_at := pc', shared_cfg := c, dev := d',
       accepted := accepted s @ (if pc' = RxIdle then [] else [rx_frame K meta 64 mm])\<rparr>)"
    (is "echo_inv K H ?t")
proof -
  obtain a h a0 d d0 where v: "echo_view K H a h a0 d d0 s" using inv by (auto simp: echo_inv_def)
  note i = echo_viewD [OF v]
  have lms: "packet_size (rx_local s) = 64" using i(1) pc by (simp add: inv_static_def)
  have la: "length (accepted s) = a" "h \<le> a" "h + published (host_at s) \<le> a" "d \<le> h + published (host_at s)"
    "h + copied (host_at s) \<le> a"
    using i(2) pc by (auto simp: inv_cursor_def progress_defs split: if_splits)
  have c: "ctm_ptr_ok K" using env by (simp add: env_ok_def sdk_ok_def)
  show ?thesis
  proof (rule rx_accept_cases [OF env lms, of "(dev s)\<lparr>mem40 := mm\<rparr>" mm meta])
    fix q assume "rx_accept K (rx_local s) meta ((dev s)\<lparr>mem40 := mm\<rparr>) =
        (None, drop_packet q ((dev s)\<lparr>mem40 := mm\<rparr>))"
    then have t: "lm = rx_local s" "pc' = RxIdle" "c = shared_cfg s"
      "d' = drop_packet q ((dev s)\<lparr>mem40 := mm\<rparr>)" using st by auto
    have tx: "inv_tx K h d ?t"
      by (rule inv_tx_frame [OF i(4) c]) (use arr la in \<open>auto simp: t arrival_ok_def echoed_def\<close>)
    show ?thesis by (rule echo_viewI [OF _ _ _ tx, of H a a0 d0])
        (use i pc in \<open>simp_all add: t inv_defs echoed_def\<close>)
  next
    fix q e assume al: "rx_accept K (rx_local s) meta ((dev s)\<lparr>mem40 := mm\<rparr>) = (Some q, e)"
      "nbi_meta q = meta" "unat (pkt_len meta) = 72" "pci_mem e = pci_mem ((dev s)\<lparr>mem40 := mm\<rparr>)"
      "rx_frame K meta 64 (mem40 e) = echo_frame (rx_frame K meta 64 mm)"
      "\<And>x. x \<notin> pkt_range K meta 64 \<Longrightarrow> mem40 e x = mm x"
    then have t: "lm = rx_local s" "pc' = RxReserve q" "c = shared_cfg s" "d' = e" using st by auto
    have ec: "echoed ?t j = echoed s j" if "j < a" for j
      using that la by (simp add: echoed_def t nth_append)
    have tx: "inv_tx K h d ?t"
    proof (rule inv_tx_frame [OF i(4) c])
      show "\<forall>p. tx_pkt (tx_at s) = Some p \<longrightarrow>
          (\<forall>x\<in>pkt_range K (nbi_meta p) 64. mem40 (dev ?t) x = mem40 (dev s) x)"
        using arr al(6) unfolding arrival_ok_def t by fastforce
      show "echoed ?t j = echoed s j" if "j < h + published (host_at s)" for j
        using ec that la by simp
    qed (use la in simp_all)
    have sl: "inv_slots H a h d ?t"
    proof -
      have "pci_mem (dev ?t) = pci_mem (dev s)" "rx_written (rx_at ?t) = 0" "host_at ?t = host_at s"
        using al(4) by (simp_all add: t)
      then show ?thesis using i(5) ec la pc unfolding inv_slots_def by simp
    qed
    have wi: "inv_wire d ?t" using i(7) ec la by (auto simp: inv_wire_def)
    have bu: "inv_bufs K ?t" using i(6) arr al(2) by (auto simp: inv_bufs_def arrival_ok_def t)
    have rx: "inv_rx K a h ?t" using al(2,3,5) la by (simp add: inv_rx_def t echoed_def nth_append)
    have cu: "inv_cursor a h a0 d d0 ?t" using i(2) pc by (auto simp: inv_cursor_def t)
    have stc: "inv_static H ?t" using i(1) pc by (auto simp: inv_static_def t)
    show ?thesis by (rule echo_viewI [OF stc cu rx tx sl bu wi])
  qed (use arr in \<open>auto simp: arrival_ok_def\<close>)
qed
section \<open>The transmit engine\<close>

abbreviation tx_upd :: "sdk \<Rightarrow> echo_state \<Rightarrow> me_local \<times> tx_pc \<times> device_meta_t \<times> me_state \<Rightarrow> echo_state" where
  "tx_upd K s x \<equiv> (case x of (lm, pc, c, d) \<Rightarrow>
     s\<lparr>tx_local := lm, tx_at := pc, shared_cfg := c, dev := d,
       wire_out := wire_out s @ sent_frame K s\<rparr>)"

abbreviation tx_conf_of :: "echo_state \<Rightarrow> me_local \<times> tx_pc \<times> device_meta_t \<times> me_state" where
  "tx_conf_of s \<equiv> (tx_local s, tx_at s, shared_cfg s, dev s)"

lemmas tx_simps = inv_defs echoed_def sent_frame_def

lemma tx_boot_preserves:
  assumes v: "echo_view K H a h a0 d d0 s" and pc: "tx_at s = TxBoot"
  shows "echo_inv K H (tx_upd K s (tx_step K 0 pkt0 ctm blm (tx_conf_of s)))"
proof (cases "start_signal (shared_cfg s) = 0")
  case True
  then show ?thesis using echo_viewD [OF v] pc
    by (intro echo_viewI [of _ _ a h a0 d d0]) (simp_all add: tx_simps)
next
  case False
  then show ?thesis using echo_viewD [OF v] pc
    by (intro echo_viewI [of _ _ a h a0 d d0]) (auto simp: tx_simps load_config_def)
qed

lemma inv_rx_frame:
  assumes "inv_rx K a h s" "ctm_ptr_ok K" "rx_at t = rx_at s" "accepted t = accepted s"
    "\<forall>p. rx_pkt (rx_at s) = Some p \<longrightarrow>
       (\<forall>x\<in>pkt_range K (nbi_meta p) 64. mem40 (dev t) x = mem40 (dev s) x)"
  shows "inv_rx K a h t"
proof -
  have "rx_frame K (nbi_meta p) 64 (mem40 (dev t)) = rx_frame K (nbi_meta p) 64 (mem40 (dev s))"
    if "rx_pkt (rx_at s) = Some p" for p
    using assms(5) that by (intro pkt_bytes_cong [OF assms(2)]) auto
  then show ?thesis using assms(1,3,4) by (simp add: inv_rx_def echoed_def)
qed

lemma tx_alloc_preserves:
  assumes env: "env_ok K H" and v: "echo_view K H a h a0 d d0 s" and pc: "tx_at s = TxIdle"
    and ok: "\<forall>p x e. allocate_packet K ctm blm pkt0 (dev s) = Some (p, x, e) \<longrightarrow> alloc_ok K s (nbi_meta p)"
  shows "echo_inv K H (tx_upd K s (tx_step K 0 pkt0 ctm blm (tx_conf_of s)))"
proof (cases "allocate_packet K ctm blm pkt0 (dev s)")
  case None
  then show ?thesis using echo_viewD [OF v] pc
    by (intro echo_viewI [of _ _ a h a0 d d0]) (simp_all add: tx_simps)
next
  case (Some r)
  obtain p x e where r: "r = (p, x, e)" by (cases r)
  note al = Some [unfolded r]
  note i = echo_viewD [OF v]
  have K: "sdk_ok K" "\<forall>m. length (meta_bytes K m) \<le> 64" "ctm_ptr_ok K"
    using env by (simp_all add: env_ok_def sdk_ok_def)
  have ao: "alloc_ok K s (nbi_meta p)" using ok al by blast
  have st: "tx_step K 0 pkt0 ctm blm (tx_conf_of s) = (tx_local s, TxReserve p, shared_cfg s, e)"
    using pc al by simp
  let ?t = "tx_upd K s (tx_step K 0 pkt0 ctm blm (tx_conf_of s))"
  have rx: "inv_rx K a h ?t"
  proof (rule inv_rx_frame [OF i(3) K(3)])
    show "\<forall>q. rx_pkt (rx_at s) = Some q \<longrightarrow>
        (\<forall>y\<in>pkt_range K (nbi_meta q) 64. mem40 (dev ?t) y = mem40 (dev s) y)"
      using allocate_outside(2) [OF K(1,2) al, of _ 64] ao unfolding alloc_ok_def st by fastforce
  qed (simp_all add: st)
  have pci: "pci_mem e = pci_mem (dev s)" by (rule allocate_outside(1) [OF K(1,2) al])
  have bu: "inv_bufs K ?t" using ao by (simp add: inv_bufs_def alloc_ok_def st)
  show ?thesis
    by (rule echo_viewI [OF _ _ rx _ _ bu, of H a0 d d0])
      (use i pc pci al in \<open>simp_all add: tx_simps\<close>)
qed

lemma tx_reserve_preserves:
  assumes v: "echo_view K H a h a0 d d0 s" and pc: "tx_at s = TxReserve p"
  shows "echo_inv K H (tx_upd K s (tx_step K 0 pkt0 ctm blm (tx_conf_of s)))"
proof -
  have "tx_head (shared_cfg s) = pos d" "packet_size (tx_local s) = 64" "buffer_capacity (tx_local s) = 512"
    using echo_viewD(1,2) [OF v] pc by (simp_all add: inv_static_def inv_cursor_def)
  then have "tx_step K 0 pkt0 ctm blm (tx_conf_of s) =
      (tx_local s, TxPoll p (pos d) (pos (Suc d)), shared_cfg s, dev s)"
    using pc pos_Suc [of d] by (simp add: Let_def)
  then show ?thesis using echo_viewD [OF v] pc
    by (intro echo_viewI [of _ _ a h a0 d d0]) (simp_all add: tx_simps)
qed

lemma tx_poll_preserves:
  assumes v: "echo_view K H a h a0 d d0 s" and pc: "tx_at s = TxPoll p t u"
  shows "echo_inv K H (tx_upd K s (tx_step K 0 pkt0 ctm blm (tx_conf_of s)))"
proof (cases "t = tx_tail (shared_cfg s)")
  case True
  then show ?thesis using echo_viewD [OF v] pc
    by (intro echo_viewI [of _ _ a h a0 d d0]) (simp_all add: tx_simps)
next
  case False
  have b: "d \<le> h + published (host_at s)" "tx_tail (shared_cfg s) = pos (h + published (host_at s))"
    "t = pos d"
    using echo_viewD(2,4) [OF v] pc by (simp_all add: inv_cursor_def inv_tx_def)
  then have "d < h + published (host_at s)" using False by (cases "d = h + published (host_at s)") auto
  then show ?thesis using echo_viewD [OF v] pc False
    by (intro echo_viewI [of _ _ a h a0 d d0]) (simp_all add: tx_simps)
qed

lemma tx_dma_preserves:
  assumes env: "env_ok K H" and v: "echo_view K H a h a0 d d0 s" and pc: "tx_at s = TxDma p t u"
  shows "echo_inv K H (tx_upd K s (tx_step K 0 pkt0 ctm blm (tx_conf_of s)))"
proof -
  note i = echo_viewD [OF v]
  let ?t = "tx_upd K s (tx_step K 0 pkt0 ctm blm (tx_conf_of s))"
  let ?d = "dma_packet_recv K 0 p 64 (tx_iova H + ucast (pos d)) (dev s)"
  have K: "sdk_ok K" "dma_engine_ok K" "ctm_ptr_ok K" using env by (simp_all add: env_ok_def sdk_ok_def)
  have hc: "host_at s \<noteq> HConfig" using i(1) pc by (auto simp: inv_static_def)
  have b: "t = pos d" "u = pos (Suc d)" "d < h + published (host_at s)"
    using i(4) pc by (simp_all add: inv_tx_def)
  have cp: "published (host_at s) \<le> copied (host_at s)" by (simp add: progress_defs)
  have bufs: "pkt_bufs_ok K (nbi_meta p) (unat (64::u32))" using i(6) pc by (simp add: inv_bufs_def)
  have st: "tx_step K 0 pkt0 ctm blm (tx_conf_of s) =
      (tx_local s, TxCommit (tx_set_len (tx_local s) p) u, shared_cfg s, ?d)"
    using pc b hc i(1) by (simp add: inv_static_def)
  have lm: "packet_size (tx_local s) = 64" using i(1) pc by (simp add: inv_static_def)
  have m: "isl (nbi_meta (tx_set_len (tx_local s) p)) = isl (nbi_meta p)"
    "pnum (nbi_meta (tx_set_len (tx_local s) p)) = pnum (nbi_meta p)"
    "muptr (nbi_meta (tx_set_len (tx_local s) p)) = muptr (nbi_meta p)"
    by (simp_all add: tx_set_len_def)
  have l: "unat (pkt_len (nbi_meta (tx_set_len (tx_local s) p))) = 68"
    by (simp add: tx_set_len_def lm pkt_consts)
  have "tx_frame K (nbi_meta p) 64 (mem40 ?d) = slot_at (tx_iova H) d (pci_mem (dev s))"
    using dma_packet_recv_frame [OF K(2,3) _ bufs, of 0 "tx_iova H + ucast (pos d)" "dev s"]
    by (simp add: slot_at_def)
  also have "\<dots> = echoed s d" using i(5) b cp by (simp add: inv_slots_def)
  finally have fr: "tx_frame K (nbi_meta (tx_set_len (tx_local s) p)) 64 (mem40 ?d) = echoed s d"
    by (simp add: pkt_bytes_def m)
  have rg: "pkt_range K (nbi_meta (tx_set_len (tx_local s) p)) 64 = pkt_range K (nbi_meta p) 64"
    by (simp add: pkt_range_def m)
  have out: "mem40 ?d x = mem40 (dev s) x" if "x \<notin> pkt_range K (nbi_meta p) 64" for x
    using dma_recv_outside [OF K(1), of 64 x p 0 _ "dev s"] that by simp
  have rx: "inv_rx K a h ?t"
  proof (rule inv_rx_frame [OF i(3) K(3)])
    show "\<forall>q. rx_pkt (rx_at s) = Some q \<longrightarrow>
        (\<forall>y\<in>pkt_range K (nbi_meta q) 64. mem40 (dev ?t) y = mem40 (dev s) y)"
      using out i(6) pc unfolding st by (fastforce simp: inv_bufs_def)
  qed (simp_all add: st)
  have pci: "pci_mem ?d = pci_mem (dev s)" by (simp add: dma_packet_recv_writes [OF K(2)])
  have bu: "inv_bufs K ?t"
    using i(6) pc by (auto simp: inv_bufs_def st rg pkt_bufs_ok_def m)
  have tx: "inv_tx K h d ?t" using b fr l by (simp add: inv_tx_def st echoed_def)
  have sl: "inv_slots H a h d ?t" using i(5) pci by (simp add: inv_slots_def st echoed_def)
  show ?thesis
    by (rule echo_viewI [OF _ _ rx tx sl bu, of a0 d0])
      (use i pc in \<open>simp_all add: st tx_simps\<close>)
qed

lemma tx_commit_preserves:
  assumes v: "echo_view K H a h a0 d d0 s" and pc: "tx_at s = TxCommit p u"
  shows "echo_inv K H (tx_upd K s (tx_step K 0 pkt0 ctm blm (tx_conf_of s)))"
  by (rule echo_viewI [of _ _ a h a0 "Suc d" d0])
    (use echo_viewD [OF v] pc in \<open>simp_all add: tx_simps\<close>)

lemma tx_send_preserves:
  assumes v: "echo_view K H a h a0 d d0 s" and pc: "tx_at s = TxSend p"
  shows "echo_inv K H (tx_upd K s (tx_step K 0 pkt0 ctm blm (tx_conf_of s)))"
proof -
  have "0 < d" using echo_viewD(4) [OF v] pc by (simp add: inv_tx_def)
  then obtain e where d: "d = Suc e" by (cases d) auto
  show ?thesis
    by (rule echo_viewI [of _ _ a h a0 d d0])
      (use echo_viewD [OF v] pc d in \<open>simp_all add: tx_simps send_packet_def Let_def pkt_consts\<close>)
qed

lemma tx_preserves:
  assumes env: "env_ok K H" and inv: "echo_inv K H s"
    and ok: "tx_at s = TxIdle \<longrightarrow>
      (\<forall>p x e. allocate_packet K ctm blm pkt0 (dev s) = Some (p, x, e) \<longrightarrow> alloc_ok K s (nbi_meta p))"
  shows "echo_inv K H (tx_upd K s (tx_step K 0 pkt0 ctm blm (tx_conf_of s)))"
proof -
  obtain a h a0 d d0 where v: "echo_view K H a h a0 d d0 s" using inv by (auto simp: echo_inv_def)
  show ?thesis
  proof (cases "tx_at s")
    case TxExit
    then show ?thesis using echo_viewD [OF v]
      by (intro echo_viewI [of _ _ a h a0 d d0]) (simp_all add: tx_simps)
  next
    case TxBoot then show ?thesis by (rule tx_boot_preserves [OF v])
  next
    case TxIdle then show ?thesis using ok by (intro tx_alloc_preserves [OF env v]) auto
  next
    case TxReserve then show ?thesis by (rule tx_reserve_preserves [OF v])
  next
    case TxPoll then show ?thesis by (rule tx_poll_preserves [OF v])
  next
    case TxDma then show ?thesis by (rule tx_dma_preserves [OF env v])
  next
    case TxCommit then show ?thesis by (rule tx_commit_preserves [OF v])
  next
    case TxSend then show ?thesis by (rule tx_send_preserves [OF v])
  qed
qed

section \<open>Reachable states\<close>

lemma echo_init_inv: "echo_init s \<Longrightarrow> echo_inv K H s"
  by (rule echo_viewI [of _ _ 0 0 0 0 0])
    (simp_all add: echo_init_def tx_simps progress_defs rx_main_def tx_main_def)

lemma echo_step_inv:
  assumes "env_ok K H" "echo_step K H s t" "echo_inv K H s"
  shows "echo_inv K H t"
  using assms(2)
proof cases
  case (receive meta mm lm pc c d)
  then show ?thesis using receive_preserves [OF assms(1,3)] by simp
next
  case (rx meta lm pc c d)
  then show ?thesis using rx_preserves [OF assms(1,3), of meta] by simp
next
  case (tx ctm blm pkt0 lm pc c d)
  then show ?thesis using tx_preserves [OF assms(1,3), of ctm blm pkt0] by simp
next
  case (host pc rrx rtx c p)
  then show ?thesis using host_preserves [OF assms(1,3)] by simp
qed

lemma echo_reach_inv: "echo_reach K H s \<Longrightarrow> env_ok K H \<Longrightarrow> echo_inv K H s"
  by (induction rule: echo_reach.induct) (auto intro: echo_init_inv echo_step_inv)

end
