(* ===== verification/Multi_Context.thy ===== *)
theory Multi_Context
  imports Echo_Proof
begin

text \<open>
  The multi-context engines (firmware/multi_rx.c, multi_tx.c): up to eight contexts of one
  micro-engine run \<open>rx_process\<close> (\<open>tx_process\<close>) at the same time. A context reserves a slot by
  advancing a shadow cursor in local memory and publishes it when the public cursor has
  reached it. Contexts swap at accesses outside local memory, so the test of the ring and
  the update of the shadow cursor are one step, while the opposite cursor was sampled in an
  earlier one.
\<close>

section \<open>The receive side\<close>

datatype mrx_pc =
    MrxInit
  | MrxIdle
  | MrxRead pkt_t
  | MrxTest pkt_t u32
  | MrxDma pkt_t u32 u32
  | MrxOrder pkt_t u32 u32
  | MrxCommit pkt_t u32
  | MrxFree pkt_t

text \<open>What the contexts of the engine share in local memory.\<close>

record me_shared =
  sh_local :: me_local
  shadow :: u32
  init_flag :: bool

fun mrx_step :: "sdk \<Rightarrow> u32 \<Rightarrow> nbi_meta_t \<Rightarrow> me_shared \<times> mrx_pc \<times> device_meta_t \<times> me_state
    \<Rightarrow> me_shared \<times> mrx_pc \<times> device_meta_t \<times> me_state" where
  "mrx_step K cx meta (m, MrxInit, c, s) =
     (if cx = 0
      then if start_signal c \<noteq> 0
           then (m\<lparr>sh_local := load_config c, init_flag := True\<rparr>, MrxIdle, c, s)
           else (m, MrxInit, c, s)
      else if init_flag m then (m, MrxIdle, c, s) else (m, MrxInit, c, s))"
| "mrx_step K cx meta (m, MrxIdle, c, s) =
     (case rx_accept K (sh_local m) meta s of
        (None, s) \<Rightarrow> (m, MrxIdle, c, s)
      | (Some pkt, s) \<Rightarrow> (m, MrxRead pkt, c, s))"
| "mrx_step K cx meta (m, MrxRead pkt, c, s) = (m, MrxTest pkt (rx_head c), c, s)"
| "mrx_step K cx meta (m, MrxTest pkt head, c, s) =
     (let tail = shadow m;
          updated_tail = tail + packet_size (sh_local m);
          updated_tail = (if updated_tail \<ge> buffer_capacity (sh_local m) then 0 else updated_tail)
      in if updated_tail = head then (m, MrxRead pkt, c, s)
         else (m\<lparr>shadow := updated_tail\<rparr>, MrxDma pkt tail updated_tail, c, s))"
| "mrx_step K cx meta (m, MrxDma pkt tail updated_tail, c, s) =
     (m, MrxOrder pkt tail updated_tail, c,
      dma_packet_send K cx pkt (rx_buffer_iova c + ucast tail) s)"
| "mrx_step K cx meta (m, MrxOrder pkt tail updated_tail, c, s) =
     (if rx_tail c \<noteq> tail then (m, MrxOrder pkt tail updated_tail, c, s)
      else (m, MrxCommit pkt updated_tail, c, s))"
| "mrx_step K cx meta (m, MrxCommit pkt updated_tail, c, s) =
     (m, MrxFree pkt, c\<lparr>rx_tail := updated_tail\<rparr>, s)"
| "mrx_step K cx meta (m, MrxFree pkt, c, s) = (m, MrxIdle, c, drop_packet pkt s)"

section \<open>The transmit side\<close>

datatype mtx_pc =
    MtxInit
  | MtxIdle
  | MtxRead pkt_t
  | MtxTest pkt_t u32
  | MtxDma pkt_t u32 u32
  | MtxOrder pkt_t u32 u32
  | MtxCommit pkt_t u32
  | MtxSend pkt_t

fun mtx_step :: "sdk \<Rightarrow> u32 \<Rightarrow> pkt_t \<Rightarrow> u32 list \<Rightarrow> (int \<times> u32) list
    \<Rightarrow> me_shared \<times> mtx_pc \<times> device_meta_t \<times> me_state
    \<Rightarrow> me_shared \<times> mtx_pc \<times> device_meta_t \<times> me_state" where
  "mtx_step K cx pkt0 ctm blm (m, MtxInit, c, s) =
     (if cx = 0
      then if start_signal c \<noteq> 0
           then (m\<lparr>sh_local := load_config c, init_flag := True\<rparr>, MtxIdle, c, s)
           else (m, MtxInit, c, s)
      else if init_flag m then (m, MtxIdle, c, s) else (m, MtxInit, c, s))"
| "mtx_step K cx pkt0 ctm blm (m, MtxIdle, c, s) =
     (case allocate_packet K ctm blm pkt0 s of
        None \<Rightarrow> (m, MtxIdle, c, s)
      | Some (pkt, pkt_data, s) \<Rightarrow> (m, MtxRead pkt, c, s))"
| "mtx_step K cx pkt0 ctm blm (m, MtxRead pkt, c, s) = (m, MtxTest pkt (tx_tail c), c, s)"
| "mtx_step K cx pkt0 ctm blm (m, MtxTest pkt tail, c, s) =
     (let head = shadow m;
          updated_head = head + packet_size (sh_local m);
          updated_head = (if updated_head \<ge> buffer_capacity (sh_local m) then 0 else updated_head)
      in if head = tail then (m, MtxRead pkt, c, s)
         else (m\<lparr>shadow := updated_head\<rparr>, MtxDma pkt head updated_head, c, s))"
| "mtx_step K cx pkt0 ctm blm (m, MtxDma pkt head updated_head, c, s) =
     (m, MtxOrder (tx_set_len (sh_local m) pkt) head updated_head, c,
      dma_packet_recv K cx pkt (packet_size (sh_local m)) (tx_buffer_iova c + ucast head) s)"
| "mtx_step K cx pkt0 ctm blm (m, MtxOrder pkt head updated_head, c, s) =
     (if tx_head c \<noteq> head then (m, MtxOrder pkt head updated_head, c, s)
      else (m, MtxCommit pkt updated_head, c, s))"
| "mtx_step K cx pkt0 ctm blm (m, MtxCommit pkt updated_head, c, s) =
     (m, MtxSend pkt, c\<lparr>tx_head := updated_head\<rparr>, s)"
| "mtx_step K cx pkt0 ctm blm (m, MtxSend pkt, c, s) = (m, MtxIdle, c, send_packet K pkt s)"

section \<open>Contexts in parallel\<close>

text \<open>The receive engine with its contexts; any context may take the next step, packets
  come from the network and the host moves \<open>rx_head\<close>.\<close>

record mrx_state =
  mx_shared :: me_shared
  mx_cfg :: device_meta_t
  mx_dev :: me_state
  mx_pcs :: "nat \<Rightarrow> mrx_pc"

definition mrx_ctx_step :: "sdk \<Rightarrow> nat \<Rightarrow> nbi_meta_t \<Rightarrow> mrx_state \<Rightarrow> mrx_state" where
  "mrx_ctx_step K cx meta s =
     (let (m, pc, c, d) = mrx_step K (of_nat cx) meta (mx_shared s, mx_pcs s cx, mx_cfg s, mx_dev s)
      in s\<lparr>mx_shared := m, mx_cfg := c, mx_dev := d, mx_pcs := (mx_pcs s)(cx := pc)\<rparr>)"

inductive mrx_reach :: "sdk \<Rightarrow> mrx_state \<Rightarrow> bool" for K :: sdk where
  init: "(\<forall>i. mx_pcs s i = MrxInit) \<Longrightarrow> shadow (mx_shared s) = 0 \<Longrightarrow> rx_tail (mx_cfg s) = 0 \<Longrightarrow>
     \<not> init_flag (mx_shared s) \<Longrightarrow>
     buffer_size (mx_cfg s) = 512 \<Longrightarrow> cfg_packet_size (mx_cfg s) = 64 \<Longrightarrow> mrx_reach K s"
| ctx: "mrx_reach K s \<Longrightarrow> cx < 8 \<Longrightarrow> mrx_reach K (mrx_ctx_step K cx meta s)"
| env: "mrx_reach K s \<Longrightarrow>
     mrx_reach K (s\<lparr>mx_cfg := (mx_cfg s)\<lparr>rx_head := hd', start_signal := sg\<rparr>,
                    mx_dev := d\<rparr>)"

text \<open>The slot a context holds: reserved and not yet published.\<close>

fun mrx_slot :: "mrx_pc \<Rightarrow> (u32 \<times> u32) option" where
  "mrx_slot (MrxDma p t u) = Some (t, u)"
| "mrx_slot (MrxOrder p t u) = Some (t, u)"
| "mrx_slot _ = None"

section \<open>Slots are published in the order they were reserved\<close>

text \<open>
  Sequence numbers behind the cursors: \<open>c\<close> slots are published, \<open>r\<close> reserved, and \<open>own\<close>
  gives the number each context holds. Every number between \<open>c\<close> and \<open>r\<close> is held by exactly
  one context.
\<close>

definition mrx_holds :: "nat \<Rightarrow> mrx_pc \<Rightarrow> nat option \<Rightarrow> bool" where
  "mrx_holds c pc k \<longleftrightarrow>
     (case pc of
        MrxDma p t u \<Rightarrow> (\<exists>n. k = Some n \<and> t = pos n \<and> u = pos (Suc n))
      | MrxOrder p t u \<Rightarrow> (\<exists>n. k = Some n \<and> t = pos n \<and> u = pos (Suc n))
      | MrxCommit p u \<Rightarrow> k = Some c \<and> u = pos (Suc c)
      | _ \<Rightarrow> k = None)"

definition own_ok :: "nat \<Rightarrow> nat \<Rightarrow> (nat \<Rightarrow> nat option) \<Rightarrow> bool" where
  "own_ok c r own \<longleftrightarrow>
     (\<forall>i<8. \<forall>k. own i = Some k \<longrightarrow> c \<le> k \<and> k < r)
     \<and> (\<forall>i<8. \<forall>j<8. \<forall>k. own i = Some k \<longrightarrow> own j = Some k \<longrightarrow> i = j)
     \<and> (\<forall>k. c \<le> k \<longrightarrow> k < r \<longrightarrow> (\<exists>i<8. own i = Some k))"

definition mrx_view :: "nat \<Rightarrow> nat \<Rightarrow> (nat \<Rightarrow> nat option) \<Rightarrow> mrx_state \<Rightarrow> bool" where
  "mrx_view c r own s \<longleftrightarrow>
     c \<le> r \<and> rx_tail (mx_cfg s) = pos c \<and> shadow (mx_shared s) = pos r
     \<and> buffer_size (mx_cfg s) = 512 \<and> cfg_packet_size (mx_cfg s) = 64
     \<and> (init_flag (mx_shared s) \<longrightarrow>
          sh_local (mx_shared s) = \<lparr>buffer_capacity = 512, packet_size = 64\<rparr>)
     \<and> (\<forall>i<8. mx_pcs s i \<noteq> MrxInit \<longrightarrow> init_flag (mx_shared s))
     \<and> (\<forall>i<8. mrx_holds c (mx_pcs s i) (own i))
     \<and> own_ok c r own"

lemma own_okD:
  assumes "own_ok c r own"
  shows "i < 8 \<Longrightarrow> own i = Some k \<Longrightarrow> c \<le> k \<and> k < r"
    "i < 8 \<Longrightarrow> j < 8 \<Longrightarrow> own i = Some k \<Longrightarrow> own j = Some k \<Longrightarrow> i = j"
    "c \<le> k \<Longrightarrow> k < r \<Longrightarrow> \<exists>i<8. own i = Some k"
  using assms unfolding own_ok_def by blast+

text \<open>Eight contexts hold at most eight slots.\<close>

lemma own_window:
  assumes "own_ok c r own"
  shows "r \<le> c + 8"
proof -
  have "k \<in> (\<lambda>i. the (own i)) ` {..<8}" if k: "k \<in> {c..<r}" for k
  proof -
    obtain i where "i < 8" "own i = Some k" using own_okD(3) [OF assms, of k] k by auto
    then show ?thesis by (intro image_eqI [of _ _ i]) auto
  qed
  then have "card {c..<r} \<le> card {..<8::nat}"
    by (intro surj_card_le [of _ _ "\<lambda>i. the (own i)"]) auto
  then show ?thesis by simp
qed

lemma own_reserve:
  assumes o: "own_ok c r own" and cx: "cx < 8" "own cx = None" and cr: "c \<le> r"
  shows "own_ok c (Suc r) (own(cx := Some r))"
  unfolding own_ok_def
proof (intro conjI allI impI)
  fix i k assume "i < 8" "(own(cx := Some r)) i = Some k"
  then show "c \<le> k" "k < Suc r" using own_okD(1) [OF o, of i k] cr by (auto split: if_splits)
next
  fix i j k assume a: "i < 8" "j < 8" "(own(cx := Some r)) i = Some k" "(own(cx := Some r)) j = Some k"
  show "i = j"
    using a own_okD(2) [OF o, of i j k] own_okD(1) [OF o, of i k] own_okD(1) [OF o, of j k]
    by (auto split: if_splits)
next
  fix k assume k: "c \<le> k" "k < Suc r"
  show "\<exists>i<8. (own(cx := Some r)) i = Some k"
  proof (cases "k = r")
    case False
    then obtain i where "i < 8" "own i = Some k" using own_okD(3) [OF o, of k] k by auto
    then show ?thesis using cx(2) by (intro exI [of _ i]) auto
  qed (use cx in auto)
qed

lemma own_commit:
  assumes o: "own_ok c r own" and cx: "cx < 8" "own cx = Some c"
  shows "own_ok (Suc c) r (own(cx := None))"
  unfolding own_ok_def
proof (intro conjI allI impI)
  fix i k assume a: "i < 8" "(own(cx := None)) i = Some k"
  then have i: "i \<noteq> cx" "own i = Some k" by (auto split: if_splits)
  then have "k \<noteq> c" using own_okD(2) [OF o a(1) cx(1), of c] cx(2) by auto
  then show "Suc c \<le> k" "k < r" using own_okD(1) [OF o a(1) i(2)] by auto
next
  fix i j k assume a: "i < 8" "j < 8" "(own(cx := None)) i = Some k" "(own(cx := None)) j = Some k"
  then show "i = j" using own_okD(2) [OF o a(1,2), of k] by (auto split: if_splits)
next
  fix k assume k: "Suc c \<le> k" "k < r"
  then obtain i where i: "i < 8" "own i = Some k" using own_okD(3) [OF o, of k] by auto
  then have "i \<noteq> cx" using cx(2) k by auto
  then show "\<exists>i<8. (own(cx := None)) i = Some k" using i by (intro exI [of _ i]) simp
qed

lemma mrx_view_unchanged:
  assumes v: "mrx_view c r own s" and cx: "cx < 8"
    and t: "rx_tail (mx_cfg t) = rx_tail (mx_cfg s)" "buffer_size (mx_cfg t) = 512"
      "cfg_packet_size (mx_cfg t) = 64" "shadow (mx_shared t) = shadow (mx_shared s)"
      "init_flag (mx_shared s) \<longrightarrow> init_flag (mx_shared t)"
      "init_flag (mx_shared t) \<longrightarrow>
         sh_local (mx_shared t) = \<lparr>buffer_capacity = 512, packet_size = 64\<rparr>"
      "mx_pcs t = (mx_pcs s)(cx := pc)" "mrx_holds c pc (own cx)"
      "pc \<noteq> MrxInit \<longrightarrow> init_flag (mx_shared t)"
  shows "mrx_view c r own t"
  using v t cx unfolding mrx_view_def by simp

lemma mrx_holds_commit:
  assumes "mrx_holds c pc k" "k \<noteq> Some c"
  shows "mrx_holds (Suc c) pc k"
  using assms by (cases pc) (auto simp: mrx_holds_def)

lemma mrx_view_reserve:
  assumes v: "mrx_view c r own s" and cx: "cx < 8" "own cx = None" "mx_pcs s cx \<noteq> MrxInit"
    and t: "t = s\<lparr>mx_shared := (mx_shared s)\<lparr>shadow := pos (Suc r)\<rparr>,
                  mx_pcs := (mx_pcs s)(cx := MrxDma p (pos r) (pos (Suc r)))\<rparr>"
  shows "mrx_view c (Suc r) (own(cx := Some r)) t"
  using v cx own_reserve [of c r own cx] unfolding mrx_view_def t
  by (simp add: mrx_holds_def)

lemma mrx_view_commit:
  assumes v: "mrx_view c r own s" and cx: "cx < 8" "own cx = Some c" "mx_pcs s cx \<noteq> MrxInit"
    and t: "t = s\<lparr>mx_cfg := (mx_cfg s)\<lparr>rx_tail := pos (Suc c)\<rparr>,
                  mx_pcs := (mx_pcs s)(cx := MrxFree p)\<rparr>"
  shows "mrx_view (Suc c) r (own(cx := None)) t"
proof -
  have o: "own_ok c r own" using v unfolding mrx_view_def by blast
  have "own i \<noteq> Some c" if "i < 8" "i \<noteq> cx" for i
    using own_okD(2) [OF o that(1) cx(1), of c] cx(2) that(2) by blast
  then have "mrx_holds (Suc c) (mx_pcs t i) ((own(cx := None)) i)" if "i < 8" for i
    using v that mrx_holds_commit [of c "mx_pcs s i" "own i"]
    by (auto simp: mrx_view_def t mrx_holds_def [of _ "MrxFree p"])
  then show ?thesis
    using v own_commit [OF o cx(1,2)] own_okD(1) [OF o cx(1,2)] cx(3)
    unfolding mrx_view_def by (simp add: t)
qed

text \<open>The steps that neither reserve nor publish keep the view as it is.\<close>

lemma mrx_step_neutral:
  assumes "mrx_step K cx meta (m, pc, c, s) = (m', pc', c', s')"
    and "pc \<noteq> MrxInit" "\<And>p h. pc \<noteq> MrxTest p h" "\<And>p u. pc \<noteq> MrxCommit p u"
  shows "m' = m \<and> c' = c \<and> pc' \<noteq> MrxInit"
  using assms by (cases pc) (auto split: prod.splits option.splits if_splits)

lemma mrx_step_holds:
  assumes "mrx_step K cx meta (m, pc, c, s) = (m', pc', c', s')" "mrx_holds n pc k"
    and "\<And>p h. pc \<noteq> MrxTest p h" "\<And>p u. pc \<noteq> MrxCommit p u" "\<And>p t u. pc \<noteq> MrxOrder p t u"
  shows "mrx_holds n pc' k"
  using assms by (cases pc) (auto simp: mrx_holds_def split: prod.splits option.splits if_splits)

lemma mrx_ctx_step_view:
  assumes v: "mrx_view c r own s" and cx: "cx < 8"
  shows "\<exists>c r own. mrx_view c r own (mrx_ctx_step K cx meta s)"
proof -
  let ?pc = "mx_pcs s cx"
  obtain m' pc' c' d' where
    st: "mrx_step K (of_nat cx) meta (mx_shared s, ?pc, mx_cfg s, mx_dev s) = (m', pc', c', d')"
    by (metis surj_pair)
  define t where "t = s\<lparr>mx_shared := m', mx_cfg := c', mx_dev := d', mx_pcs := (mx_pcs s)(cx := pc')\<rparr>"
  have tt: "mrx_ctx_step K cx meta s = t" by (simp add: mrx_ctx_step_def st t_def)
  have o: "own_ok c r own" and h: "mrx_holds c ?pc (own cx)"
    and lm: "init_flag (mx_shared s) \<longrightarrow>
        sh_local (mx_shared s) = \<lparr>buffer_capacity = 512, packet_size = 64\<rparr>"
    and ini: "?pc \<noteq> MrxInit \<longrightarrow> init_flag (mx_shared s)"
    using v cx unfolding mrx_view_def by blast+
  have geom: "buffer_size (mx_cfg s) = 512" "cfg_packet_size (mx_cfg s) = 64"
    "rx_tail (mx_cfg s) = pos c" "shadow (mx_shared s) = pos r" "c \<le> r"
    using v unfolding mrx_view_def by blast+
  have same: "mrx_view c r own t" if "m' = mx_shared s" "c' = mx_cfg s" "pc' \<noteq> MrxInit"
    "?pc \<noteq> MrxInit" "mrx_holds c pc' (own cx)"
    using that v cx geom lm ini by (intro mrx_view_unchanged [OF v cx, where pc = pc']) (auto simp: t_def)
  show ?thesis unfolding tt
  proof (cases ?pc)
    case MrxInit
    have "mrx_view c r own t"
      using st MrxInit h lm geom
      by (intro mrx_view_unchanged [OF v cx, where pc = pc'])
        (auto simp: t_def mrx_holds_def load_config_def split: if_splits)
    then show "\<exists>c r own. mrx_view c r own t" by blast
  next
    case (MrxTest p hd')
    show "\<exists>c r own. mrx_view c r own t"
    proof (cases "pos (Suc r) = hd'")
      case True
      then have "m' = mx_shared s \<and> c' = mx_cfg s \<and> pc' = MrxRead p"
        using st MrxTest lm ini geom pos_Suc [of r] by (auto simp: Let_def)
      then show ?thesis using same MrxTest h by (auto simp: mrx_holds_def)
    next
      case False
      then have e: "m' = (mx_shared s)\<lparr>shadow := pos (Suc r)\<rparr> \<and> c' = mx_cfg s \<and>
          pc' = MrxDma p (pos r) (pos (Suc r)) \<and> d' = mx_dev s"
        using st MrxTest lm ini geom pos_Suc [of r] by (auto simp: Let_def)
      have "own cx = None" using h MrxTest by (simp add: mrx_holds_def)
      then have "mrx_view c (Suc r) (own(cx := Some r)) t"
        using e MrxTest by (intro mrx_view_reserve [OF v cx]) (auto simp: t_def)
      then show ?thesis by blast
    qed
  next
    case (MrxOrder p u w)
    then obtain n where n: "own cx = Some n" "u = pos n" "w = pos (Suc n)"
      using h by (auto simp: mrx_holds_def)
    have "c \<le> n" "n < c + 8" using own_okD(1) [OF o cx n(1)] own_window [OF o] by linarith+
    then have "u = pos c \<longrightarrow> n = c" using pos_eq [of c n] n by auto
    then have "m' = mx_shared s \<and> c' = mx_cfg s \<and> pc' \<noteq> MrxInit \<and> mrx_holds c pc' (own cx)"
      using st h n geom unfolding MrxOrder by (auto simp: mrx_holds_def split: if_splits)
    then show "\<exists>c r own. mrx_view c r own t" using same MrxOrder by auto
  next
    case (MrxCommit p u)
    then have "own cx = Some c" "u = pos (Suc c)" using h by (auto simp: mrx_holds_def)
    then have "mrx_view (Suc c) r (own(cx := None)) t"
      using st MrxCommit by (intro mrx_view_commit [OF v cx]) (auto simp: t_def)
    then show "\<exists>c r own. mrx_view c r own t" by blast
  qed (use mrx_step_neutral [OF st] mrx_step_holds [OF st h] same in auto)
qed

lemma mrx_reach_view:
  assumes "mrx_reach K s"
  shows "\<exists>c r own. mrx_view c r own s"
  using assms
proof induction
  case (init s)
  then have "mrx_view 0 0 (\<lambda>_. None) s" by (simp add: mrx_view_def own_ok_def mrx_holds_def)
  then show ?case by blast
next
  case (ctx s cx meta)
  then show ?case using mrx_ctx_step_view by blast
next
  case (env s d sg hd')
  then obtain c r own where "mrx_view c r own s" by blast
  then have "mrx_view c r own (s\<lparr>mx_cfg := (mx_cfg s)\<lparr>rx_head := hd', start_signal := sg\<rparr>, mx_dev := d\<rparr>)"
    by (simp add: mrx_view_def)
  then show ?case by blast
qed

lemma mrx_slots_distinct:
  assumes "mrx_reach K s" "i < 8" "j < 8" "i \<noteq> j"
    and "mrx_slot (mx_pcs s i) = Some (t, u)" "mrx_slot (mx_pcs s j) = Some (t', u')"
  shows "t \<noteq> t'"
proof -
  obtain c r own where v: "mrx_view c r own s" using mrx_reach_view [OF assms(1)] by blast
  then have o: "own_ok c r own" by (simp add: mrx_view_def)
  have slot: "\<exists>n. own x = Some n \<and> y = pos n" if "mrx_slot (mx_pcs s x) = Some (y, z)" "x < 8" for x y z
  proof -
    have "mrx_holds c (mx_pcs s x) (own x)" using v that(2) by (simp add: mrx_view_def)
    then show ?thesis using that(1) by (cases "mx_pcs s x") (auto simp: mrx_holds_def)
  qed
  obtain n n' where n: "own i = Some n" "t = pos n" "own j = Some n'" "t' = pos n'"
    using slot assms by metis
  have b: "c \<le> n" "n < c + 8" "c \<le> n'" "n' < c + 8"
    using own_okD(1) [OF o assms(2) n(1)] own_okD(1) [OF o assms(3) n(3)] own_window [OF o] by linarith+
  have "n \<noteq> n'" using own_okD(2) [OF o assms(2,3), of n] n assms(4) by auto
  then show ?thesis using n b pos_eq [of n n'] pos_eq [of n' n] by (cases "n \<le> n'") auto
qed

lemma mrx_commit_next:
  assumes "mrx_reach K s" "i < 8" "mx_pcs s i = MrxCommit p u"
  shows "u = ring_advance 64 512 (rx_tail (mx_cfg s))"
proof -
  obtain c r own where v: "mrx_view c r own s" using mrx_reach_view [OF assms(1)] by blast
  then have "mrx_holds c (mx_pcs s i) (own i)" "rx_tail (mx_cfg s) = pos c"
    using assms(2) by (simp_all add: mrx_view_def)
  then show ?thesis using assms(3) pos_Suc [of c] by (simp add: mrx_holds_def ring_advance_def Let_def)
qed

text \<open>
  The test of the ring uses a head that was sampled before the context was swapped out.
  When the ring is full for the current head, a context with an older sample still reserves
  a slot; the reserved tail then equals the head, which the host reads as an empty ring.
\<close>

lemma mrx_stale_head:
  assumes "mrx_view c r own s" "cx < 8" "mx_pcs s cx = MrxTest p (pos h0)"
    and "rx_head (mx_cfg s) = pos h" "Suc r = h + 8" "pos h0 \<noteq> pos h"
  shows "mx_pcs (mrx_ctx_step K cx meta s) cx = MrxDma p (pos r) (pos (Suc r))
    \<and> shadow (mx_shared (mrx_ctx_step K cx meta s)) = rx_head (mx_cfg (mrx_ctx_step K cx meta s))"
proof -
  have lm: "sh_local (mx_shared s) = \<lparr>buffer_capacity = 512, packet_size = 64\<rparr>"
    "shadow (mx_shared s) = pos r"
    using assms(1-3) by (auto simp: mrx_view_def)
  have "pos (Suc r) = pos h" using assms(5) by (simp add: ring_pos_def)
  then show ?thesis using assms(3,4,6) lm pos_Suc [of r]
    by (simp add: mrx_ctx_step_def Let_def)
qed

end
