(* ===== verification/Echo_Progress.thy ===== *)
theory Echo_Progress
  imports Echo_Proof
begin

text \<open>
  The system moves: a quiescent system that receives an acceptable packet can answer it and
  become quiescent again. Each of the three programs is run alone through one turn of its
  loop; the turns are composed.
\<close>

section \<open>Running one program\<close>

lemma reach_host: "echo_reach K H s \<Longrightarrow> echo_reach K H (host_upd s (host_step H (host_conf_of s)))"
  by (rule echo_reach.step, assumption)
    (auto intro: echo_step.host split: prod.split)

lemma host_runs:
  "echo_reach K H s \<Longrightarrow> echo_reach K H (host_upd s ((host_step H ^^ n) (host_conf_of s)))"
proof (induction n)
  case 0
  then show ?case by simp
next
  case (Suc n)
  obtain pc rrx rtx c p where r: "(host_step H ^^ n) (host_conf_of s) = (pc, rrx, rtx, c, p)"
    using prod_cases5 by blast
  obtain pc' rrx' rtx' c' p' where r': "host_step H (pc, rrx, rtx, c, p) = (pc', rrx', rtx', c', p')"
    using prod_cases5 by blast
  have "echo_reach K H (host_upd s (pc, rrx, rtx, c, p))" using Suc r by metis
  from reach_host [OF this] show ?case by (simp add: r r')
qed

lemma reach_rx:
  "echo_reach K H s \<Longrightarrow> rx_at s \<noteq> RxIdle \<Longrightarrow>
     echo_reach K H (rx_upd s (rx_step K 0 meta (rx_conf_of s)))"
  by (rule echo_reach.step, assumption)
    (auto intro: echo_step.rx split: prod.split)

lemma rx_runs:
  "echo_reach K H s \<Longrightarrow> (\<And>i. i < n \<Longrightarrow> fst (snd ((rx_step K 0 meta ^^ i) (rx_conf_of s))) \<noteq> RxIdle) \<Longrightarrow>
     echo_reach K H (rx_upd s ((rx_step K 0 meta ^^ n) (rx_conf_of s)))"
proof (induction n)
  case 0
  then show ?case by simp
next
  case (Suc n)
  obtain lm pc c d where r: "(rx_step K 0 meta ^^ n) (rx_conf_of s) = (lm, pc, c, d)"
    using prod_cases4 by blast
  obtain lm' pc' c' d' where r': "rx_step K 0 meta (lm, pc, c, d) = (lm', pc', c', d')"
    using prod_cases4 by blast
  have "echo_reach K H (rx_upd s (lm, pc, c, d))" using Suc r by (metis less_SucI)
  moreover have "pc \<noteq> RxIdle" using Suc.prems(2) [of n] r by simp
  ultimately show ?case using reach_rx [of K H "rx_upd s (lm, pc, c, d)" meta] by (simp add: r r')
qed

lemma reach_tx:
  assumes "echo_reach K H s" "tx_at s = TxIdle \<longrightarrow>
      (\<forall>p x e. allocate_packet K ctm blm pkt0 (dev s) = Some (p, x, e) \<longrightarrow> alloc_ok K s (nbi_meta p))"
  shows "echo_reach K H (tx_upd K s (tx_step K 0 pkt0 ctm blm (tx_conf_of s)))"
  by (rule echo_reach.step [OF assms(1)])
    (use assms(2) in \<open>auto intro: echo_step.tx split: prod.split\<close>)

section \<open>One turn of each program\<close>

lemma rx_turn:
  assumes "echo_reach K H s" "rx_at s = RxReserve q"
    and "ring_advance (packet_size (rx_local s)) (buffer_capacity (rx_local s)) (rx_tail (shared_cfg s))
       \<noteq> rx_head (shared_cfg s)" (is "?u \<noteq> _")
  shows "\<exists>d. echo_reach K H (s\<lparr>rx_at := RxIdle, shared_cfg := (shared_cfg s)\<lparr>rx_tail := ?u\<rparr>, dev := d\<rparr>)"
proof -
  have "fst (snd ((rx_step K 0 m ^^ i) (rx_conf_of s))) \<noteq> RxIdle" if "i < 5" for i m
  proof -
    have "i \<in> {0, 1, 2, 3, 4}" using that by auto
    then show ?thesis using assms(2,3)
      by (auto simp: eval_nat_numeral ring_advance_def Let_def)
  qed
  from rx_runs [OF assms(1) this, of 5 undefined]
  show ?thesis using assms(2,3) by (auto simp: eval_nat_numeral ring_advance_def Let_def)
qed

lemma host_turn:
  assumes "echo_reach K H s" "host_at s = HReadRx" "rb_head (ring_rx s) \<noteq> rx_tail (shared_cfg s)"
    and "ringbuffer_full ((ring_tx s)\<lparr>rb_head := tx_head (shared_cfg s)\<rparr>) = Inr False"
  shows "\<exists>rrx rtx p. echo_reach K H (s\<lparr>host_at := HReadRx, ring_rx := rrx, ring_tx := rtx,
     shared_cfg := (shared_cfg s)
       \<lparr>tx_tail := ring_advance (entry_size (ring_tx s)) (capacity (ring_tx s)) (rb_tail (ring_tx s)),
        rx_head := ring_advance (entry_size (ring_rx s)) (capacity (ring_rx s)) (rb_head (ring_rx s))\<rparr>,
     dev := (dev s)\<lparr>pci_mem := p\<rparr>\<rparr>)"
proof -
  let ?rrx = "(ring_rx s)\<lparr>rb_tail := rx_tail (shared_cfg s)\<rparr>"
  let ?rtx = "(ring_tx s)\<lparr>rb_head := tx_head (shared_cfg s)\<rparr>"
  let ?h = "ring_advance (entry_size (ring_rx s)) (capacity (ring_rx s)) (rb_head (ring_rx s))"
  let ?t = "ring_advance (entry_size (ring_tx s)) (capacity (ring_tx s)) (rb_tail (ring_tx s))"
  have "(host_step H ^^ 8) (host_conf_of s) = (HReadRx, ?rrx\<lparr>rb_head := ?h\<rparr>, ?rtx\<lparr>rb_tail := ?t\<rparr>,
      (shared_cfg s)\<lparr>tx_tail := ?t, rx_head := ?h\<rparr>,
      host_memcpy (host_map H) (ringbuffer_back ?rtx) (ringbuffer_front ?rrx)
        (unat UDP_PACKET_SIZE) (pci_mem (dev s)))"
    using assms(2-4)
    by (simp add: eval_nat_numeral ringbuffer_empty_def ringbuffer_pop_def ringbuffer_push_def
        ring_advance_def Let_def)
  then show ?thesis using host_runs [OF assms(1), of 8] by auto
qed

text \<open>The transmit engine allocates a packet, fetches its data and sends it.\<close>

lemma tx_to_dma:
  assumes r: "echo_reach K H s" and idle: "tx_at s = TxIdle"
    and al: "allocate_packet K ctm blm pkt0 (dev s) = Some (q, x, e)" "alloc_ok K s (nbi_meta q)"
    and ne: "tx_head (shared_cfg s) \<noteq> tx_tail (shared_cfg s)"
  shows "echo_reach K H (s\<lparr>tx_at := TxDma q (tx_head (shared_cfg s)) (ring_advance (packet_size (tx_local s))
     (buffer_capacity (tx_local s)) (tx_head (shared_cfg s))), dev := e\<rparr>)"
proof -
  define u where "u = ring_advance (packet_size (tx_local s)) (buffer_capacity (tx_local s)) (tx_head (shared_cfg s))"
  define s1 where "s1 = s\<lparr>tx_at := TxReserve q, dev := e\<rparr>"
  define s2 where "s2 = s\<lparr>tx_at := TxPoll q (tx_head (shared_cfg s)) u, dev := e\<rparr>"
  note step = reach_tx [of _ _ _ ctm blm pkt0]
  have "echo_reach K H s1" using step [OF r] idle al by (simp add: s1_def sent_frame_def)
  from step [OF this] have "echo_reach K H s2"
    by (simp add: s1_def s2_def sent_frame_def u_def ring_advance_def Let_def split del: if_split)
  from step [OF this] show ?thesis
    unfolding u_def [symmetric] using ne by (simp add: s2_def sent_frame_def)
qed

lemma tx_turn:
  assumes r: "echo_reach K H s" and idle: "tx_at s = TxIdle"
    and al: "allocate_packet K ctm blm pkt0 (dev s) = Some (q, x, e)" "alloc_ok K s (nbi_meta q)"
    and ne: "tx_head (shared_cfg s) \<noteq> tx_tail (shared_cfg s)"
  shows "\<exists>d f. echo_reach K H (s\<lparr>tx_at := TxIdle,
     shared_cfg := (shared_cfg s)\<lparr>tx_head := ring_advance (packet_size (tx_local s))
        (buffer_capacity (tx_local s)) (tx_head (shared_cfg s))\<rparr>,
     dev := d, wire_out := wire_out s @ [f]\<rparr>)"
proof -
  define u where "u = ring_advance (packet_size (tx_local s)) (buffer_capacity (tx_local s)) (tx_head (shared_cfg s))"
  define q' where "q' = tx_set_len (tx_local s) q"
  define e' where "e' = dma_packet_recv K 0 q (packet_size (tx_local s))
    (tx_buffer_iova (shared_cfg s) + ucast (tx_head (shared_cfg s))) e"
  define s4 where "s4 = s\<lparr>tx_at := TxCommit q' u, dev := e'\<rparr>"
  define s5 where "s5 = s\<lparr>tx_at := TxSend q', shared_cfg := (shared_cfg s)\<lparr>tx_head := u\<rparr>, dev := e'\<rparr>"
  note step = reach_tx [of _ _ _ ctm blm pkt0]
  from step [OF tx_to_dma [OF assms]] have "echo_reach K H s4"
    by (simp add: s4_def q'_def e'_def u_def sent_frame_def)
  from step [OF this] have "echo_reach K H s5"
    by (simp add: s4_def s5_def sent_frame_def)
  from step [OF this] show ?thesis
    unfolding u_def [symmetric]
    by (auto simp: s5_def sent_frame_def)
qed

section \<open>A packet is answered\<close>

definition quiescent :: "echo_state \<Rightarrow> bool" where
  "quiescent s \<longleftrightarrow> rx_at s = RxIdle \<and> tx_at s = TxIdle \<and> host_at s = HReadRx
     \<and> rx_head (shared_cfg s) = rx_tail (shared_cfg s)
     \<and> tx_head (shared_cfg s) = tx_tail (shared_cfg s)"

lemma quiescent_view:
  assumes "env_ok K H" "echo_reach K H s" "quiescent s"
  obtains n where "inv_static H s" "length (accepted s) = n"
    "rx_tail (shared_cfg s) = pos n" "rx_head (shared_cfg s) = pos n"
    "tx_tail (shared_cfg s) = pos n" "tx_head (shared_cfg s) = pos n"
    "rb_head (ring_rx s) = pos n" "rb_tail (ring_tx s) = pos n"
    "wire_out s = map echo_frame (accepted s)"
proof -
  obtain a h a0 d d0 where v: "echo_view K H a h a0 d d0 s"
    using echo_reach_inv [OF assms(2,1)] by (auto simp: echo_inv_def)
  note q = assms(3) [unfolded quiescent_def]
  have b: "pos h = pos a" "pos d = pos h" "h \<le> a" "a < h + 8" "d \<le> h" "h < d + 8"
    "length (accepted s) = a"
    using echo_viewD(2) [OF v] q by (auto simp: inv_cursor_def progress_defs)
  then have e: "h = a" "d = a" using pos_eq [of h a] pos_eq [of d h] by simp_all
  have "wire_out s = map (echoed s) [0..<a]"
    using echo_viewD(7) [OF v] q e by (simp add: inv_wire_def)
  then have "wire_out s = map echo_frame (accepted s)"
    using b(7) by (simp add: echoed_def list_eq_iff_nth_eq)
  then show ?thesis using echo_viewD(1,2) [OF v] q e b(7)
    by (intro that [of a]) (simp_all add: inv_cursor_def progress_defs)
qed

text \<open>A buffer pair the allocators can return for the transmit engine.\<close>

definition free_buffer :: "sdk \<Rightarrow> u32 \<Rightarrow> u32 \<Rightarrow> bool" where
  "free_buffer K num buf \<longleftrightarrow>
     num \<noteq> -1 \<and> disj_range (pkt_ctm_ptr40 K (ISLAND K) (ucast num) 0) 256 (mu_addr buf) 320"

lemma allocate_free_buffer:
  assumes "free_buffer K num buf"
  shows "\<exists>q x e. allocate_packet K [num] [(0, buf)] pkt0 d = Some (q, x, e) \<and> pkt_bufs_ok K (nbi_meta q) 64"
  using assms by (auto simp: allocate_packet_def Let_def free_buffer_def pkt_bufs_ok_def)

text \<open>The three stages of the way of a packet: it is received, it is in the receive ring, it is in
  the transmit ring.\<close>

lemma stage_received:
  assumes env: "env_ok K H" and r: "echo_reach K H s" and q: "quiescent s"
    and arr: "arrival_ok K s meta mm"
    and acc: "accept_frame 64 (rx_frame K meta (unat (pkt_len meta) - 8) mm)"
  shows "\<exists>p e. echo_reach K H (s\<lparr>rx_at := RxReserve p, dev := e,
    accepted := accepted s @ [rx_frame K meta 64 mm]\<rparr>)"
proof -
  obtain n where st: "inv_static H s" using quiescent_view [OF env r q] by metis
  note qd = q [unfolded quiescent_def]
  have h: "packet_size (rx_local s) = 64" "mem40 ((dev s)\<lparr>mem40 := mm\<rparr>) = mm"
    "pkt_bufs_ok K meta 64" "8 \<le> unat (pkt_len meta)"
    using st qd arr by (simp_all add: arrival_ok_def inv_static_def)
  obtain p e where al: "rx_accept K (rx_local s) meta ((dev s)\<lparr>mem40 := mm\<rparr>) = (Some p, e)"
    by (rule rx_accept_cases [OF env h]) (use acc that in blast)+
  have "echo_step K H s (s\<lparr>rx_at := RxReserve p, dev := e,
      accepted := accepted s @ [rx_frame K meta 64 mm]\<rparr>)"
    using echo_step.receive [of s K meta mm "rx_local s" "RxReserve p" "shared_cfg s" e H] qd arr al
    by simp
  with r show ?thesis using echo_reach.step by blast
qed

lemma stage_in_rx_ring:
  assumes env: "env_ok K H" and r: "echo_reach K H s" and q: "quiescent s"
    and arr: "arrival_ok K s meta mm"
    and acc: "accept_frame 64 (rx_frame K meta (unat (pkt_len meta) - 8) mm)"
    and n: "rx_tail (shared_cfg s) = pos n"
  shows "\<exists>d. echo_reach K H (s\<lparr>accepted := accepted s @ [rx_frame K meta 64 mm], rx_at := RxIdle,
    shared_cfg := (shared_cfg s)\<lparr>rx_tail := pos (Suc n)\<rparr>, dev := d\<rparr>)"
proof -
  have st: "inv_static H s" using quiescent_view [OF env r q] by metis
  note qd = q [unfolded quiescent_def]
  obtain p e where r1: "echo_reach K H (s\<lparr>rx_at := RxReserve p, dev := e,
      accepted := accepted s @ [rx_frame K meta 64 mm]\<rparr>)" (is "echo_reach K H ?s1")
    using stage_received [OF env r q arr acc] by blast
  have u: "ring_advance (packet_size (rx_local s)) (buffer_capacity (rx_local s)) (pos n) = pos (Suc n)"
    using st qd by (simp add: inv_static_def ring_advance_def Let_def pos_Suc)
  have ne: "pos (Suc n) \<noteq> pos n" using pos_eq [of n "Suc n"] by auto
  show ?thesis using rx_turn [OF r1, of p] ne n u qd by auto
qed

lemma stage_in_tx_ring:
  assumes env: "env_ok K H" and r: "echo_reach K H s" and q: "quiescent s"
    and arr: "arrival_ok K s meta mm"
    and acc: "accept_frame 64 (rx_frame K meta (unat (pkt_len meta) - 8) mm)"
    and n: "rx_tail (shared_cfg s) = pos n"
  shows "\<exists>t. echo_reach K H t \<and> rx_at t = RxIdle \<and> tx_at t = TxIdle \<and> host_at t = HReadRx
    \<and> tx_local t = tx_local s \<and> wire_out t = wire_out s
    \<and> accepted t = accepted s @ [rx_frame K meta 64 mm]
    \<and> shared_cfg t = (shared_cfg s)\<lparr>rx_tail := pos (Suc n), tx_tail := pos (Suc n), rx_head := pos (Suc n)\<rparr>"
proof -
  obtain n' where st: "inv_static H s" and n': "rx_tail (shared_cfg s) = pos n'" "tx_head (shared_cfg s) = pos n'"
    "rb_head (ring_rx s) = pos n'" "rb_tail (ring_tx s) = pos n'"
    using quiescent_view [OF env r q] by metis
  note qd = q [unfolded quiescent_def]
  have lm: "entry_size (ring_rx s) = 64" "capacity (ring_rx s) = 512"
    "entry_size (ring_tx s) = 64" "capacity (ring_tx s) = 512"
    using st qd by (auto simp: inv_static_def)
  obtain d where r1: "echo_reach K H (s\<lparr>accepted := accepted s @ [rx_frame K meta 64 mm],
    rx_at := RxIdle, shared_cfg := (shared_cfg s)\<lparr>rx_tail := pos (Suc n)\<rparr>, dev := d\<rparr>)"
    (is "echo_reach K H ?s1")
    using stage_in_rx_ring [OF assms] by blast
  have pn: "pos n' = pos n" using n n' by simp
  have "rb_view 64 8 n n ((ring_tx s)\<lparr>rb_head := pos n\<rparr>)"
    using n' pn lm geo by (simp add: rb_view_def)
  from rb_view_full [OF this] have nf: "ringbuffer_full ((ring_tx s)\<lparr>rb_head := pos n\<rparr>) = Inr False" by simp
  have adv: "ring_advance 64 512 (pos n) = pos (Suc n)" by (simp add: ring_advance_def Let_def pos_Suc)
  have ne: "pos n \<noteq> pos (Suc n)" using pos_eq [of n "Suc n"] by auto
  obtain rrx rtx p where "echo_reach K H (?s1\<lparr>host_at := HReadRx, ring_rx := rrx, ring_tx := rtx,
     shared_cfg := (shared_cfg ?s1)\<lparr>tx_tail := pos (Suc n), rx_head := pos (Suc n)\<rparr>,
     dev := (dev ?s1)\<lparr>pci_mem := p\<rparr>\<rparr>)" (is "echo_reach K H ?t")
    using host_turn [OF r1] n' pn lm adv ne nf qd by auto
  then show ?thesis using qd by (intro exI [of _ ?t]) simp
qed

lemma packet_answered:
  assumes env: "env_ok K H" and r: "echo_reach K H s" and q: "quiescent s"
    and arr: "arrival_ok K s meta mm" and buf: "free_buffer K num buf"
    and acc: "accept_frame 64 (rx_frame K meta (unat (pkt_len meta) - 8) mm)"
  shows "\<exists>t. echo_reach K H t \<and> quiescent t \<and> accepted t = accepted s @ [rx_frame K meta 64 mm]
    \<and> wire_out t = map echo_frame (accepted t)"
proof -
  obtain n where st: "inv_static H s" and n: "rx_tail (shared_cfg s) = pos n" "tx_head (shared_cfg s) = pos n"
    using quiescent_view [OF env r q] by metis
  note qd = q [unfolded quiescent_def]
  have u: "ring_advance (packet_size (tx_local s)) (buffer_capacity (tx_local s)) (pos n) = pos (Suc n)"
    using st qd by (simp add: inv_static_def ring_advance_def Let_def pos_Suc)
  have ne: "pos n \<noteq> pos (Suc n)" using pos_eq [of n "Suc n"] by auto
  obtain t where t: "echo_reach K H t" "rx_at t = RxIdle" "tx_at t = TxIdle" "host_at t = HReadRx"
    "tx_local t = tx_local s" "accepted t = accepted s @ [rx_frame K meta 64 mm]"
    "shared_cfg t = (shared_cfg s)\<lparr>rx_tail := pos (Suc n), tx_tail := pos (Suc n), rx_head := pos (Suc n)\<rparr>"
    using stage_in_tx_ring [OF env r q arr acc n(1)] by blast
  obtain q' x e' where al: "allocate_packet K [num] [(0, buf)] undefined (dev t) = Some (q', x, e')"
    "pkt_bufs_ok K (nbi_meta q') 64" using allocate_free_buffer [OF buf] by blast
  then have "alloc_ok K t (nbi_meta q')" using t by (simp add: alloc_ok_def)
  from tx_turn [OF t(1,3) al(1) this] obtain d4 f4 where
    r4: "echo_reach K H (t\<lparr>tx_at := TxIdle, shared_cfg := (shared_cfg t)\<lparr>tx_head := pos (Suc n)\<rparr>,
       dev := d4, wire_out := wire_out t @ [f4]\<rparr>)" (is "echo_reach K H ?s4")
    using n u ne t by auto
  have q4: "quiescent ?s4" using t by (simp add: quiescent_def)
  have "wire_out ?s4 = map echo_frame (accepted ?s4)"
    using quiescent_view [OF env r4 q4] by metis
  then show ?thesis using r4 q4 t by (intro exI [of _ ?s4]) simp
qed

end
