(* ===== verification/Sdk_Instance.thy ===== *)
theory Sdk_Instance
  imports Multi_Context Echo_Progress
begin

text \<open>
  A concrete SDK and host environment that satisfy what the programs rely on: one CTM
  buffer above 2^39, away from the MU buffers below 2^32, headers in the standard layout, a DMA engine that
  copies bytes. The witnesses of the properties are stated on them.
\<close>

definition ref_sdk :: sdk where
  "ref_sdk = \<lparr>pkt_ctm_ptr40 = \<lambda>i p x. 0x8000000000 + ucast x, 
     hdr_bytes = rfc_hdr_bytes, bytes_hdr = rfc_bytes_hdr, meta_bytes = \<lambda>m. replicate 24 0,
     dma_run = \<lambda>c q (m, p). (case q of
         NFP_PCIE_DMA_TOPCI_HI \<Rightarrow>
           (m, mem_wr p (cmd_pcie_addr c) (mem_rd m (cmd_cpp_addr c) (Suc (unat (cmd_length c)))))
       | NFP_PCIE_DMA_FROMPCI_HI \<Rightarrow>
           (mem_wr m (cmd_cpp_addr c) (mem_rd p (cmd_pcie_addr c) (Suc (unat (cmd_length c)))), p)),
     ISLAND = 32, MEID = 0, ctm_signo = 1, buf_signo = 3\<rparr>"

lemma ref_sdk_ok: "sdk_ok ref_sdk"
  by (simp add: sdk_ok_def ctm_ptr_ok_def hdr_layout_ok_def dma_engine_ok_def ref_sdk_def)

definition ref_host :: host_env where
  "ref_host = \<lparr>rx_addr = 0x10000, rx_iova = 0x90000, tx_addr = 0x20000, tx_iova = 0xA0000,
     host_map = (\<lambda>v. v + 0x80000)\<rparr>"

lemma ref_env_ok: "env_ok ref_sdk ref_host"
proof -
  have c: "contig (host_map ref_host) (rx_addr ref_host) (rx_iova ref_host) 512"
    "contig (host_map ref_host) (tx_addr ref_host) (tx_iova ref_host) 512"
    by (simp_all add: contig_def ref_host_def add.commute add.left_commute)
  have "disj_range (0 + of_nat 0x90000) 512 (0 + of_nat 0xA0000) 512"
    by (rule disj_range_offsets [where L = "2 ^ 64"]) simp_all
  then have "disj_range (rx_iova ref_host) 512 (tx_iova ref_host) 512"
    by (simp add: ref_host_def)
  then show ?thesis using c ref_sdk_ok by (simp add: env_ok_def ref_sdk_def)
qed

definition ref_meta :: nbi_meta_t where
  "ref_meta = \<lparr>isl = 32, pnum = 5, pkt_len = 72, bls = 0, muptr = 7, split_flag = 1, seqr = 0, seq = 0\<rparr>"

lemma ref_bufs_apart:
  assumes "unat x < 2 ^ 21" "n < 2 ^ 32"
  shows "disj_range 0x8000000000 256 (mu_addr x) (256 + n)"
proof -
  have "disj_range (0 + of_nat 0x8000000000) 256 (0 + of_nat (unat (mu_addr x))) (256 + n)"
    by (rule disj_range_offsets [where L = "2 ^ 64"]) (use assms in \<open>simp_all add: unat_mu_addr\<close>)
  then show ?thesis by simp
qed

lemma ref_bufs_ok: "unat (muptr m) < 2 ^ 21 \<Longrightarrow> n < 2 ^ 32 \<Longrightarrow> pkt_bufs_ok ref_sdk m n"
  using ref_bufs_apart [of "muptr m" n] by (simp add: pkt_bufs_ok_def ref_sdk_def)

definition ref_cfg :: device_meta_t where
  "ref_cfg = \<lparr>rx_buffer_iova = 0, tx_buffer_iova = 0, buffer_size = 0, cfg_packet_size = 0,
     start_signal = 0, rx_head = 0, rx_tail = 0, tx_head = 0, tx_tail = 0\<rparr>"

definition ref_dev :: me_state where
  "ref_dev = \<lparr>mem40 = (\<lambda>_. 0), pci_mem = (\<lambda>_. 0),
     dma_cfg = \<lparr>target_64_even = 0, cpp_target_even = 0, target_64_odd = 0, cpp_target_odd = 0\<rparr>,
     events = []\<rparr>"

definition ref_ring :: ringbuffer_t where
  "ref_ring = \<lparr>base_addr = 0, entry_size = 0, capacity = 0, rb_head = 0, rb_tail = 0\<rparr>"

definition ref_start :: echo_state where
  "ref_start = \<lparr>shared_cfg = ref_cfg, dev = ref_dev,
     rx_local = \<lparr>buffer_capacity = 0, packet_size = 0\<rparr>, rx_at = RxBoot,
     tx_local = \<lparr>buffer_capacity = 0, packet_size = 0\<rparr>, tx_at = TxBoot,
     host_at = HConfig, ring_rx = ref_ring, ring_tx = ref_ring, accepted = [], wire_out = []\<rparr>"

lemmas ref_defs = ref_start_def ref_cfg_def ref_dev_def ref_ring_def

lemma ref_start_init: "echo_init ref_start"
  by (simp add: echo_init_def ref_defs rx_main_def tx_main_def)

lemma ref_start_reach: "echo_reach ref_sdk ref_host ref_start"
  by (rule echo_reach.init [OF ref_start_init])

text \<open>After configuration, start and boot the system is quiescent.\<close>

lemma ref_quiescent: "\<exists>s. echo_reach ref_sdk ref_host s \<and> quiescent s \<and> accepted s = []"
proof -
  define s1 where "s1 = host_upd ref_start ((host_step ref_host ^^ 2) (host_conf_of ref_start))"
  have r1: "echo_reach ref_sdk ref_host s1"
    unfolding s1_def by (rule host_runs [OF ref_start_reach])
  define s2 where "s2 = rx_upd s1 (rx_step ref_sdk 0 ref_meta (rx_conf_of s1))"
  have f1: "rx_at s1 = RxBoot" "tx_at s1 = TxBoot" "host_at s1 = HReadRx" "start_signal (shared_cfg s1) = 1"
    "rx_head (shared_cfg s1) = 0" "rx_tail (shared_cfg s1) = 0" "tx_head (shared_cfg s1) = 0"
    "tx_tail (shared_cfg s1) = 0" "accepted s1 = []"
    by (simp_all add: s1_def ref_defs numeral_2_eq_2 setup_rings_def configure_fields_def)
  have r2: "echo_reach ref_sdk ref_host s2"
    unfolding s2_def by (rule reach_rx [OF r1]) (simp add: f1)
  have f2: "rx_at s2 = RxIdle" "tx_at s2 = TxBoot" "host_at s2 = HReadRx" "shared_cfg s2 = shared_cfg s1"
    "accepted s2 = []" by (simp_all add: s2_def f1)
  have "echo_reach ref_sdk ref_host (tx_upd ref_sdk s2 (tx_step ref_sdk 0 pkt0 [] [] (tx_conf_of s2)))" for pkt0
    by (rule reach_tx [OF r2]) (simp add: f2)
  moreover have "quiescent (tx_upd ref_sdk s2 (tx_step ref_sdk 0 pkt0 [] [] (tx_conf_of s2)))
    \<and> accepted (tx_upd ref_sdk s2 (tx_step ref_sdk 0 pkt0 [] [] (tx_conf_of s2))) = []" for pkt0
    by (simp add: quiescent_def f2 f1)
  ultimately show ?thesis by blast
qed

text \<open>A UDP frame of 64 bytes in the memory of the arriving packet.\<close>

definition ref_frame :: "u8 list" where
  "ref_frame = [1,2,3,4,5,6, 11,12,13,14,15,16, 0x08,0x00, 0x45,0,0,50, 0,0,0,0, 64,17, 0,0,
     10,0,0,1, 10,0,0,2] @ replicate 30 7"

definition ref_mem :: mem where
  "ref_mem = mem_wr (\<lambda>_. 0) (0x8000000000 + 72) ref_frame"

lemma length_ref_frame: "length ref_frame = 64"
  by (simp add: ref_frame_def)

lemma ref_rx_frame: "rx_frame ref_sdk m 64 ref_mem = ref_frame"
  by (simp add: pkt_bytes_def ref_mem_def ref_sdk_def mem_rd_wr_same length_ref_frame)

lemma ref_accept: "accept_frame 64 ref_frame"
  by (simp add: accept_frame_def length_ref_frame) (simp add: ref_frame_def seg_def nth_append)

lemma ref_free_buffer: "free_buffer ref_sdk 5 7"
  using ref_bufs_apart [of 7 64] by (simp add: free_buffer_def ref_sdk_def)

lemma ref_arrival: "tx_at s = TxIdle \<Longrightarrow> arrival_ok ref_sdk s ref_meta ref_mem"
  using ref_bufs_ok [of ref_meta 64] by (simp add: arrival_ok_def ref_meta_def)

lemma ref_len: "unat (pkt_len ref_meta) - 8 = 64"
  by (simp add: ref_meta_def)

text \<open>A longer packet: 184 bytes of its frame in the CTM buffer and 108 in MU buffer 7.\<close>

definition ref_long_mem :: mem where
  "ref_long_mem = mem_wr (mem_wr (\<lambda>_. 0) (0x8000000000 + 72) (replicate 184 1)) (mu_addr 7 + 256) (replicate 108 2)"

lemma ref_long_parts:
  "mem_rd ref_long_mem (pkt_ctm_ptr40 ref_sdk i p 72) 184 = replicate 184 1"
  "mem_rd ref_long_mem (mu_addr 7 + 256) 108 = replicate 108 2"
proof -
  have "disj_range 0x8000000000 256 (mu_addr 7) (256 + 108)" by (rule ref_bufs_apart) simp_all
  from disj_range_sym [OF disj_range_sub [OF this, of 72 184 256 108]]
  have "disj_range (mu_addr 7 + 256) (length (replicate 108 (2 :: u8))) (0x8000000000 + 72) 184" by simp
  from mem_rd_wr_disj [OF this] show "mem_rd ref_long_mem (pkt_ctm_ptr40 ref_sdk i p 72) 184 = replicate 184 1"
    by (simp add: ref_long_mem_def ref_sdk_def mem_rd_wr_same)
  show "mem_rd ref_long_mem (mu_addr 7 + 256) 108 = replicate 108 2"
    unfolding ref_long_mem_def by (rule mem_rd_wr_same) simp_all
qed

lemma ref_long_frame: "rx_frame ref_sdk (ref_meta\<lparr>pkt_len := 300\<rparr>) 292 ref_long_mem = replicate 184 1 @ replicate 108 2"
  using ref_long_parts by (simp add: pkt_bytes_def ref_meta_def)

text \<open>Reachable states in which the engines are about to transfer a packet.\<close>

lemma ref_quiescent_arrival:
  obtains s n where "echo_reach ref_sdk ref_host s" "quiescent s" "arrival_ok ref_sdk s ref_meta ref_mem"
    "inv_static ref_host s" "rx_tail (shared_cfg s) = pos n" "rx_head (shared_cfg s) = pos n"
    "tx_head (shared_cfg s) = pos n"
proof -
  obtain s where s: "echo_reach ref_sdk ref_host s" "quiescent s" using ref_quiescent by blast
  then have "arrival_ok ref_sdk s ref_meta ref_mem" by (intro ref_arrival) (simp add: quiescent_def)
  then show thesis using quiescent_view [OF ref_env_ok s] that s by metis
qed

lemma ref_accept_meta:
  "accept_frame 64 (rx_frame ref_sdk ref_meta (unat (pkt_len ref_meta) - 8) ref_mem)"
  using ref_accept by (simp add: ref_len ref_rx_frame)

lemma ref_rx_dma: "\<exists>s p t u. echo_reach ref_sdk ref_host s \<and> rx_at s = RxDma p t u"
proof -
  obtain s n where s: "echo_reach ref_sdk ref_host s" "quiescent s"
    and arr: "arrival_ok ref_sdk s ref_meta ref_mem" and st: "inv_static ref_host s"
    and n: "rx_tail (shared_cfg s) = pos n" "rx_head (shared_cfg s) = pos n"
    using ref_quiescent_arrival by metis
  obtain p e where r: "echo_reach ref_sdk ref_host (s\<lparr>rx_at := RxReserve p, dev := e,
      accepted := accepted s @ [rx_frame ref_sdk ref_meta 64 ref_mem]\<rparr>)" (is "echo_reach _ _ ?s1")
    using stage_received [OF ref_env_ok s arr ref_accept_meta] by blast
  have lm: "rx_local s = \<lparr>buffer_capacity = 512, packet_size = 64\<rparr>"
    using st s(2) by (simp add: inv_static_def quiescent_def)
  have "fst (snd ((rx_step ref_sdk 0 m ^^ i) (rx_conf_of ?s1))) \<noteq> RxIdle" if "i < 2" for i m
    using that by (auto simp: less_2_cases_iff Let_def)
  from rx_runs [OF r this] have "echo_reach ref_sdk ref_host
      (rx_upd ?s1 ((rx_step ref_sdk 0 ref_meta ^^ 2) (rx_conf_of ?s1)))" by blast
  moreover have "pos (Suc n) \<noteq> pos n" using pos_eq [of n "Suc n"] by auto
  then have "rx_at (rx_upd ?s1 ((rx_step ref_sdk 0 ref_meta ^^ 2) (rx_conf_of ?s1))) =
      RxDma p (pos n) (pos (Suc n))"
    using lm n pos_Suc [of n] by (simp add: numeral_2_eq_2 Let_def)
  ultimately show ?thesis by blast
qed

lemma ref_tx_dma: "\<exists>s p t u. echo_reach ref_sdk ref_host s \<and> tx_at s = TxDma p t u"
proof -
  obtain s n where s: "echo_reach ref_sdk ref_host s" "quiescent s"
    and arr: "arrival_ok ref_sdk s ref_meta ref_mem" and n: "rx_tail (shared_cfg s) = pos n"
      "tx_head (shared_cfg s) = pos n"
    using ref_quiescent_arrival by metis
  obtain t where t: "echo_reach ref_sdk ref_host t" "rx_at t = RxIdle" "tx_at t = TxIdle"
    "shared_cfg t = (shared_cfg s)\<lparr>rx_tail := pos (Suc n), tx_tail := pos (Suc n), rx_head := pos (Suc n)\<rparr>"
    using stage_in_tx_ring [OF ref_env_ok s arr ref_accept_meta n(1)] by blast
  obtain q' x e' where al: "allocate_packet ref_sdk [5] [(0, 7)] undefined (dev t) = Some (q', x, e')"
    "pkt_bufs_ok ref_sdk (nbi_meta q') 64" using allocate_free_buffer [OF ref_free_buffer] by blast
  then have "alloc_ok ref_sdk t (nbi_meta q')" using t by (simp add: alloc_ok_def)
  moreover have "tx_head (shared_cfg t) \<noteq> tx_tail (shared_cfg t)"
    using t(4) n pos_eq [of n "Suc n"] by simp
  ultimately have "echo_reach ref_sdk ref_host (t\<lparr>tx_at := TxDma q' (tx_head (shared_cfg t))
      (ring_advance (packet_size (tx_local t)) (buffer_capacity (tx_local t)) (tx_head (shared_cfg t))),
      dev := e'\<rparr>)" (is "echo_reach _ _ ?t")
    using tx_to_dma [OF t(1,3) al(1)] by blast
  then show ?thesis by (intro exI [of _ ?t]) auto
qed

section \<open>Several contexts\<close>

definition ref_pkt :: pkt_t where
  "ref_pkt = \<lparr>nbi_meta = ref_meta, hdr = rfc_bytes_hdr (replicate 52 0)\<rparr>"

definition ref_mstart :: mrx_state where
  "ref_mstart = \<lparr>mx_shared = \<lparr>sh_local = \<lparr>buffer_capacity = 0, packet_size = 0\<rparr>, shadow = 0, init_flag = False\<rparr>,
     mx_cfg = ref_cfg\<lparr>buffer_size := 512, cfg_packet_size := 64\<rparr>, mx_dev = ref_dev, mx_pcs = \<lambda>_. MrxInit\<rparr>"

text \<open>A full ring with a context whose sample of the head is one entry old.\<close>

definition ref_full :: mrx_state where
  "ref_full = \<lparr>mx_shared = \<lparr>sh_local = \<lparr>buffer_capacity = 512, packet_size = 64\<rparr>, shadow = pos 8, init_flag = True\<rparr>,
     mx_cfg = ref_cfg\<lparr>buffer_size := 512, cfg_packet_size := 64, rx_tail := pos 8, rx_head := pos 1\<rparr>,
     mx_dev = ref_dev, mx_pcs = (\<lambda>i. if i = 0 then MrxTest ref_pkt (pos 0) else MrxIdle)\<rparr>"

lemma ref_full_view:
  "mrx_view 8 8 (\<lambda>_. None) ref_full" "mx_pcs ref_full 0 = MrxTest ref_pkt (pos 0)"
  "rx_head (mx_cfg ref_full) = pos 1" "Suc 8 = 1 + 8" "pos 0 \<noteq> pos 1"
  using pos_eq [of 0 1]
  by (auto simp: mrx_view_def own_ok_def mrx_holds_def ref_full_def ref_cfg_def)

lemma ref_rx_accept:
  obtains p d where "rx_accept ref_sdk \<lparr>buffer_capacity = 512, packet_size = 64\<rparr> ref_meta
    (ref_dev\<lparr>mem40 := ref_mem\<rparr>) = (Some p, d)"
proof -
  have h: "packet_size \<lparr>buffer_capacity = 512, packet_size = 64\<rparr> = 64"
    "mem40 (ref_dev\<lparr>mem40 := ref_mem\<rparr>) = ref_mem" "pkt_bufs_ok ref_sdk ref_meta 64"
    "8 \<le> unat (pkt_len ref_meta)" using ref_bufs_ok [of ref_meta 64] by (simp_all add: ref_meta_def)
  show thesis by (rule rx_accept_cases [OF ref_env_ok h]) (use ref_accept_meta that in blast)+
qed

text \<open>A context receives a packet and reserves the next slot.\<close>

lemma ref_reserve:
  assumes r: "mrx_reach ref_sdk s" and cx: "cx < 8" "mx_pcs s cx = MrxIdle"
    and sh: "sh_local (mx_shared s) = \<lparr>buffer_capacity = 512, packet_size = 64\<rparr>"
      "shadow (mx_shared s) = pos n" "rx_head (mx_cfg s) \<noteq> pos (Suc n)"
  shows "\<exists>t p. mrx_reach ref_sdk t \<and> mx_pcs t = (mx_pcs s)(cx := MrxDma p (pos n) (pos (Suc n)))
    \<and> mx_cfg t = mx_cfg s \<and> mx_shared t = (mx_shared s)\<lparr>shadow := pos (Suc n)\<rparr>"
proof -
  obtain p d where ac: "rx_accept ref_sdk \<lparr>buffer_capacity = 512, packet_size = 64\<rparr> ref_meta
    (ref_dev\<lparr>mem40 := ref_mem\<rparr>) = (Some p, d)" by (rule ref_rx_accept)
  let ?s0 = "s\<lparr>mx_dev := ref_dev\<lparr>mem40 := ref_mem\<rparr>\<rparr>"
  have "mrx_reach ref_sdk (s\<lparr>mx_cfg := (mx_cfg s)\<lparr>rx_head := rx_head (mx_cfg s),
      start_signal := start_signal (mx_cfg s)\<rparr>, mx_dev := ref_dev\<lparr>mem40 := ref_mem\<rparr>\<rparr>)"
    by (rule mrx_reach.env [OF r])
  then have "mrx_reach ref_sdk ?s0" by simp
  then have "mrx_reach ref_sdk (mrx_ctx_step ref_sdk cx ref_meta (mrx_ctx_step ref_sdk cx ref_meta
      (mrx_ctx_step ref_sdk cx ref_meta ?s0)))" (is "mrx_reach _ ?t")
    by (intro mrx_reach.ctx cx)
  moreover have "mx_pcs ?t = (mx_pcs s)(cx := MrxDma p (pos n) (pos (Suc n)))
    \<and> mx_cfg ?t = mx_cfg s \<and> mx_shared ?t = (mx_shared s)\<lparr>shadow := pos (Suc n)\<rparr>"
    using sh cx(2) ac pos_Suc [of n] by (simp add: mrx_ctx_step_def Let_def)
  ultimately show ?thesis by blast
qed

lemma ref_one_context:
  obtains s p where "mrx_reach ref_sdk s" "mx_pcs s 0 = MrxDma p (pos 0) (pos 1)" "mx_pcs s 1 = MrxIdle"
    "sh_local (mx_shared s) = \<lparr>buffer_capacity = 512, packet_size = 64\<rparr>"
    "shadow (mx_shared s) = pos 1" "rx_head (mx_cfg s) = 0" "rx_tail (mx_cfg s) = 0"
proof -
  have "mrx_reach ref_sdk ref_mstart" by (rule mrx_reach.init) (simp_all add: ref_mstart_def ref_cfg_def)
  from mrx_reach.env [OF this, of ref_dev 1 0]
  have "mrx_reach ref_sdk (mrx_ctx_step ref_sdk 1 ref_meta (mrx_ctx_step ref_sdk 0 ref_meta
      (ref_mstart\<lparr>mx_cfg := (mx_cfg ref_mstart)\<lparr>rx_head := 0, start_signal := 1\<rparr>, mx_dev := ref_dev\<rparr>)))"
    (is "mrx_reach _ ?s") by (intro mrx_reach.ctx) simp_all
  moreover have "mx_pcs ?s 0 = MrxIdle" "mx_pcs ?s 1 = MrxIdle" "rx_head (mx_cfg ?s) = 0" "rx_tail (mx_cfg ?s) = 0"
    "sh_local (mx_shared ?s) = \<lparr>buffer_capacity = 512, packet_size = 64\<rparr>" "shadow (mx_shared ?s) = pos 0"
    by (simp_all add: mrx_ctx_step_def ref_mstart_def ref_cfg_def load_config_def)
  moreover have "pos (Suc 0) \<noteq> 0" using pos_eq [of 0 "Suc 0"] by simp
  ultimately obtain t p where "mrx_reach ref_sdk t" "mx_pcs t = (mx_pcs ?s)(0 := MrxDma p (pos 0) (pos (Suc 0)))"
    "mx_cfg t = mx_cfg ?s" "mx_shared t = (mx_shared ?s)\<lparr>shadow := pos (Suc 0)\<rparr>"
    using ref_reserve [of ?s 0 0] by auto
  then show thesis using \<open>mx_pcs ?s 1 = MrxIdle\<close> \<open>rx_head (mx_cfg ?s) = 0\<close> \<open>rx_tail (mx_cfg ?s) = 0\<close>
      \<open>sh_local (mx_shared ?s) = _\<close> by (intro that [of t p]) simp_all
qed

lemma ref_two_contexts:
  "\<exists>s t u t' u'. mrx_reach ref_sdk s \<and> mrx_slot (mx_pcs s 0) = Some (t, u)
     \<and> mrx_slot (mx_pcs s 1) = Some (t', u')"
proof -
  obtain s p where s: "mrx_reach ref_sdk s" "mx_pcs s 0 = MrxDma p (pos 0) (pos 1)" "mx_pcs s 1 = MrxIdle"
    "sh_local (mx_shared s) = \<lparr>buffer_capacity = 512, packet_size = 64\<rparr>"
    "shadow (mx_shared s) = pos 1" "rx_head (mx_cfg s) = 0" by (rule ref_one_context)
  have "pos (Suc 1) \<noteq> 0" using pos_eq [of 0 "Suc 1"] by simp
  then obtain t p' where "mrx_reach ref_sdk t" "mx_pcs t = (mx_pcs s)(1 := MrxDma p' (pos 1) (pos (Suc 1)))"
    using ref_reserve [OF s(1), of 1 1] s by auto
  then show ?thesis using s(2) by (intro exI [of _ t]) auto
qed

lemma ref_commit: "\<exists>s p u. mrx_reach ref_sdk s \<and> mx_pcs s 0 = MrxCommit p u"
proof -
  obtain s p where s: "mrx_reach ref_sdk s" "mx_pcs s 0 = MrxDma p (pos 0) (pos 1)" "rx_tail (mx_cfg s) = 0"
    by (rule ref_one_context)
  have "mrx_reach ref_sdk (mrx_ctx_step ref_sdk 0 ref_meta (mrx_ctx_step ref_sdk 0 ref_meta s))"
    by (intro mrx_reach.ctx s) simp_all
  moreover have "mx_pcs (mrx_ctx_step ref_sdk 0 ref_meta (mrx_ctx_step ref_sdk 0 ref_meta s)) 0 =
      MrxCommit p (pos 1)" using s(2,3) by (simp add: mrx_ctx_step_def)
  ultimately show ?thesis by blast
qed

end
