(* ===== verification/Cpp_Ids.thy ===== *)
theory Cpp_Ids
  imports Nfp_Prelude
begin

text \<open>
  Identifiers of the chip (user/nfpcore/nfp-common/nfp_resid.h): CPP identifiers, which
  pack target, token, action and island into 32 bits, and micro-engine identifiers. The
  general lemmas on bit fields of a word are shared with the address translation.
\<close>

section \<open>Bit fields\<close>

text \<open>\<open>fld l w a\<close> reads \<open>w\<close> bits at position \<open>l\<close>, \<open>put\<close> replaces them.\<close>

definition fld :: "nat \<Rightarrow> nat \<Rightarrow> 'a::len word \<Rightarrow> 'a word" where
  "fld l w a = take_bit w (drop_bit l a)"

definition put_fld :: "nat \<Rightarrow> nat \<Rightarrow> 'a::len word \<Rightarrow> 'a word \<Rightarrow> 'a word" where
  "put_fld l w x a = (a AND NOT (push_bit l (mask w))) OR (push_bit l x AND push_bit l (mask w))"

lemma bit_fld: "bit (fld l w a) n \<longleftrightarrow> n < w \<and> bit a (l + n)"
  by (auto simp: fld_def bit_take_bit_iff bit_drop_bit_eq)

lemma bit_put_fld:
  fixes a x :: "'a::len word"
  shows "bit (put_fld l w x a) n \<longleftrightarrow>
    n < LENGTH('a) \<and> (if l \<le> n \<and> n < l + w then bit x (n - l) else bit a n)"
  by (auto simp: put_fld_def bit_or_iff bit_and_iff bit_not_iff_eq bit_push_bit_iff bit_mask_iff
      dest: bit_imp_le_length)

lemma fld_put_same:
  fixes a x :: "'a::len word"
  assumes "l + w \<le> LENGTH('a)"
  shows "fld l w (put_fld l w x a) = take_bit w x"
  using assms by (intro bit_word_eqI) (auto simp: bit_fld bit_put_fld bit_take_bit_iff)

lemma fld_put_other:
  fixes a x :: "'a::len word"
  assumes "l + w \<le> l' \<or> l' + w' \<le> l"
  shows "fld l w (put_fld l' w' x a) = fld l w a"
  using assms by (intro bit_word_eqI) (auto simp: bit_fld bit_put_fld dest: bit_imp_le_length)

lemma and_mask_take: "m = mask n \<Longrightarrow> w AND m = take_bit n (w :: 'a::len word)"
  by (simp add: take_bit_eq_mask)

lemma and_0x3F: "(w :: 'a::len word) AND 0x3F = take_bit 6 w"
  by (rule and_mask_take) (simp add: mask_eq_exp_minus_1)

lemma and_0xff: "(w :: 'a::len word) AND 0xff = take_bit 8 w"
  by (rule and_mask_take) (simp add: mask_eq_exp_minus_1)

lemma and_0x7f: "(w :: 'a::len word) AND 0x7f = take_bit 7 w"
  by (rule and_mask_take) (simp add: mask_eq_exp_minus_1)

lemma and_0x1f: "(w :: 'a::len word) AND 0x1f = take_bit 5 w"
  by (rule and_mask_take) (simp add: mask_eq_exp_minus_1)

lemma and_3: "(w :: 'a::len word) AND 3 = take_bit 2 w"
  by (rule and_mask_take) (simp add: mask_eq_exp_minus_1)

lemma and_1: "(w :: 'a::len word) AND 1 = take_bit 1 w"
  by (rule and_mask_take) (simp add: mask_eq_exp_minus_1)

lemmas and_masks = and_0x3F and_0xff and_0x7f and_0x1f and_3 and_1

section \<open>CPP targets and identifiers\<close>

definition NFP6000_CPPTGT_NBI :: int where "NFP6000_CPPTGT_NBI = 1"
definition NFP6000_CPPTGT_VQDR :: int where "NFP6000_CPPTGT_VQDR = 2"
definition NFP6000_CPPTGT_ILA :: int where "NFP6000_CPPTGT_ILA = 6"
definition NFP6000_CPPTGT_MU :: int where "NFP6000_CPPTGT_MU = 7"
definition NFP6000_CPPTGT_PCIE :: int where "NFP6000_CPPTGT_PCIE = 9"
definition NFP6000_CPPTGT_ARM :: int where "NFP6000_CPPTGT_ARM = 10"
definition NFP6000_CPPTGT_CRYPTO :: int where "NFP6000_CPPTGT_CRYPTO = 12"
definition NFP6000_CPPTGT_CTXPB :: int where "NFP6000_CPPTGT_CTXPB = 14"
definition NFP6000_CPPTGT_CLS :: int where "NFP6000_CPPTGT_CLS = 15"

lemmas cpptgt_defs = NFP6000_CPPTGT_NBI_def NFP6000_CPPTGT_VQDR_def NFP6000_CPPTGT_ILA_def
  NFP6000_CPPTGT_MU_def NFP6000_CPPTGT_PCIE_def NFP6000_CPPTGT_ARM_def
  NFP6000_CPPTGT_CRYPTO_def NFP6000_CPPTGT_CTXPB_def NFP6000_CPPTGT_CLS_def

definition NFP_CPP_ACTION_RW :: u32 where "NFP_CPP_ACTION_RW = 32"

definition NFP_CPP_ISLAND_ID :: "u32 \<Rightarrow> u32 \<Rightarrow> u32 \<Rightarrow> u32 \<Rightarrow> u32" where
  "NFP_CPP_ISLAND_ID target action token island =
     push_bit 24 (target AND 0x7f) OR push_bit 16 (token AND 0xff)
     OR push_bit 8 (action AND 0xff) OR push_bit 0 (island AND 0xff)"

definition NFP_CPP_ID :: "u32 \<Rightarrow> u32 \<Rightarrow> u32 \<Rightarrow> u32" where
  "NFP_CPP_ID target action token =
     push_bit 24 (target AND 0x7f) OR push_bit 16 (token AND 0xff)
     OR push_bit 8 (action AND 0xff)"

definition NFP_CPP_ID_TARGET_of :: "u32 \<Rightarrow> u8" where
  "NFP_CPP_ID_TARGET_of cpp_id = ucast (drop_bit 24 cpp_id AND 0x1f)"

definition NFP_CPP_ID_TOKEN_of :: "u32 \<Rightarrow> u8" where
  "NFP_CPP_ID_TOKEN_of cpp_id = ucast (drop_bit 16 cpp_id AND 0xff)"

definition NFP_CPP_ID_ACTION_of :: "u32 \<Rightarrow> u8" where
  "NFP_CPP_ID_ACTION_of cpp_id = ucast (drop_bit 8 cpp_id AND 0xff)"

definition NFP_CPP_ID_ISLAND_of :: "u32 \<Rightarrow> u8" where
  "NFP_CPP_ID_ISLAND_of cpp_id = ucast (cpp_id AND 0xff)"

lemmas cpp_id_defs = NFP_CPP_ISLAND_ID_def NFP_CPP_ID_def NFP_CPP_ID_TARGET_of_def
  NFP_CPP_ID_TOKEN_of_def NFP_CPP_ID_ACTION_of_def NFP_CPP_ID_ISLAND_of_def

lemma cpp_id_island_0: "NFP_CPP_ID t a k = NFP_CPP_ISLAND_ID t a k 0"
  by (simp add: cpp_id_defs)

text \<open>Every component is read back, the target up to the width of its accessor.\<close>

lemma cpp_island_id_fields:
  "NFP_CPP_ID_TARGET_of (NFP_CPP_ISLAND_ID t a k i) = ucast (take_bit 5 t)"
  "NFP_CPP_ID_TOKEN_of (NFP_CPP_ISLAND_ID t a k i) = ucast k"
  "NFP_CPP_ID_ACTION_of (NFP_CPP_ISLAND_ID t a k i) = ucast a"
  "NFP_CPP_ID_ISLAND_of (NFP_CPP_ISLAND_ID t a k i) = ucast i"
proof -
  note bs = cpp_id_defs and_masks bit_or_iff bit_push_bit_iff bit_unsigned_iff bit_take_bit_iff
    bit_drop_bit_eq
  show "NFP_CPP_ID_TARGET_of (NFP_CPP_ISLAND_ID t a k i) = ucast (take_bit 5 t)"
    "NFP_CPP_ID_TOKEN_of (NFP_CPP_ISLAND_ID t a k i) = ucast k"
    "NFP_CPP_ID_ACTION_of (NFP_CPP_ISLAND_ID t a k i) = ucast a"
    "NFP_CPP_ID_ISLAND_of (NFP_CPP_ISLAND_ID t a k i) = ucast i"
    by (rule bit_word_eqI; auto simp: bs)+
qed

section \<open>Micro-engine identifiers\<close>

definition NFP6000_MEID :: "int \<Rightarrow> int \<Rightarrow> int" where
  "NFP6000_MEID a b =
     (if (a AND 0x3F) = a \<and> 0 \<le> b \<and> b < 12 then push_bit 4 a OR (b + 4) else -1)"

definition NFP6000_MEID_IS_VALID :: "int \<Rightarrow> bool" where
  "NFP6000_MEID_IS_VALID a \<longleftrightarrow> drop_bit 4 a < 64 \<and> drop_bit 4 a \<ge> 0 \<and> (a AND 0xF) \<ge> 4"

definition NFP6000_MEID_ISLAND_of :: "int \<Rightarrow> int" where
  "NFP6000_MEID_ISLAND_of meid = drop_bit 4 meid AND 0x3F"

definition NFP6000_MEID_MENUM_of :: "int \<Rightarrow> int" where
  "NFP6000_MEID_MENUM_of meid = (meid AND 0xF) - 4"

definition NFP6000_MEID_MEGRP_of :: "int \<Rightarrow> int" where
  "NFP6000_MEID_MEGRP_of meid = drop_bit 1 (NFP6000_MEID_MENUM_of meid)"

definition NFP_FAMILY_IS_NFP6000 :: "int \<Rightarrow> bool" where
  "NFP_FAMILY_IS_NFP6000 chip_family \<longleftrightarrow> chip_family = 0x6000"

lemma int_and_mask: "m = mask n \<Longrightarrow> (a :: int) AND m = a mod 2 ^ n"
  by (simp add: take_bit_eq_mask [symmetric] take_bit_eq_mod)

lemma int_and_0x3F: "(a :: int) AND 0x3F = a mod 64"
  using int_and_mask [of "0x3F" 6 a] by (simp add: mask_eq_exp_minus_1)

lemma int_and_0xF: "(a :: int) AND 0xF = a mod 16"
  using int_and_mask [of "0xF" 4 a] by (simp add: mask_eq_exp_minus_1)

lemma meid_value:
  assumes "0 \<le> a" "a < 64" "0 \<le> b" "b < 12"
  shows "NFP6000_MEID a b = a * 16 + b + 4"
proof -
  have "push_bit 4 a OR (b + 4) = push_bit 4 a + (b + 4)"
  proof (rule disjunctive_add_eq_or [symmetric])
    have "take_bit 4 (b + 4) = b + 4" using assms by (simp add: take_bit_eq_mod)
    then have "push_bit 4 a AND (b + 4) = push_bit 4 a AND take_bit 4 (b + 4)" by simp
    also have "\<dots> = 0"
      by (rule bit_eqI) (auto simp: bit_and_iff bit_push_bit_iff bit_take_bit_iff)
    finally show "push_bit 4 a AND (b + 4) = 0" .
  qed
  then show ?thesis using assms
    by (simp add: NFP6000_MEID_def int_and_0x3F push_bit_eq_mult)
qed

lemma meid_roundtrip:
  assumes "0 \<le> a" "a < 64" "0 \<le> b" "b < 12"
  shows "NFP6000_MEID_IS_VALID (NFP6000_MEID a b)"
    "NFP6000_MEID_ISLAND_of (NFP6000_MEID a b) = a"
    "NFP6000_MEID_MENUM_of (NFP6000_MEID a b) = b"
    "NFP6000_MEID_MEGRP_of (NFP6000_MEID a b) = b div 2"
proof -
  have v: "NFP6000_MEID a b = a * 16 + (b + 4)" using meid_value [OF assms] by simp
  have d: "(a * 16 + (b + 4)) div 16 = a" "(a * 16 + (b + 4)) mod 16 = b + 4"
    using assms by (simp_all add: int_div_pos_eq [of _ 16 a "b + 4"] int_mod_pos_eq [of _ 16 a "b + 4"])
  then have i: "drop_bit 4 (NFP6000_MEID a b) = a" "NFP6000_MEID a b AND 0xF = b + 4"
    unfolding v by (simp_all add: drop_bit_eq_div int_and_0xF)
  then show "NFP6000_MEID_ISLAND_of (NFP6000_MEID a b) = a"
    "NFP6000_MEID_MENUM_of (NFP6000_MEID a b) = b"
    "NFP6000_MEID_IS_VALID (NFP6000_MEID a b)"
    "NFP6000_MEID_MEGRP_of (NFP6000_MEID a b) = b div 2"
    using assms by (simp_all add: NFP6000_MEID_ISLAND_of_def NFP6000_MEID_MENUM_of_def
        NFP6000_MEID_IS_VALID_def NFP6000_MEID_MEGRP_of_def int_and_0x3F drop_bit_eq_div)
qed

end
