(* ===== verification/Cpp_At.thy ===== *)
theory Cpp_At
  imports Cpp_Ids
begin

text \<open>
  CPP address translation (user/nfpcore/nfp-common/nfp_cppat.h): how the island a command
  goes to is written into, read from and cleared in the address, for the four translation
  modes, 32-bit and 40-bit addressing, and the two families of targets (the memory unit and
  all others). Islands, targets and modes are C \<open>int\<close>s; \<open>addr40\<close> is a flag.
\<close>

section \<open>Masks and the island search\<close>

definition nic_mask64 :: "nat \<Rightarrow> nat \<Rightarrow> bool \<Rightarrow> u64" where
  "nic_mask64 msb lsb at0 =
     (let w = msb - lsb + 1
      in if w = 64 then NOT 0
         else if lsb + w > 64 then 0
         else let v = push_bit w 1 - 1 in if at0 then v else push_bit lsb v)"

text \<open>The nested loop of modes 2 and 3: the first index \<open>i\<close> and low bits \<open>v\<close> that give the
  wanted island.\<close>

definition isld_search :: "int \<Rightarrow> int \<Rightarrow> int \<Rightarrow> int list \<Rightarrow> (int \<times> int) option" where
  "isld_search dest_island isld0 isld1 vs =
     find (\<lambda>(i, v). dest_island = ((if i = 0 then isld0 else isld1) OR v))
       (map (Pair 0) vs @ map (Pair 1) vs)"

definition isld_place :: "u64 \<Rightarrow> nat \<Rightarrow> nat \<Rightarrow> int \<Rightarrow> int \<Rightarrow> u64" where
  "isld_place addr idx_lsb iid_lsb i v =
     (addr AND NOT (nic_mask64 idx_lsb iid_lsb False))
     OR push_bit idx_lsb (word_of_int i) OR push_bit iid_lsb (word_of_int v)"

definition iid_place :: "u64 \<Rightarrow> nat \<Rightarrow> int \<Rightarrow> u64" where
  "iid_place addr iid_lsb dest_island =
     (let m = nic_mask64 (iid_lsb + 5) iid_lsb False
      in (addr AND NOT m) OR (push_bit iid_lsb (word_of_int dest_island) AND m))"

section \<open>Targets other than the memory unit\<close>

definition nfp6000_decode_basic :: "u64 \<Rightarrow> int \<Rightarrow> int \<Rightarrow> bool \<Rightarrow> int \<Rightarrow> int \<Rightarrow> c_fail + int" where
  "nfp6000_decode_basic addr cpp_tgt mode addr40 isld1 isld0 =
     (if cpp_tgt = NFP6000_CPPTGT_MU \<or> cpp_tgt = NFP6000_CPPTGT_CTXPB then Inl (RetErrno EINVAL)
      else if mode = 0 then
        let iid_lsb = (if addr40 then 34 else 26)
        in Inr (uint (drop_bit iid_lsb addr AND 0x3F))
      else if mode = 1 then
        let idx_lsb = (if addr40 then 39 else 31)
        in if addr AND nic_mask64 idx_lsb idx_lsb False \<noteq> 0 then Inr isld1 else Inr isld0
      else if mode = 2 then
        let isld0 = isld0 AND NOT 1; isld1 = isld1 AND NOT 1;
            idx_lsb = (if addr40 then 39 else 31); iid_lsb = idx_lsb - 1
        in if addr AND nic_mask64 idx_lsb idx_lsb False \<noteq> 0
           then Inr (isld1 OR uint (drop_bit iid_lsb addr AND 1))
           else Inr (isld0 OR uint (drop_bit iid_lsb addr AND 1))
      else if mode = 3 then
        let isld0 = isld0 AND NOT 3; isld1 = isld1 AND NOT 3;
            idx_lsb = (if addr40 then 39 else 31); iid_lsb = idx_lsb - 2
        in if addr AND nic_mask64 idx_lsb idx_lsb False \<noteq> 0
           then Inr (isld1 OR uint (drop_bit iid_lsb addr AND 3))
           else Inr (isld0 OR uint (drop_bit iid_lsb addr AND 3))
      else Inl (RetErrno EINVAL))"

text \<open>32-bit VQDR addresses are not changed, only checked.\<close>

definition vqdr_check :: "u64 \<Rightarrow> int \<Rightarrow> int \<Rightarrow> int \<Rightarrow> bool \<Rightarrow> int \<Rightarrow> int \<Rightarrow> c_fail + u64" where
  "vqdr_check addr dest_island cpp_tgt mode addr40 isld1 isld0 =
     (case nfp6000_decode_basic addr cpp_tgt mode addr40 isld1 isld0 of
        Inl e \<Rightarrow> Inl e
      | Inr v \<Rightarrow> if dest_island \<noteq> -1 \<and> dest_island \<noteq> v then Inl (RetErrno EINVAL) else Inr addr)"

definition nfp6000_encode_basic ::
  "u64 \<Rightarrow> int \<Rightarrow> int \<Rightarrow> int \<Rightarrow> bool \<Rightarrow> int \<Rightarrow> int \<Rightarrow> c_fail + u64" where
  "nfp6000_encode_basic addr dest_island cpp_tgt mode addr40 isld1 isld0 =
     (if cpp_tgt = NFP6000_CPPTGT_MU \<or> cpp_tgt = NFP6000_CPPTGT_CTXPB then Inl (RetErrno EINVAL)
      else if mode \<in> {0, 1, 2, 3} \<and> cpp_tgt = NFP6000_CPPTGT_VQDR \<and> \<not> addr40 then
        vqdr_check addr dest_island cpp_tgt mode addr40 isld1 isld0
      else if mode = 0 then Inr (iid_place addr (if addr40 then 34 else 26) dest_island)
      else if mode = 1 then
        let idx_lsb = (if addr40 then 39 else 31)
        in if dest_island = isld0 then Inr (addr AND NOT (nic_mask64 idx_lsb idx_lsb False))
           else if dest_island = isld1 then Inr (addr OR push_bit idx_lsb 1)
           else Inl (RetErrno ENODEV)
      else if mode = 2 then
        let idx_lsb = (if addr40 then 39 else 31); iid_lsb = idx_lsb - 1
        in (case isld_search dest_island (isld0 AND NOT 1) (isld1 AND NOT 1) [0, 1] of
              Some (i, v) \<Rightarrow> Inr (isld_place addr idx_lsb iid_lsb i v)
            | None \<Rightarrow> Inl (RetErrno ENODEV))
      else if mode = 3 then
        let idx_lsb = (if addr40 then 39 else 31); iid_lsb = idx_lsb - 2
        in (case isld_search dest_island (isld0 AND NOT 3) (isld1 AND NOT 3) [0, 1, 2, 3] of
              Some (i, v) \<Rightarrow> Inr (isld_place addr idx_lsb iid_lsb i v)
            | None \<Rightarrow> Inl (RetErrno ENODEV))
      else Inl (RetErrno EINVAL))"

section \<open>The memory unit\<close>

definition nfp6000_cppat_mu_locality_lsb :: "int \<Rightarrow> bool \<Rightarrow> c_fail + nat" where
  "nfp6000_cppat_mu_locality_lsb mode addr40 =
     (if mode \<in> {0, 1, 2, 3} then Inr (if addr40 then 38 else 30) else Inl (RetErrno EINVAL))"

definition NIC_NFP6000_MU_LOCALITY_DIRECT :: u64 where "NIC_NFP6000_MU_LOCALITY_DIRECT = 2"

definition mu_direct :: "u64 \<Rightarrow> nat \<Rightarrow> bool" where
  "mu_direct addr locality_lsb \<longleftrightarrow>
     drop_bit locality_lsb addr AND 3 = NIC_NFP6000_MU_LOCALITY_DIRECT"

definition nfp6000_encode_mu :: "u64 \<Rightarrow> int \<Rightarrow> int \<Rightarrow> bool \<Rightarrow> int \<Rightarrow> int \<Rightarrow> c_fail + u64" where
  "nfp6000_encode_mu addr dest_island mode addr40 isld1 isld0 =
     (case nfp6000_cppat_mu_locality_lsb mode addr40 of
        Inl e \<Rightarrow> Inl (RetErrno EINVAL)
      | Inr locality_lsb \<Rightarrow>
          let da = mu_direct addr locality_lsb;
              iid_lsb0 = (if addr40 then 32 else 24);
              idx_lsb = (if addr40 then 37 else 29)
          in if mode = 0 then Inr (iid_place addr iid_lsb0 dest_island)
             else if mode = 1 then
               if da then Inr (iid_place addr iid_lsb0 dest_island)
               else if dest_island = isld0 then Inr (addr AND NOT (nic_mask64 idx_lsb idx_lsb False))
               else if dest_island = isld1 then Inr (addr OR push_bit idx_lsb 1)
               else Inl (RetErrno ENODEV)
             else if mode = 2 then
               if da then Inr (iid_place addr iid_lsb0 dest_island)
               else (case isld_search dest_island (isld0 AND NOT 1) (isld1 AND NOT 1) [0, 1] of
                       Some (i, v) \<Rightarrow> Inr (isld_place addr idx_lsb (idx_lsb - 1) i v)
                     | None \<Rightarrow> Inl (RetErrno ENODEV))
             else if mode = 3 then
               let force = (dest_island > 0 \<and> (dest_island < 24 \<or> dest_island > 26));
                   addr = (if force
                           then addr OR push_bit locality_lsb NIC_NFP6000_MU_LOCALITY_DIRECT
                           else addr)
               in if da \<or> force then Inr (iid_place addr iid_lsb0 dest_island)
                  else (case isld_search dest_island (isld0 AND NOT 3) (isld1 AND NOT 3) [0, 1, 2, 3] of
                          Some (i, v) \<Rightarrow> Inr (isld_place addr idx_lsb (idx_lsb - 2) i v)
                        | None \<Rightarrow> Inl (RetErrno ENODEV))
             else Inl (RetErrno EINVAL))"

text \<open>The decoder ignores a failing locality lookup; such a mode ends in its last branch.\<close>

definition nfp6000_decode_mu :: "u64 \<Rightarrow> int \<Rightarrow> bool \<Rightarrow> int \<Rightarrow> int \<Rightarrow> c_fail + int" where
  "nfp6000_decode_mu addr mode addr40 isld1 isld0 =
     (case nfp6000_cppat_mu_locality_lsb mode addr40 of
        Inl e \<Rightarrow> Inl (RetErrno EINVAL)
      | Inr locality_lsb \<Rightarrow>
          let da = mu_direct addr locality_lsb;
              iid_lsb0 = (if addr40 then 32 else 24);
              idx_lsb = (if addr40 then 37 else 29)
          in if mode = 0 then Inr (uint (drop_bit iid_lsb0 addr AND 0x3F))
             else if da then Inr (uint (drop_bit iid_lsb0 addr AND 0x3F))
             else if mode = 1 then
               if addr AND nic_mask64 idx_lsb idx_lsb False \<noteq> 0 then Inr isld1 else Inr isld0
             else if mode = 2 then
               let isld0 = isld0 AND NOT 1; isld1 = isld1 AND NOT 1; iid_lsb = idx_lsb - 1
               in if addr AND nic_mask64 idx_lsb idx_lsb False \<noteq> 0
                  then Inr (isld1 OR uint (drop_bit iid_lsb addr AND 1))
                  else Inr (isld0 OR uint (drop_bit iid_lsb addr AND 1))
             else
               let isld0 = isld0 AND NOT 3; isld1 = isld1 AND NOT 3; iid_lsb = idx_lsb - 2
               in if addr AND nic_mask64 idx_lsb idx_lsb False \<noteq> 0
                  then Inr (isld1 OR uint (drop_bit iid_lsb addr AND 3))
                  else Inr (isld0 OR uint (drop_bit iid_lsb addr AND 3)))"

section \<open>All targets\<close>

definition basic_target :: "int \<Rightarrow> bool" where
  "basic_target cpp_tgt \<longleftrightarrow>
     cpp_tgt \<in> {NFP6000_CPPTGT_NBI, NFP6000_CPPTGT_VQDR, NFP6000_CPPTGT_ILA, NFP6000_CPPTGT_PCIE,
                 NFP6000_CPPTGT_ARM, NFP6000_CPPTGT_CRYPTO, NFP6000_CPPTGT_CLS}"

definition nfp6000_cppat_addr_encode ::
  "u64 \<Rightarrow> int \<Rightarrow> int \<Rightarrow> int \<Rightarrow> bool \<Rightarrow> int \<Rightarrow> int \<Rightarrow> c_fail + u64" where
  "nfp6000_cppat_addr_encode addr dest_island cpp_tgt mode addr40 isld1 isld0 =
     (if basic_target cpp_tgt
      then nfp6000_encode_basic addr dest_island cpp_tgt mode addr40 isld1 isld0
      else if cpp_tgt = NFP6000_CPPTGT_MU
      then nfp6000_encode_mu addr dest_island mode addr40 isld1 isld0
      else if cpp_tgt = NFP6000_CPPTGT_CTXPB
      then if mode \<noteq> 1 \<or> addr40 then Inl (RetErrno EINVAL)
           else Inr (iid_place addr 24 dest_island)
      else Inl (RetErrno EINVAL))"

definition nfp6000_cppat_addr_decode ::
  "u64 \<Rightarrow> int \<Rightarrow> int \<Rightarrow> bool \<Rightarrow> int \<Rightarrow> int \<Rightarrow> c_fail + int" where
  "nfp6000_cppat_addr_decode addr cpp_tgt mode addr40 isld1 isld0 =
     (if basic_target cpp_tgt
      then nfp6000_decode_basic addr cpp_tgt mode addr40 isld1 isld0
      else if cpp_tgt = NFP6000_CPPTGT_MU then nfp6000_decode_mu addr mode addr40 isld1 isld0
      else if cpp_tgt = NFP6000_CPPTGT_CTXPB
      then if mode \<noteq> 1 \<or> addr40 then Inl (RetNeg EINVAL)
           else Inr (uint (drop_bit 24 addr AND 0x3F))
      else Inl (RetNeg EINVAL))"

text \<open>Clearing the island bits. The \<open>switch\<close> of the source has no \<open>break\<close> behind its inner
  switches: a mode above 3 falls through the MU case into the CTXPB case, which returns 0
  for every mode but 1.\<close>

definition nfp6000_cppat_addr_iid_clear :: "u64 \<Rightarrow> int \<Rightarrow> int \<Rightarrow> bool \<Rightarrow> c_fail + u64" where
  "nfp6000_cppat_addr_iid_clear addr cpp_tgt mode addr40 =
     (let clear = (\<lambda>lsb. addr AND NOT (push_bit lsb 0x3F));
          mclear = (\<lambda>msb lsb. addr AND NOT (nic_mask64 msb lsb False));
          ctxpb = (if mode \<noteq> 1 \<or> addr40 then Inr addr else Inr (clear 24));
          mu = (case nfp6000_cppat_mu_locality_lsb mode addr40 of
                  Inl e \<Rightarrow> ctxpb
                | Inr locality_lsb \<Rightarrow>
                    let da = mu_direct addr locality_lsb; a0 = (if addr40 then 32 else 24)
                    in if mode = 0 \<or> da then Inr (clear a0)
                       else if mode = 1 then let l = (if addr40 then 37 else 29) in Inr (mclear l l)
                       else if mode = 2 then let l = (if addr40 then 36 else 28) in Inr (mclear (l + 1) l)
                       else let l = (if addr40 then 35 else 27) in Inr (mclear (l + 2) l))
      in if basic_target cpp_tgt
         then if mode = 0 then Inr (clear (if addr40 then 34 else 26))
              else if mode = 1 then let l = (if addr40 then 39 else 31) in Inr (mclear l l)
              else if mode = 2 then let l = (if addr40 then 38 else 30) in Inr (mclear (l + 1) l)
              else if mode = 3 then let l = (if addr40 then 37 else 29) in Inr (mclear (l + 2) l)
              else mu
         else if cpp_tgt = NFP6000_CPPTGT_MU then mu
         else if cpp_tgt = NFP6000_CPPTGT_CTXPB then ctxpb
         else Inl (RetErrno EINVAL))"

section \<open>Bits of the masks and placements\<close>

lemma nic_mask64_field:
  assumes "lsb \<le> msb" "msb < 64" "msb - lsb < 63"
  shows "nic_mask64 msb lsb False = push_bit lsb (mask (Suc (msb - lsb)))"
  using assms by (simp add: nic_mask64_def Let_def mask_eq_exp_minus_1)

lemma bit_nic_mask64:
  assumes "lsb \<le> msb" "msb < 64" "msb - lsb < 63"
  shows "bit (nic_mask64 msb lsb False) n \<longleftrightarrow> lsb \<le> n \<and> n \<le> msb"
  using assms by (auto simp: nic_mask64_field bit_push_bit_iff bit_mask_iff)

lemma test_mask_bit:
  assumes "k < 64"
  shows "(a AND nic_mask64 k k False \<noteq> 0) \<longleftrightarrow> bit a k"
proof -
  have "bit (a AND nic_mask64 k k False) n \<longleftrightarrow> n = k \<and> bit a k" for n
    using assms by (auto simp: bit_and_iff bit_nic_mask64)
  then show ?thesis by (metis bit_0_eq bit_eqI bot_apply bot_bool_def)
qed

lemma iid_place_put: "l < 58 \<Longrightarrow> iid_place addr l d = put_fld l 6 (word_of_int d) addr"
  by (simp add: iid_place_def put_fld_def nic_mask64_field Let_def)

lemma and_mask_fld: "drop_bit l a AND 0x3F = fld l 6 a" "drop_bit l a AND 3 = fld l 2 a"
  "drop_bit l a AND 1 = fld l 1 a"
  by (simp_all add: fld_def and_0x3F and_3 and_1)

lemma uint_small_island: "0 \<le> d \<Longrightarrow> d < 64 \<Longrightarrow> uint (take_bit 6 (word_of_int d :: u64)) = d"
  by (simp only: unsigned_take_bit_eq) (simp add: uint_word_of_int take_bit_eq_mod)

lemma iid_place_read:
  assumes "l < 58" "0 \<le> d" "d < 64"
  shows "uint (drop_bit l (iid_place addr l d) AND 0x3F) = d"
  using assms by (simp add: and_mask_fld iid_place_put fld_put_same uint_small_island)

lemma mu_direct_bits: "mu_direct a l \<longleftrightarrow> \<not> bit a l \<and> bit a (Suc l)"
proof -
  have "mu_direct a l \<longleftrightarrow> fld l 2 a = 2"
    by (simp add: mu_direct_def NIC_NFP6000_MU_LOCALITY_DIRECT_def and_mask_fld)
  also have "\<dots> \<longleftrightarrow> \<not> bit a l \<and> bit a (Suc l)"
  proof
    assume eq: "fld l 2 a = 2"
    have "bit (fld l 2 a) 0 = bit (2 :: u64) 0" "bit (fld l 2 a) 1 = bit (2 :: u64) 1"
      by (simp_all only: eq)
    then show "\<not> bit a l \<and> bit a (Suc l)" by (simp add: bit_fld bit_2_iff)
  next
    assume "\<not> bit a l \<and> bit a (Suc l)"
    then show "fld l 2 a = 2"
      by (intro bit_word_eqI) (auto simp: bit_fld bit_2_iff less_2_cases_iff)
  qed
  finally show ?thesis .
qed

lemma isld_search_Some:
  assumes "isld_search d s0 s1 vs = Some (i, v)"
  shows "i \<in> {0, 1}" "v \<in> set vs" "d = ((if i = 0 then s0 else s1) OR v)"
  using assms unfolding isld_search_def find_Some_iff
  by (auto simp: nth_append split: if_splits)

text \<open>The index bit and the low island bits that \<open>isld_place\<close> stores.\<close>

lemma bit_word_of_int_small:
  "0 \<le> v \<Longrightarrow> v < 2 ^ k \<Longrightarrow> bit (word_of_int v :: u64) n \<Longrightarrow> n < k"
  by (metis bit_take_bit_iff bit_word_of_int_iff take_bit_int_eq_self_iff)

lemma isld_place_bits:
  assumes "iid < idx" "idx < 64" "idx - iid < 63" "i \<in> {0, 1}" "0 \<le> v" "v < 2 ^ (idx - iid)"
  shows "bit (isld_place a idx iid i v) idx \<longleftrightarrow> i = 1"
    "fld iid (idx - iid) (isld_place a idx iid i v) = word_of_int v"
    "n < iid \<or> idx < n \<Longrightarrow> bit (isld_place a idx iid i v) n = bit a n"
proof -
  have i: "bit (word_of_int i :: u64) k \<longleftrightarrow> k = 0 \<and> i = 1" for k using assms(4) by (auto simp: bit_1_iff)
  have v: "bit (word_of_int v :: u64) k \<Longrightarrow> k < idx - iid" for k
    using bit_word_of_int_small [OF assms(5,6)] by blast
  have b: "bit (isld_place a idx iid i v) k \<longleftrightarrow> k < 64 \<and>
      (if iid \<le> k \<and> k \<le> idx then (k = idx \<and> i = 1) \<or> bit (word_of_int v :: u64) (k - iid) else bit a k)" for k
    using assms(1-3) v [of "k - iid"]
    by (auto simp: isld_place_def bit_or_iff bit_and_iff bit_not_iff_eq bit_nic_mask64 bit_push_bit_iff i
        dest: bit_imp_le_length)
  show "bit (isld_place a idx iid i v) idx \<longleftrightarrow> i = 1" using assms(1,2) v [of "idx - iid"] by (auto simp: b)
  show "bit (isld_place a idx iid i v) n = bit a n" if "n < iid \<or> idx < n"
    using that by (auto simp: b dest: bit_imp_le_length)
  show "fld iid (idx - iid) (isld_place a idx iid i v) = word_of_int v"
    using assms(1,2) by (intro bit_word_eqI) (auto simp: bit_fld b dest: v)
qed

lemma uint_word_small: "0 \<le> v \<Longrightarrow> v < 4 \<Longrightarrow> uint (word_of_int v :: u64) = v"
  by (simp add: uint_word_of_int)

section \<open>Decoding what was encoded\<close>

text \<open>Modes 1 to 3 share the way the index bit selects an island.\<close>

lemma clear_set_index:
  assumes "k < 64"
  shows "\<not> bit (a AND NOT (nic_mask64 k k False)) k" "bit (a OR push_bit k 1) k"
    "n \<noteq> k \<Longrightarrow> bit (a AND NOT (nic_mask64 k k False)) n = bit a n"
    "n \<noteq> k \<Longrightarrow> bit (a OR push_bit k 1) n = bit a n"
  using assms by (auto simp: bit_and_iff bit_or_iff bit_not_iff_eq bit_nic_mask64 bit_push_bit_iff
      bit_1_iff bit_exp_iff dest: bit_imp_le_length)

lemma isld_place_decode:
  assumes "isld_search d s0 s1 vs = Some (i, v)" "iid < idx" "idx < 64" "idx - iid = k"
    "k \<in> {1, 2}" "vs = (if k = 1 then [0, 1] else [0, 1, 2, 3])"
  shows "(if bit (isld_place a idx iid i v) idx then s1 else s0)
      OR uint (fld iid k (isld_place a idx iid i v)) = d"
    "n < iid \<or> idx < n \<Longrightarrow> bit (isld_place a idx iid i v) n = bit a n"
proof -
  note s = isld_search_Some [OF assms(1)]
  have v: "0 \<le> v" "v < 2 ^ (idx - iid)" "v < 4" using s(2) assms(4-6) by (auto split: if_splits)
  have b: "idx - iid < 63" using assms(4,5) by auto
  note p = isld_place_bits [OF assms(2,3) b s(1) v(1,2)]
  show "n < iid \<or> idx < n \<Longrightarrow> bit (isld_place a idx iid i v) n = bit a n" by (rule p(3))
  show "(if bit (isld_place a idx iid i v) idx then s1 else s0)
      OR uint (fld iid k (isld_place a idx iid i v)) = d"
    using p(1,2) s(1,3) v assms(4) by (auto simp: uint_word_small)
qed

lemma decode_encode_basic:
  assumes enc: "nfp6000_encode_basic addr d tgt mode a40 isld1 isld0 = Inr addr'"
    and d: "d \<noteq> -1" "mode = 0 \<Longrightarrow> 0 \<le> d \<and> d < 64"
  shows "nfp6000_decode_basic addr' tgt mode a40 isld1 isld0 = Inr d"
proof (cases "mode \<in> {0, 1, 2, 3} \<and> tgt = NFP6000_CPPTGT_VQDR \<and> \<not> a40")
  case True
  then show ?thesis using enc d(1)
    by (auto simp: nfp6000_encode_basic_def vqdr_check_def cpptgt_defs split: sum.splits if_splits)
next
  case False
  have tgt: "\<not> (tgt = NFP6000_CPPTGT_MU \<or> tgt = NFP6000_CPPTGT_CTXPB)"
    using enc by (auto simp: nfp6000_encode_basic_def)
  note e = enc [unfolded nfp6000_encode_basic_def if_not_P [OF tgt] if_not_P [OF False]]
  have mode: "mode \<in> {0, 1, 2, 3}" using e by (auto split: if_splits)
  let ?idx = "if a40 then 39 else 31 :: nat"
  have idx: "?idx < 64" by simp
  consider "mode = 0" | "mode = 1" | "mode = 2" | "mode = 3" using mode by auto
  then show ?thesis
  proof cases
    case 1
    then show ?thesis using e tgt d(2) iid_place_read [of "if a40 then 34 else 26" d addr]
      by (auto simp: nfp6000_decode_basic_def Let_def)
  next
    case 2
    then show ?thesis using e tgt clear_set_index [OF idx] test_mask_bit [OF idx]
      by (auto simp: nfp6000_decode_basic_def Let_def split: if_splits)
  next
    case 3
    then obtain i v where s: "isld_search d (isld0 AND NOT 1) (isld1 AND NOT 1) [0, 1] = Some (i, v)"
      and a: "addr' = isld_place addr ?idx (?idx - 1) i v"
      using e by (auto simp: Let_def split: option.splits)
    show ?thesis using 3 tgt isld_place_decode(1) [OF s, of "?idx - 1" ?idx 1 addr] test_mask_bit [OF idx]
      by (auto simp: nfp6000_decode_basic_def Let_def and_mask_fld a split: if_splits)
  next
    case 4
    then obtain i v where s: "isld_search d (isld0 AND NOT 3) (isld1 AND NOT 3) [0, 1, 2, 3] = Some (i, v)"
      and a: "addr' = isld_place addr ?idx (?idx - 2) i v"
      using e by (auto simp: Let_def split: option.splits)
    show ?thesis using 4 tgt isld_place_decode(1) [OF s, of "?idx - 2" ?idx 2 addr] test_mask_bit [OF idx]
      by (auto simp: nfp6000_decode_basic_def Let_def and_mask_fld a split: if_splits)
  qed
qed

text \<open>Writing below the locality bits does not change whether an address is direct.\<close>

lemma mu_direct_cong:
  "bit a l = bit b l \<Longrightarrow> bit a (Suc l) = bit b (Suc l) \<Longrightarrow> mu_direct a l = mu_direct b l"
  by (simp add: mu_direct_bits)

lemma iid_place_above:
  "l < 58 \<Longrightarrow> l + 6 \<le> n \<Longrightarrow> bit (iid_place a l d) n = bit a n"
  by (auto simp: iid_place_put bit_put_fld dest: bit_imp_le_length)

definition mu_locality :: "bool \<Rightarrow> nat" where
  "mu_locality a40 = (if a40 then 38 else 30)"

lemma decode_direct:
  assumes "l = (if a40 then 32 else 24)" "mode \<in> {0, 1, 2, 3}"
    "mode \<noteq> 0 \<longrightarrow> mu_direct addr (mu_locality a40)" "0 \<le> d" "d < 64"
  shows "nfp6000_decode_mu (iid_place addr l d) mode a40 isld1 isld0 = Inr d"
proof -
  have l: "l < 58" "l + 6 = mu_locality a40" using assms(1) by (simp_all add: mu_locality_def)
  have "mu_direct (iid_place addr l d) (mu_locality a40) = mu_direct addr (mu_locality a40)"
    using l by (intro mu_direct_cong iid_place_above) auto
  then show ?thesis using assms iid_place_read [OF l(1) assms(4,5)]
    by (auto simp: nfp6000_decode_mu_def nfp6000_cppat_mu_locality_lsb_def mu_locality_def Let_def)
qed

lemma decode_indirect:
  assumes "idx = (if a40 then 37 else 29)" "mode \<in> {1, 2, 3}"
    "\<not> mu_direct addr (mu_locality a40)" "\<And>n. idx < n \<Longrightarrow> bit addr' n = bit addr n"
  shows "nfp6000_decode_mu addr' mode a40 isld1 isld0 =
    Inr (if mode = 1 then if bit addr' idx then isld1 else isld0
         else if mode = 2 then (if bit addr' idx then isld1 AND NOT 1 else isld0 AND NOT 1)
                OR uint (fld (idx - 1) 1 addr')
         else (if bit addr' idx then isld1 AND NOT 3 else isld0 AND NOT 3)
                OR uint (fld (idx - 2) 2 addr'))"
proof -
  have i: "idx < 64" "Suc idx = mu_locality a40" using assms(1) by (simp_all add: mu_locality_def)
  have "\<not> mu_direct addr' (mu_locality a40)"
    using assms(3,4) i(2) mu_direct_cong [of addr' "mu_locality a40" addr] by auto
  then show ?thesis using assms(1,2) test_mask_bit [OF i(1), of addr']
    by (auto simp: nfp6000_decode_mu_def nfp6000_cppat_mu_locality_lsb_def mu_locality_def Let_def
        and_mask_fld)
qed

lemma decode_encode_mu:
  assumes enc: "nfp6000_encode_mu addr d mode a40 isld1 isld0 = Inr addr'"
    and d: "0 \<le> d" "d < 64"
    and loc: "mode = 3 \<Longrightarrow> 0 < d \<and> (d < 24 \<or> 26 < d) \<Longrightarrow> \<not> bit addr (mu_locality a40)"
  shows "nfp6000_decode_mu addr' mode a40 isld1 isld0 = Inr d"
proof -
  have mode: "mode \<in> {0, 1, 2, 3}"
    using enc by (auto simp: nfp6000_encode_mu_def nfp6000_cppat_mu_locality_lsb_def split: if_splits)
  then have lsb: "nfp6000_cppat_mu_locality_lsb mode a40 = Inr (mu_locality a40)"
    by (auto simp: nfp6000_cppat_mu_locality_lsb_def mu_locality_def)
  note e = enc [unfolded nfp6000_encode_mu_def lsb sum.case Let_def]
  let ?idx = "if a40 then 37 else 29 :: nat" and ?l = "if a40 then 32 else 24 :: nat"
  have idx: "?idx < 64" "?idx - 1 < ?idx" "?idx - 2 < ?idx"
    "?idx - (?idx - 1) = 1" "?idx - (?idx - 2) = 2" by simp_all
  note dir = decode_direct [OF refl mode _ d]
  consider "mode = 0" | "mode \<noteq> 0" "mu_direct addr (mu_locality a40)"
    "\<not> (mode = 3 \<and> 0 < d \<and> (d < 24 \<or> 26 < d))"
    | "mode = 3" "0 < d \<and> (d < 24 \<or> 26 < d)"
    | "mode \<noteq> 0" "\<not> mu_direct addr (mu_locality a40)" "\<not> (mode = 3 \<and> 0 < d \<and> (d < 24 \<or> 26 < d))"
    by blast
  then show ?thesis
  proof cases
    case 1
    then show ?thesis using e dir [of addr a40] by auto
  next
    case 2
    then have "addr' = iid_place addr ?l d" using e mode by (auto split: if_splits)
    then show ?thesis using dir [of addr a40] 2 by simp
  next
    case 3
    let ?a = "addr OR push_bit (mu_locality a40) NIC_NFP6000_MU_LOCALITY_DIRECT"
    have "mu_direct ?a (mu_locality a40)"
      using loc [OF 3] by (auto simp: mu_direct_bits NIC_NFP6000_MU_LOCALITY_DIRECT_def bit_or_iff
          bit_push_bit_iff bit_2_iff mu_locality_def)
    moreover have "addr' = iid_place ?a ?l d" using e 3 by (auto split: if_splits)
    ultimately show ?thesis using dir [of ?a a40] by simp
  next
    case 4
    note ind = decode_indirect [OF refl _ 4(2)]
    consider "mode = 1" | "mode = 2" | "mode = 3" using mode 4(1) by auto
    then show ?thesis
    proof cases
      case 1
      then have "d = isld0 \<and> addr' = addr AND NOT (nic_mask64 ?idx ?idx False) \<or>
          d = isld1 \<and> addr' = addr OR push_bit ?idx 1"
        using e 4(2) by (auto split: if_splits)
      then show ?thesis using 1 ind [of mode addr' isld1 isld0] clear_set_index [OF idx(1)]
        by (auto split del: if_split)
    next
      case 2
      then obtain i v where s: "isld_search d (isld0 AND NOT 1) (isld1 AND NOT 1) [0, 1] = Some (i, v)"
        and a: "addr' = isld_place addr ?idx (?idx - 1) i v"
        using e 4(2) by (auto split: option.splits)
      note p = isld_place_decode [OF s idx(2,1,4), where a = addr]
      show ?thesis using 2 p ind [of mode addr' isld1 isld0] by (simp add: a split del: if_split)
    next
      case 3
      then obtain i v where s: "isld_search d (isld0 AND NOT 3) (isld1 AND NOT 3) [0, 1, 2, 3] = Some (i, v)"
        and a: "addr' = isld_place addr ?idx (?idx - 2) i v"
        using e 4(2,3) by (auto split: option.splits)
      note p = isld_place_decode [OF s idx(3,1,5), where a = addr]
      show ?thesis using 3 p ind [of mode addr' isld1 isld0] by (simp add: a split del: if_split)
    qed
  qed
qed

lemma decode_encode_addr:
  assumes enc: "nfp6000_cppat_addr_encode addr d tgt mode a40 isld1 isld0 = Inr addr'"
    and d: "0 \<le> d" "d < 64"
    and loc: "tgt = NFP6000_CPPTGT_MU \<Longrightarrow> mode = 3 \<Longrightarrow> 0 < d \<and> (d < 24 \<or> 26 < d) \<Longrightarrow>
      \<not> bit addr (mu_locality a40)"
  shows "nfp6000_cppat_addr_decode addr' tgt mode a40 isld1 isld0 = Inr d"
proof -
  consider "basic_target tgt" | "tgt = NFP6000_CPPTGT_MU" "\<not> basic_target tgt"
    | "tgt = NFP6000_CPPTGT_CTXPB" "\<not> basic_target tgt" "tgt \<noteq> NFP6000_CPPTGT_MU"
    using enc by (auto simp: nfp6000_cppat_addr_encode_def split: if_splits)
  then show ?thesis
  proof cases
    case 1
    then show ?thesis using enc d decode_encode_basic [of addr d tgt mode a40 isld1 isld0 addr']
      by (simp add: nfp6000_cppat_addr_encode_def nfp6000_cppat_addr_decode_def)
  next
    case 2
    then show ?thesis using enc d loc decode_encode_mu [of addr d mode a40 isld1 isld0 addr']
      by (simp add: nfp6000_cppat_addr_encode_def nfp6000_cppat_addr_decode_def)
  next
    case 3
    then have "addr' = iid_place addr 24 d" "mode = 1" "\<not> a40"
      using enc by (auto simp: nfp6000_cppat_addr_encode_def split: if_splits)
    then show ?thesis using 3 d iid_place_read [of 24 d addr]
      by (simp add: nfp6000_cppat_addr_decode_def)
  qed
qed

text \<open>The decoder reads the two upper bits of a placed island as the low bits of a mode 3 island, and
  the highest one as the index.\<close>

lemma iid_place_mode3:
  assumes "l < 58" "0 \<le> d" "d < 64"
  shows "bit (iid_place a l d) (l + 5) \<longleftrightarrow> 32 \<le> d"
    "uint (fld (l + 3) 2 (iid_place a l d)) = d div 8 mod 4"
proof -
  let ?x = "iid_place a l d"
  have f: "fld l 6 ?x = word_of_int d"
    using assms iid_place_read [OF assms, of a] by (simp add: and_mask_fld) (metis word_of_int_uint)
  have "bit ?x (l + 5) \<longleftrightarrow> bit (fld l 6 ?x) 5" by (simp add: bit_fld)
  also have "\<dots> \<longleftrightarrow> bit d 5" unfolding f by (simp add: bit_word_of_int_iff)
  also have "\<dots> \<longleftrightarrow> 32 \<le> d" using assms(2,3) by (simp add: bit_iff_odd) presburger
  finally show "bit ?x (l + 5) \<longleftrightarrow> 32 \<le> d" .
  have "fld (l + 3) 2 ?x = fld 3 2 (fld l 6 ?x)"
    by (intro bit_word_eqI) (auto simp: bit_fld ac_simps)
  also have "\<dots> = take_bit 2 (drop_bit 3 (word_of_int d))" unfolding f by (simp add: fld_def)
  finally show "uint (fld (l + 3) 2 ?x) = d div 8 mod 4" using assms(2,3)
    by (simp add: unsigned_take_bit_eq uint_word_of_int drop_bit_eq_div take_bit_eq_mod unsigned_drop_bit_eq uint_div uint_mod)
qed

text \<open>The encoder of mode 3 forces direct locality with an \<open>or\<close>: where the lower locality bit is set the
  address does not become direct, and it decodes to an island of the index.\<close>

lemma decode_not_forced:
  assumes enc: "nfp6000_encode_mu addr d 3 a40 isld1 isld0 = Inr addr'"
    and d: "0 < d" "d < 24 \<or> 26 < d" "d < 64" and loc: "bit addr (mu_locality a40)"
  shows "nfp6000_decode_mu addr' 3 a40 isld1 isld0 =
    Inr ((if 32 \<le> d then isld1 AND NOT 3 else isld0 AND NOT 3) OR d div 8 mod 4)"
proof -
  let ?l = "if a40 then 32 else 24 :: nat" and ?idx = "if a40 then 37 else 29 :: nat"
  let ?a = "addr OR push_bit (mu_locality a40) NIC_NFP6000_MU_LOCALITY_DIRECT"
  have a: "addr' = iid_place ?a ?l d" using enc d(1,2)
    by (auto simp: nfp6000_encode_mu_def nfp6000_cppat_mu_locality_lsb_def mu_locality_def Let_def split: if_splits)
  have l: "?l < 58" "?idx = ?l + 5" "?idx - 2 = ?l + 3" by simp_all
  have nd: "\<not> mu_direct ?a (mu_locality a40)" using loc by (simp add: mu_direct_bits bit_or_iff)
  have up: "bit addr' n = bit ?a n" if "?idx < n" for n unfolding a using l(1) that by (intro iid_place_above) auto
  note p = iid_place_mode3 [OF l(1) less_imp_le [OF d(1)] d(3), of ?a, folded a l(2,3)]
  show ?thesis using decode_indirect [OF refl _ nd up, of 3 isld1 isld0] p by simp
qed


lemma decode_encode_all:
  assumes enc: "nfp6000_cppat_addr_encode addr d tgt mode a40 isld1 isld0 = Inr addr'"
    and d: "0 \<le> d" "d < 64"
  shows "nfp6000_cppat_addr_decode addr' tgt mode a40 isld1 isld0 = Inr
    (if tgt = NFP6000_CPPTGT_MU \<and> mode = 3 \<and> 0 < d \<and> (d < 24 \<or> 26 < d) \<and> bit addr (mu_locality a40)
     then (if 32 \<le> d then isld1 AND NOT 3 else isld0 AND NOT 3) OR d div 8 mod 4 else d)"
proof (cases "tgt = NFP6000_CPPTGT_MU \<and> mode = 3 \<and> 0 < d \<and> (d < 24 \<or> 26 < d) \<and> bit addr (mu_locality a40)")
  case True
  then have t: "tgt = NFP6000_CPPTGT_MU" "mode = 3" "\<not> basic_target tgt" by (auto simp: basic_target_def cpptgt_defs)
  then have "nfp6000_encode_mu addr d 3 a40 isld1 isld0 = Inr addr'"
    using enc by (simp add: nfp6000_cppat_addr_encode_def)
  from decode_not_forced [OF this] True d(2) show ?thesis
    using t(3) by (simp add: nfp6000_cppat_addr_decode_def)
next
  case False
  show ?thesis unfolding if_not_P [OF False] by (rule decode_encode_addr [OF enc d]) (use False in blast)
qed

section \<open>Clearing the island\<close>

lemma and_not_idem: "(a AND NOT m) AND NOT m = (a AND NOT m :: u64)"
  by (simp add: and.assoc)

lemma push_0x3F: "l < 58 \<Longrightarrow> push_bit l (0x3F :: u64) = nic_mask64 (l + 5) l False"
  by (simp add: nic_mask64_field mask_eq_exp_minus_1)

lemma index_set_clear: "k < 64 \<Longrightarrow> (a AND NOT (nic_mask64 k k False)) OR push_bit k 1 = a OR push_bit k 1"
  by (rule bit_word_eqI)
    (auto simp: bit_or_iff bit_and_iff bit_not_iff_eq bit_nic_mask64 bit_push_bit_iff bit_1_iff bit_exp_iff)

text \<open>The bits that are cleared are the bits an encoding writes.\<close>

lemma encode_after_clear:
  assumes "basic_target tgt" "tgt \<noteq> NFP6000_CPPTGT_VQDR \<or> a40" "mode \<in> {0, 1, 2, 3}"
    "nfp6000_cppat_addr_iid_clear addr tgt mode a40 = Inr addr'"
  shows "nfp6000_cppat_addr_encode addr' d tgt mode a40 isld1 isld0 =
    nfp6000_cppat_addr_encode addr d tgt mode a40 isld1 isld0"
proof -
  let ?idx = "if a40 then 39 else 31 :: nat"
  have t: "\<not> (tgt = NFP6000_CPPTGT_MU \<or> tgt = NFP6000_CPPTGT_CTXPB)"
    "\<not> (mode \<in> {0, 1, 2, 3} \<and> tgt = NFP6000_CPPTGT_VQDR \<and> \<not> a40)"
    using assms(1,2) by (auto simp: basic_target_def cpptgt_defs)
  have enc: "nfp6000_cppat_addr_encode x d tgt mode a40 isld1 isld0 =
     (if mode = 0 then Inr (iid_place x (if a40 then 34 else 26) d)
      else if mode = 1 then
        if d = isld0 then Inr (x AND NOT (nic_mask64 ?idx ?idx False))
        else if d = isld1 then Inr (x OR push_bit ?idx 1) else Inl (RetErrno ENODEV)
      else if mode = 2 then
        (case isld_search d (isld0 AND NOT 1) (isld1 AND NOT 1) [0, 1] of
           Some (i, v) \<Rightarrow> Inr (isld_place x ?idx (?idx - 1) i v) | None \<Rightarrow> Inl (RetErrno ENODEV))
      else
        (case isld_search d (isld0 AND NOT 3) (isld1 AND NOT 3) [0, 1, 2, 3] of
           Some (i, v) \<Rightarrow> Inr (isld_place x ?idx (?idx - 2) i v) | None \<Rightarrow> Inl (RetErrno ENODEV)))" for x
    using assms(1,3) t by (auto simp: nfp6000_cppat_addr_encode_def nfp6000_encode_basic_def Let_def split: option.split)
  have cl: "addr' = addr AND NOT
     (if mode = 0 then nic_mask64 ((if a40 then 34 else 26) + 5) (if a40 then 34 else 26) False
      else if mode = 1 then nic_mask64 ?idx ?idx False
      else if mode = 2 then nic_mask64 ?idx (?idx - 1) False else nic_mask64 ?idx (?idx - 2) False)"
    using assms(1,3,4) push_0x3F [of 34] push_0x3F [of 26]
    by (cases a40) (auto simp: nfp6000_cppat_addr_iid_clear_def Let_def)
  consider "mode = 0" | "mode = 1" | "mode = 2" | "mode = 3" using assms(3) by auto
  then show ?thesis
  proof cases
    case 1
    then show ?thesis unfolding enc by (simp add: cl iid_place_def and_not_idem Let_def)
  next
    case 2
    then show ?thesis unfolding enc using index_set_clear [of ?idx addr] by (simp add: cl and_not_idem)
  next
    case 3
    then show ?thesis unfolding enc by (simp add: cl isld_place_def and_not_idem split: option.split)
  next
    case 4
    then show ?thesis unfolding enc by (simp add: cl isld_place_def and_not_idem split: option.split)
  qed
qed

text \<open>Two corners. A mode outside 0 to 3 is refused by encoder and decoder, but the clearing
  function falls through its switch and reports success. And in mode 3 the encoder sets the
  direct-locality bit with an \<open>or\<close>, so that an address whose lower locality bit is set does
  not become a direct one and decodes to another island.\<close>

lemma clear_bad_mode:
  assumes "basic_target tgt" "mode \<notin> {0, 1, 2, 3}"
  shows "nfp6000_cppat_addr_iid_clear addr tgt mode a40 = Inr addr"
    "nfp6000_cppat_addr_encode addr d tgt mode a40 i1 i0 = Inl (RetErrno EINVAL)"
    "nfp6000_cppat_addr_decode addr tgt mode a40 i1 i0 = Inl (RetErrno EINVAL)"
  using assms
  by (auto simp: nfp6000_cppat_addr_iid_clear_def nfp6000_cppat_addr_encode_def
      nfp6000_cppat_addr_decode_def nfp6000_encode_basic_def nfp6000_decode_basic_def
      nfp6000_cppat_mu_locality_lsb_def Let_def)

lemma mu_locality_or:
  "nfp6000_cppat_addr_encode (push_bit 38 1) 30 NFP6000_CPPTGT_MU 3 True 28 24 = Inr 0xDE00000000"
  "nfp6000_cppat_addr_decode 0xDE00000000 NFP6000_CPPTGT_MU 3 True 28 24 = Inr 27"
  by code_simp+

end
