(* ===== verification/Cpp_Target.thy ===== *)
theory Cpp_Target
  imports Cpp_At
begin

text \<open>
  Properties of CPP targets (user/nfpcore/nfp_target.h): which actions a target supports
  and how wide their pull and push data are, and the translation of an island address to a
  target address with the island mapping (IMB) table.
\<close>

section \<open>Pull and push widths\<close>

definition P32 :: int where "P32 = 1"
definition P64 :: int where "P64 = 2"

definition PUSHPULL :: "int \<Rightarrow> int \<Rightarrow> int" where
  "PUSHPULL pull push = push_bit 4 pull OR push_bit 0 push"

definition pushpull_width :: "int \<Rightarrow> c_fail + int" where
  "pushpull_width pp =
     (let pp = pp AND 0xf in if pp = 0 then Inl (RetErrno EINVAL) else Inr (push_bit (nat pp) 2))"

definition PUSH_WIDTH :: "int \<Rightarrow> c_fail + int" where
  "PUSH_WIDTH pp = pushpull_width (drop_bit 0 pp)"

definition PULL_WIDTH :: "int \<Rightarrow> c_fail + int" where
  "PULL_WIDTH pp = pushpull_width (drop_bit 4 pp)"

text \<open>The sources switch on action and token of the identifier. A switch is a table of
  (action, token, result) with a default.\<close>

definition action_key :: "u32 \<Rightarrow> u32" where
  "action_key cpp_id = cpp_id AND NFP_CPP_ID 0 (NOT 0) (NOT 0)"

definition action_switch :: "u32 \<Rightarrow> (u32 \<times> u32 \<times> int) list \<Rightarrow> c_fail + int \<Rightarrow> c_fail + int" where
  "action_switch cpp_id tbl dflt =
     (case map_of (map (\<lambda>(a, t, pp). (NFP_CPP_ID 0 a t, pp)) tbl) (action_key cpp_id) of
        Some pp \<Rightarrow> Inr pp
      | None \<Rightarrow> dflt)"

definition island_of :: "u32 \<Rightarrow> int" where
  "island_of cpp_id = uint (NFP_CPP_ID_ISLAND_of cpp_id)"

definition rw_table :: "int \<Rightarrow> (u32 \<times> u32 \<times> int) list" where
  "rw_table pp = [(0, 0, PUSHPULL 0 pp), (1, 0, PUSHPULL pp 0), (NFP_CPP_ACTION_RW, 0, PUSHPULL pp pp)]"

definition target_rw :: "u32 \<Rightarrow> int \<Rightarrow> int \<Rightarrow> int \<Rightarrow> c_fail + int" where
  "target_rw cpp_id pp start len =
     (let island = island_of cpp_id
      in if island \<noteq> 0 \<and> (island < start \<or> island > start + len) then Inl (RetErrno EINVAL)
         else action_switch cpp_id (rw_table pp) (Inl (RetErrno EINVAL)))"

section \<open>The targets\<close>

definition nfp6000_nbi_dma :: "u32 \<Rightarrow> c_fail + int" where
  "nfp6000_nbi_dma cpp_id = action_switch cpp_id (rw_table P64) (Inl (RetErrno EINVAL))"

definition nfp6000_nbi_stats :: "u32 \<Rightarrow> c_fail + int" where
  "nfp6000_nbi_stats cpp_id = action_switch cpp_id (rw_table P64) (Inl (RetErrno EINVAL))"

definition nfp6000_nbi_tm :: "u32 \<Rightarrow> c_fail + int" where
  "nfp6000_nbi_tm cpp_id = action_switch cpp_id (rw_table P64) (Inl (RetErrno EINVAL))"

definition nfp6000_nbi_ppc :: "u32 \<Rightarrow> c_fail + int" where
  "nfp6000_nbi_ppc cpp_id = action_switch cpp_id (rw_table P64) (Inl (RetErrno EINVAL))"

definition nfp6000_nbi :: "u32 \<Rightarrow> u64 \<Rightarrow> c_fail + int" where
  "nfp6000_nbi cpp_id address =
     (let island = island_of cpp_id; rel_addr = address AND 0x3fFFFF
      in if island \<noteq> 0 \<and> (island < 8 \<or> island > 9) then Inl (RetErrno EINVAL)
         else if rel_addr < push_bit 20 1 then nfp6000_nbi_dma cpp_id
         else if rel_addr < push_bit 20 2 then nfp6000_nbi_stats cpp_id
         else if rel_addr < push_bit 20 3 then nfp6000_nbi_tm cpp_id
         else nfp6000_nbi_ppc cpp_id)"

definition mu_common_table :: "(u32 \<times> u32 \<times> int) list" where
  "mu_common_table =
    [(NFP_CPP_ACTION_RW, 0, PUSHPULL P64 P64), (NFP_CPP_ACTION_RW, 1, PUSHPULL P64 P64),
     (NFP_CPP_ACTION_RW, 2, PUSHPULL P64 P64), (NFP_CPP_ACTION_RW, 3, PUSHPULL P64 P64),
     (0, 0, PUSHPULL 0 P64), (0, 1, PUSHPULL 0 P64), (0, 2, PUSHPULL 0 P64), (0, 3, PUSHPULL 0 P64),
     (1, 0, PUSHPULL P64 0), (1, 1, PUSHPULL P64 0), (1, 2, PUSHPULL P64 0), (1, 3, PUSHPULL P64 0),
     (3, 0, PUSHPULL 0 P32), (3, 2, PUSHPULL P32 0),
     (4, 0, PUSHPULL P32 0), (4, 2, PUSHPULL 0 0), (4, 3, PUSHPULL 0 P32),
     (5, 0, PUSHPULL P32 0), (5, 3, PUSHPULL 0 P32),
     (6, 0, PUSHPULL P32 0), (6, 3, PUSHPULL 0 P32),
     (7, 0, PUSHPULL P32 0), (7, 3, PUSHPULL 0 P32),
     (8, 0, PUSHPULL P32 0), (8, 3, PUSHPULL 0 P32),
     (9, 0, PUSHPULL P32 0), (9, 3, PUSHPULL 0 P32),
     (10, 0, PUSHPULL P32 0), (10, 3, PUSHPULL 0 P32),
     (13, 0, PUSHPULL 0 P32), (13, 1, PUSHPULL 0 P32), (13, 2, PUSHPULL P32 0),
     (15, 0, PUSHPULL P32 0), (15, 3, PUSHPULL 0 P32),
     (28, 0, PUSHPULL 0 P32), (28, 1, PUSHPULL 0 P32), (28, 2, PUSHPULL 0 P32), (28, 3, PUSHPULL 0 P32),
     (31, 0, PUSHPULL P32 0), (31, 1, PUSHPULL P32 0), (31, 2, PUSHPULL P32 0), (31, 3, PUSHPULL P32 0)]"

definition nfp6000_mu_common :: "u32 \<Rightarrow> c_fail + int" where
  "nfp6000_mu_common cpp_id = action_switch cpp_id mu_common_table (Inl (RetErrno EINVAL))"

definition nfp6000_mu_ctm :: "u32 \<Rightarrow> c_fail + int" where
  "nfp6000_mu_ctm cpp_id =
     action_switch cpp_id [(16, 1, PUSHPULL 0 P32)] (nfp6000_mu_common cpp_id)"

definition mu_emu_table :: "(u32 \<times> u32 \<times> int) list" where
  "mu_emu_table =
    [(18, 0, PUSHPULL 0 P32), (18, 1, PUSHPULL 0 P32), (18, 2, PUSHPULL P32 0), (18, 3, PUSHPULL P32 0),
     (20, 2, PUSHPULL P32 0),
     (21, 0, PUSHPULL 0 P32), (21, 1, PUSHPULL 0 P32), (21, 2, PUSHPULL 0 P32),
     (22, 0, PUSHPULL 0 P32), (22, 1, PUSHPULL 0 P32), (22, 2, PUSHPULL 0 P32)]"

definition nfp6000_mu_emu :: "u32 \<Rightarrow> c_fail + int" where
  "nfp6000_mu_emu cpp_id = action_switch cpp_id mu_emu_table (nfp6000_mu_common cpp_id)"

definition nfp6000_mu_imu :: "u32 \<Rightarrow> c_fail + int" where
  "nfp6000_mu_imu cpp_id = nfp6000_mu_common cpp_id"

definition nfp6000_mu :: "u32 \<Rightarrow> u64 \<Rightarrow> c_fail + int" where
  "nfp6000_mu cpp_id address =
     (let island = island_of cpp_id
      in if island = 0 then
           if address < 0x2000000000 then nfp6000_mu_ctm cpp_id
           else if address < 0x8000000000 then nfp6000_mu_emu cpp_id
           else if address < 0x9800000000 then nfp6000_mu_ctm cpp_id
           else if address < 0x9C00000000 then nfp6000_mu_emu cpp_id
           else if address < 0xA000000000 then nfp6000_mu_imu cpp_id
           else nfp6000_mu_ctm cpp_id
         else if island \<ge> 24 \<and> island \<le> 27 then nfp6000_mu_emu cpp_id
         else if island \<ge> 28 \<and> island \<le> 31 then nfp6000_mu_imu cpp_id
         else if island = 1 \<or> (island \<ge> 4 \<and> island \<le> 7) \<or> (island \<ge> 12 \<and> island \<le> 13)
              \<or> (island \<ge> 32 \<and> island \<le> 47) \<or> (island \<ge> 48 \<and> island \<le> 51)
           then nfp6000_mu_ctm cpp_id
         else Inl (RetErrno EINVAL))"

definition nfp6000_ila :: "u32 \<Rightarrow> c_fail + int" where
  "nfp6000_ila cpp_id =
     (let island = island_of cpp_id
      in if island \<noteq> 0 \<and> (island < 48 \<or> island > 51) then Inl (RetErrno EINVAL)
         else action_switch cpp_id [(0, 1, PUSHPULL 0 P32), (2, 0, PUSHPULL 0 P32), (3, 0, PUSHPULL P32 0)]
                (target_rw cpp_id P32 48 4))"

definition nfp6000_pci :: "u32 \<Rightarrow> c_fail + int" where
  "nfp6000_pci cpp_id =
     (let island = island_of cpp_id
      in if island \<noteq> 0 \<and> (island < 4 \<or> island > 7) then Inl (RetErrno EINVAL)
         else action_switch cpp_id [(2, 0, PUSHPULL 0 P32), (3, 0, PUSHPULL P32 0)]
                (target_rw cpp_id P32 4 4))"

definition nfp6000_crypto :: "u32 \<Rightarrow> c_fail + int" where
  "nfp6000_crypto cpp_id =
     (let island = island_of cpp_id
      in if island \<noteq> 0 \<and> (island < 12 \<or> island > 15) then Inl (RetErrno EINVAL)
         else action_switch cpp_id [(2, 0, PUSHPULL P64 0)] (target_rw cpp_id P64 12 4))"

definition cap_xpb_table :: "(u32 \<times> u32 \<times> int) list" where
  "cap_xpb_table =
    [(0, 1, PUSHPULL 0 P32), (0, 2, PUSHPULL P32 0), (1, 1, PUSHPULL P32 0), (1, 2, PUSHPULL P32 0),
     (2, 0, PUSHPULL 0 P32), (2, 1, PUSHPULL 0 P32), (2, 2, PUSHPULL 0 P32), (2, 3, PUSHPULL 0 P32),
     (3, 0, PUSHPULL P32 0), (3, 1, PUSHPULL P32 0), (3, 2, PUSHPULL P32 0), (3, 3, PUSHPULL P32 0),
     (NFP_CPP_ACTION_RW, 1, PUSHPULL P32 P32)]"

definition nfp6000_cap_xpb :: "u32 \<Rightarrow> c_fail + int" where
  "nfp6000_cap_xpb cpp_id =
     (let island = island_of cpp_id
      in if island \<noteq> 0 \<and> (island < 1 \<or> island > 63) then Inl (RetErrno EINVAL)
         else action_switch cpp_id cap_xpb_table (target_rw cpp_id P32 1 63))"

definition cls_table :: "(u32 \<times> u32 \<times> int) list" where
  "cls_table =
    [(0, 3, PUSHPULL P32 0), (2, 0, PUSHPULL P32 0), (2, 1, PUSHPULL P32 0), (4, 0, PUSHPULL P32 0),
     (4, 1, PUSHPULL P32 0), (6, 0, PUSHPULL P32 0), (6, 1, PUSHPULL P32 0), (6, 2, PUSHPULL P32 0),
     (8, 2, PUSHPULL P32 0), (8, 3, PUSHPULL P32 0),
     (9, 0, PUSHPULL 0 P32), (9, 1, PUSHPULL 0 P32), (9, 2, PUSHPULL 0 P32), (9, 3, PUSHPULL 0 P32),
     (10, 0, PUSHPULL P32 0), (10, 2, PUSHPULL P32 0), (14, 0, PUSHPULL P32 0), (15, 1, PUSHPULL 0 P32),
     (17, 2, PUSHPULL P32 0), (24, 0, PUSHPULL 0 P32), (24, 1, PUSHPULL P32 0),
     (25, 0, PUSHPULL 0 P32), (25, 1, PUSHPULL P32 0)]"

definition nfp6000_cls :: "u32 \<Rightarrow> c_fail + int" where
  "nfp6000_cls cpp_id =
     (let island = island_of cpp_id
      in if island \<noteq> 0 \<and> (island < 1 \<or> island > 63) then Inl (RetErrno EINVAL)
         else action_switch cpp_id cls_table (target_rw cpp_id P32 0 64))"

definition nfp6000_target_pushpull :: "u32 \<Rightarrow> u64 \<Rightarrow> c_fail + int" where
  "nfp6000_target_pushpull cpp_id address =
     (let tgt = uint (NFP_CPP_ID_TARGET_of cpp_id)
      in if tgt = NFP6000_CPPTGT_NBI then nfp6000_nbi cpp_id address
         else if tgt = NFP6000_CPPTGT_VQDR then target_rw cpp_id P32 24 4
         else if tgt = NFP6000_CPPTGT_ILA then nfp6000_ila cpp_id
         else if tgt = NFP6000_CPPTGT_MU then nfp6000_mu cpp_id address
         else if tgt = NFP6000_CPPTGT_PCIE then nfp6000_pci cpp_id
         else if tgt = NFP6000_CPPTGT_ARM then
           if address < 0x10000 then target_rw cpp_id P64 1 1 else target_rw cpp_id P32 1 1
         else if tgt = NFP6000_CPPTGT_CRYPTO then nfp6000_crypto cpp_id
         else if tgt = NFP6000_CPPTGT_CTXPB then nfp6000_cap_xpb cpp_id
         else if tgt = NFP6000_CPPTGT_CLS then nfp6000_cls cpp_id
         else if tgt = 0 then target_rw cpp_id P32 4 4
         else Inl (RetErrno EINVAL))"

definition nfp_target_pushpull_width :: "c_fail + int \<Rightarrow> bool \<Rightarrow> c_fail + int" where
  "nfp_target_pushpull_width pp write_not_read =
     (case pp of
        Inl e \<Rightarrow> Inl e
      | Inr pp \<Rightarrow> if write_not_read then PULL_WIDTH pp else PUSH_WIDTH pp)"

definition nfp6000_target_action_width :: "u32 \<Rightarrow> u64 \<Rightarrow> bool \<Rightarrow> c_fail + int" where
  "nfp6000_target_action_width cpp_id address write_not_read =
     nfp_target_pushpull_width (nfp6000_target_pushpull cpp_id address) write_not_read"

definition NFP_CPP_MODEL_CHIP_of :: "u32 \<Rightarrow> u32" where
  "NFP_CPP_MODEL_CHIP_of model = drop_bit 16 model AND 0xffff"

definition NFP_CPP_MODEL_IS_6000 :: "u32 \<Rightarrow> bool" where
  "NFP_CPP_MODEL_IS_6000 model \<longleftrightarrow>
     NFP_CPP_MODEL_CHIP_of model \<ge> 0x4000 \<and> NFP_CPP_MODEL_CHIP_of model < 0x7000"

definition nfp_target_action_width :: "u32 \<Rightarrow> u32 \<Rightarrow> u64 \<Rightarrow> bool \<Rightarrow> c_fail + int" where
  "nfp_target_action_width model cpp_id address write_not_read =
     (if NFP_CPP_MODEL_IS_6000 model then nfp6000_target_action_width cpp_id address write_not_read
      else Inl (RetErrno EINVAL))"

section \<open>Translation to a target address\<close>

text \<open>The IMB table has an entry per target; \<open>None\<close> is the null pointer.\<close>

definition nfp_target_cpp :: "u32 \<Rightarrow> u64 \<Rightarrow> (nat \<Rightarrow> u32) option \<Rightarrow> c_fail + u32 \<times> u64" where
  "nfp_target_cpp cpp_island_id cpp_island_address imb_table =
     (let island = island_of cpp_island_id;
          target = uint (NFP_CPP_ID_TARGET_of cpp_island_id)
      in if target < 0 \<or> target \<ge> 16 then Inl (RetErrno EINVAL)
         else if island = 0 then Inr (cpp_island_id, cpp_island_address)
         else case imb_table of
           None \<Rightarrow> Inl (RetErrno EINVAL)
         | Some tbl \<Rightarrow>
             let imb = tbl (nat target)
             in (case nfp6000_cppat_addr_encode cpp_island_address island target
                        (uint (drop_bit 13 imb AND 7)) (drop_bit 12 imb AND 1 \<noteq> 0)
                        (uint (drop_bit 6 imb AND 0x3f)) (uint (drop_bit 0 imb AND 0x3f)) of
                   Inl e \<Rightarrow> Inl e
                 | Inr a \<Rightarrow>
                     Inr (NFP_CPP_ID (word_of_int target) (ucast (NFP_CPP_ID_ACTION_of cpp_island_id))
                            (ucast (NFP_CPP_ID_TOKEN_of cpp_island_id)), a)))"

section \<open>Which widths there are\<close>

lemma pp_values [simp]:
  "PUSHPULL P64 P64 = 34" "PUSHPULL 0 P64 = 2" "PUSHPULL P64 0 = 32" "PUSHPULL 0 P32 = 1"
  "PUSHPULL P32 0 = 16" "PUSHPULL P32 P32 = 17" "PUSHPULL 0 0 = 0"
  by code_simp+

lemma cpp_id_parts:
  "NFP_CPP_ID_TOKEN_of (NFP_CPP_ID t a k) = ucast k" "NFP_CPP_ID_ACTION_of (NFP_CPP_ID t a k) = ucast a"
  by (simp_all add: cpp_id_island_0 cpp_island_id_fields)

lemma action_key_parts:
  "NFP_CPP_ID_TOKEN_of (action_key c) = NFP_CPP_ID_TOKEN_of c"
  "NFP_CPP_ID_ACTION_of (action_key c) = NFP_CPP_ID_ACTION_of c"
  by (rule bit_word_eqI;
      auto simp: action_key_def NFP_CPP_ID_TOKEN_of_def NFP_CPP_ID_ACTION_of_def NFP_CPP_ID_def and_masks
        bit_and_iff bit_or_iff bit_push_bit_iff bit_unsigned_iff bit_take_bit_iff bit_drop_bit_eq bit_not_iff_eq bit_mask_iff)+

text \<open>A switch takes the result of an entry with the identifier's action and token, or of its
  default.\<close>

lemma action_switch_entry:
  assumes "action_switch c tbl d = Inr pp"
  shows "(\<exists>a t. (a, t, pp) \<in> set tbl \<and> NFP_CPP_ID_ACTION_of c = ucast a \<and> NFP_CPP_ID_TOKEN_of c = ucast t)
    \<or> d = Inr pp"
proof (cases "map_of (map (\<lambda>(a, t, pp). (NFP_CPP_ID 0 a t, pp)) tbl) (action_key c)")
  case None
  then show ?thesis using assms by (simp add: action_switch_def)
next
  case (Some x)
  then have x: "x = pp" using assms by (simp add: action_switch_def)
  then obtain a t where "(a, t, pp) \<in> set tbl" "action_key c = NFP_CPP_ID 0 a t"
    using map_of_SomeD [OF Some] by auto
  then show ?thesis using action_key_parts [of c] cpp_id_parts [of 0 a t] by metis
qed

definition pp_ok :: "u32 \<Rightarrow> int \<Rightarrow> bool" where
  "pp_ok c pp \<longleftrightarrow> pp \<in> {0, 1, 2, 16, 17, 32, 34} \<and> (NFP_CPP_ID_ACTION_of c = 32 \<longrightarrow> pp \<in> {17, 34})"

definition tbl_ok :: "(u32 \<times> u32 \<times> int) list \<Rightarrow> bool" where
  "tbl_ok tbl \<longleftrightarrow> (\<forall>(a, t, pp)\<in>set tbl. pp \<in> {0, 1, 2, 16, 17, 32, 34} \<and> ((ucast a :: u8) = 32 \<longrightarrow> pp \<in> {17, 34}))"

lemma switch_ok:
  "action_switch c tbl d = Inr pp \<Longrightarrow> tbl_ok tbl \<Longrightarrow> (\<And>x. d = Inr x \<Longrightarrow> pp_ok c x) \<Longrightarrow> pp_ok c pp"
  using action_switch_entry [of c tbl d pp] unfolding tbl_ok_def pp_ok_def by auto

lemma tables_ok [simp]:
  "tbl_ok (rw_table P32)" "tbl_ok (rw_table P64)" "tbl_ok mu_common_table" "tbl_ok mu_emu_table"
  "tbl_ok cap_xpb_table" "tbl_ok cls_table" "tbl_ok [(16, 1, PUSHPULL 0 P32)]"
  "tbl_ok [(0, 1, PUSHPULL 0 P32), (2, 0, PUSHPULL 0 P32), (3, 0, PUSHPULL P32 0)]"
  "tbl_ok [(2, 0, PUSHPULL 0 P32), (3, 0, PUSHPULL P32 0)]" "tbl_ok [(2, 0, PUSHPULL P64 0)]"
  by (simp_all add: tbl_ok_def rw_table_def mu_common_table_def mu_emu_table_def cap_xpb_table_def
      cls_table_def NFP_CPP_ACTION_RW_def)

lemma target_rw_ok: "target_rw c pp s l = Inr x \<Longrightarrow> tbl_ok (rw_table pp) \<Longrightarrow> pp_ok c x"
  by (auto simp: target_rw_def Let_def split: if_splits elim!: switch_ok)

lemma mu_common_ok: "nfp6000_mu_common c = Inr x \<Longrightarrow> pp_ok c x"
  by (auto simp: nfp6000_mu_common_def elim!: switch_ok)

lemma mu_parts_ok:
  "nfp6000_mu_ctm c = Inr x \<Longrightarrow> pp_ok c x" "nfp6000_mu_emu c = Inr x \<Longrightarrow> pp_ok c x"
  "nfp6000_mu_imu c = Inr x \<Longrightarrow> pp_ok c x"
  using mu_common_ok
  by (auto simp: nfp6000_mu_ctm_def nfp6000_mu_emu_def nfp6000_mu_imu_def simp del: pp_values elim!: switch_ok)

lemma mu_ok: "nfp6000_mu c a = Inr x \<Longrightarrow> pp_ok c x"
  using mu_parts_ok [of c x] by (auto simp: nfp6000_mu_def Let_def split: if_splits)

lemma nbi_ok: "nfp6000_nbi c a = Inr x \<Longrightarrow> pp_ok c x"
  by (auto simp: nfp6000_nbi_def nfp6000_nbi_dma_def nfp6000_nbi_stats_def nfp6000_nbi_tm_def
      nfp6000_nbi_ppc_def Let_def split: if_splits elim!: switch_ok)

lemma other_targets_ok:
  "nfp6000_ila c = Inr x \<Longrightarrow> pp_ok c x" "nfp6000_pci c = Inr x \<Longrightarrow> pp_ok c x"
  "nfp6000_crypto c = Inr x \<Longrightarrow> pp_ok c x" "nfp6000_cap_xpb c = Inr x \<Longrightarrow> pp_ok c x"
  "nfp6000_cls c = Inr x \<Longrightarrow> pp_ok c x"
  by (auto simp: nfp6000_ila_def nfp6000_pci_def nfp6000_crypto_def nfp6000_cap_xpb_def nfp6000_cls_def
      Let_def simp del: pp_values split: if_splits elim!: switch_ok intro: target_rw_ok)

lemma target_pushpull_ok: "nfp6000_target_pushpull c a = Inr x \<Longrightarrow> pp_ok c x"
  using mu_ok [of c a x] nbi_ok [of c a x] other_targets_ok [of c x]
  by (auto simp: nfp6000_target_pushpull_def Let_def split: if_splits intro: target_rw_ok)

lemma width_values:
  "PULL_WIDTH 0 = Inl (RetErrno EINVAL)" "PULL_WIDTH 1 = Inl (RetErrno EINVAL)"
  "PULL_WIDTH 2 = Inl (RetErrno EINVAL)" "PULL_WIDTH 16 = Inr 4" "PULL_WIDTH 17 = Inr 4"
  "PULL_WIDTH 32 = Inr 8" "PULL_WIDTH 34 = Inr 8"
  "PUSH_WIDTH 0 = Inl (RetErrno EINVAL)" "PUSH_WIDTH 1 = Inr 4"
  "PUSH_WIDTH 2 = Inr 8" "PUSH_WIDTH 16 = Inl (RetErrno EINVAL)" "PUSH_WIDTH 17 = Inr 4"
  "PUSH_WIDTH 32 = Inl (RetErrno EINVAL)" "PUSH_WIDTH 34 = Inr 8"
  by code_simp+

lemma action_width_4_8:
  "nfp6000_target_action_width c a w = Inr x \<Longrightarrow> x = 4 \<or> x = 8"
  using target_pushpull_ok [of c a]
  by (auto simp: nfp6000_target_action_width_def nfp_target_pushpull_width_def pp_ok_def width_values
      split: sum.splits if_splits)

lemma action_width_rw:
  assumes "nfp6000_target_pushpull c a = Inr pp" "NFP_CPP_ID_ACTION_of c = 32"
  shows "\<exists>x. nfp6000_target_action_width c a True = Inr x \<and> nfp6000_target_action_width c a False = Inr x"
  using target_pushpull_ok [OF assms(1)] assms
  by (auto simp: nfp6000_target_action_width_def nfp_target_pushpull_width_def pp_ok_def width_values)

section \<open>Translation reaches the island\<close>

lemma island_of_bound: "0 \<le> island_of c" "island_of c < 256"
  using uint_lt2p [of "NFP_CPP_ID_ISLAND_of c"] by (simp_all add: island_of_def)

lemma target_cpp_island:
  assumes tr: "nfp_target_cpp c addr (Some tbl) = Inr (c', addr')"
    and isl: "island_of c \<noteq> 0" "island_of c < 64"
    and t: "target = uint (NFP_CPP_ID_TARGET_of c)" and imb: "imb = tbl (nat target)"
    and loc: "target = NFP6000_CPPTGT_MU \<Longrightarrow> drop_bit 13 imb AND 7 = 3 \<Longrightarrow>
       island_of c < 24 \<or> 26 < island_of c \<Longrightarrow>
       \<not> bit addr (mu_locality (drop_bit 12 imb AND 1 \<noteq> 0))"
  shows "nfp6000_cppat_addr_decode addr' target (uint (drop_bit 13 imb AND 7))
      (drop_bit 12 imb AND 1 \<noteq> 0) (uint (drop_bit 6 imb AND 0x3f)) (uint (drop_bit 0 imb AND 0x3f)) =
      Inr (island_of c)"
    "island_of c' = 0" "NFP_CPP_ID_ACTION_of c' = NFP_CPP_ID_ACTION_of c"
    "NFP_CPP_ID_TOKEN_of c' = NFP_CPP_ID_TOKEN_of c"
proof -
  have e: "nfp6000_cppat_addr_encode addr (island_of c) target (uint (drop_bit 13 imb AND 7))
      (drop_bit 12 imb AND 1 \<noteq> 0) (uint (drop_bit 6 imb AND 0x3f)) (uint (drop_bit 0 imb AND 0x3f)) = Inr addr'"
    and c': "c' = NFP_CPP_ID (word_of_int target) (ucast (NFP_CPP_ID_ACTION_of c)) (ucast (NFP_CPP_ID_TOKEN_of c))"
    using tr isl(1) unfolding nfp_target_cpp_def Let_def imb t
    by (auto split: if_splits sum.splits)
  have m: "drop_bit 13 imb AND 7 = 3" if "uint (drop_bit 13 imb AND 7) = 3"
    unfolding word_uint_eq_iff using that by simp
  show "nfp6000_cppat_addr_decode addr' target (uint (drop_bit 13 imb AND 7))
      (drop_bit 12 imb AND 1 \<noteq> 0) (uint (drop_bit 6 imb AND 0x3f)) (uint (drop_bit 0 imb AND 0x3f)) =
      Inr (island_of c)"
    by (rule decode_encode_addr [OF e]) (use isl island_of_bound [of c] loc m in auto)
  have u: "ucast (ucast (x :: u8) :: u32) = x" for x
    by (rule bit_word_eqI) (simp add: bit_unsigned_iff)
  show "island_of c' = 0" "NFP_CPP_ID_ACTION_of c' = NFP_CPP_ID_ACTION_of c"
    "NFP_CPP_ID_TOKEN_of c' = NFP_CPP_ID_TOKEN_of c"
    by (simp_all add: c' u island_of_def cpp_id_island_0 cpp_island_id_fields)
qed

lemma target_cpp_id: "island_of c = 0 \<Longrightarrow> uint (NFP_CPP_ID_TARGET_of c) < 16 \<Longrightarrow>
    nfp_target_cpp c addr tbl = Inr (c, addr)"
  by (simp add: nfp_target_cpp_def Let_def)

text \<open>The island test of \<open>target_rw\<close> admits one island too many: with four islands from 24
  on, island 28 passes.\<close>

lemma target_rw_bound: 
  "target_rw (NFP_CPP_ISLAND_ID 2 0 0 28) P32 24 4 = Inr (PUSHPULL 0 P32)"
  "target_rw (NFP_CPP_ISLAND_ID 2 0 0 29) P32 24 4 = Inl (RetErrno EINVAL)"
  by code_simp+
end
