(* ===== verification/Cpp_World.thy ===== *)
theory Cpp_World
  imports Cpp_Target Byte_Codec
begin

text \<open>
  The state the user-space driver (user/nfpcore) works on: the CPP handle (\<open>struct nfp_cpp\<close> of
  nfp_cpp.h), the PCIe transport's private data with its base address registers
  (nfp_cpp_pcie_ops.c), \<open>errno\<close>, the outcomes of future memory allocations and the hardware
  behind the mapped PCIe window. What a load or store in that window does is hardware and
  therefore an argument, the record \<open>mmio\<close>, over an arbitrary hardware state \<open>'h\<close>.

  Pointers into the window are 64-bit addresses with 0 for \<open>NULL\<close>; a \<open>struct nfp_bar *\<close> is an
  index into the array of the transport. Dereferencing \<open>NULL\<close> raises \<open>w_fault\<close>.
\<close>

section \<open>Structures\<close>

record nfp_bar =
  barcfg :: u32
  bar_base :: u64
  bar_mask :: u64
  bitsize :: u32
  bar_index :: nat
  bar_lock :: bool
  bar_csr :: u64
  bar_iomem :: u64

record nfp_pcie_user =
  bars :: "nfp_bar list"
  busdev :: string
  barsz :: int
  cfg :: u64

record nfp_cpp =
  model :: u32
  interface :: u32
  serial :: "u8 list"
  imb_cat_table :: "u32 list"
  driver_lock_needed :: bool

record nfp6000_area_priv =
  ap_bar :: "nat option"
  bar_offset :: u32
  ap_target :: u32
  ap_action :: u32
  ap_token :: u32
  ap_offset :: u64
  width_read :: int
  width_write :: int
  width_bar :: int
  ap_size :: u64
  ap_iomem :: u64

record nfp_cpp_area =
  area_name :: string
  area_offset :: u64
  area_size :: u64
  area_priv :: nfp6000_area_priv

section \<open>The world\<close>

record 'h mmio =
  io_rd32 :: "u64 \<Rightarrow> 'h \<Rightarrow> u32 \<times> 'h"
  io_wr32 :: "u64 \<Rightarrow> u32 \<Rightarrow> 'h \<Rightarrow> 'h"
  io_rd64 :: "u64 \<Rightarrow> 'h \<Rightarrow> u64 \<times> 'h"
  io_wr64 :: "u64 \<Rightarrow> u64 \<Rightarrow> 'h \<Rightarrow> 'h"

record 'h world =
  w_cpp :: nfp_cpp
  w_pcie :: nfp_pcie_user
  w_errno :: int
  w_mallocs :: "bool list"
  w_fault :: bool
  w_hw :: 'h

definition NFP_ERRNO :: "errno \<Rightarrow> 'h world \<Rightarrow> int \<times> 'h world" where
  "NFP_ERRNO e w = (-1, w\<lparr>w_errno := errno_code e\<rparr>)"

text \<open>The effect on \<open>errno\<close> and the number returned by a function that is modelled as a sum.\<close>

fun set_errno :: "c_fail + 'a \<Rightarrow> 'h world \<Rightarrow> 'h world" where
  "set_errno (Inl (RetErrno e)) w = w\<lparr>w_errno := errno_code e\<rparr>"
| "set_errno _ w = w"

fun c_int :: "c_fail + int \<Rightarrow> int" where
  "c_int (Inl f) = ret_code f"
| "c_int (Inr v) = v"

text \<open>\<open>malloc\<close> and \<open>calloc\<close>: the list gives the outcomes of the next calls, all later ones
  succeed. A failing call sets \<open>errno\<close>.\<close>

definition c_malloc :: "'h world \<Rightarrow> bool \<times> 'h world" where
  "c_malloc w =
     (case w_mallocs w of
        [] \<Rightarrow> (True, w)
      | ok # rest \<Rightarrow>
          (ok, if ok then w\<lparr>w_mallocs := rest\<rparr>
               else w\<lparr>w_mallocs := rest, w_errno := errno_code ENOMEM\<rparr>))"

definition null_deref :: "'h world \<Rightarrow> 'h world" where
  "null_deref w = w\<lparr>w_fault := True\<rparr>"

lemma world_set_errno [simp]:
  "w_cpp (set_errno r w) = w_cpp w" "w_pcie (set_errno r w) = w_pcie w"
  "w_fault (set_errno r w) = w_fault w" "w_hw (set_errno r w) = w_hw w"
  "w_mallocs (set_errno r w) = w_mallocs w"
  by (cases "(r, w)" rule: set_errno.cases; simp)+

lemma set_errno_Inr [simp]: "set_errno (Inr x) w = w"
  by simp

lemma world_c_malloc [simp]:
  "w_cpp (snd (c_malloc w)) = w_cpp w" "w_pcie (snd (c_malloc w)) = w_pcie w"
  "w_fault (snd (c_malloc w)) = w_fault w" "w_hw (snd (c_malloc w)) = w_hw w"
  by (simp_all add: c_malloc_def split: list.splits)

end
