(* ===== verification/Cpp_Bar.thy ===== *)
theory Cpp_Bar
  imports Cpp_World
begin

text \<open>
  The base address registers of the PCIe transport (first half of user/nfpcore/nfp_cpp_pcie_ops.c):
  how a BAR is configured for a CPP target, and the allocation of BARs to areas. A configured
  BAR reaches exactly the requested range, and its configuration word gives back what it was
  computed from.
\<close>

section \<open>The configuration word\<close>

definition NFP_PCIE_BAR :: "u64 \<Rightarrow> u64" where
  "NFP_PCIE_BAR pf = 0x30000 + (pf AND 7) * 0xc0"

definition PCIE2CPP_ACTION_BASEADDRESS :: "int \<Rightarrow> u32" where
  "PCIE2CPP_ACTION_BASEADDRESS x = push_bit 16 (word_of_int x AND 0x1f)"

definition PCIE2CPP_LENGTHSELECT :: "int \<Rightarrow> u32" where
  "PCIE2CPP_LENGTHSELECT x = push_bit 27 (word_of_int x AND 0x3)"

definition PCIE2CPP_MAPTYPE :: "int \<Rightarrow> u32" where
  "PCIE2CPP_MAPTYPE x = push_bit 29 (word_of_int x AND 0x7)"

definition PCIE2CPP_MAPTYPE_OF :: "u32 \<Rightarrow> u32" where
  "PCIE2CPP_MAPTYPE_OF x = drop_bit 29 x AND 0x7"

definition PCIE2CPP_TARGET_BASEADDRESS :: "int \<Rightarrow> u32" where
  "PCIE2CPP_TARGET_BASEADDRESS x = push_bit 23 (word_of_int x AND 0xf)"

definition PCIE2CPP_TOKEN_BASEADDRESS :: "int \<Rightarrow> u32" where
  "PCIE2CPP_TOKEN_BASEADDRESS x = push_bit 21 (word_of_int x AND 0x3)"

definition MAPTYPE_FIXED :: int where "MAPTYPE_FIXED = 0"
definition MAPTYPE_BULK :: int where "MAPTYPE_BULK = 1"
definition MAPTYPE_GENERAL :: int where "MAPTYPE_GENERAL = 3"

lemmas maptype_defs = MAPTYPE_FIXED_def MAPTYPE_BULK_def MAPTYPE_GENERAL_def

text \<open>Sizes of the three kinds of aperture, computed as C \<open>int\<close>s.\<close>

definition P2C_FIXED_SIZE :: "nfp_bar \<Rightarrow> u32" where
  "P2C_FIXED_SIZE bar = push_bit (unat (bitsize bar)) 1"

definition P2C_BULK_SIZE :: "nfp_bar \<Rightarrow> u32" where
  "P2C_BULK_SIZE bar = push_bit (unat (bitsize bar)) 1"

definition P2C_GENERAL_SIZE :: "nfp_bar \<Rightarrow> u32" where
  "P2C_GENERAL_SIZE bar = push_bit (unat (bitsize bar - 4)) 1"

definition P2C_GENERAL_TARGET_OFFSET :: "nfp_bar \<Rightarrow> u32 \<Rightarrow> u32" where
  "P2C_GENERAL_TARGET_OFFSET bar x = push_bit (unat (bitsize bar - 2)) x"

definition P2C_GENERAL_TOKEN_OFFSET :: "nfp_bar \<Rightarrow> u32 \<Rightarrow> u32" where
  "P2C_GENERAL_TOKEN_OFFSET bar x = push_bit (unat (bitsize bar - 4)) x"

definition CFG_BAR_PCIETOCPPEXPBAR :: "nat \<Rightarrow> nat \<Rightarrow> u64" where
  "CFG_BAR_PCIETOCPPEXPBAR bar slot = NFP_PCIE_BAR 0 + of_nat ((bar * 8 + slot) * 4)"

definition nfp_bar_maptype :: "nfp_bar \<Rightarrow> u32" where
  "nfp_bar_maptype bar = PCIE2CPP_MAPTYPE_OF (barcfg bar)"

section \<open>Computing a configuration\<close>

fun length_select :: "int \<Rightarrow> u32 option" where
  "length_select width =
     (if width = 8 then Some (PCIE2CPP_LENGTHSELECT 1)
      else if width = 4 then Some (PCIE2CPP_LENGTHSELECT 0)
      else if width = 0 then Some (PCIE2CPP_LENGTHSELECT 3)
      else None)"

definition nfp_compute_bar ::
  "nfp_bar \<Rightarrow> int \<Rightarrow> int \<Rightarrow> int \<Rightarrow> u64 \<Rightarrow> u64 \<Rightarrow> int \<Rightarrow> c_fail + u32 \<times> u64" where
  "nfp_compute_bar bar tgt act tok offset sz width =
     (if tgt \<ge> 16 then Inl (RetNeg EINVAL)
      else case length_select width of
        None \<Rightarrow> Inl (RetNeg EINVAL)
      | Some newcfg \<Rightarrow>
          if act \<noteq> uint NFP_CPP_ACTION_RW \<and> act \<noteq> 0 then
            let mask = scast (NOT (P2C_FIXED_SIZE bar - 1));
                newcfg = newcfg OR PCIE2CPP_MAPTYPE MAPTYPE_FIXED;
                newcfg = newcfg OR PCIE2CPP_TARGET_BASEADDRESS tgt;
                newcfg = newcfg OR PCIE2CPP_ACTION_BASEADDRESS act;
                newcfg = newcfg OR PCIE2CPP_TOKEN_BASEADDRESS tok
            in if offset AND mask \<noteq> (offset + sz - 1) AND mask then Inl (RetNeg EINVAL)
               else let offset = offset AND mask
                    in if bitsize bar < 40 - 16 then Inl (RetNeg EINVAL)
                       else Inr (newcfg OR ucast (drop_bit (40 - 16) offset), offset)
          else
            let mask = scast (NOT (P2C_BULK_SIZE bar - 1));
                newcfg = newcfg OR PCIE2CPP_MAPTYPE MAPTYPE_BULK;
                newcfg = newcfg OR PCIE2CPP_TARGET_BASEADDRESS tgt;
                newcfg = newcfg OR PCIE2CPP_TOKEN_BASEADDRESS tok
            in if offset AND mask \<noteq> (offset + sz - 1) AND mask then Inl (RetNeg EINVAL)
               else let offset = offset AND mask
                    in if bitsize bar < 40 - 21 then Inl (RetNeg EINVAL)
                       else Inr (newcfg OR ucast (drop_bit (40 - 21) offset), offset))"

definition nfp_bar_write ::
  "'h mmio \<Rightarrow> nat \<Rightarrow> u32 \<Rightarrow> 'h world \<Rightarrow> int \<times> 'h world" where
  "nfp_bar_write M b newcfg w =
     (let nfp = w_pcie w; bar = bars nfp ! b;
          base = bar_index bar div 8; slot = bar_index bar mod 8
      in if cfg nfp = 0 then (- errno_code ENOMEM, w)
         else let csr = cfg nfp + CFG_BAR_PCIETOCPPEXPBAR base slot;
                  bar = bar\<lparr>bar_csr := csr, barcfg := newcfg\<rparr>
              in (0, w\<lparr>w_hw := io_wr32 M csr newcfg (w_hw w),
                       w_pcie := nfp\<lparr>bars := (bars nfp)[b := bar]\<rparr>\<rparr>))"

definition nfp_reconfigure_bar ::
  "'h mmio \<Rightarrow> nat \<Rightarrow> int \<Rightarrow> int \<Rightarrow> int \<Rightarrow> u64 \<Rightarrow> u64 \<Rightarrow> int \<Rightarrow> 'h world \<Rightarrow> int \<times> 'h world" where
  "nfp_reconfigure_bar M b tgt act tok offset sz width w =
     (let nfp = w_pcie w
      in case nfp_compute_bar (bars nfp ! b) tgt act tok offset sz width of
           Inl e \<Rightarrow> (ret_code e, w)
         | Inr (newcfg, newbase) \<Rightarrow>
             nfp_bar_write M b newcfg
               (w\<lparr>w_pcie := nfp\<lparr>bars := (bars nfp)[b := (bars nfp ! b)\<lparr>bar_base := newbase\<rparr>]\<rparr>\<rparr>))"

section \<open>Allocation of BARs\<close>

text \<open>The loops run from \<open>start\<close> down to \<open>end + 1\<close> and use the entry below the counter.\<close>

datatype rte_proc_type = RTE_PROC_PRIMARY | RTE_PROC_SECONDARY

definition rte_eal_process_type :: rte_proc_type where
  "rte_eal_process_type = RTE_PROC_PRIMARY"

definition bar_counters :: "nat list" where
  "bar_counters = (if rte_eal_process_type = RTE_PROC_PRIMARY then [4, 3, 2] else [7, 6, 5])"

definition enable_bar :: "nat \<Rightarrow> nfp_pcie_user \<Rightarrow> nfp_pcie_user" where
  "enable_bar x nfp =
     (let bsz = (word_of_int (barsz nfp - 3) :: u32)
      in nfp\<lparr>bars := (bars nfp)[x - 1 :=
           \<lparr>barcfg = 0, bar_base = 0, bar_mask = scast (push_bit (unat bsz) 1 - 1 :: u32),
            bitsize = bsz, bar_index = x, bar_lock = False,
            bar_csr = cfg nfp + CFG_BAR_PCIETOCPPEXPBAR (x div 8) (x mod 8),
            bar_iomem = cfg nfp + scast (push_bit (unat bsz) (of_nat x) :: u32)\<rparr>]\<rparr>)"

definition nfp_enable_bars :: "nfp_pcie_user \<Rightarrow> nfp_pcie_user" where
  "nfp_enable_bars nfp = fold enable_bar bar_counters nfp"

definition nfp_alloc_bar :: "nfp_pcie_user \<Rightarrow> (nat \<times> nfp_pcie_user) option" where
  "nfp_alloc_bar nfp =
     (case find (\<lambda>x. \<not> bar_lock (bars nfp ! (x - 1))) bar_counters of
        None \<Rightarrow> None
      | Some x \<Rightarrow>
          let b = x - 1
          in Some (b, nfp\<lparr>bars := (bars nfp)[b := (bars nfp ! b)\<lparr>bar_lock := True\<rparr>]\<rparr>))"

definition disable_bar :: "nat \<Rightarrow> nfp_pcie_user \<Rightarrow> nfp_pcie_user" where
  "disable_bar x nfp =
     (let bar = bars nfp ! (x - 1)
      in if bar_iomem bar \<noteq> 0
         then nfp\<lparr>bars := (bars nfp)[x - 1 := bar\<lparr>bar_iomem := 0, bar_lock := False\<rparr>]\<rparr>
         else nfp)"

definition nfp_disable_bars :: "nfp_pcie_user \<Rightarrow> nfp_pcie_user" where
  "nfp_disable_bars nfp = fold disable_bar bar_counters nfp"

section \<open>What a configured BAR reaches\<close>

text \<open>How the device reads a configuration word: the kind of mapping, the width of an access,
  the target, the token and, for fixed mappings, the action, and the base of the aperture.\<close>

definition p2c_base :: "u32 \<Rightarrow> u64" where
  "p2c_base c =
     (if PCIE2CPP_MAPTYPE_OF c = word_of_int MAPTYPE_FIXED then push_bit 24 (ucast (fld 0 16 c))
      else push_bit 19 (ucast (fld 0 21 c)))"

definition p2c_action :: "u32 \<Rightarrow> u32" where
  "p2c_action c = (if PCIE2CPP_MAPTYPE_OF c = word_of_int MAPTYPE_FIXED then fld 16 5 c else 0)"

lemma and_7: "(w :: 'a::len word) AND 7 = take_bit 3 w"
  by (rule and_mask_take) (simp add: mask_eq_exp_minus_1)

lemma and_0xf: "(w :: 'a::len word) AND 0xf = take_bit 4 w"
  by (rule and_mask_take) (simp add: mask_eq_exp_minus_1)

lemmas bar_fields = PCIE2CPP_ACTION_BASEADDRESS_def PCIE2CPP_LENGTHSELECT_def PCIE2CPP_MAPTYPE_def
  PCIE2CPP_MAPTYPE_OF_def PCIE2CPP_TARGET_BASEADDRESS_def PCIE2CPP_TOKEN_BASEADDRESS_def
  and_7 and_0xf and_3 and_0x1f

lemma maptype_fld: "PCIE2CPP_MAPTYPE_OF c = fld 29 3 c"
  by (simp add: bar_fields fld_def)

lemma aperture_mask:
  assumes "n < 32"
  shows "scast (NOT (push_bit n 1 - 1 :: u32)) = (NOT (mask n) :: u64)"
proof -
  have "push_bit n 1 - 1 = (mask n :: u32)" by (simp add: mask_eq_exp_minus_1 push_bit_eq_mult)
  then show ?thesis using assms
    by (intro bit_word_eqI) (auto simp: bit_signed_iff bit_not_iff_eq bit_mask_iff min_def)
qed

lemma bulk_word:
  fixes b :: u64
  assumes "c = push_bit 27 (take_bit 2 l) OR push_bit 29 (take_bit 3 m) OR push_bit 23 (take_bit 4 t)
      OR push_bit 21 (take_bit 2 k) OR (ucast (drop_bit 19 b) :: u32)" and "take_bit 40 b = b"
  shows "fld 27 2 c = take_bit 2 l" "fld 29 3 c = take_bit 3 m" "fld 23 4 c = take_bit 4 t"
    "fld 21 2 c = take_bit 2 k" "fld 0 21 c = ucast (drop_bit 19 b)"
proof -
  have b: "bit b n \<Longrightarrow> n < 40" for n using assms(2) by (metis bit_take_bit_iff)
  have d: "bit (ucast (drop_bit 19 b) :: u32) n \<longleftrightarrow> n < 21 \<and> bit b (19 + n)" for n
    using b by (auto simp: bit_unsigned_iff bit_drop_bit_eq dest: bit_imp_le_length)
      (fastforce dest: b)
  show "fld 27 2 c = take_bit 2 l" "fld 29 3 c = take_bit 3 m" "fld 23 4 c = take_bit 4 t"
    "fld 21 2 c = take_bit 2 k" "fld 0 21 c = ucast (drop_bit 19 b)"
    unfolding assms(1)
    by (intro bit_word_eqI; auto simp: bit_fld bit_or_iff bit_push_bit_iff bit_take_bit_iff d
        dest: bit_imp_le_length)+
qed

lemma fixed_word:
  fixes b :: u64
  assumes "c = push_bit 27 (take_bit 2 l) OR push_bit 29 (take_bit 3 m) OR push_bit 23 (take_bit 4 t)
      OR push_bit 16 (take_bit 5 a) OR push_bit 21 (take_bit 2 k) OR (ucast (drop_bit 24 b) :: u32)"
    and "take_bit 40 b = b"
  shows "fld 27 2 c = take_bit 2 l" "fld 29 3 c = take_bit 3 m" "fld 23 4 c = take_bit 4 t"
    "fld 21 2 c = take_bit 2 k" "fld 16 5 c = take_bit 5 a" "fld 0 16 c = ucast (drop_bit 24 b)"
proof -
  have b: "bit b n \<Longrightarrow> n < 40" for n using assms(2) by (metis bit_take_bit_iff)
  have d: "bit (ucast (drop_bit 24 b) :: u32) n \<longleftrightarrow> n < 16 \<and> bit b (24 + n)" for n
    using b by (auto simp: bit_unsigned_iff bit_drop_bit_eq dest: bit_imp_le_length)
      (fastforce dest: b)
  show "fld 27 2 c = take_bit 2 l" "fld 29 3 c = take_bit 3 m" "fld 23 4 c = take_bit 4 t"
    "fld 21 2 c = take_bit 2 k" "fld 16 5 c = take_bit 5 a" "fld 0 16 c = ucast (drop_bit 24 b)"
    unfolding assms(1)
    by (intro bit_word_eqI; auto simp: bit_fld bit_or_iff bit_push_bit_iff bit_take_bit_iff d
        dest: bit_imp_le_length)+
qed

lemma aligned_base:
  fixes b :: u64
  assumes "b = x AND NOT (mask n)" "take_bit 40 x = x" "s \<le> n" "8 \<le> s"
  shows "push_bit s (ucast (ucast (drop_bit s b) :: u32)) = b" "take_bit 40 b = b"
proof -
  have x: "bit x k \<Longrightarrow> k < 40" for k using assms(2) by (metis bit_take_bit_iff)
  have b: "bit b k \<longleftrightarrow> bit x k \<and> n \<le> k" for k
    using x unfolding assms(1)
    by (auto simp: bit_and_iff bit_not_iff_eq bit_mask_iff dest: bit_imp_le_length)
  show "push_bit s (ucast (ucast (drop_bit s b) :: u32)) = b"
    using assms(3,4) x by (intro bit_word_eqI)
      (auto simp: bit_push_bit_iff bit_unsigned_iff bit_drop_bit_eq b, fastforce)
  show "take_bit 40 b = b" using x by (intro bit_word_eqI) (auto simp: bit_take_bit_iff b)
qed

lemma length_select_fld: "length_select width = Some l \<Longrightarrow> \<exists>x. l = push_bit 27 (take_bit 2 x)"
  unfolding length_select.simps PCIE2CPP_LENGTHSELECT_def and_3 by (metis option.distinct(1) option.inject)

text \<open>The base is the offset rounded down to the aperture, the last byte of the range is in the
  same aperture, and the device reads back base, target, token and action.\<close>

lemma compute_bar_reaches:
  fixes offset :: u64
  assumes ok: "nfp_compute_bar bar tgt act tok offset sz width = Inr (c, base)"
    and n: "unat (bitsize bar) < 32" and off: "take_bit 40 offset = offset"
  shows "base = offset AND NOT (mask (unat (bitsize bar)))" (is ?B)
    and "(offset + sz - 1) AND NOT (mask (unat (bitsize bar))) = base" (is ?L)
    and "p2c_base c = base" (is ?P)
    and "fld 23 4 c = take_bit 4 (word_of_int tgt)" (is ?T)
    and "fld 21 2 c = take_bit 2 (word_of_int tok)" (is ?K)
    and "p2c_action c = (if act = 32 \<or> act = 0 then 0 else take_bit 5 (word_of_int act))" (is ?A)
    and "tgt < 16" "19 \<le> unat (bitsize bar)"
    and "PCIE2CPP_MAPTYPE_OF c \<noteq> word_of_int MAPTYPE_GENERAL" (is ?G)
proof -
  let ?n = "unat (bitsize bar)"
  have m: "scast (NOT (P2C_FIXED_SIZE bar - 1)) = (NOT (mask ?n) :: u64)"
    "scast (NOT (P2C_BULK_SIZE bar - 1)) = (NOT (mask ?n) :: u64)"
    using aperture_mask [OF n] by (simp_all add: P2C_FIXED_SIZE_def P2C_BULK_SIZE_def)
  obtain ls where ls: "length_select width = Some (push_bit 27 (take_bit 2 ls))"
  proof (cases "length_select width")
    case None
    then show ?thesis using ok by (simp add: nfp_compute_bar_def split: if_splits)
  qed (use length_select_fld that in blast)
  have rw: "act \<noteq> uint NFP_CPP_ACTION_RW \<longleftrightarrow> act \<noteq> 32" by (simp add: NFP_CPP_ACTION_RW_def)
  show "tgt < 16" using ok by (simp add: nfp_compute_bar_def split: if_splits)
  show B: ?B and L: ?L using ok ls
    by (auto simp: nfp_compute_bar_def Let_def m simp del: length_select.simps split: if_splits)
  consider (bulk) "act = 32 \<or> act = 0"
      "c = push_bit 27 (take_bit 2 ls) OR push_bit 29 (take_bit 3 1)
        OR push_bit 23 (take_bit 4 (word_of_int tgt)) OR push_bit 21 (take_bit 2 (word_of_int tok))
        OR ucast (drop_bit 19 base)" "19 \<le> ?n"
    | (fixed) "\<not> (act = 32 \<or> act = 0)"
      "c = push_bit 27 (take_bit 2 ls) OR push_bit 29 (take_bit 3 0)
        OR push_bit 23 (take_bit 4 (word_of_int tgt)) OR push_bit 16 (take_bit 5 (word_of_int act))
        OR push_bit 21 (take_bit 2 (word_of_int tok)) OR ucast (drop_bit 24 base)" "24 \<le> ?n"
  proof (cases "act = 32 \<or> act = 0")
    case True
    with ok ls show ?thesis unfolding nfp_compute_bar_def rw
      by (intro bulk) (auto simp: Let_def m bar_fields maptype_defs word_less_nat_alt not_less or.assoc L B [symmetric]
        simp del: length_select.simps drop_bit_and split: if_splits)
  next
    case False
    with ok ls show ?thesis unfolding nfp_compute_bar_def rw
      by (intro fixed) (auto simp: Let_def m bar_fields maptype_defs word_less_nat_alt not_less or.assoc L B [symmetric]
        simp del: length_select.simps drop_bit_and split: if_splits)
  qed
  then have "?P \<and> ?T \<and> ?K \<and> ?A \<and> 19 \<le> ?n \<and> ?G"
  proof cases
    case bulk
    note f = bulk_word [OF bulk(2) aligned_base(2) [OF B off bulk(3)]]
    show ?thesis using bulk(1,3) f aligned_base(1) [OF B off bulk(3)]
      by (simp add: p2c_base_def p2c_action_def maptype_fld maptype_defs)
  next
    case fixed
    note f = fixed_word [OF fixed(2) aligned_base(2) [OF B off fixed(3)]]
    show ?thesis using fixed(1,3) f aligned_base(1) [OF B off fixed(3)]
      by (simp add: p2c_base_def p2c_action_def maptype_fld maptype_defs)
  qed
  then show ?P ?T ?K ?A "19 \<le> ?n" ?G by blast+
qed

end
