(* ===== verification/Cpp_Area.thy ===== *)
theory Cpp_Area
  imports Cpp_Bar
begin

text \<open>
  Areas of the PCIe transport (user/nfpcore/nfp_cpp_pcie_ops.c): a window on a CPP target through
  one BAR, with the operations that initialise, acquire, read, write and release it.
\<close>

section \<open>Setting up\<close>

definition nfp6000_area_init ::
  "'h mmio \<Rightarrow> u32 \<Rightarrow> u64 \<Rightarrow> u64 \<Rightarrow> nfp6000_area_priv \<Rightarrow> 'h world
     \<Rightarrow> int \<times> nfp6000_area_priv \<times> 'h world" where
  "nfp6000_area_init M dest address sz priv w =
     (let target = ucast (NFP_CPP_ID_TARGET_of dest);
          action = ucast (NFP_CPP_ID_ACTION_of dest);
          token = ucast (NFP_CPP_ID_TOKEN_of dest);
          pp = nfp6000_target_pushpull (NFP_CPP_ID target action token) address;
          w = set_errno pp w
      in case pp of
           Inl e \<Rightarrow> (ret_code e, priv, w)
         | Inr pp \<Rightarrow>
             let rd = PUSH_WIDTH pp; wr = PULL_WIDTH pp;
                 w = set_errno wr (set_errno rd w);
                 priv = priv\<lparr>width_read := c_int rd, width_write := c_int wr\<rparr>
             in if width_read priv > 0 \<and> width_write priv > 0 \<and> width_read priv \<noteq> width_write priv
                then (- errno_code EINVAL, priv, w)
                else
                  let priv = priv\<lparr>width_bar :=
                        (if width_read priv > 0 then width_read priv else width_write priv)\<rparr>
                  in case nfp_alloc_bar (w_pcie w) of
                       None \<Rightarrow> (- errno_code ENOMEM, priv\<lparr>ap_bar := None\<rparr>, w)
                     | Some (b, nfp) \<Rightarrow>
                         let priv = priv\<lparr>ap_bar := Some b, ap_target := target, ap_action := action,
                               ap_token := token, ap_offset := address, ap_size := sz\<rparr>;
                             (ret, w) = nfp_reconfigure_bar M b (sint target) (sint action) (sint token)
                               address sz (width_bar priv) (w\<lparr>w_pcie := nfp\<rparr>)
                         in (ret, priv, w))"

definition nfp6000_area_acquire ::
  "nfp6000_area_priv \<Rightarrow> 'h world \<Rightarrow> int \<times> nfp6000_area_priv \<times> 'h world" where
  "nfp6000_area_acquire priv w =
     (case ap_bar priv of
        None \<Rightarrow> (-1, priv, null_deref w)
      | Some b \<Rightarrow>
          let bar = bars (w_pcie w) ! b;
              priv = (if nfp_bar_maptype bar = word_of_int MAPTYPE_GENERAL
                then priv\<lparr>bar_offset :=
                       ucast (ap_offset priv AND scast (P2C_GENERAL_SIZE bar - 1))
                       + P2C_GENERAL_TARGET_OFFSET bar (ap_target priv)
                       + P2C_GENERAL_TOKEN_OFFSET bar (ap_token priv)\<rparr>
                else priv\<lparr>bar_offset := ucast (ap_offset priv AND bar_mask bar)\<rparr>)
          in if bar_iomem bar = 0 then (- errno_code ENOMEM, priv, w)
             else (0, priv\<lparr>ap_iomem := bar_iomem bar + ucast (bar_offset priv)\<rparr>, w))"

definition nfp6000_area_mapped :: "nfp6000_area_priv \<Rightarrow> u64" where
  "nfp6000_area_mapped priv = (if ap_iomem priv = 0 then 0 else ap_iomem priv)"

definition nfp6000_area_release ::
  "nfp6000_area_priv \<Rightarrow> 'h world \<Rightarrow> nfp6000_area_priv \<times> 'h world" where
  "nfp6000_area_release priv w =
     (case ap_bar priv of
        None \<Rightarrow> (priv, null_deref w)
      | Some b \<Rightarrow>
          let nfp = w_pcie w
          in (priv\<lparr>ap_bar := None, ap_iomem := 0\<rparr>,
              w\<lparr>w_pcie := nfp\<lparr>bars := (bars nfp)[b := (bars nfp ! b)\<lparr>bar_lock := False\<rparr>]\<rparr>\<rparr>))"

definition nfp6000_area_iomem :: "nfp6000_area_priv \<Rightarrow> u64" where
  "nfp6000_area_iomem priv = ap_iomem priv"

section \<open>Access\<close>

text \<open>The copy loops, one load or store per word.\<close>

fun rd32s :: "'h mmio \<Rightarrow> u64 \<Rightarrow> nat \<Rightarrow> 'h \<Rightarrow> u8 list \<times> 'h" where
  "rd32s M a 0 h = ([], h)"
| "rd32s M a (Suc n) h =
     (let (v, h) = io_rd32 M a h; (bs, h) = rd32s M (a + 4) n h in (le_bytes 4 v @ bs, h))"

fun rd64s :: "'h mmio \<Rightarrow> u64 \<Rightarrow> nat \<Rightarrow> 'h \<Rightarrow> u8 list \<times> 'h" where
  "rd64s M a 0 h = ([], h)"
| "rd64s M a (Suc n) h =
     (let (v, h) = io_rd64 M a h; (bs, h) = rd64s M (a + 8) n h in (le_bytes 8 v @ bs, h))"

fun wr32s :: "'h mmio \<Rightarrow> u64 \<Rightarrow> nat \<Rightarrow> u8 list \<Rightarrow> 'h \<Rightarrow> 'h" where
  "wr32s M a 0 bs h = h"
| "wr32s M a (Suc n) bs h = wr32s M (a + 4) n (drop 4 bs) (io_wr32 M a (le_word (take 4 bs)) h)"

fun wr64s :: "'h mmio \<Rightarrow> u64 \<Rightarrow> nat \<Rightarrow> u8 list \<Rightarrow> 'h \<Rightarrow> 'h" where
  "wr64s M a 0 bs h = h"
| "wr64s M a (Suc n) bs h = wr64s M (a + 8) n (drop 8 bs) (io_wr64 M a (le_word (take 8 bs)) h)"

text \<open>The checks that reads and writes share; \<open>Inr\<close> tells whether words of 64 bits are used.
  MU accesses with the read/write action are made in 32-bit words whatever the width.\<close>

definition area_access_check ::
  "int \<Rightarrow> nfp6000_area_priv \<Rightarrow> u64 \<Rightarrow> u32 \<Rightarrow> c_fail + bool" where
  "area_access_check width priv offset len =
     (if offset + ucast len > ap_size priv then Inl (RetNeg EFAULT)
      else if width \<le> 0 then Inl (RetNeg EINVAL)
      else if (ap_offset priv + offset) AND word_of_int (width - 1) \<noteq> 0 then Inl (RetNeg EINVAL)
      else
        let is_64 = (width = 8);
            is_64 = (if ap_target priv = 7 \<and> ap_action priv = NFP_CPP_ACTION_RW then False else is_64)
        in if is_64 then
             if offset mod 8 \<noteq> 0 \<or> len mod 8 \<noteq> 0 then Inl (RetNeg EINVAL)
             else if ap_bar priv = None then Inl (RetNeg EFAULT) else Inr True
           else
             if offset mod 4 \<noteq> 0 \<or> len mod 4 \<noteq> 0 then Inl (RetNeg EINVAL)
             else if ap_bar priv = None then Inl (RetNeg EFAULT) else Inr False)"

definition nfp6000_area_read ::
  "'h mmio \<Rightarrow> nfp6000_area_priv \<Rightarrow> u64 \<Rightarrow> u32 \<Rightarrow> 'h world \<Rightarrow> int \<times> u8 list \<times> 'h world" where
  "nfp6000_area_read M priv offset len w =
     (case area_access_check (width_read priv) priv offset len of
        Inl e \<Rightarrow> (ret_code e, [], w)
      | Inr is_64 \<Rightarrow>
          let (bs, h) = (if is_64 then rd64s M (ap_iomem priv + offset) (unat len div 8) (w_hw w)
                         else rd32s M (ap_iomem priv + offset) (unat len div 4) (w_hw w))
          in (sint len, bs, w\<lparr>w_hw := h\<rparr>))"

definition nfp6000_area_write ::
  "'h mmio \<Rightarrow> nfp6000_area_priv \<Rightarrow> u8 list \<Rightarrow> u64 \<Rightarrow> u32 \<Rightarrow> 'h world \<Rightarrow> int \<times> 'h world" where
  "nfp6000_area_write M priv buf offset len w =
     (case area_access_check (width_write priv) priv offset len of
        Inl e \<Rightarrow> (ret_code e, w)
      | Inr is_64 \<Rightarrow>
          let h = (if is_64 then wr64s M (ap_iomem priv + offset) (unat len div 8) buf (w_hw w)
                   else wr32s M (ap_iomem priv + offset) (unat len div 4) buf (w_hw w))
          in (sint len, w\<lparr>w_hw := h\<rparr>))"

end
