(* ===== verification/Cpp_Core.thy ===== *)
theory Cpp_Core
  imports Cpp_Area
begin

text \<open>
  The CPP core (user/nfpcore/nfp_cppcore.c) on top of the PCIe transport: areas, reads and writes
  of CPP targets, the XPB bus, and the start-up of a handle (with \<open>nfp6000_init\<close> and its helpers
  of nfp_cpp_pcie_ops.c). \<open>nfp_cpp_transport_operations\<close> always returns \<open>nfp6000_pcie_ops\<close>, whose
  entries are called directly; it has no \<open>area_cleanup\<close>.
\<close>

section \<open>The handle\<close>

definition nfp_cpp_model_set :: "u32 \<Rightarrow> 'h world \<Rightarrow> 'h world" where
  "nfp_cpp_model_set v w = w\<lparr>w_cpp := (w_cpp w)\<lparr>model := v\<rparr>\<rparr>"

definition nfp_cpp_interface_set :: "u32 \<Rightarrow> 'h world \<Rightarrow> 'h world" where
  "nfp_cpp_interface_set v w = w\<lparr>w_cpp := (w_cpp w)\<lparr>interface := v\<rparr>\<rparr>"

definition nfp_cpp_interface :: "'h world \<Rightarrow> u16" where
  "nfp_cpp_interface w = ucast (interface (w_cpp w))"

definition nfp_cpp_serial_set :: "u8 list \<Rightarrow> 'h world \<Rightarrow> int \<times> 'h world" where
  "nfp_cpp_serial_set s w =
     (let (ok, w) = c_malloc w
      in if \<not> ok then (-1, w) else (0, w\<lparr>w_cpp := (w_cpp w)\<lparr>serial := s\<rparr>\<rparr>))"

definition NFP_CPP_INTERFACE :: "u32 \<Rightarrow> u32 \<Rightarrow> u32 \<Rightarrow> u32" where
  "NFP_CPP_INTERFACE type unit channel =
     push_bit 12 (type AND 0xf) OR push_bit 8 (unit AND 0xf) OR push_bit 0 (channel AND 0xff)"

definition NFP_CPP_INTERFACE_TYPE_of :: "u32 \<Rightarrow> u32" where
  "NFP_CPP_INTERFACE_TYPE_of i = drop_bit 12 i AND 0xf"

definition NFP_CPP_INTERFACE_TYPE_ARM :: u32 where "NFP_CPP_INTERFACE_TYPE_ARM = 2"

section \<open>Areas\<close>

definition area_priv_zero :: nfp6000_area_priv where
  "area_priv_zero = \<lparr>ap_bar = None, bar_offset = 0, ap_target = 0, ap_action = 0, ap_token = 0,
     ap_offset = 0, width_read = 0, width_write = 0, width_bar = 0, ap_size = 0, ap_iomem = 0\<rparr>"

definition nfp_cpp_area_alloc_with_name ::
  "'h mmio \<Rightarrow> u32 \<Rightarrow> string \<Rightarrow> u64 \<Rightarrow> u64 \<Rightarrow> 'h world \<Rightarrow> nfp_cpp_area option \<times> 'h world" where
  "nfp_cpp_area_alloc_with_name M dest name address sz w =
     (if address + sz > push_bit 40 1 then (None, snd (NFP_ERRNO EFAULT w))
      else
        let r = nfp_target_cpp dest address (Some (\<lambda>i. imb_cat_table (w_cpp w) ! i));
            w = set_errno r w
        in case r of
             Inl e \<Rightarrow> (None, w)
           | Inr (dest, address) \<Rightarrow>
               let (ok, w) = c_malloc w
               in if \<not> ok then (None, w)
                  else
                    let tmp = w_errno w;
                        (err, priv, w) = nfp6000_area_init M dest address sz area_priv_zero w
                    in if err < 0 then (None, w)
                       else (Some \<lparr>area_name = name, area_offset = address, area_size = sz,
                                   area_priv = priv\<rparr>, w\<lparr>w_errno := tmp\<rparr>))"

definition nfp_cpp_area_alloc ::
  "'h mmio \<Rightarrow> u32 \<Rightarrow> u64 \<Rightarrow> u64 \<Rightarrow> 'h world \<Rightarrow> nfp_cpp_area option \<times> 'h world" where
  "nfp_cpp_area_alloc M dest address sz w = nfp_cpp_area_alloc_with_name M dest [] address sz w"

definition nfp_cpp_area_acquire :: "nfp_cpp_area \<Rightarrow> 'h world \<Rightarrow> int \<times> nfp_cpp_area \<times> 'h world" where
  "nfp_cpp_area_acquire area w =
     (let (err, priv, w) = nfp6000_area_acquire (area_priv area) w
      in (if err < 0 then -1 else 0, area\<lparr>area_priv := priv\<rparr>, w))"

definition nfp_cpp_area_release :: "nfp_cpp_area \<Rightarrow> 'h world \<Rightarrow> nfp_cpp_area \<times> 'h world" where
  "nfp_cpp_area_release area w =
     (let (priv, w) = nfp6000_area_release (area_priv area) w in (area\<lparr>area_priv := priv\<rparr>, w))"

text \<open>Freeing an area calls no operation of the transport: a BAR that is still locked stays so.\<close>

definition nfp_cpp_area_free :: "nfp_cpp_area \<Rightarrow> 'h world \<Rightarrow> 'h world" where
  "nfp_cpp_area_free area w = w"

definition nfp_cpp_area_release_free :: "nfp_cpp_area \<Rightarrow> 'h world \<Rightarrow> 'h world" where
  "nfp_cpp_area_release_free area w =
     (let (area, w) = nfp_cpp_area_release area w in nfp_cpp_area_free area w)"

definition nfp_cpp_area_alloc_acquire ::
  "'h mmio \<Rightarrow> u32 \<Rightarrow> u64 \<Rightarrow> u64 \<Rightarrow> 'h world \<Rightarrow> nfp_cpp_area option \<times> 'h world" where
  "nfp_cpp_area_alloc_acquire M destination address sz w =
     (case nfp_cpp_area_alloc M destination address sz w of
        (None, w) \<Rightarrow> (None, w)
      | (Some area, w) \<Rightarrow>
          let (err, area, w) = nfp_cpp_area_acquire area w
          in if err \<noteq> 0 then (None, nfp_cpp_area_free area w) else (Some area, w))"

definition nfp_cpp_area_iomem :: "nfp_cpp_area \<Rightarrow> u64" where
  "nfp_cpp_area_iomem area = nfp6000_area_iomem (area_priv area)"

definition nfp_cpp_area_mapped :: "nfp_cpp_area \<Rightarrow> u64" where
  "nfp_cpp_area_mapped area = nfp6000_area_mapped (area_priv area)"

definition nfp_cpp_area_read ::
  "'h mmio \<Rightarrow> nfp_cpp_area \<Rightarrow> u64 \<Rightarrow> u64 \<Rightarrow> 'h world \<Rightarrow> int \<times> u8 list \<times> 'h world" where
  "nfp_cpp_area_read M area offset len w =
     (if offset + len > area_size area then let (r, w) = NFP_ERRNO EFAULT w in (r, [], w)
      else nfp6000_area_read M (area_priv area) offset (ucast len) w)"

definition nfp_cpp_area_write ::
  "'h mmio \<Rightarrow> nfp_cpp_area \<Rightarrow> u64 \<Rightarrow> u8 list \<Rightarrow> u64 \<Rightarrow> 'h world \<Rightarrow> int \<times> 'h world" where
  "nfp_cpp_area_write M area offset buf len w =
     (if offset + len > area_size area then NFP_ERRNO EFAULT w
      else nfp6000_area_write M (area_priv area) buf offset (ucast len) w)"

definition nfp_cpp_area_check_range :: "nfp_cpp_area \<Rightarrow> u64 \<Rightarrow> u64 \<Rightarrow> 'h world \<Rightarrow> int \<times> 'h world" where
  "nfp_cpp_area_check_range area offset len w =
     (if offset + len > area_size area then NFP_ERRNO EFAULT w else (0, w))"

section \<open>Words in an area\<close>

text \<open>The value is 0 when the read fails: the temporary is initialised.\<close>

definition nfp_cpp_area_readl ::
  "'h mmio \<Rightarrow> nfp_cpp_area \<Rightarrow> u64 \<Rightarrow> 'h world \<Rightarrow> (int \<times> u32) \<times> 'h world" where
  "nfp_cpp_area_readl M area offset w =
     (let (sz, bs, w) = nfp_cpp_area_read M area offset 4 w
      in ((if sz = 4 then 0 else -1, le_word bs), w))"

definition nfp_cpp_area_writel ::
  "'h mmio \<Rightarrow> nfp_cpp_area \<Rightarrow> u64 \<Rightarrow> u32 \<Rightarrow> 'h world \<Rightarrow> int \<times> 'h world" where
  "nfp_cpp_area_writel M area offset v w =
     (let (sz, w) = nfp_cpp_area_write M area offset (le_bytes 4 v) 4 w
      in (if sz = 4 then 0 else -1, w))"

definition nfp_cpp_area_readq ::
  "'h mmio \<Rightarrow> nfp_cpp_area \<Rightarrow> u64 \<Rightarrow> 'h world \<Rightarrow> (int \<times> u64) \<times> 'h world" where
  "nfp_cpp_area_readq M area offset w =
     (let (sz, bs, w) = nfp_cpp_area_read M area offset 8 w
      in ((if sz = 8 then 0 else -1, le_word bs), w))"

definition nfp_cpp_area_writeq ::
  "'h mmio \<Rightarrow> nfp_cpp_area \<Rightarrow> u64 \<Rightarrow> u64 \<Rightarrow> 'h world \<Rightarrow> int \<times> 'h world" where
  "nfp_cpp_area_writeq M area offset v w =
     (let (sz, w) = nfp_cpp_area_write M area offset (le_bytes 8 v) 8 w
      in (if sz = 8 then 0 else -1, w))"

section \<open>Reads and writes of a target\<close>

definition nfp_cpp_read ::
  "'h mmio \<Rightarrow> u32 \<Rightarrow> u64 \<Rightarrow> u64 \<Rightarrow> 'h world \<Rightarrow> int \<times> u8 list \<times> 'h world" where
  "nfp_cpp_read M destination address len w =
     (case nfp_cpp_area_alloc_acquire M destination address len w of
        (None, w) \<Rightarrow> (-1, [], w)
      | (Some area, w) \<Rightarrow>
          let (err, bs, w) = nfp_cpp_area_read M area 0 len w
          in (err, bs, nfp_cpp_area_release_free area w))"

definition nfp_cpp_write ::
  "'h mmio \<Rightarrow> u32 \<Rightarrow> u64 \<Rightarrow> u8 list \<Rightarrow> u64 \<Rightarrow> 'h world \<Rightarrow> int \<times> 'h world" where
  "nfp_cpp_write M destination address buf len w =
     (case nfp_cpp_area_alloc_acquire M destination address len w of
        (None, w) \<Rightarrow> (-1, w)
      | (Some area, w) \<Rightarrow>
          let (err, w) = nfp_cpp_area_write M area 0 buf len w
          in (err, nfp_cpp_area_release_free area w))"

text \<open>The temporaries of these functions are not initialised: after a failed read the value is
  indeterminate, here \<open>Inl\<close>.\<close>

definition nfp_cpp_readl ::
  "'h mmio \<Rightarrow> u32 \<Rightarrow> u64 \<Rightarrow> 'h world \<Rightarrow> (c_fail + u32) \<times> 'h world" where
  "nfp_cpp_readl M cpp_id address w =
     (let (sz, bs, w) = nfp_cpp_read M cpp_id address 4 w
      in (if sz = 4 then Inr (le_word bs) else Inl RetFail, w))"

definition nfp_cpp_writel ::
  "'h mmio \<Rightarrow> u32 \<Rightarrow> u64 \<Rightarrow> u32 \<Rightarrow> 'h world \<Rightarrow> int \<times> 'h world" where
  "nfp_cpp_writel M cpp_id address v w =
     (let (sz, w) = nfp_cpp_write M cpp_id address (le_bytes 4 v) 4 w
      in (if sz = 4 then 0 else -1, w))"

definition nfp_cpp_readq ::
  "'h mmio \<Rightarrow> u32 \<Rightarrow> u64 \<Rightarrow> 'h world \<Rightarrow> (c_fail + u64) \<times> 'h world" where
  "nfp_cpp_readq M cpp_id address w =
     (let (sz, bs, w) = nfp_cpp_read M cpp_id address 8 w
      in (if sz = 8 then Inr (le_word bs) else Inl RetFail, w))"

definition nfp_cpp_writeq ::
  "'h mmio \<Rightarrow> u32 \<Rightarrow> u64 \<Rightarrow> u64 \<Rightarrow> 'h world \<Rightarrow> int \<times> 'h world" where
  "nfp_cpp_writeq M cpp_id address v w =
     (let (sz, w) = nfp_cpp_write M cpp_id address (le_bytes 8 v) 8 w
      in (if sz = 8 then 0 else -1, w))"

definition nfp_cpp_map_area ::
  "'h mmio \<Rightarrow> u32 \<Rightarrow> u32 \<Rightarrow> u64 \<Rightarrow> u64 \<Rightarrow> 'h world \<Rightarrow> (u64 \<times> nfp_cpp_area) option \<times> 'h world" where
  "nfp_cpp_map_area M domain target addr sz w =
     (let dest = NFP_CPP_ISLAND_ID target NFP_CPP_ACTION_RW 0 domain
      in case nfp_cpp_area_alloc_acquire M dest addr sz w of
           (None, w) \<Rightarrow> (None, w)
         | (Some area, w) \<Rightarrow>
             let res = nfp_cpp_area_iomem area
             in if res = 0 then (None, nfp_cpp_area_release_free area w)
                else (Some (res, area), w))"

end
