(* ===== verification/Cpp_Locks.thy ===== *)
theory Cpp_Locks
  imports Cpp_Core
begin

text \<open>
  The invariant of the transport's BARs, which every operation keeps, what a successful
  allocation of an area establishes, and the discipline of the BAR locks.
\<close>

section \<open>Well-formed BARs\<close>

text \<open>\<open>n\<close> is the binary logarithm of the aperture of one BAR; eight apertures make up the mapped
  window.\<close>

definition bar_geom :: "nat \<Rightarrow> u64 \<Rightarrow> nat \<Rightarrow> nfp_bar \<Rightarrow> bool" where
  "bar_geom n base x bar \<longleftrightarrow>
     bar_index bar = x \<and> unat (bitsize bar) = n \<and> bar_mask bar = mask n
     \<and> bar_iomem bar = base + of_nat (x * 2 ^ n)"

definition pcie_wf :: "nat \<Rightarrow> nfp_pcie_user \<Rightarrow> bool" where
  "pcie_wf n p \<longleftrightarrow>
     length (bars p) = 7 \<and> 19 \<le> n \<and> n \<le> 28 \<and> cfg p \<noteq> 0 \<and> unat (cfg p) + 8 * 2 ^ n \<le> 2 ^ 64
     \<and> bar_geom n (cfg p) 2 (bars p ! 1) \<and> bar_geom n (cfg p) 3 (bars p ! 2)
     \<and> bar_geom n (cfg p) 4 (bars p ! 3)"

definition bar_locks :: "'h world \<Rightarrow> bool list" where
  "bar_locks w = map bar_lock (bars (w_pcie w))"

lemma bar_counters_list: "bar_counters = [4, 3, 2]"
  by (simp add: bar_counters_def rte_eal_process_type_def)

lemma sint_small: "k < 2 ^ 31 \<Longrightarrow> sint (of_nat k :: u32) = int k"
  by (simp add: sint_uint unsigned_of_nat take_bit_nat_eq_self signed_take_bit_int_eq_self)

lemma push_32:
  assumes "n \<le> 28" "x \<le> 7"
  shows "scast (push_bit n (of_nat x) :: u32) = (of_nat (x * 2 ^ n) :: u64)"
proof -
  have p: "(2 :: nat) ^ n \<le> 2 ^ 28" using assms(1) by (rule power_increasing) simp
  have lt: "x * 2 ^ n < 2 ^ 31" using mult_le_mono [OF assms(2) p] by simp
  have "(push_bit n (of_nat x) :: u32) = of_nat (x * 2 ^ n)" by (simp add: push_bit_eq_mult)
  moreover have "sint (of_nat (x * 2 ^ n) :: u32) = int (x * 2 ^ n)"
    using sint_small [OF lt] .
  ultimately show ?thesis by (simp add: scast_eq)
qed

lemma mask_32:
  assumes "n \<le> 28"
  shows "scast (push_bit n 1 - 1 :: u32) = (mask n :: u64)"
proof -
  have "push_bit n 1 - 1 = (mask n :: u32)" by (simp add: mask_eq_exp_minus_1 push_bit_eq_mult)
  then show ?thesis using assms
    by (intro bit_word_eqI) (auto simp: bit_signed_iff bit_mask_iff min_def)
qed

lemma enable_bars_wf:
  assumes "length (bars p) = 7" "barsz p = int n + 3" "19 \<le> n" "n \<le> 28" "cfg p \<noteq> 0"
    "unat (cfg p) + 8 * 2 ^ n \<le> 2 ^ 64"
  shows "pcie_wf n (nfp_enable_bars p)"
    and "\<forall>b\<in>{1, 2, 3}. \<not> bar_lock (bars (nfp_enable_bars p) ! b)"
proof -
  have b: "unat (word_of_int (barsz p - 3) :: u32) = n"
    using assms(2,4) by (simp add: unsigned_of_nat take_bit_nat_eq_self)
  have s: "scast (push_bit n (4 :: u32)) = (of_nat (4 * 2 ^ n) :: u64)"
    "scast (push_bit n (3 :: u32)) = (of_nat (3 * 2 ^ n) :: u64)"
    "scast (push_bit n (2 :: u32)) = (of_nat (2 * 2 ^ n) :: u64)"
    using push_32 [OF assms(4), of 4] push_32 [OF assms(4), of 3] push_32 [OF assms(4), of 2] by simp_all
  note e = nfp_enable_bars_def bar_counters_list enable_bar_def Let_def
  show "pcie_wf n (nfp_enable_bars p)"
    using assms b s mask_32 [OF assms(4)]
    by (simp add: e pcie_wf_def bar_geom_def nth_list_update)
  show "\<forall>b\<in>{1, 2, 3}. \<not> bar_lock (bars (nfp_enable_bars p) ! b)"
    using assms(1) by (simp add: e nth_list_update)
qed

text \<open>An update of a BAR that keeps index, mask, size and mapping keeps the invariant.\<close>

lemma pcie_wf_upd:
  assumes "pcie_wf n p" "\<And>x. bar_geom n (cfg p) x (bars p ! b) \<Longrightarrow> bar_geom n (cfg p) x bar"
  shows "pcie_wf n (p\<lparr>bars := (bars p)[b := bar]\<rparr>)"
  using assms by (cases "b < 7") (auto simp: pcie_wf_def nth_list_update)

lemma pcie_wf_bar:
  assumes "pcie_wf n p" "b \<in> {1, 2, 3}"
  shows "bar_geom n (cfg p) (Suc b) (bars p ! b)"
proof -
  have "b = 1 \<or> b = 2 \<or> b = 3" using assms(2) by simp
  then have "bar_geom n (cfg p) (b + 1) (bars p ! b)"
    using assms(1) unfolding pcie_wf_def by (elim disjE) (simp_all flip: numeral_2_eq_2)
  then show ?thesis by simp
qed

lemma bar_geomD:
  assumes "bar_geom n base x bar"
  shows "bar_index bar = x" "unat (bitsize bar) = n" "bar_mask bar = mask n"
    "bar_iomem bar = base + of_nat (x * 2 ^ n)"
  using assms by (simp_all add: bar_geom_def)

lemma alloc_bar_Some:
  assumes "nfp_alloc_bar p = Some (b, p')"
  shows "b \<in> {1, 2, 3}" "\<not> bar_lock (bars p ! b)"
    "p' = p\<lparr>bars := (bars p)[b := (bars p ! b)\<lparr>bar_lock := True\<rparr>]\<rparr>"
  using assms unfolding nfp_alloc_bar_def bar_counters_list
  by (auto simp: Let_def split: option.splits if_splits)

lemma alloc_bar_None:
  "nfp_alloc_bar p = None \<longleftrightarrow> (\<forall>b\<in>{1, 2, 3}. bar_lock (bars p ! b))"
  unfolding nfp_alloc_bar_def bar_counters_list by (auto simp: Let_def split: option.splits)

section \<open>Initialising an area\<close>

lemma area_init_ok:
  assumes ok: "nfp6000_area_init M dest a sz priv w = (r, priv', w')" "0 \<le> r"
    and wf: "pcie_wf n (w_pcie w)"
  obtains b pp c base where
    "nfp6000_target_pushpull (NFP_CPP_ID (ucast (NFP_CPP_ID_TARGET_of dest))
        (ucast (NFP_CPP_ID_ACTION_of dest)) (ucast (NFP_CPP_ID_TOKEN_of dest))) a = Inr pp"
    "b \<in> {1, 2, 3}" "\<not> bar_lock (bars (w_pcie w) ! b)"
    "nfp_compute_bar ((bars (w_pcie w) ! b)\<lparr>bar_lock := True\<rparr>) (sint (ucast (NFP_CPP_ID_TARGET_of dest) :: u32))
       (sint (ucast (NFP_CPP_ID_ACTION_of dest) :: u32)) (sint (ucast (NFP_CPP_ID_TOKEN_of dest) :: u32))
       a sz (width_bar priv') = Inr (c, base)"
    "ap_bar priv' = Some b" "ap_target priv' = ucast (NFP_CPP_ID_TARGET_of dest)"
    "ap_action priv' = ucast (NFP_CPP_ID_ACTION_of dest)" "ap_token priv' = ucast (NFP_CPP_ID_TOKEN_of dest)"
    "ap_offset priv' = a" "ap_size priv' = sz"
    "width_read priv' = c_int (PUSH_WIDTH pp)" "width_write priv' = c_int (PULL_WIDTH pp)"
    "w_hw w' = io_wr32 M (cfg (w_pcie w) + CFG_BAR_PCIETOCPPEXPBAR 0 (Suc b)) c (w_hw w)"
    "w_pcie w' = (w_pcie w)\<lparr>bars := (bars (w_pcie w))[b := (bars (w_pcie w) ! b)\<lparr>bar_lock := True,
       bar_base := base, bar_csr := cfg (w_pcie w) + CFG_BAR_PCIETOCPPEXPBAR 0 (Suc b), barcfg := c\<rparr>]\<rparr>"
    "w_cpp w' = w_cpp w" "w_fault w' = w_fault w"
proof -
  let ?pp = "nfp6000_target_pushpull (NFP_CPP_ID (ucast (NFP_CPP_ID_TARGET_of dest))
        (ucast (NFP_CPP_ID_ACTION_of dest)) (ucast (NFP_CPP_ID_TOKEN_of dest))) a"
  let ?t = "sint (ucast (NFP_CPP_ID_TARGET_of dest) :: u32)"
    and ?a = "sint (ucast (NFP_CPP_ID_ACTION_of dest) :: u32)"
    and ?k = "sint (ucast (NFP_CPP_ID_TOKEN_of dest) :: u32)"
  obtain pp where pp: "?pp = Inr pp"
    using ok ret_code_negative by (cases ?pp) (auto simp: nfp6000_area_init_def Let_def not_less [symmetric])
  obtain b p where ab: "nfp_alloc_bar (w_pcie w) = Some (b, p)"
    using ok pp by (cases "nfp_alloc_bar (w_pcie w)")
      (auto simp: nfp6000_area_init_def Let_def split: if_splits prod.splits)
  note al = alloc_bar_Some [OF ab]
  have bl: "b < length (bars (w_pcie w))" using al(1) wf by (auto simp: pcie_wf_def)
  define v where "v = set_errno (PULL_WIDTH pp) (set_errno (PUSH_WIDTH pp) w)"
  have rc: "nfp_reconfigure_bar M b ?t ?a ?k a sz (width_bar priv') (v\<lparr>w_pcie := p\<rparr>) = (r, w')"
    and pv: "ap_bar priv' = Some b" "ap_target priv' = ucast (NFP_CPP_ID_TARGET_of dest)"
    "ap_action priv' = ucast (NFP_CPP_ID_ACTION_of dest)" "ap_token priv' = ucast (NFP_CPP_ID_TOKEN_of dest)"
    "ap_offset priv' = a" "ap_size priv' = sz"
    "width_read priv' = c_int (PUSH_WIDTH pp)" "width_write priv' = c_int (PULL_WIDTH pp)"
    using ok pp ab unfolding nfp6000_area_init_def Let_def v_def
    by (auto split: if_splits prod.splits)
  have bars_p: "bars p ! b = (bars (w_pcie w) ! b)\<lparr>bar_lock := True\<rparr>" "cfg p = cfg (w_pcie w)"
    using al(3) bl by simp_all
  have nz: "cfg (w_pcie w) \<noteq> 0" using wf by (simp add: pcie_wf_def)
  have ix: "bar_index (bars (w_pcie w) ! b) = Suc b"
    using bar_geomD(1) [OF pcie_wf_bar [OF wf al(1)]] .
  obtain c base where cb: "nfp_compute_bar (bars p ! b) ?t ?a ?k a sz (width_bar priv') = Inr (c, base)"
    using rc ok(2) ret_code_negative
    by (cases "nfp_compute_bar (bars p ! b) ?t ?a ?k a sz (width_bar priv')")
      (auto simp: nfp_reconfigure_bar_def Let_def not_less [symmetric])
  have w': "w' = v\<lparr>w_hw := io_wr32 M (cfg (w_pcie w) + CFG_BAR_PCIETOCPPEXPBAR 0 (Suc b)) c (w_hw w),
      w_pcie := (w_pcie w)\<lparr>bars := (bars (w_pcie w))[b := (bars (w_pcie w) ! b)\<lparr>bar_lock := True,
       bar_base := base, bar_csr := cfg (w_pcie w) + CFG_BAR_PCIETOCPPEXPBAR 0 (Suc b), barcfg := c\<rparr>]\<rparr>\<rparr>"
    using rc cb al(1,3) bl nz ix
    by (auto simp: nfp_reconfigure_bar_def nfp_bar_write_def Let_def bars_p v_def)
  show thesis
    by (rule that [OF pp al(1,2) cb [unfolded bars_p] pv]) (simp_all add: w' v_def)
qed

section \<open>An open area\<close>

text \<open>The identifier a BAR sees: target, action (0 for the read/write action) and token.\<close>

type_synonym cpp_port = "u32 \<times> u32 \<times> u32"

definition p2c_port :: "u32 \<Rightarrow> cpp_port" where
  "p2c_port c = (fld 23 4 c, p2c_action c, fld 21 2 c)"

definition port_of :: "u32 \<Rightarrow> cpp_port" where
  "port_of d =
     (let act = ucast (NFP_CPP_ID_ACTION_of d) :: u32
      in (take_bit 4 (ucast (NFP_CPP_ID_TARGET_of d)),
          if act = 32 \<or> act = 0 then 0 else take_bit 5 act,
          take_bit 2 (ucast (NFP_CPP_ID_TOKEN_of d))))"

text \<open>\<open>area_open\<close>: the area \<open>ar\<close> for \<open>sz\<close> bytes at the translated address \<open>a\<close> of \<open>d\<close> uses BAR \<open>b\<close>,
  which was free in \<open>w\<close>, is locked in \<open>w'\<close> and configured with the word \<open>c\<close>; the mapping points
  into the aperture of that BAR, at the distance of \<open>a\<close> from the base of the aperture.\<close>

definition area_open ::
  "'h mmio \<Rightarrow> nat \<Rightarrow> 'h world \<Rightarrow> u32 \<Rightarrow> u64 \<Rightarrow> u64 \<Rightarrow> nat \<Rightarrow> u32 \<Rightarrow> nfp_cpp_area \<Rightarrow> 'h world \<Rightarrow> bool" where
  "area_open M n w d a sz b c ar w' \<longleftrightarrow>
     b \<in> {1, 2, 3} \<and> \<not> bar_lock (bars (w_pcie w) ! b)
     \<and> area_size ar = sz \<and> area_offset ar = a
     \<and> ap_bar (area_priv ar) = Some b \<and> ap_offset (area_priv ar) = a \<and> ap_size (area_priv ar) = sz
     \<and> ap_iomem (area_priv ar) = cfg (w_pcie w) + of_nat (Suc b * 2 ^ n) + (a AND mask n)
     \<and> p2c_base c = a AND NOT (mask n) \<and> (a + sz - 1) AND NOT (mask n) = a AND NOT (mask n)
     \<and> p2c_port c = port_of d
     \<and> w_hw w' = io_wr32 M (cfg (w_pcie w) + CFG_BAR_PCIETOCPPEXPBAR 0 (Suc b)) c (w_hw w)
     \<and> pcie_wf n (w_pcie w') \<and> cfg (w_pcie w') = cfg (w_pcie w)
     \<and> bar_locks w' = (bar_locks w)[b := True]
     \<and> w_cpp w' = w_cpp w \<and> w_fault w' = w_fault w"

lemma sint_ucast8: "sint (ucast (x :: u8) :: u32) = uint x"
proof -
  have "unat x < 2 ^ 8" using unsigned_less [of x, where 'a = nat] by simp
  then show ?thesis using sint_small [of "unat x"] by simp
qed

lemma and_mask_32:
  assumes "n \<le> 28"
  shows "ucast (ucast (a AND mask n) :: u32) = (a AND mask n :: u64)"
  using assms by (intro bit_word_eqI) (auto simp: bit_unsigned_iff bit_and_iff bit_mask_iff)

lemma ucast8_numeral:
  "(ucast (x :: u8) :: u32) = 32 \<longleftrightarrow> uint x = 32" "(ucast (x :: u8) :: u32) = 0 \<longleftrightarrow> uint x = 0"
proof -
  have u: "uint (ucast x :: u32) = uint x"
    by (simp add: unsigned_ucast_eq take_bit_int_eq_self_iff) (use unsigned_less [of x, where 'a = int] in auto)
  show "(ucast x :: u32) = 32 \<longleftrightarrow> uint x = 32" "(ucast x :: u32) = 0 \<longleftrightarrow> uint x = 0"
    by (simp_all add: word_uint_eq_iff u)
qed

lemma unat_of_nat64: "k < 2 ^ 64 \<Longrightarrow> unat (of_nat k :: u64) = k"
  by (simp add: unsigned_of_nat take_bit_nat_eq_self)

lemma window_nonzero:
  assumes "pcie_wf n p" "x < 8"
  shows "cfg p + of_nat (x * 2 ^ n) \<noteq> 0"
proof -
  have c: "unat (cfg p) + 8 * 2 ^ n \<le> 2 ^ 64" "cfg p \<noteq> 0" using assms(1) by (simp_all add: pcie_wf_def)
  have k: "x * 2 ^ n < 8 * 2 ^ n" using assms(2) by simp
  have lt: "x * 2 ^ n < 2 ^ 64" using c(1) k by linarith
  have sm: "unat (cfg p) + x * 2 ^ n < 2 ^ 64" using c(1) k by linarith
  have u: "unat (of_nat (x * 2 ^ n) :: u64) = x * 2 ^ n" by (rule unat_of_nat64 [OF lt])
  have "unat (cfg p + of_nat (x * 2 ^ n)) = unat (cfg p) + x * 2 ^ n"
    using unat_add_small [of "cfg p" "of_nat (x * 2 ^ n)", unfolded u] sm by simp
  moreover have "unat (cfg p) \<noteq> 0" using c(2) by (simp add: unat_eq_0)
  ultimately show ?thesis by (metis add_is_0 unat_0)
qed

lemma alloc_acquire_parts:
  assumes "nfp_cpp_area_alloc_acquire M dest address sz w = (Some ar, w')"
  obtains d a r priv w1 e priv2 where
    "nfp_target_cpp dest address (Some (\<lambda>i. imb_cat_table (w_cpp w) ! i)) = Inr (d, a)"
    "nfp6000_area_init M d a sz area_priv_zero (snd (c_malloc w)) = (r, priv, w1)" "0 \<le> r"
    "nfp6000_area_acquire priv (w1\<lparr>w_errno := w_errno (snd (c_malloc w))\<rparr>) = (e, priv2, w')" "0 \<le> e"
    "ar = \<lparr>area_name = [], area_offset = a, area_size = sz, area_priv = priv2\<rparr>"
  using assms
  by (auto simp: nfp_cpp_area_alloc_acquire_def nfp_cpp_area_alloc_def nfp_cpp_area_alloc_with_name_def
      nfp_cpp_area_acquire_def Let_def not_less split: prod.splits if_splits sum.splits)

lemma acquire_keeps:
  assumes "nfp6000_area_acquire priv w = (e, priv2, w')" "ap_bar priv = Some b"
  shows "w' = w" "ap_bar priv2 = Some b"
  using assms by (auto simp: nfp6000_area_acquire_def Let_def split: if_splits)

text \<open>An open area holds the lock of one BAR that was free before.\<close>

lemma alloc_acquire_lock:
  assumes ok: "nfp_cpp_area_alloc_acquire M dest address sz w = (Some ar, w')"
    and wf: "pcie_wf n (w_pcie w)"
  obtains b where "b \<in> {1, 2, 3}" "ap_bar (area_priv ar) = Some b" "\<not> bar_lock (bars (w_pcie w) ! b)"
    "bar_locks w' = (bar_locks w)[b := True]" "pcie_wf n (w_pcie w')"
    "w_cpp w' = w_cpp w" "w_fault w' = w_fault w"
proof -
  from ok obtain d a r priv w1 e priv2 where
    in1: "nfp6000_area_init M d a sz area_priv_zero (snd (c_malloc w)) = (r, priv, w1)" "0 \<le> r"
    and ac: "nfp6000_area_acquire priv (w1\<lparr>w_errno := w_errno (snd (c_malloc w))\<rparr>) = (e, priv2, w')"
    and ar: "ar = \<lparr>area_name = [], area_offset = a, area_size = sz, area_priv = priv2\<rparr>"
    by (rule alloc_acquire_parts)
  have wf0: "pcie_wf n (w_pcie (snd (c_malloc w)))" using wf by simp
  show thesis
  proof (rule area_init_ok [OF in1 wf0], unfold world_c_malloc)
    fix b pp c base
    let ?bar = "bars (w_pcie w) ! b"
    assume b: "b \<in> {1, 2, 3}" "\<not> bar_lock ?bar" and pv: "ap_bar priv = Some b"
      and w1: "w_pcie w1 = (w_pcie w)\<lparr>bars := (bars (w_pcie w))[b := ?bar\<lparr>bar_lock := True,
       bar_base := base, bar_csr := cfg (w_pcie w) + CFG_BAR_PCIETOCPPEXPBAR 0 (Suc b), barcfg := c\<rparr>]\<rparr>"
       "w_cpp w1 = w_cpp w" "w_fault w1 = w_fault w"
    have pw: "pcie_wf n (w_pcie w1)" unfolding w1 by (rule pcie_wf_upd [OF wf]) (simp add: bar_geom_def)
    show thesis
      by (rule that [OF b(1) _ b(2)]) (use acquire_keeps [OF ac pv] w1 pw ar in \<open>simp_all add: bar_locks_def map_update\<close>)
  qed
qed

lemma alloc_acquire_open:
  assumes ok: "nfp_cpp_area_alloc_acquire M dest address sz w = (Some ar, w')"
    and wf: "pcie_wf n (w_pcie w)"
    and tr: "nfp_target_cpp dest address (Some (\<lambda>i. imb_cat_table (w_cpp w) ! i)) = Inr (d, a)"
    and a: "take_bit 40 a = a"
  obtains b c where "area_open M n w d a sz b c ar w'"
proof -
  let ?w0 = "snd (c_malloc w)"
  have n: "n \<le> 28" "n < 32" using wf by (simp_all add: pcie_wf_def)
  from ok obtain d2 a2 r priv w1 e priv3 where tr2:
    "nfp_target_cpp dest address (Some (\<lambda>i. imb_cat_table (w_cpp w) ! i)) = Inr (d2, a2)"
    and parts: "nfp6000_area_init M d2 a2 sz area_priv_zero ?w0 = (r, priv, w1)"
    and r: "0 \<le> r" and acq: "nfp6000_area_acquire priv (w1\<lparr>w_errno := w_errno ?w0\<rparr>) = (e, priv3, w')"
    and ar2: "ar = \<lparr>area_name = [], area_offset = a2, area_size = sz, area_priv = priv3\<rparr>"
    by (rule alloc_acquire_parts)
  have da: "d2 = d" "a2 = a" using tr tr2 by simp_all
  note in1 = parts [unfolded da] and ar = ar2 [unfolded da]
  have wf0: "pcie_wf n (w_pcie ?w0)" using wf by simp
  show thesis
  proof (rule area_init_ok [OF in1 r wf0], unfold world_c_malloc)
    fix b pp c base
    let ?bar = "bars (w_pcie w) ! b"
    assume b: "b \<in> {1, 2, 3}" "\<not> bar_lock ?bar"
      and cb: "nfp_compute_bar (?bar\<lparr>bar_lock := True\<rparr>) (sint (ucast (NFP_CPP_ID_TARGET_of d) :: u32))
         (sint (ucast (NFP_CPP_ID_ACTION_of d) :: u32)) (sint (ucast (NFP_CPP_ID_TOKEN_of d) :: u32))
         a sz (width_bar priv) = Inr (c, base)"
      and pv: "ap_bar priv = Some b" "ap_offset priv = a" "ap_size priv = sz"
      and hw: "w_hw w1 = io_wr32 M (cfg (w_pcie w) + CFG_BAR_PCIETOCPPEXPBAR 0 (Suc b)) c (w_hw w)"
      and w1: "w_pcie w1 = (w_pcie w)\<lparr>bars := (bars (w_pcie w))[b := ?bar\<lparr>bar_lock := True,
       bar_base := base, bar_csr := cfg (w_pcie w) + CFG_BAR_PCIETOCPPEXPBAR 0 (Suc b), barcfg := c\<rparr>]\<rparr>"
       "w_cpp w1 = w_cpp w" "w_fault w1 = w_fault w"
    have g: "bar_geom n (cfg (w_pcie w)) (Suc b) ?bar" by (rule pcie_wf_bar [OF wf b(1)])
    have bl: "b < length (bars (w_pcie w))" using b(1) wf by (auto simp: pcie_wf_def)
    have "unat (bitsize (?bar\<lparr>bar_lock := True\<rparr>)) < 32" "unat (bitsize (?bar\<lparr>bar_lock := True\<rparr>)) = n"
      using bar_geomD(2) [OF g] n by simp_all
    note cr = compute_bar_reaches [OF cb this(1) a, unfolded this(2) sint_ucast8]
    have gen: "PCIE2CPP_MAPTYPE_OF c \<noteq> word_of_int MAPTYPE_GENERAL" by (rule cr(9))
    have io: "cfg (w_pcie w) + of_nat (Suc b * 2 ^ n) \<noteq> 0" using b(1) by (intro window_nonzero [OF wf]) auto
    obtain priv2 where ac: "nfp6000_area_acquire priv (w1\<lparr>w_errno := w_errno ?w0\<rparr>) =
        (0, priv2, w1\<lparr>w_errno := w_errno ?w0\<rparr>)"
      "ap_iomem priv2 = cfg (w_pcie w) + of_nat (Suc b * 2 ^ n) + (a AND mask n)"
      "ap_bar priv2 = Some b" "ap_offset priv2 = a" "ap_size priv2 = sz"
      using pv bl gen io w1 bar_geomD [OF g] and_mask_32 [OF n(1)]
      by (auto simp: nfp6000_area_acquire_def Let_def nfp_bar_maptype_def)
    have port: "p2c_port c = port_of d"
      using cr(4-6) by (simp add: p2c_port_def port_of_def ucast8_numeral Let_def flip: ucast_eq)
    have pw: "pcie_wf n (w_pcie w1)" unfolding w1 by (rule pcie_wf_upd [OF wf]) (simp add: bar_geom_def)
    have "priv2 = priv3" "w' = w1\<lparr>w_errno := w_errno ?w0\<rparr>" using acq ac(1) by simp_all
    then have "area_open M n w d a sz b c ar w'"
      using ar b pv ac(2-) cr(1,2,3) port hw pw w1 bl
      by (simp add: area_open_def bar_locks_def map_update)
    then show thesis by (rule that)
  qed
qed

section \<open>The lock discipline of reads and writes\<close>

lemma release_unlocks:
  assumes "ap_bar (area_priv ar) = Some b" "pcie_wf n (w_pcie w)"
  shows "bar_locks (nfp_cpp_area_release_free ar w) = (bar_locks w)[b := False]"
    "pcie_wf n (w_pcie (nfp_cpp_area_release_free ar w))"
    "w_cpp (nfp_cpp_area_release_free ar w) = w_cpp w" "w_fault (nfp_cpp_area_release_free ar w) = w_fault w"
    "w_hw (nfp_cpp_area_release_free ar w) = w_hw w"
    "cfg (w_pcie (nfp_cpp_area_release_free ar w)) = cfg (w_pcie w)"
proof -
  have r: "nfp_cpp_area_release_free ar w = w\<lparr>w_pcie := (w_pcie w)\<lparr>bars := (bars (w_pcie w))
      [b := (bars (w_pcie w) ! b)\<lparr>bar_lock := False\<rparr>]\<rparr>\<rparr>"
    using assms(1) by (simp add: nfp_cpp_area_release_free_def nfp_cpp_area_release_def
        nfp6000_area_release_def nfp_cpp_area_free_def Let_def)
  show "pcie_wf n (w_pcie (nfp_cpp_area_release_free ar w))"
    using pcie_wf_upd [OF assms(2), of b "(bars (w_pcie w) ! b)\<lparr>bar_lock := False\<rparr>"]
    by (simp add: r bar_geom_def)
qed (use assms in \<open>simp_all add: nfp_cpp_area_release_free_def nfp_cpp_area_release_def
        nfp6000_area_release_def nfp_cpp_area_free_def Let_def bar_locks_def map_update\<close>)

lemma area_read_keeps:
  assumes "nfp_cpp_area_read M ar off len w = (r, bs, w')"
  shows "w_pcie w' = w_pcie w" "w_cpp w' = w_cpp w" "w_fault w' = w_fault w" "bar_locks w' = bar_locks w"
  using assms by (auto simp: nfp_cpp_area_read_def nfp6000_area_read_def NFP_ERRNO_def Let_def bar_locks_def
      split: if_splits sum.splits prod.splits)

lemma area_write_keeps:
  assumes "nfp_cpp_area_write M ar off buf len w = (r, w')"
  shows "w_pcie w' = w_pcie w" "w_cpp w' = w_cpp w" "w_fault w' = w_fault w" "bar_locks w' = bar_locks w"
  using assms by (auto simp: nfp_cpp_area_write_def nfp6000_area_write_def NFP_ERRNO_def Let_def bar_locks_def
      split: if_splits sum.splits prod.splits)

text \<open>Whatever the outcome of the access, once the area was opened everything is given back.\<close>

definition bus_same :: "nat \<Rightarrow> 'h world \<Rightarrow> 'h world \<Rightarrow> bool" where
  "bus_same n w w' \<longleftrightarrow> bar_locks w' = bar_locks w \<and> pcie_wf n (w_pcie w') \<and> w_cpp w' = w_cpp w
     \<and> w_fault w' = w_fault w"

lemma opened_and_released:
  assumes ok: "nfp_cpp_area_alloc_acquire M dest address sz w = (Some ar, w1)"
    and wf: "pcie_wf n (w_pcie w)"
    and mid: "w_pcie w2 = w_pcie w1" "w_cpp w2 = w_cpp w1" "w_fault w2 = w_fault w1"
  shows "bus_same n w (nfp_cpp_area_release_free ar w2)"
proof (rule alloc_acquire_lock [OF ok wf])
  fix b assume b: "b \<in> {1, 2, 3}" "ap_bar (area_priv ar) = Some b" "\<not> bar_lock (bars (w_pcie w) ! b)"
    and w1: "bar_locks w1 = (bar_locks w)[b := True]" "pcie_wf n (w_pcie w1)" "w_cpp w1 = w_cpp w"
      "w_fault w1 = w_fault w"
  have bl: "b < length (bars (w_pcie w))" using b(1) wf by (auto simp: pcie_wf_def)
  have "pcie_wf n (w_pcie w2)" using w1(2) mid by simp
  note rl = release_unlocks [OF b(2) this]
  have "bar_locks w2 = bar_locks w1" using mid by (simp add: bar_locks_def)
  moreover have "(bar_locks w)[b := False] = bar_locks w"
    using b(3) bl by (intro nth_equalityI) (auto simp: bar_locks_def nth_list_update)
  ultimately show ?thesis using rl w1 mid by (simp add: bus_same_def)
qed

lemma read_gives_back:
  assumes "nfp_cpp_read M dest address len w = (r, bs, w')" "0 \<le> r" "pcie_wf n (w_pcie w)"
  shows "bus_same n w w'"
proof -
  obtain ar w1 where al: "nfp_cpp_area_alloc_acquire M dest address len w = (Some ar, w1)"
    using assms(1,2) by (cases "nfp_cpp_area_alloc_acquire M dest address len w")
      (auto simp: nfp_cpp_read_def split: option.splits)
  obtain e bs2 w2 where rd: "nfp_cpp_area_read M ar 0 len w1 = (e, bs2, w2)" by (metis prod_cases3)
  have "w' = nfp_cpp_area_release_free ar w2" using assms(1) al rd by (simp add: nfp_cpp_read_def)
  then show ?thesis using opened_and_released [OF al assms(3)] area_read_keeps [OF rd] by simp
qed

lemma write_gives_back:
  assumes "nfp_cpp_write M dest address buf len w = (r, w')" "0 \<le> r" "pcie_wf n (w_pcie w)"
  shows "bus_same n w w'"
proof -
  obtain ar w1 where al: "nfp_cpp_area_alloc_acquire M dest address len w = (Some ar, w1)"
    using assms(1,2) by (cases "nfp_cpp_area_alloc_acquire M dest address len w")
      (auto simp: nfp_cpp_write_def split: option.splits)
  obtain e w2 where wr: "nfp_cpp_area_write M ar 0 buf len w1 = (e, w2)" by (metis surj_pair)
  have "w' = nfp_cpp_area_release_free ar w2" using assms(1) al wr by (simp add: nfp_cpp_write_def)
  then show ?thesis using opened_and_released [OF al assms(3)] area_write_keeps [OF wr] by simp
qed

end
