(* ===== verification/Cpp_Memory.thy ===== *)
theory Cpp_Memory
  imports Cpp_Locks
begin

text \<open>
  What the CPP core promises its clients. The contract of the device behind the mapped window is
  the locale \<open>pcie2cpp\<close>: a store to the configuration register of BAR \<open>x\<close> sets that register, and
  a load or store in the aperture of BAR \<open>x\<close> accesses the CPP memory that the register selects.
  Under this contract \<open>nfp_cpp_read\<close> and \<open>nfp_cpp_write\<close> read and write the memory of the addressed
  target.
\<close>

section \<open>Addresses in an aperture\<close>

lemma aperture_split: "(a AND NOT (mask n)) + (a AND mask n) = (a :: u64)"
proof -
  have d: "(a AND NOT (mask n)) AND (a AND mask n) = 0"
    by (rule bit_word_eqI) (auto simp: bit_and_iff bit_not_iff_eq)
  have "(a AND NOT (mask n)) OR (a AND mask n) = a"
    by (rule bit_word_eqI) (auto simp: bit_or_iff bit_and_iff bit_not_iff_eq bit_mask_iff dest: bit_imp_le_length)
  then show ?thesis using d by (simp add: disjunctive_add_eq_or)
qed

lemma unat_and_mask: "unat (a AND mask n :: u64) = unat a mod 2 ^ n"
  unfolding take_bit_eq_mask [symmetric] unsigned_take_bit_eq by (rule take_bit_eq_mod)

lemma same_aperture:
  fixes a b :: u64
  assumes "a AND NOT (mask n) = b AND NOT (mask n)" "n < 64"
  shows "unat a div 2 ^ n = unat b div 2 ^ n"
proof -
  have d: "drop_bit n (x AND NOT (mask n)) = drop_bit n x" for x :: u64
    by (rule bit_word_eqI) (auto simp: bit_drop_bit_eq bit_and_iff bit_not_iff_eq bit_mask_iff dest: bit_imp_le_length)
  have u: "unat (drop_bit n x) = unat x div 2 ^ n" for x :: u64
    unfolding unat_drop_bit_eq by (rule drop_bit_eq_div)
  have "drop_bit n a = drop_bit n b" using assms(1) d [of a] d [of b] by argo
  then show ?thesis using u [of a] u [of b] by argo
qed

text \<open>A range whose last byte is in the aperture of its first byte fits behind the offset of the
  first byte.\<close>

lemma aperture_fits:
  fixes a len :: u64
  assumes "(a + len - 1) AND NOT (mask n) = a AND NOT (mask n)" "take_bit 40 a = a"
    "0 < unat len" "unat len < 2 ^ 31" "n < 64"
  shows "unat a mod 2 ^ n + unat len \<le> 2 ^ n"
proof -
  have "unat a < 2 ^ 40" using assms(2) by (metis take_bit_nat_less_exp unsigned_take_bit_eq)
  then have s: "unat a + unat len < 2 ^ 64" using assms(4) by simp
  then have "unat (a + len) = unat a + unat len" by (simp add: unat_add_small)
  moreover have "unat (1 :: u64) \<le> unat (a + len)" using calculation assms(3) by simp
  ultimately have "unat (a + len - 1) = unat a + unat len - 1"
    by (simp add: unat_sub_small)
  with same_aperture [OF assms(1,5)] have "(unat a + unat len - 1) div 2 ^ n = unat a div 2 ^ n" by simp
  then have "unat a + unat len - 1 < (unat a div 2 ^ n) * 2 ^ n + 2 ^ n"
    by (metis add.commute dividend_less_div_times zero_less_numeral zero_less_power)
  moreover have "unat a = (unat a div 2 ^ n) * 2 ^ n + unat a mod 2 ^ n" by (rule div_mult_mod_eq [symmetric])
  ultimately show ?thesis using assms(3) by linarith
qed

section \<open>The device\<close>

locale p2c_window =
  fixes M :: "'h mmio" and win :: u64 and n :: nat
    and csr :: "'h \<Rightarrow> nat \<Rightarrow> u32" and cmem :: "'h \<Rightarrow> 'm"
  assumes csr_wr: "x < 8 \<Longrightarrow>
      csr (io_wr32 M (win + CFG_BAR_PCIETOCPPEXPBAR 0 x) c h) = (csr h)(x := c)
      \<and> cmem (io_wr32 M (win + CFG_BAR_PCIETOCPPEXPBAR 0 x) c h) = cmem h"
begin

text \<open>The address of the mapping of an open area.\<close>

lemma open_area_addr:
  assumes "area_open M n w d a sz b c ar w'" "cfg (w_pcie w) = win" "pcie_wf n (w_pcie w)"
    "take_bit 40 a = a" "0 < unat sz" "unat sz < 2 ^ 31"
  shows "ap_iomem (area_priv ar) = win + of_nat (Suc b * 2 ^ n + unat a mod 2 ^ n)"
    "p2c_base c + of_nat (unat a mod 2 ^ n) = a" "unat a mod 2 ^ n + unat sz \<le> 2 ^ n"
    "0 < Suc b" "Suc b < 8"
    "csr (w_hw w') (Suc b) = c" "cmem (w_hw w') = cmem (w_hw w)" "p2c_port c = port_of d"
proof -
  have b: "b \<in> {1, 2, 3}" using assms(1) by (simp add: area_open_def)
  have n: "n < 64" using assms(3) by (simp add: pcie_wf_def)
  have off: "(of_nat (unat a mod 2 ^ n) :: u64) = a AND mask n"
    unfolding unat_and_mask [symmetric] by simp
  show "ap_iomem (area_priv ar) = win + of_nat (Suc b * 2 ^ n + unat a mod 2 ^ n)"
    unfolding of_nat_add off using assms(1,2) by (simp add: area_open_def)
  show "p2c_base c + of_nat (unat a mod 2 ^ n) = a"
    unfolding off using assms(1) aperture_split by (simp add: area_open_def)
  show "unat a mod 2 ^ n + unat sz \<le> 2 ^ n"
    by (rule aperture_fits) (use assms n in \<open>simp_all add: area_open_def\<close>)
  show "0 < Suc b" "Suc b < 8" using b by auto
  then show "csr (w_hw w') (Suc b) = c" "cmem (w_hw w') = cmem (w_hw w)"
    using csr_wr [of "Suc b" c "w_hw w"] assms(1,2) by (simp_all add: area_open_def)
  show "p2c_port c = port_of d" using assms(1) by (simp add: area_open_def)
qed

end

locale pcie2cpp = p2c_window M win n csr cmem
  for M :: "'h mmio" and win :: u64 and n :: nat
    and csr :: "'h \<Rightarrow> nat \<Rightarrow> u32" and cmem :: "'h \<Rightarrow> cpp_port \<Rightarrow> mem" +
  assumes rd32: "0 < x \<Longrightarrow> x < 8 \<Longrightarrow> k + 4 \<le> 2 ^ n \<Longrightarrow>
      io_rd32 M (win + of_nat (x * 2 ^ n + k)) h =
        (le_word (mem_rd (cmem h (p2c_port (csr h x))) (p2c_base (csr h x) + of_nat k) 4), h)"
    and rd64: "0 < x \<Longrightarrow> x < 8 \<Longrightarrow> k + 8 \<le> 2 ^ n \<Longrightarrow>
      io_rd64 M (win + of_nat (x * 2 ^ n + k)) h =
        (le_word (mem_rd (cmem h (p2c_port (csr h x))) (p2c_base (csr h x) + of_nat k) 8), h)"
    and wr32: "0 < x \<Longrightarrow> x < 8 \<Longrightarrow> k + 4 \<le> 2 ^ n \<Longrightarrow> h' = io_wr32 M (win + of_nat (x * 2 ^ n + k)) v h \<Longrightarrow>
      csr h' = csr h \<and> cmem h' = (cmem h)(p2c_port (csr h x) :=
        mem_wr (cmem h (p2c_port (csr h x))) (p2c_base (csr h x) + of_nat k) (le_bytes 4 v))"
    and wr64: "0 < x \<Longrightarrow> x < 8 \<Longrightarrow> k + 8 \<le> 2 ^ n \<Longrightarrow> h' = io_wr64 M (win + of_nat (x * 2 ^ n + k)) q h \<Longrightarrow>
      csr h' = csr h \<and> cmem h' = (cmem h)(p2c_port (csr h x) :=
        mem_wr (cmem h (p2c_port (csr h x))) (p2c_base (csr h x) + of_nat k) (le_bytes 8 q))"
begin

lemma rd32s_mem:
  assumes "0 < x" "x < 8" "k + 4 * j \<le> 2 ^ n"
  shows "rd32s M (win + of_nat (x * 2 ^ n + k)) j h =
    (mem_rd (cmem h (p2c_port (csr h x))) (p2c_base (csr h x) + of_nat k) (4 * j), h)"
  using assms(3)
proof (induction j arbitrary: k)
  case (Suc j)
  have s: "win + of_nat (x * 2 ^ n + k) + 4 = win + of_nat (x * 2 ^ n + (k + 4))" by simp
  have "rd32s M (win + of_nat (x * 2 ^ n + (k + 4))) j h =
      (mem_rd (cmem h (p2c_port (csr h x))) (p2c_base (csr h x) + of_nat (k + 4)) (4 * j), h)"
    by (rule Suc.IH) (use Suc.prems in simp)
  moreover have "k + 4 \<le> 2 ^ n" using Suc.prems by simp
  ultimately show ?case
    using rd32 [OF assms(1,2), of k h] mem_rd_split [of _ _ 4 "4 * j"]
    by (simp only: rd32s.simps Let_def s prod.case) (simp add: add.assoc)
qed simp

lemma rd64s_mem:
  assumes "0 < x" "x < 8" "k + 8 * j \<le> 2 ^ n"
  shows "rd64s M (win + of_nat (x * 2 ^ n + k)) j h =
    (mem_rd (cmem h (p2c_port (csr h x))) (p2c_base (csr h x) + of_nat k) (8 * j), h)"
  using assms(3)
proof (induction j arbitrary: k)
  case (Suc j)
  have s: "win + of_nat (x * 2 ^ n + k) + 8 = win + of_nat (x * 2 ^ n + (k + 8))" by simp
  have "rd64s M (win + of_nat (x * 2 ^ n + (k + 8))) j h =
      (mem_rd (cmem h (p2c_port (csr h x))) (p2c_base (csr h x) + of_nat (k + 8)) (8 * j), h)"
    by (rule Suc.IH) (use Suc.prems in simp)
  moreover have "k + 8 \<le> 2 ^ n" using Suc.prems by simp
  ultimately show ?case
    using rd64 [OF assms(1,2), of k h] mem_rd_split [of _ _ 8 "8 * j"]
    by (simp only: rd64s.simps Let_def s prod.case) (simp add: add.assoc)
qed simp

lemma wr32s_mem:
  assumes "0 < x" "x < 8" "k + 4 * j \<le> 2 ^ n" "4 * j \<le> length buf"
  shows "csr (wr32s M (win + of_nat (x * 2 ^ n + k)) j buf h) = csr h
    \<and> cmem (wr32s M (win + of_nat (x * 2 ^ n + k)) j buf h) = (cmem h)(p2c_port (csr h x) :=
        mem_wr (cmem h (p2c_port (csr h x))) (p2c_base (csr h x) + of_nat k) (take (4 * j) buf))"
  using assms(3,4)
proof (induction j arbitrary: k buf h)
  case (Suc j)
  define h1 where "h1 = io_wr32 M (win + of_nat (x * 2 ^ n + k)) (le_word (take 4 buf)) h"
  have s: "win + of_nat (x * 2 ^ n + k) + 4 = win + of_nat (x * 2 ^ n + (k + 4))" by simp
  have "k + 4 \<le> 2 ^ n" using Suc.prems by simp
  note h1 = wr32 [OF assms(1,2) this h1_def]
  have l: "le_bytes 4 (le_word (take 4 buf) :: u32) = take 4 buf" using Suc.prems by simp
  have t: "take (4 * Suc j) buf = take 4 buf @ take (4 * j) (drop 4 buf)"
    using take_add [of 4 "4 * j" buf] by simp
  have len: "length (take 4 buf) = 4" using Suc.prems by simp
  have "k + 4 + 4 * j \<le> 2 ^ n" "4 * j \<le> length (drop 4 buf)" using Suc.prems by simp_all
  note ih = Suc.IH [OF this, of h1]
  have eq: "wr32s M (win + of_nat (x * 2 ^ n + k)) (Suc j) buf h =
      wr32s M (win + of_nat (x * 2 ^ n + (k + 4))) j (drop 4 buf) h1" by (simp only: wr32s.simps s h1_def)
  have c1: "csr h1 = csr h" and m1: "cmem h1 = (cmem h)(p2c_port (csr h x) :=
      mem_wr (cmem h (p2c_port (csr h x))) (p2c_base (csr h x) + of_nat k) (take 4 buf))"
    using h1 unfolding l by blast+
  show ?case unfolding eq t mem_wr_append len
    using ih [unfolded c1 m1 fun_upd_upd fun_upd_same] by (simp only: of_nat_add add.assoc simp_thms)
qed simp

lemma wr64s_mem:
  assumes "0 < x" "x < 8" "k + 8 * j \<le> 2 ^ n" "8 * j \<le> length buf"
  shows "csr (wr64s M (win + of_nat (x * 2 ^ n + k)) j buf h) = csr h
    \<and> cmem (wr64s M (win + of_nat (x * 2 ^ n + k)) j buf h) = (cmem h)(p2c_port (csr h x) :=
        mem_wr (cmem h (p2c_port (csr h x))) (p2c_base (csr h x) + of_nat k) (take (8 * j) buf))"
  using assms(3,4)
proof (induction j arbitrary: k buf h)
  case (Suc j)
  define h1 where "h1 = io_wr64 M (win + of_nat (x * 2 ^ n + k)) (le_word (take 8 buf)) h"
  have s: "win + of_nat (x * 2 ^ n + k) + 8 = win + of_nat (x * 2 ^ n + (k + 8))" by simp
  have "k + 8 \<le> 2 ^ n" using Suc.prems by simp
  note h1 = wr64 [OF assms(1,2) this h1_def]
  have l: "le_bytes 8 (le_word (take 8 buf) :: u64) = take 8 buf" using Suc.prems by simp
  have t: "take (8 * Suc j) buf = take 8 buf @ take (8 * j) (drop 8 buf)"
    using take_add [of 8 "8 * j" buf] by simp
  have len: "length (take 8 buf) = 8" using Suc.prems by simp
  have "k + 8 + 8 * j \<le> 2 ^ n" "8 * j \<le> length (drop 8 buf)" using Suc.prems by simp_all
  note ih = Suc.IH [OF this, of h1]
  have eq: "wr64s M (win + of_nat (x * 2 ^ n + k)) (Suc j) buf h =
      wr64s M (win + of_nat (x * 2 ^ n + (k + 8))) j (drop 8 buf) h1" by (simp only: wr64s.simps s h1_def)
  have c1: "csr h1 = csr h" and m1: "cmem h1 = (cmem h)(p2c_port (csr h x) :=
      mem_wr (cmem h (p2c_port (csr h x))) (p2c_base (csr h x) + of_nat k) (take 8 buf))"
    using h1 unfolding l by blast+
  show ?case unfolding eq t mem_wr_append len
    using ih [unfolded c1 m1 fun_upd_upd fun_upd_same] by (simp only: of_nat_add add.assoc simp_thms)
qed simp

lemma access_check_words:
  assumes "area_access_check wd priv off len = Inr is64"
  shows "is64 \<Longrightarrow> 8 * (unat len div 8) = unat len" "\<not> is64 \<Longrightarrow> 4 * (unat len div 4) = unat len"
proof -
  have m: "unat len mod 8 = unat (len mod 8)" "unat len mod 4 = unat (len mod 4)" by (simp_all add: unat_mod)
  show "is64 \<Longrightarrow> 8 * (unat len div 8) = unat len" "\<not> is64 \<Longrightarrow> 4 * (unat len div 4) = unat len"
    using assms m by (auto simp: area_access_check_def Let_def split: if_splits)
qed

text \<open>The abstract view of the bus: reads and writes of a range of one port.\<close>

lemma cpp_read_mem:
  assumes rd: "nfp_cpp_read M dest address len w = (r, bs, w')" "0 \<le> r"
    and wf: "pcie_wf n (w_pcie w)" "cfg (w_pcie w) = win"
    and tr: "nfp_target_cpp dest address (Some (\<lambda>i. imb_cat_table (w_cpp w) ! i)) = Inr (d, a)"
    and a: "take_bit 40 a = a" and len: "0 < unat len" "unat len < 2 ^ 31"
  shows "r = int (unat len) \<and> bs = mem_rd (cmem (w_hw w) (port_of d)) a (unat len)
    \<and> cmem (w_hw w') = cmem (w_hw w) \<and> bus_same n w w' \<and> cfg (w_pcie w') = win"
proof -
  obtain ar w1 where al: "nfp_cpp_area_alloc_acquire M dest address len w = (Some ar, w1)"
    using rd by (cases "nfp_cpp_area_alloc_acquire M dest address len w")
      (auto simp: nfp_cpp_read_def split: option.splits)
  obtain e bs2 w2 where ard: "nfp_cpp_area_read M ar 0 len w1 = (e, bs2, w2)" by (metis prod_cases3)
  have res: "w' = nfp_cpp_area_release_free ar w2" "r = e" "bs = bs2"
    using rd(1) al ard by (simp_all add: nfp_cpp_read_def)
  from alloc_acquire_open [OF al wf(1) tr a]
  obtain b c where op: "area_open M n w d a len b c ar w1" by blast
  note ad = open_area_addr [OF op wf(2,1) a len]
  have u: "unat (ucast len :: u32) = unat len"
    using len(2) by (simp add: unsigned_ucast_eq take_bit_nat_eq_self)
  have si: "sint (ucast len :: u32) = int (unat len)"
    using sint_small [OF len(2)] by simp
  have pv: "area_size ar = len" "ap_bar (area_priv ar) = Some b" "cfg (w_pcie w1) = win" "pcie_wf n (w_pcie w1)"
    using op wf(2) by (simp_all add: area_open_def)
  obtain is64 where ck: "area_access_check (width_read (area_priv ar)) (area_priv ar) 0 (ucast len) = Inr is64"
    using ard rd(2) res(2) pv(1) ret_code_negative
    by (cases "area_access_check (width_read (area_priv ar)) (area_priv ar) 0 (ucast len)")
      (auto simp: nfp_cpp_area_read_def nfp6000_area_read_def not_less [symmetric])
  note wd = access_check_words [OF ck, unfolded u]
  let ?o = "unat a mod 2 ^ n"
  let ?bs = "mem_rd (cmem (w_hw w) (port_of d)) a (unat len)"
  have "(if is64 then rd64s M (ap_iomem (area_priv ar) + 0) (unat len div 8) (w_hw w1)
      else rd32s M (ap_iomem (area_priv ar) + 0) (unat len div 4) (w_hw w1)) = (?bs, w_hw w1)"
    using rd64s_mem [OF ad(4,5), of ?o "unat len div 8" "w_hw w1"] rd32s_mem [OF ad(4,5), of ?o "unat len div 4" "w_hw w1"]
      ad(1,2,3,6,7,8) wd by (simp only: add_0_right split: if_split) auto
  then have e: "e = int (unat len)" "bs2 = ?bs" "w2 = w1"
    using ard ck pv(1) unfolding nfp_cpp_area_read_def nfp6000_area_read_def u si by simp_all
  have rel: "w_hw w' = w_hw w1" "cfg (w_pcie w') = win"
    unfolding res(1) e(3) using release_unlocks(5,6) [OF pv(2,4)] pv(3) by simp_all
  show ?thesis
    using e res rel ad(7) read_gives_back [OF rd wf(1)] by simp
qed

lemma cpp_write_mem:
  assumes wr: "nfp_cpp_write M dest address buf len w = (r, w')" "0 \<le> r"
    and wf: "pcie_wf n (w_pcie w)" "cfg (w_pcie w) = win"
    and tr: "nfp_target_cpp dest address (Some (\<lambda>i. imb_cat_table (w_cpp w) ! i)) = Inr (d, a)"
    and a: "take_bit 40 a = a" and len: "0 < unat len" "unat len < 2 ^ 31" "length buf = unat len"
  shows "r = int (unat len) \<and> cmem (w_hw w') = (cmem (w_hw w))(port_of d :=
      mem_wr (cmem (w_hw w) (port_of d)) a buf) \<and> bus_same n w w' \<and> cfg (w_pcie w') = win"
proof -
  obtain ar w1 where al: "nfp_cpp_area_alloc_acquire M dest address len w = (Some ar, w1)"
    using wr by (cases "nfp_cpp_area_alloc_acquire M dest address len w")
      (auto simp: nfp_cpp_write_def split: option.splits)
  obtain e w2 where awr: "nfp_cpp_area_write M ar 0 buf len w1 = (e, w2)" by (metis surj_pair)
  have res: "w' = nfp_cpp_area_release_free ar w2" "r = e"
    using wr(1) al awr by (simp_all add: nfp_cpp_write_def)
  from alloc_acquire_open [OF al wf(1) tr a]
  obtain b c where op: "area_open M n w d a len b c ar w1" by blast
  note ad = open_area_addr [OF op wf(2,1) a len(1,2)]
  have u: "unat (ucast len :: u32) = unat len"
    using len(2) by (simp add: unsigned_ucast_eq take_bit_nat_eq_self)
  have si: "sint (ucast len :: u32) = int (unat len)"
    using sint_small [OF len(2)] by simp
  have pv: "area_size ar = len" "ap_bar (area_priv ar) = Some b" "cfg (w_pcie w1) = win" "pcie_wf n (w_pcie w1)"
    using op wf(2) by (simp_all add: area_open_def)
  obtain is64 where ck: "area_access_check (width_write (area_priv ar)) (area_priv ar) 0 (ucast len) = Inr is64"
    using awr wr(2) res(2) pv(1) ret_code_negative
    by (cases "area_access_check (width_write (area_priv ar)) (area_priv ar) 0 (ucast len)")
      (auto simp: nfp_cpp_area_write_def nfp6000_area_write_def not_less [symmetric])
  note wd = access_check_words [OF ck, unfolded u]
  let ?o = "unat a mod 2 ^ n"
  define h where "h = (if is64 then wr64s M (ap_iomem (area_priv ar) + 0) (unat len div 8) buf (w_hw w1)
      else wr32s M (ap_iomem (area_priv ar) + 0) (unat len div 4) buf (w_hw w1))"
  have hm: "cmem h = (cmem (w_hw w))(port_of d := mem_wr (cmem (w_hw w) (port_of d)) a buf)"
    using wr64s_mem [OF ad(4,5), of ?o "unat len div 8" buf "w_hw w1"] wr32s_mem [OF ad(4,5), of ?o "unat len div 4" buf "w_hw w1"]
      ad(1,2,3,6,7,8) wd len(3) unfolding h_def by (simp only: add_0_right split: if_split) auto
  have e: "e = int (unat len)" "w2 = w1\<lparr>w_hw := h\<rparr>"
    using awr ck pv(1) unfolding nfp_cpp_area_write_def nfp6000_area_write_def u si h_def by simp_all
  have p2: "pcie_wf n (w_pcie w2)" "cfg (w_pcie w2) = win" using pv e by simp_all
  have rel: "w_hw w' = h" "cfg (w_pcie w') = win"
    unfolding res(1) release_unlocks(5,6) [OF pv(2) p2(1)] using p2(2) e(2) by simp_all
  show ?thesis
    using e res rel hm write_gives_back [OF wr wf(1)] by simp
qed

end

end
