(* ===== verification/Cpp_Progress.thy ===== *)
theory Cpp_Progress
  imports Cpp_Memory
begin

text \<open>
  Accesses succeed: with a free BAR, memory for the area and an aligned range of a target that can
  be read and written, inside of one aperture, \<open>nfp_cpp_read\<close> returns the bytes of the range and
  \<open>nfp_cpp_write\<close> stores them. The functions for words of 32 and 64 bits follow.
\<close>

section \<open>Opening an area\<close>

definition word_access :: "u32 \<Rightarrow> u64 \<Rightarrow> bool" where
  "word_access d a \<longleftrightarrow>
     (let t = ucast (NFP_CPP_ID_TARGET_of d); act = ucast (NFP_CPP_ID_ACTION_of d);
          pp = nfp6000_target_pushpull (NFP_CPP_ID t act (ucast (NFP_CPP_ID_TOKEN_of d))) a
      in t < 16 \<and> (act = 0 \<or> act = NFP_CPP_ACTION_RW)
         \<and> (pp = Inr 17 \<and> a AND 3 = 0 \<or> pp = Inr 34 \<and> t = 7 \<and> act = NFP_CPP_ACTION_RW \<and> a AND 7 = 0))"

text \<open>A range that is accessed in words of the width of the target; MU reads and writes are always
  made in 32-bit words.\<close>

definition block_access :: "nat \<Rightarrow> u32 \<Rightarrow> u64 \<Rightarrow> u64 \<Rightarrow> bool" where
  "block_access n d a sz \<longleftrightarrow>
     (let t = ucast (NFP_CPP_ID_TARGET_of d); act = ucast (NFP_CPP_ID_ACTION_of d);
          pp = nfp6000_target_pushpull (NFP_CPP_ID t act (ucast (NFP_CPP_ID_TOKEN_of d))) a
      in t < 16 \<and> (act = 0 \<or> act = NFP_CPP_ACTION_RW)
         \<and> (pp = Inr 17 \<and> a AND 3 = 0 \<and> sz mod 4 = 0
            \<or> pp = Inr 34 \<and> a AND 7 = 0
              \<and> (if t = 7 \<and> act = NFP_CPP_ACTION_RW then sz mod 4 = 0 else sz mod 8 = 0)))
     \<and> 0 < unat sz \<and> unat sz < 2 ^ 31 \<and> (a + sz - 1) AND NOT (mask n) = a AND NOT (mask n)"

definition bus_ready :: "nat \<Rightarrow> 'h world \<Rightarrow> bool" where
  "bus_ready n w \<longleftrightarrow> pcie_wf n (w_pcie w) \<and> (\<exists>b\<in>{1, 2, 3}. \<not> bar_lock (bars (w_pcie w) ! b))
     \<and> w_mallocs w = []"

lemma word_in_aperture:
  fixes a :: u64
  assumes "a AND 3 = 0" "2 \<le> n"
  shows "(a + 4 - 1) AND NOT (mask n) = a AND NOT (mask n)"
proof -
  have "(3 :: u64) = mask 2" by (simp add: mask_eq_exp_minus_1)
  moreover have "a + 4 - 1 = a OR 3" using assms(1) by (simp add: disjunctive_add_eq_or flip: add_diff_eq)
  ultimately have "a + 4 - 1 = a OR mask 2" by simp
  then show ?thesis using assms(2)
    by (intro bit_word_eqI) (auto simp: bit_and_iff bit_or_iff bit_not_iff_eq bit_mask_iff)
qed

lemma and_7_3: "(a :: u64) AND 7 = 0 \<Longrightarrow> a AND 3 = 0"
proof -
  assume "a AND 7 = 0"
  then have "take_bit 3 a = 0" by (simp add: and_7)
  then have "take_bit 2 (take_bit 3 a) = 0" by simp
  then show ?thesis by (simp add: take_bit_take_bit and_3)
qed

lemma alloc_bar_free:
  assumes "bus_ready n w"
  obtains b where "b \<in> {1, 2, 3}" "nfp_alloc_bar (w_pcie w) = Some (b, (w_pcie w)\<lparr>bars :=
    (bars (w_pcie w))[b := (bars (w_pcie w) ! b)\<lparr>bar_lock := True\<rparr>]\<rparr>)"
proof -
  have "nfp_alloc_bar (w_pcie w) \<noteq> None" using assms by (auto simp: bus_ready_def alloc_bar_None)
  then obtain b p where ab: "nfp_alloc_bar (w_pcie w) = Some (b, p)" by auto
  show thesis by (rule that [OF alloc_bar_Some(1) [OF ab]]) (use ab alloc_bar_Some(3) [OF ab] in simp)
qed

lemma word_block: "word_access d a \<Longrightarrow> 2 \<le> n \<Longrightarrow> block_access n d a 4"
  using word_in_aperture [of a n] and_7_3 [of a] by (auto simp: word_access_def block_access_def Let_def)

text \<open>A BAR can be configured for the range.\<close>

lemma compute_bar_block:
  fixes a :: u64
  assumes "unat (bitsize bar) = n" "19 \<le> n" "n < 32" "t < 16" "act = 32 \<or> act = 0" "wd = 4 \<or> wd = 8"
    "(a + sz - 1) AND NOT (mask n) = a AND NOT (mask n)"
  shows "\<exists>c base. nfp_compute_bar bar t act tok a sz wd = Inr (c, base)"
proof -
  have m: "scast (NOT (P2C_BULK_SIZE bar - 1)) = (NOT (mask n) :: u64)"
    using aperture_mask [OF assms(3)] assms(1) by (simp add: P2C_BULK_SIZE_def)
  have z: "\<not> bitsize bar < 19" using assms(1,2) by (simp add: word_less_nat_alt)
  show ?thesis
    using assms(4,5,6,7) z assms(2)
    by (auto simp: nfp_compute_bar_def NFP_CPP_ACTION_RW_def m Let_def)
qed

definition block_widths :: "int \<Rightarrow> nfp6000_area_priv \<Rightarrow> u64 \<Rightarrow> bool" where
  "block_widths k priv sz \<longleftrightarrow> k = 4 \<and> sz mod 4 = 0
     \<or> k = 8 \<and> (if ap_target priv = 7 \<and> ap_action priv = NFP_CPP_ACTION_RW then sz mod 4 = 0 else sz mod 8 = 0)"

lemma area_init_block:
  assumes rdy: "bus_ready n w" and acc: "block_access n d a sz"
  obtains b k priv where "b \<in> {1, 2, 3}" "block_widths k priv sz"
    "a AND word_of_int (k - 1) = 0"
    "fst (nfp6000_area_init M d a sz p0 w) = 0" "fst (snd (nfp6000_area_init M d a sz p0 w)) = priv"
    "ap_bar priv = Some b" "width_read priv = k" "width_write priv = k" "ap_offset priv = a" "ap_size priv = sz"
proof -
  let ?t = "ucast (NFP_CPP_ID_TARGET_of d) :: u32" and ?act = "ucast (NFP_CPP_ID_ACTION_of d) :: u32"
    and ?tok = "ucast (NFP_CPP_ID_TOKEN_of d) :: u32"
  have wf: "pcie_wf n (w_pcie w)" using rdy by (simp add: bus_ready_def)
  have ap: "(a + sz - 1) AND NOT (mask n) = a AND NOT (mask n)" using acc by (simp add: block_access_def)
  obtain k pp where pp: "nfp6000_target_pushpull (NFP_CPP_ID ?t ?act ?tok) a = Inr pp"
    and k: "PUSH_WIDTH pp = Inr k" "PULL_WIDTH pp = Inr k"
    and kv: "k = 4 \<and> sz mod 4 = 0 \<or> k = 8 \<and> (if ?t = 7 \<and> ?act = NFP_CPP_ACTION_RW then sz mod 4 = 0 else sz mod 8 = 0)"
    and al: "a AND word_of_int (k - 1) = 0"
    using acc unfolding block_access_def Let_def by (elim conjE disjE) (simp_all add: width_values)
  have ta: "?t < 16" "?act = 0 \<or> ?act = 32" using acc by (auto simp: block_access_def Let_def NFP_CPP_ACTION_RW_def)
  have t: "sint ?t < 16"
    using ta(1) sint_ucast8 [of "NFP_CPP_ID_TARGET_of d"] unsigned_less [of "NFP_CPP_ID_TARGET_of d", where 'a = int]
    by (simp add: word_less_def unsigned_ucast_eq take_bit_int_eq_self)
  have act: "sint ?act = 32 \<or> sint ?act = 0" using ta(2) by (auto simp: ucast8_numeral sint_ucast8)
  obtain b where b: "b \<in> {1, 2, 3}" and ab: "nfp_alloc_bar (w_pcie w) = Some (b, (w_pcie w)\<lparr>bars :=
    (bars (w_pcie w))[b := (bars (w_pcie w) ! b)\<lparr>bar_lock := True\<rparr>]\<rparr>)" by (rule alloc_bar_free [OF rdy])
  have g: "bar_geom n (cfg (w_pcie w)) (Suc b) (bars (w_pcie w) ! b)" by (rule pcie_wf_bar [OF wf b])
  have bl: "b < length (bars (w_pcie w))" using b wf by (auto simp: pcie_wf_def)
  have n: "19 \<le> n" "n < 32" "cfg (w_pcie w) \<noteq> 0" using wf by (simp_all add: pcie_wf_def)
  have bz: "unat (bitsize ((bars (w_pcie w) ! b)\<lparr>bar_lock := True\<rparr>)) = n" using bar_geomD(2) [OF g] by simp
  have k48: "k = 4 \<or> k = 8" using kv by blast
  obtain c base where cb: "nfp_compute_bar ((bars (w_pcie w) ! b)\<lparr>bar_lock := True\<rparr>) (sint ?t) (sint ?act) (sint ?tok) a sz k
      = Inr (c, base)" using compute_bar_block [OF bz n(1,2) t act k48 ap] by blast
  have k0: "0 < k" using k48 by auto
  show thesis
    by (rule that [OF b, where k = k and priv = "fst (snd (nfp6000_area_init M d a sz p0 w))"])
      (use kv al k k0 pp ab cb bl n(3) in \<open>simp_all add: block_widths_def nfp6000_area_init_def nfp_reconfigure_bar_def
        nfp_bar_write_def Let_def split: prod.splits\<close>)
qed

lemma acquire_word:
  assumes "ap_bar priv = Some b" "bar_iomem (bars (w_pcie w) ! b) \<noteq> 0"
  shows "fst (nfp6000_area_acquire priv w) = 0" "snd (snd (nfp6000_area_acquire priv w)) = w"
    "ap_bar (fst (snd (nfp6000_area_acquire priv w))) = ap_bar priv"
    "ap_target (fst (snd (nfp6000_area_acquire priv w))) = ap_target priv"
    "ap_action (fst (snd (nfp6000_area_acquire priv w))) = ap_action priv"
    "ap_offset (fst (snd (nfp6000_area_acquire priv w))) = ap_offset priv"
    "ap_size (fst (snd (nfp6000_area_acquire priv w))) = ap_size priv"
    "width_read (fst (snd (nfp6000_area_acquire priv w))) = width_read priv"
    "width_write (fst (snd (nfp6000_area_acquire priv w))) = width_write priv"
  using assms by (simp_all add: nfp6000_area_acquire_def Let_def)

lemma area_init_iomem:
  assumes in1: "nfp6000_area_init M d a sz p0 w = (0, priv, w1)" and wf: "pcie_wf n (w_pcie w)"
    and pv: "ap_bar priv = Some b"
  shows "bar_iomem (bars (w_pcie w1) ! b) \<noteq> 0"
proof (rule area_init_ok [OF in1 _ wf])
  fix b' c base
  assume b': "b' \<in> {1, 2, 3}" "ap_bar priv = Some b'"
    and w1: "w_pcie w1 = (w_pcie w)\<lparr>bars := (bars (w_pcie w))[b' := (bars (w_pcie w) ! b')\<lparr>bar_lock := True,
     bar_base := base, bar_csr := cfg (w_pcie w) + CFG_BAR_PCIETOCPPEXPBAR 0 (Suc b'), barcfg := c\<rparr>]\<rparr>"
  have b: "b' = b" "b \<in> {1, 2, 3}" "b < length (bars (w_pcie w))" using b' pv wf by (auto simp: pcie_wf_def)
  then show ?thesis
    using w1 bar_geomD(4) [OF pcie_wf_bar [OF wf b(2)]] window_nonzero [OF wf, of "Suc b"] by auto
qed simp

lemma block_lengths:
  fixes sz :: u64
  assumes "unat sz < 2 ^ 31"
  shows "sint (ucast sz :: u32) = int (unat sz)" "unat (ucast sz :: u32) = unat sz" "ucast (ucast sz :: u32) = sz"
    "sz mod 4 = 0 \<Longrightarrow> (ucast sz :: u32) mod 4 = 0" "sz mod 8 = 0 \<Longrightarrow> (ucast sz :: u32) mod 8 = 0"
proof -
  show "sint (ucast sz :: u32) = int (unat sz)" using sint_small [OF assms] by simp
  show u: "unat (ucast sz :: u32) = unat sz" using assms by (simp add: unsigned_ucast_eq unsigned_take_bit_eq take_bit_nat_eq_self)
  then show "ucast (ucast sz :: u32) = sz" using assms
    by (simp add: word_unat_eq_iff unsigned_ucast_eq unsigned_take_bit_eq take_bit_nat_eq_self)
  have "unat ((ucast sz :: u32) mod 4) = unat (sz mod 4)" "unat ((ucast sz :: u32) mod 8) = unat (sz mod 8)"
    by (simp_all add: unat_mod u)
  then show "sz mod 4 = 0 \<Longrightarrow> (ucast sz :: u32) mod 4 = 0" "sz mod 8 = 0 \<Longrightarrow> (ucast sz :: u32) mod 8 = 0"
    by (simp_all add: word_unat_eq_iff)
qed

lemma alloc_acquire_block:
  assumes rdy: "bus_ready n w" and acc: "block_access n d a sz"
    and tr: "nfp_target_cpp dest address (Some (\<lambda>i. imb_cat_table (w_cpp w) ! i)) = Inr (d, a)"
    and lim: "address + sz \<le> push_bit 40 1"
  obtains ar w1 is64 where "nfp_cpp_area_alloc_acquire M dest address sz w = (Some ar, w1)" "area_size ar = sz"
    "area_access_check (width_read (area_priv ar)) (area_priv ar) 0 (ucast sz) = Inr is64"
    "area_access_check (width_write (area_priv ar)) (area_priv ar) 0 (ucast sz) = Inr is64"
proof (rule area_init_block [OF rdy acc, of M area_priv_zero])
  fix b k priv
  assume b: "b \<in> {1, 2, 3}" and kv: "block_widths k priv sz"
    and al: "a AND word_of_int (k - 1) = 0" and r: "fst (nfp6000_area_init M d a sz area_priv_zero w) = 0"
    and pr: "fst (snd (nfp6000_area_init M d a sz area_priv_zero w)) = priv"
    and pv: "ap_bar priv = Some b" "width_read priv = k" "width_write priv = k" "ap_offset priv = a" "ap_size priv = sz"
  have wf: "pcie_wf n (w_pcie w)" using rdy by (simp add: bus_ready_def)
  define w1 where "w1 = snd (snd (nfp6000_area_init M d a sz area_priv_zero w))"
  have in1: "nfp6000_area_init M d a sz area_priv_zero w = (0, priv, w1)"
    using r pr by (simp add: w1_def prod_eq_iff)
  have io: "bar_iomem (bars (w_pcie w1) ! b) \<noteq> 0" by (rule area_init_iomem [OF in1 wf pv(1)])
  let ?w = "w1\<lparr>w_errno := w_errno w\<rparr>"
  define priv2 where "priv2 = fst (snd (nfp6000_area_acquire priv ?w))"
  have io2: "bar_iomem (bars (w_pcie ?w) ! b) \<noteq> 0" using io by simp
  note aq = acquire_word [OF pv(1) io2, folded priv2_def]
  have ac: "nfp6000_area_acquire priv ?w = (0, priv2, ?w)" using aq(1,2) by (simp add: priv2_def prod_eq_iff)
  have cm: "c_malloc w = (True, w)" using rdy by (simp add: bus_ready_def c_malloc_def)
  have op: "nfp_cpp_area_alloc_acquire M dest address sz w =
      (Some \<lparr>area_name = [], area_offset = a, area_size = sz, area_priv = priv2\<rparr>, ?w)"
    using tr lim in1 ac cm
    by (simp add: nfp_cpp_area_alloc_acquire_def nfp_cpp_area_alloc_def nfp_cpp_area_alloc_with_name_def
        nfp_cpp_area_acquire_def Let_def not_less)
  have "unat sz < 2 ^ 31" using acc by (simp add: block_access_def)
  note bl = block_lengths [OF this]
  have "k = 4 \<and> (ucast sz :: u32) mod 4 = 0 \<or> k = 8 \<and> (if ap_target priv = 7 \<and> ap_action priv = NFP_CPP_ACTION_RW
      then (ucast sz :: u32) mod 4 = 0 else (ucast sz :: u32) mod 8 = 0)"
    using kv bl(4,5) unfolding block_widths_def by presburger
  then have "\<exists>is64. area_access_check k priv2 0 (ucast sz) = Inr is64"
    using aq(3-) pv al bl(3)
    by (elim disjE conjE; cases "ap_target priv = 7 \<and> ap_action priv = NFP_CPP_ACTION_RW")
      (simp_all add: area_access_check_def Let_def ex_bool_eq)
  then show thesis using aq(8,9) pv by (auto intro!: that [OF op])
qed

lemma block_succeeds:
  assumes "bus_ready n w" "block_access n d a sz"
    "nfp_target_cpp dest address (Some (\<lambda>i. imb_cat_table (w_cpp w) ! i)) = Inr (d, a)"
    "address + sz \<le> push_bit 40 1"
  shows "fst (nfp_cpp_read M dest address sz w) = int (unat sz)" "fst (nfp_cpp_write M dest address buf sz w) = int (unat sz)"
proof -
  obtain ar w1 is64 where al: "nfp_cpp_area_alloc_acquire M dest address sz w = (Some ar, w1)" "area_size ar = sz"
    "area_access_check (width_read (area_priv ar)) (area_priv ar) 0 (ucast sz) = Inr is64"
    "area_access_check (width_write (area_priv ar)) (area_priv ar) 0 (ucast sz) = Inr is64"
    by (rule alloc_acquire_block [OF assms, of M])
  have "unat sz < 2 ^ 31" using assms(2) by (simp add: block_access_def)
  note bl = block_lengths(1) [OF this]
  show "fst (nfp_cpp_read M dest address sz w) = int (unat sz)"
    using al bl by (simp add: nfp_cpp_read_def nfp_cpp_area_read_def nfp6000_area_read_def split: prod.splits)
  show "fst (nfp_cpp_write M dest address buf sz w) = int (unat sz)"
    using al bl by (simp add: nfp_cpp_write_def nfp_cpp_area_write_def nfp6000_area_write_def Let_def)
qed

lemma read_word_succeeds:
  assumes "bus_ready n w" "word_access d a"
    "nfp_target_cpp dest address (Some (\<lambda>i. imb_cat_table (w_cpp w) ! i)) = Inr (d, a)"
    "address + 4 \<le> push_bit 40 1"
  shows "fst (nfp_cpp_read M dest address 4 w) = 4"
proof -
  have "2 \<le> n" using assms(1) by (simp add: bus_ready_def pcie_wf_def)
  then show ?thesis using block_succeeds(1) [OF assms(1) word_block [OF assms(2)] assms(3,4), of M] by simp
qed

section \<open>Writing and reading back\<close>

lemma init_mallocs: "w_mallocs (snd (snd (nfp6000_area_init M d a sz p0 w))) = w_mallocs w"
  by (simp add: nfp6000_area_init_def nfp_reconfigure_bar_def nfp_bar_write_def Let_def
      split: sum.splits option.splits prod.splits)

lemma acquire_mallocs: "w_mallocs (snd (snd (nfp6000_area_acquire priv w))) = w_mallocs w"
  by (simp add: nfp6000_area_acquire_def null_deref_def Let_def split: option.splits)

lemma release_mallocs: "w_mallocs (nfp_cpp_area_release_free ar w) = w_mallocs w"
  by (simp add: nfp_cpp_area_release_free_def nfp_cpp_area_release_def nfp_cpp_area_free_def
      nfp6000_area_release_def null_deref_def Let_def split: option.splits)

lemma alloc_acquire_mallocs:
  assumes "w_mallocs w = []"
  shows "w_mallocs (snd (nfp_cpp_area_alloc_acquire M dest address sz w)) = []"
proof -
  have "c_malloc w' = (True, w')" if "w_mallocs w' = []" for w' :: "'a world" using that by (simp add: c_malloc_def)
  moreover have "w_mallocs v = []"
    if "nfp6000_area_init M d a sz area_priv_zero w = (r, p, v)" for d a r p v
    using init_mallocs [of M d a sz area_priv_zero w] that assms by simp
  moreover have "w_mallocs v = w_mallocs u" if "nfp6000_area_acquire p u = (r, q, v)"
    for p r q and u v :: "'a world"
    using acquire_mallocs [of p u] that by simp
  ultimately show ?thesis using assms
    by (auto simp: nfp_cpp_area_alloc_acquire_def nfp_cpp_area_alloc_def nfp_cpp_area_alloc_with_name_def
        nfp_cpp_area_acquire_def nfp_cpp_area_free_def NFP_ERRNO_def Let_def split: sum.splits prod.splits option.splits)
qed

lemma read_mallocs:
  assumes "w_mallocs w = []"
  shows "w_mallocs (snd (snd (nfp_cpp_read M dest address len w))) = []"
proof -
  obtain oa w1 where al: "nfp_cpp_area_alloc_acquire M dest address len w = (oa, w1)" by (metis surj_pair)
  have w1: "w_mallocs w1 = []" using alloc_acquire_mallocs [OF assms, of M dest address len] al by simp
  have "w_mallocs v = []" if "nfp_cpp_area_read M ar 0 len w1 = (r, bs, v)" for ar r bs v
    using that w1 by (auto simp: nfp_cpp_area_read_def nfp6000_area_read_def NFP_ERRNO_def Let_def
        split: if_splits sum.splits prod.splits)
  then show ?thesis using al w1
    by (simp add: nfp_cpp_read_def release_mallocs split: option.splits prod.splits)
qed

lemma write_mallocs:
  assumes "w_mallocs w = []"
  shows "w_mallocs (snd (nfp_cpp_write M dest address buf len w)) = []"
proof -
  obtain oa w1 where al: "nfp_cpp_area_alloc_acquire M dest address len w = (oa, w1)" by (metis surj_pair)
  have w1: "w_mallocs w1 = []" using alloc_acquire_mallocs [OF assms, of M dest address len] al by simp
  have "w_mallocs v = []" if "nfp_cpp_area_write M ar 0 buf len w1 = (r, v)" for ar r v
    using that w1 by (auto simp: nfp_cpp_area_write_def nfp6000_area_write_def NFP_ERRNO_def Let_def
        split: if_splits sum.splits prod.splits)
  then show ?thesis using al w1
    by (simp add: nfp_cpp_write_def release_mallocs split: option.splits prod.splits)
qed

lemma bus_ready_same:
  assumes "bus_ready n w" "bus_same n w w'" "w_mallocs w' = []"
  shows "bus_ready n w'"
proof -
  obtain b where b: "b \<in> {1, 2, 3}" "\<not> bar_lock (bars (w_pcie w) ! b)" using assms(1) by (auto simp: bus_ready_def)
  have wf: "pcie_wf n (w_pcie w)" "pcie_wf n (w_pcie w')" "bar_locks w' = bar_locks w"
    using assms by (simp_all add: bus_ready_def bus_same_def)
  have "b < length (bars (w_pcie w))" "b < length (bars (w_pcie w'))" using b wf by (auto simp: pcie_wf_def)
  then have "\<not> bar_lock (bars (w_pcie w') ! b)" using b(2) wf(3) by (metis bar_locks_def nth_map)
  then show ?thesis using b(1) wf(2) assms(3) by (auto simp: bus_ready_def)
qed

context pcie2cpp
begin

lemma read_block:
  assumes rdy: "bus_ready n w" "cfg (w_pcie w) = win" and acc: "block_access n d a sz" "take_bit 40 a = a"
    and tr: "nfp_target_cpp dest address (Some (\<lambda>i. imb_cat_table (w_cpp w) ! i)) = Inr (d, a)"
      "address + sz \<le> push_bit 40 1"
  obtains w' where "nfp_cpp_read M dest address sz w =
      (int (unat sz), mem_rd (cmem (w_hw w) (port_of d)) a (unat sz), w')"
    "bus_ready n w'" "cfg (w_pcie w') = win" "w_cpp w' = w_cpp w" "cmem (w_hw w') = cmem (w_hw w)" "w_fault w' = w_fault w"
proof -
  obtain r bs w' where rd: "nfp_cpp_read M dest address sz w = (r, bs, w')" by (metis prod_cases3)
  have r: "0 \<le> r" using block_succeeds(1) [OF rdy(1) acc(1) tr, of M] rd by simp
  have wf: "pcie_wf n (w_pcie w)" and m0: "w_mallocs w = []" using rdy by (simp_all add: bus_ready_def)
  have len: "0 < unat sz" "unat sz < 2 ^ 31" using acc(1) by (simp_all add: block_access_def)
  have m: "r = int (unat sz)" "bs = mem_rd (cmem (w_hw w) (port_of d)) a (unat sz)" "cmem (w_hw w') = cmem (w_hw w)"
    "bus_same n w w'" "cfg (w_pcie w') = win" using cpp_read_mem [OF rd r wf rdy(2) tr(1) acc(2) len] by simp_all
  have "w_mallocs w' = []" using read_mallocs [OF m0, of M dest address sz] rd by simp
  then have "bus_ready n w'" by (rule bus_ready_same [OF rdy(1) m(4)])
  then show thesis using that rd m by (simp add: bus_same_def)
qed

lemma write_block:
  assumes rdy: "bus_ready n w" "cfg (w_pcie w) = win" and acc: "block_access n d a sz" "take_bit 40 a = a"
    and tr: "nfp_target_cpp dest address (Some (\<lambda>i. imb_cat_table (w_cpp w) ! i)) = Inr (d, a)"
      "address + sz \<le> push_bit 40 1" and buf: "length buf = unat sz"
  obtains w' where "nfp_cpp_write M dest address buf sz w = (int (unat sz), w')"
    "bus_ready n w'" "cfg (w_pcie w') = win" "w_cpp w' = w_cpp w" "w_fault w' = w_fault w"
    "cmem (w_hw w') = (cmem (w_hw w))(port_of d := mem_wr (cmem (w_hw w) (port_of d)) a buf)"
proof -
  obtain r w' where wr: "nfp_cpp_write M dest address buf sz w = (r, w')" by (metis surj_pair)
  have r: "0 \<le> r" using block_succeeds(2) [OF rdy(1) acc(1) tr, of M buf] wr by simp
  have wf: "pcie_wf n (w_pcie w)" and m0: "w_mallocs w = []" using rdy by (simp_all add: bus_ready_def)
  have len: "0 < unat sz" "unat sz < 2 ^ 31" using acc(1) by (simp_all add: block_access_def)
  have m: "r = int (unat sz)" "cmem (w_hw w') = (cmem (w_hw w))(port_of d := mem_wr (cmem (w_hw w) (port_of d)) a buf)"
    "bus_same n w w'" "cfg (w_pcie w') = win" using cpp_write_mem [OF wr r wf rdy(2) tr(1) acc(2) len buf] by simp_all
  have "w_mallocs w' = []" using write_mallocs [OF m0, of M dest address buf sz] wr by simp
  then have "bus_ready n w'" by (rule bus_ready_same [OF rdy(1) m(3)])
  then show thesis using that wr m by (simp add: bus_same_def)
qed

text \<open>Words of 32 and 64 bits.\<close>

definition bus_word :: "'h world \<Rightarrow> u32 \<Rightarrow> u64 \<Rightarrow> u32" where
  "bus_word w d a = le_word (mem_rd (cmem (w_hw w) (port_of d)) a 4)"

lemma ready_aperture: "bus_ready n w \<Longrightarrow> 2 \<le> n"
  by (simp add: bus_ready_def pcie_wf_def)

lemma readl_word:
  assumes rdy: "bus_ready n w" "cfg (w_pcie w) = win" and acc: "word_access d a" "take_bit 40 a = a"
    and tr: "nfp_target_cpp dest address (Some (\<lambda>i. imb_cat_table (w_cpp w) ! i)) = Inr (d, a)"
      "address + 4 \<le> push_bit 40 1"
  obtains w' where "nfp_cpp_readl M dest address w = (Inr (bus_word w d a), w')"
    "bus_ready n w'" "cfg (w_pcie w') = win" "w_cpp w' = w_cpp w" "cmem (w_hw w') = cmem (w_hw w)"
  by (rule read_block [OF rdy word_block [OF acc(1) ready_aperture [OF rdy(1)]] acc(2) tr])
    (use that in \<open>simp add: nfp_cpp_readl_def bus_word_def\<close>)

lemma writel_word:
  assumes rdy: "bus_ready n w" "cfg (w_pcie w) = win" and acc: "word_access d a" "take_bit 40 a = a"
    and tr: "nfp_target_cpp dest address (Some (\<lambda>i. imb_cat_table (w_cpp w) ! i)) = Inr (d, a)"
      "address + 4 \<le> push_bit 40 1"
  obtains w' where "nfp_cpp_writel M dest address v w = (0, w')"
    "bus_ready n w'" "cfg (w_pcie w') = win" "w_cpp w' = w_cpp w"
    "cmem (w_hw w') = (cmem (w_hw w))(port_of d := mem_wr (cmem (w_hw w) (port_of d)) a (le_bytes 4 v))"
  by (rule write_block [OF rdy word_block [OF acc(1) ready_aperture [OF rdy(1)]] acc(2) tr, of "le_bytes 4 v"])
    (use that in \<open>simp_all add: nfp_cpp_writel_def\<close>)

lemma readq_quad:
  assumes rdy: "bus_ready n w" "cfg (w_pcie w) = win" and acc: "block_access n d a 8" "take_bit 40 a = a"
    and tr: "nfp_target_cpp dest address (Some (\<lambda>i. imb_cat_table (w_cpp w) ! i)) = Inr (d, a)"
      "address + 8 \<le> push_bit 40 1"
  obtains w' where "nfp_cpp_readq M dest address w = (Inr (le_word (mem_rd (cmem (w_hw w) (port_of d)) a 8)), w')"
    "bus_ready n w'" "cfg (w_pcie w') = win" "w_cpp w' = w_cpp w" "cmem (w_hw w') = cmem (w_hw w)" "w_fault w' = w_fault w"
  by (rule read_block [OF rdy acc tr]) (use that in \<open>simp add: nfp_cpp_readq_def\<close>)

lemma writeq_quad:
  assumes rdy: "bus_ready n w" "cfg (w_pcie w) = win" and acc: "block_access n d a 8" "take_bit 40 a = a"
    and tr: "nfp_target_cpp dest address (Some (\<lambda>i. imb_cat_table (w_cpp w) ! i)) = Inr (d, a)"
      "address + 8 \<le> push_bit 40 1"
  obtains w' where "nfp_cpp_writeq M dest address v w = (0, w')"
    "bus_ready n w'" "cfg (w_pcie w') = win" "w_cpp w' = w_cpp w" "w_fault w' = w_fault w"
    "cmem (w_hw w') = (cmem (w_hw w))(port_of d := mem_wr (cmem (w_hw w) (port_of d)) a (le_bytes 8 v))"
  by (rule write_block [OF rdy acc tr, of "le_bytes 8 v"]) (use that in \<open>simp_all add: nfp_cpp_writeq_def\<close>)

lemma writel_readl:
  assumes rdy: "bus_ready n w" "cfg (w_pcie w) = win" and acc: "word_access d a" "take_bit 40 a = a"
    and tr: "nfp_target_cpp dest address (Some (\<lambda>i. imb_cat_table (w_cpp w) ! i)) = Inr (d, a)"
      "address + 4 \<le> push_bit 40 1"
  shows "\<exists>w1 w2. nfp_cpp_writel M dest address v w = (0, w1) \<and> nfp_cpp_readl M dest address w1 = (Inr v, w2)
    \<and> bus_ready n w2"
proof -
  obtain w1 where w1: "nfp_cpp_writel M dest address v w = (0, w1)"
    "bus_ready n w1" "cfg (w_pcie w1) = win" "w_cpp w1 = w_cpp w"
    "cmem (w_hw w1) = (cmem (w_hw w))(port_of d := mem_wr (cmem (w_hw w) (port_of d)) a (le_bytes 4 v))"
    by (rule writel_word [OF rdy acc tr, of v])
  obtain w2 where w2: "nfp_cpp_readl M dest address w1 = (Inr (bus_word w1 d a), w2)" "bus_ready n w2"
    by (rule readl_word [OF w1(2,3) acc tr [folded w1(4)]])
  have "bus_word w1 d a = v" by (simp add: bus_word_def w1(5) mem_rd_wr_same)
  then show ?thesis using w1(1) w2 by auto
qed

end

end
