(* ===== verification/Cpp_Start.thy ===== *)
theory Cpp_Start
  imports Cpp_Core
begin

text \<open>
  The XPB bus, filling an area, and bringing up a CPP handle: PCI configuration space,
  \<open>nfp6000_init\<close> and \<open>nfp6000_free\<close> of user/nfpcore/nfp_cpp_pcie_ops.c, model detection and
  \<open>nfp_cpp_alloc\<close> of nfp_cppcore.c, and the accessors of nfp6000/nfp_xpb.h.
\<close>

section \<open>The XPB bus\<close>

definition NFP_XPB_OVERLAY :: "u32 \<Rightarrow> u32" where
  "NFP_XPB_OVERLAY island = push_bit 24 (island AND 0x3f)"

definition NFP_XPB_ISLAND :: "u32 \<Rightarrow> u32" where
  "NFP_XPB_ISLAND island = NFP_XPB_OVERLAY island + 0x60000"

definition NFP_XPB_ISLAND_of :: "u32 \<Rightarrow> u32" where
  "NFP_XPB_ISLAND_of offset = drop_bit 24 offset AND 0x3F"

definition NFP_XPB_DEVICE :: "u32 \<Rightarrow> u32 \<Rightarrow> u32 \<Rightarrow> u32" where
  "NFP_XPB_DEVICE island slave device =
     NFP_XPB_OVERLAY island OR push_bit 22 (slave AND 3) OR push_bit 16 (device AND 0x3f)"

definition nfp_xpb_to_cpp :: "'h world \<Rightarrow> u32 \<Rightarrow> u32 \<times> u32" where
  "nfp_xpb_to_cpp w xpb_addr =
     (if \<not> NFP_CPP_MODEL_IS_6000 (model (w_cpp w)) then (0, xpb_addr)
      else
        let xpb = NFP_CPP_ID 14 NFP_CPP_ACTION_RW 0;
            island = drop_bit 24 xpb_addr AND 0x3f
        in if island = 0 then (xpb, xpb_addr)
           else if island = 1 then
             let xpb_addr = xpb_addr AND NOT 0x7f000000
             in if xpb_addr < 0x60000 then (xpb, xpb_addr OR push_bit 30 1)
                else if NFP_CPP_INTERFACE_TYPE_of (ucast (nfp_cpp_interface w)) \<noteq> NFP_CPP_INTERFACE_TYPE_ARM
                then (xpb, xpb_addr OR push_bit 24 1)
                else (xpb, xpb_addr)
           else (xpb, xpb_addr OR push_bit 30 1))"

definition nfp_xpb_writel :: "'h mmio \<Rightarrow> u32 \<Rightarrow> u32 \<Rightarrow> 'h world \<Rightarrow> int \<times> 'h world" where
  "nfp_xpb_writel M xpb_addr v w =
     (let (cpp_dest, xpb_addr) = nfp_xpb_to_cpp w xpb_addr
      in nfp_cpp_writel M cpp_dest (ucast xpb_addr) v w)"

definition nfp_xpb_readl :: "'h mmio \<Rightarrow> u32 \<Rightarrow> 'h world \<Rightarrow> (c_fail + u32) \<times> 'h world" where
  "nfp_xpb_readl M xpb_addr w =
     (let (cpp_dest, xpb_addr) = nfp_xpb_to_cpp w xpb_addr
      in nfp_cpp_readl M cpp_dest (ucast xpb_addr) w)"

definition nfp_xpb_writelm :: "'h mmio \<Rightarrow> u32 \<Rightarrow> u32 \<Rightarrow> u32 \<Rightarrow> 'h world \<Rightarrow> int \<times> 'h world" where
  "nfp_xpb_writelm M xpb_tgt msk v w =
     (case nfp_xpb_readl M xpb_tgt w of
        (Inl e, w) \<Rightarrow> (ret_code e, w)
      | (Inr tmp, w) \<Rightarrow> nfp_xpb_writel M xpb_tgt ((tmp AND NOT msk) OR (msk AND v)) w)"

text \<open>A \<open>continue\<close> in a \<open>do\<close> loop goes to its condition, so a negative timeout ends the loop
  after one read.\<close>

function nfp_xpb_waitlm :: "'h mmio \<Rightarrow> u32 \<Rightarrow> u32 \<Rightarrow> u32 \<Rightarrow> int \<Rightarrow> 'h world \<Rightarrow> int \<times> 'h world" where
  "nfp_xpb_waitlm M xpb_tgt msk v timeout_us w =
     (case nfp_xpb_readl M xpb_tgt w of
        (Inl e, w) \<Rightarrow> (ret_code e, w)
      | (Inr tmp, w) \<Rightarrow>
          if tmp AND msk = v AND msk then (if timeout_us < 0 then 0 else timeout_us, w)
          else if timeout_us < 0 then NFP_ERRNO ETIMEDOUT w
          else if timeout_us - 100 \<ge> 0 then nfp_xpb_waitlm M xpb_tgt msk v (timeout_us - 100) w
          else NFP_ERRNO ETIMEDOUT w)"
  by pat_completeness auto
termination by (relation "measure (\<lambda>(M, t, m, v, timeout_us, w). nat timeout_us)") auto

declare nfp_xpb_waitlm.simps [simp del]

section \<open>Filling an area\<close>

text \<open>The loop that writes 64-bit words; \<open>Inl\<close> carries an early return. Lengths are far below
  the range of \<open>size_t\<close>, the counter does not wrap.\<close>

function fill_loop ::
  "'h mmio \<Rightarrow> nfp_cpp_area \<Rightarrow> u64 \<Rightarrow> u64 \<Rightarrow> nat \<Rightarrow> nat \<Rightarrow> 'h world \<Rightarrow> (int + nat) \<times> 'h world" where
  "fill_loop M area offset value64 len i w =
     (if i + 4 < len
      then let (err, w) = nfp_cpp_area_write M area (offset + of_nat i) (le_bytes 8 value64) 8 w
           in if err < 0 then (Inl err, w)
              else if err \<noteq> 8 then let (r, w) = NFP_ERRNO ENOSPC w in (Inl r, w)
              else fill_loop M area offset value64 len (i + 8) w
      else (Inr i, w))"
  by pat_completeness auto
termination by (relation "measure (\<lambda>(M, a, off, v, len, i, w). len - i)") auto

declare fill_loop.simps [simp del]

definition fill_word ::
  "'h mmio \<Rightarrow> nfp_cpp_area \<Rightarrow> u64 \<Rightarrow> u32 \<Rightarrow> 'h world \<Rightarrow> (int + unit) \<times> 'h world" where
  "fill_word M area offset v w =
     (let (err, w) = nfp_cpp_area_write M area offset (le_bytes 4 v) 4 w
      in if err < 0 then (Inl err, w)
         else if err \<noteq> 4 then let (r, w) = NFP_ERRNO ENOSPC w in (Inl r, w)
         else (Inr (), w))"

definition nfp_cpp_area_fill ::
  "'h mmio \<Rightarrow> nfp_cpp_area \<Rightarrow> u64 \<Rightarrow> u32 \<Rightarrow> u64 \<Rightarrow> 'h world \<Rightarrow> int \<times> 'h world" where
  "nfp_cpp_area_fill M area offset v len w =
     (let value64 = push_bit 32 (ucast v) OR ucast v
      in if offset + len > area_size area then NFP_ERRNO EINVAL w
         else if (area_offset area + offset) AND 3 \<noteq> 0 then NFP_ERRNO EINVAL w
         else
           let unaligned = ((area_offset area + offset) AND 7 = 4 \<and> len \<ge> 4)
           in case (if unaligned then fill_word M area offset v w else (Inr (), w)) of
                (Inl r, w) \<Rightarrow> (r, w)
              | (Inr _, w) \<Rightarrow>
                  let offset = (if unaligned then offset + 4 else offset);
                      len = (if unaligned then len - 4 else len)
                  in (case fill_loop M area offset value64 (unat len) 0 w of
                        (Inl r, w) \<Rightarrow> (r, w)
                      | (Inr i, w) \<Rightarrow>
                          if i + 4 \<le> unat len
                          then (case fill_word M area (offset + of_nat i) v w of
                                  (Inl r, w) \<Rightarrow> (r, w)
                                | (Inr _, w) \<Rightarrow> (sint (of_nat (i + 4) :: 32 word), w))
                          else (sint (of_nat i :: 32 word), w)))"

section \<open>PCI configuration space\<close>

text \<open>The PCI device: its name, its first memory resource, reads of the configuration space
  (\<open>rte_pci_read_config\<close> of pci.c, \<open>None\<close> when \<open>pread\<close> fails) and what the operating system
  answers to the calls that take the lock file.\<close>

record pci_device =
  dev_name :: string
  res_len :: u64
  res_addr :: u64
  cfg_read :: "nat \<Rightarrow> int \<Rightarrow> u8 list option"
  lock_open :: int
  lock_fcntl :: "(int \<times> errno) list"

definition PCI_EXT_CAP_ID :: "u32 \<Rightarrow> int" where
  "PCI_EXT_CAP_ID header = uint (header AND 0x0000ffff)"

definition PCI_EXT_CAP_NEXT :: "u32 \<Rightarrow> int" where
  "PCI_EXT_CAP_NEXT header = uint (drop_bit 20 header AND 0xffc)"

fun ext_cap_loop :: "pci_device \<Rightarrow> int \<Rightarrow> nat \<Rightarrow> u32 \<Rightarrow> int \<Rightarrow> int" where
  "ext_cap_loop dev cap 0 header pos = 0"
| "ext_cap_loop dev cap (Suc ttl) header pos =
     (if PCI_EXT_CAP_ID header = cap then pos
      else
        let pos = PCI_EXT_CAP_NEXT header
        in if pos < 256 then 0
           else case cfg_read dev 4 pos of
                  None \<Rightarrow> -1
                | Some bs \<Rightarrow> ext_cap_loop dev cap ttl (le_word bs) pos)"

definition nfp_pci_find_next_ext_capability :: "pci_device \<Rightarrow> int \<Rightarrow> int" where
  "nfp_pci_find_next_ext_capability dev cap =
     (let pos = 256; ttl = (4096 - 256) div 8
      in case cfg_read dev 4 pos of
           None \<Rightarrow> -1
         | Some bs \<Rightarrow>
             let header = le_word bs in if header = 0 then 0 else ext_cap_loop dev cap ttl header pos)"

definition PCI_EXT_CAP_ID_DSN :: int where "PCI_EXT_CAP_ID_DSN = 3"

section \<open>Starting the transport\<close>

fun lock_wait :: "(int \<times> errno) list \<Rightarrow> int option" where
  "lock_wait [] = None"
| "lock_wait ((rc, e) # rest) =
     (if rc < 0 then if e \<noteq> EAGAIN \<and> e \<noteq> EACCES then Some rc else lock_wait rest
      else if rc \<noteq> 0 then lock_wait rest
      else Some 0)"

definition nfp_acquire_process_lock :: "pci_device \<Rightarrow> int option" where
  "nfp_acquire_process_lock dev =
     (if lock_open dev < 0 then Some (lock_open dev) else lock_wait (lock_fcntl dev))"

definition nfp6000_set_model :: "'h world \<Rightarrow> int \<times> 'h world" where
  "nfp6000_set_model w = (0, nfp_cpp_model_set 0 w)"

definition nfp6000_set_interface :: "pci_device \<Rightarrow> 'h world \<Rightarrow> int \<times> 'h world" where
  "nfp6000_set_interface dev w =
     (let pos = nfp_pci_find_next_ext_capability dev PCI_EXT_CAP_ID_DSN
      in if pos = 0 then (-1, w)
         else case cfg_read dev 4 (pos + 4) of
                None \<Rightarrow> (-1, w)
              | Some bs \<Rightarrow> (0, nfp_cpp_interface_set (le_word bs AND 0xffff) w))"

definition nfp6000_set_serial :: "pci_device \<Rightarrow> 'h world \<Rightarrow> int \<times> 'h world" where
  "nfp6000_set_serial dev w =
     (let pos = nfp_pci_find_next_ext_capability dev PCI_EXT_CAP_ID_DSN;
          split16 = (\<lambda>bs. let tmp = (le_word bs :: u16)
                          in [ucast (drop_bit 8 tmp AND 0xff), ucast (tmp AND 0xff)] :: u8 list)
      in if pos \<le> 0 then (-1, w)
         else
           let pos = pos + 6
           in case cfg_read dev 2 pos of
                None \<Rightarrow> (-1, w)
              | Some b45 \<Rightarrow> (case cfg_read dev 2 (pos + 2) of
                  None \<Rightarrow> (-1, w)
                | Some b23 \<Rightarrow> (case cfg_read dev 2 (pos + 2 + 2) of
                    None \<Rightarrow> (-1, w)
                  | Some b01 \<Rightarrow>
                      let (r, w) = nfp_cpp_serial_set (split16 b01 @ split16 b23 @ split16 b45) w
                      in (0, w))))"

function shift_count :: "u64 \<Rightarrow> int \<Rightarrow> int" where
  "shift_count tmp i = (if drop_bit 1 tmp \<noteq> 0 then shift_count (drop_bit 1 tmp) (i + 1) else i)"
  by pat_completeness auto
termination
proof (relation "measure (\<lambda>(tmp, i). unat tmp)", simp, goal_cases)
  case (1 tmp i)
  then have "unat tmp \<noteq> 0" by (metis drop_bit_of_0 unat_eq_0)
  moreover have "unat (drop_bit 1 tmp) = unat tmp div 2"
    by (simp add: drop_bit_eq_div unat_div)
  ultimately show ?case by simp
qed

declare shift_count.simps [simp del]

definition nfp6000_set_barsz :: "pci_device \<Rightarrow> nfp_pcie_user \<Rightarrow> nfp_pcie_user" where
  "nfp6000_set_barsz dev desc = desc\<lparr>barsz := shift_count (res_len dev) 0\<rparr>"

text \<open>\<open>strlcpy\<close> into the 13 bytes of \<open>busdev\<close>. Only the primary process is supported
  (\<open>rte_eal_process_type\<close>). \<open>None\<close>: the process still waits for the lock.\<close>

definition nfp6000_init :: "pci_device \<Rightarrow> 'h world \<Rightarrow> (int \<times> 'h world) option" where
  "nfp6000_init dev w =
     (let (ok, w) = c_malloc w
      in if \<not> ok then Some (-1, w)
         else
           let desc = (w_pcie w)\<lparr>busdev := take 12 (dev_name dev)\<rparr>
           in case (if rte_eal_process_type = RTE_PROC_PRIMARY \<and> driver_lock_needed (w_cpp w)
                    then nfp_acquire_process_lock dev else Some 0) of
                None \<Rightarrow> None
              | Some ret \<Rightarrow>
                  if ret \<noteq> 0 then Some (-1, w)
                  else
                    let (r1, w) = nfp6000_set_model w
                    in if r1 < 0 then Some (-1, w) else
                    let (r2, w) = nfp6000_set_interface dev w
                    in if r2 < 0 then Some (-1, w) else
                    let (r3, w) = nfp6000_set_serial dev w
                    in if r3 < 0 then Some (-1, w) else
                    let desc = nfp6000_set_barsz dev desc;
                        desc = nfp_enable_bars (desc\<lparr>cfg := res_addr dev\<rparr>)
                    in Some (0, w\<lparr>w_pcie := desc\<rparr>))"

definition nfp6000_free :: "'h world \<Rightarrow> 'h world" where
  "nfp6000_free w = w\<lparr>w_pcie := nfp_disable_bars (w_pcie w)\<rparr>"

section \<open>Model detection and the handle\<close>

definition nfp_cpp_model_autodetect :: "'h mmio \<Rightarrow> 'h world \<Rightarrow> u32 \<times> 'h world" where
  "nfp_cpp_model_autodetect M w =
     (case nfp_cpp_readl M (NFP_CPP_ID 10 0 0) 0x00400144 w of
        (Inl _, w) \<Rightarrow> (0, w)
      | (Inr mdl, w) \<Rightarrow>
          if NFP_CPP_MODEL_IS_6000 mdl
          then
            let w = nfp_cpp_model_set mdl w; mdl = mdl AND NOT 0xff
            in (case nfp_xpb_readl M (NFP_XPB_DEVICE 1 1 16 + 4) w of
                  (Inl _, w) \<Rightarrow> (0, w)
                | (Inr tmp, w) \<Rightarrow> (mdl OR ((0xff AND tmp) - 0x10), w))
          else (mdl, w))"

definition nfp_cpp_model :: "'h mmio \<Rightarrow> 'h world \<Rightarrow> u32 \<times> 'h world" where
  "nfp_cpp_model M w =
     (if model (w_cpp w) = 0
      then let (m, w) = nfp_cpp_model_autodetect M w in (m, nfp_cpp_model_set m w)
      else (model (w_cpp w), w))"

fun read_imb_table :: "'h mmio \<Rightarrow> nat list \<Rightarrow> 'h world \<Rightarrow> bool \<times> 'h world" where
  "read_imb_table M [] w = (True, w)"
| "read_imb_table M (tgt # tgts) w =
     (case nfp_xpb_readl M (0x000a0000 + of_nat tgt * 4) w of
        (Inl _, w) \<Rightarrow> (False, w)
      | (Inr v, w) \<Rightarrow>
          read_imb_table M tgts
            (w\<lparr>w_cpp := (w_cpp w)\<lparr>imb_cat_table := (imb_cat_table (w_cpp w))[tgt := v]\<rparr>\<rparr>))"

definition cpp_zero :: "bool \<Rightarrow> nfp_cpp" where
  "cpp_zero lock = \<lparr>model = 0, interface = 0, serial = [], imb_cat_table = replicate 16 0,
     driver_lock_needed = lock\<rparr>"

text \<open>\<open>Some (True, w)\<close> when a handle is returned, \<open>Some (False, w)\<close> for \<open>NULL\<close>.\<close>

definition nfp_cpp_alloc ::
  "'h mmio \<Rightarrow> pci_device \<Rightarrow> bool \<Rightarrow> 'h world \<Rightarrow> (bool \<times> 'h world) option" where
  "nfp_cpp_alloc M dev lock_needed w =
     (let (ok, w) = c_malloc w
      in if \<not> ok then Some (False, w)
         else case nfp6000_init dev (w\<lparr>w_cpp := cpp_zero lock_needed\<rparr>) of
                None \<Rightarrow> None
              | Some (err, w) \<Rightarrow>
                  if err < 0 then Some (False, w)
                  else
                    let (m, w) = nfp_cpp_model M w
                    in if NFP_CPP_MODEL_IS_6000 m then Some (read_imb_table M [0..<16] w)
                       else Some (True, w))"

definition nfp_cpp_from_device_name ::
  "'h mmio \<Rightarrow> pci_device \<Rightarrow> bool \<Rightarrow> 'h world \<Rightarrow> (bool \<times> 'h world) option" where
  "nfp_cpp_from_device_name M dev lock_needed w = nfp_cpp_alloc M dev lock_needed w"

definition nfp_cpp_free :: "'h world \<Rightarrow> 'h world" where
  "nfp_cpp_free w = nfp6000_free w"

end
