(* ===== verification/Cpp_Device.thy ===== *)
theory Cpp_Device
  imports Cpp_Progress Cpp_Start
begin

text \<open>
  A device that meets the contract \<open>pcie2cpp\<close>: a window of eight apertures of 2 MiB (a 16 MiB
  resource) at any address \<open>W\<close>, the BAR registers in aperture 0 and CPP memory behind the others.
  It shows that the hypotheses about the hardware can hold and is the device of the witnesses.
\<close>

record p2c_hw =
  p_csr :: "nat \<Rightarrow> u32"
  p_mem :: "cpp_port \<Rightarrow> mem"

definition p2c_at :: "u64 \<Rightarrow> p2c_hw \<Rightarrow> cpp_port \<times> u64" where
  "p2c_at off h =
     (let c = p_csr h (unat off div 2 ^ 21) in (p2c_port c, p2c_base c + of_nat (unat off mod 2 ^ 21)))"

definition p2c_store :: "u64 \<Rightarrow> u8 list \<Rightarrow> p2c_hw \<Rightarrow> p2c_hw" where
  "p2c_store off bs h =
     (let (p, a) = p2c_at off h in h\<lparr>p_mem := (p_mem h)(p := mem_wr (p_mem h p) a bs)\<rparr>)"

definition p2c_mmio :: "u64 \<Rightarrow> p2c_hw mmio" where
  "p2c_mmio W = \<lparr>
     io_rd32 = (\<lambda>a h. let (p, x) = p2c_at (a - W) h in (le_word (mem_rd (p_mem h p) x 4), h)),
     io_wr32 = (\<lambda>a v h.
       if a - W < 0x200000 then h\<lparr>p_csr := (p_csr h)(unat (a - W - 0x30000) div 4 := v)\<rparr>
       else p2c_store (a - W) (le_bytes 4 v) h),
     io_rd64 = (\<lambda>a h. let (p, x) = p2c_at (a - W) h in (le_word (mem_rd (p_mem h p) x 8), h)),
     io_wr64 = (\<lambda>a v h. p2c_store (a - W) (le_bytes 8 v) h)\<rparr>"

lemma p2c_at_slot:
  assumes "x < 8" "k < 2 ^ 21"
  shows "p2c_at (of_nat (x * 2 ^ 21 + k)) h =
    (p2c_port (p_csr h x), p2c_base (p_csr h x) + of_nat k)" "unat (of_nat (x * 2 ^ 21 + k) :: u64) = x * 2 ^ 21 + k"
proof -
  have "x * 2 ^ 21 \<le> 7 * 2 ^ 21" using assms(1) by simp
  then have lt: "x * 2 ^ 21 + k < 2 ^ 64" using assms(2) by simp
  show u: "unat (of_nat (x * 2 ^ 21 + k) :: u64) = x * 2 ^ 21 + k" by (rule unat_of_nat64 [OF lt])
  have "(x * 2 ^ 21 + k) div 2 ^ 21 = x" "(x * 2 ^ 21 + k) mod 2 ^ 21 = k" using assms(2) by simp_all
  then show "p2c_at (of_nat (x * 2 ^ 21 + k)) h = (p2c_port (p_csr h x), p2c_base (p_csr h x) + of_nat k)"
    by (simp only: p2c_at_def u Let_def)
qed

lemma csr_addr:
  assumes "x < 8"
  shows "CFG_BAR_PCIETOCPPEXPBAR 0 x < 0x200000" "unat (CFG_BAR_PCIETOCPPEXPBAR 0 x - 0x30000) div 4 = x"
proof -
  have c: "CFG_BAR_PCIETOCPPEXPBAR 0 x = 0x30000 + of_nat (x * 4)"
    by (simp add: CFG_BAR_PCIETOCPPEXPBAR_def NFP_PCIE_BAR_def)
  have u: "unat (of_nat (x * 4) :: u64) = x * 4" using assms by (intro unat_of_nat64) simp
  show "unat (CFG_BAR_PCIETOCPPEXPBAR 0 x - 0x30000) div 4 = x" unfolding c using u by simp
  have "unat (0x30000 + of_nat (x * 4) :: u64) = 0x30000 + x * 4"
    using unat_add_small [of "0x30000 :: u64" "of_nat (x * 4)", unfolded u] assms by simp
  then show "CFG_BAR_PCIETOCPPEXPBAR 0 x < 0x200000" unfolding c using assms by (simp add: word_less_nat_alt)
qed

interpretation dev: pcie2cpp "p2c_mmio W" W 21 p_csr p_mem for W
proof (unfold_locales, goal_cases)
  case (1 x c h)
  have "W + CFG_BAR_PCIETOCPPEXPBAR 0 x - W - 0x30000 = CFG_BAR_PCIETOCPPEXPBAR 0 x - 0x30000" by simp
  then show ?case using csr_addr [OF 1] by (simp add: p2c_mmio_def)
next
  case (2 x k h)
  then show ?case using p2c_at_slot(1) [of x k h] by (simp add: p2c_mmio_def)
next
  case (3 x k h)
  then show ?case using p2c_at_slot(1) [of x k h] by (simp add: p2c_mmio_def)
next
  case (4 x k h' v h)
  have k: "k < 2 ^ 21" using 4(3) by simp
  note p = p2c_at_slot [OF 4(2) k]
  have "\<not> (of_nat (x * 2 ^ 21 + k) :: u64) < 0x200000"
    unfolding word_less_nat_alt p(2) using 4(1) by simp
  then show ?case using 4(4) p(1) [of h] by (simp add: p2c_mmio_def p2c_store_def)
next
  case (5 x k h' q h)
  have k: "k < 2 ^ 21" using 5(3) by simp
  show ?case using 5(4) p2c_at_slot(1) [OF 5(2) k, of h] by (simp add: p2c_mmio_def p2c_store_def)
qed

end
