(* ===== verification/Cpp_Start_Proof.thy ===== *)
theory Cpp_Start_Proof
  imports Cpp_Device
begin

text \<open>
  Properties of the start-up of the transport and of the XPB helpers: the search for a PCI
  capability, the size of a BAR, the state \<open>nfp6000_init\<close> leaves behind, the bounded wait, and the
  BAR that a failing access keeps.
\<close>

section \<open>Capabilities\<close>

text \<open>The header a search reports is one that was read from the reported position.\<close>

lemma ext_cap_loop_pos:
  assumes "ext_cap_loop dev cap ttl header pos = r" "r \<noteq> 0" "r \<noteq> -1"
    and "256 \<le> pos" "pos < 4096" "4 dvd pos" "\<exists>bs. cfg_read dev 4 pos = Some bs \<and> header = le_word bs"
  shows "256 \<le> r \<and> r < 4096 \<and> 4 dvd r
    \<and> (\<exists>bs. cfg_read dev 4 r = Some bs \<and> PCI_EXT_CAP_ID (le_word bs) = cap)"
  using assms
proof (induction ttl arbitrary: header pos)
  case (Suc ttl)
  have nx: "PCI_EXT_CAP_NEXT header < 4096" "4 dvd PCI_EXT_CAP_NEXT header"
  proof -
    have "drop_bit 20 header AND 0xffc \<le> (0xffc :: u32)" by (rule word_and_le1)
    then show "PCI_EXT_CAP_NEXT header < 4096" by (simp add: PCI_EXT_CAP_NEXT_def word_le_def)
    have "uint (drop_bit 20 header AND 0xffc :: u32) = uint (drop_bit 20 header) AND 0xffc"
      by (simp add: unsigned_and_eq)
    moreover have "take_bit 2 (uint (drop_bit 20 header) AND 0xffc) = 0" by (simp add: take_bit_and)
    ultimately have "take_bit 2 (PCI_EXT_CAP_NEXT header) = 0" by (simp add: PCI_EXT_CAP_NEXT_def)
    then have "2 ^ 2 dvd PCI_EXT_CAP_NEXT header" by (simp only: take_bit_eq_0_iff)
    then show "4 dvd PCI_EXT_CAP_NEXT header" by simp
  qed
  show ?case
  proof (cases "PCI_EXT_CAP_ID header = cap")
    case True
    then show ?thesis using Suc.prems by auto
  next
    case False
    let ?p = "PCI_EXT_CAP_NEXT header"
    have "256 \<le> ?p" using Suc.prems(1,2) False by (auto simp: Let_def split: if_splits)
    moreover obtain bs where bs: "cfg_read dev 4 ?p = Some bs"
      using Suc.prems(1-3) False calculation by (cases "cfg_read dev 4 ?p") (auto simp: Let_def)
    moreover have "ext_cap_loop dev cap ttl (le_word bs) ?p = r"
      using Suc.prems(1) False calculation by (simp add: Let_def)
    ultimately show ?thesis using Suc.IH [of "le_word bs" ?p] Suc.prems(2,3) nx by blast
  qed
qed simp

lemma find_capability:
  assumes "nfp_pci_find_next_ext_capability dev cap = r" "r \<noteq> 0" "r \<noteq> -1"
  shows "256 \<le> r \<and> r < 4096 \<and> 4 dvd r
    \<and> (\<exists>bs. cfg_read dev 4 r = Some bs \<and> PCI_EXT_CAP_ID (le_word bs) = cap)"
proof -
  obtain bs where bs: "cfg_read dev 4 256 = Some bs"
    using assms by (cases "cfg_read dev 4 256") (auto simp: nfp_pci_find_next_ext_capability_def Let_def)
  then have "ext_cap_loop dev cap 480 (le_word bs) 256 = r"
    using assms(1,2) by (simp add: nfp_pci_find_next_ext_capability_def Let_def split: if_splits)
  then show ?thesis using ext_cap_loop_pos [OF _ assms(2,3)] bs by auto
qed

section \<open>The size of a BAR\<close>

lemma shift_count_log:
  "0 < unat t \<Longrightarrow> \<exists>k. shift_count t i = i + int k \<and> 2 ^ k \<le> unat t \<and> unat t < 2 ^ Suc k"
proof (induction t i rule: shift_count.induct)
  case (1 t i)
  have u: "unat (drop_bit 1 t) = unat t div 2" by (simp add: drop_bit_eq_div unat_div)
  show ?case
  proof (cases "drop_bit 1 t = 0")
    case True
    then have "unat t div 2 = 0" using u by simp
    then have "unat t < 2" by simp
    then show ?thesis using True 1(2) by (intro exI [of _ 0]) (simp add: shift_count.simps [of t i])
  next
    case False
    then have pos: "0 < unat (drop_bit 1 t)" by (simp add: unat_gt_0)
    obtain k where k: "shift_count (drop_bit 1 t) (i + 1) = i + 1 + int k" "2 ^ k \<le> unat t div 2" "unat t div 2 < 2 ^ Suc k"
      using 1(1) [OF False pos] u by auto
    have "shift_count t i = i + int (Suc k)" using k(1) False by (simp add: shift_count.simps [of t i])
    moreover have "2 ^ Suc k \<le> unat t" "unat t < 2 ^ Suc (Suc k)" using k(2,3) by auto
    ultimately show ?thesis by blast
  qed
qed

section \<open>Start-up\<close>

lemma c_malloc_pcie: "c_malloc w = (ok, w') \<Longrightarrow> w_pcie w' = w_pcie w \<and> w_hw w' = w_hw w"
  using world_c_malloc [of w] by simp

text \<open>After a successful start the BARs are well-formed and free.\<close>

lemma init_ready:
  assumes "nfp6000_init dev w = Some (0, w')" "length (bars (w_pcie w)) = 7"
    and "res_addr dev \<noteq> 0" "2 ^ 22 \<le> unat (res_len dev)" "unat (res_len dev) < 2 ^ 32"
    and "unat (res_addr dev) + unat (res_len dev) \<le> 2 ^ 64"
  obtains n where "pcie_wf n (w_pcie w')" "\<forall>b\<in>{1, 2, 3}. \<not> bar_lock (bars (w_pcie w') ! b)"
    "cfg (w_pcie w') = res_addr dev" "2 ^ (n + 3) \<le> unat (res_len dev)" "unat (res_len dev) < 2 ^ (n + 4)"
proof -
  obtain k where k: "shift_count (res_len dev) 0 = int k" "2 ^ k \<le> unat (res_len dev)" "unat (res_len dev) < 2 ^ Suc k"
    using shift_count_log [of "res_len dev" 0] assms(4) by auto
  have kb: "22 \<le> k" "k \<le> 31"
  proof -
    show "22 \<le> k"
    proof (rule ccontr)
      assume "\<not> 22 \<le> k"
      then have "(2 :: nat) ^ Suc k \<le> 2 ^ 22" by (intro power_increasing) simp_all
      then show False using assms(4) k(3) by linarith
    qed
    show "k \<le> 31"
    proof (rule ccontr)
      assume "\<not> k \<le> 31"
      then have "(2 :: nat) ^ 32 \<le> 2 ^ k" by (intro power_increasing) simp_all
      then show False using assms(5) k(2) by linarith
    qed
  qed
  define desc where "desc = (nfp6000_set_barsz dev ((w_pcie w)\<lparr>busdev := take 12 (dev_name dev)\<rparr>))\<lparr>cfg := res_addr dev\<rparr>"
  have w': "w_pcie w' = nfp_enable_bars desc"
    using assms(1) c_malloc_pcie [of w] unfolding nfp6000_init_def
    by (auto simp: desc_def Let_def split: prod.splits if_splits option.splits)
  have d: "length (bars desc) = 7" "cfg desc = res_addr dev" "barsz desc = int (k - 3) + 3"
    using assms(2) k(1) kb by (simp_all add: desc_def nfp6000_set_barsz_def)
  have e: "8 * 2 ^ (k - 3) = (2 :: nat) ^ k"
    using kb(1) power_add [of "2 :: nat" 3 "k - 3"] by simp
  have kn: "19 \<le> k - 3" "k - 3 \<le> 28" "k - 3 + 3 = k" "k - 3 + 4 = Suc k" using kb by simp_all
  have bd: "unat (cfg desc) + 8 * 2 ^ (k - 3) \<le> 2 ^ 64" "cfg desc \<noteq> 0"
    unfolding e d(2) using assms(3,6) k(2) by simp_all
  note wf = enable_bars_wf [OF d(1,3) kn(1,2) bd(2,1)]
  have "cfg (nfp_enable_bars p) = cfg p" for p
    by (simp add: nfp_enable_bars_def bar_counters_list enable_bar_def Let_def)
  then show thesis using that [of "k - 3"] wf d(2) k(2,3) by (simp add: w' kn(3,4))
qed

section \<open>Waiting for a register\<close>

lemma waitlm_found:
  assumes "nfp_xpb_readl M t w = (Inr x, w1)" "x AND m = v AND m" "0 \<le> us"
  shows "nfp_xpb_waitlm M t m v us w = (us, w1)"
  using assms by (simp add: nfp_xpb_waitlm.simps [of M t m v us w])

lemma waitlm_failed:
  assumes "nfp_xpb_readl M t w = (Inl e, w1)"
  shows "nfp_xpb_waitlm M t m v us w = (-1, w1)"
proof -
  have "e = RetFail"
    using assms by (auto simp: nfp_xpb_readl_def nfp_cpp_readl_def Let_def split: prod.splits if_splits)
  then show ?thesis using assms by (simp add: nfp_xpb_waitlm.simps [of M t m v us w])
qed

text \<open>A negative timeout does not wait: one read decides.\<close>

lemma waitlm_negative:
  assumes "us < 0" "nfp_xpb_readl M t w = (Inr tmp, w1)"
  shows "nfp_xpb_waitlm M t m v us w =
    (if tmp AND m = v AND m then (0, w1) else (-1, w1\<lparr>w_errno := errno_code ETIMEDOUT\<rparr>))"
  using assms by (simp add: nfp_xpb_waitlm.simps [of M t m v us w] NFP_ERRNO_def)

text \<open>\<open>k\<close> reads of the register that all succeed and do not find the value.\<close>

fun xpb_misses :: "'h mmio \<Rightarrow> u32 \<Rightarrow> u32 \<Rightarrow> u32 \<Rightarrow> nat \<Rightarrow> 'h world \<Rightarrow> 'h world option" where
  "xpb_misses M t m v 0 w = Some w"
| "xpb_misses M t m v (Suc k) w =
     (case nfp_xpb_readl M t w of
        (Inl e, w1) \<Rightarrow> None
      | (Inr tmp, w1) \<Rightarrow> if tmp AND m = v AND m then None else xpb_misses M t m v k w1)"

lemma waitlm_misses:
  assumes "xpb_misses M t m v k w = Some wk"
  shows "int k * 100 \<le> us \<Longrightarrow> nfp_xpb_waitlm M t m v us w = nfp_xpb_waitlm M t m v (us - int k * 100) wk"
    "0 \<le> us \<Longrightarrow> int k = us div 100 + 1 \<Longrightarrow> nfp_xpb_waitlm M t m v us w = (-1, wk\<lparr>w_errno := errno_code ETIMEDOUT\<rparr>)"
proof -
  have "(int k * 100 \<le> us \<longrightarrow> nfp_xpb_waitlm M t m v us w = nfp_xpb_waitlm M t m v (us - int k * 100) wk)
    \<and> (0 \<le> us \<and> int k = us div 100 + 1 \<longrightarrow> nfp_xpb_waitlm M t m v us w = (-1, wk\<lparr>w_errno := errno_code ETIMEDOUT\<rparr>))"
    using assms
  proof (induction k arbitrary: us w)
    case (Suc k)
    then obtain tmp w1 where r: "nfp_xpb_readl M t w = (Inr tmp, w1)" "tmp AND m \<noteq> v AND m" "xpb_misses M t m v k w1 = Some wk"
      by (auto split: prod.splits sum.splits if_splits)
    have s: "nfp_xpb_waitlm M t m v us w = (if us < 100 then (-1, w1\<lparr>w_errno := errno_code ETIMEDOUT\<rparr>)
        else nfp_xpb_waitlm M t m v (us - 100) w1)"
      using r(1,2) by (simp add: nfp_xpb_waitlm.simps [of M t m v us w] NFP_ERRNO_def)
    note ih = Suc.IH [OF r(3), of "us - 100"]
    show ?case
    proof (intro conjI impI)
      assume "int (Suc k) * 100 \<le> us"
      then have le: "int k * 100 \<le> us - 100" "\<not> us < 100" and e: "us - int (Suc k) * 100 = us - 100 - int k * 100" by simp_all
      show "nfp_xpb_waitlm M t m v us w = nfp_xpb_waitlm M t m v (us - int (Suc k) * 100) wk"
        unfolding e by (rule trans [OF s [unfolded if_not_P [OF le(2)]] ih [THEN conjunct1, rule_format, OF le(1)]])
    next
      assume u: "0 \<le> us \<and> int (Suc k) = us div 100 + 1"
      show "nfp_xpb_waitlm M t m v us w = (-1, wk\<lparr>w_errno := errno_code ETIMEDOUT\<rparr>)"
      proof (cases "us < 100")
        case True
        then have "k = 0" using u by presburger
        then show ?thesis using s [unfolded if_P [OF True]] r(3) by simp
      next
        case False
        then have "0 \<le> us - 100 \<and> int k = (us - 100) div 100 + 1" using u div_pos_geq [of 100 us] by simp
        then show ?thesis by (rule trans [OF s [unfolded if_not_P [OF False]] ih [THEN conjunct2, rule_format]])
      qed
    qed
  qed (auto simp: zdiv_eq_0_iff)
  then show "int k * 100 \<le> us \<Longrightarrow> nfp_xpb_waitlm M t m v us w = nfp_xpb_waitlm M t m v (us - int k * 100) wk"
    "0 \<le> us \<Longrightarrow> int k = us div 100 + 1 \<Longrightarrow> nfp_xpb_waitlm M t m v us w = (-1, wk\<lparr>w_errno := errno_code ETIMEDOUT\<rparr>)" by blast+
qed

section \<open>A failing access keeps its BAR\<close>

lemma compute_bar_crosses:
  assumes "unat (bitsize bar) < 32"
    and "(a + sz - 1) AND NOT (mask (unat (bitsize bar))) \<noteq> a AND NOT (mask (unat (bitsize bar)))"
  shows "nfp_compute_bar bar t act tok a sz wd = Inl (RetNeg EINVAL)"
proof -
  have m: "scast (NOT (P2C_FIXED_SIZE bar - 1)) = (NOT (mask (unat (bitsize bar))) :: u64)"
    "scast (NOT (P2C_BULK_SIZE bar - 1)) = (NOT (mask (unat (bitsize bar))) :: u64)"
    using aperture_mask [OF assms(1)] by (simp_all add: P2C_FIXED_SIZE_def P2C_BULK_SIZE_def)
  show ?thesis unfolding nfp_compute_bar_def m Let_def if_P [OF assms(2) [symmetric]]
    by (simp del: length_select.simps split: option.splits)
qed

lemma crossing_read_leaks:
  assumes rdy: "bus_ready n w"
    and tr: "nfp_target_cpp dest address (Some (\<lambda>i. imb_cat_table (w_cpp w) ! i)) = Inr (d, a)"
      "address + sz \<le> push_bit 40 1"
    and pp: "nfp6000_target_pushpull (NFP_CPP_ID (ucast (NFP_CPP_ID_TARGET_of d))
        (ucast (NFP_CPP_ID_ACTION_of d)) (ucast (NFP_CPP_ID_TOKEN_of d))) a = Inr pp"
      "PUSH_WIDTH pp = Inr k" "PULL_WIDTH pp = Inr k"
    and cross: "(a + sz - 1) AND NOT (mask n) \<noteq> a AND NOT (mask n)"
  obtains b w' where "nfp_cpp_read M dest address sz w = (-1, [], w')" "b \<in> {1, 2, 3}"
    "\<not> bar_locks w ! b" "bar_locks w' = (bar_locks w)[b := True]"
proof -
  have wf: "pcie_wf n (w_pcie w)" using rdy by (simp add: bus_ready_def)
  obtain b where b: "b \<in> {1, 2, 3}" and ab: "nfp_alloc_bar (w_pcie w) = Some (b, (w_pcie w)\<lparr>bars :=
    (bars (w_pcie w))[b := (bars (w_pcie w) ! b)\<lparr>bar_lock := True\<rparr>]\<rparr>)" by (rule alloc_bar_free [OF rdy])
  let ?bar = "(bars (w_pcie w) ! b)\<lparr>bar_lock := True\<rparr>"
  have g: "bar_geom n (cfg (w_pcie w)) (Suc b) (bars (w_pcie w) ! b)" by (rule pcie_wf_bar [OF wf b])
  have bl: "b < length (bars (w_pcie w))" using b wf by (auto simp: pcie_wf_def)
  have bz: "unat (bitsize ?bar) = n" "n < 32" using bar_geomD(2) [OF g] wf by (simp_all add: pcie_wf_def)
  have cb: "nfp_compute_bar ?bar t act tok a sz k = Inl (RetNeg EINVAL)" for t act tok
    using cross bz by (intro compute_bar_crosses) simp_all
  have cm: "c_malloc w = (True, w)" using rdy by (simp add: bus_ready_def c_malloc_def)
  have nl: "\<not> push_bit 40 1 < address + sz" using tr(2) by (simp add: not_less)
  define w' where "w' = snd (snd (nfp_cpp_read M dest address sz w))"
  have rd: "nfp_cpp_read M dest address sz w = (-1, [], w')"
    and lk: "bar_locks w' = (bar_locks w)[b := True]"
    using tr(1) nl pp ab cb bl cm unfolding w'_def
    by (simp_all add: nfp_cpp_read_def nfp_cpp_area_alloc_acquire_def nfp_cpp_area_alloc_def
        nfp_cpp_area_alloc_with_name_def nfp6000_area_init_def nfp_reconfigure_bar_def Let_def not_less
        bar_locks_def map_update) (simp_all flip: not_less)
  have "\<not> bar_locks w ! b" using alloc_bar_Some(2) [OF ab] bl by (simp add: bar_locks_def)
  then show thesis by (rule that [OF rd b _ lk])
qed

section \<open>A started device\<close>

text \<open>A concrete device and world, used by the witnesses.\<close>

definition dev_base :: u64 where "dev_base = 0x7f0000000000"

definition dev_pcie :: nfp_pcie_user where
  "dev_pcie = nfp_enable_bars \<lparr>bars = replicate 7 \<lparr>barcfg = 0, bar_base = 0, bar_mask = 0, bitsize = 0,
     bar_index = 0, bar_lock = False, bar_csr = 0, bar_iomem = 0\<rparr>, busdev = [], barsz = 24, cfg = dev_base\<rparr>"

definition dev_world :: "p2c_hw world" where
  "dev_world = \<lparr>w_cpp = cpp_zero False, w_pcie = dev_pcie, w_errno = 0, w_mallocs = [], w_fault = False,
     w_hw = \<lparr>p_csr = (\<lambda>_. 0), p_mem = (\<lambda>_ _. 0)\<rparr>\<rparr>"

lemma dev_ready: "bus_ready 21 dev_world" "pcie_wf 21 (w_pcie dev_world)" "cfg (w_pcie dev_world) = dev_base"
proof -
  let ?p = "\<lparr>bars = replicate 7 \<lparr>barcfg = 0, bar_base = 0, bar_mask = 0, bitsize = 0,
     bar_index = 0, bar_lock = False, bar_csr = 0, bar_iomem = 0\<rparr>, busdev = [], barsz = 24, cfg = dev_base\<rparr>"
  have c: "cfg ?p \<noteq> 0" "unat (cfg ?p) + 8 * 2 ^ 21 \<le> 2 ^ 64" by (simp_all add: dev_base_def)
  have l: "length (bars ?p) = 7" "barsz ?p = int 21 + 3" "(19 :: nat) \<le> 21" "(21 :: nat) \<le> 28" by simp_all
  have "pcie_wf 21 dev_pcie" "\<forall>b\<in>{1, 2, 3}. \<not> bar_lock (bars dev_pcie ! b)"
    unfolding dev_pcie_def by (rule enable_bars_wf [OF l c])+
  then show "bus_ready 21 dev_world" "pcie_wf 21 (w_pcie dev_world)" by (simp_all add: bus_ready_def dev_world_def)
  show "cfg (w_pcie dev_world) = dev_base"
    by (simp add: dev_world_def dev_pcie_def nfp_enable_bars_def bar_counters_list enable_bar_def Let_def)
qed

text \<open>A word of the memory unit, without island, and a range across two apertures.\<close>

lemma dev_word:
  "word_access (NFP_CPP_ID 7 32 0) 0x1000" "island_of (NFP_CPP_ID 7 32 0) = 0"
  "uint (NFP_CPP_ID_TARGET_of (NFP_CPP_ID 7 32 0)) = 7"
  "nfp6000_target_pushpull (NFP_CPP_ID (ucast (NFP_CPP_ID_TARGET_of (NFP_CPP_ID 7 32 0)))
     (ucast (NFP_CPP_ID_ACTION_of (NFP_CPP_ID 7 32 0))) (ucast (NFP_CPP_ID_TOKEN_of (NFP_CPP_ID 7 32 0)))) 0x1ffff8
   = Inr 34"
  by code_simp+

lemma dev_translation:
  "nfp_target_cpp (NFP_CPP_ID 7 32 0) a (Some (\<lambda>i. imb_cat_table (w_cpp dev_world) ! i)) = Inr (NFP_CPP_ID 7 32 0, a)"
  by (rule target_cpp_id) (simp_all add: dev_word)

text \<open>The device with the model code of an NFP-6000, on which XPB accesses go to target 14.\<close>

definition xpb_world :: "p2c_hw world" where
  "xpb_world = dev_world\<lparr>w_cpp := (w_cpp dev_world)\<lparr>model := 0x60000010\<rparr>\<rparr>"

lemma xpb_zero:
  assumes "bus_ready 21 w" "cfg (w_pcie w) = dev_base" "w_cpp w = w_cpp xpb_world" "p_mem (w_hw w) = p_mem (w_hw dev_world)"
  obtains w' where "nfp_xpb_readl (p2c_mmio dev_base) 4 w = (Inr 0, w')"
    "bus_ready 21 w'" "cfg (w_pcie w') = dev_base" "w_cpp w' = w_cpp xpb_world" "p_mem (w_hw w') = p_mem (w_hw dev_world)"
proof -
  have m: "NFP_CPP_MODEL_IS_6000 0x60000010" by code_simp
  have to: "nfp_xpb_to_cpp w 4 = (NFP_CPP_ID 14 32 0, 4)"
    unfolding nfp_xpb_to_cpp_def assms(3) using m by (simp add: xpb_world_def NFP_CPP_ACTION_RW_def)
  have acc: "word_access (NFP_CPP_ID 14 32 0) 4" "island_of (NFP_CPP_ID 14 32 0) = 0"
    "uint (NFP_CPP_ID_TARGET_of (NFP_CPP_ID 14 32 0)) < 16" by code_simp+
  obtain w' where "nfp_cpp_readl (p2c_mmio dev_base) (NFP_CPP_ID 14 32 0) 4 w = (Inr (dev.bus_word w (NFP_CPP_ID 14 32 0) 4), w')"
    and r: "bus_ready 21 w'" "cfg (w_pcie w') = dev_base" "w_cpp w' = w_cpp w" "p_mem (w_hw w') = p_mem (w_hw w)"
    by (rule dev.readl_word [OF assms(1,2) acc(1) _ target_cpp_id [OF acc(2,3)]]) (simp_all add: take_bit_word_eq_self)
  moreover have "dev.bus_word w (NFP_CPP_ID 14 32 0) 4 = 0"
    by (simp add: dev.bus_word_def assms(4) dev_world_def mem_rd_def eval_nat_numeral)
  ultimately show thesis using assms(3,4) to by (intro that [of w']) (simp_all add: nfp_xpb_readl_def)
qed

text \<open>A PCI device whose configuration space has the serial number capability first.\<close>

definition dev_pci :: pci_device where
  "dev_pci = \<lparr>dev_name = ''0000:04:00.0'', res_len = 0x1000000, res_addr = dev_base,
     cfg_read = (\<lambda>k pos. Some (le_bytes k (0x00010003 :: u32))), lock_open = 3, lock_fcntl = []\<rparr>"

lemma dev_pci_cap: "nfp_pci_find_next_ext_capability dev_pci 3 = 256"
proof -
  have "ext_cap_loop dev_pci 3 (Suc 479) 0x00010003 256 = 256"
    unfolding ext_cap_loop.simps by (simp add: PCI_EXT_CAP_ID_def)
  then have "ext_cap_loop dev_pci 3 480 0x00010003 256 = 256" by simp
  moreover have "cfg_read dev_pci 4 256 = Some (le_bytes 4 (0x00010003 :: u32))" by (simp add: dev_pci_def)
  ultimately show ?thesis by (simp add: nfp_pci_find_next_ext_capability_def)
qed

lemma dev_pci_init: "\<exists>w'. nfp6000_init dev_pci dev_world = Some (0, w')"
proof -
  have lk: "driver_lock_needed (w_cpp dev_world) = False" "c_malloc w = (True, w)" if "w_mallocs w = []" for w :: "p2c_hw world"
    using that by (simp_all add: dev_world_def cpp_zero_def c_malloc_def)
  show ?thesis using dev_pci_cap lk [of dev_world]
    by (auto simp: nfp6000_init_def nfp6000_set_model_def nfp6000_set_interface_def nfp6000_set_serial_def
        PCI_EXT_CAP_ID_DSN_def dev_pci_def Let_def split: prod.splits)
      (simp_all add: dev_world_def)
qed

end
