(* ===== verification/Nfp_Mutex.thy ===== *)
theory Nfp_Mutex
  imports Cpp_Start
begin

text \<open>
  Locks shared by all masters of the CPP bus (user/nfpcore/nfp_mutex.c): a 64-bit location in a
  memory unit holds the lock word and a key; the handles of one process form a cache, a doubly
  linked list of counted objects. This theory has the operations; Mutex_Cache, Mutex_Lock and
  Mutex_Exclusion have what is proved of them.
\<close>

section \<open>The lock word\<close>

definition MUTEX_LOCKED :: "u16 \<Rightarrow> u32" where
  "MUTEX_LOCKED ifc = push_bit 16 (ucast ifc) OR 0x000f"

definition MUTEX_UNLOCK :: "u16 \<Rightarrow> u32" where
  "MUTEX_UNLOCK ifc = 0 OR 0x0000"

definition MUTEX_IS_LOCKED :: "u32 \<Rightarrow> bool" where
  "MUTEX_IS_LOCKED v \<longleftrightarrow> v AND 0xffff = 0x000f"

definition MUTEX_IS_UNLOCKED :: "u32 \<Rightarrow> bool" where
  "MUTEX_IS_UNLOCKED v \<longleftrightarrow> v AND 0xffff = 0x0000"

definition MUTEX_INTERFACE :: "u32 \<Rightarrow> u32" where
  "MUTEX_INTERFACE v = drop_bit 16 v AND 0xffff"

definition MUTEX_DEPTH_MAX :: u16 where "MUTEX_DEPTH_MAX = 0xffff"

section \<open>Handles\<close>

text \<open>Handles live in a heap; \<open>mutex_cache\<close> is the head of the list. \<open>mtx_brk\<close> is where the next
  \<open>calloc\<close> places an object. Using a handle that is not in the heap (\<open>NULL\<close> or freed) raises the
  fault of the world. The back pointer \<open>mutex->cpp\<close> always is the one CPP handle of the world.\<close>

record nfp_cpp_mutex =
  mtx_target :: u8
  mtx_depth :: u16
  mtx_address :: u64
  mtx_key :: u32
  mtx_usage :: u32
  mtx_prev :: "nat option"
  mtx_next :: "nat option"

record 'h drv =
  drv_world :: "'h world"
  mtx_heap :: "nat \<rightharpoonup> nfp_cpp_mutex"
  mutex_cache :: "nat option"
  mtx_brk :: nat

definition drv_errno :: "errno \<Rightarrow> 'h drv \<Rightarrow> 'h drv" where
  "drv_errno e s = s\<lparr>drv_world := snd (NFP_ERRNO e (drv_world s))\<rparr>"

definition drv_fault :: "'h drv \<Rightarrow> 'h drv" where
  "drv_fault s = s\<lparr>drv_world := null_deref (drv_world s)\<rparr>"

definition mtx_set :: "nat \<Rightarrow> nfp_cpp_mutex \<Rightarrow> 'h drv \<Rightarrow> 'h drv" where
  "mtx_set p mx s = s\<lparr>mtx_heap := (mtx_heap s)(p \<mapsto> mx)\<rparr>"

text \<open>The three commands to the atomic engine of the target.\<close>

definition atomic_read_id :: "u32 \<Rightarrow> u32" where "atomic_read_id target = NFP_CPP_ID target 3 0"
definition atomic_write_id :: "u32 \<Rightarrow> u32" where "atomic_write_id target = NFP_CPP_ID target 4 0"
definition test_set_imm_id :: "u32 \<Rightarrow> u32" where "test_set_imm_id target = NFP_CPP_ID target 5 3"

definition nfp_cpp_mutex_validate :: "u32 \<Rightarrow> int \<Rightarrow> u64 \<Rightarrow> c_fail + unit" where
  "nfp_cpp_mutex_validate mdl target address =
     (if address AND 7 \<noteq> 0 then Inl (RetErrno EINVAL)
      else if NFP_CPP_MODEL_IS_6000 mdl
        then if target \<noteq> 7 then Inl (RetErrno EINVAL) else Inr ()
      else Inl (RetErrno EINVAL))"

definition nfp_cpp_mutex_init ::
  "'h mmio \<Rightarrow> int \<Rightarrow> u64 \<Rightarrow> u32 \<Rightarrow> 'h world \<Rightarrow> int \<times> 'h world" where
  "nfp_cpp_mutex_init M target address key w =
     (let (mdl, w) = nfp_cpp_model M w;
          muw = atomic_write_id (word_of_int target);
          v = nfp_cpp_mutex_validate mdl target address; w = set_errno v w
      in case v of
           Inl e \<Rightarrow> (ret_code e, w)
         | Inr _ \<Rightarrow>
             let (err, w) = nfp_cpp_writel M muw (address + 4) key w
             in if err < 0 then (err, w)
                else let (err, w) = nfp_cpp_writel M muw (address + 0) (MUTEX_LOCKED (nfp_cpp_interface w)) w
                     in if err < 0 then (err, w) else (0, w))"

section \<open>The cache\<close>

text \<open>The search: \<open>None\<close> when it leaves the heap or does not end.\<close>

partial_function (option) cache_walk ::
  "(nat \<rightharpoonup> nfp_cpp_mutex) \<Rightarrow> int \<Rightarrow> u64 \<Rightarrow> nat option \<Rightarrow> nat option option" where
  "cache_walk heap target address m =
     (if m = None then Some None
      else Option.bind (heap (the m))
        (\<lambda>mx. if uint (mtx_target mx) = target \<and> mtx_address mx = address then Some m
              else cache_walk heap target address (mtx_next mx)))"

text \<open>\<open>if (q) q->field = \<dots>\<close>.\<close>

definition link_upd :: "nat option \<Rightarrow> (nfp_cpp_mutex \<Rightarrow> nfp_cpp_mutex) \<Rightarrow> 'h drv \<Rightarrow> 'h drv" where
  "link_upd q f s =
     (case q of
        None \<Rightarrow> s
      | Some q \<Rightarrow> (case mtx_heap s q of None \<Rightarrow> drv_fault s | Some mx \<Rightarrow> mtx_set q (f mx) s))"

text \<open>Linking a new object in front.\<close>

definition mutex_link :: "nfp_cpp_mutex \<Rightarrow> 'h drv \<Rightarrow> nat \<times> 'h drv" where
  "mutex_link mx s =
     (let p = mtx_brk s; s = s\<lparr>mtx_brk := Suc p\<rparr>
      in case mutex_cache s of
           Some q \<Rightarrow>
             let s = link_upd (Some q) (\<lambda>old. old\<lparr>mtx_prev := Some p\<rparr>) s;
                 s = mtx_set p (mx\<lparr>mtx_next := Some q\<rparr>) s
             in (p, s\<lparr>mutex_cache := Some p\<rparr>)
         | None \<Rightarrow> (p, (mtx_set p mx s)\<lparr>mutex_cache := Some p\<rparr>))"

definition nfp_cpp_mutex_alloc ::
  "'h mmio \<Rightarrow> int \<Rightarrow> u64 \<Rightarrow> u32 \<Rightarrow> 'h drv \<Rightarrow> (nat option \<times> 'h drv) option" where
  "nfp_cpp_mutex_alloc M target address key s =
     (let (mdl, w) = nfp_cpp_model M (drv_world s); s = s\<lparr>drv_world := w\<rparr>;
          mur = atomic_read_id (word_of_int target)
      in case cache_walk (mtx_heap s) target address (mutex_cache s) of
           None \<Rightarrow> None
         | Some (Some p) \<Rightarrow>
             let mx = the (mtx_heap s p)
             in if mtx_key mx = key
                then Some (Some p, mtx_set p (mx\<lparr>mtx_usage := mtx_usage mx + 1\<rparr>) s)
                else Some (None, drv_errno EEXIST s)
         | Some None \<Rightarrow>
             let v = nfp_cpp_mutex_validate mdl target address;
                 w = set_errno v w; s = s\<lparr>drv_world := w\<rparr>
             in case v of
                  Inl _ \<Rightarrow> Some (None, s)
                | Inr _ \<Rightarrow>
                    let (r, w) = nfp_cpp_readl M mur (address + 4) w; s = s\<lparr>drv_world := w\<rparr>
                    in case r of
                         Inl _ \<Rightarrow> Some (None, s)
                       | Inr tmp \<Rightarrow>
                           if tmp \<noteq> key then Some (None, drv_errno EEXIST s)
                           else
                             let (ok, w) = c_malloc w; s = s\<lparr>drv_world := w\<rparr>
                             in if \<not> ok then Some (None, drv_errno ENOMEM s)
                                else
                                  let (p, s) = mutex_link \<lparr>mtx_target = word_of_int target, mtx_depth = 0,
                                        mtx_address = address, mtx_key = key, mtx_usage = 1,
                                        mtx_prev = None, mtx_next = None\<rparr> s
                                  in Some (Some p, s))"

definition nfp_cpp_mutex_free :: "nat \<Rightarrow> 'h drv \<Rightarrow> 'h drv" where
  "nfp_cpp_mutex_free p s =
     (case mtx_heap s p of
        None \<Rightarrow> drv_fault s
      | Some mx \<Rightarrow>
          let mx = mx\<lparr>mtx_usage := mtx_usage mx - 1\<rparr>; s = mtx_set p mx s
          in if mtx_usage mx > 0 then s
             else
               let s = link_upd (mtx_next mx) (\<lambda>nx. nx\<lparr>mtx_prev := mtx_prev mx\<rparr>) s;
                   s = link_upd (mtx_prev mx) (\<lambda>pv. pv\<lparr>mtx_next := mtx_next mx\<rparr>) s;
                   s = (if mutex_cache s = Some p then s\<lparr>mutex_cache := mtx_next mx\<rparr> else s)
               in s\<lparr>mtx_heap := (mtx_heap s)(p := None)\<rparr>)"

section \<open>Locking\<close>

text \<open>What the operations do with the fields of one handle and the world.\<close>

definition mutex_owner :: "'h mmio \<Rightarrow> nfp_cpp_mutex \<Rightarrow> 'h world \<Rightarrow> u16 \<times> 'h world" where
  "mutex_owner M mx w =
     (let mur = atomic_read_id (ucast (mtx_target mx))
      in case nfp_cpp_readl M mur (mtx_address mx) w of
           (Inl e, w) \<Rightarrow> (word_of_int (ret_code e), w)
         | (Inr v, w) \<Rightarrow>
             (case nfp_cpp_readl M mur (mtx_address mx + 4) w of
                (Inl e, w) \<Rightarrow> (word_of_int (ret_code e), w)
              | (Inr key, w) \<Rightarrow>
                  if key \<noteq> mtx_key mx
                  then let (r, w) = NFP_ERRNO EPERM w in (word_of_int r, w)
                  else if \<not> MUTEX_IS_LOCKED v then (0, w)
                  else (ucast (MUTEX_INTERFACE v), w)))"

text \<open>The attempt to take the lock, one bus access at a time: the check of the key, the
  test-and-set, and the write of the owner. \<open>Inl\<close> is the end of the operation.\<close>

type_synonym 'h mtx_result = "int \<times> nfp_cpp_mutex \<times> 'h world"

definition mtx_error :: "errno \<Rightarrow> nfp_cpp_mutex \<Rightarrow> 'h world \<Rightarrow> 'h mtx_result" where
  "mtx_error e mx w = (let (r, w) = NFP_ERRNO e w in (r, mx, w))"

definition trylock_key :: "'h mmio \<Rightarrow> nfp_cpp_mutex \<Rightarrow> 'h world \<Rightarrow> 'h mtx_result + 'h world" where
  "trylock_key M mx w =
     (let mur = atomic_read_id (ucast (mtx_target mx))
      in case nfp_cpp_readl M mur (mtx_address mx + 4) w of
           (Inl e, w) \<Rightarrow> Inl (ret_code e, mx, w)
         | (Inr key, w) \<Rightarrow> if key \<noteq> mtx_key mx then Inl (mtx_error EPERM mx w) else Inr w)"

definition trylock_test :: "'h mmio \<Rightarrow> nfp_cpp_mutex \<Rightarrow> 'h world \<Rightarrow> 'h mtx_result + 'h world" where
  "trylock_test M mx w =
     (let mus = test_set_imm_id (ucast (mtx_target mx)); v = MUTEX_LOCKED (nfp_cpp_interface w)
      in case nfp_cpp_readl M mus (mtx_address mx) w of
           (Inl e, w) \<Rightarrow> Inl (ret_code e, mx, w)
         | (Inr tmp, w) \<Rightarrow>
             if MUTEX_IS_UNLOCKED tmp then Inr w
             else if tmp = v then Inl (0, mx\<lparr>mtx_depth := 1\<rparr>, w)
             else Inl (mtx_error (if MUTEX_IS_LOCKED tmp then EBUSY else EINVAL) mx w))"

definition trylock_claim :: "'h mmio \<Rightarrow> nfp_cpp_mutex \<Rightarrow> 'h world \<Rightarrow> 'h mtx_result" where
  "trylock_claim M mx w =
     (let muw = atomic_write_id (ucast (mtx_target mx)); v = MUTEX_LOCKED (nfp_cpp_interface w);
          (err, w) = nfp_cpp_writel M muw (mtx_address mx) v w
      in if err < 0 then (err, mx, w) else (err, mx\<lparr>mtx_depth := 1\<rparr>, w))"

definition mutex_trylock :: "'h mmio \<Rightarrow> nfp_cpp_mutex \<Rightarrow> 'h world \<Rightarrow> 'h mtx_result" where
  "mutex_trylock M mx w =
     (if mtx_depth mx > 0
      then if mtx_depth mx = MUTEX_DEPTH_MAX then mtx_error E2BIG mx w
           else (0, mx\<lparr>mtx_depth := mtx_depth mx + 1\<rparr>, w)
      else case trylock_key M mx w of
             Inl r \<Rightarrow> r
           | Inr w \<Rightarrow>
               (case trylock_test M mx w of
                  Inl r \<Rightarrow> r
                | Inr w \<Rightarrow> trylock_claim M mx w))"

text \<open>The release: the lock word is read, then the key, then the word is written.\<close>

definition unlock_value :: "'h mmio \<Rightarrow> nfp_cpp_mutex \<Rightarrow> 'h world \<Rightarrow> 'h mtx_result + u32 \<times> 'h world" where
  "unlock_value M mx w =
     (let mur = atomic_read_id (ucast (mtx_target mx))
      in case nfp_cpp_readl M mur (mtx_address mx) w of
           (Inl e, w) \<Rightarrow> Inl (ret_code e, mx, w)
         | (Inr v, w) \<Rightarrow> Inr (v, w))"

definition unlock_key :: "'h mmio \<Rightarrow> nfp_cpp_mutex \<Rightarrow> u32 \<Rightarrow> 'h world \<Rightarrow> 'h mtx_result + 'h world" where
  "unlock_key M mx v w =
     (let mur = atomic_read_id (ucast (mtx_target mx)); ifc = nfp_cpp_interface w
      in case nfp_cpp_readl M mur (mtx_address mx + 4) w of
           (Inl e, w) \<Rightarrow> Inl (ret_code e, mx, w)
         | (Inr key, w) \<Rightarrow>
             if key \<noteq> mtx_key mx then Inl (mtx_error EPERM mx w)
             else if v \<noteq> MUTEX_LOCKED ifc then Inl (mtx_error EACCES mx w)
             else Inr w)"

definition unlock_write :: "'h mmio \<Rightarrow> nfp_cpp_mutex \<Rightarrow> 'h world \<Rightarrow> 'h mtx_result" where
  "unlock_write M mx w =
     (let muw = atomic_write_id (ucast (mtx_target mx));
          (err, w) = nfp_cpp_writel M muw (mtx_address mx) (MUTEX_UNLOCK (nfp_cpp_interface w)) w
      in if err < 0 then (err, mx, w) else (err, mx\<lparr>mtx_depth := 0\<rparr>, w))"

definition mutex_unlock :: "'h mmio \<Rightarrow> nfp_cpp_mutex \<Rightarrow> 'h world \<Rightarrow> 'h mtx_result" where
  "mutex_unlock M mx w =
     (if mtx_depth mx > 1 then (0, mx\<lparr>mtx_depth := mtx_depth mx - 1\<rparr>, w)
      else case unlock_value M mx w of
             Inl r \<Rightarrow> r
           | Inr (v, w) \<Rightarrow>
               (case unlock_key M mx v w of
                  Inl r \<Rightarrow> r
                | Inr w \<Rightarrow> unlock_write M mx w))"

text \<open>The operations on a handle.\<close>

definition on_mutex ::
  "(nfp_cpp_mutex \<Rightarrow> 'h world \<Rightarrow> 'h mtx_result) \<Rightarrow> nat \<Rightarrow> 'h drv \<Rightarrow> int \<times> 'h drv" where
  "on_mutex f p s =
     (case mtx_heap s p of
        None \<Rightarrow> (-1, drv_fault s)
      | Some mx \<Rightarrow> let (r, mx, w) = f mx (drv_world s) in (r, (mtx_set p mx s)\<lparr>drv_world := w\<rparr>))"

definition nfp_cpp_mutex_trylock :: "'h mmio \<Rightarrow> nat \<Rightarrow> 'h drv \<Rightarrow> int \<times> 'h drv" where
  "nfp_cpp_mutex_trylock M = on_mutex (mutex_trylock M)"

definition nfp_cpp_mutex_unlock :: "'h mmio \<Rightarrow> nat \<Rightarrow> 'h drv \<Rightarrow> int \<times> 'h drv" where
  "nfp_cpp_mutex_unlock M = on_mutex (mutex_unlock M)"

definition nfp_cpp_mutex_owner :: "'h mmio \<Rightarrow> nat \<Rightarrow> 'h drv \<Rightarrow> u16 \<times> 'h drv" where
  "nfp_cpp_mutex_owner M p s =
     (case mtx_heap s p of
        None \<Rightarrow> (0, drv_fault s)
      | Some mx \<Rightarrow> let (r, w) = mutex_owner M mx (drv_world s) in (r, s\<lparr>drv_world := w\<rparr>))"

text \<open>The waiting loop. Other masters act on the hardware while the process yields: the list
  gives what happens before the second, third, \<dots> attempt; \<open>None\<close> when the loop still waits at its
  end. The warnings that are printed after 15 and 60 seconds have no effect on the state.\<close>

fun nfp_cpp_mutex_lock :: "'h mmio \<Rightarrow> ('h \<Rightarrow> 'h) list \<Rightarrow> nat \<Rightarrow> 'h drv \<Rightarrow> (int \<times> 'h drv) option" where
  "nfp_cpp_mutex_lock M envs p s =
     (let (err, s) = nfp_cpp_mutex_trylock M p s
      in if err \<noteq> 0 then
           if err < 0 \<and> w_errno (drv_world s) \<noteq> errno_code EBUSY then Some (err, s)
           else case envs of
                  [] \<Rightarrow> None
                | e # envs \<Rightarrow>
                    nfp_cpp_mutex_lock M envs p
                      (s\<lparr>drv_world := (drv_world s)\<lparr>w_hw := e (w_hw (drv_world s))\<rparr>\<rparr>)
         else Some (0, s))"

declare nfp_cpp_mutex_lock.simps [simp del]

end
