(* ===== verification/Cpp_Atomic.thy ===== *)
theory Cpp_Atomic
  imports Nfp_Mutex Cpp_Progress
begin

text \<open>
  Commands to the atomic engines of the memory units, sent through fixed mappings of a BAR: atomic
  read, atomic write and test-and-set. The contract of the engine is the locale \<open>mu_engine\<close>; under
  it \<open>nfp_cpp_readl\<close>, \<open>nfp_cpp_writel\<close> and \<open>nfp_cpp_read\<close> have the effect of the command. A fixed
  mapping needs a BAR of at least 16 MiB (\<open>24 \<le> n\<close>).
\<close>

section \<open>Opening an area for a command\<close>

lemma compute_bar_fixed:
  fixes a :: u64
  assumes "unat (bitsize bar) = n" "24 \<le> n" "n < 32" "t < 16" "act \<noteq> 32" "act \<noteq> 0"
    "(a + sz - 1) AND NOT (mask n) = a AND NOT (mask n)"
  shows "\<exists>c base. nfp_compute_bar bar t act tok a sz 4 = Inr (c, base)"
proof -
  have m: "scast (NOT (P2C_FIXED_SIZE bar - 1)) = (NOT (mask n) :: u64)"
    using aperture_mask [OF assms(3)] assms(1) by (simp add: P2C_FIXED_SIZE_def)
  have z: "\<not> bitsize bar < 24" using assms(1,2) by (simp add: word_less_nat_alt)
  show ?thesis
    using assms(4-) z by (auto simp: nfp_compute_bar_def NFP_CPP_ACTION_RW_def m Let_def)
qed

text \<open>The three commands, with the widths of their data.\<close>

definition mu_cmd :: "u32 \<Rightarrow> bool" where
  "mu_cmd d \<longleftrightarrow> d \<in> {atomic_read_id 7, atomic_write_id 7, test_set_imm_id 7}"

definition mu_reads :: "u32 \<Rightarrow> bool" where
  "mu_reads d \<longleftrightarrow> d \<in> {atomic_read_id 7, test_set_imm_id 7}"

lemma mu_cmd_ids:
  "atomic_read_id 7 = 0x07000300" "atomic_write_id 7 = 0x07000400" "test_set_imm_id 7 = 0x07030500"
  by (simp_all add: atomic_read_id_def atomic_write_id_def test_set_imm_id_def NFP_CPP_ID_def)

lemma mu_cmd_parts:
  assumes "mu_cmd d"
  shows "NFP_CPP_ID_TARGET_of d = 7" "NFP_CPP_ID_ACTION_of d \<in> {3, 4, 5}" "island_of d = 0"
    "NFP_CPP_ID (ucast (NFP_CPP_ID_TARGET_of d)) (ucast (NFP_CPP_ID_ACTION_of d)) (ucast (NFP_CPP_ID_TOKEN_of d)) = d"
  using assms unfolding mu_cmd_def mu_cmd_ids
  by (auto simp: NFP_CPP_ID_TARGET_of_def NFP_CPP_ID_ACTION_of_def NFP_CPP_ID_TOKEN_of_def NFP_CPP_ID_def
      island_of_def NFP_CPP_ID_ISLAND_of_def)

lemma mu_common_cmd:
  "nfp6000_mu_common 0x07000300 = Inr (PUSHPULL 0 P32)" "nfp6000_mu_common 0x07000400 = Inr (PUSHPULL P32 0)"
  "nfp6000_mu_common 0x07030500 = Inr (PUSHPULL 0 P32)"
  "nfp6000_mu_ctm 0x07000300 = Inr (PUSHPULL 0 P32)" "nfp6000_mu_ctm 0x07000400 = Inr (PUSHPULL P32 0)"
  "nfp6000_mu_ctm 0x07030500 = Inr (PUSHPULL 0 P32)"
  "nfp6000_mu_emu 0x07000300 = Inr (PUSHPULL 0 P32)" "nfp6000_mu_emu 0x07000400 = Inr (PUSHPULL P32 0)"
  "nfp6000_mu_emu 0x07030500 = Inr (PUSHPULL 0 P32)"
  by code_simp+

lemma mu_cmd_pushpull:
  assumes "mu_cmd d"
  shows "nfp6000_target_pushpull d a = Inr (if mu_reads d then PUSHPULL 0 P32 else PUSHPULL P32 0)"
proof -
  have "nfp6000_target_pushpull d a = nfp6000_mu d a"
    using mu_cmd_parts(1) [OF assms] by (simp add: nfp6000_target_pushpull_def NFP6000_CPPTGT_MU_def
        NFP6000_CPPTGT_NBI_def NFP6000_CPPTGT_VQDR_def NFP6000_CPPTGT_ILA_def)
  then show ?thesis
    using assms mu_cmd_parts(3) [OF assms] unfolding mu_cmd_def mu_reads_def mu_cmd_ids
    by (auto simp: nfp6000_mu_def nfp6000_mu_imu_def mu_common_cmd)
qed

lemma mu_cmd_widths:
  assumes "nfp6000_target_pushpull d a = Inr pp" "mu_cmd d"
  shows "c_int (PUSH_WIDTH pp) = (if mu_reads d then 4 else -1)" "c_int (PULL_WIDTH pp) = (if mu_reads d then -1 else 4)"
proof -
  have "PUSH_WIDTH (PUSHPULL 0 P32) = Inr 4" "PUSH_WIDTH (PUSHPULL P32 0) = Inl (RetErrno EINVAL)"
    "PULL_WIDTH (PUSHPULL 0 P32) = Inl (RetErrno EINVAL)" "PULL_WIDTH (PUSHPULL P32 0) = Inr 4" by code_simp+
  then show "c_int (PUSH_WIDTH pp) = (if mu_reads d then 4 else -1)" "c_int (PULL_WIDTH pp) = (if mu_reads d then -1 else 4)"
    using assms(1) mu_cmd_pushpull [OF assms(2), of a] by auto
qed

text \<open>A range of words that stays in one aperture.\<close>

definition mu_range :: "nat \<Rightarrow> u64 \<Rightarrow> u64 \<Rightarrow> bool" where
  "mu_range n a sz \<longleftrightarrow> a AND 3 = 0 \<and> sz mod 4 = 0 \<and> 0 < unat sz \<and> unat sz < 2 ^ 31
     \<and> unat a + unat sz \<le> 2 ^ 40 \<and> (a + sz - 1) AND NOT (mask n) = a AND NOT (mask n)"

lemma mu_rangeD:
  assumes "mu_range n a sz"
  shows "take_bit 40 a = a" "0 < unat sz" "unat sz < 2 ^ 31" "\<not> a + sz > push_bit 40 1"
    "4 * (unat sz div 4) = unat sz" "sint (ucast sz :: u32) = int (unat sz)" "unat (ucast sz :: u32) = unat sz"
    "ucast (ucast sz :: u32) = sz"
proof -
  have r: "0 < unat sz" "unat sz < 2 ^ 31" "unat a + unat sz \<le> 2 ^ 40" "sz mod 4 = 0" using assms by (simp_all add: mu_range_def)
  then show "0 < unat sz" "unat sz < 2 ^ 31" by simp_all
  have "unat a < 2 ^ 40" using r by simp
  then show "take_bit 40 a = a" unfolding word_unat_eq_iff unsigned_take_bit_eq by (rule take_bit_nat_eq_self)
  have "unat (a + sz) = unat a + unat sz" by (rule unat_add_small) (use r(3) in simp)
  moreover have "unat (push_bit 40 1 :: u64) = 2 ^ 40" by simp
  ultimately show "\<not> a + sz > push_bit 40 1" unfolding not_less word_le_nat_alt using r(3) by argo
  have "unat sz mod 4 = unat (sz mod 4)" by (simp add: unat_mod)
  then have "unat sz mod 4 = 0" using r(4) by simp
  then show "4 * (unat sz div 4) = unat sz" by presburger
  show "sint (ucast sz :: u32) = int (unat sz)" using sint_small [OF r(2)] by simp
  show "unat (ucast sz :: u32) = unat sz" using r(2) by (simp add: unsigned_ucast_eq unsigned_take_bit_eq take_bit_nat_eq_self)
  then show "ucast (ucast sz :: u32) = sz" using r(2)
    by (simp add: word_unat_eq_iff unsigned_ucast_eq unsigned_take_bit_eq take_bit_nat_eq_self)
qed

lemma area_init_cmd:
  assumes rdy: "bus_ready n w" "24 \<le> n" and d: "mu_cmd d" and rng: "mu_range n a sz"
  obtains b priv where "b \<in> {1, 2, 3}"
    "fst (nfp6000_area_init M d a sz p0 w) = 0" "fst (snd (nfp6000_area_init M d a sz p0 w)) = priv"
    "ap_bar priv = Some b" "width_read priv = (if mu_reads d then 4 else -1)"
    "width_write priv = (if mu_reads d then -1 else 4)" "ap_offset priv = a" "ap_size priv = sz"
proof -
  let ?t = "ucast (NFP_CPP_ID_TARGET_of d) :: u32" and ?act = "ucast (NFP_CPP_ID_ACTION_of d) :: u32"
    and ?tok = "ucast (NFP_CPP_ID_TOKEN_of d) :: u32"
  have wf: "pcie_wf n (w_pcie w)" using rdy by (simp add: bus_ready_def)
  obtain pp where pp: "nfp6000_target_pushpull (NFP_CPP_ID ?t ?act ?tok) a = Inr pp"
    using mu_cmd_parts(4) [OF d] mu_cmd_pushpull [OF d, of a] by simp
  note k = mu_cmd_widths [OF pp [unfolded mu_cmd_parts(4) [OF d]] d]
  have t: "sint ?t < 16" using mu_cmd_parts(1) [OF d] by (simp add: sint_ucast8)
  have act: "sint ?act \<noteq> 32" "sint ?act \<noteq> 0" using mu_cmd_parts(2) [OF d] by (auto simp: sint_ucast8)
  obtain b where b: "b \<in> {1, 2, 3}" and ab: "nfp_alloc_bar (w_pcie w) = Some (b, (w_pcie w)\<lparr>bars :=
    (bars (w_pcie w))[b := (bars (w_pcie w) ! b)\<lparr>bar_lock := True\<rparr>]\<rparr>)" by (rule alloc_bar_free [OF rdy(1)])
  have g: "bar_geom n (cfg (w_pcie w)) (Suc b) (bars (w_pcie w) ! b)" by (rule pcie_wf_bar [OF wf b])
  have bl: "b < length (bars (w_pcie w))" using b wf by (auto simp: pcie_wf_def)
  have n: "n < 32" "cfg (w_pcie w) \<noteq> 0" using wf by (simp_all add: pcie_wf_def)
  have bz: "unat (bitsize ((bars (w_pcie w) ! b)\<lparr>bar_lock := True\<rparr>)) = n" using bar_geomD(2) [OF g] by simp
  have ap: "(a + sz - 1) AND NOT (mask n) = a AND NOT (mask n)" using rng by (simp add: mu_range_def)
  obtain c base where cb: "nfp_compute_bar ((bars (w_pcie w) ! b)\<lparr>bar_lock := True\<rparr>) (sint ?t) (sint ?act) (sint ?tok) a sz 4
      = Inr (c, base)" using compute_bar_fixed [OF bz rdy(2) n(1) t act ap] by blast
  show thesis
    by (rule that [OF b, where priv = "fst (snd (nfp6000_area_init M d a sz p0 w))"])
      (use k pp ab cb bl n(2) in \<open>simp_all add: nfp6000_area_init_def nfp_reconfigure_bar_def nfp_bar_write_def Let_def
        split: prod.splits\<close>)
qed

lemma target_cpp_cmd: "mu_cmd d \<Longrightarrow> nfp_target_cpp d a t = Inr (d, a)"
  by (rule target_cpp_id) (simp_all add: mu_cmd_parts)

lemma alloc_acquire_cmd:
  assumes rdy: "bus_ready n w" "24 \<le> n" and d: "mu_cmd d" and rng: "mu_range n a sz"
  obtains ar w1 where "nfp_cpp_area_alloc_acquire M d a sz w = (Some ar, w1)" "area_size ar = sz"
    "mu_reads d \<Longrightarrow> area_access_check (width_read (area_priv ar)) (area_priv ar) 0 (ucast sz) = Inr False"
    "\<not> mu_reads d \<Longrightarrow> area_access_check (width_write (area_priv ar)) (area_priv ar) 0 (ucast sz) = Inr False"
proof (rule area_init_cmd [OF rdy d rng, of M area_priv_zero])
  fix b priv
  assume b: "b \<in> {1, 2, 3}" and r: "fst (nfp6000_area_init M d a sz area_priv_zero w) = 0"
    and pr: "fst (snd (nfp6000_area_init M d a sz area_priv_zero w)) = priv"
    and pv: "ap_bar priv = Some b" "width_read priv = (if mu_reads d then 4 else -1)"
      "width_write priv = (if mu_reads d then -1 else 4)" "ap_offset priv = a" "ap_size priv = sz"
  have wf: "pcie_wf n (w_pcie w)" using rdy by (simp add: bus_ready_def)
  define w1 where "w1 = snd (snd (nfp6000_area_init M d a sz area_priv_zero w))"
  have in1: "nfp6000_area_init M d a sz area_priv_zero w = (0, priv, w1)"
    using r pr by (simp add: w1_def prod_eq_iff)
  have io: "bar_iomem (bars (w_pcie w1) ! b) \<noteq> 0" by (rule area_init_iomem [OF in1 wf pv(1)])
  let ?w = "w1\<lparr>w_errno := w_errno w\<rparr>"
  define priv2 where "priv2 = fst (snd (nfp6000_area_acquire priv ?w))"
  have io2: "bar_iomem (bars (w_pcie ?w) ! b) \<noteq> 0" using io by simp
  note aq = acquire_word [OF pv(1) io2, folded priv2_def]
  have ac: "nfp6000_area_acquire priv ?w = (0, priv2, ?w)" using aq(1,2) by (simp add: priv2_def prod_eq_iff)
  have cm: "c_malloc w = (True, w)" using rdy by (simp add: bus_ready_def c_malloc_def)
  have op: "nfp_cpp_area_alloc_acquire M d a sz w =
      (Some \<lparr>area_name = [], area_offset = a, area_size = sz, area_priv = priv2\<rparr>, ?w)"
    using target_cpp_cmd [OF d, of a] mu_rangeD(4) [OF rng] in1 ac cm
    by (simp add: nfp_cpp_area_alloc_acquire_def nfp_cpp_area_alloc_def nfp_cpp_area_alloc_with_name_def
        nfp_cpp_area_acquire_def Let_def)
  have al: "a AND 3 = 0" "(ucast sz :: u32) mod 4 = 0"
  proof -
    show "a AND 3 = 0" using rng by (simp add: mu_range_def)
    have "unat (ucast sz :: u32) mod 4 = 0" using mu_rangeD(5,7) [OF rng] by presburger
    then show "(ucast sz :: u32) mod 4 = 0" by (simp add: word_unat_eq_iff unat_mod)
  qed
  have ck: "area_access_check 4 priv2 0 (ucast sz) = Inr False"
    using aq(3-) pv al mu_rangeD(8) [OF rng] by (auto simp: area_access_check_def Let_def)
  show thesis by (rule that [OF op]) (use ck aq(8,9) pv in simp_all)
qed

section \<open>The command on the bus\<close>

lemma bus_ready_after:
  assumes rdy: "bus_ready n w" and op: "nfp_cpp_area_alloc_acquire M dest a sz w = (Some ar, w1)"
    and mid: "w_pcie w2 = w_pcie w1" "w_cpp w2 = w_cpp w1" "w_fault w2 = w_fault w1" "w_mallocs w2 = w_mallocs w1"
  shows "bus_ready n (nfp_cpp_area_release_free ar w2)" "bus_same n w (nfp_cpp_area_release_free ar w2)"
proof -
  have wf: "pcie_wf n (w_pcie w)" and m: "w_mallocs w = []" using rdy by (simp_all add: bus_ready_def)
  show same: "bus_same n w (nfp_cpp_area_release_free ar w2)" by (rule opened_and_released [OF op wf mid(1,2,3)])
  have "w_mallocs (nfp_cpp_area_release_free ar w2) = []"
    using alloc_acquire_mallocs [OF m, of M dest a sz] op mid(4) by (simp add: release_mallocs)
  then show "bus_ready n (nfp_cpp_area_release_free ar w2)" by (rule bus_ready_same [OF rdy same])
qed

lemma cmd_read_runs:
  assumes rdy: "bus_ready n w" "24 \<le> n" and d: "mu_cmd d" "mu_reads d" and rng: "mu_range n a sz"
  obtains ar b c w1 bs h w' where "area_open M n w d a sz b c ar w1"
    "rd32s M (ap_iomem (area_priv ar)) (unat sz div 4) (w_hw w1) = (bs, h)"
    "nfp_cpp_read M d a sz w = (int (unat sz), bs, w')" "bus_ready n w'" "bus_same n w w'" "w_hw w' = h"
    "cfg (w_pcie w') = cfg (w_pcie w)"
proof (rule alloc_acquire_cmd [OF rdy d(1) rng, of M])
  fix ar w1
  assume op: "nfp_cpp_area_alloc_acquire M d a sz w = (Some ar, w1)" and sz: "area_size ar = sz"
    and ck: "mu_reads d \<Longrightarrow> area_access_check (width_read (area_priv ar)) (area_priv ar) 0 (ucast sz) = Inr False"
  have wf: "pcie_wf n (w_pcie w)" using rdy by (simp add: bus_ready_def)
  obtain b c where ao: "area_open M n w d a sz b c ar w1"
    by (rule alloc_acquire_open [OF op wf target_cpp_cmd [OF d(1)] mu_rangeD(1) [OF rng]])
  obtain bs h where r: "rd32s M (ap_iomem (area_priv ar)) (unat sz div 4) (w_hw w1) = (bs, h)" by force
  let ?w = "nfp_cpp_area_release_free ar (w1\<lparr>w_hw := h\<rparr>)"
  have rd: "nfp_cpp_read M d a sz w = (int (unat sz), bs, ?w)"
    using op sz ck [OF d(2)] r mu_rangeD(6,7) [OF rng]
    by (simp add: nfp_cpp_read_def nfp_cpp_area_read_def nfp6000_area_read_def)
  have u: "w_hw ?w = h" "cfg (w_pcie ?w) = cfg (w_pcie w)"
    using release_unlocks(5,6) [of ar b n "w1\<lparr>w_hw := h\<rparr>"] ao by (simp_all add: area_open_def)
  show thesis
    by (rule that [OF ao r rd _ _ u]; rule bus_ready_after [OF rdy(1) op]; simp)
qed

lemma cmd_write_runs:
  assumes rdy: "bus_ready n w" "24 \<le> n" and d: "mu_cmd d" "\<not> mu_reads d" and rng: "mu_range n a sz"
  obtains ar b c w1 w' where "area_open M n w d a sz b c ar w1"
    "nfp_cpp_write M d a buf sz w = (int (unat sz), w')" "bus_ready n w'" "bus_same n w w'"
    "w_hw w' = wr32s M (ap_iomem (area_priv ar)) (unat sz div 4) buf (w_hw w1)"
    "cfg (w_pcie w') = cfg (w_pcie w)"
proof (rule alloc_acquire_cmd [OF rdy d(1) rng, of M])
  fix ar w1
  assume op: "nfp_cpp_area_alloc_acquire M d a sz w = (Some ar, w1)" and sz: "area_size ar = sz"
    and ck: "\<not> mu_reads d \<Longrightarrow> area_access_check (width_write (area_priv ar)) (area_priv ar) 0 (ucast sz) = Inr False"
  have wf: "pcie_wf n (w_pcie w)" using rdy by (simp add: bus_ready_def)
  obtain b c where ao: "area_open M n w d a sz b c ar w1"
    by (rule alloc_acquire_open [OF op wf target_cpp_cmd [OF d(1)] mu_rangeD(1) [OF rng]])
  define h where "h = wr32s M (ap_iomem (area_priv ar)) (unat sz div 4) buf (w_hw w1)"
  let ?w = "nfp_cpp_area_release_free ar (w1\<lparr>w_hw := h\<rparr>)"
  have wr: "nfp_cpp_write M d a buf sz w = (int (unat sz), ?w)"
    using op sz ck [OF d(2)] mu_rangeD(6,7) [OF rng]
    by (simp add: nfp_cpp_write_def nfp_cpp_area_write_def nfp6000_area_write_def h_def)
  have u: "w_hw ?w = wr32s M (ap_iomem (area_priv ar)) (unat sz div 4) buf (w_hw w1)" "cfg (w_pcie ?w) = cfg (w_pcie w)"
    using release_unlocks(5,6) [of ar b n "w1\<lparr>w_hw := h\<rparr>"] ao by (simp_all add: area_open_def h_def)
  show thesis
    by (rule that [OF ao wr _ _ u]; rule bus_ready_after [OF rdy(1) op]; simp)
qed

section \<open>The engine\<close>

definition port_atomic_read :: cpp_port where "port_atomic_read = (7, 3, 0)"
definition port_atomic_write :: cpp_port where "port_atomic_write = (7, 4, 0)"
definition port_test_set :: cpp_port where "port_test_set = (7, 5, 3)"

lemma mu_ports:
  "port_of (atomic_read_id 7) = port_atomic_read" "port_of (atomic_write_id 7) = port_atomic_write"
  "port_of (test_set_imm_id 7) = port_test_set"
  by code_simp+

definition mem_word :: "mem \<Rightarrow> u64 \<Rightarrow> u32" where
  "mem_word m a = le_word (mem_rd m a 4)"

text \<open>A read command returns the word; test-and-set also sets its lowest four bits.\<close>

definition mu_effect :: "cpp_port \<Rightarrow> u64 \<Rightarrow> mem \<Rightarrow> mem" where
  "mu_effect p a m = (if p = port_test_set then mem_wr m a (le_bytes 4 (mem_word m a OR 0xf)) else m)"

locale mu_engine = p2c_window M win n csr mu
  for M :: "'h mmio" and win :: u64 and n :: nat and csr :: "'h \<Rightarrow> nat \<Rightarrow> u32" and mu :: "'h \<Rightarrow> mem" +
  assumes big: "24 \<le> n"
    and rd_cmd: "0 < x \<Longrightarrow> x < 8 \<Longrightarrow> k + 4 \<le> 2 ^ n \<Longrightarrow>
      p2c_port (csr h x) = port_atomic_read \<or> p2c_port (csr h x) = port_test_set \<Longrightarrow>
      io_rd32 M (win + of_nat (x * 2 ^ n + k)) h = (v, h') \<Longrightarrow>
      v = mem_word (mu h) (p2c_base (csr h x) + of_nat k) \<and> csr h' = csr h
      \<and> mu h' = mu_effect (p2c_port (csr h x)) (p2c_base (csr h x) + of_nat k) (mu h)"
    and wr_cmd: "0 < x \<Longrightarrow> x < 8 \<Longrightarrow> k + 4 \<le> 2 ^ n \<Longrightarrow>
      p2c_port (csr h x) = port_atomic_write \<Longrightarrow> h' = io_wr32 M (win + of_nat (x * 2 ^ n + k)) v h \<Longrightarrow>
      csr h' = csr h \<and> mu h' = mem_wr (mu h) (p2c_base (csr h x) + of_nat k) (le_bytes 4 v)"
begin

lemma rd32s_cmd:
  assumes "0 < x" "x < 8" "k + 4 * j \<le> 2 ^ n" "p2c_port (csr h x) = port_atomic_read"
    "rd32s M (win + of_nat (x * 2 ^ n + k)) j h = (bs, h')"
  shows "bs = mem_rd (mu h) (p2c_base (csr h x) + of_nat k) (4 * j) \<and> csr h' = csr h \<and> mu h' = mu h"
  using assms(3-5)
proof (induction j arbitrary: k h bs)
  case (Suc j)
  have s: "win + of_nat (x * 2 ^ n + k) + 4 = win + of_nat (x * 2 ^ n + (k + 4))" by simp
  obtain v h1 where r: "io_rd32 M (win + of_nat (x * 2 ^ n + k)) h = (v, h1)" by force
  obtain bs1 where r1: "rd32s M (win + of_nat (x * 2 ^ n + (k + 4))) j h1 = (bs1, h')" and bs: "bs = le_bytes 4 v @ bs1"
  proof -
    obtain bs1 h2 where q: "rd32s M (win + of_nat (x * 2 ^ n + (k + 4))) j h1 = (bs1, h2)" by force
    have "rd32s M (win + of_nat (x * 2 ^ n + k)) (Suc j) h = (le_bytes 4 v @ bs1, h2)"
      unfolding rd32s.simps s q r Let_def split by (rule refl)
    then show thesis using that q Suc.prems(3) by simp
  qed
  have k: "k + 4 \<le> 2 ^ n" "k + 4 + 4 * j \<le> 2 ^ n" using Suc.prems(1) by simp_all
  have e: "v = mem_word (mu h) (p2c_base (csr h x) + of_nat k)" "csr h1 = csr h" "mu h1 = mu h"
    using rd_cmd [OF assms(1,2) k(1) disjI1 [OF Suc.prems(2)] r] Suc.prems(2)
    by (simp_all add: mu_effect_def port_atomic_read_def port_test_set_def)
  have "le_bytes 4 v = mem_rd (mu h) (p2c_base (csr h x) + of_nat k) 4" by (simp add: e(1) mem_word_def)
  moreover have "mem_rd (mu h) (p2c_base (csr h x) + of_nat k) (4 * Suc j) =
      mem_rd (mu h) (p2c_base (csr h x) + of_nat k) 4 @ mem_rd (mu h) (p2c_base (csr h x) + of_nat (k + 4)) (4 * j)"
    using mem_rd_split [of "mu h" "p2c_base (csr h x) + of_nat k" 4 "4 * j"] by (simp add: add.assoc)
  ultimately show ?case
    using Suc.IH [OF k(2) _ r1] Suc.prems(2) e bs by simp
qed simp

text \<open>The three commands, and reads of several words.\<close>

definition engine_ready :: "'h world \<Rightarrow> bool" where
  "engine_ready w \<longleftrightarrow> bus_ready n w \<and> cfg (w_pcie w) = win"

definition engine_same :: "'h world \<Rightarrow> 'h world \<Rightarrow> bool" where
  "engine_same w w' \<longleftrightarrow> engine_ready w' \<and> w_cpp w' = w_cpp w \<and> w_fault w' = w_fault w"

lemma mu_read:
  assumes rdy: "engine_ready w" and rng: "mu_range n a sz"
  obtains w' where "nfp_cpp_read M (atomic_read_id 7) a sz w = (int (unat sz), mem_rd (mu (w_hw w)) a (unat sz), w')"
    "engine_same w w'" "mu (w_hw w') = mu (w_hw w)"
proof -
  have r: "bus_ready n w" "cfg (w_pcie w) = win" using rdy by (simp_all add: engine_ready_def)
  then have wf: "pcie_wf n (w_pcie w)" by (simp add: bus_ready_def)
  have d: "mu_cmd (atomic_read_id 7)" "mu_reads (atomic_read_id 7)" by (simp_all add: mu_cmd_def mu_reads_def)
  obtain ar b c w1 bs h w' where op: "area_open M n w (atomic_read_id 7) a sz b c ar w1"
    and rd: "rd32s M (ap_iomem (area_priv ar)) (unat sz div 4) (w_hw w1) = (bs, h)"
    and res: "nfp_cpp_read M (atomic_read_id 7) a sz w = (int (unat sz), bs, w')" "bus_ready n w'" "bus_same n w w'"
      "w_hw w' = h" "cfg (w_pcie w') = cfg (w_pcie w)"
    by (rule cmd_read_runs [OF r(1) big d rng, of M])
  note m = mu_rangeD [OF rng]
  note ad = open_area_addr [OF op r(2) wf m(1,2,3)]
  have k: "unat a mod 2 ^ n + 4 * (unat sz div 4) \<le> 2 ^ n" using ad(3) m(5) by simp
  have "bs = mem_rd (mu (w_hw w)) a (unat sz) \<and> mu h = mu (w_hw w)"
    using rd32s_cmd [OF ad(4,5) k _ rd [unfolded ad(1)]] ad(2,6,7,8) m(5) by (simp add: mu_ports)
  then show thesis using that res r by (simp add: engine_same_def engine_ready_def bus_same_def)
qed

lemma mu_readl:
  assumes rdy: "engine_ready w" and rng: "mu_range n a 4" and d: "mu_reads d"
  obtains w' where "nfp_cpp_readl M d a w = (Inr (mem_word (mu (w_hw w)) a), w')"
    "engine_same w w'" "mu (w_hw w') = mu_effect (port_of d) a (mu (w_hw w))"
proof -
  have r: "bus_ready n w" "cfg (w_pcie w) = win" using rdy by (simp_all add: engine_ready_def)
  then have wf: "pcie_wf n (w_pcie w)" by (simp add: bus_ready_def)
  have d': "mu_cmd d" "port_of d = port_atomic_read \<or> port_of d = port_test_set"
    using d by (auto simp: mu_cmd_def mu_reads_def mu_ports)
  obtain ar b c w1 bs h w' where op: "area_open M n w d a 4 b c ar w1"
    and rd: "rd32s M (ap_iomem (area_priv ar)) (unat (4 :: u64) div 4) (w_hw w1) = (bs, h)"
    and res: "nfp_cpp_read M d a 4 w = (int (unat (4 :: u64)), bs, w')" "bus_ready n w'" "bus_same n w w'"
      "w_hw w' = h" "cfg (w_pcie w') = cfg (w_pcie w)"
    by (rule cmd_read_runs [OF r(1) big d'(1) d rng, of M])
  note m = mu_rangeD [OF rng]
  note ad = open_area_addr [OF op r(2) wf m(1,2,3)]
  have k: "unat a mod 2 ^ n + 4 \<le> 2 ^ n" using ad(3) by simp
  obtain v h1 where v: "io_rd32 M (win + of_nat (Suc b * 2 ^ n + unat a mod 2 ^ n)) (w_hw w1) = (v, h1)" by force
  have one: "unat (4 :: u64) div 4 = Suc 0" by simp
  have "bs = le_bytes 4 v" "h = h1" using rd unfolding ad(1) one rd32s.simps v Let_def split by simp_all
  then have "le_word bs = mem_word (mu (w_hw w)) a" "mu h = mu_effect (port_of d) a (mu (w_hw w))"
    using rd_cmd [OF ad(4,5) k _ v] ad(2,6,7,8) d'(2) by simp_all
  then show thesis using that res r by (simp add: nfp_cpp_readl_def engine_same_def engine_ready_def bus_same_def)
qed

lemma mu_writel:
  assumes rdy: "engine_ready w" and rng: "mu_range n a 4"
  obtains w' where "nfp_cpp_writel M (atomic_write_id 7) a v w = (0, w')"
    "engine_same w w'" "mu (w_hw w') = mem_wr (mu (w_hw w)) a (le_bytes 4 v)"
proof -
  have r: "bus_ready n w" "cfg (w_pcie w) = win" using rdy by (simp_all add: engine_ready_def)
  then have wf: "pcie_wf n (w_pcie w)" by (simp add: bus_ready_def)
  have d: "mu_cmd (atomic_write_id 7)" "\<not> mu_reads (atomic_write_id 7)"
    by (simp_all add: mu_cmd_def mu_reads_def mu_cmd_ids)
  obtain ar b c w1 w' where op: "area_open M n w (atomic_write_id 7) a 4 b c ar w1"
    and res: "nfp_cpp_write M (atomic_write_id 7) a (le_bytes 4 v) 4 w = (int (unat (4 :: u64)), w')" "bus_ready n w'"
      "bus_same n w w'"
      "w_hw w' = wr32s M (ap_iomem (area_priv ar)) (unat (4 :: u64) div 4) (le_bytes 4 v) (w_hw w1)"
      "cfg (w_pcie w') = cfg (w_pcie w)"
    by (rule cmd_write_runs [OF r(1) big d rng, of M "le_bytes 4 v"])
  note m = mu_rangeD [OF rng]
  note ad = open_area_addr [OF op r(2) wf m(1,2,3)]
  have k: "unat a mod 2 ^ n + 4 \<le> 2 ^ n" using ad(3) by simp
  have one: "unat (4 :: u64) div 4 = Suc 0" by simp
  have "w_hw w' = io_wr32 M (win + of_nat (Suc b * 2 ^ n + unat a mod 2 ^ n)) v (w_hw w1)"
    unfolding res(4) ad(1) one by simp
  then have "mu (w_hw w') = mem_wr (mu (w_hw w)) a (le_bytes 4 v)"
    using wr_cmd [OF ad(4,5) k] ad(2,6,7,8) by (simp add: mu_ports)
  then show thesis using that res r by (simp add: nfp_cpp_writel_def engine_same_def engine_ready_def bus_same_def)
qed

end

end
