(* ===== verification/Mutex_Lock.thy ===== *)
theory Mutex_Lock
  imports Cpp_Atomic
begin

text \<open>
  What the lock operations of nfp_mutex.c do to the lock word, on a bus with an atomic engine: each
  bus access of an operation, and the complete operations on every branch.
\<close>

section \<open>Words of the lock\<close>

definition set_word :: "mem \<Rightarrow> u64 \<Rightarrow> u32 \<Rightarrow> mem" where
  "set_word m a v = mem_wr m a (le_bytes 4 v)"

definition lock_place :: "u64 \<Rightarrow> bool" where
  "lock_place a \<longleftrightarrow> a AND 7 = 0 \<and> unat a + 8 \<le> 2 ^ 40"

lemma lock_place_range:
  assumes "lock_place a" "2 \<le> n"
  shows "mu_range n a 4" "mu_range n (a + 4) 4"
proof -
  have a: "a AND 7 = 0" "unat a + 8 \<le> 2 ^ 40" using assms(1) by (simp_all add: lock_place_def)
  have a3: "a AND 3 = 0" by (rule and_7_3 [OF a(1)])
  have u: "unat (a + 4) = unat a + 4" using unat_add_small [of a 4] a(2) by simp
  have "unat (a AND 3) = unat a mod 4" "unat ((a + 4) AND 3) = unat (a + 4) mod 4"
    unfolding and_3 unsigned_take_bit_eq unfolding take_bit_eq_mod by simp_all
  then have "unat ((a + 4) AND 3) = 0" using a3 u by simp
  then have b3: "(a + 4) AND 3 = 0" by (simp only: unat_eq_0)
  show "mu_range n a 4" "mu_range n (a + 4) 4"
    using word_in_aperture [OF a3 assms(2)] word_in_aperture [OF b3 assms(2)] a3 b3 a(2) u
    by (simp_all add: mu_range_def)
qed

lemma mem_word_set [simp]: "mem_word (set_word m a v) a = v"
  by (simp add: mem_word_def set_word_def mem_rd_wr_same)

lemma mem_word_next: "mem_word (set_word m a v) (a + 4) = mem_word m (a + 4)"
proof -
  have "disj_range a (length (le_bytes 4 v)) (a + 4) 4"
    using disj_range_offsets [of 4 0 4 4 8 a] by simp
  then show ?thesis by (simp add: mem_word_def set_word_def mem_rd_wr_disj)
qed

lemma mem_wr_rd: "mem_wr m a (mem_rd m a n) = m"
proof (induction n arbitrary: a)
  case (Suc n)
  have "mem_rd m a (Suc n) = m a # mem_rd m (a + 1) n"
    using mem_rd_split [of m a 1 n] by (simp add: mem_rd_def)
  then show ?case using Suc by simp
qed (simp add: mem_rd_def)

lemma set_word_id [simp]: "set_word m a (mem_word m a) = m"
  by (simp add: set_word_def mem_word_def mem_wr_rd)

lemma set_word_again [simp]: "set_word (set_word m a u) a v = set_word m a v"
proof (rule ext)
  fix x
  show "set_word (set_word m a u) a v x = set_word m a v x"
  proof (cases "\<exists>i < 4. x = a + of_nat i")
    case True
    then obtain i where "i < 4" "x = a + of_nat i" by blast
    then show ?thesis by (simp add: set_word_def mem_wr_same)
  next
    case False
    then have n: "\<And>i. i < length (le_bytes 4 w) \<Longrightarrow> x \<noteq> a + of_nat i" for w :: u32 by simp
    have "mem_wr m' a (le_bytes 4 w) x = m' x" for m' and w :: u32 by (rule mem_wr_other) (rule n)
    then show ?thesis by (simp add: set_word_def)
  qed
qed

text \<open>The marks of the lock word are told apart, and an owner is read back from it.\<close>

lemma and_0xffff: "(v :: u32) AND 0xffff = take_bit 16 v"
  by (rule and_mask_take) (simp add: mask_eq_exp_minus_1)

lemma bit_0xf: "bit (0xf :: u32) k \<longleftrightarrow> k < 4"
proof -
  have "(0xf :: u32) = mask 4" by (simp add: mask_eq_exp_minus_1)
  then show ?thesis by (simp only: bit_mask_iff) auto
qed

lemma bit_MUTEX_LOCKED: "bit (MUTEX_LOCKED i) k \<longleftrightarrow> k < 4 \<or> 16 \<le> k \<and> k < 32 \<and> bit i (k - 16)"
  unfolding MUTEX_LOCKED_def bit_or_iff bit_0xf bit_push_bit_iff bit_unsigned_iff
  by (auto dest: bit_imp_le_length)

lemma locked_marks [simp]:
  "MUTEX_IS_LOCKED (MUTEX_LOCKED i)" "\<not> MUTEX_IS_UNLOCKED (MUTEX_LOCKED i)" "MUTEX_IS_UNLOCKED (MUTEX_UNLOCK i)"
  "ucast (MUTEX_INTERFACE (MUTEX_LOCKED i)) = i" "MUTEX_IS_LOCKED v \<Longrightarrow> \<not> MUTEX_IS_UNLOCKED v"
proof -
  have t: "take_bit 16 (MUTEX_LOCKED i) = 0x000f"
    by (rule bit_word_eqI, unfold bit_take_bit_iff bit_MUTEX_LOCKED bit_0xf) auto
  show "MUTEX_IS_LOCKED (MUTEX_LOCKED i)" "\<not> MUTEX_IS_UNLOCKED (MUTEX_LOCKED i)"
    unfolding MUTEX_IS_LOCKED_def MUTEX_IS_UNLOCKED_def and_0xffff t by simp_all
  show "MUTEX_IS_UNLOCKED (MUTEX_UNLOCK i)" by (simp add: MUTEX_IS_UNLOCKED_def MUTEX_UNLOCK_def)
  show "MUTEX_IS_LOCKED v \<Longrightarrow> \<not> MUTEX_IS_UNLOCKED v" by (simp add: MUTEX_IS_LOCKED_def MUTEX_IS_UNLOCKED_def)
  show "ucast (MUTEX_INTERFACE (MUTEX_LOCKED i)) = i"
    unfolding MUTEX_INTERFACE_def and_0xffff
    by (intro bit_word_eqI) (auto simp: bit_unsigned_iff bit_take_bit_iff bit_drop_bit_eq bit_MUTEX_LOCKED)
qed

lemma locked_inject [simp]: "MUTEX_LOCKED i = MUTEX_LOCKED j \<longleftrightarrow> i = j"
  by (metis locked_marks(4))

lemma locked_or [simp]: "MUTEX_IS_LOCKED v \<Longrightarrow> v OR 0xf = v"
proof -
  assume "MUTEX_IS_LOCKED v"
  then have t: "take_bit 16 v = mask 4" by (simp add: MUTEX_IS_LOCKED_def and_0xffff mask_eq_exp_minus_1)
  have "bit v k" if "k < 4" for k
  proof -
    have "bit (take_bit 16 v) k" unfolding t using that by (simp add: bit_mask_iff)
    then show ?thesis by (simp add: bit_take_bit_iff)
  qed
  then show "v OR 0xf = v" by (intro bit_word_eqI, unfold bit_or_iff bit_0xf) auto
qed

text \<open>After the test-and-set of a free word the lock looks as if interface 0 held it.\<close>

lemma taken_word: "0 OR 0xf = MUTEX_LOCKED 0" "MUTEX_LOCKED i = 0xf \<longleftrightarrow> i = 0"
proof -
  show z: "0 OR 0xf = MUTEX_LOCKED 0" by (simp add: MUTEX_LOCKED_def)
  then show "MUTEX_LOCKED i = 0xf \<longleftrightarrow> i = 0" using locked_inject [of i 0] by simp
qed

text \<open>A mark that is neither: after the test-and-set it is that of a held lock exactly where only the
  lowest four bits were set, and the interface is the one of the upper half.\<close>

lemma low_marks:
  assumes "\<not> MUTEX_IS_LOCKED u" "\<not> MUTEX_IS_UNLOCKED u"
  shows "MUTEX_IS_LOCKED (u OR 0xf) \<longleftrightarrow> u AND 0xfff0 = 0" "\<not> MUTEX_IS_UNLOCKED (u OR 0xf)"
    "MUTEX_INTERFACE (u OR 0xf) = MUTEX_INTERFACE u" "(u OR 0xf) OR 0xf = u OR 0xf"
proof -
  have f: "bit (0xfff0 :: u32) k \<longleftrightarrow> 4 \<le> k \<and> k < 16" for k
  proof -
    have "(0xfff0 :: u32) = push_bit 4 (mask 12)" by (simp add: mask_eq_exp_minus_1)
    then show ?thesis by (simp only: bit_push_bit_iff bit_mask_iff) auto
  qed
  have h: "bit (0xffff :: u32) k \<longleftrightarrow> k < 16" for k
  proof -
    have "(0xffff :: u32) = mask 16" by (simp add: mask_eq_exp_minus_1)
    then show ?thesis by (simp only: bit_mask_iff) auto
  qed
  show l: "MUTEX_IS_LOCKED (u OR 0xf) \<longleftrightarrow> u AND 0xfff0 = 0"
  proof
    assume "MUTEX_IS_LOCKED (u OR 0xf)"
    then have e: "(u OR 0xf) AND 0xffff = 0xf" by (simp add: MUTEX_IS_LOCKED_def)
    have "\<not> bit u k" if "4 \<le> k" "k < 16" for k
    proof -
      have "bit ((u OR 0xf) AND 0xffff) k = bit (0xf :: u32) k" unfolding e by (rule refl)
      then show ?thesis using that unfolding bit_and_iff bit_or_iff h bit_0xf by linarith
    qed
    then show "u AND 0xfff0 = 0" by (intro bit_word_eqI, unfold bit_and_iff f) auto
  next
    assume z: "u AND 0xfff0 = 0"
    have "\<not> bit u k" if "4 \<le> k" "k < 16" for k
    proof -
      have "\<not> bit (u AND 0xfff0) k" unfolding z by simp
      then show ?thesis using that unfolding bit_and_iff f by blast
    qed
    then have "(u OR 0xf) AND 0xffff = 0xf" by (intro bit_word_eqI, unfold bit_and_iff bit_or_iff h bit_0xf) (auto, meson not_less)
    then show "MUTEX_IS_LOCKED (u OR 0xf)" by (simp add: MUTEX_IS_LOCKED_def)
  qed
  show "\<not> MUTEX_IS_UNLOCKED (u OR 0xf)"
  proof
    assume "MUTEX_IS_UNLOCKED (u OR 0xf)"
    then have "\<not> bit ((u OR 0xf) AND 0xffff) 0" by (simp add: MUTEX_IS_UNLOCKED_def)
    then show False unfolding bit_and_iff bit_or_iff h bit_0xf by simp
  qed
  show "MUTEX_INTERFACE (u OR 0xf) = MUTEX_INTERFACE u" unfolding MUTEX_INTERFACE_def and_0xffff
    by (intro bit_word_eqI, unfold bit_take_bit_iff bit_drop_bit_eq o_apply bit_or_iff bit_0xf) auto
  show "(u OR 0xf) OR 0xf = u OR 0xf" by (simp add: or.assoc)
qed

lemma locked_owner:
  assumes "MUTEX_IS_LOCKED v"
  shows "v = MUTEX_LOCKED (ucast (MUTEX_INTERFACE v))"
proof (rule bit_word_eqI)
  fix k assume k: "k < LENGTH(32)"
  have "bit (v AND 0xffff) k = bit (0xf :: u32) k" using assms by (simp add: MUTEX_IS_LOCKED_def)
  then have low: "k < 16 \<Longrightarrow> bit v k \<longleftrightarrow> k < 4" unfolding and_0xffff bit_take_bit_iff bit_0xf by auto
  have "bit (ucast (MUTEX_INTERFACE v) :: u16) (k - 16) \<longleftrightarrow> k - 16 < 16 \<and> bit v k" if "16 \<le> k"
    using that unfolding MUTEX_INTERFACE_def and_0xffff bit_unsigned_iff bit_take_bit_iff bit_drop_bit_eq o_apply by auto
  then show "bit v k \<longleftrightarrow> bit (MUTEX_LOCKED (ucast (MUTEX_INTERFACE v))) k"
    unfolding bit_MUTEX_LOCKED using low k by (cases "k < 16") auto
qed

section \<open>Single accesses\<close>

text \<open>A handle of a lock at a valid place of the memory unit.\<close>

definition mtx_ok :: "nfp_cpp_mutex \<Rightarrow> bool" where
  "mtx_ok mx \<longleftrightarrow> mtx_target mx = 7 \<and> lock_place (mtx_address mx)"

definition lock_word :: "mem \<Rightarrow> nfp_cpp_mutex \<Rightarrow> u32" where
  "lock_word m mx = mem_word m (mtx_address mx)"

definition lock_key :: "mem \<Rightarrow> nfp_cpp_mutex \<Rightarrow> u32" where
  "lock_key m mx = mem_word m (mtx_address mx + 4)"

definition put_lock :: "nfp_cpp_mutex \<Rightarrow> u32 \<Rightarrow> mem \<Rightarrow> mem" where
  "put_lock mx v m = set_word m (mtx_address mx) v"

lemma lock_put [simp]:
  "lock_word (put_lock mx v m) mx = v" "lock_key (put_lock mx v m) mx = lock_key m mx"
  "put_lock mx (lock_word m mx) m = m" "put_lock mx v (put_lock mx u m) = put_lock mx v m"
  by (simp_all add: lock_word_def lock_key_def put_lock_def mem_word_next)

lemma lock_fields [simp]:
  "lock_word m (mx\<lparr>mtx_depth := d\<rparr>) = lock_word m mx" "lock_key m (mx\<lparr>mtx_depth := d\<rparr>) = lock_key m mx"
  "put_lock (mx\<lparr>mtx_depth := d\<rparr>) v m = put_lock mx v m" "mtx_ok (mx\<lparr>mtx_depth := d\<rparr>) = mtx_ok mx"
  by (simp_all add: lock_word_def lock_key_def put_lock_def mtx_ok_def)

context mu_engine
begin

lemma engine_interface: "engine_same w w' \<Longrightarrow> nfp_cpp_interface w' = nfp_cpp_interface w"
  by (simp add: engine_same_def nfp_cpp_interface_def)

lemma engine_same_trans: "engine_same w w1 \<Longrightarrow> engine_same w1 w2 \<Longrightarrow> engine_same w w2"
  by (simp add: engine_same_def)

lemma engine_same_errno: "engine_same w w1 \<Longrightarrow> engine_same w (w1\<lparr>w_errno := e\<rparr>)"
  by (simp add: engine_same_def engine_ready_def bus_ready_def)

lemma place_ranges: "mtx_ok mx \<Longrightarrow> mu_range n (mtx_address mx) 4" "mtx_ok mx \<Longrightarrow> mu_range n (mtx_address mx + 4) 4"
  using lock_place_range [of "mtx_address mx" n] big by (simp_all add: mtx_ok_def)

text \<open>The outcome of an access: memory and errors.\<close>

definition ends_with :: "'h world \<Rightarrow> mem \<Rightarrow> errno \<Rightarrow> nfp_cpp_mutex \<Rightarrow> 'h mtx_result \<Rightarrow> bool" where
  "ends_with w m e mx r \<longleftrightarrow>
     (\<exists>w'. r = (-1, mx, w') \<and> engine_same w w' \<and> mu (w_hw w') = m \<and> w_errno w' = errno_code e)"

definition goes_on :: "'h world \<Rightarrow> mem \<Rightarrow> 'h world \<Rightarrow> bool" where
  "goes_on w m w' \<longleftrightarrow> engine_same w w' \<and> mu (w_hw w') = m"

lemma read_key:
  assumes "engine_ready w" "mtx_ok mx"
  obtains w' where "nfp_cpp_readl M (atomic_read_id (ucast (mtx_target mx))) (mtx_address mx + 4) w
      = (Inr (lock_key (mu (w_hw w)) mx), w')" "goes_on w (mu (w_hw w)) w'"
proof (rule mu_readl [OF assms(1) place_ranges(2) [OF assms(2)], of "atomic_read_id 7"])
  show "mu_reads (atomic_read_id 7)" by (simp add: mu_reads_def)
  fix w' assume r: "nfp_cpp_readl M (atomic_read_id 7) (mtx_address mx + 4) w
      = (Inr (mem_word (mu (w_hw w)) (mtx_address mx + 4)), w')" "engine_same w w'"
    "mu (w_hw w') = mu_effect (port_of (atomic_read_id 7)) (mtx_address mx + 4) (mu (w_hw w))"
  have t: "ucast (mtx_target mx) = (7 :: u32)" using assms(2) by (simp add: mtx_ok_def)
  show thesis
    by (rule that [of w']) (use r t in \<open>simp_all add: goes_on_def lock_key_def mu_ports mu_effect_def port_atomic_read_def port_test_set_def\<close>)
qed

lemma trylock_key_spec:
  assumes "engine_ready w" "mtx_ok mx"
  shows "lock_key (mu (w_hw w)) mx \<noteq> mtx_key mx \<Longrightarrow>
      \<exists>r. trylock_key M mx w = Inl r \<and> ends_with w (mu (w_hw w)) EPERM mx r"
    "lock_key (mu (w_hw w)) mx = mtx_key mx \<Longrightarrow>
      \<exists>w'. trylock_key M mx w = Inr w' \<and> goes_on w (mu (w_hw w)) w'"
  by (rule read_key [OF assms]; auto simp: trylock_key_def mtx_error_def NFP_ERRNO_def ends_with_def goes_on_def
      engine_same_errno)+

text \<open>The test-and-set on each kind of lock word.\<close>

lemma test_read:
  assumes "engine_ready w" "mtx_ok mx"
  obtains w' where "nfp_cpp_readl M (test_set_imm_id (ucast (mtx_target mx))) (mtx_address mx) w
      = (Inr (lock_word (mu (w_hw w)) mx), w')"
    "goes_on w (put_lock mx (lock_word (mu (w_hw w)) mx OR 0xf) (mu (w_hw w))) w'"
proof (rule mu_readl [OF assms(1) place_ranges(1) [OF assms(2)], of "test_set_imm_id 7"])
  show "mu_reads (test_set_imm_id 7)" by (simp add: mu_reads_def)
  fix w' assume r: "nfp_cpp_readl M (test_set_imm_id 7) (mtx_address mx) w
      = (Inr (mem_word (mu (w_hw w)) (mtx_address mx)), w')" "engine_same w w'"
    "mu (w_hw w') = mu_effect (port_of (test_set_imm_id 7)) (mtx_address mx) (mu (w_hw w))"
  have t: "ucast (mtx_target mx) = (7 :: u32)" using assms(2) by (simp add: mtx_ok_def)
  show thesis
    by (rule that [of w']) (use r t in \<open>simp_all add: goes_on_def lock_word_def put_lock_def set_word_def mu_ports mu_effect_def\<close>)
qed

lemma trylock_test_spec:
  assumes "engine_ready w" "mtx_ok mx"
  defines "u \<equiv> lock_word (mu (w_hw w)) mx" and "m \<equiv> mu (w_hw w)"
  shows "MUTEX_IS_UNLOCKED u \<Longrightarrow> \<exists>w'. trylock_test M mx w = Inr w' \<and> goes_on w (put_lock mx (u OR 0xf) m) w'"
    "u = MUTEX_LOCKED (nfp_cpp_interface w) \<Longrightarrow>
      \<exists>w'. trylock_test M mx w = Inl (0, mx\<lparr>mtx_depth := 1\<rparr>, w') \<and> goes_on w m w'"
    "MUTEX_IS_LOCKED u \<Longrightarrow> u \<noteq> MUTEX_LOCKED (nfp_cpp_interface w) \<Longrightarrow>
      \<exists>r. trylock_test M mx w = Inl r \<and> ends_with w m EBUSY mx r"
    "\<not> MUTEX_IS_LOCKED u \<Longrightarrow> \<not> MUTEX_IS_UNLOCKED u \<Longrightarrow>
      \<exists>r. trylock_test M mx w = Inl r \<and> ends_with w (put_lock mx (u OR 0xf) m) EINVAL mx r"
proof -
  obtain w' where r: "nfp_cpp_readl M (test_set_imm_id (ucast (mtx_target mx))) (mtx_address mx) w = (Inr u, w')"
    "goes_on w (put_lock mx (u OR 0xf) m) w'"
    unfolding u_def m_def by (rule test_read [OF assms(1,2)])
  have um: "put_lock mx u m = m" by (simp add: u_def m_def)
  show "MUTEX_IS_UNLOCKED u \<Longrightarrow> \<exists>w'. trylock_test M mx w = Inr w' \<and> goes_on w (put_lock mx (u OR 0xf) m) w'"
    using r by (simp add: trylock_test_def)
  show "u = MUTEX_LOCKED (nfp_cpp_interface w) \<Longrightarrow>
      \<exists>w'. trylock_test M mx w = Inl (0, mx\<lparr>mtx_depth := 1\<rparr>, w') \<and> goes_on w m w'"
    using r um by (simp add: trylock_test_def)
  show "MUTEX_IS_LOCKED u \<Longrightarrow> u \<noteq> MUTEX_LOCKED (nfp_cpp_interface w) \<Longrightarrow>
      \<exists>r. trylock_test M mx w = Inl r \<and> ends_with w m EBUSY mx r"
    using r um by (simp add: trylock_test_def mtx_error_def NFP_ERRNO_def ends_with_def goes_on_def engine_same_errno)
  show "\<not> MUTEX_IS_LOCKED u \<Longrightarrow> \<not> MUTEX_IS_UNLOCKED u \<Longrightarrow>
      \<exists>r. trylock_test M mx w = Inl r \<and> ends_with w (put_lock mx (u OR 0xf) m) EINVAL mx r"
    using r by (auto simp: trylock_test_def mtx_error_def NFP_ERRNO_def ends_with_def goes_on_def engine_same_errno)
qed

lemma write_lock:
  assumes "engine_ready w" "mtx_ok mx"
  obtains w' where "nfp_cpp_writel M (atomic_write_id (ucast (mtx_target mx))) (mtx_address mx) v w = (0, w')"
    "goes_on w (put_lock mx v (mu (w_hw w))) w'"
proof (rule mu_writel [OF assms(1) place_ranges(1) [OF assms(2)], of v])
  fix w' assume r: "nfp_cpp_writel M (atomic_write_id 7) (mtx_address mx) v w = (0, w')" "engine_same w w'"
    "mu (w_hw w') = mem_wr (mu (w_hw w)) (mtx_address mx) (le_bytes 4 v)"
  have t: "ucast (mtx_target mx) = (7 :: u32)" using assms(2) by (simp add: mtx_ok_def)
  show thesis by (rule that [of w']) (use r t in \<open>simp_all add: goes_on_def put_lock_def set_word_def\<close>)
qed

lemma trylock_claim_spec:
  assumes "engine_ready w" "mtx_ok mx"
  shows "\<exists>w'. trylock_claim M mx w = (0, mx\<lparr>mtx_depth := 1\<rparr>, w')
    \<and> goes_on w (put_lock mx (MUTEX_LOCKED (nfp_cpp_interface w)) (mu (w_hw w))) w'"
  by (rule write_lock [OF assms, of "MUTEX_LOCKED (nfp_cpp_interface w)"]) (auto simp: trylock_claim_def)

lemma unlock_value_spec:
  assumes "engine_ready w" "mtx_ok mx"
  shows "\<exists>w'. unlock_value M mx w = Inr (lock_word (mu (w_hw w)) mx, w') \<and> goes_on w (mu (w_hw w)) w'"
proof (rule mu_readl [OF assms(1) place_ranges(1) [OF assms(2)], of "atomic_read_id 7"])
  show "mu_reads (atomic_read_id 7)" by (simp add: mu_reads_def)
  fix w' assume r: "nfp_cpp_readl M (atomic_read_id 7) (mtx_address mx) w
      = (Inr (mem_word (mu (w_hw w)) (mtx_address mx)), w')" "engine_same w w'"
    "mu (w_hw w') = mu_effect (port_of (atomic_read_id 7)) (mtx_address mx) (mu (w_hw w))"
  have t: "ucast (mtx_target mx) = (7 :: u32)" using assms(2) by (simp add: mtx_ok_def)
  show ?thesis
    by (rule exI [of _ w']) (use r t in \<open>simp add: unlock_value_def goes_on_def lock_word_def mu_ports mu_effect_def
      port_atomic_read_def port_test_set_def\<close>)
qed

lemma unlock_key_spec:
  assumes "engine_ready w" "mtx_ok mx"
  shows "lock_key (mu (w_hw w)) mx \<noteq> mtx_key mx \<Longrightarrow>
      \<exists>r. unlock_key M mx v w = Inl r \<and> ends_with w (mu (w_hw w)) EPERM mx r"
    "lock_key (mu (w_hw w)) mx = mtx_key mx \<Longrightarrow> v \<noteq> MUTEX_LOCKED (nfp_cpp_interface w) \<Longrightarrow>
      \<exists>r. unlock_key M mx v w = Inl r \<and> ends_with w (mu (w_hw w)) EACCES mx r"
    "lock_key (mu (w_hw w)) mx = mtx_key mx \<Longrightarrow> v = MUTEX_LOCKED (nfp_cpp_interface w) \<Longrightarrow>
      \<exists>w'. unlock_key M mx v w = Inr w' \<and> goes_on w (mu (w_hw w)) w'"
  by (rule read_key [OF assms]; auto simp: unlock_key_def mtx_error_def NFP_ERRNO_def ends_with_def goes_on_def
      engine_same_errno)+

lemma unlock_write_spec:
  assumes "engine_ready w" "mtx_ok mx"
  shows "\<exists>w'. unlock_write M mx w = (0, mx\<lparr>mtx_depth := 0\<rparr>, w') \<and> goes_on w (put_lock mx 0 (mu (w_hw w))) w'"
  by (rule write_lock [OF assms, of "MUTEX_UNLOCK (nfp_cpp_interface w)"])
    (auto simp: unlock_write_def MUTEX_UNLOCK_def)

end

section \<open>Complete operations\<close>

text \<open>What the operations are to do, on the lock word and its key: the error, if any, and the new
  word.\<close>

definition trylock_abs :: "u16 \<Rightarrow> u32 \<Rightarrow> u32 \<Rightarrow> u32 \<Rightarrow> errno option \<times> u32" where
  "trylock_abs i mkey key u =
     (if key \<noteq> mkey then (Some EPERM, u)
      else if MUTEX_IS_UNLOCKED u \<or> u = MUTEX_LOCKED i then (None, MUTEX_LOCKED i)
      else if MUTEX_IS_LOCKED u then (Some EBUSY, u)
      else (Some EINVAL, u OR 0xf))"

definition unlock_abs :: "u16 \<Rightarrow> u32 \<Rightarrow> u32 \<Rightarrow> u32 \<Rightarrow> errno option \<times> u32" where
  "unlock_abs i mkey key u =
     (if key \<noteq> mkey then (Some EPERM, u) else if u \<noteq> MUTEX_LOCKED i then (Some EACCES, u) else (None, 0))"

context mu_engine
begin

text \<open>An operation that ends with the abstract outcome.\<close>

definition op_result :: "'h world \<Rightarrow> nfp_cpp_mutex \<Rightarrow> u16 \<Rightarrow> errno option \<times> u32 \<Rightarrow> 'h mtx_result \<Rightarrow> bool" where
  "op_result w mx d out r \<longleftrightarrow>
     (\<exists>w'. r = (case fst out of None \<Rightarrow> (0, mx\<lparr>mtx_depth := d\<rparr>, w') | Some e \<Rightarrow> (-1, mx, w'))
       \<and> (\<forall>e. fst out = Some e \<longrightarrow> w_errno w' = errno_code e)
       \<and> goes_on w (put_lock mx (snd out) (mu (w_hw w))) w')"

lemma op_fails: "ends_with w m e mx r \<Longrightarrow> m = put_lock mx v (mu (w_hw w)) \<Longrightarrow> op_result w mx d (Some e, v) r"
  by (auto simp: ends_with_def op_result_def goes_on_def)

lemma goes_on_trans: "goes_on w m w1 \<Longrightarrow> goes_on w1 m' w2 \<Longrightarrow> goes_on w m' w2"
  using engine_same_trans by (auto simp: goes_on_def)

lemma ends_after: "goes_on w m w1 \<Longrightarrow> ends_with w1 m' e mx r \<Longrightarrow> ends_with w m' e mx r"
  using engine_same_trans by (auto simp: goes_on_def ends_with_def)

lemma goes_onD:
  assumes "goes_on w m w'"
  shows "engine_ready w'" "mu (w_hw w') = m" "nfp_cpp_interface w' = nfp_cpp_interface w"
  using assms engine_interface by (auto simp: goes_on_def engine_same_def)

theorem trylock_result:
  assumes rdy: "engine_ready w" and mx: "mtx_ok mx" and d: "mtx_depth mx = 0"
  shows "op_result w mx 1 (trylock_abs (nfp_cpp_interface w) (mtx_key mx) (lock_key (mu (w_hw w)) mx)
    (lock_word (mu (w_hw w)) mx)) (mutex_trylock M mx w)"
proof (cases "lock_key (mu (w_hw w)) mx = mtx_key mx")
  case False
  then obtain r where "trylock_key M mx w = Inl r" "ends_with w (mu (w_hw w)) EPERM mx r"
    using trylock_key_spec(1) [OF rdy mx] by blast
  then show ?thesis using False d by (auto simp: mutex_trylock_def trylock_abs_def intro!: op_fails)
next
  case True
  let ?m = "mu (w_hw w)" and ?u = "lock_word (mu (w_hw w)) mx" and ?i = "nfp_cpp_interface w"
  obtain w1 where k: "trylock_key M mx w = Inr w1" "goes_on w ?m w1"
    using trylock_key_spec(2) [OF rdy mx True] by blast
  note w1 = goes_onD [OF k(2)]
  note ts = trylock_test_spec [OF w1(1) mx, unfolded w1(2,3)]
  consider "MUTEX_IS_UNLOCKED ?u" | "?u = MUTEX_LOCKED ?i"
    | "MUTEX_IS_LOCKED ?u" "?u \<noteq> MUTEX_LOCKED ?i" | "\<not> MUTEX_IS_LOCKED ?u" "\<not> MUTEX_IS_UNLOCKED ?u" by blast
  then show ?thesis
  proof cases
    case 1
    obtain w2 where t: "trylock_test M mx w1 = Inr w2" "goes_on w1 (put_lock mx (?u OR 0xf) ?m) w2"
      using ts(1) [OF 1] by blast
    obtain w3 where c: "trylock_claim M mx w2 = (0, mx\<lparr>mtx_depth := 1\<rparr>, w3)"
      "goes_on w2 (put_lock mx (MUTEX_LOCKED ?i) (put_lock mx (?u OR 0xf) ?m)) w3"
      using trylock_claim_spec [OF goes_onD(1) [OF t(2)] mx, unfolded goes_onD(2,3) [OF t(2)] w1(3)] by blast
    have "goes_on w (put_lock mx (MUTEX_LOCKED ?i) ?m) w3"
      using goes_on_trans [OF goes_on_trans [OF k(2) t(2)] c(2)] by simp
    then show ?thesis using 1 True d k(1) t(1) c(1)
      by (simp add: mutex_trylock_def trylock_abs_def op_result_def)
  next
    case 2
    then obtain w2 where t: "trylock_test M mx w1 = Inl (0, mx\<lparr>mtx_depth := 1\<rparr>, w2)" "goes_on w1 ?m w2"
      using ts(2) by blast
    have "put_lock mx (MUTEX_LOCKED ?i) ?m = ?m" unfolding 2 [symmetric] by simp
    then show ?thesis using 2 True d k(1) t(1) goes_on_trans [OF k(2) t(2)]
      by (simp add: mutex_trylock_def trylock_abs_def op_result_def)
  next
    case 3
    then obtain r where t: "trylock_test M mx w1 = Inl r" "ends_with w1 ?m EBUSY mx r" using ts(3) by blast
    show ?thesis using 3 True d k(1) t(1) ends_after [OF k(2) t(2)]
      by (auto simp: mutex_trylock_def trylock_abs_def intro!: op_fails)
  next
    case 4
    then obtain r where t: "trylock_test M mx w1 = Inl r" "ends_with w1 (put_lock mx (?u OR 0xf) ?m) EINVAL mx r"
      using ts(4) by blast
    show ?thesis using 4 True d k(1) t(1) ends_after [OF k(2) t(2)]
      by (auto simp: mutex_trylock_def trylock_abs_def intro!: op_fails)
  qed
qed

theorem unlock_result:
  assumes rdy: "engine_ready w" and mx: "mtx_ok mx" and d: "mtx_depth mx \<le> 1"
  shows "op_result w mx 0 (unlock_abs (nfp_cpp_interface w) (mtx_key mx) (lock_key (mu (w_hw w)) mx)
    (lock_word (mu (w_hw w)) mx)) (mutex_unlock M mx w)"
proof -
  let ?m = "mu (w_hw w)" and ?u = "lock_word (mu (w_hw w)) mx" and ?i = "nfp_cpp_interface w"
  obtain w1 where v: "unlock_value M mx w = Inr (?u, w1)" "goes_on w ?m w1" using unlock_value_spec [OF rdy mx] by blast
  note w1 = goes_onD [OF v(2)]
  note ks = unlock_key_spec [OF w1(1) mx, of ?u, unfolded w1(2,3)]
  consider "lock_key ?m mx \<noteq> mtx_key mx" | "lock_key ?m mx = mtx_key mx" "?u \<noteq> MUTEX_LOCKED ?i"
    | "lock_key ?m mx = mtx_key mx" "?u = MUTEX_LOCKED ?i" by blast
  then show ?thesis
  proof cases
    case 1
    then obtain r where k: "unlock_key M mx ?u w1 = Inl r" "ends_with w1 ?m EPERM mx r" using ks(1) by blast
    show ?thesis using 1 d v(1) k(1) ends_after [OF v(2) k(2)]
      by (auto simp: mutex_unlock_def unlock_abs_def intro!: op_fails)
  next
    case 2
    then obtain r where k: "unlock_key M mx ?u w1 = Inl r" "ends_with w1 ?m EACCES mx r" using ks(2) by blast
    show ?thesis using 2 d v(1) k(1) ends_after [OF v(2) k(2)]
      by (auto simp: mutex_unlock_def unlock_abs_def intro!: op_fails)
  next
    case 3
    obtain w2 where k: "unlock_key M mx ?u w1 = Inr w2" "goes_on w1 ?m w2" using ks(3) [OF 3] by blast
    obtain w3 where c: "unlock_write M mx w2 = (0, mx\<lparr>mtx_depth := 0\<rparr>, w3)" "goes_on w2 (put_lock mx 0 ?m) w3"
      using unlock_write_spec [OF goes_onD(1) [OF k(2)] mx, unfolded goes_onD(2) [OF k(2)]] by blast
    show ?thesis using 3 d [folded not_less] v(1) k(1) c(1) goes_on_trans [OF goes_on_trans [OF v(2) k(2)] c(2)]
      by (simp add: mutex_unlock_def unlock_abs_def op_result_def)
  qed
qed

end

section \<open>Waiting for a lock\<close>

text \<open>The lock is held by somebody else until the last change of the memory, which frees it.\<close>

fun lock_waits :: "nfp_cpp_mutex \<Rightarrow> u16 \<Rightarrow> (mem \<Rightarrow> mem) list \<Rightarrow> mem \<Rightarrow> bool" where
  "lock_waits mx i [] m \<longleftrightarrow> lock_key m mx = mtx_key mx \<and> MUTEX_IS_UNLOCKED (lock_word m mx)"
| "lock_waits mx i (f # fs) m \<longleftrightarrow>
     lock_key m mx = mtx_key mx \<and> MUTEX_IS_LOCKED (lock_word m mx) \<and> lock_word m mx \<noteq> MUTEX_LOCKED i
     \<and> lock_waits mx i fs (f m)"

context mu_engine
begin

lemma trylock_handle:
  assumes "mtx_heap s p = Some mx" "mutex_trylock M mx (drv_world s) = (r, mx', w')"
  shows "nfp_cpp_mutex_trylock M p s = (r, (mtx_set p mx' s)\<lparr>drv_world := w'\<rparr>)"
  using assms by (simp add: nfp_cpp_mutex_trylock_def on_mutex_def)

lemma lock_eventually:
  assumes "mtx_heap s p = Some mx" "mtx_ok mx" "mtx_depth mx = 0" "engine_ready (drv_world s)"
    and "lock_waits mx (nfp_cpp_interface (drv_world s)) fs (mu (w_hw (drv_world s)))"
    and "list_all2 (\<lambda>e f. \<forall>h. mu (e h) = f (mu h)) envs fs"
  shows "\<exists>s'. nfp_cpp_mutex_lock M envs p s = Some (0, s') \<and> mtx_heap s' p = Some (mx\<lparr>mtx_depth := 1\<rparr>)
    \<and> lock_word (mu (w_hw (drv_world s'))) mx = MUTEX_LOCKED (nfp_cpp_interface (drv_world s))
    \<and> engine_same (drv_world s) (drv_world s')"
  using assms
proof (induction envs arbitrary: fs s)
  case Nil
  let ?w = "drv_world s"
  have "fs = []" using Nil.prems(6) by simp
  then have "trylock_abs (nfp_cpp_interface ?w) (mtx_key mx) (lock_key (mu (w_hw ?w)) mx) (lock_word (mu (w_hw ?w)) mx)
      = (None, MUTEX_LOCKED (nfp_cpp_interface ?w))" using Nil.prems(5) by (simp add: trylock_abs_def)
  then obtain w' where r: "mutex_trylock M mx ?w = (0, mx\<lparr>mtx_depth := 1\<rparr>, w')"
    and g: "goes_on ?w (put_lock mx (MUTEX_LOCKED (nfp_cpp_interface ?w)) (mu (w_hw ?w))) w'"
    using trylock_result [OF Nil.prems(4,2,3)] by (auto simp: op_result_def)
  show ?case using trylock_handle [OF Nil.prems(1) r] g
    by (simp add: nfp_cpp_mutex_lock.simps [of M "[]"] mtx_set_def goes_on_def)
next
  case (Cons e envs)
  let ?w = "drv_world s"
  obtain f fs' where fs: "fs = f # fs'" and e: "\<And>h. mu (e h) = f (mu h)"
    and rest: "list_all2 (\<lambda>e f. \<forall>h. mu (e h) = f (mu h)) envs fs'"
    using Cons.prems(6) by (auto simp: list_all2_Cons1)
  let ?m = "mu (w_hw ?w)"
  have "trylock_abs (nfp_cpp_interface ?w) (mtx_key mx) (lock_key ?m mx) (lock_word ?m mx) = (Some EBUSY, lock_word ?m mx)"
    using Cons.prems(5) by (simp add: fs trylock_abs_def)
  then obtain w' where r: "mutex_trylock M mx ?w = (-1, mx, w')" "w_errno w' = errno_code EBUSY" and g: "goes_on ?w ?m w'"
    using trylock_result [OF Cons.prems(4,2,3)] by (auto simp: op_result_def)
  define s2 where "s2 = (mtx_set p mx s)\<lparr>drv_world := w'\<lparr>w_hw := e (w_hw w')\<rparr>\<rparr>"
  have rdy: "engine_ready (drv_world s2)" "nfp_cpp_interface (drv_world s2) = nfp_cpp_interface ?w"
    "mu (w_hw (drv_world s2)) = f ?m" "mtx_heap s2 p = Some mx"
    using goes_onD [OF g] e by (simp_all add: s2_def engine_ready_def bus_ready_def nfp_cpp_interface_def mtx_set_def)
  have w: "lock_waits mx (nfp_cpp_interface (drv_world s2)) fs' (mu (w_hw (drv_world s2)))"
    using Cons.prems(5) rdy(2,3) by (simp add: fs)
  have "nfp_cpp_mutex_lock M (e # envs) p s = nfp_cpp_mutex_lock M envs p s2"
    using trylock_handle [OF Cons.prems(1) r(1)] r(2)
    by (simp add: nfp_cpp_mutex_lock.simps [of M "e # envs"] s2_def mtx_set_def)
  moreover have "engine_same ?w w'" using g by (simp add: goes_on_def)
  then have "engine_same ?w w2" if "engine_same (drv_world s2) w2" for w2
    using that by (auto simp: engine_same_def s2_def)
  ultimately show ?case using Cons.IH [OF rdy(4) Cons.prems(2,3) rdy(1) w rest] rdy(2) by auto
qed

text \<open>A handle that holds the lock only counts, up to \<open>MUTEX_DEPTH_MAX\<close>.\<close>

lemma trylock_nested:
  assumes "0 < mtx_depth mx"
  shows "mutex_trylock M mx w = (if mtx_depth mx = 0xffff then (-1, mx, w\<lparr>w_errno := errno_code E2BIG\<rparr>)
    else (0, mx\<lparr>mtx_depth := mtx_depth mx + 1\<rparr>, w))"
  using assms by (simp add: mutex_trylock_def mtx_error_def NFP_ERRNO_def MUTEX_DEPTH_MAX_def)

text \<open>A damaged lock word is reported, and the attempt sets its lowest four bits: where no other bit of
  the mark was set the lock looks taken from then on, by the interface in its upper half; where one
  was, every later attempt reports the damage again.\<close>

lemma damaged_lock:
  assumes rdy: "engine_ready w" and mx: "mtx_ok mx" and d: "mtx_depth mx = 0"
    and key: "lock_key (mu (w_hw w)) mx = mtx_key mx"
    and nl: "\<not> MUTEX_IS_LOCKED (lock_word (mu (w_hw w)) mx)" "\<not> MUTEX_IS_UNLOCKED (lock_word (mu (w_hw w)) mx)"
  obtains w1 w2 where "mutex_trylock M mx w = (-1, mx, w1)" "w_errno w1 = errno_code EINVAL"
    "mu (w_hw w1) = put_lock mx (lock_word (mu (w_hw w)) mx OR 0xf) (mu (w_hw w))"
    "if lock_word (mu (w_hw w)) mx AND 0xfff0 \<noteq> 0
     then mutex_trylock M mx w1 = (-1, mx, w2) \<and> w_errno w2 = errno_code EINVAL
     else if ucast (MUTEX_INTERFACE (lock_word (mu (w_hw w)) mx)) = nfp_cpp_interface w
     then mutex_trylock M mx w1 = (0, mx\<lparr>mtx_depth := 1\<rparr>, w2)
     else mutex_trylock M mx w1 = (-1, mx, w2) \<and> w_errno w2 = errno_code EBUSY"
    "mu (w_hw w2) = mu (w_hw w1)"
proof -
  let ?m = "mu (w_hw w)" let ?u = "lock_word ?m mx" and ?i = "nfp_cpp_interface w"
  note lm = low_marks [OF nl]
  have "?u \<noteq> MUTEX_LOCKED ?i" using nl(1) locked_marks(1) by metis
  then have "trylock_abs ?i (mtx_key mx) (lock_key ?m mx) ?u = (Some EINVAL, ?u OR 0xf)"
    using key nl by (simp add: trylock_abs_def)
  then obtain w1 where r: "mutex_trylock M mx w = (-1, mx, w1)" "w_errno w1 = errno_code EINVAL"
    and g: "goes_on w (put_lock mx (?u OR 0xf) ?m) w1"
    using trylock_result [OF rdy mx d] by (auto simp: op_result_def)
  note g1 = goes_onD [OF g]
  have w1: "lock_key (mu (w_hw w1)) mx = mtx_key mx" "lock_word (mu (w_hw w1)) mx = ?u OR 0xf" using g1(2) key by simp_all
  define out where "out = trylock_abs ?i (mtx_key mx) (lock_key (mu (w_hw w1)) mx) (lock_word (mu (w_hw w1)) mx)"
  have own: "?u OR 0xf = MUTEX_LOCKED ?i \<longleftrightarrow> ?u AND 0xfff0 = 0 \<and> ucast (MUTEX_INTERFACE ?u) = ?i"
    using locked_owner [of "?u OR 0xf"] lm(1,3) locked_marks(1,4) by metis
  have o: "out = (if ?u AND 0xfff0 \<noteq> 0 then (Some EINVAL, ?u OR 0xf)
      else if ucast (MUTEX_INTERFACE ?u) = ?i then (None, ?u OR 0xf) else (Some EBUSY, ?u OR 0xf))"
    unfolding out_def w1 trylock_abs_def using lm own by auto
  obtain w2 where r2: "mutex_trylock M mx w1 = (case fst out of None \<Rightarrow> (0, mx\<lparr>mtx_depth := 1\<rparr>, w2) | Some e \<Rightarrow> (-1, mx, w2))"
    "\<forall>e. fst out = Some e \<longrightarrow> w_errno w2 = errno_code e" "goes_on w1 (put_lock mx (snd out) (mu (w_hw w1))) w2"
    using trylock_result [OF g1(1) mx d] unfolding op_result_def g1(3) out_def by auto
  have "snd out = lock_word (mu (w_hw w1)) mx" unfolding o w1(2) by simp
  then have "mu (w_hw w2) = mu (w_hw w1)" using goes_onD(2) [OF r2(3)] by simp
  with r g1(2) r2 show thesis by (intro that [of w1 w2]) (auto simp: o)
qed

end

end
