(* ===== verification/Mutex_Exclusion.thy ===== *)
theory Mutex_Exclusion
  imports Mutex_Lock
begin

text \<open>
  Several masters contend for one lock. Each has its own handle and driver state and runs the
  operations of nfp_mutex.c, interleaved at single bus accesses on the shared hardware. At most
  one of them holds the lock, provided their interface numbers are distinct and not zero.
\<close>

section \<open>Masters and their steps\<close>

text \<open>Where a master is: between operations, or before the next access of one.\<close>

datatype lock_pc = Rest | TryTest | TryClaim | UnlKey u32 | UnlWrite

record 'h master =
  ms_world :: "'h world"
  ms_mtx :: nfp_cpp_mutex
  ms_pc :: lock_pc

definition ms_end :: "'h mtx_result \<Rightarrow> 'h master" where
  "ms_end r = (case r of (e, mx, w) \<Rightarrow> \<lparr>ms_world = w, ms_mtx = mx, ms_pc = Rest\<rparr>)"

definition ms_next :: "nfp_cpp_mutex \<Rightarrow> lock_pc \<Rightarrow> 'h mtx_result + 'h world \<Rightarrow> 'h master" where
  "ms_next mx pc r = (case r of Inl r \<Rightarrow> ms_end r | Inr w \<Rightarrow> \<lparr>ms_world = w, ms_mtx = mx, ms_pc = pc\<rparr>)"

text \<open>One step: it begins an operation (a lock attempt or an unlock) or continues one. The
  composition is that of \<open>mutex_trylock\<close> and \<open>mutex_unlock\<close>.\<close>

definition ms_step :: "'h mmio \<Rightarrow> bool \<Rightarrow> 'h master \<Rightarrow> 'h master" where
  "ms_step M lock g =
     (let w = ms_world g; mx = ms_mtx g
      in case ms_pc g of
           Rest \<Rightarrow>
             if lock
             then if mtx_depth mx > 0 then ms_end (mutex_trylock M mx w)
                  else ms_next mx TryTest (trylock_key M mx w)
             else if mtx_depth mx > 1 then ms_end (mutex_unlock M mx w)
                  else (case unlock_value M mx w of
                          Inl r \<Rightarrow> ms_end r
                        | Inr (v, w) \<Rightarrow> \<lparr>ms_world = w, ms_mtx = mx, ms_pc = UnlKey v\<rparr>)
         | TryTest \<Rightarrow> ms_next mx TryClaim (trylock_test M mx w)
         | TryClaim \<Rightarrow> ms_end (trylock_claim M mx w)
         | UnlKey v \<Rightarrow> ms_next mx UnlWrite (unlock_key M mx v w)
         | UnlWrite \<Rightarrow> ms_end (unlock_write M mx w))"

text \<open>A master that is not disturbed completes the operation of the code.\<close>

lemma ms_run_trylock:
  assumes "ms_pc g = Rest"
  shows "\<exists>k. (ms_step M True ^^ Suc k) g = ms_end (mutex_trylock M (ms_mtx g) (ms_world g))"
proof -
  have one: "\<exists>k. (ms_step M True ^^ Suc k) g = x" if "ms_step M True g = x" for x using that by (intro exI [of _ 0]) simp
  have two: "\<exists>k. (ms_step M True ^^ Suc k) g = x" if "ms_step M True (ms_step M True g) = x" for x
    using that by (intro exI [of _ 1]) simp
  have three: "\<exists>k. (ms_step M True ^^ Suc k) g = x" if "ms_step M True (ms_step M True (ms_step M True g)) = x" for x
    using that by (intro exI [of _ 2]) (simp add: numeral_2_eq_2)
  show ?thesis
  proof (cases "mtx_depth (ms_mtx g) > 0")
    case True
    then show ?thesis using assms by (intro one) (simp add: ms_step_def)
  next
    case False
    show ?thesis
    proof (cases "trylock_key M (ms_mtx g) (ms_world g)")
      case (Inl r)
      then show ?thesis using assms False by (intro one) (simp add: ms_step_def ms_next_def mutex_trylock_def)
    next
      case (Inr w)
      show ?thesis
      proof (cases "trylock_test M (ms_mtx g) w")
        case (Inl r)
        then show ?thesis using assms False Inr
          by (intro two) (simp add: ms_step_def ms_next_def mutex_trylock_def)
      next
        case (Inr w2)
        then show ?thesis using assms False \<open>trylock_key M _ _ = Inr w\<close>
          by (intro three) (simp add: ms_step_def ms_next_def mutex_trylock_def)
      qed
    qed
  qed
qed

text \<open>The system: shared hardware and the masters, by their interface numbers. The masters in \<open>S\<close>
  take steps in any order.\<close>

type_synonym 'h mtx_system = "'h \<times> (u16 \<Rightarrow> 'h master)"

definition ms_at :: "'h \<Rightarrow> 'h master \<Rightarrow> 'h master" where
  "ms_at h g = g\<lparr>ms_world := (ms_world g)\<lparr>w_hw := h\<rparr>\<rparr>"

inductive mtx_reach :: "'h mmio \<Rightarrow> u16 set \<Rightarrow> 'h mtx_system \<Rightarrow> 'h mtx_system \<Rightarrow> bool" for M S s0 where
  start: "mtx_reach M S s0 s0"
| step: "mtx_reach M S s0 (h, A) \<Longrightarrow> i \<in> S \<Longrightarrow> g = ms_step M lock (ms_at h (A i))
    \<Longrightarrow> mtx_reach M S s0 (w_hw (ms_world g), A(i := g))"

section \<open>The invariant\<close>

definition holds_lock :: "'h master \<Rightarrow> bool" where
  "holds_lock g \<longleftrightarrow> mtx_depth (ms_mtx g) > 0"

definition claims_lock :: "'h master \<Rightarrow> bool" where
  "claims_lock g \<longleftrightarrow> ms_pc g = TryClaim"

definition ms_ifc :: "'h master \<Rightarrow> u16" where
  "ms_ifc g = nfp_cpp_interface (ms_world g)"

text \<open>The local variables of a master agree with what it holds.\<close>

definition pc_ok :: "'h master \<Rightarrow> bool" where
  "pc_ok g \<longleftrightarrow>
     (case ms_pc g of
        Rest \<Rightarrow> True
      | TryTest \<Rightarrow> \<not> holds_lock g
      | TryClaim \<Rightarrow> \<not> holds_lock g
      | UnlKey v \<Rightarrow> mtx_depth (ms_mtx g) \<le> 1 \<and> (v = MUTEX_LOCKED (ms_ifc g) \<longrightarrow> holds_lock g)
      | UnlWrite \<Rightarrow> mtx_depth (ms_mtx g) \<le> 1 \<and> holds_lock g)"

text \<open>The lock word tells who owns the lock: nobody, a master that has just taken it, or a master
  that has written its interface.\<close>

definition owned_by :: "u32 \<Rightarrow> (u16 \<Rightarrow> 'h master) \<Rightarrow> u16 option \<Rightarrow> bool" where
  "owned_by u A ow \<longleftrightarrow>
     (\<forall>j. ow \<noteq> Some j \<longrightarrow> \<not> holds_lock (A j) \<and> \<not> claims_lock (A j))
     \<and> (case ow of
          None \<Rightarrow> u = 0
        | Some i \<Rightarrow> u = 0xf \<and> claims_lock (A i) \<and> \<not> holds_lock (A i)
                    \<or> u = MUTEX_LOCKED (ms_ifc (A i)) \<and> holds_lock (A i) \<and> \<not> claims_lock (A i))"

lemma word_marks:
  "\<not> MUTEX_IS_UNLOCKED 0xf" "MUTEX_IS_LOCKED 0xf" "MUTEX_IS_UNLOCKED 0"
  by (simp_all add: MUTEX_IS_UNLOCKED_def MUTEX_IS_LOCKED_def)

lemma owned_unlocked: "owned_by u A ow \<Longrightarrow> MUTEX_IS_UNLOCKED u \<Longrightarrow> ow = None \<and> u = 0"
  using word_marks by (auto simp: owned_by_def split: option.splits)

lemma owned_marks: "owned_by u A ow \<Longrightarrow> MUTEX_IS_UNLOCKED u \<or> MUTEX_IS_LOCKED u"
  using word_marks by (auto simp: owned_by_def split: option.splits)

lemma owned_mem: "owned_by u A ow \<Longrightarrow> holds_lock (A i) \<or> claims_lock (A i) \<Longrightarrow> ow = Some i"
  by (auto simp: owned_by_def)

lemma word_owner:
  assumes ow: "owned_by u A ow" and u: "u = MUTEX_LOCKED (ms_ifc (A i))"
    and ifc: "ms_ifc (A i) \<noteq> 0" "\<And>j. ms_ifc (A j) = ms_ifc (A i) \<Longrightarrow> j = i"
  shows "holds_lock (A i)"
proof -
  have "u \<noteq> 0xf" using u ifc(1) taken_word(2) [of "ms_ifc (A i)"] by simp
  moreover have "u \<noteq> 0" using u locked_marks(2) [of "ms_ifc (A i)"] word_marks(3) by metis
  ultimately obtain j where "u = MUTEX_LOCKED (ms_ifc (A j))" "holds_lock (A j)"
    using ow by (auto simp: owned_by_def split: option.splits)
  moreover from this have "ms_ifc (A j) = ms_ifc (A i)" unfolding u locked_inject by simp
  ultimately show ?thesis using ifc(2) by auto
qed

text \<open>How a step may change the lock word and what the master holds.\<close>

definition step_effect :: "u16 \<Rightarrow> u32 \<Rightarrow> 'h master \<Rightarrow> u32 \<Rightarrow> 'h master \<Rightarrow> bool" where
  "step_effect i u g u' g' \<longleftrightarrow>
     u' = u \<and> holds_lock g' = holds_lock g \<and> \<not> claims_lock g \<and> \<not> claims_lock g'
     \<or> MUTEX_IS_UNLOCKED u \<and> u' = u OR 0xf \<and> \<not> holds_lock g' \<and> claims_lock g'
     \<or> \<not> MUTEX_IS_UNLOCKED u \<and> \<not> MUTEX_IS_LOCKED u
     \<or> claims_lock g \<and> u' = MUTEX_LOCKED i \<and> holds_lock g' \<and> \<not> claims_lock g'
     \<or> holds_lock g \<and> u' = 0 \<and> \<not> holds_lock g' \<and> \<not> claims_lock g'"

lemma word_step:
  assumes ok: "owned_by u A ow" and eff: "step_effect i u (A k) u' g" and i: "ms_ifc (A k) = i" "ms_ifc g = i"
  shows "\<exists>ow. owned_by u' (A(k := g)) ow"
  using eff unfolding step_effect_def
proof (elim disjE conjE)
  assume "u' = u" "holds_lock g = holds_lock (A k)" "\<not> claims_lock (A k)" "\<not> claims_lock g"
  then have "owned_by u' (A(k := g)) ow" using ok i by (auto simp: owned_by_def split: option.splits)
  then show ?thesis ..
next
  assume e: "MUTEX_IS_UNLOCKED u" "u' = u OR 0xf" "\<not> holds_lock g" "claims_lock g"
  have "owned_by u' (A(k := g)) (Some k)" using owned_unlocked [OF ok e(1)] ok e by (auto simp: owned_by_def)
  then show ?thesis ..
next
  assume "\<not> MUTEX_IS_UNLOCKED u" "\<not> MUTEX_IS_LOCKED u"
  then show ?thesis using owned_marks [OF ok] by simp
next
  assume e: "claims_lock (A k)" "u' = MUTEX_LOCKED i" "holds_lock g" "\<not> claims_lock g"
  have "owned_by u' (A(k := g)) (Some k)" using owned_mem [OF ok disjI2 [OF e(1)]] ok e i by (auto simp: owned_by_def)
  then show ?thesis ..
next
  assume e: "holds_lock (A k)" "u' = 0" "\<not> holds_lock g" "\<not> claims_lock g"
  have "owned_by u' (A(k := g)) None" using owned_mem [OF ok disjI1 [OF e(1)]] ok e by (auto simp: owned_by_def)
  then show ?thesis ..
qed

section \<open>Steps keep the invariant\<close>

lemma depth_up: "d \<noteq> MUTEX_DEPTH_MAX \<Longrightarrow> 0 < d + 1"
proof -
  assume d: "d \<noteq> MUTEX_DEPTH_MAX"
  have "d + 1 \<noteq> 0"
  proof
    assume "d + 1 = 0"
    then have "d + 1 = MUTEX_DEPTH_MAX + 1" by (simp add: MUTEX_DEPTH_MAX_def)
    then show False using d by (simp only: add_right_cancel)
  qed
  then show ?thesis by (simp only: word_neq_0_conv)
qed

lemma depth_down: "1 < d \<Longrightarrow> 0 < (d - 1 :: u16)"
proof -
  assume "1 < d"
  then have "d - 1 \<noteq> 0" by auto
  then show ?thesis by (simp only: word_neq_0_conv)
qed

context mu_engine
begin

definition master_ok :: "u64 \<Rightarrow> u32 \<Rightarrow> u16 \<Rightarrow> 'h master \<Rightarrow> bool" where
  "master_ok a k i g \<longleftrightarrow>
     mtx_ok (ms_mtx g) \<and> mtx_address (ms_mtx g) = a \<and> mtx_key (ms_mtx g) = k
     \<and> engine_ready (ms_world g) \<and> ms_ifc g = i \<and> pc_ok g"

definition ms_mem :: "'h master \<Rightarrow> mem" where
  "ms_mem g = mu (w_hw (ms_world g))"

text \<open>What a step does when the key is in place, and the master owns the lock if the lock word says so.\<close>

definition good_step :: "u64 \<Rightarrow> u32 \<Rightarrow> u16 \<Rightarrow> 'h master \<Rightarrow> 'h master \<Rightarrow> bool" where
  "good_step a k i g g' \<longleftrightarrow>
     master_ok a k i g' \<and> mem_word (ms_mem g') (a + 4) = k
     \<and> step_effect i (mem_word (ms_mem g) a) g (mem_word (ms_mem g') a) g'"

lemmas good_defs = good_step_def master_ok_def pc_ok_def holds_lock_def claims_lock_def ms_ifc_def ms_mem_def
  ms_end_def ms_next_def

lemma mtx_word: "mtx_address mx = a \<Longrightarrow> mem_word (put_lock mx v m) a = v"
  "mtx_address mx = a \<Longrightarrow> mem_word (put_lock mx v m) (a + 4) = mem_word m (a + 4)"
  "mtx_address mx = a \<Longrightarrow> lock_word m mx = mem_word m a" "mtx_address mx = a \<Longrightarrow> lock_key m mx = mem_word m (a + 4)"
  by (auto simp: put_lock_def lock_word_def lock_key_def mem_word_next)

text \<open>A step that leaves lock word, depth and claim alone.\<close>

lemma quiet_step:
  assumes g: "master_ok a k i g" "mem_word (ms_mem g) (a + 4) = k" "\<not> claims_lock g"
    and w': "goes_on (ms_world g) (ms_mem g) w'"
    and pc: "pc_ok \<lparr>ms_world = w', ms_mtx = ms_mtx g, ms_pc = pc\<rparr>" "pc \<noteq> TryClaim"
  shows "good_step a k i g \<lparr>ms_world = w', ms_mtx = ms_mtx g, ms_pc = pc\<rparr>"
  using g goes_onD [OF w'] pc by (simp add: good_step_def master_ok_def ms_mem_def ms_ifc_def holds_lock_def
      claims_lock_def step_effect_def)

lemma failed_step:
  assumes g: "master_ok a k i g" "mem_word (ms_mem g) (a + 4) = k" "\<not> claims_lock g"
    and r: "ends_with (ms_world g) (ms_mem g) e (ms_mtx g) r"
  shows "good_step a k i g (ms_end r)"
proof -
  obtain w' where r': "r = (-1, ms_mtx g, w')" "goes_on (ms_world g) (ms_mem g) w'"
    using r by (auto simp: ends_with_def goes_on_def)
  show ?thesis using quiet_step [OF g r'(2), of Rest] r'(1) by (simp add: ms_end_def pc_ok_def)
qed

lemma step_rest:
  assumes g: "master_ok a k i g" "mem_word (ms_mem g) (a + 4) = k"
    and owner: "mem_word (ms_mem g) a = MUTEX_LOCKED i \<Longrightarrow> holds_lock g" and pc: "ms_pc g = Rest"
  shows "good_step a k i g (ms_step M lock g)"
proof -
  let ?w = "ms_world g" and ?mx = "ms_mtx g"
  have rdy: "engine_ready ?w" "mtx_ok ?mx" and ad: "mtx_address ?mx = a" "mtx_key ?mx = k"
    using g(1) by (simp_all add: master_ok_def)
  have key: "lock_key (mu (w_hw ?w)) ?mx = mtx_key ?mx" using g(2) ad by (simp add: ms_mem_def mtx_word)
  have nc: "\<not> claims_lock g" using pc by (simp add: claims_lock_def)
  have same: "goes_on ?w (ms_mem g) ?w" using rdy by (simp add: goes_on_def engine_same_def ms_mem_def)
  have nested: "good_step a k i g \<lparr>ms_world = ?w, ms_mtx = ?mx\<lparr>mtx_depth := d\<rparr>, ms_pc = Rest\<rparr>"
    if "0 < mtx_depth ?mx" "0 < d" for d
    using that g pc by (simp add: good_defs step_effect_def)
  show ?thesis
  proof (cases lock)
    case True
    show ?thesis
    proof (cases "mtx_depth ?mx > 0")
      case True
      show ?thesis
      proof (cases "mtx_depth ?mx = MUTEX_DEPTH_MAX")
        case True
        have "ends_with ?w (ms_mem g) E2BIG ?mx (mutex_trylock M ?mx ?w)"
          using True \<open>mtx_depth ?mx > 0\<close> rdy engine_same_errno [of ?w ?w]
          by (simp add: mutex_trylock_def mtx_error_def NFP_ERRNO_def ends_with_def engine_same_def ms_mem_def)
        then show ?thesis using failed_step [OF g nc] pc \<open>lock\<close> \<open>mtx_depth ?mx > 0\<close> by (simp add: ms_step_def)
      next
        case False
        then show ?thesis using nested [OF True depth_up [OF False]] pc \<open>lock\<close> True
          by (simp add: ms_step_def mutex_trylock_def ms_end_def Let_def)
      qed
    next
      case False
      obtain w' where "trylock_key M ?mx ?w = Inr w'" "goes_on ?w (ms_mem g) w'"
        using trylock_key_spec(2) [OF rdy key] by (auto simp: ms_mem_def)
      then show ?thesis using quiet_step [OF g nc, of w' TryTest] False pc \<open>lock\<close>
        by (simp add: ms_step_def ms_next_def pc_ok_def holds_lock_def)
    qed
  next
    case False
    show ?thesis
    proof (cases "mtx_depth ?mx > 1")
      case True
      then have "mtx_depth ?mx \<noteq> 0" by auto
      then have "0 < mtx_depth ?mx" by (simp only: word_neq_0_conv)
      then show ?thesis using nested [OF _ depth_down [OF True]] pc \<open>\<not> lock\<close> True
        by (simp add: ms_step_def mutex_unlock_def ms_end_def Let_def)
    next
      case d: False
      obtain w' where v: "unlock_value M ?mx ?w = Inr (mem_word (ms_mem g) a, w')" "goes_on ?w (ms_mem g) w'"
        using unlock_value_spec [OF rdy] ad by (auto simp: ms_mem_def mtx_word)
      have "pc_ok \<lparr>ms_world = w', ms_mtx = ?mx, ms_pc = UnlKey (mem_word (ms_mem g) a)\<rparr>"
        using d owner goes_onD(3) [OF v(2)] g(1) by (auto simp: pc_ok_def holds_lock_def ms_ifc_def master_ok_def)
      then show ?thesis using quiet_step [OF g nc v(2)] v(1) d pc \<open>\<not> lock\<close> by (simp add: ms_step_def)
    qed
  qed
qed

lemma step_busy:
  assumes g: "master_ok a k i g" "mem_word (ms_mem g) (a + 4) = k"
    and owner: "mem_word (ms_mem g) a = MUTEX_LOCKED i \<Longrightarrow> holds_lock g" and pc: "ms_pc g \<noteq> Rest"
  shows "good_step a k i g (ms_step M lock g)"
proof -
  let ?w = "ms_world g" and ?mx = "ms_mtx g" and ?u = "mem_word (ms_mem g) a"
  have rdy: "engine_ready ?w" "mtx_ok ?mx" and ad: "mtx_address ?mx = a" "mtx_key ?mx = k"
    and ifc: "nfp_cpp_interface ?w = i" and pok: "pc_ok g"
    using g(1) by (simp_all add: master_ok_def ms_ifc_def)
  have mem: "mu (w_hw ?w) = ms_mem g" by (simp add: ms_mem_def)
  have key: "lock_key (mu (w_hw ?w)) ?mx = mtx_key ?mx" using g(2) ad by (simp add: ms_mem_def mtx_word)
  have word: "lock_word (ms_mem g) ?mx = ?u" using ad by (simp add: mtx_word)
  show ?thesis
  proof (cases "ms_pc g")
    case TryTest
    have nh: "\<not> holds_lock g" "\<not> claims_lock g" using pok TryTest by (simp_all add: pc_ok_def claims_lock_def)
    note ts = trylock_test_spec [OF rdy, unfolded mem, unfolded word ifc]
    consider "MUTEX_IS_UNLOCKED ?u" | "MUTEX_IS_LOCKED ?u" | "\<not> MUTEX_IS_LOCKED ?u" "\<not> MUTEX_IS_UNLOCKED ?u" by blast
    then show ?thesis
    proof cases
      case 1
      obtain w' where t: "trylock_test M ?mx ?w = Inr w'" "goes_on ?w (put_lock ?mx (?u OR 0xf) (ms_mem g)) w'"
        using ts(1) [OF 1] by blast
      show ?thesis using t(1) TryTest 1 nh g goes_onD [OF t(2)] ad
        by (simp add: ms_step_def good_defs step_effect_def mtx_word)
    next
      case 2
      then obtain r where t: "trylock_test M ?mx ?w = Inl r" "ends_with ?w (ms_mem g) EBUSY ?mx r"
        using ts(3) owner nh(1) by blast
      then show ?thesis using failed_step [OF g nh(2) t(2)] TryTest by (simp add: ms_step_def ms_next_def)
    next
      case 3
      then obtain r where t: "trylock_test M ?mx ?w = Inl r" "ends_with ?w (put_lock ?mx (?u OR 0xf) (ms_mem g)) EINVAL ?mx r"
        using ts(4) by blast
      then obtain w' where r: "r = (-1, ?mx, w')" "goes_on ?w (put_lock ?mx (?u OR 0xf) (ms_mem g)) w'"
        by (auto simp: ends_with_def goes_on_def)
      show ?thesis using t(1) r(1) TryTest 3 g goes_onD [OF r(2)] ad
        by (simp add: ms_step_def good_defs step_effect_def mtx_word)
    qed
  next
    case TryClaim
    obtain w' where c: "trylock_claim M ?mx ?w = (0, ?mx\<lparr>mtx_depth := 1\<rparr>, w')"
      "goes_on ?w (put_lock ?mx (MUTEX_LOCKED i) (ms_mem g)) w'"
      using trylock_claim_spec [OF rdy, unfolded ifc mem] by blast
    show ?thesis using c(1) TryClaim g goes_onD [OF c(2)] ad
      by (simp add: ms_step_def good_defs step_effect_def mtx_word)
  next
    case (UnlKey v)
    have nc: "\<not> claims_lock g" using UnlKey by (simp add: claims_lock_def)
    show ?thesis
    proof (cases "v = MUTEX_LOCKED i")
      case True
      obtain w' where u: "unlock_key M ?mx v ?w = Inr w'" "goes_on ?w (ms_mem g) w'"
        using unlock_key_spec(3) [OF rdy key, of v, unfolded ifc mem] True by blast
      have "pc_ok \<lparr>ms_world = w', ms_mtx = ?mx, ms_pc = UnlWrite\<rparr>"
        using pok UnlKey True ifc by (simp add: pc_ok_def holds_lock_def ms_ifc_def)
      then show ?thesis using quiet_step [OF g nc u(2)] u(1) UnlKey by (simp add: ms_step_def ms_next_def)
    next
      case False
      obtain r where "unlock_key M ?mx v ?w = Inl r" "ends_with ?w (ms_mem g) EACCES ?mx r"
        using unlock_key_spec(2) [OF rdy key, of v, unfolded ifc mem] False by blast
      then show ?thesis using failed_step [OF g nc] UnlKey by (simp add: ms_step_def ms_next_def)
    qed
  next
    case UnlWrite
    obtain w' where c: "unlock_write M ?mx ?w = (0, ?mx\<lparr>mtx_depth := 0\<rparr>, w')"
      "goes_on ?w (put_lock ?mx 0 (ms_mem g)) w'"
      using unlock_write_spec [OF rdy, unfolded mem] by blast
    show ?thesis using c(1) UnlWrite g pok goes_onD [OF c(2)] ad
      by (simp add: ms_step_def good_defs step_effect_def mtx_word)
  qed (use pc in simp)
qed

text \<open>The invariant of the system, and mutual exclusion.\<close>

definition system_ok :: "u64 \<Rightarrow> u32 \<Rightarrow> 'h mtx_system \<Rightarrow> bool" where
  "system_ok a k s \<longleftrightarrow>
     (\<forall>j. master_ok a k j (snd s j)) \<and> mem_word (mu (fst s)) (a + 4) = k
     \<and> (\<exists>ow. owned_by (mem_word (mu (fst s)) a) (snd s) ow)"

lemma ms_at_simps [simp]:
  "ms_mtx (ms_at h g) = ms_mtx g" "ms_pc (ms_at h g) = ms_pc g" "ms_mem (ms_at h g) = mu h"
  "holds_lock (ms_at h g) = holds_lock g" "claims_lock (ms_at h g) = claims_lock g" "ms_ifc (ms_at h g) = ms_ifc g"
  "master_ok a k i (ms_at h g) = master_ok a k i g"
  by (simp_all add: ms_at_def ms_mem_def holds_lock_def claims_lock_def ms_ifc_def nfp_cpp_interface_def master_ok_def
      pc_ok_def engine_ready_def bus_ready_def split: lock_pc.splits)

lemma system_step:
  assumes s: "system_ok a k (h, A)" and i0: "i \<noteq> 0" and g: "g = ms_step M lock (ms_at h (A i))"
  shows "system_ok a k (w_hw (ms_world g), A(i := g))"
proof -
  have m: "\<And>j. master_ok a k j (A j)" and key: "mem_word (mu h) (a + 4) = k"
    using s by (simp_all add: system_ok_def)
  obtain ow where ow: "owned_by (mem_word (mu h) a) A ow" using s by (auto simp: system_ok_def)
  have i: "ms_ifc (A j) = j" for j using m by (simp add: master_ok_def)
  have own: "mem_word (mu h) a = MUTEX_LOCKED i \<Longrightarrow> holds_lock (A i)"
    by (rule word_owner [OF ow]) (use i i0 in simp_all)
  let ?g = "ms_at h (A i)"
  have "good_step a k i ?g g"
    using step_rest [of a k i ?g lock] step_busy [of a k i ?g lock] m key own unfolding g
    by (cases "ms_pc (A i) = Rest") simp_all
  then have st: "master_ok a k i g" "mem_word (ms_mem g) (a + 4) = k"
    "step_effect i (mem_word (mu h) a) (A i) (mem_word (ms_mem g) a) g"
    by (simp_all add: good_step_def step_effect_def)
  have "ms_ifc g = i" using st(1) by (simp add: master_ok_def)
  from word_step [OF ow st(3) i this] show ?thesis
    using m st(1,2) by (auto simp: system_ok_def ms_mem_def)
qed

lemma system_reach:
  assumes "mtx_reach M S s0 s" "system_ok a k s0" "0 \<notin> S"
  shows "system_ok a k s"
  using assms
proof (induction rule: mtx_reach.induct)
  case (step h A i g lock)
  have "system_ok a k (h, A)" by (rule step.IH [OF step.prems])
  moreover have "i \<noteq> 0" using step.hyps(2) step.prems(2) by auto
  ultimately show ?case
    by (rule system_step [where h = h and A = A and i = i and lock = lock]) (rule step.hyps(3))
qed

lemma one_holder:
  assumes "system_ok a k (h, A)" "holds_lock (A i)"
  shows "holds_lock (A j) \<Longrightarrow> i = j" "mem_word (mu h) a = MUTEX_LOCKED i"
proof -
  obtain ow where ow: "owned_by (mem_word (mu h) a) A ow" using assms(1) by (auto simp: system_ok_def)
  have oi: "ow = Some i" using owned_mem [OF ow] assms(2) by simp
  then show "holds_lock (A j) \<Longrightarrow> i = j" using owned_mem [OF ow, of j] by simp
  show "mem_word (mu h) a = MUTEX_LOCKED i"
    using ow oi assms by (auto simp: owned_by_def system_ok_def master_ok_def)
qed

end

text \<open>A master that is not in an operation and does not hold the lock.\<close>

definition idle_master :: "nat \<Rightarrow> u64 \<Rightarrow> u64 \<Rightarrow> u32 \<Rightarrow> u16 \<Rightarrow> 'h master \<Rightarrow> bool" where
  "idle_master n win a k i g \<longleftrightarrow>
     bus_ready n (ms_world g) \<and> cfg (w_pcie (ms_world g)) = win \<and> nfp_cpp_interface (ms_world g) = i
     \<and> mtx_target (ms_mtx g) = 7 \<and> mtx_address (ms_mtx g) = a \<and> mtx_key (ms_mtx g) = k
     \<and> mtx_depth (ms_mtx g) = 0 \<and> ms_pc g = Rest"

context mu_engine
begin

lemma idle_system:
  assumes "\<forall>j. idle_master n win a k j (A j)" "lock_place a" "mem_word (mu h) a = 0" "mem_word (mu h) (a + 4) = k"
  shows "system_ok a k (h, A)"
proof -
  have "owned_by 0 A None" using assms(1) by (simp add: owned_by_def idle_master_def holds_lock_def claims_lock_def)
  moreover have "master_ok a k j (A j)" for j
    using assms(1,2) by (simp add: master_ok_def idle_master_def mtx_ok_def engine_ready_def ms_ifc_def pc_ok_def)
  ultimately show ?thesis using assms(3,4) by (auto simp: system_ok_def)
qed

end

section \<open>A free lock can be taken\<close>

lemma ms_at_same: "w_hw (ms_world g) = h \<Longrightarrow> ms_at h g = g"
  by (simp add: ms_at_def)

lemma reach_run:
  assumes "mtx_reach M S s0 (h, A)" "i \<in> S"
  shows "mtx_reach M S s0 (w_hw (ms_world ((ms_step M lock ^^ Suc k) (ms_at h (A i)))),
    A(i := (ms_step M lock ^^ Suc k) (ms_at h (A i))))"
proof (induction k)
  case 0
  show ?case using mtx_reach.step [OF assms refl, of lock] by (simp add: fun_upd_def)
next
  case (Suc k)
  let ?g = "(ms_step M lock ^^ Suc k) (ms_at h (A i))"
  have "ms_step M lock (ms_at (w_hw (ms_world ?g)) ((A(i := ?g)) i)) = (ms_step M lock ^^ Suc (Suc k)) (ms_at h (A i))"
    by (simp only: fun_upd_same ms_at_same funpow.simps o_apply)
  then show ?case using mtx_reach.step [OF Suc assms(2) refl, of lock] by (simp only: fun_upd_upd)
qed

context mu_engine
begin

lemma idle_takes:
  assumes "\<forall>j. idle_master n win a k j (A j)" "lock_place a" "mem_word (mu h) a = 0" "mem_word (mu h) (a + 4) = k"
    and "i \<in> S"
  shows "\<exists>h' g. mtx_reach M S (h, A) (h', A(i := g)) \<and> holds_lock g"
proof -
  let ?g = "ms_at h (A i)"
  have i: "idle_master n win a k i (A i)" using assms(1) by simp
  have rdy: "engine_ready (ms_world ?g)" "mtx_ok (ms_mtx ?g)" "mtx_depth (ms_mtx ?g) = 0" "mu (w_hw (ms_world ?g)) = mu h"
    using i assms(2) by (simp_all add: idle_master_def ms_at_def engine_ready_def bus_ready_def mtx_ok_def)
  have k: "lock_key (mu h) (ms_mtx ?g) = mtx_key (ms_mtx ?g)" "lock_word (mu h) (ms_mtx ?g) = 0"
    using i assms(3,4) by (simp_all add: idle_master_def mtx_word)
  obtain w' where t: "mutex_trylock M (ms_mtx ?g) (ms_world ?g) = (0, (ms_mtx ?g)\<lparr>mtx_depth := 1\<rparr>, w')"
    using trylock_result [OF rdy(1-3), unfolded rdy(4) k] word_marks(3) by (auto simp: op_result_def trylock_abs_def)
  have "ms_pc ?g = Rest" using i by (simp add: idle_master_def)
  then obtain l where "(ms_step M True ^^ Suc l) ?g = ms_end (mutex_trylock M (ms_mtx ?g) (ms_world ?g))"
    using ms_run_trylock by blast
  with reach_run [OF mtx_reach.start assms(5), of M h A l True]
  have "mtx_reach M S (h, A) (w_hw (ms_world (ms_end (mutex_trylock M (ms_mtx ?g) (ms_world ?g)))),
      A(i := ms_end (mutex_trylock M (ms_mtx ?g) (ms_world ?g))))" by simp
  moreover have "holds_lock (ms_end (mutex_trylock M (ms_mtx ?g) (ms_world ?g)))"
    unfolding t by (simp add: ms_end_def holds_lock_def)
  ultimately show ?thesis by blast
qed

end

end
