(* ===== verification/Nfp_Crc.thy ===== *)
theory Nfp_Crc
  imports Nfp_Prelude
begin

text \<open>
  The POSIX checksum that names resource table entries (user/nfpcore/nfp_crc.c), and its
  equivalence with the textbook shift register that takes in one message bit at a time.
\<close>

section \<open>The code\<close>

definition CRCPOLY_BE :: u32 where "CRCPOLY_BE = 0x04c11db7"

definition crc_shift :: "u32 \<Rightarrow> u32 \<Rightarrow> u32" where
  "crc_shift polynomial crc =
     push_bit 1 crc XOR (if crc AND 0x80000000 \<noteq> 0 then polynomial else 0)"

fun nfp_crc32_be_generic :: "u32 \<Rightarrow> u8 list \<Rightarrow> u32 \<Rightarrow> u32" where
  "nfp_crc32_be_generic crc [] polynomial = crc"
| "nfp_crc32_be_generic crc (p # ps) polynomial =
     nfp_crc32_be_generic ((crc_shift polynomial ^^ 8) (crc XOR push_bit 24 (ucast p))) ps polynomial"

definition nfp_crc32_be :: "u32 \<Rightarrow> u8 list \<Rightarrow> u32" where
  "nfp_crc32_be crc p = nfp_crc32_be_generic crc p CRCPOLY_BE"

function crc_len_loop :: "u32 \<Rightarrow> nat \<Rightarrow> u32" where
  "crc_len_loop crc total_len =
     (if total_len \<noteq> 0
      then crc_len_loop (nfp_crc32_be crc [of_nat (total_len mod 256)]) (total_len div 256)
      else crc)"
  by pat_completeness auto
termination by (relation "measure snd") auto

declare crc_len_loop.simps [simp del]

definition nfp_crc32_posix_end :: "u32 \<Rightarrow> nat \<Rightarrow> u32" where
  "nfp_crc32_posix_end crc total_len = NOT (crc_len_loop crc total_len)"

definition nfp_crc32_posix :: "u8 list \<Rightarrow> u32" where
  "nfp_crc32_posix buff = nfp_crc32_posix_end (nfp_crc32_be 0 buff) (length buff)"

section \<open>The shift register\<close>

text \<open>The register shifts left; when the bit that leaves it differs from the next message bit, the
  polynomial is added. Bytes are taken in with their highest bit first.\<close>

definition crc_bit :: "u32 \<Rightarrow> bool \<Rightarrow> u32 \<Rightarrow> u32" where
  "crc_bit polynomial b crc = push_bit 1 crc XOR (if bit crc 31 \<noteq> b then polynomial else 0)"

definition byte_bits :: "u8 \<Rightarrow> bool list" where
  "byte_bits p = map (bit p) [7, 6, 5, 4, 3, 2, 1, 0]"

definition crc_register :: "u32 \<Rightarrow> u32 \<Rightarrow> u8 list \<Rightarrow> u32" where
  "crc_register polynomial crc ps = fold (crc_bit polynomial) (concat (map byte_bits ps)) crc"

text \<open>The length of a message as bytes, the lowest first, without leading zeros.\<close>

function len_bytes :: "nat \<Rightarrow> u8 list" where
  "len_bytes n = (if n = 0 then [] else of_nat (n mod 256) # len_bytes (n div 256))"
  by pat_completeness auto
termination by (relation "measure id") auto

declare len_bytes.simps [simp del]

lemma top_bit: "crc AND 0x80000000 \<noteq> 0 \<longleftrightarrow> bit (crc :: u32) 31"
proof -
  have "(0x80000000 :: u32) = push_bit 31 1" by simp
  then show ?thesis by (metis and_exp_eq_0_iff_not_bit push_bit_eq_mult mult_1)
qed

lemma crc_shift_xor: "crc_shift pl (a XOR b) = crc_shift pl a XOR crc_shift pl b"
  unfolding crc_shift_def top_bit by (auto simp: bit_xor_iff push_bit_xor xor.assoc xor.left_commute xor.commute)

lemma crc_bit_shift: "crc_bit pl b crc = crc_shift pl (crc XOR (if b then push_bit 31 1 else 0))"
proof -
  have "push_bit 1 (push_bit 31 1 :: u32) = 0" by code_simp
  then have p: "push_bit 1 (crc XOR push_bit 31 1) = push_bit 1 crc" unfolding push_bit_xor by (simp only: xor.right_neutral)
  have "bit (push_bit 31 1 :: u32) 31" by (simp add: bit_push_bit_iff)
  then show ?thesis
    unfolding crc_bit_def crc_shift_def top_bit using p by (cases b) (simp_all only: if_True if_False bit_xor_iff xor.right_neutral simp_thms)
qed

lemma bit_push_31: "bit (push_bit 31 1 :: u32) k \<longleftrightarrow> k = 31"
  unfolding bit_push_bit_iff bit_1_iff by auto

text \<open>The first 32 message bits, aligned to the top of the register.\<close>

fun top_word :: "bool list \<Rightarrow> u32" where
  "top_word [] = 0"
| "top_word (b # bs) = (if b then push_bit 31 1 else 0) XOR drop_bit 1 (top_word bs)"

lemma bit_top_word: "bit (top_word bs) k \<longleftrightarrow> k < 32 \<and> 31 - k < length bs \<and> bs ! (31 - k)"
proof (induction bs arbitrary: k)
  case (Cons b bs)
  have d: "bit (drop_bit 1 (top_word bs)) k \<longleftrightarrow> Suc k < 32 \<and> 31 - Suc k < length bs \<and> bs ! (31 - Suc k)"
    using Cons.IH [of "Suc k"] by (simp add: bit_drop_bit_eq)
  have t: "bit (if b then push_bit 31 1 else 0 :: u32) k \<longleftrightarrow> b \<and> k = 31"
    by (cases b) (simp_all only: bit_push_31 if_True if_False bit_0_eq bot_apply bot_bool_def simp_thms)
  consider "k < 31" | "k = 31" | "31 < k" by linarith
  then show ?case
  proof cases
    case 1
    then have "31 - k = Suc (31 - Suc k)" by simp
    then show ?thesis using 1 by (simp only: top_word.simps bit_xor_iff t d) auto
  next
    case 2
    then show ?thesis using d by (simp add: bit_xor_iff t del: push_bit_numeral_minus_1)
  next
    case 3
    then show ?thesis using d bit_imp_le_length [of "top_word (b # bs)" k] by auto
  qed
qed simp

lemma shift_drop:
  assumes "\<not> bit x 0"
  shows "crc_shift pl (drop_bit 1 x) = x"
proof -
  have "\<not> bit (drop_bit 1 x) 31" by (auto simp: bit_drop_bit_eq dest: bit_imp_le_length)
  moreover have "push_bit 1 (drop_bit 1 x) = x"
  proof (rule bit_word_eqI)
    fix n assume "n < LENGTH(32)"
    then show "bit (push_bit 1 (drop_bit 1 x)) n = bit x n"
      unfolding bit_push_bit_iff bit_drop_bit_eq o_apply using assms by (cases n) auto
  qed
  ultimately show ?thesis by (simp only: crc_shift_def top_bit if_False xor.right_neutral)
qed

lemma register_shift:
  "length bs \<le> 32 \<Longrightarrow> fold (crc_bit pl) bs crc = (crc_shift pl ^^ length bs) (crc XOR top_word bs)"
proof (induction bs arbitrary: crc)
  case (Cons b bs)
  let ?t = "if b then push_bit 31 1 else 0 :: u32"
  have "\<not> bit (top_word bs) 0" using Cons.prems by (simp add: bit_top_word)
  then have s: "crc_shift pl (crc XOR top_word (b # bs)) = crc_shift pl (crc XOR ?t) XOR top_word bs"
    unfolding top_word.simps xor.assoc [symmetric] crc_shift_xor [of pl "crc XOR ?t"]
    using shift_drop by simp
  have "fold (crc_bit pl) (b # bs) crc = (crc_shift pl ^^ length bs) (crc_shift pl (crc XOR ?t) XOR top_word bs)"
    using Cons.IH [of "crc_shift pl (crc XOR ?t)"] Cons.prems
    by (simp only: fold_simps crc_bit_shift [of pl b] list.size)
  then show ?case unfolding s [symmetric] by (simp only: list.size funpow_Suc_right o_apply add_Suc_right add_0_right)
qed simp

lemma top_word_byte: "top_word (byte_bits p) = push_bit 24 (ucast p)"
proof (rule bit_word_eqI)
  fix k assume k: "k < LENGTH(32)"
  have len: "length (byte_bits p) = 8" by (simp add: byte_bits_def)
  have n: "byte_bits p ! j = bit p (7 - j)" if "j < 8" for j
  proof -
    have "j = 0 \<or> j = 1 \<or> j = 2 \<or> j = 3 \<or> j = 4 \<or> j = 5 \<or> j = 6 \<or> j = 7" using that by linarith
    then show ?thesis by (elim disjE) (simp_all add: byte_bits_def)
  qed
  have "bit (top_word (byte_bits p)) k \<longleftrightarrow> 31 - k < 8 \<and> bit p (7 - (31 - k))"
    using k n [of "31 - k"] len by (simp add: bit_top_word cong: conj_cong)
  also have "\<dots> \<longleftrightarrow> 24 \<le> k \<and> bit p (k - 24)"
  proof (cases "24 \<le> k")
    case True
    then have "7 - (31 - k) = k - 24" using k by simp
    then show ?thesis using True by auto
  qed auto
  finally show "bit (top_word (byte_bits p)) k = bit (push_bit 24 (ucast p) :: u32) k"
    using k by (auto simp: bit_push_bit_iff bit_unsigned_iff)
qed

lemma crc_be_register: "nfp_crc32_be_generic crc ps pl = crc_register pl crc ps"
proof (induction ps arbitrary: crc)
  case (Cons p ps)
  have "length (byte_bits p) = 8" by (simp add: byte_bits_def)
  then have "fold (crc_bit pl) (byte_bits p) crc = (crc_shift pl ^^ 8) (crc XOR push_bit 24 (ucast p))"
    using register_shift [of "byte_bits p" pl crc] top_word_byte by simp
  then show ?case using Cons by (simp add: crc_register_def)
qed (simp add: crc_register_def)

lemma crc_register_Cons: "crc_register pl crc (b # bs) = crc_register pl (crc_register pl crc [b]) bs"
  by (simp add: crc_register_def)

lemma crc_len_register: "crc_len_loop crc n = crc_register CRCPOLY_BE crc (len_bytes n)"
proof (induction crc n rule: crc_len_loop.induct)
  case (1 crc n)
  show ?case
  proof (cases "n = 0")
    case False
    let ?b = "of_nat (n mod 256) :: u8"
    have "crc_len_loop crc n = crc_register CRCPOLY_BE (crc_register CRCPOLY_BE crc [?b]) (len_bytes (n div 256))"
      using 1 [OF False] False by (simp only: crc_len_loop.simps [of crc n] nfp_crc32_be_def crc_be_register if_True simp_thms)
    also have "\<dots> = crc_register CRCPOLY_BE crc (?b # len_bytes (n div 256))" by (rule crc_register_Cons [symmetric])
    finally show ?thesis using False by (simp only: len_bytes.simps [of n] if_False)
  qed (simp add: crc_len_loop.simps [of crc 0] len_bytes.simps [of 0] crc_register_def)
qed

text \<open>The checksum is the complement of the register after the message and its length.\<close>

lemma crc_posix_register:
  "nfp_crc32_posix buff = NOT (crc_register CRCPOLY_BE 0 (buff @ len_bytes (length buff)))"
  by (simp add: nfp_crc32_posix_def nfp_crc32_posix_end_def crc_len_register nfp_crc32_be_def crc_be_register
      crc_register_def)

text \<open>Two messages of the same length have different checksums when the registers differ; the
  register is linear, so the difference depends on the difference of the messages only.\<close>

lemma crc_register_xor:
  assumes "length ps = length qs"
  shows "crc_register pl (a XOR b) (map2 (XOR) ps qs) = crc_register pl a ps XOR crc_register pl b qs"
  using assms
proof (induction ps qs arbitrary: a b rule: list_induct2)
  case (Cons p ps q qs)
  have f: "(crc_shift pl ^^ k) (x XOR y) = (crc_shift pl ^^ k) x XOR (crc_shift pl ^^ k) y" for k x y
    by (induction k) (simp_all add: crc_shift_xor)
  have u: "(a XOR b) XOR push_bit 24 (ucast (p XOR q)) =
      (a XOR push_bit 24 (ucast p)) XOR (b XOR push_bit 24 (ucast q))"
    by (simp add: unsigned_xor_eq push_bit_xor xor.assoc xor.left_commute)
  show ?case unfolding crc_be_register [symmetric] list.map zip_Cons_Cons split nfp_crc32_be_generic.simps u f
    unfolding crc_be_register by (rule Cons.IH)
qed (simp add: crc_register_def)

end
