(* ===== verification/Nfp_Resource.thy ===== *)
theory Nfp_Resource
  imports Nfp_Mutex Nfp_Crc
begin

text \<open>
  The resource table in the memory of the device (user/nfpcore/nfp_resource.c): 128 entries of 32
  bytes, found by the checksum of a name and locked by the mutex at their start. Names are C
  strings, here their bytes before the terminating zero.
\<close>

section \<open>Entries\<close>

definition NFP_RESOURCE_TBL_TARGET :: int where "NFP_RESOURCE_TBL_TARGET = 7"
definition NFP_RESOURCE_TBL_BASE :: u64 where "NFP_RESOURCE_TBL_BASE = 0x8100000000"
definition NFP_RESOURCE_TBL_KEY :: u32 where "NFP_RESOURCE_TBL_KEY = 0"
definition NFP_RESOURCE_ENTRY_NAME_SZ :: nat where "NFP_RESOURCE_ENTRY_NAME_SZ = 8"
definition NFP_RESOURCE_TBL_SIZE :: nat where "NFP_RESOURCE_TBL_SIZE = 4096"

text \<open>\<open>"nfp.res"\<close>\<close>

definition NFP_RESOURCE_TBL_NAME :: "u8 list" where
  "NFP_RESOURCE_TBL_NAME = [0x6e, 0x66, 0x70, 0x2e, 0x72, 0x65, 0x73]"

record nfp_resource_entry =
  en_owner :: u32
  en_key :: u32
  en_name :: "u8 list"
  en_reserved :: "u8 list"
  en_cpp_action :: u8
  en_cpp_token :: u8
  en_cpp_target :: u8
  en_page_offset :: u32
  en_page_size :: u32

definition entry_of_bytes :: "u8 list \<Rightarrow> nfp_resource_entry" where
  "entry_of_bytes bs = \<lparr>en_owner = le_word (take 4 bs), en_key = le_word (take 4 (drop 4 bs)),
     en_name = take 8 (drop 8 bs), en_reserved = take 5 (drop 16 bs), en_cpp_action = bs ! 21,
     en_cpp_token = bs ! 22, en_cpp_target = bs ! 23, en_page_offset = le_word (take 4 (drop 24 bs)),
     en_page_size = le_word (take 4 (drop 28 bs))\<rparr>"

definition res_entry_size :: nat where "res_entry_size = 32"

definition NFP_RESOURCE_TBL_ENTRIES :: nat where
  "NFP_RESOURCE_TBL_ENTRIES = NFP_RESOURCE_TBL_SIZE div res_entry_size"

record nfp_resource =
  rs_name :: "u8 list"
  rs_cpp_id :: u32
  rs_addr :: u64
  rs_size :: u64
  rs_mutex :: "nat option"

text \<open>The bytes that \<open>strncpy\<close> and \<open>strlcpy\<close> leave in a zeroed array, up to the given length.\<close>

definition padded :: "nat \<Rightarrow> u8 list \<Rightarrow> u8 list" where
  "padded n s = take n s @ replicate (n - length s) 0"

section \<open>Finding a resource\<close>

definition read_entry :: "'h mmio \<Rightarrow> u64 \<Rightarrow> 'h drv \<Rightarrow> int \<times> nfp_resource_entry \<times> 'h drv" where
  "read_entry M addr s =
     (let (ret, bs, w) = nfp_cpp_read M (atomic_read_id (word_of_int NFP_RESOURCE_TBL_TARGET)) addr
            (of_nat res_entry_size) (drv_world s)
      in (ret, entry_of_bytes bs, s\<lparr>drv_world := w\<rparr>))"

fun resource_search ::
  "'h mmio \<Rightarrow> u32 \<Rightarrow> nat list \<Rightarrow> nfp_resource \<Rightarrow> 'h drv \<Rightarrow> (int \<times> nfp_resource \<times> 'h drv) option" where
  "resource_search M key [] res s = Some (- errno_code ENOENT, res, s)"
| "resource_search M key (i # is) res s =
     (let addr = NFP_RESOURCE_TBL_BASE + of_nat res_entry_size * of_nat i;
          (ret, entry, s) = read_entry M addr s
      in if ret \<noteq> int res_entry_size then Some (- errno_code EIO, res, s)
         else if en_key entry \<noteq> key then resource_search M key is res s
         else case nfp_cpp_mutex_alloc M NFP_RESOURCE_TBL_TARGET addr key s of
                None \<Rightarrow> None
              | Some (m, s) \<Rightarrow>
                  Some (0, res\<lparr>rs_mutex := m,
                     rs_cpp_id := NFP_CPP_ID (ucast (en_cpp_target entry)) (ucast (en_cpp_action entry))
                                    (ucast (en_cpp_token entry)),
                     rs_addr := push_bit 8 (ucast (en_page_offset entry)),
                     rs_size := push_bit 8 (ucast (en_page_size entry))\<rparr>, s))"

definition nfp_cpp_resource_find ::
  "'h mmio \<Rightarrow> nfp_resource \<Rightarrow> 'h drv \<Rightarrow> (int \<times> nfp_resource \<times> 'h drv) option" where
  "nfp_cpp_resource_find M res s =
     (let name_pad = padded 8 (rs_name res)
      in if name_pad = padded 8 NFP_RESOURCE_TBL_NAME then Some (- errno_code EOPNOTSUPP, res, s)
         else resource_search M (nfp_crc32_posix (take NFP_RESOURCE_ENTRY_NAME_SZ name_pad))
                [0..<NFP_RESOURCE_TBL_ENTRIES] res s)"

section \<open>Acquiring and releasing\<close>

text \<open>Operations on a handle pointer that may be \<open>NULL\<close>.\<close>

definition trylock_ptr :: "'h mmio \<Rightarrow> nat option \<Rightarrow> 'h drv \<Rightarrow> int \<times> 'h drv" where
  "trylock_ptr M m s = (case m of None \<Rightarrow> (-1, drv_fault s) | Some p \<Rightarrow> nfp_cpp_mutex_trylock M p s)"

definition unlock_ptr :: "'h mmio \<Rightarrow> nat option \<Rightarrow> 'h drv \<Rightarrow> 'h drv" where
  "unlock_ptr M m s = (case m of None \<Rightarrow> drv_fault s | Some p \<Rightarrow> snd (nfp_cpp_mutex_unlock M p s))"

definition free_ptr :: "nat option \<Rightarrow> 'h drv \<Rightarrow> 'h drv" where
  "free_ptr m s = (case m of None \<Rightarrow> drv_fault s | Some p \<Rightarrow> nfp_cpp_mutex_free p s)"

text \<open>\<open>envs\<close> is what other masters do while the lock of the table is waited for.\<close>

definition nfp_resource_try_acquire ::
  "'h mmio \<Rightarrow> ('h \<Rightarrow> 'h) list \<Rightarrow> nat \<Rightarrow> nfp_resource \<Rightarrow> 'h drv \<Rightarrow> (int \<times> nfp_resource \<times> 'h drv) option" where
  "nfp_resource_try_acquire M envs dev_mutex res s =
     (case nfp_cpp_mutex_lock M envs dev_mutex s of
        None \<Rightarrow> None
      | Some (err, s) \<Rightarrow>
          if err \<noteq> 0 then Some (- errno_code EINVAL, res, s)
          else case nfp_cpp_resource_find M res s of
            None \<Rightarrow> None
          | Some (err, res, s) \<Rightarrow>
              if err \<noteq> 0 then Some (err, res, unlock_ptr M (Some dev_mutex) s)
              else let (err, s) = trylock_ptr M (rs_mutex res) s
                   in if err \<noteq> 0
                      then Some (err, res, unlock_ptr M (Some dev_mutex) (free_ptr (rs_mutex res) s))
                      else Some (0, res, unlock_ptr M (Some dev_mutex) s))"

text \<open>The attempts, counted from 0; before the next one the process sleeps, while other masters act
  as \<open>pause\<close> says.\<close>

function acquire_loop ::
  "'h mmio \<Rightarrow> (nat \<Rightarrow> ('h \<Rightarrow> 'h) list) \<Rightarrow> (nat \<Rightarrow> 'h \<Rightarrow> 'h) \<Rightarrow> nat \<Rightarrow> nat \<Rightarrow> nfp_resource \<Rightarrow> 'h drv
     \<Rightarrow> (int \<times> nfp_resource \<times> 'h drv) option" where
  "acquire_loop M envs pause dev_mutex count res s =
     (case nfp_resource_try_acquire M (envs count) dev_mutex res s of
        None \<Rightarrow> None
      | Some (err, res, s) \<Rightarrow>
          if err = 0 then Some (0, res, s)
          else if err \<noteq> - errno_code EBUSY then Some (err, res, s)
          else if count > 1000 then Some (- errno_code EBUSY, res, s)
          else acquire_loop M envs pause dev_mutex (Suc count) res
                 (s\<lparr>drv_world := (drv_world s)\<lparr>w_hw := pause count (w_hw (drv_world s))\<rparr>\<rparr>))"
  by pat_completeness auto
termination by (relation "measure (\<lambda>(_, _, _, _, count, _, _). 1002 - count)") auto

declare acquire_loop.simps [simp del]

definition nfp_resource_acquire ::
  "'h mmio \<Rightarrow> (nat \<Rightarrow> ('h \<Rightarrow> 'h) list) \<Rightarrow> (nat \<Rightarrow> 'h \<Rightarrow> 'h) \<Rightarrow> u8 list \<Rightarrow> 'h drv
     \<Rightarrow> (nfp_resource option \<times> 'h drv) option" where
  "nfp_resource_acquire M envs pause name s =
     (let (ok, w) = c_malloc (drv_world s); s = s\<lparr>drv_world := w\<rparr>
      in if \<not> ok then Some (None, s)
         else
           let res = \<lparr>rs_name = take NFP_RESOURCE_ENTRY_NAME_SZ name, rs_cpp_id = 0, rs_addr = 0, rs_size = 0,
                 rs_mutex = None\<rparr>
           in case nfp_cpp_mutex_alloc M NFP_RESOURCE_TBL_TARGET NFP_RESOURCE_TBL_BASE NFP_RESOURCE_TBL_KEY s of
                None \<Rightarrow> None
              | Some (None, s) \<Rightarrow> Some (None, s)
              | Some (Some dev_mutex, s) \<Rightarrow>
                  (case acquire_loop M envs pause dev_mutex 0 res s of
                     None \<Rightarrow> None
                   | Some (err, res, s) \<Rightarrow>
                       if err = 0 then Some (Some res, nfp_cpp_mutex_free dev_mutex s)
                       else Some (None, nfp_cpp_mutex_free dev_mutex s)))"

definition nfp_resource_release :: "'h mmio \<Rightarrow> nfp_resource \<Rightarrow> 'h drv \<Rightarrow> 'h drv" where
  "nfp_resource_release M res s = free_ptr (rs_mutex res) (unlock_ptr M (rs_mutex res) s)"

definition nfp_resource_cpp_id :: "nfp_resource \<Rightarrow> u32" where "nfp_resource_cpp_id res = rs_cpp_id res"
definition nfp_resource_name :: "nfp_resource \<Rightarrow> u8 list" where "nfp_resource_name res = rs_name res"
definition nfp_resource_address :: "nfp_resource \<Rightarrow> u64" where "nfp_resource_address res = rs_addr res"
definition nfp_resource_size :: "nfp_resource \<Rightarrow> u64" where "nfp_resource_size res = rs_size res"

section \<open>The other masters\<close>

text \<open>What other masters do while a resource is acquired, and what happens during a sleep of the
  driver.\<close>

record 'h others =
  oth_lock :: "nat \<Rightarrow> ('h \<Rightarrow> 'h) list"
  oth_pause :: "nat \<Rightarrow> 'h \<Rightarrow> 'h"

definition acquire_named ::
  "'h mmio \<Rightarrow> 'h others \<Rightarrow> u8 list \<Rightarrow> 'h drv \<Rightarrow> (nfp_resource option \<times> 'h drv) option" where
  "acquire_named M e name s = nfp_resource_acquire M (oth_lock e) (oth_pause e) name s"

definition drv_nap :: "('h \<Rightarrow> 'h) \<Rightarrow> 'h drv \<Rightarrow> 'h drv" where
  "drv_nap f s = s\<lparr>drv_world := (drv_world s)\<lparr>w_hw := f (w_hw (drv_world s))\<rparr>\<rparr>"

section \<open>Error codes\<close>

text \<open>Taking a lock fails with -1, the error number is in \<open>errno\<close> only.\<close>

lemma readl_fails: "nfp_cpp_readl M d a w = (Inl e, w') \<Longrightarrow> e = RetFail"
  by (simp add: nfp_cpp_readl_def split: prod.splits if_splits)

lemma writel_result: "nfp_cpp_writel M d a v w = (r, w') \<Longrightarrow> r = 0 \<or> r = -1"
  by (auto simp: nfp_cpp_writel_def split: prod.splits if_splits)

lemma trylock_codes: "mutex_trylock M mx w = (r, mx', w') \<Longrightarrow> r = 0 \<or> r = -1"
proof -
  have key: "r = -1" if "trylock_key M mx w = Inl (r, mx', w')" for r mx' w'
    using that
    by (auto simp: trylock_key_def mtx_error_def NFP_ERRNO_def Let_def split: prod.splits sum.splits if_splits
        dest!: readl_fails)
  have test: "r = 0 \<or> r = -1" if "trylock_test M mx w = Inl (r, mx', w')" for r mx' w w'
    using that
    by (auto simp: trylock_test_def mtx_error_def NFP_ERRNO_def Let_def split: prod.splits sum.splits if_splits
        dest!: readl_fails)
  have claim: "r = 0 \<or> r = -1" if "trylock_claim M mx w = (r, mx', w')" for r mx' w w'
    using that by (auto simp: trylock_claim_def Let_def split: prod.splits if_splits dest!: writel_result)
  show "mutex_trylock M mx w = (r, mx', w') \<Longrightarrow> r = 0 \<or> r = -1"
    using key test claim by (auto simp: mutex_trylock_def mtx_error_def NFP_ERRNO_def split: if_splits sum.splits)
qed

lemma trylock_ptr_codes: "trylock_ptr M m s = (r, s') \<Longrightarrow> r = 0 \<or> r = -1"
  by (auto simp: trylock_ptr_def nfp_cpp_mutex_trylock_def on_mutex_def split: option.splits prod.splits
      dest: trylock_codes)

lemma search_codes:
  "resource_search M key is res s = Some (r, res', s') \<Longrightarrow> r \<in> {0, - errno_code ENOENT, - errno_code EIO}"
proof (induction "is" arbitrary: s)
  case (Cons i "is")
  obtain ret entry s1 where e: "read_entry M (NFP_RESOURCE_TBL_BASE + of_nat res_entry_size * of_nat i) s = (ret, entry, s1)"
    by (metis prod_cases3)
  show ?case
  proof (cases "ret = int res_entry_size \<and> en_key entry \<noteq> key")
    case True
    then show ?thesis using Cons.IH [of s1] Cons.prems e by simp
  next
    case False
    then show ?thesis using Cons.prems e by (auto split: option.splits prod.splits if_splits)
  qed
qed simp

lemma try_acquire_codes:
  assumes "nfp_resource_try_acquire M envs dev res s = Some (r, res', s')"
  shows "r \<noteq> - errno_code EBUSY"
proof -
  have f: "r \<in> {0, - errno_code ENOENT, - errno_code EIO, - errno_code EOPNOTSUPP}"
    if "nfp_cpp_resource_find M res s = Some (r, res', s')" for r res res' s s'
    using that by (auto simp: nfp_cpp_resource_find_def Let_def split: if_splits dest!: search_codes simp del: resource_search.simps)
  show ?thesis using assms
    by (auto simp: nfp_resource_try_acquire_def Let_def split: option.splits prod.splits if_splits
        dest!: f trylock_ptr_codes)
qed

text \<open>So the loop never goes round: a resource that is locked by another master is given up at once.\<close>

lemma acquire_tries_once:
  "acquire_loop M envs pause dev count res s = nfp_resource_try_acquire M (envs count) dev res s"
  using try_acquire_codes [of M "envs count" dev res s]
  by (simp add: acquire_loop.simps [of M envs pause dev count res s] split: option.splits prod.splits)

end
