(* ===== verification/Mutex_Cache.thy ===== *)
theory Mutex_Cache
  imports Nfp_Mutex
begin

text \<open>
  The cache of mutex handles refines a list. Abstractly the cache is a list of handles with their
  contents (the links cleared), newest first; the doubly linked list in the heap represents it,
  and the search, the allocation and the release of handles act on the list as expected.
\<close>

section \<open>Doubly linked segments\<close>

type_synonym cache_list = "(nat \<times> nfp_cpp_mutex) list"

fun first_of :: "cache_list \<Rightarrow> nat option \<Rightarrow> nat option" where
  "first_of [] nxt = nxt"
| "first_of ((p, v) # L) nxt = Some p"

fun last_of :: "nat option \<Rightarrow> cache_list \<Rightarrow> nat option" where
  "last_of prv [] = prv"
| "last_of prv ((p, v) # L) = last_of (Some p) L"

fun seg :: "(nat \<rightharpoonup> nfp_cpp_mutex) \<Rightarrow> nat option \<Rightarrow> cache_list \<Rightarrow> nat option \<Rightarrow> bool" where
  "seg h prv [] nxt \<longleftrightarrow> True"
| "seg h prv ((p, v) # L) nxt \<longleftrightarrow>
     h p = Some (v\<lparr>mtx_prev := prv, mtx_next := first_of L nxt\<rparr>) \<and> seg h (Some p) L nxt"

definition no_links :: "nfp_cpp_mutex \<Rightarrow> nfp_cpp_mutex" where
  "no_links v = v\<lparr>mtx_prev := None, mtx_next := None\<rparr>"

definition cache_rep :: "'h drv \<Rightarrow> cache_list \<Rightarrow> bool" where
  "cache_rep s L \<longleftrightarrow>
     seg (mtx_heap s) None L None \<and> mutex_cache s = first_of L None \<and> distinct (map fst L)
     \<and> dom (mtx_heap s) = fst ` set L \<and> (\<forall>(p, v) \<in> set L. p < mtx_brk s \<and> v = no_links v)"

lemma first_append [simp]: "first_of (A @ B) nxt = first_of A (first_of B nxt)"
  by (induction A nxt rule: first_of.induct) auto

lemma seg_append: "seg h prv (A @ B) nxt \<longleftrightarrow> seg h prv A (first_of B nxt) \<and> seg h (last_of prv A) B nxt"
  by (induction A arbitrary: prv) auto

lemma last_append [simp]: "last_of prv (A @ B) = last_of (last_of prv A) B"
  by (induction A arbitrary: prv) auto

lemma seg_other: "p \<notin> fst ` set L \<Longrightarrow> seg (h(p := x)) prv L nxt = seg h prv L nxt"
  by (induction h prv L nxt rule: seg.induct) auto

lemma seg_prev:
  "seg h prv ((q, v) # B) nxt \<Longrightarrow> q \<notin> fst ` set B
     \<Longrightarrow> seg (h(q \<mapsto> the (h q)\<lparr>mtx_prev := prv'\<rparr>)) prv' ((q, v) # B) nxt"
  by (simp add: seg_other)

lemma seg_next:
  "seg h prv (A @ [(q, v)]) nxt \<Longrightarrow> q \<notin> fst ` set A
     \<Longrightarrow> seg (h(q \<mapsto> the (h q)\<lparr>mtx_next := nxt'\<rparr>)) prv (A @ [(q, v)]) nxt'"
  by (simp add: seg_append seg_other)

lemma seg_lookup: "seg h prv L nxt \<Longrightarrow> (p, v) \<in> set L \<Longrightarrow> \<exists>a b. h p = Some (v\<lparr>mtx_prev := a, mtx_next := b\<rparr>)"
  by (induction h prv L nxt rule: seg.induct) auto

section \<open>Search\<close>

definition entry_matches :: "int \<Rightarrow> u64 \<Rightarrow> nat \<times> nfp_cpp_mutex \<Rightarrow> bool" where
  "entry_matches target address e \<longleftrightarrow> uint (mtx_target (snd e)) = target \<and> mtx_address (snd e) = address"

lemma cache_walk_seg:
  "seg h prv L None \<Longrightarrow>
     cache_walk h target address (first_of L None) = Some (map_option fst (find (entry_matches target address) L))"
proof (induction L arbitrary: prv)
  case Nil
  show ?case by (simp add: cache_walk.simps [of h target address None])
next
  case (Cons e L)
  obtain p v where e: "e = (p, v)" by force
  show ?case using Cons unfolding e
    by (auto simp: cache_walk.simps [of h target address "Some p"] entry_matches_def)
qed

lemma cache_walk_rep:
  "cache_rep s L \<Longrightarrow> cache_walk (mtx_heap s) target address (mutex_cache s)
     = Some (map_option fst (find (entry_matches target address) L))"
  using cache_walk_seg [of "mtx_heap s" None L] by (simp add: cache_rep_def)

section \<open>Updates\<close>

definition entry_upd :: "nat \<Rightarrow> (nfp_cpp_mutex \<Rightarrow> nfp_cpp_mutex) \<Rightarrow> cache_list \<Rightarrow> cache_list" where
  "entry_upd p f L = map (\<lambda>(q, v). (q, if q = p then f v else v)) L"

lemma entry_upd_split:
  assumes "distinct (map fst (A @ (p, v) # B))"
  shows "entry_upd p f (A @ (p, v) # B) = A @ (p, f v) # B"
proof -
  have "map (\<lambda>(q, v). (q, if q = p then f v else v)) C = C" if "p \<notin> fst ` set C" for C :: cache_list
    using that by (induction C) auto
  then show ?thesis using assms by (auto simp: entry_upd_def)
qed

text \<open>A change of a handle that leaves its links alone.\<close>

definition link_free :: "(nfp_cpp_mutex \<Rightarrow> nfp_cpp_mutex) \<Rightarrow> bool" where
  "link_free f \<longleftrightarrow> (\<forall>v a b. f (v\<lparr>mtx_prev := a, mtx_next := b\<rparr>) = (f v)\<lparr>mtx_prev := a, mtx_next := b\<rparr>)"

lemma link_free_I [intro]:
  "link_free (\<lambda>v. v\<lparr>mtx_usage := g (mtx_usage v)\<rparr>)" "link_free (\<lambda>v. v\<lparr>mtx_depth := d\<rparr>)"
  by (simp_all add: link_free_def)

lemma rep_split:
  assumes "cache_rep s L" "(p, v) \<in> set L"
  obtains A B where "L = A @ (p, v) # B" "p \<notin> fst ` set A" "p \<notin> fst ` set B"
    "mtx_heap s p = Some (v\<lparr>mtx_prev := last_of None A, mtx_next := first_of B None\<rparr>)"
    "seg (mtx_heap s) None A (Some p)" "seg (mtx_heap s) (Some p) B None"
proof -
  obtain A B where L: "L = A @ (p, v) # B" using assms(2) by (meson split_list)
  show thesis by (rule that [OF L]) (use assms(1) L in \<open>auto simp: cache_rep_def seg_append\<close>)
qed

lemma rep_update:
  assumes rep: "cache_rep s L" and p: "(p, v) \<in> set L" and f: "link_free f"
  shows "cache_rep (mtx_set p (f (the (mtx_heap s p))) s) (entry_upd p f L)"
proof (rule rep_split [OF rep p])
  fix A B assume L: "L = A @ (p, v) # B" and p: "p \<notin> fst ` set A" "p \<notin> fst ` set B"
    and h: "mtx_heap s p = Some (v\<lparr>mtx_prev := last_of None A, mtx_next := first_of B None\<rparr>)"
    and sg: "seg (mtx_heap s) None A (Some p)" "seg (mtx_heap s) (Some p) B None"
  have d: "distinct (map fst (A @ (p, v) # B))" using rep L by (simp add: cache_rep_def)
  have fv: "f (v\<lparr>mtx_prev := a, mtx_next := b\<rparr>) = (f v)\<lparr>mtx_prev := a, mtx_next := b\<rparr>" for a b
    using f by (simp add: link_free_def)
  have v: "v = no_links v" using rep L by (simp add: cache_rep_def)
  then have nl: "f v = no_links (f v)" using fv [of None None] by (simp add: no_links_def)
  have U: "entry_upd p f L = A @ (p, f v) # B" unfolding L by (rule entry_upd_split [OF d])
  have fo: "first_of (A @ (p, x) # B) None = first_of A (Some p)" for x by simp
  show ?thesis
    unfolding U using rep sg p h nl
    by (auto simp: cache_rep_def mtx_set_def seg_append seg_other L fv)
qed

section \<open>Allocation and release\<close>

lemma rep_fresh: "cache_rep s L \<Longrightarrow> mtx_brk s \<notin> fst ` set L \<and> mtx_heap s (mtx_brk s) = None"
  by (force simp: cache_rep_def domIff)

lemma link_rep:
  assumes rep: "cache_rep s L" and mx: "mx = no_links mx"
  shows "\<exists>s'. mutex_link mx s = (mtx_brk s, s') \<and> cache_rep s' ((mtx_brk s, mx) # L)
    \<and> drv_world s' = drv_world s"
proof -
  let ?p = "mtx_brk s"
  have fr: "?p \<notin> fst ` set L" using rep_fresh [OF rep] by simp
  have lt: "\<forall>(q, v) \<in> set L. q < Suc ?p \<and> v = no_links v" using rep by (auto simp: cache_rep_def)
  show ?thesis
  proof (cases L)
    case Nil
    then have "mtx_heap s = Map.empty" using rep by (simp add: cache_rep_def)
    then show ?thesis using rep Nil mx
      by (auto simp: cache_rep_def mutex_link_def mtx_set_def Let_def no_links_def)
  next
    case (Cons e B)
    obtain q v where e: "e = (q, v)" by force
    have h: "mtx_heap s q = Some (v\<lparr>mtx_prev := None, mtx_next := first_of B None\<rparr>)"
      and sg: "seg (mtx_heap s) (Some q) B None" and q: "q \<notin> fst ` set B" "q \<noteq> ?p" "mutex_cache s = Some q"
      using rep fr unfolding Cons e by (auto simp: cache_rep_def)
    have m: "mx\<lparr>mtx_next := Some q\<rparr> = mx\<lparr>mtx_prev := None, mtx_next := Some q\<rparr>"
      using mx by (metis (no_types) no_links_def nfp_cpp_mutex.surjective nfp_cpp_mutex.update_convs(6,7))
    have B: "?p \<notin> fst ` set B" using fr unfolding Cons by simp
    show ?thesis using rep lt h sg q mx B m unfolding Cons e
      by (auto simp: cache_rep_def mutex_link_def link_upd_def mtx_set_def Let_def seg_other)
  qed
qed

definition entry_drop :: "nat \<Rightarrow> cache_list \<Rightarrow> cache_list" where
  "entry_drop p L = filter (\<lambda>(q, v). q \<noteq> p) L"

lemma entry_drop_split:
  assumes "p \<notin> fst ` set A" "p \<notin> fst ` set B"
  shows "entry_drop p (A @ (p, v) # B) = A @ B"
proof -
  have "filter (\<lambda>(q, v). q \<noteq> p) C = C" if "p \<notin> fst ` set C" for C :: cache_list
    using that by (induction C) auto
  then show ?thesis using assms by (simp add: entry_drop_def)
qed

text \<open>Taking an object out of the list: the successor gets its predecessor, then the predecessor
  its successor.\<close>

definition fix_next :: "nat option \<Rightarrow> nat option \<Rightarrow> (nat \<rightharpoonup> nfp_cpp_mutex) \<Rightarrow> nat \<rightharpoonup> nfp_cpp_mutex" where
  "fix_next nxt prv h = (case nxt of None \<Rightarrow> h | Some q \<Rightarrow> h(q \<mapsto> the (h q)\<lparr>mtx_prev := prv\<rparr>))"

definition fix_prev :: "nat option \<Rightarrow> nat option \<Rightarrow> (nat \<rightharpoonup> nfp_cpp_mutex) \<Rightarrow> nat \<rightharpoonup> nfp_cpp_mutex" where
  "fix_prev prv nxt h = (case prv of None \<Rightarrow> h | Some q \<Rightarrow> h(q \<mapsto> the (h q)\<lparr>mtx_next := nxt\<rparr>))"

lemma fix_next_seg:
  assumes "seg h x B None" "distinct (map fst B)"
  shows "seg (fix_next (first_of B None) prv h) prv B None"
  using assms by (induction B "None :: nat option" rule: first_of.induct) (auto simp: fix_next_def seg_other)

lemma fix_prev_seg:
  assumes "seg h None A x" "distinct (map fst A)"
  shows "seg (fix_prev (last_of None A) nxt h) None A nxt"
proof (cases A rule: rev_cases)
  case (snoc C e)
  obtain q v where e: "e = (q, v)" by force
  show ?thesis using seg_next [of h None C q v x nxt] assms
    by (simp add: snoc e fix_prev_def)
qed (simp add: fix_prev_def)

lemma fix_other:
  "first_of B None \<notin> Some ` fst ` set A \<Longrightarrow> seg (fix_next (first_of B None) prv h) y A z = seg h y A z"
  "last_of None A \<notin> Some ` fst ` set B \<Longrightarrow> seg (fix_prev (last_of None A) nxt h) y B z = seg h y B z"
  by (auto simp: fix_next_def fix_prev_def seg_other image_iff split: option.split)

lemma first_mem: "first_of B None = Some q \<Longrightarrow> q \<in> fst ` set B"
  by (induction B "None :: nat option" rule: first_of.induct) auto

lemma last_mem: "last_of prv A = Some q \<Longrightarrow> q \<in> fst ` set A \<or> prv = Some q"
  by (induction prv A rule: last_of.induct) auto

text \<open>The last release of a handle unlinks and frees it, an earlier one counts down.\<close>

definition cache_free :: "nat \<Rightarrow> nfp_cpp_mutex \<Rightarrow> cache_list \<Rightarrow> cache_list" where
  "cache_free p v L =
     (if mtx_usage v - 1 > 0 then entry_upd p (\<lambda>v. v\<lparr>mtx_usage := mtx_usage v - 1\<rparr>) L else entry_drop p L)"

lemma free_last:
  assumes rep: "cache_rep s L" and p: "(p, v) \<in> set L" and u: "\<not> mtx_usage v - 1 > 0"
  shows "cache_rep (nfp_cpp_mutex_free p s) (entry_drop p L)" "drv_world (nfp_cpp_mutex_free p s) = drv_world s"
proof -
  obtain A B where L: "L = A @ (p, v) # B" and p: "p \<notin> fst ` set A" "p \<notin> fst ` set B"
    and h: "mtx_heap s p = Some (v\<lparr>mtx_prev := last_of None A, mtx_next := first_of B None\<rparr>)"
    and sg: "seg (mtx_heap s) None A (Some p)" "seg (mtx_heap s) (Some p) B None"
    by (rule rep_split [OF rep p])
  have d: "distinct (map fst A)" "distinct (map fst B)" "fst ` set A \<inter> fst ` set B = {}"
    and dom: "dom (mtx_heap s) = insert p (fst ` set A \<union> fst ` set B)"
    and cache: "mutex_cache s = first_of A (Some p)"
    and lt: "\<forall>(q, v) \<in> set A \<union> set B. q < mtx_brk s \<and> v = no_links v"
    using rep by (auto simp: cache_rep_def L)
  let ?nx = "first_of B None" and ?pv = "last_of None A"
  define h0 where "h0 = (mtx_heap s)(p \<mapsto> (v\<lparr>mtx_prev := ?pv, mtx_next := ?nx\<rparr>)\<lparr>mtx_usage := mtx_usage v - 1\<rparr>)"
  define h2 where "h2 = fix_prev ?pv ?nx (fix_next ?nx ?pv h0)"
  have nx: "?nx \<notin> Some ` fst ` set A" "?nx \<noteq> Some p" "\<And>q. ?nx = Some q \<Longrightarrow> q \<in> dom h0"
    using first_mem [of B] d(3) p dom by (auto simp: h0_def)
  have pv: "?pv \<notin> Some ` fst ` set B" "?pv \<noteq> Some p" "\<And>q. ?pv = Some q \<Longrightarrow> q \<in> dom h0"
    using last_mem [of None A] d(3) p dom by (auto simp: h0_def)
  have ex: "nfp_cpp_mutex_free p s = s\<lparr>mtx_heap := h2(p := None),
      mutex_cache := if mutex_cache s = Some p then ?nx else mutex_cache s\<rparr>"
  proof -
    let ?h1 = "fix_next ?nx ?pv h0"
    have d1: "dom ?h1 = dom h0" using nx(3) by (auto simp: fix_next_def split: option.splits if_splits)
    have n: "link_upd ?nx (\<lambda>x. x\<lparr>mtx_prev := ?pv\<rparr>) (s\<lparr>mtx_heap := h0\<rparr>) = s\<lparr>mtx_heap := ?h1\<rparr>"
      using nx(3) by (auto simp: fix_next_def link_upd_def mtx_set_def split: option.splits)
    have m: "link_upd ?pv (\<lambda>x. x\<lparr>mtx_next := ?nx\<rparr>) (s\<lparr>mtx_heap := ?h1\<rparr>) = s\<lparr>mtx_heap := h2\<rparr>"
      using pv(3) [folded d1] by (auto simp: fix_prev_def h2_def link_upd_def mtx_set_def split: option.splits)
    have "(v\<lparr>mtx_prev := ?pv, mtx_next := ?nx\<rparr>)\<lparr>mtx_usage := mtx_usage v - 1\<rparr>
        = v\<lparr>mtx_usage := mtx_usage v - 1, mtx_prev := ?pv, mtx_next := ?nx\<rparr>" by simp
    then show ?thesis
      using h u n m by (simp add: nfp_cpp_mutex_free_def mtx_set_def Let_def h0_def)
  qed
  have s0: "seg h0 None A (Some p)" "seg h0 (Some p) B None" using sg p by (simp_all add: h0_def seg_other)
  have "seg h2 ?pv B None" unfolding h2_def
    using fix_next_seg [OF s0(2) d(2), of ?pv] fix_other(2) [OF pv(1)] by simp
  moreover have "seg h2 None A ?nx" unfolding h2_def
    using fix_prev_seg [OF _ d(1)] fix_other(1) [OF nx(1)] s0(1) by blast
  ultimately have "seg (h2(p := None)) None (A @ B) None" using p by (simp add: seg_append seg_other)
  moreover have "dom h2 = dom h0" using nx(3) pv(3)
    by (auto simp: h2_def fix_next_def fix_prev_def split: option.splits if_splits)
  then have "dom (h2(p := None)) = insert p (fst ` set A \<union> fst ` set B) - {p}" using dom by (simp add: h0_def)
  then have "dom (h2(p := None)) = fst ` set (A @ B)" using p by auto
  moreover have "(if mutex_cache s = Some p then ?nx else mutex_cache s) = first_of (A @ B) None"
    using cache p by (cases A) auto
  ultimately show "cache_rep (nfp_cpp_mutex_free p s) (entry_drop p L)"
    unfolding ex L entry_drop_split [OF p] using d lt by (auto simp: cache_rep_def)
  show "drv_world (nfp_cpp_mutex_free p s) = drv_world s" by (simp add: ex)
qed

lemma free_refines:
  assumes "cache_rep s L" "(p, v) \<in> set L"
  shows "cache_rep (nfp_cpp_mutex_free p s) (cache_free p v L) \<and> drv_world (nfp_cpp_mutex_free p s) = drv_world s"
proof (cases "mtx_usage v - 1 > 0")
  case True
  obtain a b where h: "mtx_heap s p = Some (v\<lparr>mtx_prev := a, mtx_next := b\<rparr>)"
    using seg_lookup assms unfolding cache_rep_def by blast
  have "nfp_cpp_mutex_free p s = mtx_set p ((\<lambda>v. v\<lparr>mtx_usage := mtx_usage v - 1\<rparr>) (the (mtx_heap s p))) s"
    using h True by (simp add: nfp_cpp_mutex_free_def mtx_set_def Let_def)
  then show ?thesis using rep_update [OF assms link_free_I(1)] True by (simp add: cache_free_def mtx_set_def)
qed (use free_last [OF assms] in \<open>simp add: cache_free_def\<close>)

definition new_mutex :: "u64 \<Rightarrow> u32 \<Rightarrow> nfp_cpp_mutex" where
  "new_mutex address key = \<lparr>mtx_target = 7, mtx_depth = 0, mtx_address = address, mtx_key = key,
     mtx_usage = 1, mtx_prev = None, mtx_next = None\<rparr>"

lemma rep_world: "cache_rep (s\<lparr>drv_world := w\<rparr>) L \<longleftrightarrow> cache_rep s L"
  "cache_rep (drv_errno e s) L \<longleftrightarrow> cache_rep s L"
  by (simp_all add: cache_rep_def drv_errno_def)

text \<open>What a call of \<open>nfp_cpp_mutex_alloc\<close> may do to the list.\<close>

definition cache_alloc :: "int \<Rightarrow> u64 \<Rightarrow> u32 \<Rightarrow> cache_list \<Rightarrow> nat option \<Rightarrow> cache_list \<Rightarrow> bool" where
  "cache_alloc target address key L r L' \<longleftrightarrow>
     (case find (entry_matches target address) L of
        Some (p, v) \<Rightarrow>
          if mtx_key v = key
          then r = Some p \<and> L' = entry_upd p (\<lambda>v. v\<lparr>mtx_usage := mtx_usage v + 1\<rparr>) L
          else r = None \<and> L' = L
      | None \<Rightarrow>
          r = None \<and> L' = L
          \<or> (\<exists>p. r = Some p \<and> p \<notin> fst ` set L \<and> target = 7 \<and> address AND 7 = 0
               \<and> L' = (p, new_mutex address key) # L))"

lemma alloc_new:
  assumes rep: "cache_rep s L" and f: "find (entry_matches target address) L = None"
  shows "\<exists>r s' L'. nfp_cpp_mutex_alloc M target address key s = Some (r, s')
    \<and> cache_alloc target address key L r L' \<and> cache_rep s' L'"
proof -
  obtain mdl w where m: "nfp_cpp_model M (drv_world s) = (mdl, w)" by (metis surj_pair)
  have wk: "cache_walk (mtx_heap s) target address (mutex_cache s) = Some None"
    using cache_walk_rep [OF rep] f by simp
  have none: "cache_alloc target address key L None L" using f by (simp add: cache_alloc_def)
  show ?thesis
  proof (cases "nfp_cpp_mutex_validate mdl target address")
    case (Inl e)
    then show ?thesis using none rep
      by (auto simp: nfp_cpp_mutex_alloc_def m wk Let_def rep_world intro!: exI [of _ L])
  next
    case (Inr u)
    obtain rr w1 where rd: "nfp_cpp_readl M (atomic_read_id (word_of_int target)) (address + 4) w = (rr, w1)"
      by (metis surj_pair)
    obtain ok w2 where ml: "c_malloc w1 = (ok, w2)" by (metis surj_pair)
    have t: "target = 7" "address AND 7 = 0" using Inr by (auto simp: nfp_cpp_mutex_validate_def split: if_splits)
    have nl: "new_mutex address key = no_links (new_mutex address key)" by (simp add: new_mutex_def no_links_def)
    obtain s' where lk: "mutex_link (new_mutex address key) (s\<lparr>drv_world := w2\<rparr>) = (mtx_brk s, s')"
      "cache_rep s' ((mtx_brk s, new_mutex address key) # L)"
      using link_rep [of "s\<lparr>drv_world := w2\<rparr>" L, OF _ nl] rep by (auto simp: rep_world)
    have "cache_alloc target address key L (Some (mtx_brk s)) ((mtx_brk s, new_mutex address key) # L)"
      using f t rep_fresh [OF rep] by (simp add: cache_alloc_def)
    moreover have "\<lparr>mtx_target = word_of_int target, mtx_depth = 0, mtx_address = address, mtx_key = key,
        mtx_usage = 1, mtx_prev = None, mtx_next = None\<rparr> = new_mutex address key" by (simp add: t new_mutex_def)
    ultimately show ?thesis using none rep lk Inr
      by (cases rr) (auto simp: nfp_cpp_mutex_alloc_def m wk rd ml Let_def rep_world simp del: ex_simps)
  qed
qed

lemma alloc_refines:
  assumes rep: "cache_rep s L"
  shows "\<exists>r s' L'. nfp_cpp_mutex_alloc M target address key s = Some (r, s')
    \<and> cache_alloc target address key L r L' \<and> cache_rep s' L'"
proof (cases "find (entry_matches target address) L")
  case (Some e)
  obtain p v where e: "e = (p, v)" by force
  have p: "(p, v) \<in> set L" using Some e by (auto simp: find_Some_iff in_set_conv_nth)
  obtain mdl w where m: "nfp_cpp_model M (drv_world s) = (mdl, w)" by (metis surj_pair)
  have rep': "cache_rep (s\<lparr>drv_world := w\<rparr>) L" using rep by (simp add: rep_world)
  obtain a b where h: "mtx_heap s p = Some (v\<lparr>mtx_prev := a, mtx_next := b\<rparr>)"
    using seg_lookup rep p unfolding cache_rep_def by blast
  have wk: "cache_walk (mtx_heap s) target address (mutex_cache s) = Some (Some p)"
    using cache_walk_rep [OF rep] Some e by simp
  note up = rep_update [OF rep' p link_free_I(1) [of "\<lambda>u. u + 1"]]
  show ?thesis
  proof (cases "mtx_key v = key")
    case True
    then show ?thesis using up Some e h by (auto simp: nfp_cpp_mutex_alloc_def cache_alloc_def m wk)
  next
    case False
    then show ?thesis using rep Some e h by (auto simp: nfp_cpp_mutex_alloc_def cache_alloc_def m wk rep_world)
  qed
qed (rule alloc_new [OF rep])

end
