(* ===== verification/Resource_Proof.thy ===== *)
theory Resource_Proof
  imports Nfp_Resource Mutex_Cache Mutex_Lock
begin

text \<open>
  Finding, acquiring and releasing resources on a bus with an atomic engine: the search gives the
  first entry of the table whose key is the checksum of the name; acquiring a free resource takes
  its lock, leaves the lock of the table free and one handle in the cache, and releasing it undoes
  this.
\<close>

section \<open>The table in memory\<close>

definition entry_addr :: "nat \<Rightarrow> u64" where
  "entry_addr i = NFP_RESOURCE_TBL_BASE + of_nat res_entry_size * of_nat i"

definition table_entry :: "mem \<Rightarrow> nat \<Rightarrow> nfp_resource_entry" where
  "table_entry m i = entry_of_bytes (mem_rd m (entry_addr i) 32)"

lemma unat_entry_addr:
  assumes "i < 128"
  shows "unat (entry_addr i) = 0x8100000000 + 32 * i"
proof -
  have e: "entry_addr i = of_nat (0x8100000000 + 32 * i)"
    by (simp add: entry_addr_def NFP_RESOURCE_TBL_BASE_def res_entry_size_def)
  show ?thesis unfolding e by (rule unat_of_nat64) (use assms in simp)
qed

lemma block_in_aperture:
  fixes a :: u64
  assumes "unat a mod 2 ^ k = 0" "k \<le> n" "sz = 2 ^ k" "k < 64"
  shows "(a + sz - 1) AND NOT (mask n) = a AND NOT (mask n)"
proof -
  have "unat (take_bit k a) = 0" unfolding unsigned_take_bit_eq unfolding take_bit_eq_mod by (rule assms(1))
  then have t: "take_bit k a = 0" by (simp only: unat_eq_0)
  have nb: "\<not> bit a j" if "j < k" for j
  proof -
    have "\<not> bit (take_bit k a) j" unfolding t by simp
    then show ?thesis using that by (simp add: bit_take_bit_iff)
  qed
  have "sz - 1 = mask k" using assms(3) by (simp add: mask_eq_exp_minus_1)
  then have "a + sz - 1 = a + mask k" by (simp add: add_diff_eq [symmetric])
  also have "a AND mask k = 0" using t by (simp add: take_bit_eq_mask)
  then have "a + mask k = a OR mask k" by (rule disjunctive_add_eq_or)
  finally show ?thesis using assms(2)
    by (intro bit_word_eqI) (auto simp: bit_and_iff bit_or_iff bit_not_iff_eq bit_mask_iff)
qed

lemma entry_place:
  assumes "i < 128"
  shows "lock_place (entry_addr i)" "5 \<le> n \<Longrightarrow> mu_range n (entry_addr i) 32"
proof -
  note u = unat_entry_addr [OF assms]
  have f: "unat (entry_addr i) = 32 * (0x408000000 + i)" "unat (entry_addr i) = 8 * (4 * (0x408000000 + i))"
    "unat (entry_addr i) = 4 * (8 * (0x408000000 + i))" unfolding u by simp_all
  have m: "unat (entry_addr i) mod 2 ^ 5 = 0" unfolding f(1) by simp
  have m8: "unat (entry_addr i) mod 8 = 0" unfolding f(2) by (rule mod_mult_self1_is_0)
  have m4: "unat (entry_addr i) mod 4 = 0" unfolding f(3) by (rule mod_mult_self1_is_0)
  have "unat (entry_addr i AND 7) = 0" "unat (entry_addr i AND 3) = 0"
    unfolding and_7 and_3 unsigned_take_bit_eq unfolding take_bit_eq_mod using m8 m4 by simp_all
  then have a: "entry_addr i AND 7 = 0" "entry_addr i AND 3 = 0" by (simp_all only: unat_eq_0)
  show "lock_place (entry_addr i)" using a u assms by (simp add: lock_place_def)
  assume n: "5 \<le> n"
  have "(entry_addr i + 32 - 1) AND NOT (mask n) = entry_addr i AND NOT (mask n)"
    by (rule block_in_aperture [OF m n]) simp_all
  then show "mu_range n (entry_addr i) 32" using a u assms by (simp add: mu_range_def)
qed

lemma entry_addr_inject: "i < 128 \<Longrightarrow> j < 128 \<Longrightarrow> entry_addr i = entry_addr j \<longleftrightarrow> i = j"
  unfolding word_unat_eq_iff by (simp only: unat_entry_addr) simp

lemma table_entry_key: "en_key (table_entry m i) = mem_word m (entry_addr i + 4)"
  by (simp add: table_entry_def entry_of_bytes_def mem_word_def drop_mem_rd take_mem_rd)

text \<open>The lock words of two entries are different words.\<close>

lemma entry_words:
  assumes "i < 128" "j < 128" "i \<noteq> j"
  shows "mem_word (set_word m (entry_addr i) v) (entry_addr j) = mem_word m (entry_addr j)"
    "mem_word (set_word m (entry_addr i) v) (entry_addr j + 4) = mem_word m (entry_addr j + 4)"
proof -
  have e: "entry_addr i = NFP_RESOURCE_TBL_BASE + of_nat (32 * i)" for i by (simp add: entry_addr_def res_entry_size_def)
  have "disj_range (entry_addr i) 4 (entry_addr j) 8"
    unfolding e by (rule disj_range_offsets [where L = 8192]) (use assms in auto)
  then have "disj_range (entry_addr i + of_nat 0) 4 (entry_addr j + of_nat 0) 4"
    "disj_range (entry_addr i + of_nat 0) 4 (entry_addr j + of_nat 4) 4"
    by (rule disj_range_sub; simp)+
  then show "mem_word (set_word m (entry_addr i) v) (entry_addr j) = mem_word m (entry_addr j)"
    "mem_word (set_word m (entry_addr i) v) (entry_addr j + 4) = mem_word m (entry_addr j + 4)"
    by (simp_all add: mem_word_def set_word_def mem_rd_wr_disj)
qed

text \<open>The handle that the entry makes of a request.\<close>

definition found_at :: "nfp_resource_entry \<Rightarrow> nat \<Rightarrow> nfp_resource \<Rightarrow> nfp_resource" where
  "found_at e p res = res\<lparr>rs_mutex := Some p,
     rs_cpp_id := NFP_CPP_ID (ucast (en_cpp_target e)) (ucast (en_cpp_action e)) (ucast (en_cpp_token e)),
     rs_addr := push_bit 8 (ucast (en_page_offset e)), rs_size := push_bit 8 (ucast (en_page_size e))\<rparr>"

section \<open>Handles on the engine\<close>

lemma mtx_links [simp]:
  "mtx_ok (v\<lparr>mtx_prev := a, mtx_next := b\<rparr>) = mtx_ok v"
  "lock_word m (v\<lparr>mtx_prev := a, mtx_next := b\<rparr>) = lock_word m v"
  "lock_key m (v\<lparr>mtx_prev := a, mtx_next := b\<rparr>) = lock_key m v"
  "put_lock (v\<lparr>mtx_prev := a, mtx_next := b\<rparr>) x m = put_lock v x m"
  by (simp_all add: mtx_ok_def lock_word_def lock_key_def put_lock_def)

definition depth_upd :: "nat \<Rightarrow> u16 \<Rightarrow> cache_list \<Rightarrow> cache_list" where
  "depth_upd p d = entry_upd p (\<lambda>v. v\<lparr>mtx_depth := d\<rparr>)"

lemma rep_depth:
  assumes "cache_rep s L" "(p, v) \<in> set L" "mtx_heap s p = Some mx"
  shows "cache_rep ((mtx_set p (mx\<lparr>mtx_depth := d\<rparr>) s)\<lparr>drv_world := w\<rparr>) (depth_upd p d L)"
  using rep_update [OF assms(1,2) link_free_I(2) [of d]] assms(3) by (simp add: rep_world depth_upd_def)

context mu_engine
begin

text \<open>The driver on the engine, with a cache of handles and a memory.\<close>

definition drv_ok :: "'h world \<Rightarrow> cache_list \<Rightarrow> mem \<Rightarrow> 'h drv \<Rightarrow> bool" where
  "drv_ok w0 L m s \<longleftrightarrow> cache_rep s L \<and> engine_same w0 (drv_world s) \<and> mu (w_hw (drv_world s)) = m"

lemma drv_okD:
  assumes "drv_ok w0 L m s"
  shows "cache_rep s L" "engine_ready (drv_world s)" "mu (w_hw (drv_world s)) = m"
    "nfp_cpp_interface (drv_world s) = nfp_cpp_interface w0" "w_cpp (drv_world s) = w_cpp w0"
    "w_fault (drv_world s) = w_fault w0"
  using assms engine_interface [of w0 "drv_world s"] by (simp_all add: drv_ok_def engine_same_def)

lemma drv_ok_goes:
  "drv_ok w0 L m s \<Longrightarrow> goes_on (drv_world s) m' w' \<Longrightarrow> cache_rep s' L' \<Longrightarrow> drv_world s' = w' \<Longrightarrow> drv_ok w0 L' m' s'"
  using engine_same_trans by (auto simp: drv_ok_def goes_on_def)

lemma handle_trylock:
  assumes s: "drv_ok w0 L m s" and p: "(p, v) \<in> set L" "mtx_ok v" "mtx_depth v = 0"
    and k: "mem_word m (mtx_address v + 4) = mtx_key v" "MUTEX_IS_UNLOCKED (mem_word m (mtx_address v))"
  obtains s' where "nfp_cpp_mutex_trylock M p s = (0, s')"
    "drv_ok w0 (depth_upd p 1 L) (set_word m (mtx_address v) (MUTEX_LOCKED (nfp_cpp_interface w0))) s'"
proof -
  note d = drv_okD [OF s]
  obtain a b where h: "mtx_heap s p = Some (v\<lparr>mtx_prev := a, mtx_next := b\<rparr>)"
    using seg_lookup d(1) p(1) unfolding cache_rep_def by blast
  let ?mx = "v\<lparr>mtx_prev := a, mtx_next := b\<rparr>"
  have mx: "mtx_ok ?mx" "mtx_depth ?mx = 0" using p by simp_all
  have "trylock_abs (nfp_cpp_interface w0) (mtx_key ?mx) (lock_key m ?mx) (lock_word m ?mx) = (None, MUTEX_LOCKED (nfp_cpp_interface w0))"
    using k by (simp add: trylock_abs_def lock_key_def lock_word_def)
  then obtain w' where r: "mutex_trylock M ?mx (drv_world s) = (0, ?mx\<lparr>mtx_depth := 1\<rparr>, w')"
    and g: "goes_on (drv_world s) (put_lock ?mx (MUTEX_LOCKED (nfp_cpp_interface w0)) m) w'"
    using trylock_result [OF d(2) mx] unfolding d(3,4) by (auto simp: op_result_def d(3))
  have ok: "drv_ok w0 (depth_upd p 1 L) (set_word m (mtx_address v) (MUTEX_LOCKED (nfp_cpp_interface w0)))
      ((mtx_set p (?mx\<lparr>mtx_depth := 1\<rparr>) s)\<lparr>drv_world := w'\<rparr>)"
    by (rule drv_ok_goes [OF s _ rep_depth [OF d(1) p(1) h]]) (use g in \<open>simp_all add: put_lock_def\<close>)
  show thesis by (rule that [OF trylock_handle [OF h r] ok])
qed

lemma handle_unlock:
  assumes s: "drv_ok w0 L m s" and p: "(p, v) \<in> set L" "mtx_ok v" "mtx_depth v = 1"
    and k: "mem_word m (mtx_address v + 4) = mtx_key v" "mem_word m (mtx_address v) = MUTEX_LOCKED (nfp_cpp_interface w0)"
  obtains s' where "nfp_cpp_mutex_unlock M p s = (0, s')"
    "drv_ok w0 (depth_upd p 0 L) (set_word m (mtx_address v) 0) s'"
proof -
  note d = drv_okD [OF s]
  obtain a b where h: "mtx_heap s p = Some (v\<lparr>mtx_prev := a, mtx_next := b\<rparr>)"
    using seg_lookup d(1) p(1) unfolding cache_rep_def by blast
  let ?mx = "v\<lparr>mtx_prev := a, mtx_next := b\<rparr>"
  have mx: "mtx_ok ?mx" "mtx_depth ?mx \<le> 1" using p by simp_all
  have "unlock_abs (nfp_cpp_interface w0) (mtx_key ?mx) (lock_key m ?mx) (lock_word m ?mx) = (None, 0)"
    using k by (simp add: unlock_abs_def lock_key_def lock_word_def)
  then obtain w' where r: "mutex_unlock M ?mx (drv_world s) = (0, ?mx\<lparr>mtx_depth := 0\<rparr>, w')"
    and g: "goes_on (drv_world s) (put_lock ?mx 0 m) w'"
    using unlock_result [OF d(2) mx] unfolding d(3,4) by (auto simp: op_result_def d(3))
  have ok: "drv_ok w0 (depth_upd p 0 L) (set_word m (mtx_address v) 0) ((mtx_set p (?mx\<lparr>mtx_depth := 0\<rparr>) s)\<lparr>drv_world := w'\<rparr>)"
    by (rule drv_ok_goes [OF s _ rep_depth [OF d(1) p(1) h]]) (use g in \<open>simp_all add: put_lock_def\<close>)
  show thesis
    by (rule that [OF _ ok]) (use h r in \<open>simp add: nfp_cpp_mutex_unlock_def on_mutex_def\<close>)
qed

text \<open>A free lock is taken without waiting.\<close>

lemma handle_lock:
  assumes "nfp_cpp_mutex_trylock M p s = (0, s')"
  shows "nfp_cpp_mutex_lock M envs p s = Some (0, s')"
  using assms by (simp add: nfp_cpp_mutex_lock.simps [of M envs])

lemma handle_free:
  assumes s: "drv_ok w0 L m s" and p: "(p, v) \<in> set L" "mtx_usage v = 1"
  shows "drv_ok w0 (entry_drop p L) m (nfp_cpp_mutex_free p s)"
  using free_refines [OF drv_okD(1) [OF s] p(1)] s p(2) by (simp add: drv_ok_def cache_free_def)

text \<open>On the engine a lock whose key matches gets a handle.\<close>

lemma handle_alloc:
  assumes s: "drv_ok w0 L m s" and model: "NFP_CPP_MODEL_IS_6000 (model (w_cpp w0))"
    and f: "find (entry_matches 7 a) L = None" and a: "lock_place a" "mem_word m (a + 4) = key"
  obtains p s' where "nfp_cpp_mutex_alloc M 7 a key s = Some (Some p, s')" "p \<notin> fst ` set L"
    "drv_ok w0 ((p, new_mutex a key) # L) m s'"
proof -
  note d = drv_okD [OF s]
  have m0: "model (w_cpp w0) \<noteq> 0" using model by (auto simp: NFP_CPP_MODEL_IS_6000_def NFP_CPP_MODEL_CHIP_of_def)
  then have md: "nfp_cpp_model M (drv_world s) = (model (w_cpp w0), drv_world s)" by (simp add: nfp_cpp_model_def d(5))
  have wk: "cache_walk (mtx_heap s) 7 a (mutex_cache s) = Some None" using cache_walk_rep [OF d(1)] f by simp
  have va: "nfp_cpp_mutex_validate (model (w_cpp w0)) 7 a = Inr ()"
    using model a(1) by (simp add: nfp_cpp_mutex_validate_def lock_place_def)
  have ok: "mtx_ok (new_mutex a key)" "mtx_address (new_mutex a key) = a" "ucast (mtx_target (new_mutex a key)) = (7 :: u32)"
    using a(1) by (simp_all add: mtx_ok_def new_mutex_def)
  obtain w1 where r: "nfp_cpp_readl M (atomic_read_id 7) (a + 4) (drv_world s) = (Inr key, w1)" "goes_on (drv_world s) m w1"
    using read_key [OF d(2) ok(1)] a(2) unfolding ok(2,3) d(3) lock_key_def by metis
  have ml: "c_malloc w1 = (True, w1)"
    using goes_onD(1) [OF r(2)] by (simp add: engine_ready_def bus_ready_def c_malloc_def)
  have nl: "new_mutex a key = no_links (new_mutex a key)" by (simp add: new_mutex_def no_links_def)
  have rep: "cache_rep (s\<lparr>drv_world := w1\<rparr>) L" using d(1) by (simp add: rep_world)
  obtain s' where lk: "mutex_link (new_mutex a key) (s\<lparr>drv_world := w1\<rparr>) = (mtx_brk s, s')"
    "cache_rep s' ((mtx_brk s, new_mutex a key) # L)" "drv_world s' = w1"
    using link_rep [OF rep nl] by auto
  have al: "nfp_cpp_mutex_alloc M 7 a key s = Some (Some (mtx_brk s), s')"
    using lk(1) by (simp add: nfp_cpp_mutex_alloc_def md wk va r(1) ml new_mutex_def)
  show thesis
    by (rule that [OF al _ drv_ok_goes [OF s r(2) lk(2,3)]]) (use rep_fresh [OF d(1)] in simp)
qed

section \<open>The search\<close>

lemma read_entry_ok:
  assumes s: "drv_ok w0 L m s" and i: "i < 128"
  obtains s' where "read_entry M (entry_addr i) s = (32, table_entry m i, s')" "drv_ok w0 L m s'"
proof -
  note d = drv_okD [OF s]
  have rng: "mu_range n (entry_addr i) 32" using entry_place(2) [OF i] big by simp
  obtain w' where r: "nfp_cpp_read M (atomic_read_id 7) (entry_addr i) 32 (drv_world s)
      = (32, mem_rd m (entry_addr i) 32, w')" "engine_same (drv_world s) w'" "mu (w_hw w') = m"
    using mu_read [OF d(2) rng] unfolding d(3) by auto
  show thesis
  proof (rule that [of "s\<lparr>drv_world := w'\<rparr>"])
    show "read_entry M (entry_addr i) s = (32, table_entry m i, s\<lparr>drv_world := w'\<rparr>)"
      using r(1) by (simp add: read_entry_def NFP_RESOURCE_TBL_TARGET_def res_entry_size_def table_entry_def)
    show "drv_ok w0 L m (s\<lparr>drv_world := w'\<rparr>)"
      using s r(2,3) engine_same_trans by (auto simp: drv_ok_def rep_world)
  qed
qed

lemma search_result:
  assumes model: "NFP_CPP_MODEL_IS_6000 (model (w_cpp w0))" and s: "drv_ok w0 L m s" and "is": "\<forall>i\<in>set is. i < 128"
    and f: "\<forall>i\<in>set is. en_key (table_entry m i) = key \<longrightarrow> find (entry_matches 7 (entry_addr i)) L = None"
  shows "(case find (\<lambda>i. en_key (table_entry m i) = key) is of
      None \<Rightarrow> \<exists>s'. resource_search M key is res s = Some (- errno_code ENOENT, res, s') \<and> drv_ok w0 L m s'
    | Some i \<Rightarrow> \<exists>p s'. resource_search M key is res s = Some (0, found_at (table_entry m i) p res, s')
        \<and> p \<notin> fst ` set L \<and> drv_ok w0 ((p, new_mutex (entry_addr i) key) # L) m s')"
  using s "is" f
proof (induction "is" arbitrary: s)
  case Nil
  then show ?case by auto
next
  case (Cons i "is")
  have i: "i < 128" using Cons.prems(2) by simp
  obtain s1 where r: "read_entry M (entry_addr i) s = (32, table_entry m i, s1)" "drv_ok w0 L m s1"
    by (rule read_entry_ok [OF Cons.prems(1) i])
  have step: "resource_search M key (i # is) res s =
      (if en_key (table_entry m i) \<noteq> key then resource_search M key is res s1
       else case nfp_cpp_mutex_alloc M 7 (entry_addr i) key s1 of
         None \<Rightarrow> None
       | Some (x, s) \<Rightarrow> Some (0, res\<lparr>rs_mutex := x,
           rs_cpp_id := NFP_CPP_ID (ucast (en_cpp_target (table_entry m i))) (ucast (en_cpp_action (table_entry m i)))
             (ucast (en_cpp_token (table_entry m i))),
           rs_addr := push_bit 8 (ucast (en_page_offset (table_entry m i))),
           rs_size := push_bit 8 (ucast (en_page_size (table_entry m i)))\<rparr>, s))"
    using r(1) by (simp add: entry_addr_def NFP_RESOURCE_TBL_TARGET_def) (simp add: res_entry_size_def)
  show ?case
  proof (cases "en_key (table_entry m i) = key")
    case False
    then have e: "resource_search M key (i # is) res s = resource_search M key is res s1"
      "find (\<lambda>i. en_key (table_entry m i) = key) (i # is) = find (\<lambda>i. en_key (table_entry m i) = key) is"
      using step by simp_all
    show ?thesis unfolding e by (rule Cons.IH [OF r(2)]) (use Cons.prems(2,3) in simp_all)
  next
    case True
    have n: "find (entry_matches 7 (entry_addr i)) L = None" using Cons.prems(3) True by simp
    obtain p s2 where a: "nfp_cpp_mutex_alloc M 7 (entry_addr i) key s1 = Some (Some p, s2)" "p \<notin> fst ` set L"
      "drv_ok w0 ((p, new_mutex (entry_addr i) key) # L) m s2"
      by (rule handle_alloc [OF r(2) model n entry_place(1) [OF i] True [unfolded table_entry_key]])
    have e: "resource_search M key (i # is) res s = Some (0, found_at (table_entry m i) p res, s2)"
      "find (\<lambda>i. en_key (table_entry m i) = key) (i # is) = Some i"
      using step a(1) True by (simp_all add: found_at_def)
    show ?thesis unfolding e option.case by (intro exI conjI) (rule refl a(2,3))+
  qed
qed

end

section \<open>Acquire and release\<close>

lemma entry_zero: "entry_addr 0 = NFP_RESOURCE_TBL_BASE"
  by (simp add: entry_addr_def)

lemma table_entry_other:
  assumes "i < 128" "i \<noteq> 0"
  shows "table_entry (set_word m (entry_addr 0) v) i = table_entry m i"
proof -
  have e: "entry_addr i = NFP_RESOURCE_TBL_BASE + of_nat (32 * i)" for i by (simp add: entry_addr_def res_entry_size_def)
  have "disj_range (entry_addr 0) 4 (entry_addr i) 32"
    unfolding e by (rule disj_range_offsets [where L = 8192]) (use assms in auto)
  then show ?thesis by (simp add: table_entry_def set_word_def mem_rd_wr_disj)
qed

lemma table_key_kept: "i < 128 \<Longrightarrow> en_key (table_entry (set_word m (entry_addr 0) v) i) = en_key (table_entry m i)"
  using entry_words(2) [of 0 i m v] mem_word_next [of m "entry_addr 0" v]
  by (cases "i = 0") (simp_all add: table_entry_key)

lemma find_kept:
  "find (\<lambda>i. en_key (table_entry (set_word m (entry_addr 0) v) i) = key) [0..<128]
     = find (\<lambda>i. en_key (table_entry m i) = key) [0..<128]"
  by (rule find_cong) (simp_all add: table_key_kept)

definition dev_mutex_of :: nfp_cpp_mutex where
  "dev_mutex_of = new_mutex (entry_addr 0) NFP_RESOURCE_TBL_KEY"

lemma new_mutex_fields [simp]:
  "mtx_address (new_mutex a key) = a" "mtx_key (new_mutex a key) = key" "mtx_depth (new_mutex a key) = 0"
  "mtx_usage (new_mutex a key) = 1" "mtx_target (new_mutex a key) = 7" "mtx_ok (new_mutex a key) = lock_place a"
  by (simp_all add: new_mutex_def mtx_ok_def)

text \<open>What the caller asks for is in the table, and free.\<close>

definition resource_free :: "mem \<Rightarrow> u8 list \<Rightarrow> nat \<Rightarrow> bool" where
  "resource_free m name i \<longleftrightarrow>
     mem_word m (entry_addr 0 + 4) = NFP_RESOURCE_TBL_KEY \<and> MUTEX_IS_UNLOCKED (mem_word m (entry_addr 0))
     \<and> padded 8 (take 8 name) \<noteq> padded 8 NFP_RESOURCE_TBL_NAME
     \<and> find (\<lambda>i. en_key (table_entry m i) = nfp_crc32_posix (padded 8 (take 8 name))) [0..<128] = Some i
     \<and> i \<noteq> 0 \<and> MUTEX_IS_UNLOCKED (mem_word m (entry_addr i))"

context mu_engine
begin

text \<open>The state while the table is locked and after the resource was locked.\<close>

lemma try_acquire_free:
  assumes model: "NFP_CPP_MODEL_IS_6000 (model (w_cpp w0))" and fr: "resource_free m name i"
    and s: "drv_ok w0 [(q, dev_mutex_of)] m s" and nm: "rs_name res = take 8 name"
  defines "ifc \<equiv> nfp_cpp_interface w0" and "key \<equiv> nfp_crc32_posix (padded 8 (take 8 name))"
  shows "\<exists>p s'. nfp_resource_try_acquire M envs q res s = Some (0, found_at (table_entry m i) p res, s') \<and> p \<noteq> q
    \<and> drv_ok w0 [(p, (new_mutex (entry_addr i) key)\<lparr>mtx_depth := 1\<rparr>), (q, dev_mutex_of)]
        (set_word (set_word (set_word m (entry_addr 0) (MUTEX_LOCKED ifc)) (entry_addr i) (MUTEX_LOCKED ifc)) (entry_addr 0) 0) s'"
proof -
  let ?k = "nfp_crc32_posix (padded 8 (take 8 name))" and ?l = "MUTEX_LOCKED (nfp_cpp_interface w0)"
  have i: "i < 128" "i \<noteq> 0" and k: "mem_word m (entry_addr i + 4) = ?k"
    using fr by (auto simp: resource_free_def find_Some_iff table_entry_key)
  have ne: "entry_addr i \<noteq> entry_addr 0" using entry_addr_inject [OF i(1), of 0] i(2) by simp
  let ?m1 = "set_word m (entry_addr 0) ?l" and ?v = "new_mutex (entry_addr i) ?k"
  obtain s1 where l: "nfp_cpp_mutex_trylock M q s = (0, s1)" "drv_ok w0 (depth_upd q 1 [(q, dev_mutex_of)]) ?m1 s1"
  proof (rule handle_trylock [OF s, of q dev_mutex_of])
  qed (use fr entry_place(1) [of 0] that in \<open>simp_all add: dev_mutex_of_def resource_free_def\<close>)
  define L1 where "L1 = [(q, dev_mutex_of\<lparr>mtx_depth := 1\<rparr>)]"
  have L1: "depth_upd q 1 [(q, dev_mutex_of)] = L1" by (simp add: depth_upd_def entry_upd_def L1_def)
  have f: "find (\<lambda>i. en_key (table_entry ?m1 i) = ?k) [0..<128] = Some i"
    unfolding find_kept using fr by (simp add: resource_free_def)
  have cl: "find (entry_matches 7 (entry_addr j)) L1 = None" if "j < 128" "en_key (table_entry ?m1 j) = ?k" for j
  proof -
    have "\<forall>l<i. en_key (table_entry ?m1 l) \<noteq> ?k" using f by (auto simp: find_Some_iff)
    then have "j \<noteq> 0" using that(2) i(2) by (metis gr0I)
    then show ?thesis using entry_addr_inject [OF that(1), of 0] by (simp add: L1_def entry_matches_def dev_mutex_of_def)
  qed
  have sr: "case Some i of
      None \<Rightarrow> \<exists>s'. resource_search M ?k [0..<128] res s1 = Some (- errno_code ENOENT, res, s') \<and> drv_ok w0 L1 ?m1 s'
    | Some i \<Rightarrow> \<exists>p s'. resource_search M ?k [0..<128] res s1 = Some (0, found_at (table_entry ?m1 i) p res, s')
        \<and> p \<notin> fst ` set L1 \<and> drv_ok w0 ((p, new_mutex (entry_addr i) ?k) # L1) ?m1 s'"
    unfolding f [symmetric] by (rule search_result [OF model l(2) [unfolded L1]]) (use cl in auto)
  obtain p s2 where r: "resource_search M ?k [0..<128] res s1 = Some (0, found_at (table_entry m i) p res, s2)" "p \<noteq> q"
    "drv_ok w0 ((p, ?v) # L1) ?m1 s2"
    using sr table_entry_other [OF i] by (auto simp: L1_def)
  have fnd: "nfp_cpp_resource_find M res s1 = Some (0, found_at (table_entry m i) p res, s2)"
    using r(1) fr nm by (simp add: nfp_cpp_resource_find_def resource_free_def NFP_RESOURCE_ENTRY_NAME_SZ_def
        NFP_RESOURCE_TBL_ENTRIES_def NFP_RESOURCE_TBL_SIZE_def res_entry_size_def padded_def)
  let ?m2 = "set_word ?m1 (entry_addr i) ?l"
  obtain s3 where t: "nfp_cpp_mutex_trylock M p s2 = (0, s3)" "drv_ok w0 (depth_upd p 1 ((p, ?v) # L1)) ?m2 s3"
  proof (rule handle_trylock [OF r(3), of p ?v])
  qed (use fr entry_place(1) [OF i(1)] entry_words [of 0 i] i k that in \<open>simp_all add: resource_free_def\<close>)
  have L2: "depth_upd p 1 ((p, ?v) # L1) = (p, ?v\<lparr>mtx_depth := 1\<rparr>) # L1"
    using r(2) by (simp add: depth_upd_def entry_upd_def L1_def)
  have kq: "mem_word ?m2 (entry_addr 0) = ?l" "mem_word ?m2 (entry_addr 0 + 4) = NFP_RESOURCE_TBL_KEY"
    using entry_words [of i 0 ?m1] i fr by (simp_all add: mem_word_next resource_free_def)
  obtain s4 where u: "nfp_cpp_mutex_unlock M q s3 = (0, s4)"
    "drv_ok w0 (depth_upd q 0 ((p, ?v\<lparr>mtx_depth := 1\<rparr>) # L1)) (set_word ?m2 (entry_addr 0) 0) s4"
  proof (rule handle_unlock [OF t(2) [unfolded L2], of q "dev_mutex_of\<lparr>mtx_depth := 1\<rparr>"])
  qed (use kq entry_place(1) [of 0] that in \<open>simp_all add: L1_def dev_mutex_of_def\<close>)
  have L3: "depth_upd q 0 ((p, ?v\<lparr>mtx_depth := 1\<rparr>) # L1) = [(p, ?v\<lparr>mtx_depth := 1\<rparr>), (q, dev_mutex_of)]"
    using r(2) by (simp add: depth_upd_def entry_upd_def L1_def dev_mutex_of_def new_mutex_def)
  have "nfp_resource_try_acquire M envs q res s = Some (0, found_at (table_entry m i) p res, s4)"
    using handle_lock [OF l(1)] fnd t(1) u(1)
    by (simp add: nfp_resource_try_acquire_def trylock_ptr_def unlock_ptr_def found_at_def)
  then show ?thesis using r(2) u(2) unfolding L3 ifc_def key_def by blast
qed

theorem acquire_free:
  assumes model: "NFP_CPP_MODEL_IS_6000 (model (w_cpp (drv_world s)))" and fr: "resource_free (mu (w_hw (drv_world s))) name i"
    and rdy: "engine_ready (drv_world s)" and empty: "cache_rep s []"
  defines "ifc \<equiv> nfp_cpp_interface (drv_world s)" and "key \<equiv> nfp_crc32_posix (padded 8 (take 8 name))"
  shows "\<exists>p s'. nfp_resource_acquire M envs pause name s = Some (Some (found_at (table_entry (mu (w_hw (drv_world s))) i) p
        \<lparr>rs_name = take 8 name, rs_cpp_id = 0, rs_addr = 0, rs_size = 0, rs_mutex = None\<rparr>), s')
    \<and> drv_ok (drv_world s) [(p, (new_mutex (entry_addr i) key)\<lparr>mtx_depth := 1\<rparr>)]
        (set_word (set_word (set_word (mu (w_hw (drv_world s))) (entry_addr 0) (MUTEX_LOCKED ifc)) (entry_addr i) (MUTEX_LOCKED ifc))
          (entry_addr 0) 0) s'"
proof -
  let ?w = "drv_world s" and ?m = "mu (w_hw (drv_world s))"
  let ?res = "\<lparr>rs_name = take 8 name, rs_cpp_id = 0, rs_addr = 0, rs_size = 0, rs_mutex = None\<rparr>"
  have s: "drv_ok ?w [] ?m s" using rdy empty by (simp add: drv_ok_def engine_same_def)
  have ml: "c_malloc ?w = (True, ?w)" using rdy by (simp add: engine_ready_def bus_ready_def c_malloc_def)
  have k0: "mem_word ?m (entry_addr 0 + 4) = NFP_RESOURCE_TBL_KEY" using fr by (simp add: resource_free_def)
  obtain q s1 where a: "nfp_cpp_mutex_alloc M 7 (entry_addr 0) NFP_RESOURCE_TBL_KEY s = Some (Some q, s1)"
    "drv_ok ?w [(q, dev_mutex_of)] ?m s1"
    by (rule handle_alloc [OF s model _ entry_place(1) k0]) (simp_all add: dev_mutex_of_def)
  have nm: "rs_name ?res = take 8 name" by simp
  obtain p s2 where t: "nfp_resource_try_acquire M (envs 0) q ?res s1 = Some (0, found_at (table_entry ?m i) p ?res, s2)" "p \<noteq> q"
    and d: "drv_ok ?w [(p, (new_mutex (entry_addr i) key)\<lparr>mtx_depth := 1\<rparr>), (q, dev_mutex_of)]
        (set_word (set_word (set_word ?m (entry_addr 0) (MUTEX_LOCKED ifc)) (entry_addr i) (MUTEX_LOCKED ifc)) (entry_addr 0) 0) s2"
    using try_acquire_free [OF model fr a(2) nm, of "envs 0"] unfolding ifc_def key_def by blast
  have lp: "acquire_loop M envs pause q 0 ?res s1 = Some (0, found_at (table_entry ?m i) p ?res, s2)"
    using t(1) by (simp add: acquire_tries_once)
  have q: "(q, dev_mutex_of) \<in> set [(p, (new_mutex (entry_addr i) key)\<lparr>mtx_depth := 1\<rparr>), (q, dev_mutex_of)]" by simp
  have dr: "entry_drop q [(p, (new_mutex (entry_addr i) key)\<lparr>mtx_depth := 1\<rparr>), (q, dev_mutex_of)]
      = [(p, (new_mutex (entry_addr i) key)\<lparr>mtx_depth := 1\<rparr>)]" using t(2) by (simp add: entry_drop_def)
  have u: "mtx_usage dev_mutex_of = 1" by (simp add: dev_mutex_of_def)
  have "s\<lparr>drv_world := ?w\<rparr> = s" by simp
  then have "nfp_resource_acquire M envs pause name s = Some (Some (found_at (table_entry ?m i) p ?res), nfp_cpp_mutex_free q s2)"
    using a(1) lp unfolding nfp_resource_acquire_def ml
    by (simp add: NFP_RESOURCE_TBL_TARGET_def NFP_RESOURCE_ENTRY_NAME_SZ_def entry_zero)
  then show ?thesis using handle_free [OF d q u] unfolding dr by blast
qed

theorem release_held:
  assumes s: "drv_ok w0 [(p, (new_mutex (entry_addr i) key)\<lparr>mtx_depth := 1\<rparr>)] m s" and i: "i < 128"
    and k: "mem_word m (entry_addr i + 4) = key" "mem_word m (entry_addr i) = MUTEX_LOCKED (nfp_cpp_interface w0)"
    and p: "rs_mutex res = Some p"
  shows "drv_ok w0 [] (set_word m (entry_addr i) 0) (nfp_resource_release M res s)"
proof -
  let ?v = "(new_mutex (entry_addr i) key)\<lparr>mtx_depth := 1\<rparr>"
  obtain s1 where u: "nfp_cpp_mutex_unlock M p s = (0, s1)" "drv_ok w0 (depth_upd p 0 [(p, ?v)]) (set_word m (entry_addr i) 0) s1"
  proof (rule handle_unlock [OF s, of p ?v])
  qed (use k entry_place(1) [OF i] that in simp_all)
  have L: "depth_upd p 0 [(p, ?v)] = [(p, ?v\<lparr>mtx_depth := 0\<rparr>)]" by (simp add: depth_upd_def entry_upd_def)
  have "drv_ok w0 (entry_drop p [(p, ?v\<lparr>mtx_depth := 0\<rparr>)]) (set_word m (entry_addr i) 0) (nfp_cpp_mutex_free p s1)"
    by (rule handle_free [OF u(2) [unfolded L], of p "?v\<lparr>mtx_depth := 0\<rparr>"]) simp_all
  then show ?thesis using u(1) p by (simp add: nfp_resource_release_def unlock_ptr_def free_ptr_def entry_drop_def)
qed

end

end
