(* ===== verification/Mu_Device.thy ===== *)
theory Mu_Device
  imports Mutex_Exclusion Resource_Proof Cpp_Start_Proof
begin

text \<open>
  A device that meets the contract \<open>mu_engine\<close>: a window of eight apertures of 16 MiB (a 128 MiB
  resource) at any address \<open>W\<close>, the BAR registers in aperture 0 and an atomic engine in front of
  one memory unit behind the others. It is the device of the witnesses about locks.
\<close>

record mu_hw =
  e_csr :: "nat \<Rightarrow> u32"
  e_mem :: mem

definition mu_at :: "u64 \<Rightarrow> mu_hw \<Rightarrow> cpp_port \<times> u64" where
  "mu_at off h =
     (let c = e_csr h (unat off div 2 ^ 24) in (p2c_port c, p2c_base c + of_nat (unat off mod 2 ^ 24)))"

definition mu_mmio :: "u64 \<Rightarrow> mu_hw mmio" where
  "mu_mmio W = \<lparr>
     io_rd32 = (\<lambda>a h. let (p, x) = mu_at (a - W) h in (mem_word (e_mem h) x, h\<lparr>e_mem := mu_effect p x (e_mem h)\<rparr>)),
     io_wr32 = (\<lambda>a v h.
       if a - W < 0x1000000 then h\<lparr>e_csr := (e_csr h)(unat (a - W - 0x30000) div 4 := v)\<rparr>
       else let (p, x) = mu_at (a - W) h in h\<lparr>e_mem := set_word (e_mem h) x v\<rparr>),
     io_rd64 = (\<lambda>a h. let (p, x) = mu_at (a - W) h in (le_word (mem_rd (e_mem h) x 8), h)),
     io_wr64 = (\<lambda>a v h. let (p, x) = mu_at (a - W) h in h\<lparr>e_mem := mem_wr (e_mem h) x (le_bytes 8 v)\<rparr>)\<rparr>"

lemma mu_at_slot:
  assumes "x < 8" "k < 2 ^ 24"
  shows "mu_at (of_nat (x * 2 ^ 24 + k)) h =
    (p2c_port (e_csr h x), p2c_base (e_csr h x) + of_nat k)" "unat (of_nat (x * 2 ^ 24 + k) :: u64) = x * 2 ^ 24 + k"
proof -
  have "x * 2 ^ 24 \<le> 7 * 2 ^ 24" using assms(1) by simp
  then have lt: "x * 2 ^ 24 + k < 2 ^ 64" using assms(2) by simp
  show u: "unat (of_nat (x * 2 ^ 24 + k) :: u64) = x * 2 ^ 24 + k" by (rule unat_of_nat64 [OF lt])
  have "(x * 2 ^ 24 + k) div 2 ^ 24 = x" "(x * 2 ^ 24 + k) mod 2 ^ 24 = k" using assms(2) by simp_all
  then show "mu_at (of_nat (x * 2 ^ 24 + k)) h = (p2c_port (e_csr h x), p2c_base (e_csr h x) + of_nat k)"
    by (simp only: mu_at_def u Let_def)
qed

interpretation eng: mu_engine "mu_mmio W" W 24 e_csr e_mem for W
proof (unfold_locales, goal_cases)
  case (1 x c h)
  have "W + CFG_BAR_PCIETOCPPEXPBAR 0 x - W - 0x30000 = CFG_BAR_PCIETOCPPEXPBAR 0 x - 0x30000" by simp
  moreover have "CFG_BAR_PCIETOCPPEXPBAR 0 x < 0x1000000" using csr_addr(1) [OF 1] by (simp add: word_less_nat_alt)
  ultimately show ?case using csr_addr(2) [OF 1] by (simp add: mu_mmio_def)
next
  case 2
  show ?case by simp
next
  case (3 x k h v h')
  then show ?case using mu_at_slot(1) [of x k h] by (auto simp: mu_mmio_def)
next
  case (4 x k h h' v)
  have k: "k < 2 ^ 24" using 4(3) by simp
  note p = mu_at_slot [OF 4(2) k]
  have "\<not> (of_nat (x * 2 ^ 24 + k) :: u64) < 0x1000000"
    unfolding word_less_nat_alt p(2) using 4(1) by simp
  then show ?case using 4(5) p(1) [of h] by (simp add: mu_mmio_def set_word_def)
qed

section \<open>A device that was started\<close>

definition mu_pcie :: nfp_pcie_user where
  "mu_pcie = nfp_enable_bars \<lparr>bars = replicate 7 \<lparr>barcfg = 0, bar_base = 0, bar_mask = 0, bitsize = 0,
     bar_index = 0, bar_lock = False, bar_csr = 0, bar_iomem = 0\<rparr>, busdev = [], barsz = 27, cfg = dev_base\<rparr>"

text \<open>The driver of the master with interface \<open>i\<close>, on an NFP6000.\<close>

definition mu_cpp :: "u16 \<Rightarrow> nfp_cpp" where
  "mu_cpp i = (cpp_zero False)\<lparr>model := 0x62000010, interface := ucast i\<rparr>"

definition mu_world :: "u16 \<Rightarrow> mem \<Rightarrow> mu_hw world" where
  "mu_world i m = \<lparr>w_cpp = mu_cpp i, w_pcie = mu_pcie, w_errno = 0, w_mallocs = [], w_fault = False,
     w_hw = \<lparr>e_csr = (\<lambda>_. 0), e_mem = m\<rparr>\<rparr>"

lemma mu_ready: "bus_ready 24 (mu_world i m)" "cfg (w_pcie (mu_world i m)) = dev_base" "nfp_cpp_interface (mu_world i m) = i"
proof -
  let ?p = "\<lparr>bars = replicate 7 \<lparr>barcfg = 0, bar_base = 0, bar_mask = 0, bitsize = 0,
     bar_index = 0, bar_lock = False, bar_csr = 0, bar_iomem = 0\<rparr>, busdev = [], barsz = 27, cfg = dev_base\<rparr>"
  have c: "cfg ?p \<noteq> 0" "unat (cfg ?p) + 8 * 2 ^ 24 \<le> 2 ^ 64" by (simp_all add: dev_base_def)
  have l: "length (bars ?p) = 7" "barsz ?p = int 24 + 3" "(19 :: nat) \<le> 24" "(24 :: nat) \<le> 28" by simp_all
  have "pcie_wf 24 mu_pcie" "\<forall>b\<in>{1, 2, 3}. \<not> bar_lock (bars mu_pcie ! b)"
    unfolding mu_pcie_def by (rule enable_bars_wf [OF l c])+
  then show "bus_ready 24 (mu_world i m)" by (simp add: bus_ready_def mu_world_def)
  show "cfg (w_pcie (mu_world i m)) = dev_base"
    by (simp add: mu_world_def mu_pcie_def nfp_enable_bars_def bar_counters_list enable_bar_def Let_def)
  show "nfp_cpp_interface (mu_world i m) = i"
    by (simp add: nfp_cpp_interface_def mu_world_def mu_cpp_def) (intro bit_word_eqI; simp add: bit_unsigned_iff)
qed

text \<open>The first entry of the resource table, with a free lock and key 0.\<close>

definition res_base :: u64 where "res_base = 0x8100000000"

definition res_mutex :: nfp_cpp_mutex where
  "res_mutex = \<lparr>mtx_target = 7, mtx_depth = 0, mtx_address = res_base, mtx_key = 0, mtx_usage = 1,
     mtx_prev = None, mtx_next = None\<rparr>"

definition mu_master :: "u16 \<Rightarrow> mu_hw master" where
  "mu_master i = \<lparr>ms_world = mu_world i (\<lambda>_. 0), ms_mtx = res_mutex, ms_pc = Rest\<rparr>"

lemma res_place: "lock_place res_base"
  by (simp add: lock_place_def res_base_def)

lemma mem_word_zero: "mem_word (\<lambda>_. 0) a = 0"
proof -
  have "mem_rd (\<lambda>_. 0) a 4 = le_bytes 4 (0 :: u32)" by (simp add: mem_rd_def eval_nat_numeral)
  then show ?thesis by (simp add: mem_word_def)
qed

lemma mu_masters: "\<forall>j. idle_master 24 dev_base res_base 0 j (mu_master j)"
  by (simp add: idle_master_def mu_master_def mu_ready res_mutex_def)

section \<open>A table with one resource\<close>

text \<open>The name \<open>"a"\<close> and a memory in which entry 1 of the table has its checksum.\<close>

definition a_name :: "u8 list" where "a_name = [0x61]"

definition a_key :: u32 where "a_key = nfp_crc32_posix (padded 8 (take 8 a_name))"

definition a_table :: mem where "a_table = set_word (\<lambda>_. 0) (entry_addr 1 + 4) a_key"

lemma a_key_nonzero: "a_key \<noteq> 0"
  by code_simp

lemma a_table_words:
  "mem_word a_table (entry_addr 1 + 4) = a_key" "mem_word a_table (entry_addr 1) = 0"
  "mem_word a_table (entry_addr 0 + 4) = 0" "mem_word a_table (entry_addr 0) = 0"
proof -
  have e: "entry_addr i + 4 = NFP_RESOURCE_TBL_BASE + of_nat (32 * i + 4)" "entry_addr i = NFP_RESOURCE_TBL_BASE + of_nat (32 * i)"
    for i by (simp_all add: entry_addr_def res_entry_size_def)
  have "mem_word (set_word m (entry_addr 1 + 4) v) (NFP_RESOURCE_TBL_BASE + of_nat x) = mem_word m (NFP_RESOURCE_TBL_BASE + of_nat x)"
    if "x + 4 \<le> 36" for x m v
  proof -
    have "disj_range (NFP_RESOURCE_TBL_BASE + of_nat (32 * 1 + 4)) 4 (NFP_RESOURCE_TBL_BASE + of_nat x) 4"
      by (rule disj_range_offsets [where L = 8192]) (use that in simp_all)
    then show ?thesis unfolding mem_word_def set_word_def e by (subst mem_rd_wr_disj) (simp_all add: add.commute)
  qed
  from this [of 32] this [of 4] this [of 0] show "mem_word a_table (entry_addr 1) = 0"
    "mem_word a_table (entry_addr 0 + 4) = 0" "mem_word a_table (entry_addr 0) = 0"
    unfolding a_table_def e by (simp_all add: mem_word_zero)
  show "mem_word a_table (entry_addr 1 + 4) = a_key" by (simp add: a_table_def)
qed

lemma a_table_free: "resource_free a_table a_name 1"
proof -
  have "find (\<lambda>i. en_key (table_entry a_table i) = a_key) [0..<128] = Some 1"
    unfolding find_Some_iff table_entry_key using a_table_words a_key_nonzero by (intro exI [of _ 1]) auto
  moreover have "padded 8 (take 8 a_name) \<noteq> padded 8 NFP_RESOURCE_TBL_NAME" by code_simp
  ultimately show ?thesis using a_table_words word_marks(3)
    by (simp add: resource_free_def a_key_def NFP_RESOURCE_TBL_KEY_def)
qed

text \<open>The driver of the master with interface 1, with no handles yet.\<close>

definition a_drv :: "mu_hw drv" where
  "a_drv = \<lparr>drv_world = mu_world 1 a_table, mtx_heap = Map.empty, mutex_cache = None, mtx_brk = 0\<rparr>"

lemma a_drv_rep: "cache_rep a_drv []"
  by (simp add: a_drv_def cache_rep_def)

lemma a_drv_model: "NFP_CPP_MODEL_IS_6000 (model (w_cpp (drv_world a_drv)))"
  by (simp add: a_drv_def mu_world_def mu_cpp_def NFP_CPP_MODEL_IS_6000_def NFP_CPP_MODEL_CHIP_of_def)

end
