(* ===== verification/C_String.thy ===== *)
theory C_String
  imports Nfp_Prelude
begin

text \<open>
  C strings in a buffer: \<open>strlen\<close> and the string at an offset. Reading past the end of the buffer
  is undefined behaviour, here \<open>None\<close>.
\<close>

definition c_str :: "u8 list \<Rightarrow> nat \<Rightarrow> u8 list" where
  "c_str buf i = takeWhile (\<lambda>b. b \<noteq> 0) (drop i buf)"

definition c_strlen :: "u8 list \<Rightarrow> nat \<Rightarrow> nat option" where
  "c_strlen buf i = (if 0 \<in> set (drop i buf) then Some (length (c_str buf i)) else None)"

text \<open>A string of C: no zero byte.\<close>

definition zfree :: "u8 list \<Rightarrow> bool" where
  "zfree s \<longleftrightarrow> 0 \<notin> set s"

lemma c_str_at:
  assumes "zfree s"
  shows "c_str (xs @ s @ 0 # ys) (length xs) = s"
proof -
  have "takeWhile (\<lambda>b. b \<noteq> 0) s = s" using assms by (auto simp: zfree_def takeWhile_eq_all_conv)
  then show ?thesis using assms by (auto simp: c_str_def zfree_def takeWhile_append)
qed

lemma c_strlen_at:
  assumes "zfree s"
  shows "c_strlen (xs @ s @ 0 # ys) (length xs) = Some (length s)"
  using c_str_at [OF assms] by (simp add: c_strlen_def)

lemma zfree_c_str [simp]: "zfree (c_str buf i)"
  by (auto simp: c_str_def zfree_def dest: set_takeWhileD)

text \<open>Where the terminating zero of a string is.\<close>

lemma c_strlen_SomeD:
  assumes "c_strlen buf i = Some k"
  shows "i + k < length buf" "buf ! (i + k) = 0" "k = length (c_str buf i)"
    "buf = take i buf @ c_str buf i @ 0 # drop (i + k + 1) buf"
proof -
  have z: "0 \<in> set (drop i buf)" and k: "k = length (c_str buf i)"
    using assms by (auto simp: c_strlen_def split: if_splits)
  then obtain ys zs where s: "drop i buf = ys @ 0 # zs" "0 \<notin> set ys" by (auto dest: split_list_first)
  have "takeWhile (\<lambda>b. b \<noteq> 0) ys = ys" using s(2) by (auto simp: takeWhile_eq_all_conv)
  then have c: "c_str buf i = ys" using s by (auto simp: c_str_def takeWhile_append)
  have l: "i \<le> length buf" using z by (cases "i \<le> length buf") auto
  have "length (drop i buf) = length ys + Suc (length zs)" unfolding s(1) by simp
  then show "i + k < length buf" using k c l by simp
  have b: "take i buf @ ys @ 0 # zs = buf" using s(1) append_take_drop_id [of i buf] by simp
  have "length (take i buf) = i" using l by simp
  then have "(take i buf @ ys @ 0 # zs) ! (i + k) = 0" using k c by (simp add: nth_append)
  then show "buf ! (i + k) = 0" using b by argo
  have "drop (i + k + 1) (take i buf @ ys @ 0 # zs) = zs" using k c l by simp
  then have "drop (i + k + 1) buf = zs" using b by argo
  then show "buf = take i buf @ c_str buf i @ 0 # drop (i + k + 1) buf" using b c by simp
  show "k = length (c_str buf i)" by (rule k)
qed

end
