(* ===== verification/Nfp_Hwinfo.thy ===== *)
theory Nfp_Hwinfo
  imports C_String Byte_Codec Nfp_Crc
begin

text \<open>
  The hardware information table (user/nfpcore/nfp_hwinfo.c): validation of a table that was read
  into a buffer, and the search for a key. A pointer is an offset into the buffer; \<open>None\<close> is a read
  outside of the buffer.
\<close>

section \<open>The table\<close>

text \<open>The fields of \<open>struct nfp_hwinfo\<close>, whose \<open>data\<close> starts at byte 16.\<close>

definition hwinfo_version :: "u8 list \<Rightarrow> u32" where "hwinfo_version db = le_word (take 4 db)"
definition hwinfo_size :: "u8 list \<Rightarrow> u32" where "hwinfo_size db = le_word (take 4 (drop 4 db))"
definition hwinfo_data :: nat where "hwinfo_data = 16"

definition HWINFO_SIZE_MIN :: u64 where "HWINFO_SIZE_MIN = 0x100"

text \<open>\<open>'H' << 24 | 'I' << 16 | 2 << 8 | 0 << 1 | 0\<close>\<close>

definition NFP_HWINFO_VERSION_2 :: u32 where "NFP_HWINFO_VERSION_2 = 0x48490200"
definition NFP_HWINFO_VERSION_UPDATING :: u32 where "NFP_HWINFO_VERSION_UPDATING = 1"

definition nfp_hwinfo_is_updating :: "u8 list \<Rightarrow> bool" where
  "nfp_hwinfo_is_updating db \<longleftrightarrow> hwinfo_version db AND NFP_HWINFO_VERSION_UPDATING \<noteq> 0"

function db_walk_loop :: "u8 list \<Rightarrow> nat \<Rightarrow> nat \<Rightarrow> int option" where
  "db_walk_loop db fin key =
     (if \<not> key < length db then None
      else if \<not> (db ! key \<noteq> 0 \<and> key < fin) then Some 0
      else case c_strlen db key of
             None \<Rightarrow> None
           | Some n \<Rightarrow>
               let val = key + n + 1
               in if val \<ge> fin then Some (- errno_code EINVAL)
                  else case c_strlen db val of
                         None \<Rightarrow> None
                       | Some m \<Rightarrow>
                           if val + m + 1 > fin then Some (- errno_code EINVAL)
                           else db_walk_loop db fin (val + m + 1))"
  by pat_completeness auto
termination by (relation "measure (\<lambda>(db, _, key). length db - key)") auto

declare db_walk_loop.simps [simp del]

definition nfp_hwinfo_db_walk :: "u8 list \<Rightarrow> u32 \<Rightarrow> int option" where
  "nfp_hwinfo_db_walk db sz = db_walk_loop db (hwinfo_data + unat sz) hwinfo_data"

definition nfp_hwinfo_db_validate :: "u8 list \<Rightarrow> u32 \<Rightarrow> int option" where
  "nfp_hwinfo_db_validate db len =
     (let sz = hwinfo_size db
      in if sz > len then Some (- errno_code EINVAL)
         else let sz = sz - 4
              in if unat sz + 4 > length db then None
                 else if nfp_crc32_posix (take (unat sz) db) \<noteq> le_word (take 4 (drop (unat sz) db))
                   then Some (- errno_code EINVAL)
                   else nfp_hwinfo_db_walk db sz)"

function lookup_loop :: "u8 list \<Rightarrow> u8 list \<Rightarrow> nat \<Rightarrow> nat \<Rightarrow> nat option option" where
  "lookup_loop db name fin key =
     (if \<not> key < length db then None
      else if \<not> (db ! key \<noteq> 0 \<and> key < fin) then Some None
      else case c_strlen db key of
             None \<Rightarrow> None
           | Some n \<Rightarrow>
               let val = key + n + 1
               in if c_str db key = name then Some (Some val)
                  else case c_strlen db val of
                         None \<Rightarrow> None
                       | Some m \<Rightarrow> lookup_loop db name fin (val + m + 1))"
  by pat_completeness auto
termination by (relation "measure (\<lambda>(db, _, _, key). length db - key)") auto

declare lookup_loop.simps [simp del]

text \<open>\<open>NULL\<close> arguments are \<open>None\<close>; the result is the offset of the value.\<close>

definition nfp_hwinfo_lookup :: "u8 list option \<Rightarrow> u8 list option \<Rightarrow> nat option option" where
  "nfp_hwinfo_lookup hwinfo lookup =
     (case (hwinfo, lookup) of
        (Some db, Some name) \<Rightarrow> lookup_loop db name (hwinfo_data + unat (hwinfo_size db) - 4) hwinfo_data
      | _ \<Rightarrow> Some None)"

section \<open>Tables as lists of pairs\<close>

definition pair_bytes :: "u8 list \<times> u8 list \<Rightarrow> u8 list" where
  "pair_bytes kv = fst kv @ 0 # snd kv @ [0]"

definition pack_pairs :: "(u8 list \<times> u8 list) list \<Rightarrow> u8 list" where
  "pack_pairs kvs = concat (map pair_bytes kvs)"

definition pair_ok :: "u8 list \<times> u8 list \<Rightarrow> bool" where
  "pair_ok kv \<longleftrightarrow> fst kv \<noteq> [] \<and> zfree (fst kv) \<and> zfree (snd kv)"

text \<open>What a search gives: the string at the offset that is returned.\<close>

definition value_at :: "u8 list \<Rightarrow> nat option option \<Rightarrow> u8 list option option" where
  "value_at db r = map_option (map_option (c_str db)) r"

text \<open>The search of a table that the walk accepts is the lookup in the list of its pairs, and
  reads no byte outside of the buffer.\<close>

lemma walk_lookup:
  "db_walk_loop db fin key = Some 0 \<Longrightarrow>
     \<exists>kvs. (\<forall>kv\<in>set kvs. pair_ok kv) \<and> (\<forall>name. value_at db (lookup_loop db name fin key) = Some (map_of kvs name))"
proof (induction db fin key rule: db_walk_loop.induct)
  case (1 db fin key)
  have k: "key < length db" using 1(2) by (simp add: db_walk_loop.simps [of db fin key] split: if_splits)
  show ?case
  proof (cases "db ! key \<noteq> 0 \<and> key < fin")
    case False
    then have "\<forall>name. value_at db (lookup_loop db name fin key) = Some (map_of [] name)"
      using k by (simp add: lookup_loop.simps [of db _ fin key] value_at_def)
    then show ?thesis by (intro exI [of _ "[]"]) simp
  next
    case True
    then obtain n m where n: "c_strlen db key = Some n" and m: "c_strlen db (key + n + 1) = Some m"
      and b: "\<not> key + n + 1 \<ge> fin" "\<not> key + n + 1 + m + 1 > fin"
      and w: "db_walk_loop db fin (key + n + 1 + m + 1) = Some 0"
      using k 1(2) by (auto simp: db_walk_loop.simps [of db fin key] Let_def split: option.splits if_splits)
    obtain kvs where kvs: "\<forall>kv\<in>set kvs. pair_ok kv"
      "\<forall>name. value_at db (lookup_loop db name fin (key + n + 1 + m + 1)) = Some (map_of kvs name)"
      using 1(1) [OF _ _ n refl b(1) m b(2) w] k True by auto
    let ?kv = "(c_str db key, c_str db (key + n + 1))"
    have "c_str db key \<noteq> []"
    proof
      assume "c_str db key = []"
      then have "n = 0" using c_strlen_SomeD(3) [OF n] by simp
      then show False using c_strlen_SomeD(2) [OF n] True by simp
    qed
    then have "\<forall>kv\<in>set (?kv # kvs). pair_ok kv" using kvs(1) by (simp add: pair_ok_def)
    moreover have "value_at db (lookup_loop db name fin key) = Some (map_of (?kv # kvs) name)" for name
      using k True n m kvs(2) by (simp add: lookup_loop.simps [of db name fin key] Let_def value_at_def)
    ultimately show ?thesis by (intro exI [of _ "?kv # kvs"]) blast
  qed
qed

text \<open>Both loops stop at the same bound: \<open>data + size - 4\<close>.\<close>

lemma validate_walks:
  assumes "nfp_hwinfo_db_validate db len = Some 0" "length db < 2 ^ 32"
  shows "db_walk_loop db (hwinfo_data + unat (hwinfo_size db) - 4) hwinfo_data = Some 0"
proof -
  let ?s = "hwinfo_size db"
  have v: "\<not> unat (?s - 4) + 4 > length db" "nfp_hwinfo_db_walk db (?s - 4) = Some 0"
    using assms(1) by (auto simp: nfp_hwinfo_db_validate_def Let_def split: if_splits)
  have "4 \<le> unat ?s"
  proof (rule ccontr)
    assume "\<not> 4 \<le> unat ?s"
    then have lt: "?s < 4" by (simp add: word_less_nat_alt)
    have "unat (?s - 4) = 2 ^ 32 + unat ?s - 4"
      using unat_sub_if_size [of ?s 4] lt by (simp add: word_le_nat_alt word_size word_less_nat_alt)
    then show False using v(1) assms(2) by simp
  qed
  then have "unat (?s - 4) = unat ?s - 4" using unat_sub_small [of "4 :: u32" ?s] by simp
  then show ?thesis using v(2) \<open>4 \<le> unat ?s\<close> by (simp add: nfp_hwinfo_db_walk_def)
qed

lemma validated_lookup:
  assumes "nfp_hwinfo_db_validate db len = Some 0" "length db < 2 ^ 32"
  shows "\<exists>kvs. (\<forall>kv\<in>set kvs. pair_ok kv)
    \<and> (\<forall>name. value_at db (nfp_hwinfo_lookup (Some db) (Some name)) = Some (map_of kvs name))"
  using walk_lookup [OF validate_walks [OF assms]] by (simp add: nfp_hwinfo_lookup_def)

section \<open>Images of tables\<close>

text \<open>A table with the given pairs: they are followed by an empty key and any padding.\<close>

definition hwinfo_head :: "nat \<Rightarrow> u8 list \<Rightarrow> u8 list" where
  "hwinfo_head n hdr = le_bytes 4 NFP_HWINFO_VERSION_2 @ le_bytes 4 (of_nat n :: u32) @ hdr"

definition hwinfo_body :: "u8 list \<Rightarrow> (u8 list \<times> u8 list) list \<Rightarrow> u8 list \<Rightarrow> u8 list" where
  "hwinfo_body hdr kvs pad =
     hwinfo_head (16 + length (pack_pairs kvs) + 1 + length pad + 4) hdr @ pack_pairs kvs @ 0 # pad"

definition hwinfo_image :: "u8 list \<Rightarrow> (u8 list \<times> u8 list) list \<Rightarrow> u8 list \<Rightarrow> u8 list" where
  "hwinfo_image hdr kvs pad =
     hwinfo_body hdr kvs pad @ le_bytes 4 (nfp_crc32_posix (hwinfo_body hdr kvs pad))"

lemma walk_pack:
  assumes "\<forall>kv\<in>set kvs. pair_ok kv" "db = pre @ pack_pairs kvs @ 0 # rest" "length pre + length (pack_pairs kvs) \<le> fin"
  shows "db_walk_loop db fin (length pre) = Some 0
    \<and> value_at db (lookup_loop db name fin (length pre)) = Some (map_of kvs name)"
  using assms
proof (induction kvs arbitrary: pre)
  case Nil
  then have "length pre < length db" "db ! length pre = 0" by (simp_all add: pack_pairs_def)
  then show ?case
    by (simp add: db_walk_loop.simps [of db fin "length pre"] lookup_loop.simps [of db name fin "length pre"]
        pack_pairs_def value_at_def)
next
  case (Cons kv kvs)
  obtain k v where kv: "kv = (k, v)" by force
  let ?pre = "pre @ k @ 0 # v @ [0]"
  have ok: "k \<noteq> []" "zfree k" "zfree v" using Cons.prems(1) kv by (simp_all add: pair_ok_def)
  have d1: "db = pre @ k @ 0 # (v @ 0 # pack_pairs kvs @ 0 # rest)"
    and d2: "db = (pre @ k @ [0]) @ v @ 0 # (pack_pairs kvs @ 0 # rest)"
    and d3: "db = ?pre @ pack_pairs kvs @ 0 # rest"
    using Cons.prems(2) kv by (simp_all add: pack_pairs_def pair_bytes_def)
  have n: "c_strlen db (length pre) = Some (length k)" "c_str db (length pre) = k"
    unfolding d1 using c_strlen_at [OF ok(2)] c_str_at [OF ok(2)] by blast+
  have m: "c_strlen db (length pre + length k + 1) = Some (length v)" "c_str db (length pre + length k + 1) = v"
    using c_strlen_at [OF ok(3), of "pre @ k @ [0]" "pack_pairs kvs @ 0 # rest"]
      c_str_at [OF ok(3), of "pre @ k @ [0]" "pack_pairs kvs @ 0 # rest"] unfolding d2 by simp_all
  have l: "length pre + length k + 1 + length v + 1 = length ?pre"
    "length (pack_pairs (kv # kvs)) = length k + 1 + length v + 1 + length (pack_pairs kvs)"
    by (simp_all add: pack_pairs_def pair_bytes_def kv)
  have f: "length ?pre + length (pack_pairs kvs) \<le> fin" using Cons.prems(3) l by simp
  have b: "\<not> length pre + length k + 1 \<ge> fin" "\<not> length pre + length k + 1 + length v + 1 > fin" "length pre < fin"
    using f l(1) by simp_all
  have "db ! length pre = k ! 0" using ok(1) by (simp add: d1 nth_append)
  moreover have "k ! 0 \<in> set k" using ok(1) by simp
  ultimately have c: "db ! length pre \<noteq> 0" "length pre < length db" using ok(2) d1 by (auto simp: zfree_def)
  have ih: "db_walk_loop db fin (length pre + length k + 1 + length v + 1) = Some 0"
    "value_at db (lookup_loop db name fin (length pre + length k + 1 + length v + 1)) = Some (map_of kvs name)"
    unfolding l(1) using Cons.IH [OF _ d3 f] Cons.prems(1) by simp_all
  have "db_walk_loop db fin (length pre) = Some 0"
    using c b n(1) m(1) ih(1) by (simp add: db_walk_loop.simps [of db fin "length pre"])
  moreover have "value_at db (lookup_loop db name fin (length pre)) = Some (map_of (kv # kvs) name)"
    using c b n m ih(2) by (simp add: lookup_loop.simps [of db name fin "length pre"] value_at_def kv)
  ultimately show ?case by blast
qed

lemma image_head:
  assumes "length hdr = 8"
  shows "length (hwinfo_head n hdr) = 16" "hwinfo_version (hwinfo_head n hdr @ xs) = NFP_HWINFO_VERSION_2"
    "hwinfo_size (hwinfo_head n hdr @ xs) = of_nat n"
  using assms by (simp_all add: hwinfo_head_def hwinfo_version_def hwinfo_size_def)

lemma image_reads:
  assumes "\<forall>kv\<in>set kvs. pair_ok kv" "length hdr = 8" "length (hwinfo_image hdr kvs pad) \<le> unat len"
    "db = hwinfo_image hdr kvs pad @ rest"
  shows "nfp_hwinfo_db_validate db len = Some 0"
    "value_at db (nfp_hwinfo_lookup (Some db) (Some name)) = Some (map_of kvs name)"
proof -
  let ?n = "16 + length (pack_pairs kvs) + 1 + length pad + 4" and ?h = "hwinfo_body hdr kvs pad"
  let ?head = "hwinfo_head ?n hdr"
  have lh: "length ?h = ?n - 4" "length (hwinfo_image hdr kvs pad) = ?n"
    using image_head(1) [OF assms(2)] by (simp_all add: hwinfo_body_def hwinfo_image_def)
  have "?n < 2 ^ 32" using assms(3) lh(2) unsigned_less [of len, where 'a = nat] by simp
  then have u: "unat (of_nat ?n :: u32) = ?n" unfolding unat_of_nat by (rule mod_less [OF order_less_le_trans]) simp
  have d: "db = ?head @ pack_pairs kvs @ 0 # (pad @ le_bytes 4 (nfp_crc32_posix ?h) @ rest)"
    unfolding assms(4) hwinfo_image_def by (subst hwinfo_body_def) simp
  have sz: "hwinfo_size db = of_nat ?n" unfolding d by (rule image_head(3) [OF assms(2)])
  have us: "unat (hwinfo_size db) = ?n" unfolding sz by (rule u)
  then have "unat (hwinfo_size db - 4) = ?n - 4" using unat_sub_small [of "4 :: u32" "hwinfo_size db"] by simp
  moreover have "take (?n - 4) db = ?h" "take 4 (drop (?n - 4) db) = le_bytes 4 (nfp_crc32_posix ?h)"
    using lh(1) by (simp_all add: assms(4) hwinfo_image_def)
  moreover have "\<not> hwinfo_size db > len" using us lh(2) assms(3) by (simp add: word_less_nat_alt)
  moreover have "length db \<ge> ?n" using lh(2) assms(4) by simp
  moreover have f: "length ?head + length (pack_pairs kvs) \<le> hwinfo_data + (?n - 4)"
    using image_head(1) [OF assms(2)] by (simp add: hwinfo_data_def)
  note w = walk_pack [OF assms(1) d f, of name, unfolded image_head(1) [OF assms(2)]]
  ultimately show "nfp_hwinfo_db_validate db len = Some 0"
    by (simp add: nfp_hwinfo_db_validate_def nfp_hwinfo_db_walk_def hwinfo_data_def)
  show "value_at db (nfp_hwinfo_lookup (Some db) (Some name)) = Some (map_of kvs name)"
    using w by (simp add: nfp_hwinfo_lookup_def us hwinfo_data_def)
qed

section \<open>The bound of the walk\<close>

text \<open>The walk stops at \<open>data + size - 4\<close>, 12 bytes past the end of the table. A table with a
  correct checksum that fills its memory and has no zero byte after the header makes it read past
  the byte that was appended.\<close>

lemma walk_overrun:
  assumes "length body = unat (hwinfo_size db) - 4" "db = body @ le_bytes 4 (nfp_crc32_posix body) @ [0]"
    "16 < length body" "unat (hwinfo_size db) = unat len" "zfree (drop 16 (body @ le_bytes 4 (nfp_crc32_posix body)))"
  shows "nfp_hwinfo_db_validate db len = None"
proof -
  let ?b = "body @ le_bytes 4 (nfp_crc32_posix body)" and ?s = "hwinfo_size db"
  have lb: "length body = unat (?s - 4)" "length db = unat ?s + 1" "4 \<le> unat ?s"
    using assms(1,2,3) unat_sub_small [of "4 :: u32" ?s] by simp_all
  have "?b = take 16 ?b @ drop 16 ?b" by (rule append_take_drop_id [symmetric])
  then have db: "db = take 16 ?b @ drop 16 ?b @ 0 # []" unfolding assms(2) by (metis append.assoc)
  have "length (take 16 ?b) = 16" using assms(3) by simp
  then have n: "c_strlen db 16 = Some (length (drop 16 ?b))"
    using c_strlen_at [OF assms(5), of "take 16 ?b" "[]"] db by argo
  have "db ! 16 = drop 16 ?b ! 0" using assms(3) by (simp add: assms(2) nth_append)
  moreover have "drop 16 ?b ! 0 \<in> set (drop 16 ?b)" by (rule nth_mem) (use assms(3) in simp)
  ultimately have z: "db ! 16 \<noteq> 0" using assms(5) by (auto simp: zfree_def)
  have l: "length ?b = unat ?s" using lb assms(1) by simp
  have "c_strlen db (16 + (length ?b - 16) + 1) = None" using lb l by (simp add: c_strlen_def)
  moreover have "16 + unat (?s - 4) = unat ?s + 12" using lb assms(1) by simp
  ultimately have "nfp_hwinfo_db_walk db (?s - 4) = None"
    using n [unfolded length_drop] z lb l assms(3) by (simp add: nfp_hwinfo_db_walk_def hwinfo_data_def db_walk_loop.simps [of db _ 16])
  moreover have "take (unat (?s - 4)) db = body" "take 4 (drop (unat (?s - 4)) db) = le_bytes 4 (nfp_crc32_posix body)"
    using lb(1) by (simp_all add: assms(2))
  ultimately show ?thesis using assms(4) lb by (simp add: nfp_hwinfo_db_validate_def word_less_nat_alt Let_def)
qed

end
