(* ===== verification/Hwinfo_Read.thy ===== *)
theory Hwinfo_Read
  imports Nfp_Hwinfo Resource_Proof
begin

text \<open>
  Reading the hardware information table from the device (user/nfpcore/nfp_hwinfo.c): the resource
  is looked up, its lock is given back at once, the table is read and validated. What other masters
  do while the driver waits is a parameter, as are the bytes that \<open>malloc\<close> leaves in a buffer.
\<close>

section \<open>The code\<close>

text \<open>\<open>"nfp.info"\<close>\<close>

definition NFP_RESOURCE_NFP_HWINFO :: "u8 list" where
  "NFP_RESOURCE_NFP_HWINFO = [0x6e, 0x66, 0x70, 0x2e, 0x69, 0x6e, 0x66, 0x6f]"

text \<open>The buffer and the value of \<open>*cpp_size\<close> on success.\<close>

definition nfp_hwinfo_try_fetch ::
  "'h mmio \<Rightarrow> (nat \<Rightarrow> u8) \<Rightarrow> 'h others \<Rightarrow> 'h drv \<Rightarrow> ((u8 list \<times> u64) option \<times> 'h drv) option" where
  "nfp_hwinfo_try_fetch M junk e s =
     (case acquire_named M e NFP_RESOURCE_NFP_HWINFO s of
        None \<Rightarrow> None
      | Some (None, s) \<Rightarrow> Some (None, s)
      | Some (Some res, s) \<Rightarrow>
          let cpp_id = nfp_resource_cpp_id res; cpp_addr = nfp_resource_address res;
              cpp_size = nfp_resource_size res;
              s = nfp_resource_release M res s
          in if cpp_size < HWINFO_SIZE_MIN then Some (None, s)
             else
               let (ok, w) = c_malloc (drv_world s)
               in if \<not> ok then Some (None, s\<lparr>drv_world := w\<rparr>)
                  else
                    let (err, bs, w) = nfp_cpp_read M cpp_id cpp_addr cpp_size w;
                        s = s\<lparr>drv_world := w\<rparr>;
                        db = bs @ map junk [length bs..<unat cpp_size] @ [0]
                    in if err \<noteq> sint (ucast cpp_size :: u32) then Some (None, s)
                       else if nfp_hwinfo_is_updating db then Some (None, s)
                       else if hwinfo_version db \<noteq> NFP_HWINFO_VERSION_2 then Some (None, s)
                       else Some (Some (db, cpp_size), s))"

text \<open>\<open>nap k\<close> is what happens during the sleep after attempt \<open>k\<close>.\<close>

function hwinfo_fetch_loop ::
  "'h mmio \<Rightarrow> (nat \<Rightarrow> u8) \<Rightarrow> (nat \<Rightarrow> 'h others) \<Rightarrow> (nat \<Rightarrow> 'h \<Rightarrow> 'h) \<Rightarrow> nat \<Rightarrow> 'h drv
     \<Rightarrow> ((u8 list \<times> u64) option \<times> 'h drv) option" where
  "hwinfo_fetch_loop M junk es nap count s =
     (case nfp_hwinfo_try_fetch M junk (es count) s of
        None \<Rightarrow> None
      | Some (Some r, s) \<Rightarrow> Some (Some r, s)
      | Some (None, s) \<Rightarrow>
          let s = drv_nap (nap count) s
          in if count > 200 then Some (None, s)
             else hwinfo_fetch_loop M junk es nap (Suc count) s)"
  by pat_completeness auto
termination by (relation "measure (\<lambda>(_, _, _, _, count, _). 202 - count)") auto

declare hwinfo_fetch_loop.simps [simp del]

definition nfp_hwinfo_fetch ::
  "'h mmio \<Rightarrow> (nat \<Rightarrow> u8) \<Rightarrow> (nat \<Rightarrow> 'h others) \<Rightarrow> (nat \<Rightarrow> 'h \<Rightarrow> 'h) \<Rightarrow> 'h drv
     \<Rightarrow> ((u8 list \<times> u64) option \<times> 'h drv) option" where
  "nfp_hwinfo_fetch M junk es nap s = hwinfo_fetch_loop M junk es nap 0 s"

text \<open>The size is passed on as 32 bits. A read outside of the buffer raises the fault.\<close>

definition nfp_hwinfo_read ::
  "'h mmio \<Rightarrow> (nat \<Rightarrow> u8) \<Rightarrow> (nat \<Rightarrow> 'h others) \<Rightarrow> (nat \<Rightarrow> 'h \<Rightarrow> 'h) \<Rightarrow> 'h drv
     \<Rightarrow> (u8 list option \<times> 'h drv) option" where
  "nfp_hwinfo_read M junk es nap s =
     (case nfp_hwinfo_fetch M junk es nap s of
        None \<Rightarrow> None
      | Some (None, s) \<Rightarrow> Some (None, s)
      | Some (Some (db, hwdb_size), s) \<Rightarrow>
          (case nfp_hwinfo_db_validate db (ucast hwdb_size) of
             None \<Rightarrow> Some (None, drv_fault s)
           | Some err \<Rightarrow> if err \<noteq> 0 then Some (None, s) else Some (Some db, s)))"

section \<open>From the device to the search\<close>

text \<open>The resource is described by entry \<open>i\<close> of the table, lies in memory that is read with the
  atomic read command, apart from the entries, and holds the image of a table.\<close>

definition res_page :: "mem \<Rightarrow> nat \<Rightarrow> u64" where
  "res_page m i = push_bit 8 (ucast (en_page_offset (table_entry m i)))"

definition res_extent :: "mem \<Rightarrow> nat \<Rightarrow> u64" where
  "res_extent m i = push_bit 8 (ucast (en_page_size (table_entry m i)))"

definition plain_resource :: "nat \<Rightarrow> mem \<Rightarrow> u8 list \<Rightarrow> nat \<Rightarrow> bool" where
  "plain_resource n m name i \<longleftrightarrow> resource_free m name i
     \<and> en_cpp_target (table_entry m i) = 7 \<and> en_cpp_action (table_entry m i) = 3 \<and> en_cpp_token (table_entry m i) = 0
     \<and> mu_range n (res_page m i) (res_extent m i)
     \<and> disj_range (res_page m i) (unat (res_extent m i)) NFP_RESOURCE_TBL_BASE 4096"

text \<open>Writing lock words leaves the memory apart from the table.\<close>

lemma entry_far:
  assumes "disj_range a k NFP_RESOURCE_TBL_BASE 4096" "j < 128"
  shows "mem_rd (set_word m (entry_addr j) v) a k = mem_rd m a k"
proof -
  have e: "entry_addr j = NFP_RESOURCE_TBL_BASE + of_nat (32 * j)" by (simp add: entry_addr_def res_entry_size_def)
  have "disj_range (NFP_RESOURCE_TBL_BASE + of_nat (32 * j)) 4 (a + of_nat 0) k"
    by (rule disj_range_sub [OF disj_range_sym [OF assms(1)]]) (use assms(2) in simp_all)
  then show ?thesis unfolding set_word_def e by (intro mem_rd_wr_disj) simp
qed

context mu_engine
begin

text \<open>A resource that is acquired and released: its description, all locks free, the memory apart
  from the table as before.\<close>

lemma acquire_release:
  assumes model: "NFP_CPP_MODEL_IS_6000 (model (w_cpp (drv_world s)))"
    and pr: "plain_resource n (mu (w_hw (drv_world s))) name i"
    and rdy: "engine_ready (drv_world s)" and empty: "cache_rep s []"
  obtains res s' m where "acquire_named M e name s = Some (Some res, s')"
    "nfp_resource_cpp_id res = atomic_read_id 7" "nfp_resource_address res = res_page (mu (w_hw (drv_world s))) i"
    "nfp_resource_size res = res_extent (mu (w_hw (drv_world s))) i"
    "drv_ok (drv_world s) [] m (nfp_resource_release M res s')"
    "mem_word m (entry_addr i) = 0" "mem_word m (entry_addr 0) = 0"
    "mem_rd m (res_page (mu (w_hw (drv_world s))) i) (unat (res_extent (mu (w_hw (drv_world s))) i)) =
      mem_rd (mu (w_hw (drv_world s))) (res_page (mu (w_hw (drv_world s))) i) (unat (res_extent (mu (w_hw (drv_world s))) i))"
proof -
  let ?w = "drv_world s" let ?m = "mu (w_hw ?w)" and ?l = "MUTEX_LOCKED (nfp_cpp_interface ?w)"
  let ?m' = "set_word (set_word (set_word ?m (entry_addr 0) ?l) (entry_addr i) ?l) (entry_addr 0) 0"
  let ?res = "\<lparr>rs_name = take 8 name, rs_cpp_id = 0, rs_addr = 0, rs_size = 0, rs_mutex = None\<rparr>"
  have fr: "resource_free ?m name i" and far: "disj_range (res_page ?m i) (unat (res_extent ?m i)) NFP_RESOURCE_TBL_BASE 4096"
    and id: "en_cpp_target (table_entry ?m i) = 7" "en_cpp_action (table_entry ?m i) = 3" "en_cpp_token (table_entry ?m i) = 0"
    using pr by (simp_all add: plain_resource_def)
  have i: "i < 128" "i \<noteq> 0" and k: "mem_word ?m (entry_addr i + 4) = nfp_crc32_posix (padded 8 (take 8 name))"
    using fr by (auto simp: resource_free_def find_Some_iff table_entry_key)
  obtain p s' where a: "nfp_resource_acquire M (oth_lock e) (oth_pause e) name s = Some (Some (found_at (table_entry ?m i) p ?res), s')"
    and d: "drv_ok ?w [(p, (new_mutex (entry_addr i) (nfp_crc32_posix (padded 8 (take 8 name))))\<lparr>mtx_depth := 1\<rparr>)] ?m' s'"
    using acquire_free [OF model fr rdy empty, of "oth_lock e" "oth_pause e"] by blast
  have w: "mem_word ?m' (entry_addr i) = ?l" "mem_word ?m' (entry_addr i + 4) = nfp_crc32_posix (padded 8 (take 8 name))"
    using entry_words [of 0 i] i k by (simp_all add: mem_word_next)
  show thesis
  proof (rule that [of "found_at (table_entry ?m i) p ?res" s' "set_word ?m' (entry_addr i) 0"])
    show "acquire_named M e name s = Some (Some (found_at (table_entry ?m i) p ?res), s')" using a by (simp add: acquire_named_def)
    show "drv_ok ?w [] (set_word ?m' (entry_addr i) 0) (nfp_resource_release M (found_at (table_entry ?m i) p ?res) s')"
      by (rule release_held [OF d i(1) w(2,1)]) (simp add: found_at_def)
    show "mem_word (set_word ?m' (entry_addr i) 0) (entry_addr i) = 0" by simp
    show "mem_word (set_word ?m' (entry_addr i) 0) (entry_addr 0) = 0" using entry_words(1) [of i 0] i by simp
    show "mem_rd (set_word ?m' (entry_addr i) 0) (res_page ?m i) (unat (res_extent ?m i)) = mem_rd ?m (res_page ?m i) (unat (res_extent ?m i))"
      using entry_far [OF far] i(1) by simp
  qed (simp_all add: found_at_def nfp_resource_cpp_id_def nfp_resource_address_def nfp_resource_size_def res_page_def
      res_extent_def id atomic_read_id_def)
qed

theorem hwinfo_read_table:
  assumes model: "NFP_CPP_MODEL_IS_6000 (model (w_cpp (drv_world s)))"
    and rdy: "engine_ready (drv_world s)" and empty: "cache_rep s []"
    and pr: "plain_resource n (mu (w_hw (drv_world s))) NFP_RESOURCE_NFP_HWINFO i"
    and img: "mem_rd (mu (w_hw (drv_world s))) (res_page (mu (w_hw (drv_world s))) i)
      (unat (res_extent (mu (w_hw (drv_world s))) i)) = hwinfo_image hdr kvs pad @ rest"
    and kvs: "\<forall>kv\<in>set kvs. pair_ok kv" "length hdr = 8"
    and min: "HWINFO_SIZE_MIN \<le> res_extent (mu (w_hw (drv_world s))) i"
  shows "\<exists>db s' m. nfp_hwinfo_read M junk es nap s = Some (Some db, s')
    \<and> (\<forall>name. value_at db (nfp_hwinfo_lookup (Some db) (Some name)) = Some (map_of kvs name))
    \<and> drv_ok (drv_world s) [] m s' \<and> mem_word m (entry_addr i) = 0 \<and> mem_word m (entry_addr 0) = 0"
proof -
  let ?w = "drv_world s" let ?m = "mu (w_hw ?w)" let ?a = "res_page ?m i" and ?len = "res_extent ?m i"
  have rng: "mu_range n ?a ?len" using pr by (simp add: plain_resource_def)
  note mr = mu_rangeD [OF rng]
  obtain res s1 m where a: "acquire_named M (es 0) NFP_RESOURCE_NFP_HWINFO s = Some (Some res, s1)"
    and r: "nfp_resource_cpp_id res = atomic_read_id 7" "nfp_resource_address res = ?a" "nfp_resource_size res = ?len"
    and d: "drv_ok ?w [] m (nfp_resource_release M res s1)"
    and m: "mem_word m (entry_addr i) = 0" "mem_word m (entry_addr 0) = 0" "mem_rd m ?a (unat ?len) = mem_rd ?m ?a (unat ?len)"
    by (rule acquire_release [OF model pr rdy empty])
  let ?s2 = "nfp_resource_release M res s1"
  have s2: "engine_ready (drv_world ?s2)" "mu (w_hw (drv_world ?s2)) = m" using drv_okD [OF d] by simp_all
  have ml: "c_malloc (drv_world ?s2) = (True, drv_world ?s2)"
    using s2(1) by (simp add: engine_ready_def bus_ready_def c_malloc_def)
  define bs where "bs = mem_rd m ?a (unat ?len)"
  obtain w' where rd: "nfp_cpp_read M (atomic_read_id 7) ?a ?len (drv_world ?s2) = (int (unat ?len), bs, w')"
    and w': "engine_same (drv_world ?s2) w'" "mu (w_hw w') = m"
    using mu_read [OF s2(1) rng] s2(2) unfolding bs_def by metis
  let ?s3 = "?s2\<lparr>drv_world := w'\<rparr>"
  define db where "db = hwinfo_image hdr kvs pad @ rest @ [0]"
  have bs: "bs @ map junk [length bs..<unat ?len] @ [0] = db"
    unfolding bs_def length_mem_rd upt_conv_Nil [OF order_refl] using m(3) img by (simp add: db_def)
  have v: "hwinfo_version db = NFP_HWINFO_VERSION_2"
    by (simp add: db_def hwinfo_image_def hwinfo_body_def image_head(2) [OF kvs(2)])
  have up: "\<not> nfp_hwinfo_is_updating db"
    unfolding nfp_hwinfo_is_updating_def v by (simp add: NFP_HWINFO_VERSION_2_def NFP_HWINFO_VERSION_UPDATING_def)
  have "\<not> ?len < HWINFO_SIZE_MIN" using min by simp
  then have f: "nfp_hwinfo_fetch M junk es nap s = Some (Some (db, ?len), ?s3)"
    using a r ml rd bs v up mr(6)
    by (simp add: nfp_hwinfo_fetch_def hwinfo_fetch_loop.simps [of M junk es nap 0] nfp_hwinfo_try_fetch_def Let_def)
  have "length (hwinfo_image hdr kvs pad) \<le> unat (ucast ?len :: u32)"
    unfolding mr(7) using arg_cong [OF img, of length] by simp
  note im = image_reads [OF kvs this db_def]
  have "nfp_hwinfo_read M junk es nap s = Some (Some db, ?s3)" using f im(1) by (simp add: nfp_hwinfo_read_def)
  moreover have "drv_ok ?w [] m ?s3" using d w' engine_same_trans by (auto simp: drv_ok_def cache_rep_def)
  ultimately show ?thesis using im(2) m(1,2) by blast
qed

end

end
