(* ===== verification/Info_Device.thy ===== *)
theory Info_Device
  imports Hwinfo_Read Mu_Device
begin

text \<open>
  The memory of the witnesses about the hardware information table: the resource table has one
  entry, for \<open>nfp.info\<close>, and its region of 256 bytes holds a table with one pair.
\<close>

lemma crc_pow8:
  "(crc_shift p ^^ 8) c = crc_shift p (crc_shift p (crc_shift p (crc_shift p
     (crc_shift p (crc_shift p (crc_shift p (crc_shift p c)))))))"
  by (simp add: eval_nat_numeral)

lemmas crc_eval = nfp_crc32_posix_def nfp_crc32_posix_end_def nfp_crc32_be_def crc_pow8 crc_shift_def
  CRCPOLY_BE_def crc_len_loop.simps

definition info_key :: u32 where "info_key = nfp_crc32_posix (padded 8 (take 8 NFP_RESOURCE_NFP_HWINFO))"

definition info_page :: u64 where "info_page = 0x100000"

definition info_entry :: "u8 list" where
  "info_entry = le_bytes 4 (0 :: u32) @ le_bytes 4 info_key @ NFP_RESOURCE_NFP_HWINFO @ replicate 5 0 @ [3, 0, 7]
     @ le_bytes 4 (0x1000 :: u32) @ le_bytes 4 (1 :: u32)"

text \<open>\<open>me.count = 40\<close>\<close>

definition info_pairs :: "(u8 list \<times> u8 list) list" where
  "info_pairs = [([0x6d, 0x65, 0x2e, 0x63, 0x6f, 0x75, 0x6e, 0x74], [0x34, 0x30])]"

definition info_image :: "u8 list" where
  "info_image = hwinfo_image (replicate 8 0) info_pairs (replicate 223 0)"

definition info_mem :: mem where
  "info_mem = mem_wr (mem_wr (\<lambda>_. 0) (entry_addr 1) info_entry) info_page info_image"

lemma length_info_image: "length info_image = 256"
  by (simp add: info_image_def hwinfo_image_def hwinfo_body_def image_head(1) pack_pairs_def pair_bytes_def info_pairs_def)

lemma length_info_entry: "length info_entry = 32"
  by (simp add: info_entry_def NFP_RESOURCE_NFP_HWINFO_def)

lemma info_far: "disj_range info_page 256 NFP_RESOURCE_TBL_BASE 4096"
proof -
  have "disj_range (0 + of_nat 0x100000) 256 (0 + of_nat 0x8100000000) 4096"
    by (rule disj_range_offsets [where L = "2 ^ 41"]) simp_all
  then show ?thesis by (simp add: info_page_def NFP_RESOURCE_TBL_BASE_def)
qed

lemma info_table_rd:
  assumes "x + k \<le> 4096"
  shows "mem_rd info_mem (NFP_RESOURCE_TBL_BASE + of_nat x) k =
    mem_rd (mem_wr (\<lambda>_. 0) (entry_addr 1) info_entry) (NFP_RESOURCE_TBL_BASE + of_nat x) k"
proof -
  have "disj_range (info_page + of_nat 0) 256 (NFP_RESOURCE_TBL_BASE + of_nat x) k"
    by (rule disj_range_sub [OF info_far]) (use assms in simp_all)
  then show ?thesis unfolding info_mem_def by (intro mem_rd_wr_disj) (simp add: length_info_image)
qed

lemma info_entry_rd: "mem_rd info_mem (entry_addr 1) 32 = info_entry" "mem_rd info_mem (entry_addr 0) 32 = replicate 32 0"
proof -
  have e: "entry_addr i = NFP_RESOURCE_TBL_BASE + of_nat (32 * i)" for i
    by (simp add: entry_addr_def res_entry_size_def)
  show "mem_rd info_mem (entry_addr 1) 32 = info_entry"
    using info_table_rd [of "32 * 1" 32] by (simp only: e [symmetric]) (simp add: mem_rd_wr_same length_info_entry)
  have "disj_range (NFP_RESOURCE_TBL_BASE + of_nat (32 * 1)) 32 (NFP_RESOURCE_TBL_BASE + of_nat (32 * 0)) 32"
    by (rule disj_range_offsets [where L = 8192]) simp_all
  then have "mem_rd (mem_wr (\<lambda>_. 0) (entry_addr 1) info_entry) (entry_addr 0) 32 = mem_rd (\<lambda>_. 0) (entry_addr 0) 32"
    unfolding e by (intro mem_rd_wr_disj) (simp add: length_info_entry)
  moreover have "mem_rd (\<lambda>_. 0) (entry_addr 0) 32 = replicate 32 0" by (rule nth_equalityI) simp_all
  ultimately show "mem_rd info_mem (entry_addr 0) 32 = replicate 32 0"
    using info_table_rd [of "32 * 0" 32] by (simp only: e [symmetric] mult_0_right) (simp add: e)
qed

lemma info_page_rd: "mem_rd info_mem info_page 256 = info_image"
  by (simp add: info_mem_def mem_rd_wr_same length_info_image)

lemma info_key_value: "info_key \<noteq> 0"
  by (simp add: info_key_def NFP_RESOURCE_NFP_HWINFO_def padded_def crc_eval)

lemma info_fields:
  "table_entry info_mem 1 = entry_of_bytes info_entry" "en_key (entry_of_bytes info_entry) = info_key"
  "en_cpp_target (entry_of_bytes info_entry) = 7" "en_cpp_action (entry_of_bytes info_entry) = 3"
  "en_cpp_token (entry_of_bytes info_entry) = 0" "en_page_offset (entry_of_bytes info_entry) = 0x1000"
  "en_page_size (entry_of_bytes info_entry) = 1" "en_owner (entry_of_bytes info_entry) = 0"
  by (simp_all add: table_entry_def info_entry_rd [simplified] entry_of_bytes_def info_entry_def NFP_RESOURCE_NFP_HWINFO_def nth_append)

lemma info_resource: "plain_resource 24 info_mem NFP_RESOURCE_NFP_HWINFO 1"
  "res_page info_mem 1 = info_page" "res_extent info_mem 1 = 0x100"
proof -
  show p: "res_page info_mem 1 = info_page" "res_extent info_mem 1 = 0x100"
    unfolding res_page_def res_extent_def info_fields by (simp_all add: info_page_def)
  have "mem_rd info_mem (entry_addr 0) 32 = replicate 32 0" by (rule info_entry_rd)
  moreover have "mem_rd info_mem (entry_addr 0) 4 = take 4 (mem_rd info_mem (entry_addr 0) 32)"
    "mem_rd info_mem (entry_addr 0 + 4) 4 = take 4 (drop 4 (mem_rd info_mem (entry_addr 0) 32))"
    by (simp_all add: drop_mem_rd take_mem_rd)
  ultimately have w0: "mem_rd info_mem (entry_addr 0) 4 = replicate 4 0" "mem_rd info_mem (entry_addr 0 + 4) 4 = replicate 4 0"
    by (simp_all only:) simp_all
  have k: "mem_word info_mem (entry_addr 0) = 0" "mem_word info_mem (entry_addr 0 + 4) = 0"
    using w0 by (simp_all add: mem_word_def eval_nat_numeral)
  have "mem_word info_mem (entry_addr 1) = en_owner (table_entry info_mem 1)"
    by (simp add: mem_word_def table_entry_def entry_of_bytes_def take_mem_rd)
  then have o1: "mem_word info_mem (entry_addr 1) = 0" using info_fields by simp
  have "find (\<lambda>i. en_key (table_entry info_mem i) = info_key) [0..<128] = Some 1"
    unfolding find_Some_iff using k info_key_value info_fields(1,2)
    by (intro exI [of _ 1]) (auto simp: table_entry_key)
  moreover have "padded 8 (take 8 NFP_RESOURCE_NFP_HWINFO) \<noteq> padded 8 NFP_RESOURCE_TBL_NAME" by code_simp
  ultimately have "resource_free info_mem NFP_RESOURCE_NFP_HWINFO 1"
    using k o1 word_marks(3) by (simp add: resource_free_def info_key_def NFP_RESOURCE_TBL_KEY_def)
  moreover have "mu_range 24 info_page 0x100"
    by (simp add: mu_range_def info_page_def mask_eq_exp_minus_1)
  ultimately show "plain_resource 24 info_mem NFP_RESOURCE_NFP_HWINFO 1"
    unfolding plain_resource_def p using info_far info_fields by simp
qed

lemma info_pairs_ok: "\<forall>kv\<in>set info_pairs. pair_ok kv"
  by (simp add: info_pairs_def pair_ok_def zfree_def)

text \<open>The driver of the master with interface 1 on this memory.\<close>

definition info_drv :: "mu_hw drv" where
  "info_drv = a_drv\<lparr>drv_world := mu_world 1 info_mem\<rparr>"

lemma info_drv_ok:
  "cache_rep info_drv []" "NFP_CPP_MODEL_IS_6000 (model (w_cpp (drv_world info_drv)))"
  "bus_ready 24 (drv_world info_drv)" "cfg (w_pcie (drv_world info_drv)) = dev_base"
  "e_mem (w_hw (drv_world info_drv)) = info_mem"
  using a_drv_rep a_drv_model mu_ready
  by (simp_all add: info_drv_def cache_rep_def a_drv_def mu_world_def)

end
