(* ===== verification/Nfp_Field.thy ===== *)
theory Nfp_Field
  imports Nfp_Prelude
begin

text \<open>
  Bit fields of 64-bit registers: the macros of user/nfpcore/nfp_nsp.h and nfp_nsp_eth.c.
\<close>

definition GENMASK_ULL :: "nat \<Rightarrow> nat \<Rightarrow> u64" where
  "GENMASK_ULL h l = (NOT 0 - push_bit l 1 + 1) AND drop_bit (64 - 1 - h) (NOT 0)"

definition BIT_ULL :: "nat \<Rightarrow> u64" where "BIT_ULL x = push_bit x 1"

text \<open>\<open>__builtin_ffsll(x) - 1\<close>, the index of the lowest bit of a mask that is not zero.\<close>

definition bf_shf :: "u64 \<Rightarrow> nat" where
  "bf_shf x = length (takeWhile (\<lambda>i. \<not> bit x i) [0..<64])"

definition FIELD_GET :: "u64 \<Rightarrow> u64 \<Rightarrow> u64" where
  "FIELD_GET m reg = drop_bit (bf_shf m) (reg AND m)"

definition FIELD_FIT :: "u64 \<Rightarrow> u64 \<Rightarrow> bool" where
  "FIELD_FIT m v \<longleftrightarrow> push_bit (bf_shf m) v AND NOT m = 0"

definition FIELD_PREP :: "u64 \<Rightarrow> u64 \<Rightarrow> u64" where
  "FIELD_PREP m v = push_bit (bf_shf m) v AND m"

section \<open>Masks of adjacent bits\<close>

lemma unat_less_bits: "unat (v :: 'a::len word) < 2 ^ k \<longleftrightarrow> (\<forall>i. bit v i \<longrightarrow> i < k)"
proof -
  have "unat v < 2 ^ k \<longleftrightarrow> take_bit k v = v"
    unfolding word_unat_eq_iff unsigned_take_bit_eq by (simp add: take_bit_nat_eq_self_iff)
  also have "\<dots> \<longleftrightarrow> (\<forall>i. bit v i \<longrightarrow> i < k)" by (auto simp: bit_eq_iff bit_take_bit_iff dest: bit_imp_le_length)
  finally show ?thesis .
qed

lemma bit_GENMASK: "h < 64 \<Longrightarrow> bit (GENMASK_ULL h l) i \<longleftrightarrow> l \<le> i \<and> i \<le> h"
proof -
  assume h: "h < 64"
  have "NOT 0 - push_bit l 1 + 1 = (NOT (mask l) :: u64)"
    by (simp add: mask_eq_exp_minus_1 push_bit_eq_mult minus_exp_eq_not_mask)
  then show ?thesis using h
    by (auto simp: GENMASK_ULL_def bit_and_iff bit_not_iff_eq bit_mask_iff bit_drop_bit_eq dest: bit_imp_le_length)
qed

lemma bit_BIT_ULL: "bit (BIT_ULL x) i \<longleftrightarrow> x = i \<and> x < 64"
  unfolding BIT_ULL_def bit_push_bit_iff by (auto simp: bit_1_iff)

text \<open>A field: the bits from \<open>l\<close> to \<open>h\<close>.\<close>

definition field_mask :: "u64 \<Rightarrow> nat \<Rightarrow> nat \<Rightarrow> bool" where
  "field_mask m h l \<longleftrightarrow> l \<le> h \<and> h < 64 \<and> (\<forall>i. bit m i \<longleftrightarrow> l \<le> i \<and> i \<le> h)"

lemma field_GENMASK: "l \<le> h \<Longrightarrow> h < 64 \<Longrightarrow> field_mask (GENMASK_ULL h l) h l"
  by (simp add: field_mask_def bit_GENMASK)

lemma field_BIT: "x < 64 \<Longrightarrow> field_mask (BIT_ULL x) x x"
  by (auto simp: field_mask_def bit_BIT_ULL)

lemma bf_shf_field:
  assumes "field_mask m h l"
  shows "bf_shf m = l"
proof -
  have m: "l < 64" "bit m i \<longleftrightarrow> l \<le> i \<and> i \<le> h" "l \<le> h" for i using assms by (auto simp: field_mask_def)
  have "[0..<64] = [0..<l] @ [l..<64]" using m(1) upt_add_eq_append [of 0 l "64 - l"] by simp
  then have u: "[0..<64] = [0..<l] @ l # [Suc l..<64]" using upt_conv_Cons [OF m(1)] by argo
  have "takeWhile (\<lambda>i. \<not> bit m i) [0..<64] = [0..<l]" unfolding u by (subst takeWhile_append2) (simp_all add: m)
  then show ?thesis by (simp add: bf_shf_def)
qed

lemma bit_FIELD_GET:
  assumes "field_mask m h l"
  shows "bit (FIELD_GET m reg) i \<longleftrightarrow> i \<le> h - l \<and> bit reg (l + i)"
proof -
  have m: "bit m i \<longleftrightarrow> l \<le> i \<and> i \<le> h" "l \<le> h" for i using assms by (auto simp: field_mask_def)
  show ?thesis unfolding FIELD_GET_def bf_shf_field [OF assms] bit_drop_bit_eq bit_and_iff o_def m(1) using m(2) by auto
qed

lemma bit_FIELD_PREP:
  assumes "field_mask m h l"
  shows "bit (FIELD_PREP m v) i \<longleftrightarrow> l \<le> i \<and> i \<le> h \<and> bit v (i - l)"
proof -
  have m: "bit m i \<longleftrightarrow> l \<le> i \<and> i \<le> h" "h < 64" for i using assms by (auto simp: field_mask_def)
  show ?thesis unfolding FIELD_PREP_def bf_shf_field [OF assms] bit_push_bit_iff bit_and_iff m(1) using m(2) by auto
qed

text \<open>A value fits when it has no bits past the width of the field.\<close>

lemma FIELD_FIT_iff:
  assumes "field_mask m h l"
  shows "FIELD_FIT m v \<longleftrightarrow> (\<forall>i. l + i < 64 \<and> bit v i \<longrightarrow> l + i \<le> h)"
proof -
  have m: "bit m i \<longleftrightarrow> l \<le> i \<and> i \<le> h" for i using assms by (auto simp: field_mask_def)
  have "FIELD_FIT m v \<longleftrightarrow> (\<forall>j. \<not> bit (push_bit l v AND NOT m) j)"
    unfolding FIELD_FIT_def bf_shf_field [OF assms] by (metis bit_word_eqI bit_0_eq bot_apply bot_bool_def)
  also have "\<dots> \<longleftrightarrow> (\<forall>j<64. l \<le> j \<and> bit v (j - l) \<longrightarrow> j \<le> h)"
    unfolding bit_and_iff bit_not_iff_eq bit_push_bit_iff m by (auto dest: bit_imp_le_length)
  also have "\<dots> \<longleftrightarrow> (\<forall>i. l + i < 64 \<and> bit v i \<longrightarrow> l + i \<le> h)"
  proof safe
    fix i assume "\<forall>j<64. l \<le> j \<and> bit v (j - l) \<longrightarrow> j \<le> h" "l + i < 64" "bit v i"
    then show "l + i \<le> h" by (metis add_diff_cancel_left' le_add1)
  next
    fix j assume "\<forall>i. l + i < 64 \<and> bit v i \<longrightarrow> l + i \<le> h" "j < 64" "l \<le> j" "bit v (j - l)"
    then show "j \<le> h" by (metis le_add_diff_inverse)
  qed
  finally show ?thesis .
qed

text \<open>What was put into a field is read from it, whatever is in the other fields.\<close>

lemma field_get_prep:
  assumes m: "field_mask m h l" and fit: "FIELD_FIT m v" "unat v < 2 ^ (64 - l)" and r: "r AND m = 0"
  shows "FIELD_GET m (r OR FIELD_PREP m v) = v"
proof (rule bit_word_eqI)
  fix i assume "i < LENGTH(64)"
  have l: "h < 64" "l \<le> h" using m by (simp_all add: field_mask_def)
  have v: "i \<le> h - l" if "bit v i"
  proof -
    have "i < 64 - l" using that fit(2) unat_less_bits by blast
    then have "l + i < 64" using l by simp
    then have "l + i \<le> h" using FIELD_FIT_iff [OF m, of v] fit(1) that by blast
    then show ?thesis by simp
  qed
  have nr: "\<not> bit r (l + i)" if "i \<le> h - l"
  proof
    assume b: "bit r (l + i)"
    have "bit m (l + i)" using m that l by (auto simp: field_mask_def)
    then have "bit (r AND m) (l + i)" using b by (simp add: bit_and_iff)
    then show False using r by simp
  qed
  show "bit (FIELD_GET m (r OR FIELD_PREP m v)) i = bit v i"
  proof (cases "i \<le> h - l")
    case True
    then have "l + i \<le> h" using l by simp
    then show ?thesis unfolding bit_FIELD_GET [OF m] bit_or_iff bit_FIELD_PREP [OF m] using nr True by simp
  next
    case False
    then show ?thesis unfolding bit_FIELD_GET [OF m] using v by blast
  qed
qed

text \<open>Fields that do not overlap.\<close>

lemma field_get_other:
  assumes "field_mask m h l" "field_mask m' h' l'" "h < l' \<or> h' < l"
  shows "FIELD_GET m (r OR FIELD_PREP m' v) = FIELD_GET m r"
  by (rule bit_word_eqI)
    (use assms in \<open>auto simp: field_mask_def bit_FIELD_GET [OF assms(1)] bit_or_iff bit_FIELD_PREP [OF assms(2)]\<close>)

lemma field_get_bound:
  assumes "field_mask m h l"
  shows "unat (FIELD_GET m r) < 2 ^ (h - l + 1)"
  unfolding unat_less_bits bit_FIELD_GET [OF assms] by auto

end
