(* ===== verification/Nfp_Nsp.thy ===== *)
theory Nfp_Nsp
  imports Nfp_Field Nfp_Resource
begin

text \<open>
  The service processor of the device (user/nfpcore/nfp_nsp.c, nfp_nsp.h): commands are given
  through 64-bit registers, their data through a buffer in device memory. The processor works while
  the driver sleeps; what it does then is a parameter.
\<close>

section \<open>Registers and commands\<close>

definition NSP_STATUS :: u64 where "NSP_STATUS = 0x00"
definition NSP_STATUS_MAGIC :: u64 where "NSP_STATUS_MAGIC = GENMASK_ULL 63 48"
definition NSP_STATUS_MAJOR :: u64 where "NSP_STATUS_MAJOR = GENMASK_ULL 47 44"
definition NSP_STATUS_MINOR :: u64 where "NSP_STATUS_MINOR = GENMASK_ULL 43 32"
definition NSP_STATUS_RESULT :: u64 where "NSP_STATUS_RESULT = GENMASK_ULL 15 8"
definition NSP_STATUS_BUSY :: u64 where "NSP_STATUS_BUSY = BIT_ULL 0"

definition NSP_COMMAND :: u64 where "NSP_COMMAND = 0x08"
definition NSP_COMMAND_OPTION :: u64 where "NSP_COMMAND_OPTION = GENMASK_ULL 63 32"
definition NSP_COMMAND_CODE :: u64 where "NSP_COMMAND_CODE = GENMASK_ULL 31 16"
definition NSP_COMMAND_START :: u64 where "NSP_COMMAND_START = BIT_ULL 0"

definition NSP_BUFFER :: u64 where "NSP_BUFFER = 0x10"
definition NSP_BUFFER_CPP :: u64 where "NSP_BUFFER_CPP = GENMASK_ULL 63 40"
definition NSP_BUFFER_ADDRESS :: u64 where "NSP_BUFFER_ADDRESS = GENMASK_ULL 37 0"

definition NSP_DFLT_BUFFER :: u64 where "NSP_DFLT_BUFFER = 0x18"
definition NSP_DFLT_BUFFER_CONFIG :: u64 where "NSP_DFLT_BUFFER_CONFIG = 0x20"
definition NSP_DFLT_BUFFER_SIZE_MB :: u64 where "NSP_DFLT_BUFFER_SIZE_MB = GENMASK_ULL 7 0"

definition NSP_MAGIC :: u64 where "NSP_MAGIC = 0xab10"
definition NSP_MAJOR :: u16 where "NSP_MAJOR = 0"
definition NSP_MINOR :: u16 where "NSP_MINOR = 8"

datatype nfp_nsp_cmd =
    SPCODE_NOOP | SPCODE_SOFT_RESET | SPCODE_FW_DEFAULT | SPCODE_PHY_INIT | SPCODE_MAC_INIT
  | SPCODE_PHY_RXADAPT | SPCODE_FW_LOAD | SPCODE_ETH_RESCAN | SPCODE_ETH_CONTROL
  | SPCODE_NSP_SENSORS | SPCODE_NSP_IDENTIFY

fun spcode :: "nfp_nsp_cmd \<Rightarrow> u16" where
  "spcode SPCODE_NOOP = 0"
| "spcode SPCODE_SOFT_RESET = 1"
| "spcode SPCODE_FW_DEFAULT = 2"
| "spcode SPCODE_PHY_INIT = 3"
| "spcode SPCODE_MAC_INIT = 4"
| "spcode SPCODE_PHY_RXADAPT = 5"
| "spcode SPCODE_FW_LOAD = 6"
| "spcode SPCODE_ETH_RESCAN = 7"
| "spcode SPCODE_ETH_CONTROL = 8"
| "spcode SPCODE_NSP_SENSORS = 12"
| "spcode SPCODE_NSP_IDENTIFY = 13"

section \<open>The handle\<close>

text \<open>\<open>nsp_entries\<close> is the buffer with the port table while the configuration is changed.\<close>

record nfp_nsp =
  nsp_res :: nfp_resource
  ver_major :: u16
  ver_minor :: u16
  nsp_modified :: int
  nsp_idx :: u32
  nsp_entries :: "u8 list option"

definition nfp_nsp_config_modified :: "nfp_nsp \<Rightarrow> int" where
  "nfp_nsp_config_modified state = nsp_modified state"

definition nfp_nsp_config_set_modified :: "int \<Rightarrow> nfp_nsp \<Rightarrow> nfp_nsp" where
  "nfp_nsp_config_set_modified modified state = state\<lparr>nsp_modified := modified\<rparr>"

definition nfp_nsp_config_entries :: "nfp_nsp \<Rightarrow> u8 list option" where
  "nfp_nsp_config_entries state = nsp_entries state"

definition nfp_nsp_config_idx :: "nfp_nsp \<Rightarrow> u32" where
  "nfp_nsp_config_idx state = nsp_idx state"

definition nfp_nsp_config_set_state :: "u8 list option \<Rightarrow> u32 \<Rightarrow> nfp_nsp \<Rightarrow> nfp_nsp" where
  "nfp_nsp_config_set_state entries idx state = state\<lparr>nsp_entries := entries, nsp_idx := idx\<rparr>"

definition nfp_nsp_config_clear_state :: "nfp_nsp \<Rightarrow> nfp_nsp" where
  "nfp_nsp_config_clear_state state = state\<lparr>nsp_entries := None, nsp_idx := 0\<rparr>"

definition nfp_nsp_get_abi_ver_major :: "nfp_nsp \<Rightarrow> u16" where
  "nfp_nsp_get_abi_ver_major state = ver_major state"

definition nfp_nsp_get_abi_ver_minor :: "nfp_nsp \<Rightarrow> u16" where
  "nfp_nsp_get_abi_ver_minor state = ver_minor state"

definition nfp_nsp_has_mac_reinit :: "nfp_nsp \<Rightarrow> bool" where
  "nfp_nsp_has_mac_reinit state \<longleftrightarrow> nfp_nsp_get_abi_ver_minor state > 20"

definition nfp_nsp_check :: "'h mmio \<Rightarrow> nfp_nsp \<Rightarrow> 'h world \<Rightarrow> int \<times> nfp_nsp \<times> 'h world" where
  "nfp_nsp_check M state w =
     (let nsp_cpp = nfp_resource_cpp_id (nsp_res state);
          nsp_status = nfp_resource_address (nsp_res state) + NSP_STATUS
      in case nfp_cpp_readq M nsp_cpp nsp_status w of
           (Inl e, w) \<Rightarrow> (ret_code e, state, w)
         | (Inr reg, w) \<Rightarrow>
             if FIELD_GET NSP_STATUS_MAGIC reg \<noteq> NSP_MAGIC then (- errno_code ENODEV, state, w)
             else
               let state = state\<lparr>ver_major := ucast (FIELD_GET NSP_STATUS_MAJOR reg),
                                 ver_minor := ucast (FIELD_GET NSP_STATUS_MINOR reg)\<rparr>
               in if ver_major state \<noteq> NSP_MAJOR \<or> ver_minor state < NSP_MINOR
                  then (- errno_code EINVAL, state, w)
                  else if reg AND NSP_STATUS_BUSY \<noteq> 0 then (- errno_code EBUSY, state, w)
                  else (0, state, w))"

section \<open>Commands\<close>

text \<open>The polling loop: \<open>nap k\<close> is what the processor does in the sleep after read \<open>k\<close>. \<open>Inr\<close> is the
  value of the register when the loop ends with success.\<close>

function nsp_wait_loop ::
  "'h mmio \<Rightarrow> (nat \<Rightarrow> 'h \<Rightarrow> 'h) \<Rightarrow> u32 \<Rightarrow> u64 \<Rightarrow> u64 \<Rightarrow> u64 \<Rightarrow> nat \<Rightarrow> 'h world \<Rightarrow> (c_fail + u64) \<times> 'h world" where
  "nsp_wait_loop M nap nsp_cpp addr msk v count w =
     (case nfp_cpp_readq M nsp_cpp addr w of
        (Inl e, w) \<Rightarrow> (Inl e, w)
      | (Inr reg, w) \<Rightarrow>
          if reg AND msk = v then (Inr reg, w)
          else
            let w = w\<lparr>w_hw := nap count (w_hw w)\<rparr>
            in if count > 1000 then (Inl (RetNeg ETIMEDOUT), w)
               else nsp_wait_loop M nap nsp_cpp addr msk v (Suc count) w)"
  by pat_completeness auto
termination by (relation "measure (\<lambda>(_, _, _, _, _, _, count, _). 1002 - count)") auto

declare nsp_wait_loop.simps [simp del]

definition nfp_nsp_wait_reg ::
  "'h mmio \<Rightarrow> (nat \<Rightarrow> 'h \<Rightarrow> 'h) \<Rightarrow> u32 \<Rightarrow> u64 \<Rightarrow> u64 \<Rightarrow> u64 \<Rightarrow> 'h world \<Rightarrow> (c_fail + u64) \<times> 'h world" where
  "nfp_nsp_wait_reg M nap nsp_cpp addr msk v w = nsp_wait_loop M nap nsp_cpp addr msk v 0 w"

text \<open>What the processor does while the driver waits for the start and for the end of a command.\<close>

record 'h nsp_env =
  ne_start :: "nat \<Rightarrow> 'h \<Rightarrow> 'h"
  ne_done :: "nat \<Rightarrow> 'h \<Rightarrow> 'h"

text \<open>The end of a command: the result code of the status register and the option that the
  processor left in the command register, as an \<open>int\<close>.\<close>

definition nsp_result :: "u64 \<Rightarrow> u64 \<Rightarrow> int" where
  "nsp_result status command =
     (let ret_val = FIELD_GET NSP_COMMAND_OPTION command; err = uint (FIELD_GET NSP_STATUS_RESULT status)
      in if err \<noteq> 0 then - err else sint (ucast ret_val :: u32))"

definition nfp_nsp_command ::
  "'h mmio \<Rightarrow> 'h nsp_env \<Rightarrow> nfp_nsp \<Rightarrow> u16 \<Rightarrow> u32 \<Rightarrow> u32 \<Rightarrow> u64 \<Rightarrow> 'h world \<Rightarrow> int \<times> nfp_nsp \<times> 'h world" where
  "nfp_nsp_command M ne state code opt buff_cpp buff_addr w =
     (let nsp_cpp = nfp_resource_cpp_id (nsp_res state);
          nsp_base = nfp_resource_address (nsp_res state);
          nsp_status = nsp_base + NSP_STATUS; nsp_command = nsp_base + NSP_COMMAND;
          nsp_buffer = nsp_base + NSP_BUFFER;
          (err, state, w) = nfp_nsp_check M state w
      in if err \<noteq> 0 then (err, state, w)
         else if \<not> FIELD_FIT NSP_BUFFER_CPP (ucast (drop_bit 8 buff_cpp)) \<or> \<not> FIELD_FIT NSP_BUFFER_ADDRESS buff_addr
           then (- errno_code EINVAL, state, w)
         else
           let (err, w) = nfp_cpp_writeq M nsp_cpp nsp_buffer
                 (FIELD_PREP NSP_BUFFER_CPP (ucast (drop_bit 8 buff_cpp)) OR FIELD_PREP NSP_BUFFER_ADDRESS buff_addr) w
           in if err < 0 then (err, state, w)
              else
                let (err, w) = nfp_cpp_writeq M nsp_cpp nsp_command
                      (FIELD_PREP NSP_COMMAND_OPTION (ucast opt) OR FIELD_PREP NSP_COMMAND_CODE (ucast code)
                       OR FIELD_PREP NSP_COMMAND_START 1) w
                in if err < 0 then (err, state, w)
                   else case nfp_nsp_wait_reg M (ne_start ne) nsp_cpp nsp_command NSP_COMMAND_START 0 w of
                          (Inl e, w) \<Rightarrow> (ret_code e, state, w)
                        | (Inr _, w) \<Rightarrow>
                            (case nfp_nsp_wait_reg M (ne_done ne) nsp_cpp nsp_status NSP_STATUS_BUSY 0 w of
                               (Inl e, w) \<Rightarrow> (ret_code e, state, w)
                             | (Inr reg, w) \<Rightarrow>
                                 (case nfp_cpp_readq M nsp_cpp nsp_command w of
                                    (Inl e, w) \<Rightarrow> (ret_code e, state, w)
                                  | (Inr ret_val, w) \<Rightarrow> (nsp_result reg ret_val, state, w))))"

definition SZ_1M :: u64 where "SZ_1M = 0x00100000"

text \<open>The buffers may be \<open>NULL\<close>. The result has the output buffer as it is left.\<close>

definition nfp_nsp_command_buf ::
  "'h mmio \<Rightarrow> 'h nsp_env \<Rightarrow> nfp_nsp \<Rightarrow> u16 \<Rightarrow> u32 \<Rightarrow> u8 list option \<Rightarrow> u32 \<Rightarrow> u8 list option \<Rightarrow> u32
     \<Rightarrow> 'h world \<Rightarrow> int \<times> u8 list option \<times> nfp_nsp \<times> 'h world" where
  "nfp_nsp_command_buf M ne nsp code opt in_buf in_size out_buf out_size w =
     (let cid = nfp_resource_cpp_id (nsp_res nsp); base = nfp_resource_address (nsp_res nsp)
      in if ver_minor nsp < 13 then (- errno_code EOPNOTSUPP, out_buf, nsp, w)
         else case nfp_cpp_readq M cid (base + NSP_DFLT_BUFFER_CONFIG) w of
           (Inl e, w) \<Rightarrow> (ret_code e, out_buf, nsp, w)
         | (Inr reg, w) \<Rightarrow>
             if FIELD_GET NSP_DFLT_BUFFER_SIZE_MB reg * SZ_1M < ucast (max in_size out_size)
             then (- errno_code EINVAL, out_buf, nsp, w)
             else case nfp_cpp_readq M cid (base + NSP_DFLT_BUFFER) w of
               (Inl e, w) \<Rightarrow> (ret_code e, out_buf, nsp, w)
             | (Inr reg, w) \<Rightarrow>
                 let cpp_id = ucast (push_bit 8 (FIELD_GET NSP_BUFFER_CPP reg)) :: u32;
                     cpp_buf = FIELD_GET NSP_BUFFER_ADDRESS reg;
                     (err, w) = (case in_buf of
                        Some bs \<Rightarrow> if in_size \<noteq> 0 then nfp_cpp_write M cpp_id cpp_buf bs (ucast in_size) w else (0, w)
                      | None \<Rightarrow> (0, w))
                 in if err < 0 then (err, out_buf, nsp, w)
                    else
                      let rest = unat (out_size - in_size);
                          (err, out_buf, w) = (case out_buf of
                             Some ob \<Rightarrow>
                               if out_size \<noteq> 0 \<and> out_size > in_size
                               then let ob = replicate rest 0 @ drop rest ob;
                                        (err, w) = nfp_cpp_write M cpp_id (cpp_buf + ucast in_size) ob
                                          (ucast (out_size - in_size)) w
                                    in (err, Some ob, w)
                               else (0, Some ob, w)
                           | None \<Rightarrow> (0, None, w))
                      in if err < 0 then (err, out_buf, nsp, w)
                         else
                           let (ret, nsp, w) = nfp_nsp_command M ne nsp code opt cpp_id cpp_buf w
                           in if ret < 0 then (ret, out_buf, nsp, w)
                              else case out_buf of
                                     None \<Rightarrow> (ret, None, nsp, w)
                                   | Some ob \<Rightarrow>
                                       if out_size = 0 then (ret, Some ob, nsp, w)
                                       else
                                         let (err, bs, w) = nfp_cpp_read M cpp_id cpp_buf (ucast out_size) w;
                                             ob = bs @ drop (length bs) ob
                                         in if err < 0 then (err, Some ob, nsp, w) else (ret, Some ob, nsp, w))"

text \<open>Waiting for the processor: \<open>nes k\<close> is what it does during attempt \<open>k\<close>, \<open>nap k\<close> after it.\<close>

function nsp_ready_loop ::
  "'h mmio \<Rightarrow> (nat \<Rightarrow> 'h nsp_env) \<Rightarrow> (nat \<Rightarrow> 'h \<Rightarrow> 'h) \<Rightarrow> nat \<Rightarrow> nfp_nsp \<Rightarrow> 'h world \<Rightarrow> int \<times> nfp_nsp \<times> 'h world" where
  "nsp_ready_loop M nes nap count state w =
     (let (err, state, w) = nfp_nsp_command M (nes count) state (spcode SPCODE_NOOP) 0 0 0 w
      in if err \<noteq> - errno_code EAGAIN then (err, state, w)
         else
           let w = w\<lparr>w_hw := nap count (w_hw w)\<rparr>
           in if count > 1000 then (- errno_code ETIMEDOUT, state, w)
              else nsp_ready_loop M nes nap (Suc count) state w)"
  by pat_completeness auto
termination by (relation "measure (\<lambda>(_, _, _, count, _, _). 1002 - count)") auto

declare nsp_ready_loop.simps [simp del]

definition nfp_nsp_wait ::
  "'h mmio \<Rightarrow> (nat \<Rightarrow> 'h nsp_env) \<Rightarrow> (nat \<Rightarrow> 'h \<Rightarrow> 'h) \<Rightarrow> nfp_nsp \<Rightarrow> 'h world \<Rightarrow> int \<times> nfp_nsp \<times> 'h world" where
  "nfp_nsp_wait M nes nap state w = nsp_ready_loop M nes nap 0 state w"

definition nfp_nsp_device_soft_reset ::
  "'h mmio \<Rightarrow> 'h nsp_env \<Rightarrow> nfp_nsp \<Rightarrow> 'h world \<Rightarrow> int \<times> nfp_nsp \<times> 'h world" where
  "nfp_nsp_device_soft_reset M ne state w = nfp_nsp_command M ne state (spcode SPCODE_SOFT_RESET) 0 0 0 w"

definition nfp_nsp_mac_reinit ::
  "'h mmio \<Rightarrow> 'h nsp_env \<Rightarrow> nfp_nsp \<Rightarrow> 'h world \<Rightarrow> int \<times> nfp_nsp \<times> 'h world" where
  "nfp_nsp_mac_reinit M ne state w = nfp_nsp_command M ne state (spcode SPCODE_MAC_INIT) 0 0 0 w"

definition nfp_nsp_load_fw ::
  "'h mmio \<Rightarrow> 'h nsp_env \<Rightarrow> nfp_nsp \<Rightarrow> u8 list option \<Rightarrow> u32 \<Rightarrow> 'h world \<Rightarrow> int \<times> u8 list option \<times> nfp_nsp \<times> 'h world" where
  "nfp_nsp_load_fw M ne state buf sz w =
     nfp_nsp_command_buf M ne state (spcode SPCODE_FW_LOAD) sz buf sz None 0 w"

definition nfp_nsp_read_eth_table ::
  "'h mmio \<Rightarrow> 'h nsp_env \<Rightarrow> nfp_nsp \<Rightarrow> u8 list option \<Rightarrow> u32 \<Rightarrow> 'h world \<Rightarrow> int \<times> u8 list option \<times> nfp_nsp \<times> 'h world" where
  "nfp_nsp_read_eth_table M ne state buf sz w =
     nfp_nsp_command_buf M ne state (spcode SPCODE_ETH_RESCAN) sz None 0 buf sz w"

definition nfp_nsp_write_eth_table ::
  "'h mmio \<Rightarrow> 'h nsp_env \<Rightarrow> nfp_nsp \<Rightarrow> u8 list option \<Rightarrow> u32 \<Rightarrow> 'h world \<Rightarrow> int \<times> u8 list option \<times> nfp_nsp \<times> 'h world" where
  "nfp_nsp_write_eth_table M ne state buf sz w =
     nfp_nsp_command_buf M ne state (spcode SPCODE_ETH_CONTROL) sz buf sz None 0 w"

definition nfp_nsp_read_identify ::
  "'h mmio \<Rightarrow> 'h nsp_env \<Rightarrow> nfp_nsp \<Rightarrow> u8 list option \<Rightarrow> u32 \<Rightarrow> 'h world \<Rightarrow> int \<times> u8 list option \<times> nfp_nsp \<times> 'h world" where
  "nfp_nsp_read_identify M ne state buf sz w =
     nfp_nsp_command_buf M ne state (spcode SPCODE_NSP_IDENTIFY) sz None 0 buf sz w"

definition nfp_nsp_read_sensors ::
  "'h mmio \<Rightarrow> 'h nsp_env \<Rightarrow> nfp_nsp \<Rightarrow> u32 \<Rightarrow> u8 list option \<Rightarrow> u32 \<Rightarrow> 'h world \<Rightarrow> int \<times> u8 list option \<times> nfp_nsp \<times> 'h world" where
  "nfp_nsp_read_sensors M ne state sensor_mask buf sz w =
     nfp_nsp_command_buf M ne state (spcode SPCODE_NSP_SENSORS) sensor_mask None 0 buf sz w"

section \<open>Opening and closing\<close>

text \<open>\<open>"nfp.sp"\<close>\<close>

definition NFP_RESOURCE_NSP :: "u8 list" where
  "NFP_RESOURCE_NSP = [0x6e, 0x66, 0x70, 0x2e, 0x73, 0x70]"

definition nfp_nsp_close :: "'h mmio \<Rightarrow> nfp_nsp \<Rightarrow> 'h drv \<Rightarrow> 'h drv" where
  "nfp_nsp_close M state s = nfp_resource_release M (nsp_res state) s"

definition nfp_nsp_open :: "'h mmio \<Rightarrow> 'h others \<Rightarrow> 'h drv \<Rightarrow> (nfp_nsp option \<times> 'h drv) option" where
  "nfp_nsp_open M e s =
     (case acquire_named M e NFP_RESOURCE_NSP s of
        None \<Rightarrow> None
      | Some (None, s) \<Rightarrow> Some (None, s)
      | Some (Some res, s) \<Rightarrow>
          let (ok, w) = c_malloc (drv_world s); s = s\<lparr>drv_world := w\<rparr>
          in if \<not> ok then Some (None, nfp_resource_release M res s)
             else
               let state = \<lparr>nsp_res = res, ver_major = 0, ver_minor = 0, nsp_modified = 0, nsp_idx = 0,
                     nsp_entries = None\<rparr>;
                   (err, state, w) = nfp_nsp_check M state w; s = s\<lparr>drv_world := w\<rparr>
               in if err \<noteq> 0 then Some (None, nfp_nsp_close M state s) else Some (Some state, s))"

end
