(* ===== verification/Nsp_Protocol.thy ===== *)
theory Nsp_Protocol
  imports Nfp_Nsp Cpp_Progress
begin

text \<open>
  The dialogue with the service processor. The locale \<open>nsp_port\<close> is what the command functions rely
  on: the registers can be read and written through the bus. The processor is described by what it
  does to the registers in each sleep of the driver. On a bus that meets the contract \<open>pcie2cpp\<close> the
  registers of an aligned window of device memory are such a port.
\<close>

type_synonym nsp_regs = "u64 \<Rightarrow> u64"

definition reg_file :: "u64 set" where
  "reg_file = {NSP_STATUS, NSP_COMMAND, NSP_BUFFER, NSP_DFLT_BUFFER, NSP_DFLT_BUFFER_CONFIG}"

text \<open>Register files are compared on the registers that exist.\<close>

definition same_regs :: "nsp_regs \<Rightarrow> nsp_regs \<Rightarrow> bool" where
  "same_regs R Q \<longleftrightarrow> (\<forall>k\<in>reg_file. R k = Q k)"

text \<open>\<open>P k\<close> is what the processor does in sleep \<open>k\<close>; the registers before read \<open>k\<close>.\<close>

fun seen :: "(nat \<Rightarrow> nsp_regs \<Rightarrow> nsp_regs) \<Rightarrow> nat \<Rightarrow> nsp_regs \<Rightarrow> nat \<Rightarrow> nsp_regs" where
  "seen P c R 0 = R"
| "seen P c R (Suc k) = seen P (Suc c) (P c R) k"

text \<open>What the check asks of the status register.\<close>

definition nsp_alive :: "u64 \<Rightarrow> bool" where
  "nsp_alive status \<longleftrightarrow> FIELD_GET NSP_STATUS_MAGIC status = NSP_MAGIC
     \<and> (ucast (FIELD_GET NSP_STATUS_MAJOR status) :: u16) = NSP_MAJOR
     \<and> NSP_MINOR \<le> (ucast (FIELD_GET NSP_STATUS_MINOR status) :: u16) \<and> status AND NSP_STATUS_BUSY = 0"

definition nsp_at :: "u32 \<Rightarrow> u64 \<Rightarrow> nfp_nsp \<Rightarrow> bool" where
  "nsp_at cid base state \<longleftrightarrow> nfp_resource_cpp_id (nsp_res state) = cid \<and> nfp_resource_address (nsp_res state) = base"

text \<open>The state after a check that read the version.\<close>

definition nsp_versioned :: "u64 \<Rightarrow> nfp_nsp \<Rightarrow> nfp_nsp" where
  "nsp_versioned status state = state\<lparr>ver_major := ucast (FIELD_GET NSP_STATUS_MAJOR status),
     ver_minor := ucast (FIELD_GET NSP_STATUS_MINOR status)\<rparr>"

text \<open>The registers when a command has been written.\<close>

definition commanded :: "u16 \<Rightarrow> u32 \<Rightarrow> u32 \<Rightarrow> u64 \<Rightarrow> nsp_regs \<Rightarrow> nsp_regs" where
  "commanded code opt buff_cpp buff_addr R = R(
     NSP_BUFFER := FIELD_PREP NSP_BUFFER_CPP (ucast (drop_bit 8 buff_cpp)) OR FIELD_PREP NSP_BUFFER_ADDRESS buff_addr,
     NSP_COMMAND := FIELD_PREP NSP_COMMAND_OPTION (ucast opt) OR FIELD_PREP NSP_COMMAND_CODE (ucast code)
       OR FIELD_PREP NSP_COMMAND_START 1)"

lemma regs_in_file [simp]: "NSP_STATUS \<in> reg_file" "NSP_COMMAND \<in> reg_file" "NSP_BUFFER \<in> reg_file"
  "NSP_DFLT_BUFFER \<in> reg_file" "NSP_DFLT_BUFFER_CONFIG \<in> reg_file"
  by (simp_all add: reg_file_def)

lemma same_regs_refl [simp]: "same_regs R R"
  by (simp add: same_regs_def)

lemma same_regs_trans: "same_regs R Q \<Longrightarrow> same_regs Q S \<Longrightarrow> same_regs R S"
  by (simp add: same_regs_def)

lemma same_regs_upd: "same_regs R Q \<Longrightarrow> same_regs (R(k := v)) (Q(k := v))"
  by (simp add: same_regs_def)

text \<open>A sleep in which the processor does \<open>P k\<close> to the registers, whatever else happens.\<close>

definition nsp_acts :: "('h \<Rightarrow> nsp_regs) \<Rightarrow> (nat \<Rightarrow> 'h \<Rightarrow> 'h) \<Rightarrow> (nat \<Rightarrow> nsp_regs \<Rightarrow> nsp_regs) \<Rightarrow> bool" where
  "nsp_acts reg nap P \<longleftrightarrow> (\<forall>k h R. same_regs (reg h) R \<longrightarrow> same_regs (reg (nap k h)) (P k R))"

locale nsp_port =
  fixes M :: "'h mmio" and cid :: u32 and base :: u64 and up :: "'h world \<Rightarrow> bool" and reg :: "'h \<Rightarrow> nsp_regs"
  assumes rd: "up w \<Longrightarrow> k \<in> reg_file \<Longrightarrow>
      \<exists>w'. nfp_cpp_readq M cid (base + k) w = (Inr (reg (w_hw w) k), w') \<and> up w' \<and> reg (w_hw w') = reg (w_hw w)"
    and wr: "up w \<Longrightarrow> k \<in> reg_file \<Longrightarrow>
      \<exists>w'. nfp_cpp_writeq M cid (base + k) v w = (0, w') \<and> up w' \<and> same_regs (reg (w_hw w')) ((reg (w_hw w))(k := v))"
    and up_hw: "up w \<Longrightarrow> up (w\<lparr>w_hw := h\<rparr>)"
begin

text \<open>One round of the polling loop.\<close>

lemma wait_round:
  assumes "up w" "same_regs (reg (w_hw w)) R" "nsp_acts reg nap P" "k \<in> reg_file"
  shows "R k AND msk = v \<Longrightarrow> \<exists>w'. nsp_wait_loop M nap cid (base + k) msk v c w = (Inr (R k), w') \<and> up w'
      \<and> same_regs (reg (w_hw w')) R"
    "R k AND msk \<noteq> v \<Longrightarrow> c \<le> 1000 \<Longrightarrow> \<exists>w'. nsp_wait_loop M nap cid (base + k) msk v c w =
        nsp_wait_loop M nap cid (base + k) msk v (Suc c) w' \<and> up w' \<and> same_regs (reg (w_hw w')) (P c R)"
    "R k AND msk \<noteq> v \<Longrightarrow> 1000 < c \<Longrightarrow> \<exists>w'. nsp_wait_loop M nap cid (base + k) msk v c w = (Inl (RetNeg ETIMEDOUT), w') \<and> up w'"
proof -
  obtain w' where w': "nfp_cpp_readq M cid (base + k) w = (Inr (R k), w')" "up w'" "reg (w_hw w') = reg (w_hw w)"
    using rd [OF assms(1,4)] assms(2,4) by (auto simp: same_regs_def)
  let ?w = "w'\<lparr>w_hw := nap c (w_hw w')\<rparr>"
  note loop = nsp_wait_loop.simps [of M nap cid "base + k" msk v c w]
  show "R k AND msk = v \<Longrightarrow> \<exists>w'. nsp_wait_loop M nap cid (base + k) msk v c w = (Inr (R k), w') \<and> up w'
      \<and> same_regs (reg (w_hw w')) R" using w' assms(2) by (simp add: loop)
  have "up ?w" "same_regs (reg (w_hw ?w)) (P c R)" using up_hw [OF w'(2)] assms(2,3) w'(3) by (simp_all add: nsp_acts_def)
  then show "R k AND msk \<noteq> v \<Longrightarrow> c \<le> 1000 \<Longrightarrow> \<exists>w'. nsp_wait_loop M nap cid (base + k) msk v c w =
        nsp_wait_loop M nap cid (base + k) msk v (Suc c) w' \<and> up w' \<and> same_regs (reg (w_hw w')) (P c R)"
    "R k AND msk \<noteq> v \<Longrightarrow> 1000 < c \<Longrightarrow> \<exists>w'. nsp_wait_loop M nap cid (base + k) msk v c w = (Inl (RetNeg ETIMEDOUT), w') \<and> up w'"
    using w'(1) by (auto simp: loop Let_def)
qed

lemma wait_loop_done:
  assumes "up w" "same_regs (reg (w_hw w)) R" "nsp_acts reg nap P" "k \<in> reg_file"
    and "c + i \<le> 1001" "\<forall>j<i. seen P c R j k AND msk \<noteq> v" "seen P c R i k AND msk = v"
  shows "\<exists>w'. nsp_wait_loop M nap cid (base + k) msk v c w = (Inr (seen P c R i k), w') \<and> up w'
    \<and> same_regs (reg (w_hw w')) (seen P c R i)"
  using assms
proof (induction i arbitrary: c R w)
  case 0
  then show ?case using wait_round(1) [OF 0(1-4)] by simp
next
  case (Suc i)
  have "R k AND msk \<noteq> v" "c \<le> 1000" using Suc.prems(5,6) by auto
  then obtain w' where w': "nsp_wait_loop M nap cid (base + k) msk v c w = nsp_wait_loop M nap cid (base + k) msk v (Suc c) w'"
    "up w'" "same_regs (reg (w_hw w')) (P c R)" using wait_round(2) [OF Suc.prems(1-4)] by blast
  have "\<forall>j<i. seen P (Suc c) (P c R) j k AND msk \<noteq> v" using Suc.prems(6) by auto
  then show ?case unfolding w'(1) using Suc.IH [OF w'(2,3) Suc.prems(3,4)] Suc.prems(5,7) by simp
qed

lemma wait_loop_timeout:
  assumes "up w" "same_regs (reg (w_hw w)) R" "nsp_acts reg nap P" "k \<in> reg_file"
    and "c + i = 1001" "\<forall>j\<le>i. seen P c R j k AND msk \<noteq> v"
  shows "\<exists>w'. nsp_wait_loop M nap cid (base + k) msk v c w = (Inl (RetNeg ETIMEDOUT), w') \<and> up w'"
  using assms
proof (induction i arbitrary: c R w)
  case 0
  then show ?case using wait_round(3) [OF 0(1-4)] by simp
next
  case (Suc i)
  have "R k AND msk \<noteq> v" "c \<le> 1000" using Suc.prems(5,6) by auto
  then obtain w' where w': "nsp_wait_loop M nap cid (base + k) msk v c w = nsp_wait_loop M nap cid (base + k) msk v (Suc c) w'"
    "up w'" "same_regs (reg (w_hw w')) (P c R)" using wait_round(2) [OF Suc.prems(1-4)] by blast
  have "\<forall>j\<le>i. seen P (Suc c) (P c R) j k AND msk \<noteq> v" using Suc.prems(6) by (metis Suc_le_mono seen.simps(2))
  then show ?case unfolding w'(1) using Suc.IH [OF w'(2,3) Suc.prems(3,4)] Suc.prems(5) by simp
qed

lemma check_alive:
  assumes "up w" "nsp_at cid base state" "nsp_alive (reg (w_hw w) NSP_STATUS)"
  shows "\<exists>w'. nfp_nsp_check M state w = (0, nsp_versioned (reg (w_hw w) NSP_STATUS) state, w') \<and> up w'
    \<and> reg (w_hw w') = reg (w_hw w)"
proof -
  obtain w' where w': "nfp_cpp_readq M cid (base + NSP_STATUS) w = (Inr (reg (w_hw w) NSP_STATUS), w')" "up w'"
    "reg (w_hw w') = reg (w_hw w)" using rd [OF assms(1), of NSP_STATUS] by auto
  then show ?thesis using assms(2,3) by (simp add: nfp_nsp_check_def nsp_at_def nsp_alive_def nsp_versioned_def Let_def not_less)
qed

lemma check_absent:
  assumes "up w" "nsp_at cid base state" "FIELD_GET NSP_STATUS_MAGIC (reg (w_hw w) NSP_STATUS) \<noteq> NSP_MAGIC"
  shows "\<exists>w'. nfp_nsp_check M state w = (- errno_code ENODEV, state, w') \<and> up w'"
proof -
  obtain w' where w': "nfp_cpp_readq M cid (base + NSP_STATUS) w = (Inr (reg (w_hw w) NSP_STATUS), w')" "up w'"
    using rd [OF assms(1), of NSP_STATUS] by auto
  then show ?thesis using assms(2,3) by (simp add: nfp_nsp_check_def nsp_at_def Let_def)
qed

text \<open>Up to the first wait: the command is in the registers.\<close>

lemma command_given:
  assumes "up w" "nsp_at cid base state" "nsp_alive (reg (w_hw w) NSP_STATUS)" "FIELD_FIT NSP_BUFFER_ADDRESS buff_addr"
    "FIELD_FIT NSP_BUFFER_CPP (ucast (drop_bit 8 buff_cpp))"
  obtains w1 where "up w1" "same_regs (reg (w_hw w1)) (commanded code opt buff_cpp buff_addr (reg (w_hw w)))"
    "nfp_nsp_command M ne state code opt buff_cpp buff_addr w =
       (let state' = nsp_versioned (reg (w_hw w) NSP_STATUS) state
        in case nfp_nsp_wait_reg M (ne_start ne) cid (base + NSP_COMMAND) NSP_COMMAND_START 0 w1 of
             (Inl e, w) \<Rightarrow> (ret_code e, state', w)
           | (Inr _, w) \<Rightarrow>
               (case nfp_nsp_wait_reg M (ne_done ne) cid (base + NSP_STATUS) NSP_STATUS_BUSY 0 w of
                  (Inl e, w) \<Rightarrow> (ret_code e, state', w)
                | (Inr reg, w) \<Rightarrow>
                    (case nfp_cpp_readq M cid (base + NSP_COMMAND) w of
                       (Inl e, w) \<Rightarrow> (ret_code e, state', w)
                     | (Inr ret_val, w) \<Rightarrow> (nsp_result reg ret_val, state', w))))"
proof -
  obtain w0 where w0: "nfp_nsp_check M state w = (0, nsp_versioned (reg (w_hw w) NSP_STATUS) state, w0)" "up w0"
    "reg (w_hw w0) = reg (w_hw w)" using check_alive [OF assms(1-3)] by blast
  let ?b = "FIELD_PREP NSP_BUFFER_CPP (ucast (drop_bit 8 buff_cpp)) OR FIELD_PREP NSP_BUFFER_ADDRESS buff_addr"
  let ?c = "FIELD_PREP NSP_COMMAND_OPTION (ucast opt) OR FIELD_PREP NSP_COMMAND_CODE (ucast code) OR FIELD_PREP NSP_COMMAND_START 1"
  obtain wb where wb: "nfp_cpp_writeq M cid (base + NSP_BUFFER) ?b w0 = (0, wb)" "up wb"
    "same_regs (reg (w_hw wb)) ((reg (w_hw w))(NSP_BUFFER := ?b))" using wr [OF w0(2), of NSP_BUFFER ?b] w0(3) by auto
  obtain wc where wc: "nfp_cpp_writeq M cid (base + NSP_COMMAND) ?c wb = (0, wc)" "up wc"
    "same_regs (reg (w_hw wc)) ((reg (w_hw wb))(NSP_COMMAND := ?c))" using wr [OF wb(2), of NSP_COMMAND ?c] by auto
  show thesis
  proof (rule that [OF wc(2)])
    show "same_regs (reg (w_hw wc)) (commanded code opt buff_cpp buff_addr (reg (w_hw w)))"
      unfolding commanded_def using same_regs_trans [OF wc(3) same_regs_upd [OF wb(3)]] by simp
  qed (use w0(1) wb(1) wc(1) assms(2,4,5) in \<open>simp add: nfp_nsp_command_def nsp_at_def Let_def\<close>)
qed

theorem command_returns:
  assumes "up w" "nsp_at cid base state" "nsp_alive (reg (w_hw w) NSP_STATUS)" "FIELD_FIT NSP_BUFFER_ADDRESS buff_addr"
    and fit: "FIELD_FIT NSP_BUFFER_CPP (ucast (drop_bit 8 buff_cpp))"
    and acts: "nsp_acts reg (ne_start ne) S" "nsp_acts reg (ne_done ne) D"
    and R1: "R1 = commanded code opt buff_cpp buff_addr (reg (w_hw w))"
    and i: "i \<le> 1001" "\<forall>j<i. seen S 0 R1 j NSP_COMMAND AND NSP_COMMAND_START \<noteq> 0"
      "seen S 0 R1 i NSP_COMMAND AND NSP_COMMAND_START = 0"
    and R2: "R2 = seen S 0 R1 i"
    and k: "k \<le> 1001" "\<forall>j<k. seen D 0 R2 j NSP_STATUS AND NSP_STATUS_BUSY \<noteq> 0"
      "seen D 0 R2 k NSP_STATUS AND NSP_STATUS_BUSY = 0"
    and R3: "R3 = seen D 0 R2 k"
  shows "\<exists>w'. nfp_nsp_command M ne state code opt buff_cpp buff_addr w =
      (nsp_result (R3 NSP_STATUS) (R3 NSP_COMMAND), nsp_versioned (reg (w_hw w) NSP_STATUS) state, w')
    \<and> up w' \<and> same_regs (reg (w_hw w')) R3"
proof (rule command_given [OF assms(1-4) fit, of code opt ne])
  fix w1
  assume w1: "up w1" "same_regs (reg (w_hw w1)) (commanded code opt buff_cpp buff_addr (reg (w_hw w)))"
    and eq: "nfp_nsp_command M ne state code opt buff_cpp buff_addr w =
       (let state' = nsp_versioned (reg (w_hw w) NSP_STATUS) state
        in case nfp_nsp_wait_reg M (ne_start ne) cid (base + NSP_COMMAND) NSP_COMMAND_START 0 w1 of
             (Inl e, w) \<Rightarrow> (ret_code e, state', w)
           | (Inr _, w) \<Rightarrow>
               (case nfp_nsp_wait_reg M (ne_done ne) cid (base + NSP_STATUS) NSP_STATUS_BUSY 0 w of
                  (Inl e, w) \<Rightarrow> (ret_code e, state', w)
                | (Inr reg, w) \<Rightarrow>
                    (case nfp_cpp_readq M cid (base + NSP_COMMAND) w of
                       (Inl e, w) \<Rightarrow> (ret_code e, state', w)
                     | (Inr ret_val, w) \<Rightarrow> (nsp_result reg ret_val, state', w))))"
  have b: "0 + i \<le> 1001" "0 + k \<le> 1001" using i(1) k(1) by simp_all
  obtain w2 v2 where w2: "nsp_wait_loop M (ne_start ne) cid (base + NSP_COMMAND) NSP_COMMAND_START 0 0 w1 = (Inr v2, w2)"
    "up w2" "same_regs (reg (w_hw w2)) R2"
    using wait_loop_done [OF w1 [folded R1] acts(1) regs_in_file(2) b(1) i(2,3)] unfolding R2 by blast
  obtain w3 where w3: "nsp_wait_loop M (ne_done ne) cid (base + NSP_STATUS) NSP_STATUS_BUSY 0 0 w2 = (Inr (R3 NSP_STATUS), w3)"
    "up w3" "same_regs (reg (w_hw w3)) R3"
    using wait_loop_done [OF w2(2,3) acts(2) regs_in_file(1) b(2) k(2,3)] unfolding R3 by blast
  obtain w4 where w4: "nfp_cpp_readq M cid (base + NSP_COMMAND) w3 = (Inr (reg (w_hw w3) NSP_COMMAND), w4)" "up w4"
    "reg (w_hw w4) = reg (w_hw w3)" using rd [OF w3(2), of NSP_COMMAND] by auto
  have "reg (w_hw w3) NSP_COMMAND = R3 NSP_COMMAND" using w3(3) by (simp add: same_regs_def)
  then show ?thesis unfolding eq using w2(1) w3 w4 by (simp add: nfp_nsp_wait_reg_def Let_def)
qed

text \<open>A processor that never takes the command.\<close>

theorem command_times_out:
  assumes "up w" "nsp_at cid base state" "nsp_alive (reg (w_hw w) NSP_STATUS)" "FIELD_FIT NSP_BUFFER_ADDRESS buff_addr"
    and fit: "FIELD_FIT NSP_BUFFER_CPP (ucast (drop_bit 8 buff_cpp))"
    and acts: "nsp_acts reg (ne_start ne) S"
    and i: "\<forall>j\<le>1001. seen S 0 (commanded code opt buff_cpp buff_addr (reg (w_hw w))) j NSP_COMMAND AND NSP_COMMAND_START \<noteq> 0"
  shows "\<exists>w'. nfp_nsp_command M ne state code opt buff_cpp buff_addr w =
      (- errno_code ETIMEDOUT, nsp_versioned (reg (w_hw w) NSP_STATUS) state, w') \<and> up w'"
  by (rule command_given [OF assms(1-4) fit, of code opt ne])
    (use wait_loop_timeout [OF _ _ acts regs_in_file(2), of _ _ 0 1001] i in \<open>fastforce simp: nfp_nsp_wait_reg_def Let_def\<close>)

text \<open>Waiting for a processor that is not there ends at once: its check does not report \<open>EAGAIN\<close>.\<close>

theorem wait_gives_up:
  assumes "up w" "nsp_at cid base state" "FIELD_GET NSP_STATUS_MAGIC (reg (w_hw w) NSP_STATUS) \<noteq> NSP_MAGIC"
  shows "\<exists>w'. nfp_nsp_wait M nes nap state w = (- errno_code ENODEV, state, w') \<and> up w'"
  using check_absent [OF assms]
  by (auto simp: nfp_nsp_wait_def nsp_ready_loop.simps [of M nes nap 0] nfp_nsp_command_def Let_def)

end

end
