(* ===== verification/Nsp_Bus.thy ===== *)
theory Nsp_Bus
  imports Nsp_Protocol Cpp_Start_Proof
begin

text \<open>
  The registers of the service processor on the bus: an aligned window of a target that can be read
  and written is a port in the sense of \<open>nsp_port\<close>, and what is written to the registers can be taken
  apart into the arguments of the command.
\<close>

section \<open>Fields of a command\<close>

lemma nsp_masks:
  "field_mask NSP_COMMAND_OPTION 63 32" "field_mask NSP_COMMAND_CODE 31 16" "field_mask NSP_COMMAND_START 0 0"
  "field_mask NSP_BUFFER_CPP 63 40" "field_mask NSP_BUFFER_ADDRESS 37 0"
  "field_mask NSP_STATUS_MAGIC 63 48" "field_mask NSP_STATUS_RESULT 15 8" "field_mask NSP_STATUS_BUSY 0 0"
  by (simp_all add: NSP_COMMAND_OPTION_def NSP_COMMAND_CODE_def NSP_COMMAND_START_def NSP_BUFFER_CPP_def
      NSP_BUFFER_ADDRESS_def NSP_STATUS_MAGIC_def NSP_STATUS_RESULT_def NSP_STATUS_BUSY_def field_GENMASK field_BIT)

lemma field_get_prep0:
  assumes "field_mask m h l" "FIELD_FIT m v" "unat v < 2 ^ (64 - l)"
  shows "FIELD_GET m (FIELD_PREP m v) = v"
  using field_get_prep [OF assms, of 0] by simp

text \<open>A value that is narrower than the field fits.\<close>

lemma narrow_fits:
  assumes m: "field_mask m h l" and v: "unat v < 2 ^ k" "l + k \<le> Suc h"
  shows "FIELD_FIT m v" "unat v < 2 ^ (64 - l)"
proof -
  have b: "i < k" if "bit v i" for i using v(1) that unat_less_bits by blast
  show "FIELD_FIT m v" unfolding FIELD_FIT_iff [OF m] using b v(2) by fastforce
  have "h < 64" using m by (simp add: field_mask_def)
  then show "unat v < 2 ^ (64 - l)" unfolding unat_less_bits using b v(2) by fastforce
qed

lemma cpp_fits: "FIELD_FIT NSP_BUFFER_CPP (ucast (drop_bit 8 (b :: u32)))" "unat (ucast (drop_bit 8 (b :: u32)) :: u64) < 2 ^ 24"
proof -
  show "unat (ucast (drop_bit 8 b) :: u64) < 2 ^ 24"
    unfolding unat_less_bits by (auto simp: bit_unsigned_iff bit_drop_bit_eq dest: bit_imp_le_length)
  then show "FIELD_FIT NSP_BUFFER_CPP (ucast (drop_bit 8 b))" by (rule narrow_fits(1) [OF nsp_masks(4)]) simp
qed

lemma commanded_fields:
  assumes "FIELD_FIT NSP_BUFFER_ADDRESS buff_addr" "R1 = commanded code opt buff_cpp buff_addr R"
  shows "FIELD_GET NSP_COMMAND_OPTION (R1 NSP_COMMAND) = ucast opt" "FIELD_GET NSP_COMMAND_CODE (R1 NSP_COMMAND) = ucast code"
    "R1 NSP_COMMAND AND NSP_COMMAND_START \<noteq> 0"
    "FIELD_GET NSP_BUFFER_CPP (R1 NSP_BUFFER) = ucast (drop_bit 8 buff_cpp)"
    "FIELD_GET NSP_BUFFER_ADDRESS (R1 NSP_BUFFER) = buff_addr"
proof -
  let ?o = "FIELD_PREP NSP_COMMAND_OPTION (ucast opt)" and ?c = "FIELD_PREP NSP_COMMAND_CODE (ucast code)"
    and ?s = "FIELD_PREP NSP_COMMAND_START 1" and ?x = "FIELD_PREP NSP_BUFFER_CPP (ucast (drop_bit 8 buff_cpp))"
    and ?a = "FIELD_PREP NSP_BUFFER_ADDRESS buff_addr"
  have r: "R1 NSP_COMMAND = ?o OR ?c OR ?s" "R1 NSP_BUFFER = ?x OR ?a"
    using assms(2) by (simp_all add: commanded_def NSP_COMMAND_def NSP_BUFFER_def)
  have o: "unat (ucast opt :: u64) < 2 ^ 32" "unat (ucast code :: u64) < 2 ^ 16"
    unfolding unat_less_bits by (auto simp: bit_unsigned_iff dest: bit_imp_le_length)
  have "FIELD_GET NSP_COMMAND_OPTION (?o OR ?c OR ?s) = FIELD_GET NSP_COMMAND_OPTION ?o"
    unfolding or.assoc [symmetric] using field_get_other [OF nsp_masks(1,3)] field_get_other [OF nsp_masks(1,2)] by simp
  then show "FIELD_GET NSP_COMMAND_OPTION (R1 NSP_COMMAND) = ucast opt"
    unfolding r using field_get_prep0 [OF nsp_masks(1) narrow_fits [OF nsp_masks(1) o(1)]] by simp
  have "FIELD_GET NSP_COMMAND_CODE (?c OR ?o OR ?s) = FIELD_GET NSP_COMMAND_CODE ?c"
    unfolding or.assoc [symmetric] using field_get_other [OF nsp_masks(2,3)] field_get_other [OF nsp_masks(2,1)] by simp
  moreover have "?o OR ?c OR ?s = ?c OR ?o OR ?s" by (rule or.left_commute)
  ultimately show "FIELD_GET NSP_COMMAND_CODE (R1 NSP_COMMAND) = ucast code"
    unfolding r using field_get_prep0 [OF nsp_masks(2) narrow_fits [OF nsp_masks(2) o(2)]] by simp
  have "bit (R1 NSP_COMMAND AND NSP_COMMAND_START) 0"
    unfolding r bit_and_iff bit_or_iff bit_FIELD_PREP [OF nsp_masks(3)] using nsp_masks(3) by (simp add: field_mask_def)
  then show "R1 NSP_COMMAND AND NSP_COMMAND_START \<noteq> 0" by force
  show "FIELD_GET NSP_BUFFER_CPP (R1 NSP_BUFFER) = ucast (drop_bit 8 buff_cpp)"
    unfolding r using field_get_other [OF nsp_masks(4,5)] field_get_prep0 [OF nsp_masks(4) cpp_fits(1)] cpp_fits(2) by simp
  have "FIELD_GET NSP_BUFFER_ADDRESS (?a OR ?x) = FIELD_GET NSP_BUFFER_ADDRESS ?a"
    using field_get_other [OF nsp_masks(5,4)] by simp
  then show "FIELD_GET NSP_BUFFER_ADDRESS (R1 NSP_BUFFER) = buff_addr"
    unfolding r or.commute [of ?x] using field_get_prep0 [OF nsp_masks(5) assms(1)] unsigned_less [of buff_addr, where 'a = nat] by simp
qed

section \<open>The window of the registers\<close>

definition nsp_window :: "nat \<Rightarrow> nfp_cpp \<Rightarrow> u32 \<Rightarrow> u64 \<Rightarrow> u32 \<Rightarrow> u64 \<Rightarrow> bool" where
  "nsp_window n c cid base d a \<longleftrightarrow>
     (\<forall>k\<in>reg_file. nfp_target_cpp cid (base + k) (Some (\<lambda>i. imb_cat_table c ! i)) = Inr (d, a + k)
        \<and> block_access n d (a + k) 8 \<and> take_bit 40 (a + k) = a + k \<and> base + k + 8 \<le> push_bit 40 1)"

lemma regs_apart:
  assumes "k \<in> reg_file" "j \<in> reg_file" "k \<noteq> j"
  shows "disj_range (a + k) 8 (a + j) 8"
proof -
  have f: "\<exists>x. k = of_nat (8 * x) \<and> x < 5" if "k \<in> reg_file" for k
  proof -
    have "reg_file = of_nat ` {8 * 0, 8 * 1, 8 * 2, 8 * 3, 8 * 4}"
      by (simp add: reg_file_def NSP_STATUS_def NSP_COMMAND_def NSP_BUFFER_def NSP_DFLT_BUFFER_def NSP_DFLT_BUFFER_CONFIG_def)
    then have "k \<in> of_nat ` ((*) 8 ` {0, 1, 2, 3, 4})" using that by simp
    then obtain x where "k = of_nat (8 * x)" "x \<in> {0, 1, 2, 3, 4}" by (elim imageE) (simp only:)
    moreover have "x < 5" using calculation(2) by (elim insertE emptyE) simp_all
    ultimately show ?thesis by blast
  qed
  obtain x y where xy: "k = of_nat (8 * x)" "x < 5" "j = of_nat (8 * y)" "y < 5" using f assms(1,2) by metis
  then have "x \<noteq> y" using assms(3) by auto
  then show ?thesis unfolding xy by (intro disj_range_offsets [where L = 100]) (use xy in auto)
qed

text \<open>The registers in the memory behind the bus, and a bus that can be used.\<close>

definition nsp_reg :: "('h \<Rightarrow> cpp_port \<Rightarrow> mem) \<Rightarrow> u32 \<Rightarrow> u64 \<Rightarrow> 'h \<Rightarrow> nsp_regs" where
  "nsp_reg cm d a h k = le_word (mem_rd (cm h (port_of d)) (a + k) 8)"

definition nsp_up :: "nat \<Rightarrow> u64 \<Rightarrow> nfp_cpp \<Rightarrow> 'h world \<Rightarrow> bool" where
  "nsp_up n win c w \<longleftrightarrow> bus_ready n w \<and> cfg (w_pcie w) = win \<and> w_cpp w = c"

lemma reg_written:
  assumes "k \<in> reg_file" "cm h' = (cm h)(port_of d := mem_wr (cm h (port_of d)) (a + k) (le_bytes 8 v))"
  shows "same_regs (nsp_reg cm d a h') ((nsp_reg cm d a h)(k := v))"
  unfolding same_regs_def using regs_apart [OF assms(1), of _ a]
  by (auto simp: nsp_reg_def assms(2) mem_rd_wr_same mem_rd_wr_disj)

context pcie2cpp
begin

lemma nsp_port_window:
  assumes "nsp_window n c cid base d a"
  shows "nsp_port M cid base (nsp_up n win c) (nsp_reg cmem d a)"
proof (unfold_locales, goal_cases)
  case (1 w k)
  have u: "bus_ready n w" "cfg (w_pcie w) = win" "w_cpp w = c" using 1 by (simp_all add: nsp_up_def)
  have k: "block_access n d (a + k) 8" "take_bit 40 (a + k) = a + k" "base + k + 8 \<le> push_bit 40 1"
    "nfp_target_cpp cid (base + k) (Some (\<lambda>i. imb_cat_table (w_cpp w) ! i)) = Inr (d, a + k)"
    using assms 1(2) u(3) by (simp_all add: nsp_window_def)
  have e: "nsp_reg cmem d a h' = nsp_reg cmem d a h" if "cmem h' = cmem h" for h h' by (rule ext) (simp add: nsp_reg_def that)
  obtain w' where w': "nfp_cpp_readq M cid (base + k) w = (Inr (nsp_reg cmem d a (w_hw w) k), w')" "bus_ready n w'"
    "cfg (w_pcie w') = win" "w_cpp w' = w_cpp w" "cmem (w_hw w') = cmem (w_hw w)"
    unfolding nsp_reg_def by (rule readq_quad [OF u(1,2) k(1,2,4,3)])
  then show ?case using e [OF w'(5)] u(3) by (simp add: nsp_up_def)
next
  case (2 w k v)
  have u: "bus_ready n w" "cfg (w_pcie w) = win" "w_cpp w = c" using 2 by (simp_all add: nsp_up_def)
  have k: "block_access n d (a + k) 8" "take_bit 40 (a + k) = a + k" "base + k + 8 \<le> push_bit 40 1"
    "nfp_target_cpp cid (base + k) (Some (\<lambda>i. imb_cat_table (w_cpp w) ! i)) = Inr (d, a + k)"
    using assms 2(2) u(3) by (simp_all add: nsp_window_def)
  obtain w' where w': "nfp_cpp_writeq M cid (base + k) v w = (0, w')" "bus_ready n w'" "cfg (w_pcie w') = win" "w_cpp w' = w_cpp w"
    "cmem (w_hw w') = (cmem (w_hw w))(port_of d := mem_wr (cmem (w_hw w) (port_of d)) (a + k) (le_bytes 8 v))"
    by (rule writeq_quad [OF u(1,2) k(1,2,4,3), of v])
  then show ?case using u(3) reg_written [of k cmem "w_hw w'" "w_hw w", OF 2(2) w'(5)] by (auto simp: nsp_up_def)
next
  case (3 w h)
  then show ?case by (simp add: nsp_up_def bus_ready_def)
qed

end

end
