(* ===== verification/Nsp_Device.thy ===== *)
theory Nsp_Device
  imports Nsp_Bus
begin

text \<open>
  A device with a service processor: the device of Cpp_Device with the registers in the memory unit,
  a processor that takes a command during the first sleep and leaves 42 as its result.
\<close>

definition nsp_id :: u32 where "nsp_id = NFP_CPP_ID 7 32 0"

definition nsp_poke :: "u64 \<Rightarrow> u64 \<Rightarrow> p2c_hw \<Rightarrow> p2c_hw" where
  "nsp_poke k v h = h\<lparr>p_mem := (p_mem h)(port_of nsp_id := mem_wr (p_mem h (port_of nsp_id)) (0x1000 + k) (le_bytes 8 v))\<rparr>"

text \<open>Magic number and version 0.24.\<close>

definition nsp_idle :: u64 where "nsp_idle = 0xab10001800000000"

definition nsp_world :: "p2c_hw world" where
  "nsp_world = dev_world\<lparr>w_hw := nsp_poke NSP_STATUS nsp_idle (w_hw dev_world)\<rparr>"

definition nsp_answer :: "p2c_hw nsp_env" where
  "nsp_answer = \<lparr>ne_start = (\<lambda>k. nsp_poke NSP_COMMAND 0x2a00000000), ne_done = (\<lambda>k h. h)\<rparr>"

definition nsp_handle :: nfp_nsp where
  "nsp_handle = \<lparr>nsp_res = \<lparr>rs_name = [], rs_cpp_id = nsp_id, rs_addr = 0x1000, rs_size = 0x100, rs_mutex = None\<rparr>,
     ver_major = 0, ver_minor = 0, nsp_modified = 0, nsp_idx = 0, nsp_entries = None\<rparr>"

lemma nsp_poke_reg:
  "k \<in> reg_file \<Longrightarrow> same_regs (nsp_reg p_mem nsp_id 0x1000 (nsp_poke k v h)) ((nsp_reg p_mem nsp_id 0x1000 h)(k := v))"
  by (rule reg_written [of k p_mem "nsp_poke k v h" h]) (simp_all add: nsp_poke_def)

lemma nsp_dev_window: "nsp_window 21 (w_cpp dev_world) nsp_id 0x1000 nsp_id 0x1000"
proof -
  have r: "reg_file = {0, 8, 16, 24, 32}"
    by (simp add: reg_file_def NSP_STATUS_def NSP_COMMAND_def NSP_BUFFER_def NSP_DFLT_BUFFER_def NSP_DFLT_BUFFER_CONFIG_def)
  let ?p = "NFP_CPP_ID (ucast (NFP_CPP_ID_TARGET_of (NFP_CPP_ID 7 32 0))) (ucast (NFP_CPP_ID_ACTION_of (NFP_CPP_ID 7 32 0)))
     (ucast (NFP_CPP_ID_TOKEN_of (NFP_CPP_ID 7 32 0)))"
  have pp: "nfp6000_target_pushpull ?p 0x1000 = Inr 34" "nfp6000_target_pushpull ?p 0x1008 = Inr 34"
    "nfp6000_target_pushpull ?p 0x1010 = Inr 34" "nfp6000_target_pushpull ?p 0x1018 = Inr 34"
    "nfp6000_target_pushpull ?p 0x1020 = Inr 34" by code_simp+
  have f: "ucast (NFP_CPP_ID_TARGET_of (NFP_CPP_ID 7 32 0)) = (7 :: u32)"
    "ucast (NFP_CPP_ID_ACTION_of (NFP_CPP_ID 7 32 0)) = NFP_CPP_ACTION_RW" by code_simp+
  have b: "block_access 21 (NFP_CPP_ID 7 32 0) x 8" if "nfp6000_target_pushpull ?p x = Inr 34" "x AND 7 = 0"
      "(x + 8 - 1) AND NOT (mask 21) = x AND NOT (mask 21)" for x
    using that unfolding block_access_def Let_def f by simp
  have b: "block_access 21 (NFP_CPP_ID 7 32 0) 0x1000 8" "block_access 21 (NFP_CPP_ID 7 32 0) 0x1008 8"
    "block_access 21 (NFP_CPP_ID 7 32 0) 0x1010 8" "block_access 21 (NFP_CPP_ID 7 32 0) 0x1018 8"
    "block_access 21 (NFP_CPP_ID 7 32 0) 0x1020 8"
    by (rule b [OF pp(1)] b [OF pp(2)] b [OF pp(3)] b [OF pp(4)] b [OF pp(5)]; simp add: mask_eq_exp_minus_1)+
  show ?thesis
    unfolding nsp_window_def r nsp_id_def using b dev_translation by (simp add: take_bit_word_eq_self)
qed

interpretation nspdev: nsp_port "p2c_mmio dev_base" nsp_id "0x1000" "nsp_up 21 dev_base (w_cpp dev_world)"
    "nsp_reg p_mem nsp_id 0x1000"
  by (rule pcie2cpp.nsp_port_window [OF dev.pcie2cpp_axioms nsp_dev_window])

lemma nsp_world_up: "nsp_up 21 dev_base (w_cpp dev_world) nsp_world" "nsp_at nsp_id 0x1000 nsp_handle"
  using dev_ready by (simp_all add: nsp_up_def nsp_world_def bus_ready_def nsp_at_def nsp_handle_def
      nfp_resource_cpp_id_def nfp_resource_address_def)

lemma nsp_world_status: "nsp_reg p_mem nsp_id 0x1000 (w_hw nsp_world) NSP_STATUS = nsp_idle"
  using nsp_poke_reg [of NSP_STATUS nsp_idle "w_hw dev_world"] by (simp add: nsp_world_def same_regs_def)

lemma nsp_idle_alive: "nsp_alive nsp_idle"
  by code_simp

lemma nsp_answer_acts:
  "nsp_acts (nsp_reg p_mem nsp_id 0x1000) (ne_start nsp_answer) (\<lambda>k R. R(NSP_COMMAND := 0x2a00000000))"
  "nsp_acts (nsp_reg p_mem nsp_id 0x1000) (ne_done nsp_answer) (\<lambda>k R. R)"
  using nsp_poke_reg [of NSP_COMMAND] same_regs_upd same_regs_trans
  by (auto simp: nsp_acts_def nsp_answer_def) blast

end
