(* ===== verification/Nfp_Eth.thy ===== *)
theory Nfp_Eth
  imports Nfp_Nsp
begin

text \<open>
  The port table of the service processor (user/nfpcore/nfp_nsp_eth.c): reading it, and changing
  the configuration of one port. The table is a buffer of 48 entries of 32 bytes; an access outside
  of it is \<open>None\<close>, and raises the fault of the driver.
\<close>

section \<open>Entries\<close>

definition NSP_ETH_NBI_PORT_COUNT :: nat where "NSP_ETH_NBI_PORT_COUNT = 24"
definition NSP_ETH_MAX_COUNT :: nat where "NSP_ETH_MAX_COUNT = 2 * NSP_ETH_NBI_PORT_COUNT"
definition eth_entry_size :: nat where "eth_entry_size = 32"
definition NSP_ETH_TABLE_SIZE :: nat where "NSP_ETH_TABLE_SIZE = NSP_ETH_MAX_COUNT * eth_entry_size"

definition NSP_ETH_PORT_LANES :: u64 where "NSP_ETH_PORT_LANES = GENMASK_ULL 3 0"
definition NSP_ETH_PORT_INDEX :: u64 where "NSP_ETH_PORT_INDEX = GENMASK_ULL 15 8"
definition NSP_ETH_PORT_LABEL :: u64 where "NSP_ETH_PORT_LABEL = GENMASK_ULL 53 48"
definition NSP_ETH_PORT_PHYLABEL :: u64 where "NSP_ETH_PORT_PHYLABEL = GENMASK_ULL 59 54"
definition NSP_ETH_PORT_FEC_SUPP_BASER :: u64 where "NSP_ETH_PORT_FEC_SUPP_BASER = BIT_ULL 60"
definition NSP_ETH_PORT_FEC_SUPP_RS :: u64 where "NSP_ETH_PORT_FEC_SUPP_RS = BIT_ULL 61"
definition NSP_ETH_STATE_CONFIGURED :: u64 where "NSP_ETH_STATE_CONFIGURED = BIT_ULL 0"
definition NSP_ETH_STATE_ENABLED :: u64 where "NSP_ETH_STATE_ENABLED = BIT_ULL 1"
definition NSP_ETH_STATE_TX_ENABLED :: u64 where "NSP_ETH_STATE_TX_ENABLED = BIT_ULL 2"
definition NSP_ETH_STATE_RX_ENABLED :: u64 where "NSP_ETH_STATE_RX_ENABLED = BIT_ULL 3"
definition NSP_ETH_STATE_RATE :: u64 where "NSP_ETH_STATE_RATE = GENMASK_ULL 11 8"
definition NSP_ETH_STATE_INTERFACE :: u64 where "NSP_ETH_STATE_INTERFACE = GENMASK_ULL 19 12"
definition NSP_ETH_STATE_MEDIA :: u64 where "NSP_ETH_STATE_MEDIA = GENMASK_ULL 21 20"
definition NSP_ETH_STATE_OVRD_CHNG :: u64 where "NSP_ETH_STATE_OVRD_CHNG = BIT_ULL 22"
definition NSP_ETH_STATE_ANEG :: u64 where "NSP_ETH_STATE_ANEG = GENMASK_ULL 25 23"
definition NSP_ETH_STATE_FEC :: u64 where "NSP_ETH_STATE_FEC = GENMASK_ULL 27 26"
definition NSP_ETH_CTRL_CONFIGURED :: u64 where "NSP_ETH_CTRL_CONFIGURED = BIT_ULL 0"
definition NSP_ETH_CTRL_ENABLED :: u64 where "NSP_ETH_CTRL_ENABLED = BIT_ULL 1"
definition NSP_ETH_CTRL_SET_RATE :: u64 where "NSP_ETH_CTRL_SET_RATE = BIT_ULL 4"
definition NSP_ETH_CTRL_SET_LANES :: u64 where "NSP_ETH_CTRL_SET_LANES = BIT_ULL 5"
definition NSP_ETH_CTRL_SET_ANEG :: u64 where "NSP_ETH_CTRL_SET_ANEG = BIT_ULL 6"
definition NSP_ETH_CTRL_SET_FEC :: u64 where "NSP_ETH_CTRL_SET_FEC = BIT_ULL 7"

definition PORT_FIBRE :: u8 where "PORT_FIBRE = 0x03"
definition PORT_DA :: u8 where "PORT_DA = 0x05"
definition PORT_NONE :: u8 where "PORT_NONE = 0xef"

definition NFP_INTERFACE_NONE :: u32 where "NFP_INTERFACE_NONE = 0"
definition NFP_MEDIA_FIBRE :: u32 where "NFP_MEDIA_FIBRE = 2"

datatype nfp_eth_raw = NSP_ETH_RAW_PORT | NSP_ETH_RAW_STATE | NSP_ETH_RAW_MAC | NSP_ETH_RAW_CONTROL

fun raw_idx :: "nfp_eth_raw \<Rightarrow> nat" where
  "raw_idx NSP_ETH_RAW_PORT = 0"
| "raw_idx NSP_ETH_RAW_STATE = 1"
| "raw_idx NSP_ETH_RAW_MAC = 2"
| "raw_idx NSP_ETH_RAW_CONTROL = 3"

text \<open>\<open>entries[i].raw[k]\<close>; \<open>port\<close>, \<open>state\<close> and \<open>control\<close> are members of the same union.\<close>

definition raw_at :: "nat \<Rightarrow> nfp_eth_raw \<Rightarrow> nat" where
  "raw_at i k = i * eth_entry_size + 8 * raw_idx k"

definition entry_raw :: "u8 list \<Rightarrow> nat \<Rightarrow> nfp_eth_raw \<Rightarrow> u64 option" where
  "entry_raw buf i k =
     (if raw_at i k + 8 \<le> length buf then Some (le_word (take 8 (drop (raw_at i k) buf))) else None)"

definition entry_set :: "u8 list \<Rightarrow> nat \<Rightarrow> nfp_eth_raw \<Rightarrow> u64 \<Rightarrow> u8 list" where
  "entry_set buf i k v = take (raw_at i k) buf @ le_bytes 8 v @ drop (raw_at i k + 8) buf"

section \<open>Rates\<close>

datatype nfp_eth_rate = RATE_INVALID | RATE_10M | RATE_100M | RATE_1G | RATE_10G | RATE_25G

fun rate_code :: "nfp_eth_rate \<Rightarrow> u32" where
  "rate_code RATE_INVALID = 0"
| "rate_code RATE_10M = 1"
| "rate_code RATE_100M = 2"
| "rate_code RATE_1G = 3"
| "rate_code RATE_10G = 4"
| "rate_code RATE_25G = 5"

definition nsp_eth_rate_tbl :: "(nfp_eth_rate \<times> u32) list" where
  "nsp_eth_rate_tbl = [(RATE_INVALID, 0), (RATE_10M, 10), (RATE_100M, 100), (RATE_1G, 1000),
     (RATE_10G, 10000), (RATE_25G, 25000)]"

definition nfp_eth_rate2speed :: "u32 \<Rightarrow> u32" where
  "nfp_eth_rate2speed rate =
     (case find (\<lambda>e. rate_code (fst e) = rate) nsp_eth_rate_tbl of Some e \<Rightarrow> snd e | None \<Rightarrow> 0)"

definition nfp_eth_speed2rate :: "u32 \<Rightarrow> u32" where
  "nfp_eth_speed2rate speed =
     (case find (\<lambda>e. snd e = speed) nsp_eth_rate_tbl of Some e \<Rightarrow> rate_code (fst e) | None \<Rightarrow> rate_code RATE_INVALID)"

section \<open>Reading the table\<close>

record nfp_eth_table_port =
  eth_index :: u32
  chan_index :: u32
  eth_nbi :: u32
  eth_base :: u32
  eth_lanes :: u32
  eth_speed :: u32
  eth_interface :: u32
  eth_media :: u32
  eth_fec :: u32
  eth_aneg :: u32
  mac_addr :: "u8 list"
  label_port :: u8
  label_subport :: u8
  eth_enabled :: int
  tx_enabled :: int
  rx_enabled :: int
  override_changed :: int
  port_type :: u8
  port_lanes :: u32
  is_split :: int
  fec_modes_supported :: u32

record nfp_eth_table =
  eth_count :: u32
  max_index :: u32
  eth_ports :: "nfp_eth_table_port list"

definition eth_port_zero :: nfp_eth_table_port where
  "eth_port_zero = \<lparr>eth_index = 0, chan_index = 0, eth_nbi = 0, eth_base = 0, eth_lanes = 0, eth_speed = 0,
     eth_interface = 0, eth_media = 0, eth_fec = 0, eth_aneg = 0, mac_addr = replicate 6 0, label_port = 0,
     label_subport = 0, eth_enabled = 0, tx_enabled = 0, rx_enabled = 0, override_changed = 0, port_type = 0,
     port_lanes = 0, is_split = 0, fec_modes_supported = 0\<rparr>"

fun nfp_eth_copy_mac_reverse :: "u8 list \<Rightarrow> u8 list \<Rightarrow> nat \<Rightarrow> u8 list" where
  "nfp_eth_copy_mac_reverse dst src 0 = dst"
| "nfp_eth_copy_mac_reverse dst src (Suc i) = (nfp_eth_copy_mac_reverse dst src i)[6 - i - 1 := src ! i]"

text \<open>\<open>src\<close> is one entry; \<open>dst\<close> the zeroed port.\<close>

definition nfp_eth_port_translate ::
  "nfp_nsp \<Rightarrow> u8 list \<Rightarrow> u32 \<Rightarrow> nfp_eth_table_port \<Rightarrow> nfp_eth_table_port" where
  "nfp_eth_port_translate nsp src index dst =
     (let port = le_word (take 8 src) :: u64; state = le_word (take 8 (drop 8 src)) :: u64;
          lanes = ucast (FIELD_GET NSP_ETH_PORT_LANES port) :: u32;
          rate = nfp_eth_rate2speed (ucast (FIELD_GET NSP_ETH_STATE_RATE state));
          dst = dst\<lparr>eth_index := ucast (FIELD_GET NSP_ETH_PORT_INDEX port), chan_index := index,
            eth_nbi := index div of_nat NSP_ETH_NBI_PORT_COUNT, eth_base := index mod of_nat NSP_ETH_NBI_PORT_COUNT,
            eth_lanes := lanes,
            eth_enabled := uint (FIELD_GET NSP_ETH_STATE_ENABLED state),
            tx_enabled := uint (FIELD_GET NSP_ETH_STATE_TX_ENABLED state),
            rx_enabled := uint (FIELD_GET NSP_ETH_STATE_RX_ENABLED state),
            eth_speed := lanes * rate,
            eth_interface := ucast (FIELD_GET NSP_ETH_STATE_INTERFACE state),
            eth_media := ucast (FIELD_GET NSP_ETH_STATE_MEDIA state),
            mac_addr := nfp_eth_copy_mac_reverse (mac_addr dst) (drop 16 src) 6,
            label_port := ucast (FIELD_GET NSP_ETH_PORT_PHYLABEL port),
            label_subport := ucast (FIELD_GET NSP_ETH_PORT_LABEL port)\<rparr>
      in if nfp_nsp_get_abi_ver_minor nsp < 17 then dst
         else
           let dst = dst\<lparr>override_changed := uint (FIELD_GET NSP_ETH_STATE_OVRD_CHNG state),
                 eth_aneg := ucast (FIELD_GET NSP_ETH_STATE_ANEG state)\<rparr>
           in if nfp_nsp_get_abi_ver_minor nsp < 22 then dst
              else
                let modes = fec_modes_supported dst
                      OR push_bit 1 (ucast (FIELD_GET NSP_ETH_PORT_FEC_SUPP_BASER port))
                      OR push_bit 2 (ucast (FIELD_GET NSP_ETH_PORT_FEC_SUPP_RS port));
                    modes = (if modes \<noteq> 0 then modes OR (1 OR 8) else modes)
                in dst\<lparr>fec_modes_supported := modes,
                       eth_fec := push_bit (unat (FIELD_GET NSP_ETH_STATE_FEC state)) 1\<rparr>)"

text \<open>The loops over all pairs of ports. The message about duplicate subports is left out.\<close>

definition geometry_inner :: "nat \<Rightarrow> nat \<Rightarrow> nfp_eth_table_port list \<Rightarrow> nfp_eth_table_port list" where
  "geometry_inner i j ps =
     (if label_port (ps ! i) \<noteq> label_port (ps ! j) then ps
      else
        let ps = ps[i := (ps ! i)\<lparr>port_lanes := port_lanes (ps ! i) + eth_lanes (ps ! j)\<rparr>]
        in if i = j then ps else ps[i := (ps ! i)\<lparr>is_split := 1\<rparr>])"

definition geometry_outer :: "nat \<Rightarrow> nfp_eth_table \<Rightarrow> nfp_eth_table" where
  "geometry_outer i t =
     t\<lparr>max_index := max (max_index t) (chan_index (eth_ports t ! i)),
       eth_ports := fold (geometry_inner i) [0..<unat (eth_count t)] (eth_ports t)\<rparr>"

definition nfp_eth_calc_port_geometry :: "nfp_eth_table \<Rightarrow> nfp_eth_table" where
  "nfp_eth_calc_port_geometry t = fold geometry_outer [0..<unat (eth_count t)] t"

definition nfp_eth_calc_port_type :: "nfp_eth_table_port \<Rightarrow> nfp_eth_table_port" where
  "nfp_eth_calc_port_type entry =
     (if eth_interface entry = NFP_INTERFACE_NONE then entry\<lparr>port_type := PORT_NONE\<rparr>
      else if eth_media entry = NFP_MEDIA_FIBRE then entry\<lparr>port_type := PORT_FIBRE\<rparr>
      else entry\<lparr>port_type := PORT_DA\<rparr>)"

definition eth_can_support_fec :: "nfp_eth_table_port \<Rightarrow> bool" where
  "eth_can_support_fec p \<longleftrightarrow> fec_modes_supported p \<noteq> 0"

definition entry_used :: "u8 list \<Rightarrow> nat \<Rightarrow> bool" where
  "entry_used entries i \<longleftrightarrow>
     (le_word (take 8 (drop (raw_at i NSP_ETH_RAW_PORT) entries)) :: u64) AND NSP_ETH_PORT_LANES \<noteq> 0"

definition eth_entry :: "u8 list \<Rightarrow> nat \<Rightarrow> u8 list" where
  "eth_entry entries i = take eth_entry_size (drop (i * eth_entry_size) entries)"

text \<open>The table that is made of the entries.\<close>

definition eth_table_of :: "nfp_nsp \<Rightarrow> u8 list \<Rightarrow> nfp_eth_table" where
  "eth_table_of nsp entries =
     (let used = filter (entry_used entries) [0..<NSP_ETH_MAX_COUNT];
          t = \<lparr>eth_count = of_nat (length used), max_index = 0,
               eth_ports = map (\<lambda>i. nfp_eth_port_translate nsp (eth_entry entries i) (of_nat i) eth_port_zero) used\<rparr>;
          t = nfp_eth_calc_port_geometry t
      in t\<lparr>eth_ports := map nfp_eth_calc_port_type (eth_ports t)\<rparr>)"

text \<open>The buffer that is passed is not \<open>NULL\<close>, so there is one in the result.\<close>

definition eth_read_ports ::
  "'h mmio \<Rightarrow> 'h nsp_env \<Rightarrow> nfp_nsp \<Rightarrow> 'h world \<Rightarrow> nfp_eth_table option \<times> nfp_nsp \<times> 'h world" where
  "eth_read_ports M ne nsp w =
     (let (ok, w) = c_malloc w
      in if \<not> ok then (None, nsp, w)
         else
           let (ret, ob, nsp, w) = nfp_nsp_read_eth_table M ne nsp (Some (replicate NSP_ETH_TABLE_SIZE 0))
                 (of_nat NSP_ETH_TABLE_SIZE) w;
               entries = the ob
           in if ret < 0 then (None, nsp, w)
              else
                let cnt = int (length (filter (entry_used entries) [0..<NSP_ETH_MAX_COUNT]))
                in if ret \<noteq> 0 \<and> ret \<noteq> cnt then (None, nsp, w)
                   else
                     let (ok, w) = c_malloc w
                     in if \<not> ok then (None, nsp, w) else (Some (eth_table_of nsp entries), nsp, w))"

definition nfp_eth_read_ports ::
  "'h mmio \<Rightarrow> 'h others \<Rightarrow> 'h nsp_env \<Rightarrow> 'h drv \<Rightarrow> (nfp_eth_table option \<times> 'h drv) option" where
  "nfp_eth_read_ports M e ne s =
     (case nfp_nsp_open M e s of
        None \<Rightarrow> None
      | Some (None, s) \<Rightarrow> Some (None, s)
      | Some (Some nsp, s) \<Rightarrow>
          let (ret, nsp, w) = eth_read_ports M ne nsp (drv_world s)
          in Some (ret, nfp_nsp_close M nsp (s\<lparr>drv_world := w\<rparr>)))"

section \<open>Changing the configuration\<close>

definition nfp_eth_config_start ::
  "'h mmio \<Rightarrow> 'h others \<Rightarrow> 'h nsp_env \<Rightarrow> u32 \<Rightarrow> 'h drv \<Rightarrow> (nfp_nsp option \<times> 'h drv) option" where
  "nfp_eth_config_start M e ne idx s =
     (let (ok, w) = c_malloc (drv_world s); s = s\<lparr>drv_world := w\<rparr>
      in if \<not> ok then Some (None, s)
         else case nfp_nsp_open M e s of
           None \<Rightarrow> None
         | Some (None, s) \<Rightarrow> Some (None, s)
         | Some (Some nsp, s) \<Rightarrow>
             let (ret, ob, nsp, w) = nfp_nsp_read_eth_table M ne nsp (Some (replicate NSP_ETH_TABLE_SIZE 0))
                   (of_nat NSP_ETH_TABLE_SIZE) (drv_world s);
                 entries = the ob; s = s\<lparr>drv_world := w\<rparr>
             in if ret < 0 then Some (None, nfp_nsp_close M nsp s)
                else case entry_raw entries (unat idx) NSP_ETH_RAW_PORT of
                  None \<Rightarrow> Some (None, drv_fault s)
                | Some port \<Rightarrow>
                    if port AND NSP_ETH_PORT_LANES = 0 then Some (None, nfp_nsp_close M nsp s)
                    else Some (Some (nfp_nsp_config_set_state (Some entries) idx nsp), s))"

definition nfp_eth_config_cleanup_end :: "'h mmio \<Rightarrow> nfp_nsp \<Rightarrow> 'h drv \<Rightarrow> 'h drv" where
  "nfp_eth_config_cleanup_end M nsp s =
     nfp_nsp_close M (nfp_nsp_config_clear_state (nfp_nsp_config_set_modified 0 nsp)) s"

definition nfp_eth_config_commit_end :: "'h mmio \<Rightarrow> 'h nsp_env \<Rightarrow> nfp_nsp \<Rightarrow> 'h drv \<Rightarrow> int \<times> 'h drv" where
  "nfp_eth_config_commit_end M ne nsp s =
     (let (ret, nsp, w) =
        (if nfp_nsp_config_modified nsp \<noteq> 0
         then let (ret, _, nsp, w) = nfp_nsp_write_eth_table M ne nsp (nfp_nsp_config_entries nsp)
                    (of_nat NSP_ETH_TABLE_SIZE) (drv_world s)
              in (if ret < 0 then ret else 0, nsp, w)
         else (1, nsp, drv_world s))
      in (ret, nfp_eth_config_cleanup_end M nsp (s\<lparr>drv_world := w\<rparr>)))"

text \<open>The change that \<open>nfp_eth_set_mod_enable\<close> and \<open>nfp_eth_set_configured\<close> make to the entry.\<close>

definition eth_set_ctrl :: "u64 \<Rightarrow> u64 \<Rightarrow> int \<Rightarrow> u32 \<Rightarrow> nfp_nsp \<Rightarrow> nfp_nsp option" where
  "eth_set_ctrl state_bit ctrl_bit v idx nsp =
     (case nfp_nsp_config_entries nsp of
        None \<Rightarrow> None
      | Some entries \<Rightarrow>
          (case (entry_raw entries (unat idx) NSP_ETH_RAW_STATE, entry_raw entries (unat idx) NSP_ETH_RAW_CONTROL) of
             (Some st, Some ctl) \<Rightarrow>
               if v \<noteq> sint (ucast (FIELD_GET state_bit st) :: u32)
               then let reg = (ctl AND NOT ctrl_bit) OR FIELD_PREP ctrl_bit (word_of_int v)
                    in Some (nfp_nsp_config_set_modified 1
                         (nsp\<lparr>nsp_entries := Some (entry_set entries (unat idx) NSP_ETH_RAW_CONTROL reg)\<rparr>))
               else Some nsp
           | _ \<Rightarrow> None))"

definition nfp_eth_set_mod_enable ::
  "'h mmio \<Rightarrow> 'h others \<Rightarrow> 'h nsp_env \<Rightarrow> 'h nsp_env \<Rightarrow> u32 \<Rightarrow> int \<Rightarrow> 'h drv \<Rightarrow> (int \<times> 'h drv) option" where
  "nfp_eth_set_mod_enable M e ne ne' idx enable s =
     (case nfp_eth_config_start M e ne idx s of
        None \<Rightarrow> None
      | Some (None, s) \<Rightarrow> Some (-1, s)
      | Some (Some nsp, s) \<Rightarrow>
          (case eth_set_ctrl NSP_ETH_CTRL_ENABLED NSP_ETH_CTRL_ENABLED enable idx nsp of
             None \<Rightarrow> Some (-1, drv_fault s)
           | Some nsp \<Rightarrow> Some (nfp_eth_config_commit_end M ne' nsp s)))"

definition nfp_eth_set_configured ::
  "'h mmio \<Rightarrow> 'h others \<Rightarrow> 'h nsp_env \<Rightarrow> 'h nsp_env \<Rightarrow> u32 \<Rightarrow> int \<Rightarrow> 'h drv \<Rightarrow> (int \<times> 'h drv) option" where
  "nfp_eth_set_configured M e ne ne' idx configed s =
     (case nfp_eth_config_start M e ne idx s of
        None \<Rightarrow> None
      | Some (None, s) \<Rightarrow> Some (- errno_code EIO, s)
      | Some (Some nsp, s) \<Rightarrow>
          if nfp_nsp_get_abi_ver_minor nsp < 20
          then Some (- errno_code EOPNOTSUPP, nfp_eth_config_cleanup_end M nsp s)
          else
            (case eth_set_ctrl NSP_ETH_STATE_CONFIGURED NSP_ETH_CTRL_CONFIGURED configed idx nsp of
               None \<Rightarrow> Some (-1, drv_fault s)
             | Some nsp \<Rightarrow> Some (nfp_eth_config_commit_end M ne' nsp s)))"

text \<open>The value is shifted as 32 bits. \<open>None\<close> is an access outside of the table, or to none.\<close>

definition nfp_eth_set_bit_config ::
  "nfp_eth_raw \<Rightarrow> u64 \<Rightarrow> nat \<Rightarrow> u32 \<Rightarrow> u64 \<Rightarrow> nfp_nsp \<Rightarrow> (int \<times> nfp_nsp) option" where
  "nfp_eth_set_bit_config raw msk shift v ctrl_bit nsp =
     (let idx = unat (nfp_nsp_config_idx nsp)
      in if nfp_nsp_get_abi_ver_minor nsp < 17 then Some (- errno_code EOPNOTSUPP, nsp)
         else case nfp_nsp_config_entries nsp of
           None \<Rightarrow> None
         | Some entries \<Rightarrow> (case entry_raw entries idx raw of
           None \<Rightarrow> None
         | Some reg \<Rightarrow>
             if ucast v = drop_bit shift (reg AND msk) then Some (0, nsp)
             else
               let reg = (reg AND NOT msk) OR (ucast (push_bit shift v) AND msk);
                   entries = entry_set entries idx raw reg
               in case entry_raw entries idx NSP_ETH_RAW_CONTROL of
                    None \<Rightarrow> None
                  | Some ctl \<Rightarrow>
                      Some (0, nfp_nsp_config_set_modified 1
                        (nsp\<lparr>nsp_entries := Some (entry_set entries idx NSP_ETH_RAW_CONTROL (ctl OR ctrl_bit))\<rparr>))))"

definition NFP_ETH_SET_BIT_CONFIG ::
  "nfp_eth_raw \<Rightarrow> u64 \<Rightarrow> u32 \<Rightarrow> u64 \<Rightarrow> nfp_nsp \<Rightarrow> (int \<times> nfp_nsp) option" where
  "NFP_ETH_SET_BIT_CONFIG raw msk v ctrl_bit nsp = nfp_eth_set_bit_config raw msk (bf_shf msk) v ctrl_bit nsp"

definition eth_set_aneg :: "u32 \<Rightarrow> nfp_nsp \<Rightarrow> (int \<times> nfp_nsp) option" where
  "eth_set_aneg mode nsp = NFP_ETH_SET_BIT_CONFIG NSP_ETH_RAW_STATE NSP_ETH_STATE_ANEG mode NSP_ETH_CTRL_SET_ANEG nsp"

definition eth_set_fec_mode :: "u32 \<Rightarrow> nfp_nsp \<Rightarrow> (int \<times> nfp_nsp) option" where
  "eth_set_fec_mode mode nsp = NFP_ETH_SET_BIT_CONFIG NSP_ETH_RAW_STATE NSP_ETH_STATE_FEC mode NSP_ETH_CTRL_SET_FEC nsp"

definition eth_set_speed :: "u32 \<Rightarrow> nfp_nsp \<Rightarrow> (int \<times> nfp_nsp) option" where
  "eth_set_speed speed nsp =
     (let rate = nfp_eth_speed2rate speed
      in if rate = rate_code RATE_INVALID then Some (- errno_code EINVAL, nsp)
         else NFP_ETH_SET_BIT_CONFIG NSP_ETH_RAW_STATE NSP_ETH_STATE_RATE rate NSP_ETH_CTRL_SET_RATE nsp)"

definition eth_set_split :: "u32 \<Rightarrow> nfp_nsp \<Rightarrow> (int \<times> nfp_nsp) option" where
  "eth_set_split lanes nsp = NFP_ETH_SET_BIT_CONFIG NSP_ETH_RAW_PORT NSP_ETH_PORT_LANES lanes NSP_ETH_CTRL_SET_LANES nsp"

definition nfp_eth_set_fec ::
  "'h mmio \<Rightarrow> 'h others \<Rightarrow> 'h nsp_env \<Rightarrow> 'h nsp_env \<Rightarrow> u32 \<Rightarrow> u32 \<Rightarrow> 'h drv \<Rightarrow> (int \<times> 'h drv) option" where
  "nfp_eth_set_fec M e ne ne' idx mode s =
     (case nfp_eth_config_start M e ne idx s of
        None \<Rightarrow> None
      | Some (None, s) \<Rightarrow> Some (- errno_code EIO, s)
      | Some (Some nsp, s) \<Rightarrow>
          (case eth_set_fec_mode mode nsp of
             None \<Rightarrow> Some (-1, drv_fault s)
           | Some (err, nsp) \<Rightarrow>
               if err \<noteq> 0 then Some (err, nfp_eth_config_cleanup_end M nsp s)
               else Some (nfp_eth_config_commit_end M ne' nsp s)))"

end
