(* ===== verification/Eth_Proof.thy ===== *)
theory Eth_Proof
  imports Nfp_Eth
begin

text \<open>
  The port table that the driver makes of the entries, compared with a direct description of it, and
  what a change of one setting does to the entries.
\<close>

section \<open>Geometry\<close>

definition same_label :: "nfp_eth_table_port list \<Rightarrow> nat \<Rightarrow> nat \<Rightarrow> bool" where
  "same_label ps i j \<longleftrightarrow> label_port (ps ! i) = label_port (ps ! j)"

definition lanes_sum :: "nfp_eth_table_port list \<Rightarrow> nat \<Rightarrow> nat list \<Rightarrow> u32" where
  "lanes_sum ps i js = (\<Sum>j\<leftarrow>js. if same_label ps i j then eth_lanes (ps ! j) else 0)"

text \<open>Port \<open>i\<close> with the lanes of all ports of its label, split when there is another one.\<close>

definition port_done :: "nfp_eth_table_port list \<Rightarrow> nat list \<Rightarrow> nat \<Rightarrow> nfp_eth_table_port" where
  "port_done ps js i = (ps ! i)\<lparr>port_lanes := port_lanes (ps ! i) + lanes_sum ps i js,
     is_split := (if \<exists>j\<in>set js. j \<noteq> i \<and> same_label ps i j then 1 else is_split (ps ! i))\<rparr>"

lemma port_done_keeps [simp]:
  "label_port (port_done ps js i) = label_port (ps ! i)" "eth_lanes (port_done ps js i) = eth_lanes (ps ! i)"
  "chan_index (port_done ps js i) = chan_index (ps ! i)"
  by (simp_all add: port_done_def)

lemma port_done_snoc:
  "port_done ps (js @ [j]) i =
     (if \<not> same_label ps i j then port_done ps js i
      else let q = (port_done ps js i)\<lparr>port_lanes := port_lanes (port_done ps js i) + eth_lanes (ps ! j)\<rparr>
           in if i = j then q else q\<lparr>is_split := 1\<rparr>)"
proof -
  have l: "lanes_sum ps i (js @ [j]) = lanes_sum ps i js + (if same_label ps i j then eth_lanes (ps ! j) else 0)"
    by (simp add: lanes_sum_def)
  have e: "(\<exists>x\<in>set (js @ [j]). x \<noteq> i \<and> same_label ps i x) \<longleftrightarrow>
      (\<exists>x\<in>set js. x \<noteq> i \<and> same_label ps i x) \<or> j \<noteq> i \<and> same_label ps i j" by auto
  show ?thesis unfolding port_done_def l e by (simp add: Let_def add.assoc)
qed

lemma inner_loop:
  "i < length ps \<Longrightarrow> \<forall>j\<in>set js. j < length ps \<Longrightarrow> fold (geometry_inner i) js ps = ps[i := port_done ps js i]"
proof (induction js rule: rev_induct)
  case Nil
  then show ?case by (simp add: port_done_def lanes_sum_def)
next
  case (snoc j js)
  let ?q = "port_done ps js i"
  have q: "label_port ?q = label_port (ps ! i)" "eth_lanes ?q = eth_lanes (ps ! i)" by (simp_all add: port_done_def)
  have n: "(ps[i := ?q]) ! i = ?q" "label_port ((ps[i := ?q]) ! j) = label_port (ps ! j)"
    "eth_lanes ((ps[i := ?q]) ! j) = eth_lanes (ps ! j)"
    using snoc.prems by (auto simp: nth_list_update)
  have "fold (geometry_inner i) (js @ [j]) ps = geometry_inner i j (ps[i := ?q])" using snoc by simp
  also have "\<dots> = ps[i := port_done ps (js @ [j]) i]"
    unfolding geometry_inner_def Let_def n q port_done_snoc same_label_def using snoc.prems(1) by simp
  finally show ?case .
qed

text \<open>The table when the first \<open>m\<close> ports are done.\<close>

definition done_upto :: "nat \<Rightarrow> nfp_eth_table_port list \<Rightarrow> nfp_eth_table_port list" where
  "done_upto m ps = map (\<lambda>i. if i < m then port_done ps [0..<length ps] i else ps ! i) [0..<length ps]"

lemma done_upto_keeps:
  assumes "j < length ps"
  shows "label_port (done_upto m ps ! j) = label_port (ps ! j)" "eth_lanes (done_upto m ps ! j) = eth_lanes (ps ! j)"
    "chan_index (done_upto m ps ! j) = chan_index (ps ! j)" "length (done_upto m ps) = length ps"
  using assms by (auto simp: done_upto_def port_done_keeps)

lemma done_upto_step:
  assumes "m < length ps"
  shows "(done_upto m ps)[m := port_done (done_upto m ps) [0..<length ps] m] = done_upto (Suc m) ps"
proof -
  have l: "lanes_sum (done_upto m ps) m [0..<length ps] = lanes_sum ps m [0..<length ps]"
    unfolding lanes_sum_def same_label_def using assms done_upto_keeps(1,2)
    by (intro arg_cong [where f = sum_list] map_cong) auto
  have s: "(\<exists>j\<in>set [0..<length ps]. j \<noteq> m \<and> same_label (done_upto m ps) m j)
      \<longleftrightarrow> (\<exists>j\<in>set [0..<length ps]. j \<noteq> m \<and> same_label ps m j)"
    unfolding same_label_def using assms done_upto_keeps(1) by (intro bex_cong) auto
  have m: "done_upto m ps ! m = ps ! m" using assms by (simp add: done_upto_def)
  have "port_done (done_upto m ps) [0..<length ps] m = port_done ps [0..<length ps] m"
    unfolding port_done_def l s m by (rule refl)
  then show ?thesis using assms by (intro nth_equalityI) (auto simp: done_upto_def nth_list_update less_Suc_eq)
qed

lemma outer_loop:
  assumes "unat (eth_count t) = length (eth_ports t)" "m \<le> length (eth_ports t)"
  shows "fold geometry_outer [0..<m] t =
    t\<lparr>max_index := fold max (map (\<lambda>i. chan_index (eth_ports t ! i)) [0..<m]) (max_index t), eth_ports := done_upto m (eth_ports t)\<rparr>"
  using assms(2)
proof (induction m)
  case 0
  have "done_upto 0 (eth_ports t) = eth_ports t" by (intro nth_equalityI) (simp_all add: done_upto_def)
  then show ?case by simp
next
  case (Suc m)
  let ?ps = "eth_ports t"
  let ?t = "t\<lparr>max_index := fold max (map (\<lambda>i. chan_index (?ps ! i)) [0..<m]) (max_index t), eth_ports := done_upto m ?ps\<rparr>"
  have m: "m < length ?ps" using Suc.prems by simp
  have in': "fold (geometry_inner m) [0..<length ?ps] (done_upto m ?ps) = done_upto (Suc m) ?ps"
    using inner_loop [of m "done_upto m ?ps" "[0..<length ?ps]"] done_upto_step [OF m] m done_upto_keeps(4) [OF m] by simp
  have e: "fold geometry_outer [0..<Suc m] t = geometry_outer m ?t" using Suc by simp
  show ?case unfolding e geometry_outer_def [of m] using in' done_upto_keeps(3) [OF m, of m] assms(1)
    by (simp add: max.commute)
qed

lemma geometry_done:
  assumes "unat (eth_count t) = length (eth_ports t)"
  shows "nfp_eth_calc_port_geometry t = t\<lparr>max_index := fold max (map chan_index (eth_ports t)) (max_index t),
    eth_ports := map (port_done (eth_ports t) [0..<length (eth_ports t)]) [0..<length (eth_ports t)]\<rparr>"
proof -
  have "map (\<lambda>i. chan_index (eth_ports t ! i)) [0..<length (eth_ports t)] = map chan_index (eth_ports t)"
    by (intro nth_equalityI) simp_all
  moreover have "done_upto (length (eth_ports t)) (eth_ports t) =
      map (port_done (eth_ports t) [0..<length (eth_ports t)]) [0..<length (eth_ports t)]"
    by (simp add: done_upto_def)
  ultimately show ?thesis
    using outer_loop [OF assms, of "length (eth_ports t)"] assms by (simp add: nfp_eth_calc_port_geometry_def)
qed

section \<open>The table\<close>

lemma translate_fresh:
  "port_lanes (nfp_eth_port_translate nsp src i eth_port_zero) = 0"
  "is_split (nfp_eth_port_translate nsp src i eth_port_zero) = 0"
  "chan_index (nfp_eth_port_translate nsp src i eth_port_zero) = i"
  by (simp_all add: nfp_eth_port_translate_def eth_port_zero_def Let_def)

lemma port_type_keeps [simp]:
  "label_port (nfp_eth_calc_port_type p) = label_port p" "eth_lanes (nfp_eth_calc_port_type p) = eth_lanes p"
  "chan_index (nfp_eth_calc_port_type p) = chan_index p" "port_lanes (nfp_eth_calc_port_type p) = port_lanes p"
  "is_split (nfp_eth_calc_port_type p) = is_split p"
  by (simp_all add: nfp_eth_calc_port_type_def)

lemma sum_list_filter: "(\<Sum>x\<leftarrow>xs. if P x then f x else 0) = sum_list (map f (filter P xs))"
  for f :: "'a \<Rightarrow> 'b::comm_monoid_add"
  by (induction xs) simp_all

text \<open>The table has one port for each entry that is in use, in order; its computed fields are what
  they are documented to be.\<close>

theorem table_reference:
  fixes entries :: "u8 list" and nsp :: nfp_nsp
  defines "used \<equiv> filter (entry_used entries) [0..<NSP_ETH_MAX_COUNT]"
  defines "t \<equiv> eth_table_of nsp entries"
  shows "unat (eth_count t) = length (eth_ports t)" "map chan_index (eth_ports t) = map of_nat used"
    "max_index t = fold max (map of_nat used) 0"
    "\<And>i. i < length (eth_ports t) \<Longrightarrow> port_lanes (eth_ports t ! i) =
      sum_list (map eth_lanes (filter (\<lambda>q. label_port q = label_port (eth_ports t ! i)) (eth_ports t)))"
    "\<And>i. i < length (eth_ports t) \<Longrightarrow> is_split (eth_ports t ! i) =
      (if \<exists>j<length (eth_ports t). j \<noteq> i \<and> label_port (eth_ports t ! j) = label_port (eth_ports t ! i) then 1 else 0)"
proof -
  define ps where "ps = map (\<lambda>i. nfp_eth_port_translate nsp (eth_entry entries i) (of_nat i) eth_port_zero) used"
  let ?t0 = "\<lparr>eth_count = of_nat (length used), max_index = 0, eth_ports = ps\<rparr>"
  have "length used \<le> 48"
    unfolding used_def using length_filter_le [of "entry_used entries" "[0..<NSP_ETH_MAX_COUNT]"]
    by (simp add: NSP_ETH_MAX_COUNT_def NSP_ETH_NBI_PORT_COUNT_def)
  then have u: "unat (of_nat (length used) :: u32) = length used" by (simp add: unat_of_nat)
  have n: "length ps = length used" by (simp add: ps_def)
  have g: "nfp_eth_calc_port_geometry ?t0 = ?t0\<lparr>max_index := fold max (map chan_index ps) 0,
      eth_ports := map (port_done ps [0..<length ps]) [0..<length ps]\<rparr>"
    using geometry_done [of ?t0] u n by simp
  have t: "t = \<lparr>eth_count = of_nat (length used), max_index = fold max (map chan_index ps) 0,
      eth_ports = map nfp_eth_calc_port_type (map (port_done ps [0..<length ps]) [0..<length ps])\<rparr>"
    unfolding t_def eth_table_of_def Let_def used_def [symmetric] ps_def [symmetric] g by simp
  have ci: "map chan_index ps = map of_nat used" by (simp add: ps_def translate_fresh)
  have p: "length (eth_ports t) = length ps" "eth_ports t ! i = nfp_eth_calc_port_type (port_done ps [0..<length ps] i)"
    if "i < length ps" for i using that by (simp_all add: t)
  have z: "port_lanes (ps ! i) = 0" "is_split (ps ! i) = 0" if "i < length ps" for i
    using that by (simp_all add: ps_def translate_fresh)
  show c: "unat (eth_count t) = length (eth_ports t)" using u n by (simp add: t)
  have "map chan_index (eth_ports t) = map chan_index ps" by (intro nth_equalityI) (simp_all add: t)
  then show "map chan_index (eth_ports t) = map of_nat used" using ci by simp
  show "max_index t = fold max (map of_nat used) 0" by (simp add: t ci)
  have lb: "label_port (eth_ports t ! j) = label_port (ps ! j)" "eth_lanes (eth_ports t ! j) = eth_lanes (ps ! j)"
    if "j < length ps" for j using that p(2) by simp_all
  have len: "length (eth_ports t) = length ps" by (simp add: t)
  fix i assume "i < length (eth_ports t)"
  then have i: "i < length ps" using len by simp
  have "map (\<lambda>j. if same_label ps i j then eth_lanes (ps ! j) else 0) [0..<length ps] =
      map (\<lambda>q. if label_port q = label_port (eth_ports t ! i) then eth_lanes q else 0) (eth_ports t)"
  proof (rule nth_equalityI)
    fix j assume "j < length (map (\<lambda>j. if same_label ps i j then eth_lanes (ps ! j) else 0) [0..<length ps])"
    then have j: "j < length ps" by simp
    then show "map (\<lambda>j. if same_label ps i j then eth_lanes (ps ! j) else 0) [0..<length ps] ! j =
        map (\<lambda>q. if label_port q = label_port (eth_ports t ! i) then eth_lanes q else 0) (eth_ports t) ! j"
      using len by (simp add: same_label_def lb [OF j] lb [OF i] eq_commute [of "label_port (ps ! i)"])
  qed (simp add: len)
  then have "lanes_sum ps i [0..<length ps] = (\<Sum>q\<leftarrow>eth_ports t. if label_port q = label_port (eth_ports t ! i) then eth_lanes q else 0)"
    by (simp add: lanes_sum_def)
  then show "port_lanes (eth_ports t ! i) =
      sum_list (map eth_lanes (filter (\<lambda>q. label_port q = label_port (eth_ports t ! i)) (eth_ports t)))"
    unfolding sum_list_filter using p(2) [OF i] z [OF i] by (simp add: port_done_def)
  have "(\<exists>j\<in>set [0..<length ps]. j \<noteq> i \<and> same_label ps i j)
      \<longleftrightarrow> (\<exists>j<length (eth_ports t). j \<noteq> i \<and> label_port (eth_ports t ! j) = label_port (eth_ports t ! i))"
    unfolding len same_label_def using lb i by auto
  then show "is_split (eth_ports t ! i) =
      (if \<exists>j<length (eth_ports t). j \<noteq> i \<and> label_port (eth_ports t ! j) = label_port (eth_ports t ! i) then 1 else 0)"
    using p(2) [OF i] z [OF i] by (simp add: port_done_def)
qed

section \<open>Changing a setting\<close>

definition table_ok :: "u8 list \<Rightarrow> bool" where
  "table_ok entries \<longleftrightarrow> length entries = NSP_ETH_TABLE_SIZE"

lemma raw_bound:
  "i < NSP_ETH_MAX_COUNT \<Longrightarrow> raw_at i k + 8 \<le> NSP_ETH_TABLE_SIZE"
  by (cases k) (simp_all add: raw_at_def NSP_ETH_TABLE_SIZE_def NSP_ETH_MAX_COUNT_def NSP_ETH_NBI_PORT_COUNT_def eth_entry_size_def)

lemma raw_apart:
  assumes "(i, k) \<noteq> (j, l)"
  shows "raw_at i k + 8 \<le> raw_at j l \<or> raw_at j l + 8 \<le> raw_at i k"
proof (cases "i = j")
  case True
  then show ?thesis using assms by (cases k; cases l) (simp_all add: raw_at_def)
next
  case False
  have r: "raw_idx x \<le> 3" for x by (cases x) simp_all
  have "32 * i + 8 * raw_idx k + 8 \<le> 32 * j + 8 * raw_idx l \<or> 32 * j + 8 * raw_idx l + 8 \<le> 32 * i + 8 * raw_idx k"
    using False r [of k] r [of l] by arith
  then show ?thesis by (simp add: raw_at_def eth_entry_size_def mult.commute)
qed

lemma length_entry_set [simp]: "raw_at i k + 8 \<le> length buf \<Longrightarrow> length (entry_set buf i k v) = length buf"
  by (simp add: entry_set_def)

text \<open>Entries as an array of words.\<close>

lemma entry_raw_set:
  assumes "raw_at i k + 8 \<le> length buf"
  shows "entry_raw (entry_set buf i k v) j l = (if (j, l) = (i, k) then Some v else entry_raw buf j l)"
proof (cases "(j, l) = (i, k)")
  case True
  have "take 8 (drop (raw_at i k) (entry_set buf i k v)) = le_bytes 8 v" using assms by (simp add: entry_set_def)
  then show ?thesis using True assms by (simp add: entry_raw_def)
next
  case False
  then have d: "raw_at i k + 8 \<le> raw_at j l \<or> raw_at j l + 8 \<le> raw_at i k" using raw_apart by metis
  have "take 8 (drop (raw_at j l) (entry_set buf i k v)) = take 8 (drop (raw_at j l) buf)"
    if "raw_at j l + 8 \<le> length buf"
    using d
  proof
    assume a: "raw_at i k + 8 \<le> raw_at j l"
    have "drop (raw_at j l) (entry_set buf i k v) = drop (raw_at j l - (raw_at i k + 8)) (drop (raw_at i k + 8) (entry_set buf i k v))"
      using a by simp
    also have "drop (raw_at i k + 8) (entry_set buf i k v) = drop (raw_at i k + 8) buf" using assms by (simp add: entry_set_def)
    finally show ?thesis using a by simp
  next
    assume a: "raw_at j l + 8 \<le> raw_at i k"
    have "take 8 (drop (raw_at j l) xs) = drop (raw_at j l) (take (raw_at j l + 8) xs)" for xs :: "u8 list"
      by (simp add: take_drop add.commute)
    moreover have "take (raw_at j l + 8) (entry_set buf i k v) = take (raw_at j l + 8) buf"
      using a assms by (simp add: entry_set_def min_def)
    ultimately show ?thesis by simp
  qed
  then show ?thesis unfolding if_not_P [OF False] using assms by (simp add: entry_raw_def)
qed

text \<open>The new value of a word.\<close>

definition field_put :: "u64 \<Rightarrow> u64 \<Rightarrow> u64 \<Rightarrow> u64" where
  "field_put m v r = (r AND NOT m) OR FIELD_PREP m v"

lemma field_put_get:
  assumes "field_mask m h l" "FIELD_FIT m v" "unat v < 2 ^ (64 - l)"
  shows "FIELD_GET m (field_put m v r) = v" "field_put m v r AND NOT m = r AND NOT m"
proof -
  have "(r AND NOT m) AND m = 0" by (rule bit_word_eqI) (simp add: bit_and_iff bit_not_iff_eq)
  then show "FIELD_GET m (field_put m v r) = v" unfolding field_put_def by (rule field_get_prep [OF assms])
  show "field_put m v r AND NOT m = r AND NOT m"
    unfolding field_put_def FIELD_PREP_def by (rule bit_word_eqI) (auto simp: bit_and_iff bit_or_iff bit_not_iff_eq)
qed

text \<open>A value that fits into a field below bit 32 is not cut by the shift of 32 bits.\<close>

lemma shift_32:
  assumes m: "field_mask m h l" and h: "h < 32" and fit: "FIELD_FIT m (ucast (v :: u32))"
  shows "ucast (push_bit l v) AND m = FIELD_PREP m (ucast v)"
proof (rule bit_word_eqI)
  fix i assume "i < LENGTH(64)"
  have "bit m i \<longleftrightarrow> l \<le> i \<and> i \<le> h" using m by (simp add: field_mask_def)
  then show "bit (ucast (push_bit l v) AND m) i = bit (FIELD_PREP m (ucast v)) i"
    unfolding bit_FIELD_PREP [OF m] using h by (auto simp: bit_and_iff bit_unsigned_iff bit_push_bit_iff)
qed

theorem set_bit_config:
  assumes v: "17 \<le> ver_minor nsp" and e: "nsp_entries nsp = Some entries" "table_ok entries"
    and i: "unat (nsp_idx nsp) < NSP_ETH_MAX_COUNT" and m: "field_mask msk h l" "h < 32" "FIELD_FIT msk (ucast val)"
    and raw: "raw \<noteq> NSP_ETH_RAW_CONTROL"
  shows "\<exists>nsp' entries' reg ctl. NFP_ETH_SET_BIT_CONFIG raw msk val ctrl_bit nsp = Some (0, nsp')
    \<and> nsp_entries nsp' = Some entries' \<and> table_ok entries'
    \<and> entry_raw entries (unat (nsp_idx nsp)) raw = Some reg \<and> entry_raw entries (unat (nsp_idx nsp)) NSP_ETH_RAW_CONTROL = Some ctl
    \<and> (if FIELD_GET msk reg = ucast val then nsp' = nsp
       else nsp_modified nsp' = 1 \<and> (\<forall>j k. entry_raw entries' j k =
         (if (j, k) = (unat (nsp_idx nsp), raw) then Some (field_put msk (ucast val) reg)
          else if (j, k) = (unat (nsp_idx nsp), NSP_ETH_RAW_CONTROL) then Some (ctl OR ctrl_bit)
          else entry_raw entries j k)))"
proof -
  let ?i = "unat (nsp_idx nsp)"
  have b: "raw_at ?i k + 8 \<le> length entries" for k using raw_bound [OF i] e(2) by (simp add: table_ok_def)
  obtain reg ctl where r: "entry_raw entries ?i raw = Some reg" "entry_raw entries ?i NSP_ETH_RAW_CONTROL = Some ctl"
    using b by (simp add: entry_raw_def)
  have sh: "bf_shf msk = l" by (rule bf_shf_field [OF m(1)])
  have get: "drop_bit l (reg AND msk) = FIELD_GET msk reg" by (simp add: FIELD_GET_def sh)
  define e1 where "e1 = entry_set entries ?i raw (field_put msk (ucast val) reg)"
  have b1: "raw_at ?i k + 8 \<le> length e1" "length e1 = length entries" for k using b by (simp_all add: e1_def)
  have put: "(reg AND NOT msk) OR (ucast (push_bit l val) AND msk) = field_put msk (ucast val) reg"
    by (simp add: field_put_def shift_32 [OF m])
  have c1: "entry_raw e1 ?i NSP_ETH_RAW_CONTROL = Some ctl"
    using raw r(2) by (auto simp: e1_def entry_raw_set [OF b])
  show ?thesis
  proof (cases "FIELD_GET msk reg = ucast val")
    case True
    then have "NFP_ETH_SET_BIT_CONFIG raw msk val ctrl_bit nsp = Some (0, nsp)"
      using v e(1) r get sh by (simp add: NFP_ETH_SET_BIT_CONFIG_def nfp_eth_set_bit_config_def nfp_nsp_config_entries_def
          nfp_nsp_config_idx_def nfp_nsp_get_abi_ver_minor_def not_less [symmetric] Let_def)
    then show ?thesis using True e r
      by (intro exI [of _ nsp] exI [of _ entries] exI [of _ reg] exI [of _ ctl]) simp
  next
    case False
    let ?n = "nfp_nsp_config_set_modified 1 (nsp\<lparr>nsp_entries := Some (entry_set e1 ?i NSP_ETH_RAW_CONTROL (ctl OR ctrl_bit))\<rparr>)"
    have "NFP_ETH_SET_BIT_CONFIG raw msk val ctrl_bit nsp = Some (0, ?n)"
      using v e(1) r get sh False put c1 unfolding e1_def [symmetric]
      by (simp add: NFP_ETH_SET_BIT_CONFIG_def nfp_eth_set_bit_config_def nfp_nsp_config_entries_def
          nfp_nsp_config_idx_def nfp_nsp_get_abi_ver_minor_def not_less [symmetric] Let_def e1_def)
    moreover have "nsp_entries ?n = Some (entry_set e1 ?i NSP_ETH_RAW_CONTROL (ctl OR ctrl_bit))" "nsp_modified ?n = 1"
      by (simp_all add: nfp_nsp_config_set_modified_def)
    moreover have "entry_raw (entry_set e1 ?i NSP_ETH_RAW_CONTROL (ctl OR ctrl_bit)) j k =
         (if (j, k) = (?i, raw) then Some (field_put msk (ucast val) reg)
          else if (j, k) = (?i, NSP_ETH_RAW_CONTROL) then Some (ctl OR ctrl_bit) else entry_raw entries j k)" for j k
      using raw unfolding entry_raw_set [OF b1(1)] unfolding e1_def entry_raw_set [OF b] by auto
    moreover have "table_ok (entry_set e1 ?i NSP_ETH_RAW_CONTROL (ctl OR ctrl_bit))"
      using e(2) b1 by (simp add: table_ok_def)
    ultimately show ?thesis using False r
      by (intro exI [of _ ?n] exI [of _ "entry_set e1 ?i NSP_ETH_RAW_CONTROL (ctl OR ctrl_bit)"] exI [of _ reg] exI [of _ ctl]) simp
  qed
qed

end
