(* ===== verification/Nfp_Mip.thy ===== *)
theory Nfp_Mip
  imports Nfp_Resource Cpp_Start Hwinfo_Read
begin

text \<open>
  Finding the firmware's description of itself: the table of loaded firmware
  (user/nfpcore/nfp_nffw.c, nfp_nffw.h) and the MIP structure that it points to
  (user/nfpcore/nfp_mip.c). The host is little-endian.
\<close>

section \<open>The table of loaded firmware\<close>

definition NFFW_INFO_VERSION_CURRENT :: u32 where "NFFW_INFO_VERSION_CURRENT = 2"
definition NFFW_MEINFO_CNT_V1 :: nat where "NFFW_MEINFO_CNT_V1 = 120"
definition NFFW_FWINFO_CNT_V1 :: nat where "NFFW_FWINFO_CNT_V1 = 120"
definition NFFW_MEINFO_CNT_V2 :: nat where "NFFW_MEINFO_CNT_V2 = 200"
definition NFFW_FWINFO_CNT_V2 :: nat where "NFFW_FWINFO_CNT_V2 = 200"

text \<open>\<open>sizeof(struct nfp_nffw_info_data)\<close>: two words of flags and the larger member of the union.\<close>

definition nffw_info_data_size :: nat where
  "nffw_info_data_size = 8 + 4 * NFFW_MEINFO_CNT_V2 + 12 * NFFW_FWINFO_CNT_V2"

record nffw_fwinfo =
  loaded__mu_da__mip_off_hi :: u32
  mip_cppid :: u32
  mip_offset_lo :: u32

record nfp_nffw_info =
  nffw_res :: nfp_resource
  nffw_fwinf :: "u8 list"

definition word32_at :: "u8 list \<Rightarrow> nat \<Rightarrow> u32" where
  "word32_at bs i = le_word (take 4 (drop i bs))"

definition nffw_res_info_version_get :: "u8 list \<Rightarrow> u32" where
  "nffw_res_info_version_get fwinf = drop_bit 16 (word32_at fwinf 0) AND 0xfff"

definition nffw_res_flg_init_get :: "u8 list \<Rightarrow> u32" where
  "nffw_res_flg_init_get fwinf = drop_bit 0 (word32_at fwinf 0) AND 1"

definition nffw_fwinfo_loaded_get :: "nffw_fwinfo \<Rightarrow> u32" where
  "nffw_fwinfo_loaded_get fi = drop_bit 31 (loaded__mu_da__mip_off_hi fi) AND 1"

definition nffw_fwinfo_mip_cppid_get :: "nffw_fwinfo \<Rightarrow> u32" where
  "nffw_fwinfo_mip_cppid_get fi = mip_cppid fi"

definition nffw_fwinfo_mip_mu_da_get :: "nffw_fwinfo \<Rightarrow> u32" where
  "nffw_fwinfo_mip_mu_da_get fi = drop_bit 8 (loaded__mu_da__mip_off_hi fi) AND 1"

definition nffw_fwinfo_mip_offset_get :: "nffw_fwinfo \<Rightarrow> u64" where
  "nffw_fwinfo_mip_offset_get fi =
     (let mip_off_hi = ucast (loaded__mu_da__mip_off_hi fi) :: u64
      in push_bit 32 (mip_off_hi AND 0xFF) OR ucast (mip_offset_lo fi))"

definition IMB_TGTADDRESSMODECFG_MODE_of :: "u32 \<Rightarrow> u32" where
  "IMB_TGTADDRESSMODECFG_MODE_of x = drop_bit 13 x AND 0x7"

definition IMB_TGTADDRESSMODECFG_ADDRMODE :: u32 where
  "IMB_TGTADDRESSMODECFG_ADDRMODE = push_bit 12 1"

definition nfp_cppat_mu_locality_lsb :: "u32 \<Rightarrow> bool \<Rightarrow> int" where
  "nfp_cppat_mu_locality_lsb mode addr40 =
     (if mode \<le> 3 then (if addr40 then 38 else 30) else - errno_code EINVAL)"

definition nfp_mip_mu_locality_lsb :: "'h mmio \<Rightarrow> 'h world \<Rightarrow> int \<times> 'h world" where
  "nfp_mip_mu_locality_lsb M w =
     (let xpbaddr = 0x000a0000 + 7 * 4
      in case nfp_xpb_readl M xpbaddr w of
           (Inl e, w) \<Rightarrow> (ret_code e, w)
         | (Inr imbcppat, w) \<Rightarrow>
             let mode = IMB_TGTADDRESSMODECFG_MODE_of imbcppat;
                 addr40 = imbcppat AND IMB_TGTADDRESSMODECFG_ADDRMODE \<noteq> 0
             in (nfp_cppat_mu_locality_lsb mode addr40, w))"

text \<open>The number of entries and the offset of the first one; \<open>None\<close> is \<open>NULL\<close>.\<close>

definition nffw_res_fwinfos :: "u8 list \<Rightarrow> nat \<times> nat option" where
  "nffw_res_fwinfos fwinf =
     (let v = nffw_res_info_version_get fwinf
      in if v = 0 \<or> v = 1 then (NFFW_FWINFO_CNT_V1, Some (8 + 4 * NFFW_MEINFO_CNT_V1))
         else if v = 2 then (NFFW_FWINFO_CNT_V2, Some (8 + 4 * NFFW_MEINFO_CNT_V2))
         else (0, None))"

definition fwinfo_at :: "u8 list \<Rightarrow> nat \<Rightarrow> nffw_fwinfo" where
  "fwinfo_at fwinf off =
     \<lparr>loaded__mu_da__mip_off_hi = word32_at fwinf off, mip_cppid = word32_at fwinf (off + 4),
      mip_offset_lo = word32_at fwinf (off + 8)\<rparr>"

text \<open>\<open>"nfp.nffw"\<close>\<close>

definition NFP_RESOURCE_NFP_NFFW :: "u8 list" where
  "NFP_RESOURCE_NFP_NFFW = [0x6e, 0x66, 0x70, 0x2e, 0x6e, 0x66, 0x66, 0x77]"

definition nfp_nffw_info_open :: "'h mmio \<Rightarrow> 'h others \<Rightarrow> 'h drv \<Rightarrow> (nfp_nffw_info option \<times> 'h drv) option" where
  "nfp_nffw_info_open M e s =
     (let (ok, w) = c_malloc (drv_world s); s = s\<lparr>drv_world := w\<rparr>
      in if \<not> ok then Some (None, s)
         else case acquire_named M e NFP_RESOURCE_NFP_NFFW s of
           None \<Rightarrow> None
         | Some (None, s) \<Rightarrow> Some (None, s)
         | Some (Some res, s) \<Rightarrow>
             if of_nat nffw_info_data_size > nfp_resource_size res then Some (None, nfp_resource_release M res s)
             else
               let (err, bs, w) = nfp_cpp_read M (nfp_resource_cpp_id res) (nfp_resource_address res)
                     (of_nat nffw_info_data_size) (drv_world s);
                   s = s\<lparr>drv_world := w\<rparr>;
                   fwinf = bs @ replicate (nffw_info_data_size - length bs) 0
               in if err < int nffw_info_data_size then Some (None, nfp_resource_release M res s)
                  else if nffw_res_flg_init_get fwinf = 0 then Some (None, nfp_resource_release M res s)
                  else if nffw_res_info_version_get fwinf > NFFW_INFO_VERSION_CURRENT
                    then Some (None, nfp_resource_release M res s)
                  else Some (Some \<lparr>nffw_res = res, nffw_fwinf = fwinf\<rparr>, s))"

definition nfp_nffw_info_close :: "'h mmio \<Rightarrow> nfp_nffw_info \<Rightarrow> 'h drv \<Rightarrow> 'h drv" where
  "nfp_nffw_info_close M state s = nfp_resource_release M (nffw_res state) s"

definition nfp_nffw_info_fwid_first :: "nfp_nffw_info \<Rightarrow> nffw_fwinfo option" where
  "nfp_nffw_info_fwid_first state =
     (case nffw_res_fwinfos (nffw_fwinf state) of
        (cnt, Some arr) \<Rightarrow>
          find (\<lambda>fi. nffw_fwinfo_loaded_get fi \<noteq> 0) (map (\<lambda>i. fwinfo_at (nffw_fwinf state) (arr + 12 * i)) [0..<cnt])
      | (_, None) \<Rightarrow> None)"

definition NFP_MU_ADDR_ACCESS_TYPE_MASK :: u64 where "NFP_MU_ADDR_ACCESS_TYPE_MASK = 3"
definition NFP_MU_ADDR_ACCESS_TYPE_DIRECT :: u64 where "NFP_MU_ADDR_ACCESS_TYPE_DIRECT = 2"

text \<open>The identifier and the offset of the MIP, or the error.\<close>

definition nfp_nffw_info_mip_first ::
  "'h mmio \<Rightarrow> nfp_nffw_info \<Rightarrow> 'h world \<Rightarrow> (int + u32 \<times> u64) \<times> 'h world" where
  "nfp_nffw_info_mip_first M state w =
     (case nfp_nffw_info_fwid_first state of
        None \<Rightarrow> (Inl (- errno_code EINVAL), w)
      | Some fwinfo \<Rightarrow>
          let cpp_id = nffw_fwinfo_mip_cppid_get fwinfo; off = nffw_fwinfo_mip_offset_get fwinfo
          in if nffw_fwinfo_mip_mu_da_get fwinfo = 0 then (Inr (cpp_id, off), w)
             else if NFP_CPP_ID_TARGET_of cpp_id \<noteq> 7 then (Inr (cpp_id, off), w)
             else
               let (locality_off, w) = nfp_mip_mu_locality_lsb M w
               in if locality_off < 0 then (Inl locality_off, w)
                  else
                    let off = off AND NOT (push_bit (nat locality_off) NFP_MU_ADDR_ACCESS_TYPE_MASK);
                        off = off OR push_bit (nat locality_off) NFP_MU_ADDR_ACCESS_TYPE_DIRECT
                    in (Inr (cpp_id, off), w))"

section \<open>The MIP\<close>

definition NFP_MIP_SIGNATURE :: u32 where "NFP_MIP_SIGNATURE = 0x0050494d"
definition NFP_MIP_VERSION :: u32 where "NFP_MIP_VERSION = 1"

text \<open>\<open>sizeof(struct nfp_mip)\<close>\<close>

definition nfp_mip_size :: nat where "nfp_mip_size = 96"

record nfp_mip =
  mip_signature :: u32
  mip_mip_version :: u32
  mip_mip_size :: u32
  mip_first_entry :: u32
  mip_version :: u32
  mip_buildnum :: u32
  mip_buildtime :: u32
  mip_loadtime :: u32
  mip_symtab_addr :: u32
  mip_symtab_size :: u32
  mip_strtab_addr :: u32
  mip_strtab_size :: u32
  mip_name :: "u8 list"
  mip_toolchain :: "u8 list"

definition mip_of_bytes :: "u8 list \<Rightarrow> nfp_mip" where
  "mip_of_bytes bs =
     \<lparr>mip_signature = word32_at bs 0, mip_mip_version = word32_at bs 4, mip_mip_size = word32_at bs 8,
      mip_first_entry = word32_at bs 12, mip_version = word32_at bs 16, mip_buildnum = word32_at bs 20,
      mip_buildtime = word32_at bs 24, mip_loadtime = word32_at bs 28, mip_symtab_addr = word32_at bs 32,
      mip_symtab_size = word32_at bs 36, mip_strtab_addr = word32_at bs 40, mip_strtab_size = word32_at bs 44,
      mip_name = take 16 (drop 48 bs), mip_toolchain = take 32 (drop 64 bs)\<rparr>"

definition nfp_mip_try_read ::
  "'h mmio \<Rightarrow> u32 \<Rightarrow> u64 \<Rightarrow> 'h world \<Rightarrow> (int + nfp_mip) \<times> 'h world" where
  "nfp_mip_try_read M cpp_id addr w =
     (let (ret, bs, w) = nfp_cpp_read M cpp_id addr (of_nat nfp_mip_size) w; mip = mip_of_bytes bs
      in if ret \<noteq> int nfp_mip_size then (Inl (- errno_code EIO), w)
         else if mip_signature mip \<noteq> NFP_MIP_SIGNATURE then (Inl (- errno_code EINVAL), w)
         else if mip_mip_version mip \<noteq> NFP_MIP_VERSION then (Inl (- errno_code EINVAL), w)
         else (Inr mip, w))"

definition nfp_mip_read_resource ::
  "'h mmio \<Rightarrow> 'h others \<Rightarrow> 'h drv \<Rightarrow> ((int + nfp_mip) \<times> 'h drv) option" where
  "nfp_mip_read_resource M e s =
     (case nfp_nffw_info_open M e s of
        None \<Rightarrow> None
      | Some (None, s) \<Rightarrow> Some (Inl (- errno_code ENODEV), s)
      | Some (Some nffw_info, s) \<Rightarrow>
          let (r, w) = (case nfp_nffw_info_mip_first M nffw_info (drv_world s) of
                 (Inl err, w) \<Rightarrow> (Inl err, w)
               | (Inr (cpp_id, addr), w) \<Rightarrow> nfp_mip_try_read M cpp_id addr w)
          in Some (r, nfp_nffw_info_close M nffw_info (s\<lparr>drv_world := w\<rparr>)))"

definition nfp_mip_open :: "'h mmio \<Rightarrow> 'h others \<Rightarrow> 'h drv \<Rightarrow> (nfp_mip option \<times> 'h drv) option" where
  "nfp_mip_open M e s =
     (let (ok, w) = c_malloc (drv_world s); s = s\<lparr>drv_world := w\<rparr>
      in if \<not> ok then Some (None, s)
         else case nfp_mip_read_resource M e s of
           None \<Rightarrow> None
         | Some (Inl _, s) \<Rightarrow> Some (None, s)
         | Some (Inr mip, s) \<Rightarrow> Some (Some (mip\<lparr>mip_name := (mip_name mip)[15 := 0]\<rparr>), s))"

definition nfp_mip_name :: "nfp_mip \<Rightarrow> u8 list" where "nfp_mip_name mip = mip_name mip"

definition nfp_mip_symtab :: "nfp_mip \<Rightarrow> u32 \<times> u32" where
  "nfp_mip_symtab mip = (mip_symtab_addr mip, mip_symtab_size mip)"

definition nfp_mip_strtab :: "nfp_mip \<Rightarrow> u32 \<times> u32" where
  "nfp_mip_strtab mip = (mip_strtab_addr mip, mip_strtab_size mip)"

end
