(* ===== verification/Nfp_Rtsym.thy ===== *)
theory Nfp_Rtsym
  imports Nfp_Mip Cpp_Core
begin

text \<open>
  The symbols of the loaded firmware (user/nfpcore/nfp_rtsym.c, nfp_rtsym.h): the table is read from
  device memory into a cache, symbols are found by name, and their values are read or mapped.
\<close>

section \<open>Symbols\<close>

definition SYM_TGT_LMEM :: u8 where "SYM_TGT_LMEM = 0"
definition SYM_TGT_EMU_CACHE :: u8 where "SYM_TGT_EMU_CACHE = 0x17"
definition NFP_RTSYM_TARGET_LMEM :: int where "NFP_RTSYM_TARGET_LMEM = -1"
definition NFP_RTSYM_TARGET_EMU_CACHE :: int where "NFP_RTSYM_TARGET_EMU_CACHE = -7"

record nfp_rtsym_entry =
  se_type :: u8
  se_target :: u8
  se_island :: u8
  se_addr_hi :: u8
  se_addr_lo :: u32
  se_name :: u16
  se_menum :: u8
  se_size_hi :: u8
  se_size_lo :: u32

definition rtsym_entry_size :: nat where "rtsym_entry_size = 16"

definition rtsym_entry_of_bytes :: "u8 list \<Rightarrow> nfp_rtsym_entry" where
  "rtsym_entry_of_bytes bs =
     \<lparr>se_type = bs ! 0, se_target = bs ! 1, se_island = bs ! 2, se_addr_hi = bs ! 3,
      se_addr_lo = le_word (take 4 (drop 4 bs)), se_name = le_word (take 2 (drop 8 bs)), se_menum = bs ! 10,
      se_size_hi = bs ! 11, se_size_lo = le_word (take 4 (drop 12 bs))\<rparr>"

text \<open>The name is an offset into the string table of the cache.\<close>

record nfp_rtsym =
  sym_name :: nat
  sym_addr :: u64
  sym_size :: u64
  sym_type :: int
  sym_target :: int
  sym_domain :: int

record nfp_rtsym_table =
  rt_num :: int
  rt_strtab :: "u8 list"
  rt_symtab :: "nfp_rtsym list"

definition nfp_meid :: "u8 \<Rightarrow> u8 \<Rightarrow> int" where
  "nfp_meid island_id menum =
     (if island_id AND 0x3F = island_id \<and> menum < 12
      then uint (push_bit 4 (ucast island_id :: u32) OR (ucast menum + 4)) else -1)"

definition nfp_rtsym_sw_entry_init :: "u32 \<Rightarrow> nfp_rtsym_entry \<Rightarrow> nfp_rtsym" where
  "nfp_rtsym_sw_entry_init strtab_size fw =
     \<lparr>sym_name = unat (ucast (se_name fw) mod strtab_size),
      sym_addr = push_bit 32 (ucast (se_addr_hi fw)) OR ucast (se_addr_lo fw),
      sym_size = push_bit 32 (ucast (se_size_hi fw)) OR ucast (se_size_lo fw),
      sym_type = uint (se_type fw),
      sym_target = (if se_target fw = SYM_TGT_LMEM then NFP_RTSYM_TARGET_LMEM
        else if se_target fw = SYM_TGT_EMU_CACHE then NFP_RTSYM_TARGET_EMU_CACHE else uint (se_target fw)),
      sym_domain = (if se_menum fw \<noteq> 0xff then nfp_meid (se_island fw) (se_menum fw)
        else if se_island fw \<noteq> 0xff then uint (se_island fw) else -1)\<rparr>"

section \<open>Reading the table\<close>

definition round_up :: "u32 \<Rightarrow> u32 \<Rightarrow> u32" where
  "round_up x y = ((x - 1) OR (y - 1)) + 1"

definition rtsym_dram :: u32 where
  "rtsym_dram = NFP_CPP_ID 7 NFP_CPP_ACTION_RW 0 OR 24"

text \<open>The cache has a head of 24 bytes, 40 bytes for each symbol and the string table. Its size is
  computed in an \<open>int\<close>, which \<open>malloc\<close> takes as a 64-bit number; \<open>cache_need\<close> is what is written to it.\<close>

definition cache_size :: "u32 \<Rightarrow> u32 \<Rightarrow> u64" where
  "cache_size symtab_size strtab_size =
     scast (24 + ucast ((ucast symtab_size :: u64) div 16 * 40) + (strtab_size + 1) :: u32)"

definition cache_need :: "u32 \<Rightarrow> u32 \<Rightarrow> nat" where
  "cache_need symtab_size strtab_size = 24 + 40 * (unat symtab_size div 16) + unat strtab_size + 1"

text \<open>\<open>rtsymtab[0..num-1]\<close>\<close>

definition rtsym_entries :: "nat \<Rightarrow> u8 list \<Rightarrow> nfp_rtsym_entry list" where
  "rtsym_entries num raw =
     map (\<lambda>i. rtsym_entry_of_bytes (take rtsym_entry_size (drop (rtsym_entry_size * i) raw))) [0..<num]"

text \<open>\<open>__nfp_rtsym_table_read\<close>. A write behind the end of the cache and a division by zero raise the
  fault.\<close>

definition rtsym_table_read ::
  "'h mmio \<Rightarrow> nfp_mip option \<Rightarrow> 'h world \<Rightarrow> nfp_rtsym_table option \<times> 'h world" where
  "rtsym_table_read M mip w =
     (case mip of
        None \<Rightarrow> (None, w)
      | Some mip \<Rightarrow>
          let (strtab_addr, strtab_size) = nfp_mip_strtab mip; (symtab_addr, symtab_size) = nfp_mip_symtab mip
          in if symtab_size = 0 \<or> strtab_size = 0 \<or> symtab_size mod 16 \<noteq> 0 then (None, w)
             else
               let symtab_size = round_up symtab_size 8; strtab_size = round_up strtab_size 8; (ok, w) = c_malloc w
               in if \<not> ok then (None, w)
                  else
                    let (ok, w) = c_malloc w
                    in if \<not> ok then (None, w)
                       else
                         let num = unat (symtab_size div 16);
                             (err, raw, w) = nfp_cpp_read M rtsym_dram (ucast symtab_addr) (ucast symtab_size) w
                         in if err \<noteq> sint symtab_size then (None, w)
                            else
                              let (err, str, w) = nfp_cpp_read M rtsym_dram (ucast strtab_addr) (ucast strtab_size) w
                              in if err \<noteq> sint strtab_size then (None, w)
                                 else if cache_need symtab_size strtab_size > unat (cache_size symtab_size strtab_size)
                                   then (None, null_deref w)
                                 else if strtab_size = 0 \<and> num > 0 then (None, null_deref w)
                                 else (Some \<lparr>rt_num = int num, rt_strtab = str @ [0],
                                        rt_symtab = map (nfp_rtsym_sw_entry_init strtab_size) (rtsym_entries num raw)\<rparr>, w))"

definition nfp_rtsym_table_read ::
  "'h mmio \<Rightarrow> 'h others \<Rightarrow> 'h drv \<Rightarrow> (nfp_rtsym_table option \<times> 'h drv) option" where
  "nfp_rtsym_table_read M e s =
     (case nfp_mip_open M e s of
        None \<Rightarrow> None
      | Some (mip, s) \<Rightarrow>
          let (rtbl, w) = rtsym_table_read M mip (drv_world s) in Some (rtbl, s\<lparr>drv_world := w\<rparr>))"

section \<open>Using the table\<close>

definition nfp_rtsym_count :: "nfp_rtsym_table option \<Rightarrow> int" where
  "nfp_rtsym_count rtbl = (case rtbl of None \<Rightarrow> - errno_code EINVAL | Some t \<Rightarrow> rt_num t)"

text \<open>The outer \<open>None\<close> is an access in front of the table.\<close>

definition nfp_rtsym_get :: "nfp_rtsym_table option \<Rightarrow> int \<Rightarrow> nfp_rtsym option option" where
  "nfp_rtsym_get rtbl idx =
     (case rtbl of
        None \<Rightarrow> Some None
      | Some t \<Rightarrow> if idx \<ge> rt_num t then Some None else if idx < 0 then None else Some (Some (rt_symtab t ! nat idx)))"

text \<open>The outer \<open>None\<close> is a name that runs out of the string table.\<close>

fun sym_search :: "u8 list \<Rightarrow> u8 list \<Rightarrow> nfp_rtsym list \<Rightarrow> nfp_rtsym option option" where
  "sym_search strtab name [] = Some None"
| "sym_search strtab name (sy # syms) =
     (case c_strlen strtab (sym_name sy) of
        None \<Rightarrow> None
      | Some _ \<Rightarrow> if name = c_str strtab (sym_name sy) then Some (Some sy) else sym_search strtab name syms)"

definition nfp_rtsym_lookup :: "nfp_rtsym_table option \<Rightarrow> u8 list \<Rightarrow> nfp_rtsym option option" where
  "nfp_rtsym_lookup rtbl name =
     (case rtbl of None \<Rightarrow> Some None | Some t \<Rightarrow> sym_search (rt_strtab t) name (take (nat (rt_num t)) (rt_symtab t)))"

text \<open>The value and the error code.\<close>

definition nfp_rtsym_read_le ::
  "'h mmio \<Rightarrow> nfp_rtsym_table option \<Rightarrow> u8 list \<Rightarrow> 'h world \<Rightarrow> (u64 \<times> int \<times> 'h world) option" where
  "nfp_rtsym_read_le M rtbl name w =
     (case nfp_rtsym_lookup rtbl name of
        None \<Rightarrow> None
      | Some None \<Rightarrow> Some (-1, - errno_code ENOENT, w)
      | Some (Some sy) \<Rightarrow>
          let dest = NFP_CPP_ISLAND_ID (word_of_int (sym_target sy)) NFP_CPP_ACTION_RW 0 (word_of_int (sym_domain sy));
              (r, w) = (if sym_size sy = 4
                 then (case nfp_cpp_readl M dest (sym_addr sy) w of
                         (Inl e, w) \<Rightarrow> (Inl (), w) | (Inr v, w) \<Rightarrow> (Inr (ucast v), w))
                 else if sym_size sy = 8
                 then (case nfp_cpp_readq M dest (sym_addr sy) w of
                         (Inl e, w) \<Rightarrow> (Inl (), w) | (Inr v, w) \<Rightarrow> (Inr v, w))
                 else (Inl (), w))
          in Some (case r of Inl _ \<Rightarrow> (-1, - errno_code EIO, w) | Inr v \<Rightarrow> (v, 0, w)))"

definition nfp_rtsym_map ::
  "'h mmio \<Rightarrow> nfp_rtsym_table option \<Rightarrow> u8 list \<Rightarrow> u32 \<Rightarrow> 'h world \<Rightarrow> ((u64 \<times> nfp_cpp_area) option \<times> 'h world) option" where
  "nfp_rtsym_map M rtbl name min_size w =
     (case nfp_rtsym_lookup rtbl name of
        None \<Rightarrow> None
      | Some None \<Rightarrow> Some (None, w)
      | Some (Some sy) \<Rightarrow>
          if sym_size sy < ucast min_size then Some (None, w)
          else Some (nfp_cpp_map_area M (word_of_int (sym_domain sy)) (word_of_int (sym_target sy)) (sym_addr sy)
                 (sym_size sy) w))"

end
