(* ===== verification/Rtsym_Proof.thy ===== *)
theory Rtsym_Proof
  imports Nfp_Rtsym Cpp_Progress Cpp_Start_Proof
begin

text \<open>
  Reading a symbol of the firmware by its name gives the value in device memory: the table that the
  linker wrote, as a list of named entries, is recovered by the driver whatever its length, and the
  names never run out of the string table.
\<close>

section \<open>Lengths\<close>

lemma length_rd32s: "length (fst (rd32s M a k h)) = 4 * k"
  by (induction k arbitrary: a h) (simp_all add: Let_def split: prod.splits, metis fst_conv)

lemma length_rd64s: "length (fst (rd64s M a k h)) = 8 * k"
  by (induction k arbitrary: a h) (simp_all add: Let_def split: prod.splits, metis fst_conv)

lemma read_length:
  assumes "nfp_cpp_read M dest address (ucast (len :: u32)) w = (r, bs, w')" "0 \<le> r"
  shows "length bs = unat len"
proof -
  obtain ar w1 w2 where r: "nfp_cpp_area_read M ar 0 (ucast len) w1 = (r, bs, w2)"
    using assms by (auto simp: nfp_cpp_read_def split: prod.splits option.splits)
  have u: "(ucast (ucast len :: u64) :: u32) = len" by (rule bit_word_eqI) (simp add: bit_unsigned_iff)
  obtain b where b: "area_access_check (width_read (area_priv ar)) (area_priv ar) 0 len = Inr b" and bs: "bs =
      fst (if b then rd64s M (ap_iomem (area_priv ar) + 0) (unat len div 8) (w_hw w1)
           else rd32s M (ap_iomem (area_priv ar) + 0) (unat len div 4) (w_hw w1))"
    using r assms(2) ret_code_negative
    by (auto simp: nfp_cpp_area_read_def nfp6000_area_read_def NFP_ERRNO_def u not_less [symmetric] Let_def
        split: if_splits sum.splits prod.splits)
  have "if b then len mod 8 = 0 else len mod 4 = 0"
    using b by (auto simp: area_access_check_def Let_def split: if_splits)
  moreover have "unat (len mod 8) = unat len mod 8" "unat (len mod 4) = unat len mod 4" by (simp_all add: unat_mod)
  ultimately have "if b then unat len mod 8 = 0 else unat len mod 4 = 0" by (cases b) simp_all
  then show ?thesis unfolding bs by (auto simp: length_rd32s length_rd64s split: if_splits)
qed

section \<open>The names\<close>

text \<open>Rounding up to a multiple of eight.\<close>

lemma or_7: "k OR 7 = 8 * (k div 8) + (7 :: nat)"
proof -
  have m: "(7 :: nat) = mask 3" by (simp add: mask_eq_exp_minus_1)
  have d: "8 * (k div 8) = push_bit 3 (drop_bit 3 k)" by (simp add: push_bit_eq_mult drop_bit_eq_div)
  have "k OR 7 = push_bit 3 (drop_bit 3 k) OR mask 3"
    unfolding m by (rule bit_eqI) (auto simp: bit_or_iff bit_push_bit_iff bit_drop_bit_eq bit_mask_iff)
  also have "\<dots> = push_bit 3 (drop_bit 3 k) + mask 3"
    by (rule disjunctive_add_eq_or [symmetric], rule bit_eqI) (auto simp: bit_and_iff bit_push_bit_iff bit_mask_iff)
  finally show ?thesis unfolding d m .
qed

lemma round_up_8:
  assumes "0 < unat x" "unat x \<le> 2 ^ 32 - 8"
  shows "unat (round_up x 8) = 8 * ((unat x + 7) div 8)"
proof -
  let ?k = "unat x - 1"
  have k: "x - 1 = of_nat ?k" using assms(1) by (simp add: of_nat_diff)
  have "round_up x 8 = of_nat (?k OR 7) + 1" unfolding round_up_def k by (simp add: of_nat_or_eq)
  also have "\<dots> = of_nat (8 * (?k div 8) + 8)" unfolding or_7 by simp
  finally have r: "round_up x 8 = of_nat (8 * (?k div 8) + 8)" .
  have "8 * (?k div 8) + 8 < 2 ^ 32" using assms by simp
  then have "unat (round_up x 8) = 8 * (?k div 8) + 8" unfolding r unat_of_nat by (intro mod_less) simp
  also have "\<dots> = 8 * ((unat x + 7) div 8)" using assms(1) by (cases "unat x") (simp_all add: div_add_self1)
  finally show ?thesis .
qed

text \<open>The search in a table whose names start inside of the string table.\<close>

lemma search_is_find:
  assumes "\<forall>sy\<in>set syms. sym_name sy \<le> length str"
  shows "sym_search (str @ [0]) name syms = Some (find (\<lambda>sy. name = c_str (str @ [0]) (sym_name sy)) syms)"
proof -
  have "c_strlen (str @ [0]) i \<noteq> None" if "i \<le> length str" for i using that by (simp add: c_strlen_def)
  then show ?thesis using assms by (induction syms) (auto split: option.splits)
qed

lemma sint_unat: "unat (x :: u32) < 2 ^ 31 \<Longrightarrow> sint x = int (unat x)"
  using sint_small [of "unat x"] by simp

lemma sint_round:
  assumes "0 < unat x" "unat x < 2 ^ 31 - 8"
  shows "sint (round_up x 8) = int (unat (round_up x 8))" "0 < unat (round_up x 8)" "unat (round_up x 8) < 2 ^ 31"
proof -
  have u: "unat (round_up x 8) = 8 * ((unat x + 7) div 8)" by (rule round_up_8) (use assms in simp_all)
  then show "0 < unat (round_up x 8)" "unat (round_up x 8) < 2 ^ 31" using assms by simp_all
  then show "sint (round_up x 8) = int (unat (round_up x 8))" by (intro sint_unat)
qed

theorem lookup_is_find:
  assumes rd: "rtsym_table_read M (Some mip) w = (Some t, w')" and sz: "unat (mip_strtab_size mip) < 2 ^ 31 - 8"
  shows "nfp_rtsym_lookup (Some t) name = Some (find (\<lambda>sy. name = c_str (rt_strtab t) (sym_name sy)) (rt_symtab t))"
    "\<forall>sy\<in>set (rt_symtab t). sym_name sy < length (rt_strtab t)" "rt_num t = int (length (rt_symtab t))"
proof -
  let ?L = "round_up (mip_strtab_size mip) 8"
  obtain str num raw w1 w2 where str: "nfp_cpp_read M rtsym_dram (ucast (mip_strtab_addr mip)) (ucast ?L) w1 = (sint ?L, str, w2)"
    and t: "t = \<lparr>rt_num = int num, rt_strtab = str @ [0], rt_symtab = map (nfp_rtsym_sw_entry_init ?L) (rtsym_entries num raw)\<rparr>"
    and nz: "mip_strtab_size mip \<noteq> 0"
    using rd by (auto simp: rtsym_table_read_def nfp_mip_strtab_def nfp_mip_symtab_def Let_def
        simp del: of_nat_unat split: prod.splits if_splits)
  have "0 < unat (mip_strtab_size mip)" using nz by (simp add: unat_gt_0)
  note L = sint_round [OF this sz]
  have len: "length str = unat ?L" using read_length [OF str] L by simp
  have in_str: "sym_name (nfp_rtsym_sw_entry_init ?L e) < length str" for e
    unfolding len nfp_rtsym_sw_entry_init_def using L(2) by (simp add: unat_mod)
  show "\<forall>sy\<in>set (rt_symtab t). sym_name sy < length (rt_strtab t)" unfolding t using in_str by (auto simp: less_SucI)
  show "rt_num t = int (length (rt_symtab t))" by (simp add: t rtsym_entries_def)
  show "nfp_rtsym_lookup (Some t) name = Some (find (\<lambda>sy. name = c_str (rt_strtab t) (sym_name sy)) (rt_symtab t))"
    unfolding t using search_is_find [of "map (nfp_rtsym_sw_entry_init ?L) (rtsym_entries num raw)" str name] in_str
    by (simp add: nfp_rtsym_lookup_def less_imp_le rtsym_entries_def)
qed

section \<open>What the linker writes\<close>

definition rtsym_entry_bytes :: "nfp_rtsym_entry \<Rightarrow> u8 list" where
  "rtsym_entry_bytes e = [se_type e, se_target e, se_island e, se_addr_hi e] @ le_bytes 4 (se_addr_lo e)
     @ le_bytes 2 (se_name e) @ [se_menum e, se_size_hi e] @ le_bytes 4 (se_size_lo e)"

lemma entry_bytes_roundtrip:
  "length (rtsym_entry_bytes e) = rtsym_entry_size" "rtsym_entry_of_bytes (rtsym_entry_bytes e) = e"
  by (simp_all add: rtsym_entry_bytes_def rtsym_entry_size_def rtsym_entry_of_bytes_def nth_append nth_Cons')

lemma chunk_concat:
  assumes "\<forall>x\<in>set xs. length (f x) = k" "i < length xs"
  shows "take k (drop (k * i) (concat (map f xs))) = f (xs ! i)"
  using assms
proof (induction xs arbitrary: i)
  case (Cons x xs)
  then show ?case by (cases i) simp_all
qed simp

lemma entries_of_image: "rtsym_entries (length es) (concat (map rtsym_entry_bytes es)) = es"
proof (rule nth_equalityI)
  fix i assume "i < length (rtsym_entries (length es) (concat (map rtsym_entry_bytes es)))"
  then have i: "i < length es" by (simp add: rtsym_entries_def)
  then show "rtsym_entries (length es) (concat (map rtsym_entry_bytes es)) ! i = es ! i"
    using chunk_concat [of es rtsym_entry_bytes rtsym_entry_size, OF _ i] by (simp add: rtsym_entries_def entry_bytes_roundtrip)
qed (simp add: rtsym_entries_def)

text \<open>The string table of a list of names, and entries that refer to it.\<close>

definition name_table :: "u8 list list \<Rightarrow> u8 list" where
  "name_table nms = concat (map (\<lambda>nm. nm @ [0]) nms)"

definition linked :: "(u8 list \<times> nfp_rtsym_entry) list \<Rightarrow> bool" where
  "linked syms \<longleftrightarrow> (\<forall>i<length syms. zfree (fst (syms ! i))
     \<and> unat (se_name (snd (syms ! i))) = length (name_table (map fst (take i syms))))"

lemma linked_name:
  assumes "linked syms" "i < length syms"
  shows "c_str (name_table (map fst syms) @ rest) (unat (se_name (snd (syms ! i)))) = fst (syms ! i)"
    "unat (se_name (snd (syms ! i))) < length (name_table (map fst syms))"
proof -
  let ?s = "syms ! i" and ?pre = "name_table (map fst (take i syms))" and ?post = "name_table (map fst (drop (Suc i) syms))"
  have "syms = take i syms @ ?s # drop (Suc i) syms" using assms(2) by (simp add: id_take_nth_drop)
  then have "map fst syms = map fst (take i syms) @ fst ?s # map fst (drop (Suc i) syms)"
    by (metis list.simps(9) map_append)
  then have n: "name_table (map fst syms) = ?pre @ fst ?s @ 0 # ?post" by (simp add: name_table_def)
  have l: "zfree (fst ?s)" "unat (se_name (snd ?s)) = length ?pre" using assms by (simp_all add: linked_def)
  show "c_str (name_table (map fst syms) @ rest) (unat (se_name (snd ?s))) = fst ?s"
    unfolding l(2) n using c_str_at [OF l(1), of ?pre "?post @ rest"] by simp
  show "unat (se_name (snd ?s)) < length (name_table (map fst syms))" unfolding l(2) n by simp
qed

lemma find_map_cong:
  assumes "\<And>x. x \<in> set xs \<Longrightarrow> Q (f x) \<longleftrightarrow> P x"
  shows "find Q (map f xs) = map_option f (find P xs)"
  using assms by (induction xs) auto

text \<open>In the table that is read, a name finds the first symbol of that name.\<close>

lemma linked_lookup:
  assumes "linked syms" "str = name_table (map fst syms) @ pad" "unat L = length str"
  shows "find (\<lambda>sy. name = c_str (str @ [0]) (sym_name sy)) (map (nfp_rtsym_sw_entry_init L) (map snd syms)) =
    map_option (\<lambda>sy. nfp_rtsym_sw_entry_init L (snd sy)) (find (\<lambda>sy. fst sy = name) syms)"
proof -
  have "c_str (str @ [0]) (sym_name (nfp_rtsym_sw_entry_init L (snd sy))) = fst sy" if sy: "sy \<in> set syms" for sy
  proof -
    obtain i where i: "i < length syms" "sy = syms ! i" using sy by (metis in_set_conv_nth)
    note l = linked_name [OF assms(1) i(1), folded i(2)]
    have "unat (ucast (se_name (snd sy)) mod L :: u32) = unat (se_name (snd sy))"
      using l(2) assms(2,3) by (simp add: unat_mod unat_ucast_up)
    then show ?thesis using l(1) [of "pad @ [0]"] assms(2) by (simp add: nfp_rtsym_sw_entry_init_def)
  qed
  then show ?thesis unfolding map_map comp_def by (intro find_map_cong) auto
qed

section \<open>On the bus\<close>

text \<open>The cache is large enough.\<close>

lemma cache_fits:
  assumes s: "unat s = 16 * num" and b: "40 * num + unat l < 2 ^ 31 - 32"
  shows "cache_need s l = unat (cache_size s l)"
proof -
  let ?k = "24 + 40 * num + unat l + 1"
  have n: "num < 2 ^ 31" using b by simp
  have "(ucast s :: u64) div 16 = of_nat num" using n by (simp add: word_unat_eq_iff unat_div unat_ucast_up s unat_of_nat)
  then have d: "(ucast s :: u64) div 16 * 40 = of_nat (40 * num)" by simp
  have u: "(ucast (of_nat (40 * num) :: u64) :: u32) = of_nat (40 * num)"
    by (subst unsigned_of_nat) (use b in \<open>simp add: take_bit_nat_eq_self\<close>)
  have "24 + ucast ((ucast s :: u64) div 16 * 40) + (l + 1) = (of_nat ?k :: u32)" unfolding d u by simp
  then have "cache_size s l = word_of_int (sint (of_nat ?k :: u32))" unfolding cache_size_def scast_eq by simp
  also have "\<dots> = of_nat ?k" using sint_small [of ?k] b by simp
  finally have c: "cache_size s l = of_nat ?k" .
  have "unat (of_nat ?k :: u64) = ?k" unfolding unat_of_nat by (rule mod_less) (use b in simp)
  then show ?thesis unfolding c using s by (simp only: cache_need_def) simp
qed

lemma bit_le_word:
  "bit (le_word bs :: 'a::len word) i \<longleftrightarrow> i < LENGTH('a) \<and> i div 8 < length bs \<and> bit (bs ! (i div 8)) (i mod 8)"
proof (induction bs arbitrary: i)
  case (Cons b bs)
  have split: "bit (le_word (b # bs) :: 'a word) i \<longleftrightarrow>
      i < LENGTH('a) \<and> (bit b i \<or> 8 \<le> i \<and> bit (le_word bs :: 'a word) (i - 8))"
    by (auto simp: bit_or_iff bit_unsigned_iff bit_push_bit_iff dest: bit_imp_le_length)
  show ?case
  proof (cases "i < 8")
    case True
    then show ?thesis unfolding split by simp
  next
    case False
    then obtain k where k: "i = 8 + k" using le_Suc_ex by (metis not_less)
    have "\<not> bit b i" using False bit_imp_le_length [of b i] by auto
    then show ?thesis unfolding split using Cons.IH [of k] by (auto simp: k div_add_self1)
  qed
qed simp

lemma le_word_4: "length bs = 4 \<Longrightarrow> ucast (le_word bs :: u32) = (le_word bs :: u64)"
  by (rule bit_word_eqI) (auto simp: bit_unsigned_iff bit_le_word)

text \<open>A block of device memory that the bus can read, and what it holds.\<close>

definition device_block :: "nat \<Rightarrow> (cpp_port \<Rightarrow> mem) \<Rightarrow> nfp_cpp \<Rightarrow> u32 \<Rightarrow> u64 \<Rightarrow> u8 list \<Rightarrow> bool" where
  "device_block n m c dest address bs \<longleftrightarrow>
     (\<exists>d a. nfp_target_cpp dest address (Some (\<lambda>i. imb_cat_table c ! i)) = Inr (d, a)
        \<and> block_access n d a (of_nat (length bs)) \<and> take_bit 40 a = a \<and> address + of_nat (length bs) \<le> push_bit 40 1
        \<and> length bs < 2 ^ 31 \<and> mem_rd (m (port_of d)) a (length bs) = bs)"

definition sym_dest :: "nfp_rtsym \<Rightarrow> u32" where
  "sym_dest sy = NFP_CPP_ISLAND_ID (word_of_int (sym_target sy)) NFP_CPP_ACTION_RW 0 (word_of_int (sym_domain sy))"

context pcie2cpp
begin

lemma read_device_block:
  assumes rdy: "bus_ready n w" "cfg (w_pcie w) = win" and b: "device_block n (cmem (w_hw w)) (w_cpp w) dest address bs"
    and sz: "unat sz = length bs"
  obtains w' where "nfp_cpp_read M dest address sz w = (int (length bs), bs, w')"
    "bus_ready n w'" "cfg (w_pcie w') = win" "w_cpp w' = w_cpp w" "cmem (w_hw w') = cmem (w_hw w)" "w_fault w' = w_fault w"
proof -
  have z: "sz = of_nat (length bs)" using sz [symmetric] by simp
  obtain d a where t: "nfp_target_cpp dest address (Some (\<lambda>i. imb_cat_table (w_cpp w) ! i)) = Inr (d, a)"
    and k: "block_access n d a sz" "take_bit 40 a = a" "address + sz \<le> push_bit 40 1"
      "mem_rd (cmem (w_hw w) (port_of d)) a (length bs) = bs"
    using b unfolding device_block_def z by blast
  show thesis by (rule read_block [OF rdy k(1,2) t k(3)]) (use that k(4) sz in simp)
qed

theorem table_recovered:
  fixes w mip syms
  defines "m \<equiv> cmem (w_hw w)" and "L \<equiv> round_up (mip_strtab_size mip) 8"
  assumes rdy: "bus_ready n w" "cfg (w_pcie w) = win"
    and sy: "device_block n m (w_cpp w) rtsym_dram (ucast (mip_symtab_addr mip)) (concat (map rtsym_entry_bytes (map snd syms)))"
    and st: "device_block n m (w_cpp w) rtsym_dram (ucast (mip_strtab_addr mip)) str"
    and l: "linked syms" "str = name_table (map fst syms) @ pad" "syms \<noteq> []"
    and sz: "unat (mip_symtab_size mip) = 16 * length syms" "unat L = length str" "mip_strtab_size mip \<noteq> 0"
      "40 * length syms + length str < 2 ^ 31 - 32"
  obtains t w' where "rtsym_table_read M (Some mip) w = (Some t, w')"
    "\<And>name. nfp_rtsym_lookup (Some t) name =
       Some (map_option (\<lambda>sy. nfp_rtsym_sw_entry_init L (snd sy)) (find (\<lambda>sy. fst sy = name) syms))"
    "bus_ready n w'" "cfg (w_pcie w') = win" "w_cpp w' = w_cpp w" "cmem (w_hw w') = m" "w_fault w' = w_fault w"
proof -
  let ?S = "round_up (mip_symtab_size mip) 8" and ?b = "concat (map rtsym_entry_bytes (map snd syms))"
  have "unat (mip_symtab_size mip) \<le> 2 ^ 32 - 8" "0 < unat (mip_symtab_size mip)" using sz(1,4) l(3) by simp_all
  then have "unat ?S = 8 * ((unat (mip_symtab_size mip) + 7) div 8)" by (intro round_up_8)
  also have "\<dots> = 16 * length syms" unfolding sz(1) by simp
  finally have S: "unat ?S = 16 * length syms" .
  have "length ?b = 16 * length syms"
    by (simp add: length_concat entry_bytes_roundtrip rtsym_entry_size_def comp_def sum_list_triv)
  then have lb: "unat (ucast ?S :: u64) = length ?b" "unat (ucast L :: u64) = length str"
    using S sz(2) by (simp_all add: unat_ucast_up)
  have si: "sint ?S = int (length ?b)" "sint L = int (length str)"
    using sint_unat [of ?S] sint_unat [of L] S sz(2,4) \<open>length ?b = 16 * length syms\<close> by simp_all
  have nn: "unat (?S div 16) = length syms" using S by (simp add: unat_div)
  have mal: "c_malloc w = (True, w)" using rdy(1) by (simp add: bus_ready_def c_malloc_def)
  obtain w1 where w1: "nfp_cpp_read M rtsym_dram (ucast (mip_symtab_addr mip)) (ucast ?S) w = (int (length ?b), ?b, w1)"
    "bus_ready n w1" "cfg (w_pcie w1) = win" "w_cpp w1 = w_cpp w" "cmem (w_hw w1) = m" "w_fault w1 = w_fault w"
    unfolding m_def by (rule read_device_block [OF rdy sy [unfolded m_def] lb(1)])
  obtain w2 where w2: "nfp_cpp_read M rtsym_dram (ucast (mip_strtab_addr mip)) (ucast L) w1 = (int (length str), str, w2)"
    "bus_ready n w2" "cfg (w_pcie w2) = win" "w_cpp w2 = w_cpp w" "cmem (w_hw w2) = m" "w_fault w2 = w_fault w"
    using read_device_block [OF w1(2,3) _ lb(2), of rtsym_dram "ucast (mip_strtab_addr mip)"] st w1(4-6) by metis
  have nz: "mip_symtab_size mip \<noteq> 0" "mip_symtab_size mip mod 16 = 0" "L \<noteq> 0"
  proof -
    show "mip_symtab_size mip \<noteq> 0" using sz(1) l(3) by auto
    have "unat (mip_symtab_size mip mod 16) = 0" using sz(1) by (simp add: unat_mod)
    then show "mip_symtab_size mip mod 16 = 0" by (simp only: unat_eq_zero)
    have "str \<noteq> []" using l by (cases syms) (simp_all add: name_table_def)
    then show "L \<noteq> 0" using sz(2) by auto
  qed
  let ?t = "\<lparr>rt_num = int (length syms), rt_strtab = str @ [0], rt_symtab = map (nfp_rtsym_sw_entry_init L) (map snd syms)\<rparr>"
  have cache: "\<not> cache_need ?S L > unat (cache_size ?S L)" using cache_fits [OF S, of L] sz(2,4) by simp
  have ent: "rtsym_entries (length syms) ?b = map snd syms" using entries_of_image [of "map snd syms"] by simp
  have "rtsym_table_read M (Some mip) w = (Some ?t, w2)"
    using nz sz(3) mal w1(1) w2(1) si cache nn ent unfolding L_def
    by (simp add: rtsym_table_read_def nfp_mip_strtab_def nfp_mip_symtab_def Let_def)
  moreover have "nfp_rtsym_lookup (Some ?t) name =
       Some (map_option (\<lambda>sy. nfp_rtsym_sw_entry_init L (snd sy)) (find (\<lambda>sy. fst sy = name) syms))" for name
  proof -
    have "0 < length str" using nz(3) sz(2) by (metis unat_gt_0)
    then have "\<forall>sy\<in>set (map (nfp_rtsym_sw_entry_init L) (map snd syms)). sym_name sy \<le> length str"
      using sz(2) by (auto simp: nfp_rtsym_sw_entry_init_def unat_mod intro!: less_imp_le)
    from search_is_find [OF this, of name] linked_lookup [OF l(1,2) sz(2), of name]
    show ?thesis by (simp add: nfp_rtsym_lookup_def)
  qed
  ultimately show thesis using w2(2-6) that by blast
qed

text \<open>The target and the address of a symbol.\<close>

lemma symbol_read:
  assumes rdy: "bus_ready n w" "cfg (w_pcie w) = win" and lk: "nfp_rtsym_lookup rtbl name = Some (Some sy)"
    and b: "device_block n (cmem (w_hw w)) (w_cpp w) (sym_dest sy) (sym_addr sy) bs"
    and sz: "unat (sym_size sy) = length bs" "length bs = 4 \<or> length bs = 8"
  obtains w' where "nfp_rtsym_read_le M rtbl name w = Some (le_word bs, 0, w')"
    "bus_ready n w'" "cfg (w_pcie w') = win" "w_cpp w' = w_cpp w" "cmem (w_hw w') = cmem (w_hw w)" "w_fault w' = w_fault w"
proof -
  obtain w' where w': "nfp_cpp_read M (sym_dest sy) (sym_addr sy) (sym_size sy) w = (int (length bs), bs, w')"
    "bus_ready n w'" "cfg (w_pcie w') = win" "w_cpp w' = w_cpp w" "cmem (w_hw w') = cmem (w_hw w)" "w_fault w' = w_fault w"
    by (rule read_device_block [OF rdy b sz(1)])
  have "sym_size sy = 4 \<and> length bs = 4 \<or> sym_size sy = 8 \<and> length bs = 8"
    using sz by (simp add: word_unat_eq_iff)
  then have "nfp_rtsym_read_le M rtbl name w = Some (le_word bs, 0, w')"
    using w'(1) lk le_word_4 [of bs]
    by (auto simp: nfp_rtsym_read_le_def sym_dest_def nfp_cpp_readl_def nfp_cpp_readq_def Let_def)
  then show thesis using w'(2-6) that by blast
qed

end

section \<open>Where the firmware is\<close>

text \<open>The location that is taken from the table of loaded firmware: that of the first loaded entry, with
  the locality bits of an address of the memory unit set to direct access when the entry asks for it.\<close>

lemma mip_location:
  assumes fi: "nfp_nffw_info_fwid_first state = Some fi"
  shows "nffw_fwinfo_mip_mu_da_get fi = 0 \<or> NFP_CPP_ID_TARGET_of (mip_cppid fi) \<noteq> 7 \<Longrightarrow>
      nfp_nffw_info_mip_first M state w = (Inr (mip_cppid fi, nffw_fwinfo_mip_offset_get fi), w)"
    "nffw_fwinfo_mip_mu_da_get fi \<noteq> 0 \<Longrightarrow> NFP_CPP_ID_TARGET_of (mip_cppid fi) = 7 \<Longrightarrow>
      nfp_mip_mu_locality_lsb M w = (int l, w') \<Longrightarrow> l < 63 \<Longrightarrow>
      \<exists>off. nfp_nffw_info_mip_first M state w = (Inr (mip_cppid fi, off), w') \<and> mu_direct off l
        \<and> off AND NOT (push_bit l 3) = nffw_fwinfo_mip_offset_get fi AND NOT (push_bit l 3)"
proof -
  show "nffw_fwinfo_mip_mu_da_get fi = 0 \<or> NFP_CPP_ID_TARGET_of (mip_cppid fi) \<noteq> 7 \<Longrightarrow>
      nfp_nffw_info_mip_first M state w = (Inr (mip_cppid fi, nffw_fwinfo_mip_offset_get fi), w)"
    using fi by (auto simp: nfp_nffw_info_mip_first_def nffw_fwinfo_mip_cppid_get_def Let_def)
next
  assume da: "nffw_fwinfo_mip_mu_da_get fi \<noteq> 0" "NFP_CPP_ID_TARGET_of (mip_cppid fi) = 7"
    "nfp_mip_mu_locality_lsb M w = (int l, w')" "l < 63"
  let ?o = "nffw_fwinfo_mip_offset_get fi"
  define off where "off = (?o AND NOT (push_bit l 3)) OR push_bit l 2"
  have "(3 :: int) = mask 2" "(2 :: int) = push_bit 1 1" by (simp_all add: mask_eq_exp_minus_1)
  then have m: "bit (3 :: int) i \<longleftrightarrow> i < 2" "bit (2 :: int) i \<longleftrightarrow> i = 1" for i
    by (simp_all only: bit_mask_iff bit_push_bit_iff bit_1_iff) auto
  have "nfp_nffw_info_mip_first M state w = (Inr (mip_cppid fi, off), w')"
    using fi da by (simp add: nfp_nffw_info_mip_first_def nffw_fwinfo_mip_cppid_get_def off_def
        NFP_MU_ADDR_ACCESS_TYPE_MASK_def NFP_MU_ADDR_ACCESS_TYPE_DIRECT_def Let_def)
  moreover have "mu_direct off l"
    unfolding mu_direct_bits off_def using da(4) by (simp add: bit_or_iff bit_and_iff bit_not_iff_eq bit_push_bit_iff m)
  moreover have "off AND NOT (push_bit l 3) = ?o AND NOT (push_bit l 3)"
    by (rule bit_word_eqI) (auto simp: off_def bit_or_iff bit_and_iff bit_not_iff_eq bit_push_bit_iff m)
  ultimately show "\<exists>off. nfp_nffw_info_mip_first M state w = (Inr (mip_cppid fi, off), w') \<and> mu_direct off l
        \<and> off AND NOT (push_bit l 3) = ?o AND NOT (push_bit l 3)" by blast
qed

end
