(* ===== verification/Rtsym_Device.thy ===== *)
theory Rtsym_Device
  imports Rtsym_Proof
begin

text \<open>
  A device for the witnesses about symbols: the device of Cpp_Start_Proof with a firmware that has
  one symbol, \<open>cnt\<close>, a word of 32 bits in island 24 with the value 42.
\<close>

definition cnt_name :: "u8 list" where "cnt_name = [0x63, 0x6e, 0x74]"

definition cnt_entry :: nfp_rtsym_entry where
  "cnt_entry = \<lparr>se_type = 1, se_target = 7, se_island = 24, se_addr_hi = 0, se_addr_lo = 0x3000, se_name = 0,
     se_menum = 0xff, se_size_hi = 0, se_size_lo = 4\<rparr>"

definition fw_syms :: "(u8 list \<times> nfp_rtsym_entry) list" where "fw_syms = [(cnt_name, cnt_entry)]"

definition fw_strtab :: "u8 list" where "fw_strtab = name_table (map fst fw_syms) @ replicate 4 0"

definition fw_mip :: nfp_mip where
  "fw_mip = \<lparr>mip_signature = NFP_MIP_SIGNATURE, mip_mip_version = NFP_MIP_VERSION, mip_mip_size = 96, mip_first_entry = 0,
     mip_version = 0, mip_buildnum = 0, mip_buildtime = 0, mip_loadtime = 0, mip_symtab_addr = 0x1000, mip_symtab_size = 16,
     mip_strtab_addr = 0x2000, mip_strtab_size = 5, mip_name = [], mip_toolchain = []\<rparr>"

definition fw_mem :: mem where
  "fw_mem = mem_wr (mem_wr (mem_wr (\<lambda>_. 0) 0x18001000 (rtsym_entry_bytes cnt_entry)) 0x18002000 fw_strtab)
     0x18003000 (le_bytes 4 (42 :: u32))"

definition fw_world :: "p2c_hw world" where
  "fw_world = dev_world\<lparr>w_hw := (w_hw dev_world)\<lparr>p_mem := (p_mem (w_hw dev_world))(port_of (NFP_CPP_ID 7 32 0) := fw_mem)\<rparr>\<rparr>"

lemma fw_ready: "bus_ready 21 fw_world" "cfg (w_pcie fw_world) = dev_base" "w_cpp fw_world = w_cpp dev_world"
  using dev_ready by (simp_all add: fw_world_def bus_ready_def)

lemma fw_reads:
  "mem_rd fw_mem 0x18001000 16 = rtsym_entry_bytes cnt_entry" "mem_rd fw_mem 0x18002000 8 = fw_strtab"
  "mem_rd fw_mem 0x18003000 4 = le_bytes 4 (42 :: u32)"
proof -
  have l: "length (rtsym_entry_bytes cnt_entry) = 16" "length fw_strtab = 8"
    by (simp_all add: entry_bytes_roundtrip rtsym_entry_size_def fw_strtab_def fw_syms_def name_table_def cnt_name_def)
  have d: "disj_range (0x18000000 + of_nat x) j (0x18000000 + of_nat y) k" if "x + j \<le> y \<or> y + k \<le> x" "x + j \<le> 0x10000" "y + k \<le> 0x10000"
    for x y j k using that by (intro disj_range_offsets [where L = "0x10000"]) auto
  have d: "disj_range 0x18003000 4 0x18001000 16" "disj_range 0x18003000 4 0x18002000 8" "disj_range 0x18002000 8 0x18001000 16"
    using d [of "0x3000" 4 "0x1000" 16] d [of "0x3000" 4 "0x2000" 8] d [of "0x2000" 8 "0x1000" 16] by simp_all
  show "mem_rd fw_mem 0x18001000 16 = rtsym_entry_bytes cnt_entry"
    unfolding fw_mem_def using l d by (simp add: mem_rd_wr_disj mem_rd_wr_same)
  show "mem_rd fw_mem 0x18002000 8 = fw_strtab" unfolding fw_mem_def using l d by (simp add: mem_rd_wr_disj mem_rd_wr_same)
  show "mem_rd fw_mem 0x18003000 4 = le_bytes 4 (42 :: u32)" unfolding fw_mem_def by (simp add: mem_rd_wr_same)
qed

lemma fw_translation:
  "nfp_target_cpp rtsym_dram 0x1000 (Some (\<lambda>i. imb_cat_table (w_cpp dev_world) ! i)) = Inr (NFP_CPP_ID 7 32 0, 0x18001000)"
  "nfp_target_cpp rtsym_dram 0x2000 (Some (\<lambda>i. imb_cat_table (w_cpp dev_world) ! i)) = Inr (NFP_CPP_ID 7 32 0, 0x18002000)"
  "nfp_target_cpp rtsym_dram 0x3000 (Some (\<lambda>i. imb_cat_table (w_cpp dev_world) ! i)) = Inr (NFP_CPP_ID 7 32 0, 0x18003000)"
proof -
  have t: "imb_cat_table (w_cpp dev_world) = imb_cat_table (cpp_zero False)" by (simp add: dev_world_def)
  show "nfp_target_cpp rtsym_dram 0x1000 (Some (\<lambda>i. imb_cat_table (w_cpp dev_world) ! i)) = Inr (NFP_CPP_ID 7 32 0, 0x18001000)"
    "nfp_target_cpp rtsym_dram 0x2000 (Some (\<lambda>i. imb_cat_table (w_cpp dev_world) ! i)) = Inr (NFP_CPP_ID 7 32 0, 0x18002000)"
    "nfp_target_cpp rtsym_dram 0x3000 (Some (\<lambda>i. imb_cat_table (w_cpp dev_world) ! i)) = Inr (NFP_CPP_ID 7 32 0, 0x18003000)"
    unfolding t by code_simp+
qed

lemma fw_blocks:
  "device_block 21 (p_mem (w_hw fw_world)) (w_cpp fw_world) rtsym_dram (ucast (mip_symtab_addr fw_mip))
     (concat (map rtsym_entry_bytes (map snd fw_syms)))"
  "device_block 21 (p_mem (w_hw fw_world)) (w_cpp fw_world) rtsym_dram (ucast (mip_strtab_addr fw_mip)) fw_strtab"
  "device_block 21 (p_mem (w_hw fw_world)) (w_cpp fw_world) rtsym_dram 0x3000 (le_bytes 4 (42 :: u32))"
proof -
  let ?p = "NFP_CPP_ID (ucast (NFP_CPP_ID_TARGET_of (NFP_CPP_ID 7 32 0))) (ucast (NFP_CPP_ID_ACTION_of (NFP_CPP_ID 7 32 0)))
     (ucast (NFP_CPP_ID_TOKEN_of (NFP_CPP_ID 7 32 0)))"
  have pp: "nfp6000_target_pushpull ?p 0x18001000 = Inr 34" "nfp6000_target_pushpull ?p 0x18002000 = Inr 34"
    "nfp6000_target_pushpull ?p 0x18003000 = Inr 34" by code_simp+
  have f: "ucast (NFP_CPP_ID_TARGET_of (NFP_CPP_ID 7 32 0)) = (7 :: u32)"
    "ucast (NFP_CPP_ID_ACTION_of (NFP_CPP_ID 7 32 0)) = NFP_CPP_ACTION_RW" by code_simp+
  have b: "block_access 21 (NFP_CPP_ID 7 32 0) 0x18001000 16" "block_access 21 (NFP_CPP_ID 7 32 0) 0x18002000 8"
    "block_access 21 (NFP_CPP_ID 7 32 0) 0x18003000 4"
    using pp unfolding block_access_def Let_def f by (simp_all add: mask_eq_exp_minus_1)
  have m: "p_mem (w_hw fw_world) (port_of (NFP_CPP_ID 7 32 0)) = fw_mem" by (simp add: fw_world_def)
  have l: "length (concat (map rtsym_entry_bytes (map snd fw_syms))) = 16" "length fw_strtab = 8"
    by (simp_all add: entry_bytes_roundtrip rtsym_entry_size_def fw_strtab_def fw_syms_def name_table_def cnt_name_def)
  have u: "ucast (mip_symtab_addr fw_mip) = (0x1000 :: u64)" "ucast (mip_strtab_addr fw_mip) = (0x2000 :: u64)"
    by (simp_all add: fw_mip_def)
  show "device_block 21 (p_mem (w_hw fw_world)) (w_cpp fw_world) rtsym_dram (ucast (mip_symtab_addr fw_mip))
     (concat (map rtsym_entry_bytes (map snd fw_syms)))"
    unfolding device_block_def u l fw_ready(3) using fw_translation(1) b(1) fw_reads(1) m
    by (intro exI [of _ "NFP_CPP_ID 7 32 0"] exI [of _ "0x18001000"]) (simp add: fw_syms_def take_bit_word_eq_self)
  show "device_block 21 (p_mem (w_hw fw_world)) (w_cpp fw_world) rtsym_dram (ucast (mip_strtab_addr fw_mip)) fw_strtab"
    unfolding device_block_def u l fw_ready(3) using fw_translation(2) b(2) fw_reads(2) m
    by (intro exI [of _ "NFP_CPP_ID 7 32 0"] exI [of _ "0x18002000"]) (simp add: take_bit_word_eq_self)
  show "device_block 21 (p_mem (w_hw fw_world)) (w_cpp fw_world) rtsym_dram 0x3000 (le_bytes 4 (42 :: u32))"
    unfolding device_block_def length_le_bytes fw_ready(3) using fw_translation(3) b(3) fw_reads(3) m
    by (intro exI [of _ "NFP_CPP_ID 7 32 0"] exI [of _ "0x18003000"]) (simp add: take_bit_word_eq_self)
qed

lemma fw_linked: "linked fw_syms"
  by (simp add: linked_def fw_syms_def cnt_name_def cnt_entry_def name_table_def zfree_def)

lemma fw_symbol:
  "sym_dest (nfp_rtsym_sw_entry_init 8 cnt_entry) = rtsym_dram" "sym_addr (nfp_rtsym_sw_entry_init 8 cnt_entry) = 0x3000"
  "unat (sym_size (nfp_rtsym_sw_entry_init 8 cnt_entry)) = 4" "round_up (mip_strtab_size fw_mip) 8 = 8"
  by code_simp+

end
