(* ===== verification/Nsp_Cmds.thy ===== *)
theory Nsp_Cmds
  imports Nfp_Nsp
begin

text \<open>
  Two commands with answers (user/nfpcore/nfp_nsp_cmds.c): the identification of the service
  processor and its sensors.
\<close>

section \<open>Identification\<close>

record nfp_nsp_identify =
  id_version :: "u8 list"
  id_flags :: u8
  br_primary :: u8
  br_secondary :: u8
  br_nsp :: u8
  id_primary :: u16
  id_secondary :: u16
  id_nsp :: u16
  sensor_mask :: u64

text \<open>\<open>sizeof(struct nsp_identify)\<close>; the six reserved bytes align the mask.\<close>

definition nsp_identify_size :: nat where "nsp_identify_size = 64"

definition identify_of_bytes :: "u8 list \<Rightarrow> nfp_nsp_identify" where
  "identify_of_bytes ni =
     \<lparr>id_version = (take 40 ni)[39 := 0], id_flags = ni ! 40, br_primary = ni ! 41, br_secondary = ni ! 42,
      br_nsp = ni ! 43, id_primary = le_word (take 2 (drop 44 ni)), id_secondary = le_word (take 2 (drop 46 ni)),
      id_nsp = le_word (take 2 (drop 48 ni)), sensor_mask = le_word (take 8 (drop 56 ni))\<rparr>"

text \<open>\<open>__nfp_nsp_identify\<close>. The buffer that is passed is not \<open>NULL\<close>, so there is one in the result.\<close>

definition nsp_identify ::
  "'h mmio \<Rightarrow> 'h nsp_env \<Rightarrow> nfp_nsp \<Rightarrow> 'h world \<Rightarrow> nfp_nsp_identify option \<times> nfp_nsp \<times> 'h world" where
  "nsp_identify M ne nsp w =
     (if nfp_nsp_get_abi_ver_minor nsp < 15 then (None, nsp, w)
      else
        let (ok, w) = c_malloc w
        in if \<not> ok then (None, nsp, w)
           else
             let (ret, ob, nsp, w) = nfp_nsp_read_identify M ne nsp (Some (replicate nsp_identify_size 0))
                   (of_nat nsp_identify_size) w
             in if ret < 0 then (None, nsp, w)
                else
                  let (ok, w) = c_malloc w
                  in if \<not> ok then (None, nsp, w) else (Some (identify_of_bytes (the ob)), nsp, w))"

section \<open>Sensors\<close>

datatype nfp_nsp_sensor_id =
    NFP_SENSOR_CHIP_TEMPERATURE | NFP_SENSOR_ASSEMBLY_POWER | NFP_SENSOR_ASSEMBLY_12V_POWER
  | NFP_SENSOR_ASSEMBLY_3V3_POWER

fun sensor_code :: "nfp_nsp_sensor_id \<Rightarrow> nat" where
  "sensor_code NFP_SENSOR_CHIP_TEMPERATURE = 0"
| "sensor_code NFP_SENSOR_ASSEMBLY_POWER = 1"
| "sensor_code NFP_SENSOR_ASSEMBLY_12V_POWER = 2"
| "sensor_code NFP_SENSOR_ASSEMBLY_3V3_POWER = 3"

text \<open>\<open>struct nfp_sensors\<close> on the stack, which is not initialised: \<open>junk\<close>.\<close>

definition nfp_sensors_size :: nat where "nfp_sensors_size = 16"

fun sensor_value :: "u8 list \<Rightarrow> nfp_nsp_sensor_id \<Rightarrow> u32" where
  "sensor_value s NFP_SENSOR_CHIP_TEMPERATURE = le_word (take 4 s)"
| "sensor_value s NFP_SENSOR_ASSEMBLY_POWER = le_word (take 4 (drop 4 s))"
| "sensor_value s NFP_SENSOR_ASSEMBLY_12V_POWER = le_word (take 4 (drop 8 s))"
| "sensor_value s NFP_SENSOR_ASSEMBLY_3V3_POWER = le_word (take 4 (drop 12 s))"

definition nfp_hwmon_read_sensor ::
  "'h mmio \<Rightarrow> 'h others \<Rightarrow> 'h nsp_env \<Rightarrow> u8 list \<Rightarrow> nfp_nsp_sensor_id \<Rightarrow> 'h drv \<Rightarrow> ((int + int) \<times> 'h drv) option" where
  "nfp_hwmon_read_sensor M e ne junk sid s =
     (case nfp_nsp_open M e s of
        None \<Rightarrow> None
      | Some (None, s) \<Rightarrow> Some (Inl (- errno_code EIO), s)
      | Some (Some nsp, s) \<Rightarrow>
          let (ret, ob, nsp, w) = nfp_nsp_read_sensors M ne nsp (push_bit (sensor_code sid) 1) (Some junk)
                (of_nat nfp_sensors_size) (drv_world s);
              s = nfp_nsp_close M nsp (s\<lparr>drv_world := w\<rparr>)
          in if ret < 0 then Some (Inl ret, s)
             else Some (Inr (uint (sensor_value (the ob) sid)), s))"

section \<open>The answer is taken apart field by field\<close>

definition identify_bytes :: "u8 list \<Rightarrow> nfp_nsp_identify \<Rightarrow> u8 list" where
  "identify_bytes resv i = id_version i @ [id_flags i, br_primary i, br_secondary i, br_nsp i]
     @ le_bytes 2 (id_primary i) @ le_bytes 2 (id_secondary i) @ le_bytes 2 (id_nsp i) @ resv @ le_bytes 8 (sensor_mask i)"

lemma identify_roundtrip:
  assumes "length (id_version i) = 40" "id_version i ! 39 = 0" "length resv = 6"
  shows "length (identify_bytes resv i) = nsp_identify_size" "identify_of_bytes (identify_bytes resv i) = i"
proof -
  have z: "(id_version i)[39 := 0] = id_version i" using assms(2) by (simp add: list_update_same_conv assms(1))
  show "length (identify_bytes resv i) = nsp_identify_size" using assms by (simp add: identify_bytes_def nsp_identify_size_def)
  show "identify_of_bytes (identify_bytes resv i) = i"
    using assms z by (simp add: identify_of_bytes_def identify_bytes_def nth_append)
qed

end
