(* ===== verification/C_Text.thy ===== *)
theory C_Text
  imports C_String "HOL-Library.Char_ord"
begin

text \<open>
  Text in C: numbers are read with \<open>strtoul\<close> and printed with \<open>%x\<close> and \<open>%u\<close>, a line is split into
  tokens in place (\<open>strsplit\<close> of user/lib/driver.c). Characters are bytes in ASCII.
\<close>

definition ascii :: "string \<Rightarrow> u8 list" where
  "ascii s = map of_char s"

section \<open>Reading numbers\<close>

definition isspace :: "u8 \<Rightarrow> bool" where
  "isspace c \<longleftrightarrow> c = 0x20 \<or> 0x09 \<le> c \<and> c \<le> 0x0d"

text \<open>The value of a digit or letter.\<close>

definition digit_val :: "u8 \<Rightarrow> nat option" where
  "digit_val c =
     (if 0x30 \<le> c \<and> c \<le> 0x39 then Some (unat c - 0x30)
      else if 0x61 \<le> c \<and> c \<le> 0x7a then Some (unat c - 0x61 + 10)
      else if 0x41 \<le> c \<and> c \<le> 0x5a then Some (unat c - 0x41 + 10)
      else None)"

definition is_digit :: "nat \<Rightarrow> u8 \<Rightarrow> bool" where
  "is_digit b c \<longleftrightarrow> (case digit_val c of Some d \<Rightarrow> d < b | None \<Rightarrow> False)"

definition digits_val :: "nat \<Rightarrow> u8 list \<Rightarrow> nat" where
  "digits_val b ds = foldl (\<lambda>a c. a * b + the (digit_val c)) 0 ds"

text \<open>A number after the sign: the digits, and how many characters they and a prefix take.\<close>

definition is_hex_prefix :: "u8 list \<Rightarrow> bool" where
  "is_hex_prefix s \<longleftrightarrow> length s > 2 \<and> s ! 0 = 0x30 \<and> (s ! 1 = 0x78 \<or> s ! 1 = 0x58) \<and> is_digit 16 (s ! 2)"

definition unsigned_num :: "nat \<Rightarrow> u8 list \<Rightarrow> nat \<times> nat" where
  "unsigned_num base s =
     (let (b, skip) = (if (base = 0 \<or> base = 16) \<and> is_hex_prefix s then (16, 2)
                       else if base = 0 then (if s \<noteq> [] \<and> s ! 0 = 0x30 then (8, 0) else (10, 0)) else (base, 0));
          ds = takeWhile (is_digit b) (drop skip s)
      in (digits_val b ds, if ds = [] then 0 else skip + length ds))"

text \<open>\<open>strtoul\<close>, \<open>strtoull\<close>: the value, whether it was out of range (\<open>errno\<close> is \<open>ERANGE\<close>), and the offset of
  the first character behind the number.\<close>

definition c_strtoul :: "nat \<Rightarrow> u8 list \<Rightarrow> u64 \<times> bool \<times> nat" where
  "c_strtoul base s =
     (let ws = length (takeWhile isspace s); t = drop ws s;
          neg = (t \<noteq> [] \<and> t ! 0 = 0x2d); sg = (if t \<noteq> [] \<and> (t ! 0 = 0x2d \<or> t ! 0 = 0x2b) then 1 else 0);
          (v, len) = unsigned_num base (drop sg t)
      in if len = 0 then (0, False, 0)
         else if v \<ge> 2 ^ 64 then (-1, True, ws + sg + len)
         else (if neg then - of_nat v else of_nat v, False, ws + sg + len))"

section \<open>Printing numbers\<close>

definition digit_char :: "nat \<Rightarrow> u8" where
  "digit_char d = (if d < 10 then of_nat (0x30 + d) else of_nat (0x61 + (d - 10)))"

function num_chars :: "nat \<Rightarrow> nat \<Rightarrow> u8 list" where
  "num_chars b v = (if b < 2 \<or> v < b then [digit_char v] else num_chars b (v div b) @ [digit_char (v mod b)])"
  by pat_completeness auto
termination by (relation "measure (\<lambda>(_, v). v)") auto

declare num_chars.simps [simp del]

text \<open>\<open>%.nx\<close>: at least \<open>k\<close> digits.\<close>

definition fmt_hex :: "nat \<Rightarrow> nat \<Rightarrow> u8 list" where
  "fmt_hex k v = (let ds = num_chars 16 v in replicate (k - length ds) 0x30 @ ds)"

definition fmt_dec :: "nat \<Rightarrow> u8 list" where
  "fmt_dec v = num_chars 10 v"

text \<open>\<open>snprintf\<close> into a buffer of \<open>k\<close> bytes.\<close>

definition snprintf :: "nat \<Rightarrow> u8 list \<Rightarrow> u8 list" where
  "snprintf k s = take (k - 1) s"

section \<open>Tokens\<close>

text \<open>The loop of \<open>strsplit\<close>: tokens are offsets into the string, in which the delimiters are replaced
  by zero bytes. \<open>None\<close> is an access outside of the buffer.\<close>

function strsplit_loop ::
  "nat \<Rightarrow> nat \<Rightarrow> u8 \<Rightarrow> nat \<Rightarrow> bool \<Rightarrow> nat list \<Rightarrow> u8 list \<Rightarrow> (nat list \<times> u8 list) option" where
  "strsplit_loop stringlen maxtokens delim i tokstart tokens str =
     (if \<not> i < stringlen then Some (tokens, str)
      else if \<not> i < length str then None
      else if str ! i = 0 \<or> length tokens \<ge> maxtokens then Some (tokens, str)
      else
        let tokens = (if tokstart then tokens @ [i] else tokens)
        in if str ! i = delim then strsplit_loop stringlen maxtokens delim (Suc i) True tokens (str[i := 0])
           else strsplit_loop stringlen maxtokens delim (Suc i) False tokens str)"
  by pat_completeness auto
termination by (relation "measure (\<lambda>(stringlen, _, _, i, _, _, _). stringlen - i)") auto

declare strsplit_loop.simps [simp del]

definition strsplit :: "u8 list \<Rightarrow> nat \<Rightarrow> nat \<Rightarrow> u8 \<Rightarrow> (nat list \<times> u8 list) option" where
  "strsplit str stringlen maxtokens delim = strsplit_loop stringlen maxtokens delim 0 True [] str"

section \<open>Numbers that were printed\<close>

lemma digit_char_val:
  assumes "d < b" "b \<le> 16"
  shows "digit_val (digit_char d) = Some d" "is_digit b (digit_char d)" "\<not> isspace (digit_char d)"
    "digit_char d \<noteq> 0x2d" "digit_char d \<noteq> 0x2b" "digit_char d \<noteq> 0x78" "digit_char d \<noteq> 0x58" "digit_char d \<noteq> 0"
    "digit_char d \<noteq> 0x3a" "digit_char d \<noteq> 0x2e"
proof -
  have "d < 16" using assms by simp
  then have c: "d \<in> {0, 1, 2, 3, 4, 5, 6, 7, 8, 9, 10, 11, 12, 13, 14, 15}"
    by (simp only: insert_iff empty_iff) presburger
  then show v: "digit_val (digit_char d) = Some d" by (elim insertE emptyE) (simp_all add: digit_val_def digit_char_def)
  then show "is_digit b (digit_char d)" using assms by (simp add: is_digit_def)
  show "\<not> isspace (digit_char d)" "digit_char d \<noteq> 0x2d" "digit_char d \<noteq> 0x2b" "digit_char d \<noteq> 0x78" "digit_char d \<noteq> 0x58"
    "digit_char d \<noteq> 0" "digit_char d \<noteq> 0x3a" "digit_char d \<noteq> 0x2e"
    using c by (elim insertE emptyE; simp add: isspace_def digit_char_def)+
qed

text \<open>The characters of a printed number.\<close>

definition digit_chars :: "nat \<Rightarrow> u8 list \<Rightarrow> bool" where
  "digit_chars b s \<longleftrightarrow> s \<noteq> [] \<and> (\<forall>c\<in>set s. \<exists>d<b. c = digit_char d)"

lemma digits_val_snoc: "digits_val b (s @ [c]) = digits_val b s * b + the (digit_val c)"
  by (simp add: digits_val_def)

lemma num_chars_digits:
  assumes "2 \<le> b" "b \<le> 16"
  shows "digit_chars b (num_chars b v) \<and> digits_val b (num_chars b v) = v"
proof (induction v rule: less_induct)
  case (less v)
  show ?case
  proof (cases "v < b")
    case True
    then show ?thesis
      using assms digit_char_val(1) [OF True assms(2)]
      by (auto simp: num_chars.simps [of b v] digit_chars_def digits_val_def)
  next
    case False
    have lt: "v div b < v" using assms(1) False by simp
    have m: "v mod b < b" using assms(1) by simp
    have e: "num_chars b v = num_chars b (v div b) @ [digit_char (v mod b)]" using False assms(1) by (subst num_chars.simps) simp
    show ?thesis unfolding e digits_val_snoc using less [OF lt] digit_char_val(1) [OF m assms(2)] m
      by (auto simp: digit_chars_def)
  qed
qed

lemma digits_val_zeros: "digits_val b (replicate k 0x30 @ s) = digits_val b s"
proof -
  have "foldl (\<lambda>a c. a * b + the (digit_val c)) 0 (replicate k 0x30) = 0" by (induction k) (simp_all add: digit_val_def)
  then show ?thesis by (simp add: digits_val_def)
qed

lemma fmt_hex_digits: "digit_chars 16 (fmt_hex k v)" "digits_val 16 (fmt_hex k v) = v"
proof -
  have n: "digit_chars 16 (num_chars 16 v)" "digits_val 16 (num_chars 16 v) = v" using num_chars_digits [of 16 v] by simp_all
  have "digit_char 0 = 0x30" by (simp add: digit_char_def)
  then show "digit_chars 16 (fmt_hex k v)" using n(1) by (auto simp: digit_chars_def fmt_hex_def Let_def) (metis zero_less_numeral)
  show "digits_val 16 (fmt_hex k v) = v" using n(2) by (simp add: fmt_hex_def Let_def digits_val_zeros)
qed

lemma digit_chars_val:
  assumes "digit_chars b s" "b \<le> 16" "c \<in> set s"
  shows "is_digit b c" "\<not> isspace c" "c \<noteq> 0x2d" "c \<noteq> 0x2b" "c \<noteq> 0x78" "c \<noteq> 0x58" "c \<noteq> 0" "c \<noteq> 0x3a" "c \<noteq> 0x2e"
proof -
  obtain d where d: "d < b" "c = digit_char d" using assms(1,3) by (auto simp: digit_chars_def)
  show "is_digit b c" "\<not> isspace c" "c \<noteq> 0x2d" "c \<noteq> 0x2b" "c \<noteq> 0x78" "c \<noteq> 0x58" "c \<noteq> 0" "c \<noteq> 0x3a" "c \<noteq> 0x2e"
    unfolding d(2) by (rule digit_char_val [OF d(1) assms(2)])+
qed

text \<open>Reading back what was printed.\<close>

lemma strtoul_digits:
  assumes s: "digit_chars b s" "b = 10 \<or> b = 16" and v: "digits_val b s < 2 ^ 64"
  shows "c_strtoul b s = (of_nat (digits_val b s), False, length s)"
proof -
  have b: "b \<le> 16" "b \<noteq> 0" using s(2) by auto
  note c = digit_chars_val [OF s(1) b(1)]
  have ne: "s \<noteq> []" using s(1) by (simp add: digit_chars_def)
  then have h: "s ! 0 \<in> set s" by simp
  have w: "takeWhile isspace s = []" using ne c(2) [OF h] by (cases s) simp_all
  have sg: "\<not> (s \<noteq> [] \<and> (s ! 0 = 0x2d \<or> s ! 0 = 0x2b))" "\<not> (s \<noteq> [] \<and> s ! 0 = 0x2d)" using c(3,4) [OF h] by simp_all
  have hx: "\<not> is_hex_prefix s"
  proof
    assume a: "is_hex_prefix s"
    then have "s ! 1 \<in> set s" by (auto simp: is_hex_prefix_def)
    then show False using c(5,6) a by (auto simp: is_hex_prefix_def)
  qed
  have tw: "takeWhile (is_digit b) s = s" using c(1) by (simp add: takeWhile_eq_all_conv)
  have "unsigned_num b s = (digits_val b s, length s)" using hx b(2) ne by (simp add: unsigned_num_def Let_def tw)
  then show ?thesis using w sg ne v by (simp add: c_strtoul_def Let_def)
qed

section \<open>Tokens of a joined string\<close>

fun joined :: "u8 \<Rightarrow> u8 list list \<Rightarrow> u8 list" where
  "joined d [] = []"
| "joined d [p] = p"
| "joined d (p # q # ps) = p @ d # joined d (q # ps)"

fun starts :: "nat \<Rightarrow> u8 list list \<Rightarrow> nat list" where
  "starts i [] = []"
| "starts i (p # ps) = i # starts (i + length p + 1) ps"

lemma split_scan:
  assumes "\<forall>j<k. str ! (i + j) \<noteq> 0 \<and> str ! (i + j) \<noteq> d" "length ts < mx" "i + k \<le> n" "i + k \<le> length str"
  shows "strsplit_loop n mx d i False ts str = strsplit_loop n mx d (i + k) False ts str"
  using assms
proof (induction k arbitrary: i)
  case (Suc k)
  have "str ! i \<noteq> 0" "str ! i \<noteq> d" using Suc.prems(1) by (metis add.right_neutral zero_less_Suc)+
  then have "strsplit_loop n mx d i False ts str = strsplit_loop n mx d (Suc i) False ts str"
    using Suc.prems(2-4) by (simp add: strsplit_loop.simps [of n mx d i])
  also have "\<dots> = strsplit_loop n mx d (Suc i + k) False ts str"
  proof (rule Suc.IH)
    show "\<forall>j<k. str ! (Suc i + j) \<noteq> 0 \<and> str ! (Suc i + j) \<noteq> d" using Suc.prems(1) by (metis Suc_less_eq add_Suc_shift)
  qed (use Suc.prems in simp_all)
  finally show ?case by simp
qed simp

text \<open>The first character of a token that is not empty, and the rest of it.\<close>

lemma split_token:
  assumes str: "str = pre @ p @ x # rest" and p: "d \<notin> set p" "zfree p" "p \<noteq> []" and n: "length pre + length p < n"
    and ts: "Suc (length ts) < mx"
  shows "strsplit_loop n mx d (length pre) True ts str =
    strsplit_loop n mx d (length pre + length p) False (ts @ [length pre]) str"
proof -
  obtain c q where c: "p = c # q" using p(3) by (cases p) simp_all
  have "str ! length pre = c" "length pre < length str" by (simp_all add: str c nth_append)
  moreover have "c \<noteq> 0" "c \<noteq> d" using p(1,2) by (auto simp: c zfree_def)
  ultimately have "strsplit_loop n mx d (length pre) True ts str =
      strsplit_loop n mx d (Suc (length pre)) False (ts @ [length pre]) str"
    using n ts by (simp add: strsplit_loop.simps [of n mx d "length pre"])
  also have "\<dots> = strsplit_loop n mx d (Suc (length pre) + length q) False (ts @ [length pre]) str"
  proof (rule split_scan)
    show "\<forall>j<length q. str ! (Suc (length pre) + j) \<noteq> 0 \<and> str ! (Suc (length pre) + j) \<noteq> d"
      using p(1,2) by (auto simp: str c nth_append zfree_def) (metis nth_mem)+
  qed (use n ts in \<open>simp_all add: str c\<close>)
  finally show ?thesis by (simp add: c)
qed

lemma split_piece:
  assumes str: "str = pre @ p @ d # rest" and p: "d \<notin> set p" "zfree p" "d \<noteq> 0" and n: "length pre + length p < n"
    and ts: "Suc (length ts) < mx"
  shows "strsplit_loop n mx d (length pre) True ts str =
    strsplit_loop n mx d (length pre + length p + 1) True (ts @ [length pre]) (pre @ p @ 0 # rest)"
proof (cases "p = []")
  case True
  then have "str ! length pre = d" "length pre < length str" "str[length pre := 0] = pre @ p @ 0 # rest"
    by (simp_all add: str list_update_append)
  then show ?thesis using True n ts p(3) by (simp add: strsplit_loop.simps [of n mx d "length pre"])
next
  case False
  have "str ! (length pre + length p) = d" "length pre + length p < length str"
    "str[length pre + length p := 0] = pre @ p @ 0 # rest" by (simp_all add: str nth_append list_update_append)
  then have "strsplit_loop n mx d (length pre + length p) False (ts @ [length pre]) str =
      strsplit_loop n mx d (length pre + length p + 1) True (ts @ [length pre]) (pre @ p @ 0 # rest)"
    using n ts p(3) by (simp add: strsplit_loop.simps [of n mx d "length pre + length p"])
  then show ?thesis using split_token [OF str p(1,2) False n ts] by simp
qed

lemma split_last:
  assumes str: "str = pre @ p @ 0 # rest" and p: "zfree p" "p \<noteq> []" "p ! 0 \<noteq> d" and n: "length pre + length p < n"
    and ts: "d \<notin> set p \<and> length ts < mx \<or> Suc (length ts) = mx"
  shows "strsplit_loop n mx d (length pre) True ts str = Some (ts @ [length pre], str)"
proof (cases "Suc (length ts) = mx")
  case True
  have c: "str ! length pre = p ! 0" "Suc (length pre) < length str" using p(2) by (simp_all add: str nth_append)
  moreover have "p ! 0 \<noteq> 0" using p(1,2) by (metis length_greater_0_conv nth_mem zfree_def)
  moreover have "strsplit_loop n mx d (Suc (length pre)) False (ts @ [length pre]) str = Some (ts @ [length pre], str)"
    using True c(2) by (simp add: strsplit_loop.simps [of n mx d "Suc (length pre)"])
  ultimately show ?thesis using p(3) n True by (simp add: strsplit_loop.simps [of n mx d "length pre"])
next
  case False
  then have t: "d \<notin> set p" "Suc (length ts) < mx" using ts by auto
  have "str ! (length pre + length p) = 0" "length pre + length p < length str" by (simp_all add: str nth_append)
  then have "strsplit_loop n mx d (length pre + length p) False (ts @ [length pre]) str = Some (ts @ [length pre], str)"
    by (simp add: strsplit_loop.simps [of n mx d "length pre + length p"])
  then show ?thesis using split_token [OF str t(1) p(1,2) n t(2)] by simp
qed

lemma split_joined:
  assumes "d \<noteq> 0" "ps \<noteq> []" "\<forall>p\<in>set (butlast ps). d \<notin> set p \<and> zfree p" "zfree (last ps)" "last ps \<noteq> []" "last ps ! 0 \<noteq> d"
    and "length pre + length (joined d ps) < n"
    and "d \<notin> set (last ps) \<and> length ts + length ps \<le> mx \<or> length ts + length ps = mx"
  shows "strsplit_loop n mx d (length pre) True ts (pre @ joined d ps @ 0 # rest) =
    Some (ts @ starts (length pre) ps, pre @ joined 0 ps @ 0 # rest)"
  using assms(2-)
proof (induction ps arbitrary: pre ts rule: induct_list012)
  case (2 p)
  then show ?case using split_last [of "pre @ p @ 0 # rest" pre p rest d n ts mx] by auto
next
  case (3 p q ps)
  have p: "d \<notin> set p" "zfree p" using 3(4) by simp_all
  have m: "Suc (length ts) < mx" using 3(9) by auto
  let ?pre = "pre @ p @ [0]" and ?ts = "ts @ [length pre]"
  have "strsplit_loop n mx d (length pre) True ts (pre @ joined d (p # q # ps) @ 0 # rest) =
      strsplit_loop n mx d (length ?pre) True ?ts (?pre @ joined d (q # ps) @ 0 # rest)"
    using split_piece [of _ pre p d "joined d (q # ps) @ 0 # rest" n ts mx, OF refl p assms(1)] 3(8) m by simp
  also have "\<dots> = Some (?ts @ starts (length ?pre) (q # ps), ?pre @ joined 0 (q # ps) @ 0 # rest)"
    by (rule 3(2)) (use 3(4-9) in auto)
  finally show ?case by simp
qed simp

lemma joined_tokens:
  assumes "\<forall>p\<in>set ps. zfree p"
  shows "map (c_str (pre @ joined 0 ps @ 0 # rest)) (starts (length pre) ps) = ps"
  using assms
proof (induction ps arbitrary: pre rule: induct_list012)
  case (2 p)
  then show ?case using c_str_at [of p pre rest] by simp
next
  case (3 p q ps)
  have "c_str (pre @ p @ 0 # joined 0 (q # ps) @ 0 # rest) (length pre) = p" by (rule c_str_at) (use 3(3) in simp)
  moreover have "map (c_str ((pre @ p @ [0]) @ joined 0 (q # ps) @ 0 # rest)) (starts (length (pre @ p @ [0])) (q # ps)) = q # ps"
    by (rule 3(2)) (use 3(3) in simp)
  ultimately show ?case by simp
qed simp

text \<open>Splitting a string gives back the tokens it was joined from; the last of as many tokens as are
  wanted takes the rest of the string.\<close>

theorem strsplit_joined:
  assumes "d \<noteq> 0" "ps \<noteq> []" "\<forall>p\<in>set (butlast ps). d \<notin> set p \<and> zfree p" "zfree (last ps)" "last ps \<noteq> []" "last ps ! 0 \<noteq> d"
    and "length (joined d ps) < n" "d \<notin> set (last ps) \<and> length ps \<le> mx \<or> length ps = mx"
  shows "\<exists>toks buf. strsplit (joined d ps @ 0 # rest) n mx d = Some (toks, buf) \<and> length toks = length ps \<and> map (c_str buf) toks = ps
    \<and> toks = starts 0 ps \<and> buf = joined 0 ps @ 0 # rest"
proof -
  have "\<forall>p\<in>set ps. zfree p" using assms(2,3,4) by (metis append_butlast_last_id in_set_butlastD rotate1.simps(2) set_ConsD set_rotate1)
  then have "map (c_str (joined 0 ps @ 0 # rest)) (starts 0 ps) = ps" using joined_tokens [of ps "[]" rest] by simp
  then show ?thesis using split_joined [OF assms(1-6), of "[]" n "[]" mx rest] assms(7,8)
    by (simp add: strsplit_def) (metis length_map)
qed

end
