(* ===== verification/Pci_Driver.thy ===== *)
theory Pci_Driver
  imports C_Text Hwinfo_Read Nfp_Eth Cpp_Start
begin

text \<open>
  Finding the card and bringing it up (user/lib/driver.c): the scan of sysfs for a Netronome device,
  the mapping of its memory, and the probe that opens the CPP handle and reads the tables. The answers
  of the operating system are arguments (record \<open>pci_os\<close>).
\<close>

section \<open>Devices\<close>

definition PCI_VENDOR_ID_NETRONOME :: u64 where "PCI_VENDOR_ID_NETRONOME = 0x19ee"
definition PCI_DEVICE_ID_NFP4000_PF_NIC :: u64 where "PCI_DEVICE_ID_NFP4000_PF_NIC = 0x4000"
definition PCI_DEVICE_ID_NFP6000_PF_NIC :: u64 where "PCI_DEVICE_ID_NFP6000_PF_NIC = 0x6000"
definition PCI_FMT_NVAL :: nat where "PCI_FMT_NVAL = 4"
definition PCI_RESOURCE_FMT_NVAL :: nat where "PCI_RESOURCE_FMT_NVAL = 3"
definition PCI_MAX_RESOURCE :: nat where "PCI_MAX_RESOURCE = 6"
definition PCI_CLASS_ANY_ID :: u32 where "PCI_CLASS_ANY_ID = 0xffffff"
definition IORESOURCE_MEM :: u64 where "IORESOURCE_MEM = 0x00000200"
definition PCI_PRI_STR_SIZE :: nat where "PCI_PRI_STR_SIZE = 17"

text \<open>Sizes of buffers of the platform: \<open>PATH_MAX\<close>, \<open>BUFSIZ\<close>, \<open>sizeof(d_name)\<close>.\<close>

definition PATH_MAX :: nat where "PATH_MAX = 4096"
definition BUFSIZ :: nat where "BUFSIZ = 8192"
definition D_NAME_SIZE :: nat where "D_NAME_SIZE = 256"

record rte_pci_addr =
  pa_domain :: u32
  pa_bus :: u8
  pa_devid :: u8
  pa_function :: u8

record rte_pci_id =
  class_id :: u32
  vendor_id :: u16
  device_id :: u16
  subsystem_vendor_id :: u16
  subsystem_device_id :: u16

record rte_mem_resource =
  mr_phys_addr :: u64
  mr_len :: u64
  mr_addr :: u64

record rte_pci_device =
  pd_addr :: rte_pci_addr
  pd_id :: rte_pci_id
  mem_resource :: "rte_mem_resource list"
  pd_fd :: int
  pd_uio_cfg_fd :: int
  pd_uio :: bool
  max_vfs :: u16
  pd_name :: "u8 list"

text \<open>What the operating system answers: the entries of a directory, the contents of a file, whether a
  file exists, whether an allocation made for an entry succeeds, the bytes behind the name in a
  directory entry, the results of \<open>open\<close> and \<open>mmap\<close>, and the answers that the PCIe transport asks for.\<close>

record pci_os =
  os_list :: "u8 list \<Rightarrow> u8 list list option"
  os_file :: "u8 list \<Rightarrow> u8 list option"
  os_alloc :: "u8 list \<Rightarrow> bool"
  os_tail :: "u8 list \<Rightarrow> u8 list"
  os_open :: "u8 list \<Rightarrow> int"
  os_mmap :: "u8 list \<Rightarrow> u64 \<Rightarrow> u64 option"
  os_cfg_read :: "nat \<Rightarrow> int \<Rightarrow> u8 list option"
  os_lock_open :: int
  os_lock_fcntl :: "(int \<times> errno) list"

text \<open>\<open>PCI_PRI_FMT\<close>\<close>

definition pci_pri_fmt :: "rte_pci_addr \<Rightarrow> u8 list" where
  "pci_pri_fmt a = fmt_hex 4 (unat (pa_domain a)) @ 0x3a # fmt_hex 2 (unat (pa_bus a)) @ 0x3a # fmt_hex 2 (unat (pa_devid a))
     @ 0x2e # fmt_hex 1 (unat (pa_function a))"

section \<open>Parsing\<close>

text \<open>The outer \<open>None\<close> is an access outside of the copy; the inner one is -1.\<close>

definition parse_pci_addr_format :: "bool \<Rightarrow> u8 list \<Rightarrow> nat \<Rightarrow> rte_pci_addr option option" where
  "parse_pci_addr_format ok buf bufsize =
     (if \<not> ok then Some None
      else case strsplit (take bufsize buf @ [0]) bufsize PCI_FMT_NVAL 0x3a of
        None \<Rightarrow> None
      | Some (tokens, buf_copy) \<Rightarrow>
          if length tokens \<noteq> PCI_FMT_NVAL - 1 then Some None
          else
            let devid = c_str buf_copy (tokens ! 2)
            in if 0x2e \<notin> set devid then Some None
               else
                 let function = drop (length (takeWhile (\<lambda>c. c \<noteq> 0x2e) devid) + 1) devid;
                     devid = takeWhile (\<lambda>c. c \<noteq> 0x2e) devid;
                     (d, e1, _) = c_strtoul 16 (c_str buf_copy (tokens ! 0));
                     (b, e2, _) = c_strtoul 16 (c_str buf_copy (tokens ! 1));
                     (v, e3, _) = c_strtoul 16 devid;
                     (f, e4, _) = c_strtoul 10 function
                 in if e1 \<or> e2 \<or> e3 \<or> e4 then Some None
                    else Some (Some \<lparr>pa_domain = ucast d, pa_bus = ucast b, pa_devid = ucast v, pa_function = ucast f\<rparr>))"

text \<open>\<open>fgets\<close>: the line that is read, with its newline, and the rest of the file.\<close>

definition fgets :: "nat \<Rightarrow> u8 list \<Rightarrow> (u8 list \<times> u8 list) option" where
  "fgets k s =
     (if s = [] then None
      else
        let l = takeWhile (\<lambda>c. c \<noteq> 0x0a) s; l = (if length l < length s then l @ [0x0a] else l);
            l = take (k - 1) l
        in Some (l, drop (length l) s))"

definition parse_sysfs_value :: "pci_os \<Rightarrow> u8 list \<Rightarrow> u64 option" where
  "parse_sysfs_value os path =
     (case os_file os path of
        None \<Rightarrow> None
      | Some f \<Rightarrow>
          (case fgets BUFSIZ f of
             None \<Rightarrow> None
           | Some (buf, _) \<Rightarrow>
               let (v, _, e) = c_strtoul 0 (c_str (buf @ [0]) 0)
               in if buf ! 0 = 0 \<or> (buf @ [0]) ! e \<noteq> 0x0a then None else Some v))"

text \<open>One line of the \<open>resource\<close> file: start, end and flags.\<close>

definition resource_line :: "u8 list \<Rightarrow> (u64 \<times> u64 \<times> u64) option option" where
  "resource_line buf =
     (case strsplit (buf @ [0]) BUFSIZ PCI_RESOURCE_FMT_NVAL 0x20 of
        None \<Rightarrow> None
      | Some (ptrs, buf) \<Rightarrow>
          if length ptrs \<noteq> 3 then Some None
          else
            let (phys_addr, e1, _) = c_strtoul 16 (c_str buf (ptrs ! 0));
                (end_addr, e2, _) = c_strtoul 16 (c_str buf (ptrs ! 1));
                (flags, e3, _) = c_strtoul 16 (c_str buf (ptrs ! 2))
            in if e1 \<or> e2 \<or> e3 then Some None else Some (Some (phys_addr, end_addr, flags)))"

definition resource_set :: "nat \<Rightarrow> u64 \<times> u64 \<times> u64 \<Rightarrow> rte_pci_device \<Rightarrow> rte_pci_device" where
  "resource_set i r dev =
     (case r of (phys_addr, end_addr, flags) \<Rightarrow>
        if flags AND IORESOURCE_MEM \<noteq> 0
        then dev\<lparr>mem_resource := (mem_resource dev)[i :=
               \<lparr>mr_phys_addr = phys_addr, mr_len = end_addr - phys_addr + 1, mr_addr = 0\<rparr>]\<rparr>
        else dev)"

fun resource_loop :: "nat list \<Rightarrow> u8 list \<Rightarrow> rte_pci_device \<Rightarrow> rte_pci_device option option" where
  "resource_loop [] f dev = Some (Some dev)"
| "resource_loop (i # is) f dev =
     (case fgets BUFSIZ f of
        None \<Rightarrow> Some None
      | Some (buf, f) \<Rightarrow>
          (case resource_line buf of
             None \<Rightarrow> None
           | Some None \<Rightarrow> Some None
           | Some (Some r) \<Rightarrow> resource_loop is f (resource_set i r dev)))"

definition pci_parse_sysfs_resource :: "pci_os \<Rightarrow> u8 list \<Rightarrow> rte_pci_device \<Rightarrow> rte_pci_device option option" where
  "pci_parse_sysfs_resource os filename dev =
     (case os_file os filename of
        None \<Rightarrow> Some None
      | Some f \<Rightarrow> resource_loop [0..<PCI_MAX_RESOURCE] f dev)"

section \<open>The scan\<close>

definition path :: "u8 list \<Rightarrow> string \<Rightarrow> u8 list" where
  "path dirname file = snprintf PATH_MAX (dirname @ ascii file)"

definition pci_dev_zero :: "rte_pci_addr \<Rightarrow> rte_pci_device" where
  "pci_dev_zero addr =
     \<lparr>pd_addr = addr, pd_id = \<lparr>class_id = 0, vendor_id = 0, device_id = 0, subsystem_vendor_id = 0, subsystem_device_id = 0\<rparr>,
      mem_resource = replicate PCI_MAX_RESOURCE \<lparr>mr_phys_addr = 0, mr_len = 0, mr_addr = 0\<rparr>, pd_fd = 0, pd_uio_cfg_fd = 0,
      pd_uio = False, max_vfs = 0, pd_name = []\<rparr>"

definition pci_setup_device :: "pci_os \<Rightarrow> u8 list \<Rightarrow> rte_pci_addr \<Rightarrow> rte_pci_device option option" where
  "pci_setup_device os dirname addr =
     (if \<not> os_alloc os dirname then Some None
      else case parse_sysfs_value os (path dirname ''/vendor'') of None \<Rightarrow> Some None | Some v \<Rightarrow>
      (case parse_sysfs_value os (path dirname ''/device'') of None \<Rightarrow> Some None | Some d \<Rightarrow>
      (case parse_sysfs_value os (path dirname ''/subsystem_vendor'') of None \<Rightarrow> Some None | Some sv \<Rightarrow>
      (case parse_sysfs_value os (path dirname ''/subsystem_device'') of None \<Rightarrow> Some None | Some sd \<Rightarrow>
      (case parse_sysfs_value os (path dirname ''/class'') of None \<Rightarrow> Some None | Some c \<Rightarrow>
         let dev = (pci_dev_zero addr)\<lparr>pd_id := \<lparr>class_id = ucast c AND PCI_CLASS_ANY_ID, vendor_id = ucast v, device_id = ucast d,
               subsystem_vendor_id = ucast sv, subsystem_device_id = ucast sd\<rparr>\<rparr>;
             dev = (case parse_sysfs_value os (path dirname ''/max_vfs'') of None \<Rightarrow> dev | Some m \<Rightarrow> dev\<lparr>max_vfs := ucast m\<rparr>);
             dev = dev\<lparr>pd_name := snprintf (PCI_PRI_STR_SIZE + 1) (pci_pri_fmt addr)\<rparr>
         in pci_parse_sysfs_resource os (path dirname ''/resource'') dev)))))"

definition sys_devices :: "u8 list" where "sys_devices = ascii ''/sys/bus/pci/devices''"

text \<open>What the loop does with one entry: it goes on, or ends with the device.\<close>

definition scan_match :: "u64 \<Rightarrow> u64 \<Rightarrow> bool" where
  "scan_match vendor device \<longleftrightarrow> vendor = PCI_VENDOR_ID_NETRONOME
     \<and> (device = PCI_DEVICE_ID_NFP4000_PF_NIC \<or> device = PCI_DEVICE_ID_NFP6000_PF_NIC)"

fun scan_loop :: "pci_os \<Rightarrow> u8 list list \<Rightarrow> rte_pci_device option option" where
  "scan_loop os [] = Some None"
| "scan_loop os (e # es) =
     (if e \<noteq> [] \<and> e ! 0 = 0x2e then scan_loop os es
      else case parse_pci_addr_format (os_alloc os e) e D_NAME_SIZE of
        None \<Rightarrow> None
      | Some None \<Rightarrow> scan_loop os es
      | Some (Some addr) \<Rightarrow>
          (case parse_sysfs_value os (path (sys_devices @ 0x2f # e) ''/vendor'') of
             None \<Rightarrow> scan_loop os es
           | Some vendor \<Rightarrow>
               (case parse_sysfs_value os (path (sys_devices @ 0x2f # e) ''/device'') of
                  None \<Rightarrow> scan_loop os es
                | Some device \<Rightarrow>
                    if scan_match vendor device then pci_setup_device os (path (sys_devices @ 0x2f # e) '''') addr
                    else scan_loop os es)))"

definition pci_scan :: "pci_os \<Rightarrow> rte_pci_device option option" where
  "pci_scan os = (case os_list os (sys_devices @ [0x2f]) of None \<Rightarrow> Some None | Some es \<Rightarrow> scan_loop os es)"

section \<open>Mapping\<close>

text \<open>The text at an offset of \<open>d_name\<close>, which may lie behind the name.\<close>

definition d_name_at :: "pci_os \<Rightarrow> u8 list \<Rightarrow> nat \<Rightarrow> u8 list" where
  "d_name_at os e i = c_str (e @ 0 # os_tail os e @ [0]) i"

text \<open>The number of the first entry that starts with \<open>uio\<close> and has one, as an \<open>unsigned\<close>.\<close>

fun uio_search :: "pci_os \<Rightarrow> u8 list list \<Rightarrow> u32 option" where
  "uio_search os [] = None"
| "uio_search os (e # es) =
     (if take 3 e \<noteq> ascii ''uio'' then uio_search os es
      else
        let (v, r, k) = c_strtoul 10 (d_name_at os e 3)
        in if \<not> r \<and> k \<noteq> 0 then Some (ucast v)
           else
             let (v, r, k) = c_strtoul 10 (d_name_at os e 7)
             in if \<not> r \<and> k \<noteq> 0 then Some (ucast v) else uio_search os es)"

text \<open>The node that \<open>pci_mknod_uio_dev\<close> makes is not needed to go on: a failure is only reported.\<close>

definition pci_get_device :: "pci_os \<Rightarrow> rte_pci_device \<Rightarrow> int \<times> rte_pci_device" where
  "pci_get_device os dev =
     (let loc = sys_devices @ 0x2f # pci_pri_fmt (pd_addr dev);
          dir = (case os_list os (path loc ''/uio'') of Some es \<Rightarrow> Some es | None \<Rightarrow> os_list os (path loc ''''))
      in case dir of
           None \<Rightarrow> (-1, dev)
         | Some es \<Rightarrow>
             (case uio_search os es of
                None \<Rightarrow> (-1, dev)
              | Some uio_num \<Rightarrow>
                  let fd = os_open os (snprintf PATH_MAX (ascii ''/dev/uio'' @ fmt_dec (unat uio_num)));
                      dev = dev\<lparr>pd_fd := fd\<rparr>
                  in if fd < 0 then (-1, dev)
                     else
                       let cfd = os_open os (snprintf PATH_MAX
                             (ascii ''/sys/class/uio/uio'' @ fmt_dec (unat uio_num) @ ascii ''/device/config''));
                           dev = dev\<lparr>pd_uio_cfg_fd := cfd\<rparr>
                       in if cfd < 0 then (-1, dev) else (0, dev\<lparr>pd_uio := True\<rparr>)))"

definition resource_path :: "rte_pci_addr \<Rightarrow> nat \<Rightarrow> u8 list" where
  "resource_path a i = snprintf PATH_MAX (sys_devices @ 0x2f # pci_pri_fmt a @ ascii ''/resource'' @ fmt_dec i)"

fun map_loop :: "pci_os \<Rightarrow> nat list \<Rightarrow> rte_pci_device \<Rightarrow> int \<times> rte_pci_device" where
  "map_loop os [] dev = (0, dev)"
| "map_loop os (i # is) dev =
     (let r = mem_resource dev ! i
      in if mr_phys_addr r = 0 then map_loop os is dev
         else
           let devname = resource_path (pd_addr dev) i
           in if os_open os devname < 0 then (-1, dev)
              else case os_mmap os devname (mr_len r) of
                     None \<Rightarrow> (-1, dev)
                   | Some mapaddr \<Rightarrow>
                       map_loop os is (dev\<lparr>mem_resource := (mem_resource dev)[i := r\<lparr>mr_addr := mapaddr\<rparr>]\<rparr>))"

definition pci_map_device :: "pci_os \<Rightarrow> rte_pci_device \<Rightarrow> int \<times> rte_pci_device" where
  "pci_map_device os dev =
     (let (ret, dev) = pci_get_device os dev
      in if ret < 0 then (-1, dev) else map_loop os [0..<PCI_MAX_RESOURCE] dev)"

section \<open>The probe\<close>

text \<open>The device as the PCIe transport sees it, and a driver that has just been started.\<close>

definition transport_view :: "pci_os \<Rightarrow> rte_pci_device \<Rightarrow> pci_device" where
  "transport_view os dev =
     \<lparr>dev_name = map (\<lambda>c. char_of (unat c)) (pd_name dev), res_len = mr_len (mem_resource dev ! 0), res_addr = mr_addr (mem_resource dev ! 0),
      cfg_read = os_cfg_read os, lock_open = os_lock_open os, lock_fcntl = os_lock_fcntl os\<rparr>"

definition fresh_drv :: "'h world \<Rightarrow> 'h drv" where
  "fresh_drv w = \<lparr>drv_world = w, mtx_heap = (\<lambda>_. None), mutex_cache = None, mtx_brk = 0\<rparr>"

text \<open>What happens on the card and in the memory of the process meanwhile.\<close>

record 'h probe_env =
  pe_junk :: "nat \<Rightarrow> u8"
  pe_info :: "nat \<Rightarrow> 'h others"
  pe_nap :: "nat \<Rightarrow> 'h \<Rightarrow> 'h"
  pe_eth :: "'h others"
  pe_nsp :: "'h nsp_env"

text \<open>The result code, and the state of the driver once there is a handle.\<close>

definition pci_probe ::
  "'h mmio \<Rightarrow> pci_os \<Rightarrow> 'h probe_env \<Rightarrow> rte_pci_device option \<Rightarrow> 'h world \<Rightarrow> (int \<times> 'h drv) option" where
  "pci_probe M os pe dev w =
     (case dev of
        None \<Rightarrow> Some (- errno_code ENODEV, fresh_drv w)
      | Some dev \<Rightarrow>
          let (ret, dev) = pci_map_device os dev
          in if ret < 0 then Some (- errno_code EIO, fresh_drv w)
             else case nfp_cpp_from_device_name M (transport_view os dev) True w of
               None \<Rightarrow> None
             | Some (False, w) \<Rightarrow> Some (- errno_code EIO, fresh_drv w)
             | Some (True, w) \<Rightarrow>
                 (case nfp_hwinfo_read M (pe_junk pe) (pe_info pe) (pe_nap pe) (fresh_drv w) of
                    None \<Rightarrow> None
                  | Some (None, s) \<Rightarrow> Some (- errno_code EIO, s)
                  | Some (Some hwinfo, s) \<Rightarrow>
                      (case nfp_eth_read_ports M (pe_eth pe) (pe_nsp pe) s of
                         None \<Rightarrow> None
                       | Some (None, s) \<Rightarrow> Some (- errno_code EIO, s)
                       | Some (Some _, s) \<Rightarrow> Some (ret, s))))"

end
