(* ===== verification/Pci_Proof.thy ===== *)
theory Pci_Proof
  imports Pci_Driver
begin

text \<open>
  The scan reads back what the kernel prints into sysfs: addresses, numbers and resource lines. The
  card it finds is the first matching one, and the files that are mapped are those of that card.
\<close>

section \<open>Addresses\<close>

lemma fmt_hex_small: "f < 10 \<Longrightarrow> fmt_hex 1 f = [digit_char f]"
  by (simp add: fmt_hex_def num_chars.simps [of 16 f])

lemma fmt_hex_clean:
  assumes "c \<in> set (fmt_hex k v)"
  shows "c \<noteq> 0" "c \<noteq> 0x3a" "c \<noteq> 0x2e" "\<not> isspace c" "c \<noteq> 0x20" "c \<noteq> 0x0a" "is_digit 16 c"
proof -
  note c = digit_chars_val [OF fmt_hex_digits(1) _ assms]
  show "c \<noteq> 0" "c \<noteq> 0x3a" "c \<noteq> 0x2e" "\<not> isspace c" "is_digit 16 c" using c by simp_all
  then show "c \<noteq> 0x20" "c \<noteq> 0x0a" by (auto simp: isspace_def)
qed

lemma fmt_hex_notin [simp]:
  "0 \<notin> set (fmt_hex k v)" "0x3a \<notin> set (fmt_hex k v)" "0x2e \<notin> set (fmt_hex k v)" "0x20 \<notin> set (fmt_hex k v)"
  "0x0a \<notin> set (fmt_hex k v)" "zfree (fmt_hex k v)" "fmt_hex k v \<noteq> []"
proof -
  show z: "0 \<notin> set (fmt_hex k v)" using fmt_hex_clean(1) by blast
  then show "zfree (fmt_hex k v)" by (simp add: zfree_def)
  show "0x3a \<notin> set (fmt_hex k v)" using fmt_hex_clean(2) by blast
  show "0x2e \<notin> set (fmt_hex k v)" using fmt_hex_clean(3) by blast
  show "0x20 \<notin> set (fmt_hex k v)" using fmt_hex_clean(5) by blast
  show "0x0a \<notin> set (fmt_hex k v)" using fmt_hex_clean(6) by blast
  show "fmt_hex k v \<noteq> []" using fmt_hex_digits(1) [of k v] by (simp add: digit_chars_def)
qed

lemma strtoul_fmt: "v < 2 ^ 64 \<Longrightarrow> c_strtoul 16 (fmt_hex k v) = (of_nat v, False, length (fmt_hex k v))"
  using strtoul_digits [OF fmt_hex_digits(1), of k v] fmt_hex_digits(2) [of k v] by simp

lemma ucast_back: "ucast (ucast (x :: u8) :: u64) = x" "ucast (ucast (y :: u32) :: u64) = y" "ucast (ucast (z :: u16) :: u64) = z"
  by (rule bit_word_eqI; simp add: bit_unsigned_iff)+

theorem addr_roundtrip:
  assumes f: "unat (pa_function a) < 10" and n: "length (pci_pri_fmt a) < n"
  shows "parse_pci_addr_format True (pci_pri_fmt a) n = Some (Some a)"
proof -
  let ?d = "fmt_hex 4 (unat (pa_domain a))" and ?b = "fmt_hex 2 (unat (pa_bus a))" and ?v = "fmt_hex 2 (unat (pa_devid a))"
    and ?f = "fmt_hex 1 (unat (pa_function a))"
  let ?ps = "[?d, ?b, ?v @ 0x2e # ?f]"
  have j: "joined 0x3a ?ps = pci_pri_fmt a" by (simp add: pci_pri_fmt_def)
  have nv: "?v \<noteq> []" using fmt_hex_digits(1) by (simp add: digit_chars_def)
  then have h: "(?v @ 0x2e # ?f) ! 0 \<noteq> 0x3a" using fmt_hex_clean(2) [OF nth_mem [of 0 ?v]] by (simp add: nth_append)
  have "zfree (?v @ 0x2e # ?f)" "0x3a \<notin> set (?v @ 0x2e # ?f)" by (simp_all add: zfree_def)
  then obtain toks buf where s: "strsplit (joined 0x3a ?ps @ 0 # []) n 4 0x3a = Some (toks, buf)" "length toks = length ?ps"
      "map (c_str buf) toks = ?ps"
    using strsplit_joined [of "0x3a" ?ps n 4 "[]"] n h unfolding j by fastforce
  have c: "c_str buf (toks ! 0) = ?d" "c_str buf (toks ! 1) = ?b" "c_str buf (toks ! 2) = ?v @ 0x2e # ?f"
    using s(2) arg_cong [OF s(3), of "\<lambda>l. l ! 0"] arg_cong [OF s(3), of "\<lambda>l. l ! 1"] arg_cong [OF s(3), of "\<lambda>l. l ! 2"] by simp_all
  have tw: "takeWhile (\<lambda>c. c \<noteq> 0x2e) (?v @ 0x2e # ?f) = ?v" using fmt_hex_clean(3) by (auto simp: takeWhile_append)
  have l64: "unat (x :: 'a::len word) < 2 ^ 64" if "LENGTH('a) \<le> 64" for x
  proof -
    have "unat x < 2 ^ LENGTH('a)" by (rule unsigned_less)
    also have "\<dots> \<le> 2 ^ 64" using that by (intro power_increasing) simp_all
    finally show ?thesis .
  qed
  have "digit_chars 10 ?f" "digits_val 10 ?f = unat (pa_function a)"
    unfolding fmt_hex_small [OF f] using f digit_char_val(1) [of "unat (pa_function a)" 10]
    by (auto simp: digit_chars_def digits_val_def)
  then have fun10: "c_strtoul 10 ?f = (of_nat (unat (pa_function a)), False, length ?f)"
    using strtoul_digits [of 10 ?f] l64 [of "pa_function a"] by simp
  have st: "c_strtoul 16 ?d = (of_nat (unat (pa_domain a)), False, length ?d)" "c_strtoul 16 ?b = (of_nat (unat (pa_bus a)), False, length ?b)"
    "c_strtoul 16 ?v = (of_nat (unat (pa_devid a)), False, length ?v)"
    using strtoul_fmt l64 [of "pa_domain a"] l64 [of "pa_bus a"] l64 [of "pa_devid a"] by simp_all
  have "strsplit (take n (pci_pri_fmt a) @ [0]) n PCI_FMT_NVAL 0x3a = Some (toks, buf)"
    using s(1) n unfolding j by (simp add: PCI_FMT_NVAL_def)
  then show ?thesis
    unfolding parse_pci_addr_format_def using s(2) c tw fun10 st ucast_back
    by (simp add: PCI_FMT_NVAL_def Let_def)
qed

section \<open>Numbers and lines\<close>

lemma num_chars_length: "2 \<le> b \<Longrightarrow> 0 < k \<Longrightarrow> v < b ^ k \<Longrightarrow> length (num_chars b v) \<le> k"
proof (induction k arbitrary: v)
  case (Suc k)
  show ?case
  proof (cases "v < b")
    case False
    then have "0 < k" using Suc.prems(3) by (cases k) auto
    moreover have "v div b < b ^ k" using Suc.prems(1,3) by (simp add: less_mult_imp_div_less mult.commute)
    ultimately show ?thesis using Suc.IH [of "v div b"] Suc.prems(1) False by (subst num_chars.simps) simp
  qed (subst num_chars.simps, simp)
qed simp

lemma fmt_hex_length: "v < 2 ^ 64 \<Longrightarrow> length (fmt_hex k v) \<le> max k 16"
  using num_chars_length [of 16 16 v] by (simp add: fmt_hex_def Let_def)

text \<open>A number with the prefix \<open>0x\<close>, followed by something that is no digit.\<close>

lemma strtoul_prefixed:
  assumes "base = 0 \<or> base = 16" "v < 2 ^ 64" "rest = [] \<or> \<not> is_digit 16 (hd rest)"
  shows "c_strtoul base (0x30 # 0x78 # fmt_hex k v @ rest) = (of_nat v, False, 2 + length (fmt_hex k v))"
proof -
  let ?d = "fmt_hex k v" let ?s = "0x30 # 0x78 # ?d @ rest"
  have hx: "is_hex_prefix ?s" using fmt_hex_clean(7) [OF nth_mem [of 0 ?d]] by (auto simp: is_hex_prefix_def nth_append)
  have "takeWhile (is_digit 16) (?d @ rest) = ?d @ takeWhile (is_digit 16) rest" using fmt_hex_clean(7) by simp
  moreover have "takeWhile (is_digit 16) rest = []" using assms(3) by (cases rest) auto
  ultimately have tw: "takeWhile (is_digit 16) (?d @ rest) = ?d" by simp
  have "unsigned_num base ?s = (v, 2 + length ?d)"
    using hx assms(1) fmt_hex_digits(2) [of k v] by (simp add: unsigned_num_def Let_def tw)
  then show ?thesis using assms(2) by (simp add: c_strtoul_def isspace_def Let_def)
qed

definition hex_text :: "nat \<Rightarrow> nat \<Rightarrow> u8 list" where
  "hex_text k v = 0x30 # 0x78 # fmt_hex k v"

lemma c_str_all: "zfree s \<Longrightarrow> c_str (s @ [0]) 0 = s"
  using c_str_at [of s "[]" "[]"] by simp

lemma fgets_line:
  assumes "0x0a \<notin> set l" "length l + 2 \<le> k"
  shows "fgets k (l @ 0x0a # f) = Some (l @ [0x0a], f)"
proof -
  have "takeWhile (\<lambda>c. c \<noteq> 0x0a) (l @ 0x0a # f) = l" using assms(1) by (auto simp: takeWhile_append)
  then show ?thesis using assms(2) by (simp add: fgets_def Let_def)
qed

text \<open>The value that the kernel prints into a file.\<close>

lemma sysfs_value:
  assumes "os_file os p = Some (hex_text k v @ [0x0a])" "v < 2 ^ 64" "k \<le> 16"
  shows "parse_sysfs_value os p = Some (of_nat v)"
proof -
  let ?t = "hex_text k v"
  have l: "length ?t \<le> 18" using fmt_hex_length [OF assms(2), of k] assms(3) by (simp add: hex_text_def)
  have "fgets BUFSIZ (?t @ 0x0a # []) = Some (?t @ [0x0a], [])"
    by (rule fgets_line) (use l in \<open>simp_all add: hex_text_def BUFSIZ_def\<close>)
  moreover have "c_str ((?t @ [0x0a]) @ [0]) 0 = ?t @ [0x0a]"
    by (rule c_str_all) (simp add: hex_text_def zfree_def)
  moreover have "\<not> is_digit 16 0x0a" by (simp add: is_digit_def digit_val_def)
  then have "c_strtoul 0 (?t @ [0x0a]) = (of_nat v, False, length ?t)"
    using strtoul_prefixed [of 0 v "[0x0a]" k] assms(2) by (simp add: hex_text_def)
  moreover have "?t ! 0 = 0x30" "?t \<noteq> []" by (simp_all add: hex_text_def)
  ultimately show ?thesis using assms(1) by (simp add: parse_sysfs_value_def nth_append)
qed

text \<open>The lines of the \<open>resource\<close> file.\<close>

definition resource_text :: "u64 \<times> u64 \<times> u64 \<Rightarrow> u8 list" where
  "resource_text r = (case r of (s, e, f) \<Rightarrow>
     joined 0x20 [hex_text 16 (unat s), hex_text 16 (unat e), hex_text 16 (unat f)] @ [0x0a])"

lemma unat64: "unat (x :: u64) < 2 ^ 64"
  using unsigned_less [of x, where 'a = nat] by simp

lemma resource_line_text: "resource_line (resource_text (s, e, f)) = Some (Some (s, e, f))"
  "\<exists>l. resource_text (s, e, f) = l @ [0x0a] \<and> 0x0a \<notin> set l \<and> length l \<le> 60"
proof -
  let ?h = "\<lambda>x :: u64. hex_text 16 (unat x)"
  let ?ps = "[?h s, ?h e, ?h f @ [0x0a]]"
  have j: "joined 0x20 ?ps = resource_text (s, e, f)" by (simp add: resource_text_def)
  have len: "length (?h x) \<le> 18" for x using fmt_hex_length [OF unat64, of 16 x] by (simp add: hex_text_def)
  have nl: "0x0a \<notin> set (?h x)" "0x20 \<notin> set (?h x)" "zfree (?h x)" "?h x \<noteq> []" "?h x ! 0 = 0x30" for x
    by (simp_all add: hex_text_def zfree_def)
  show "\<exists>l. resource_text (s, e, f) = l @ [0x0a] \<and> 0x0a \<notin> set l \<and> length l \<le> 60"
    using nl(1) len [of s] len [of e] len [of f]
    by (intro exI [of _ "joined 0x20 [?h s, ?h e, ?h f]"]) (simp add: resource_text_def)
  have "zfree (?h f @ [0x0a])" "(?h f @ [0x0a]) ! 0 \<noteq> 0x20" using nl [of f] by (simp_all add: zfree_def nth_append)
  then obtain toks buf where t: "strsplit (joined 0x20 ?ps @ 0 # []) BUFSIZ 3 0x20 = Some (toks, buf)" "length toks = length ?ps"
      "map (c_str buf) toks = ?ps"
    using strsplit_joined [of "0x20" ?ps BUFSIZ 3 "[]"] nl len [of s] len [of e] len [of f] by (fastforce simp: BUFSIZ_def)
  have c: "c_str buf (toks ! 0) = ?h s" "c_str buf (toks ! 1) = ?h e" "c_str buf (toks ! 2) = ?h f @ [0x0a]"
    using t(2) arg_cong [OF t(3), of "\<lambda>l. l ! 0"] arg_cong [OF t(3), of "\<lambda>l. l ! 1"] arg_cong [OF t(3), of "\<lambda>l. l ! 2"] by simp_all
  have "\<not> is_digit 16 0x0a" by (simp add: is_digit_def digit_val_def)
  then have v: "c_strtoul 16 (?h x) = (x, False, length (?h x))" "c_strtoul 16 (?h x @ [0x0a]) = (x, False, length (?h x))" for x
    using strtoul_prefixed [OF _ unat64, of 16 "[]" 16 x] strtoul_prefixed [OF _ unat64, of 16 "[0x0a]" 16 x] by (simp_all add: hex_text_def)
  show "resource_line (resource_text (s, e, f)) = Some (Some (s, e, f))"
    using t(1,2) c v unfolding j by (simp add: resource_line_def PCI_RESOURCE_FMT_NVAL_def)
qed

section \<open>The resources\<close>

text \<open>The resource that a line describes.\<close>

definition no_resource :: rte_mem_resource where
  "no_resource = \<lparr>mr_phys_addr = 0, mr_len = 0, mr_addr = 0\<rparr>"

definition res_of :: "u64 \<times> u64 \<times> u64 \<Rightarrow> rte_mem_resource" where
  "res_of r = (case r of (s, e, f) \<Rightarrow>
     if f AND IORESOURCE_MEM \<noteq> 0 then \<lparr>mr_phys_addr = s, mr_len = e - s + 1, mr_addr = 0\<rparr> else no_resource)"

lemma resource_set_next:
  "mem_resource dev = xs @ no_resource # ys \<Longrightarrow> resource_set (length xs) r dev = dev\<lparr>mem_resource := xs @ res_of r # ys\<rparr>"
  by (cases r) (simp add: resource_set_def res_of_def)

lemma resources_read:
  assumes "mem_resource dev = xs @ replicate (length rs) no_resource"
  shows "resource_loop [length xs..<length xs + length rs] (concat (map resource_text rs) @ f) dev =
    Some (Some (dev\<lparr>mem_resource := xs @ map res_of rs\<rparr>))"
  using assms
proof (induction rs arbitrary: xs dev)
  case (Cons r rs)
  obtain l where l: "resource_text r = l @ [0x0a]" "0x0a \<notin> set l" "length l \<le> 60"
    using resource_line_text(2) [of "fst r" "fst (snd r)" "snd (snd r)"] by auto
  have g: "fgets BUFSIZ (concat (map resource_text (r # rs)) @ f) = Some (resource_text r, concat (map resource_text rs) @ f)"
    using fgets_line [OF l(2), of BUFSIZ "concat (map resource_text rs) @ f"] l by (simp add: BUFSIZ_def)
  have rl: "resource_line (resource_text r) = Some (Some r)" by (cases r) (simp add: resource_line_text(1))
  let ?dev = "dev\<lparr>mem_resource := (xs @ [res_of r]) @ replicate (length rs) no_resource\<rparr>"
  have st: "resource_set (length xs) r dev = ?dev" using resource_set_next [of dev xs] Cons.prems by simp
  have u: "[length xs..<length xs + length (r # rs)] = length xs # [length (xs @ [res_of r])..<length (xs @ [res_of r]) + length rs]"
    by (subst upt_conv_Cons) simp_all
  have "resource_loop [length (xs @ [res_of r])..<length (xs @ [res_of r]) + length rs] (concat (map resource_text rs) @ f) ?dev
      = Some (Some (?dev\<lparr>mem_resource := (xs @ [res_of r]) @ map res_of rs\<rparr>))" by (rule Cons.IH) simp
  then show ?case unfolding u by (simp only: resource_loop.simps g option.simps prod.simps rl st) simp
qed simp

section \<open>The scan\<close>

record card =
  cd_addr :: rte_pci_addr
  cd_vendor :: u16
  cd_device :: u16
  cd_subvendor :: u16
  cd_subdevice :: u16
  cd_class :: u32
  cd_res :: "(u64 \<times> u64 \<times> u64) list"

definition card_dir :: "card \<Rightarrow> u8 list" where
  "card_dir c = sys_devices @ 0x2f # pci_pri_fmt (cd_addr c)"

text \<open>The files of a card as the kernel writes them.\<close>

definition in_sysfs :: "pci_os \<Rightarrow> card \<Rightarrow> bool" where
  "in_sysfs os c \<longleftrightarrow> unat (pa_function (cd_addr c)) < 10 \<and> length (cd_res c) = PCI_MAX_RESOURCE \<and> unat (cd_class c) < 2 ^ 24
     \<and> os_alloc os (pci_pri_fmt (cd_addr c)) \<and> os_alloc os (card_dir c)
     \<and> os_file os (card_dir c @ ascii ''/vendor'') = Some (hex_text 4 (unat (cd_vendor c)) @ [0x0a])
     \<and> os_file os (card_dir c @ ascii ''/device'') = Some (hex_text 4 (unat (cd_device c)) @ [0x0a])
     \<and> os_file os (card_dir c @ ascii ''/subsystem_vendor'') = Some (hex_text 4 (unat (cd_subvendor c)) @ [0x0a])
     \<and> os_file os (card_dir c @ ascii ''/subsystem_device'') = Some (hex_text 4 (unat (cd_subdevice c)) @ [0x0a])
     \<and> os_file os (card_dir c @ ascii ''/class'') = Some (hex_text 6 (unat (cd_class c)) @ [0x0a])
     \<and> os_file os (card_dir c @ ascii ''/max_vfs'') = None
     \<and> os_file os (card_dir c @ ascii ''/resource'') = Some (concat (map resource_text (cd_res c)))"

definition card_device :: "card \<Rightarrow> rte_pci_device" where
  "card_device c = (pci_dev_zero (cd_addr c))
     \<lparr>pd_id := \<lparr>class_id = cd_class c, vendor_id = cd_vendor c, device_id = cd_device c, subsystem_vendor_id = cd_subvendor c,
        subsystem_device_id = cd_subdevice c\<rparr>,
      mem_resource := map res_of (cd_res c), pd_name := pci_pri_fmt (cd_addr c)\<rparr>"

lemma fmt_hex_bound: "v < 16 ^ n \<Longrightarrow> 0 < n \<Longrightarrow> length (fmt_hex k v) \<le> max k n"
  using num_chars_length [of 16 n v] by (simp add: fmt_hex_def Let_def)

lemma pri_fmt_length: "unat (pa_function a) < 10 \<Longrightarrow> length (pci_pri_fmt a) \<le> 16"
proof -
  assume f: "unat (pa_function a) < 10"
  have "unat (pa_domain a) < 16 ^ 8" "unat (pa_bus a) < 16 ^ 2" "unat (pa_devid a) < 16 ^ 2"
    using unsigned_less [of "pa_domain a", where 'a = nat] unsigned_less [of "pa_bus a", where 'a = nat]
      unsigned_less [of "pa_devid a", where 'a = nat] by simp_all
  then have "length (fmt_hex 4 (unat (pa_domain a))) \<le> 8" "length (fmt_hex 2 (unat (pa_bus a))) \<le> 2" "length (fmt_hex 2 (unat (pa_devid a))) \<le> 2"
    using fmt_hex_bound [of "unat (pa_domain a)" 8 4] fmt_hex_bound [of "unat (pa_bus a)" 2 2]
      fmt_hex_bound [of "unat (pa_devid a)" 2 2] by simp_all
  then show ?thesis unfolding pci_pri_fmt_def using fmt_hex_small [OF f] by simp
qed

lemma card_paths:
  assumes "unat (pa_function (cd_addr c)) < 10" "length file \<le> 100"
  shows "path (card_dir c) file = card_dir c @ ascii file"
proof -
  have "length (card_dir c) \<le> 40" using pri_fmt_length [OF assms(1)] by (simp add: card_dir_def sys_devices_def ascii_def)
  then show ?thesis using assms(2) by (simp add: path_def snprintf_def PATH_MAX_def ascii_def)
qed

lemma word_value:
  assumes "os_file os p = Some (hex_text k (unat (x :: 'a::len word)) @ [0x0a])" "LENGTH('a) \<le> 64" "k \<le> 16"
  shows "parse_sysfs_value os p = Some (ucast x)"
proof -
  have "unat x < 2 ^ LENGTH('a)" by (rule unsigned_less)
  also have "\<dots> \<le> 2 ^ 64" using assms(2) by (intro power_increasing) simp_all
  finally show ?thesis using sysfs_value [OF assms(1) _ assms(3)] by simp
qed

lemma setup_card:
  assumes "in_sysfs os c"
  shows "pci_setup_device os (card_dir c) (cd_addr c) = Some (Some (card_device c))"
    "parse_sysfs_value os (path (card_dir c) ''/vendor'') = Some (ucast (cd_vendor c))"
    "parse_sysfs_value os (path (card_dir c) ''/device'') = Some (ucast (cd_device c))"
proof -
  have f: "unat (pa_function (cd_addr c)) < 10" and n: "length (cd_res c) = PCI_MAX_RESOURCE" "unat (cd_class c) < 2 ^ 24"
    and al: "os_alloc os (card_dir c)" using assms by (simp_all add: in_sysfs_def)
  note pth = card_paths [OF f]
  have fl: "os_file os (card_dir c @ ascii ''/vendor'') = Some (hex_text 4 (unat (cd_vendor c)) @ [0x0a])"
    "os_file os (card_dir c @ ascii ''/device'') = Some (hex_text 4 (unat (cd_device c)) @ [0x0a])"
    "os_file os (card_dir c @ ascii ''/subsystem_vendor'') = Some (hex_text 4 (unat (cd_subvendor c)) @ [0x0a])"
    "os_file os (card_dir c @ ascii ''/subsystem_device'') = Some (hex_text 4 (unat (cd_subdevice c)) @ [0x0a])"
    "os_file os (card_dir c @ ascii ''/class'') = Some (hex_text 6 (unat (cd_class c)) @ [0x0a])"
    "os_file os (card_dir c @ ascii ''/max_vfs'') = None" using assms by (simp_all add: in_sysfs_def)
  have v: "parse_sysfs_value os (path (card_dir c) ''/vendor'') = Some (ucast (cd_vendor c))"
    "parse_sysfs_value os (path (card_dir c) ''/device'') = Some (ucast (cd_device c))"
    "parse_sysfs_value os (path (card_dir c) ''/subsystem_vendor'') = Some (ucast (cd_subvendor c))"
    "parse_sysfs_value os (path (card_dir c) ''/subsystem_device'') = Some (ucast (cd_subdevice c))"
    "parse_sysfs_value os (path (card_dir c) ''/class'') = Some (ucast (cd_class c))"
    "parse_sysfs_value os (path (card_dir c) ''/max_vfs'') = None"
    using word_value [OF fl(1)] word_value [OF fl(2)] word_value [OF fl(3)] word_value [OF fl(4)] word_value [OF fl(5)] fl(6)
    by (simp_all add: pth parse_sysfs_value_def [of os "_ @ ascii ''/max_vfs''"])
  have "bit (cd_class c) i \<Longrightarrow> i < 24" for i using n(2) unat_less_bits [of "cd_class c" 24] by blast
  moreover have m: "PCI_CLASS_ANY_ID = mask 24" by (simp add: PCI_CLASS_ANY_ID_def mask_eq_exp_minus_1)
  ultimately have cl: "ucast (ucast (cd_class c) :: u64) AND PCI_CLASS_ANY_ID = cd_class c"
    unfolding m by (intro bit_word_eqI) (auto simp: bit_and_iff bit_mask_iff bit_unsigned_iff)
  have nm: "snprintf (PCI_PRI_STR_SIZE + 1) (pci_pri_fmt (cd_addr c)) = pci_pri_fmt (cd_addr c)"
    using pri_fmt_length [OF f] by (simp add: snprintf_def PCI_PRI_STR_SIZE_def)
  let ?dev = "(pci_dev_zero (cd_addr c))\<lparr>pd_id := \<lparr>class_id = cd_class c, vendor_id = cd_vendor c, device_id = cd_device c,
      subsystem_vendor_id = cd_subvendor c, subsystem_device_id = cd_subdevice c\<rparr>, pd_name := pci_pri_fmt (cd_addr c)\<rparr>"
  have "resource_loop [0..<PCI_MAX_RESOURCE] (concat (map resource_text (cd_res c))) ?dev = Some (Some (?dev\<lparr>mem_resource := map res_of (cd_res c)\<rparr>))"
    using resources_read [of ?dev "[]" "cd_res c" "[]"] n(1) by (simp add: pci_dev_zero_def no_resource_def)
  then have "pci_parse_sysfs_resource os (path (card_dir c) ''/resource'') ?dev = Some (Some (card_device c))"
    using assms pth by (simp add: in_sysfs_def pci_parse_sysfs_resource_def card_device_def)
  then show "pci_setup_device os (card_dir c) (cd_addr c) = Some (Some (card_device c))"
    using al v cl nm ucast_back by (simp add: pci_setup_device_def)
  show "parse_sysfs_value os (path (card_dir c) ''/vendor'') = Some (ucast (cd_vendor c))"
    "parse_sysfs_value os (path (card_dir c) ''/device'') = Some (ucast (cd_device c))" by (rule v)+
qed

text \<open>Entries that the loop passes over.\<close>

definition scan_skips :: "pci_os \<Rightarrow> u8 list \<Rightarrow> bool" where
  "scan_skips os e \<longleftrightarrow> e \<noteq> [] \<and> e ! 0 = 0x2e \<or> parse_pci_addr_format (os_alloc os e) e D_NAME_SIZE = Some None
     \<or> (\<exists>a. parse_pci_addr_format (os_alloc os e) e D_NAME_SIZE = Some (Some a)
         \<and> (case (parse_sysfs_value os (path (sys_devices @ 0x2f # e) ''/vendor''), parse_sysfs_value os (path (sys_devices @ 0x2f # e) ''/device'')) of
               (Some v, Some d) \<Rightarrow> \<not> scan_match v d | _ \<Rightarrow> True))"

lemma scan_skip: "\<forall>e\<in>set es. scan_skips os e \<Longrightarrow> scan_loop os (es @ fs) = scan_loop os fs"
proof (induction es)
  case (Cons e es)
  then show ?case by (cases "e \<noteq> [] \<and> e ! 0 = 0x2e") (auto simp: scan_skips_def split: option.splits)
qed simp

lemma scan_finds:
  assumes "os_list os (sys_devices @ [0x2f]) = Some (es @ pci_pri_fmt (cd_addr c) # fs)" "\<forall>e\<in>set es. scan_skips os e"
    and "in_sysfs os c" "scan_match (ucast (cd_vendor c)) (ucast (cd_device c))"
  shows "pci_scan os = Some (Some (card_device c))"
proof -
  let ?e = "pci_pri_fmt (cd_addr c)"
  have f: "unat (pa_function (cd_addr c)) < 10" and al: "os_alloc os ?e" using assms(3) by (simp_all add: in_sysfs_def)
  have p: "parse_pci_addr_format (os_alloc os ?e) ?e D_NAME_SIZE = Some (Some (cd_addr c))"
    using addr_roundtrip [OF f, of D_NAME_SIZE] pri_fmt_length [OF f] al by (simp add: D_NAME_SIZE_def)
  have ne: "?e \<noteq> []" "?e ! 0 = fmt_hex 4 (unat (pa_domain (cd_addr c))) ! 0" by (simp_all add: pci_pri_fmt_def nth_append)
  then have dot: "\<not> (?e \<noteq> [] \<and> ?e ! 0 = 0x2e)"
    using fmt_hex_clean(3) [OF nth_mem [of 0 "fmt_hex 4 (unat (pa_domain (cd_addr c)))"]] by simp
  have d: "sys_devices @ 0x2f # ?e = card_dir c" "path (card_dir c) [] = card_dir c"
    using card_paths [OF f, of "[]"] by (simp_all add: card_dir_def ascii_def)
  have "scan_loop os (?e # fs) = Some (Some (card_device c))"
    unfolding scan_loop.simps if_not_P [OF dot] using p setup_card [OF assms(3)] assms(4) by (simp add: d)
  then show ?thesis using assms(1) scan_skip [OF assms(2)] by (simp add: pci_scan_def)
qed

section \<open>The mapping\<close>

definition mapped :: "pci_os \<Rightarrow> rte_pci_addr \<Rightarrow> nat \<Rightarrow> rte_mem_resource \<Rightarrow> rte_mem_resource" where
  "mapped os a i r = (if mr_phys_addr r = 0 then r else r\<lparr>mr_addr := the (os_mmap os (resource_path a i) (mr_len r))\<rparr>)"

definition can_map :: "pci_os \<Rightarrow> rte_pci_addr \<Rightarrow> nat \<Rightarrow> rte_mem_resource \<Rightarrow> bool" where
  "can_map os a i r \<longleftrightarrow> mr_phys_addr r \<noteq> 0 \<longrightarrow>
     0 \<le> os_open os (resource_path a i) \<and> os_mmap os (resource_path a i) (mr_len r) \<noteq> None"

lemma map_loop_all:
  assumes "mem_resource dev = xs @ rs" "\<forall>i<length rs. can_map os (pd_addr dev) (length xs + i) (rs ! i)"
  shows "map_loop os [length xs..<length xs + length rs] dev =
    (0, dev\<lparr>mem_resource := xs @ map (\<lambda>i. mapped os (pd_addr dev) (length xs + i) (rs ! i)) [0..<length rs]\<rparr>)"
  using assms
proof (induction rs arbitrary: xs dev)
  case (Cons r rs)
  let ?a = "pd_addr dev" let ?r = "mapped os ?a (length xs) r" let ?dev = "dev\<lparr>mem_resource := (xs @ [?r]) @ rs\<rparr>"
  have u: "[length xs..<length xs + length (r # rs)] = length xs # [length (xs @ [?r])..<length (xs @ [?r]) + length rs]"
    by (subst upt_conv_Cons) simp_all
  have c: "can_map os ?a (length xs) r" using Cons.prems(2) by force
  have "map_loop os (length xs # js) dev = map_loop os js ?dev" for js
  proof (cases "mr_phys_addr r = 0")
    case True
    then have "?dev = dev" using Cons.prems(1) by (simp add: mapped_def)
    then show ?thesis using True Cons.prems(1) by simp
  next
    case False
    then obtain m where m: "os_mmap os (resource_path ?a (length xs)) (mr_len r) = Some m" "\<not> os_open os (resource_path ?a (length xs)) < 0"
      using c by (auto simp: can_map_def)
    then show ?thesis using False Cons.prems(1) by (simp add: mapped_def)
  qed
  moreover have "map_loop os [length (xs @ [?r])..<length (xs @ [?r]) + length rs] ?dev =
      (0, ?dev\<lparr>mem_resource := (xs @ [?r]) @ map (\<lambda>i. mapped os (pd_addr ?dev) (length (xs @ [?r]) + i) (rs ! i)) [0..<length rs]\<rparr>)"
    by (rule Cons.IH) (use Cons.prems(2) in force)+
  moreover have "map (\<lambda>i. mapped os ?a (length xs + i) ((r # rs) ! i)) [0..<length (r # rs)] =
      ?r # map (\<lambda>i. mapped os ?a (Suc (length xs) + i) (rs ! i)) [0..<length rs]"
    by (simp add: upt_conv_Cons map_Suc_upt [symmetric] del: upt_Suc)
  ultimately show ?case unfolding u by simp
qed simp

lemma map_device:
  assumes "pci_get_device os dev = (0, dev1)" "length (mem_resource dev) = PCI_MAX_RESOURCE"
    and "\<forall>i<PCI_MAX_RESOURCE. can_map os (pd_addr dev) i (mem_resource dev ! i)"
  shows "pci_map_device os dev = (0, dev1\<lparr>mem_resource := map (\<lambda>i. mapped os (pd_addr dev) i (mem_resource dev ! i)) [0..<PCI_MAX_RESOURCE]\<rparr>)"
proof -
  have "pd_addr dev1 = pd_addr dev" "mem_resource dev1 = mem_resource dev"
    using assms(1) by (auto simp: pci_get_device_def Let_def split: option.splits if_splits)
  then show ?thesis using map_loop_all [of dev1 "[]" "mem_resource dev" os] assms by (simp add: pci_map_device_def)
qed

section \<open>The interrupt file\<close>

lemma fmt_dec_digits: "digit_chars 10 (fmt_dec v)" "digits_val 10 (fmt_dec v) = v" "zfree (fmt_dec v)"
proof -
  show d: "digit_chars 10 (fmt_dec v)" "digits_val 10 (fmt_dec v) = v" using num_chars_digits [of 10 v] by (simp_all add: fmt_dec_def)
  show "zfree (fmt_dec v)" using digit_chars_val(7) [OF d(1)] by (auto simp: zfree_def)
qed

text \<open>The number of the first entry \<open>uio<n>\<close>.\<close>

lemma uio_found:
  assumes "\<forall>e\<in>set es. take 3 e \<noteq> ascii ''uio''"
  shows "uio_search os (es @ (ascii ''uio'' @ fmt_dec (unat k)) # fs) = Some k"
  using assms
proof (induction es)
  case Nil
  let ?e = "ascii ''uio'' @ fmt_dec (unat k)"
  have l: "length (ascii ''uio'') = 3" by (simp add: ascii_def)
  have "unat k < 2 ^ 64" using unsigned_less [of k, where 'a = nat] by simp
  then have "c_strtoul 10 (fmt_dec (unat k)) = (of_nat (unat k), False, length (fmt_dec (unat k)))"
    using strtoul_digits [OF fmt_dec_digits(1), of "unat k"] fmt_dec_digits(2) [of "unat k"] by simp
  moreover have "d_name_at os ?e 3 = fmt_dec (unat k)"
    using c_str_at [OF fmt_dec_digits(3), of "ascii ''uio''" "unat k" "os_tail os ?e @ [0]"] by (simp add: d_name_at_def l)
  moreover have "fmt_dec (unat k) \<noteq> []" using fmt_dec_digits(1) by (simp add: digit_chars_def)
  ultimately show ?case using l ucast_back(2) [of k] by simp
qed simp

definition uio_file :: "u32 \<Rightarrow> u8 list" where
  "uio_file k = snprintf PATH_MAX (ascii ''/dev/uio'' @ fmt_dec (unat k))"

definition uio_config :: "u32 \<Rightarrow> u8 list" where
  "uio_config k = snprintf PATH_MAX (ascii ''/sys/class/uio/uio'' @ fmt_dec (unat k) @ ascii ''/device/config'')"

lemma get_card:
  assumes "unat (pa_function (cd_addr c)) < 10" "pd_addr dev = cd_addr c"
    and "os_list os (card_dir c @ ascii ''/uio'') = Some (es @ (ascii ''uio'' @ fmt_dec (unat k)) # fs)"
    and "\<forall>e\<in>set es. take 3 e \<noteq> ascii ''uio''" "0 \<le> os_open os (uio_file k)" "0 \<le> os_open os (uio_config k)"
  shows "pci_get_device os dev =
    (0, dev\<lparr>pd_fd := os_open os (uio_file k), pd_uio_cfg_fd := os_open os (uio_config k), pd_uio := True\<rparr>)"
proof -
  have "path (sys_devices @ 0x2f # pci_pri_fmt (pd_addr dev)) ''/uio'' = card_dir c @ ascii ''/uio''"
    using card_paths [OF assms(1), of "''/uio''"] assms(2) by (simp add: card_dir_def)
  then show ?thesis using assms(3,5,6) uio_found [OF assms(4)]
    by (simp add: pci_get_device_def Let_def uio_file_def uio_config_def)
qed

section \<open>A card\<close>

text \<open>One card behind the entries \<open>.\<close> and \<open>..\<close>, with one memory resource of 16 MB.\<close>

definition a_card :: card where
  "a_card = \<lparr>cd_addr = \<lparr>pa_domain = 0, pa_bus = 5, pa_devid = 0, pa_function = 0\<rparr>, cd_vendor = 0x19ee, cd_device = 0x4000,
     cd_subvendor = 0x19ee, cd_subdevice = 0x4001, cd_class = 0x020000,
     cd_res = (0xe0000000, 0xe0ffffff, 0x14220c) # replicate 5 (0, 0, 0)\<rparr>"

definition a_system :: pci_os where
  "a_system = \<lparr>
     os_list = map_of [(sys_devices @ [0x2f], [[0x2e], [0x2e, 0x2e], pci_pri_fmt (cd_addr a_card)]),
       (card_dir a_card @ ascii ''/uio'', [[0x2e], ascii ''uio'' @ fmt_dec (unat (3 :: u32))])],
     os_file = map_of [(card_dir a_card @ ascii ''/vendor'', hex_text 4 (unat (cd_vendor a_card)) @ [0x0a]),
       (card_dir a_card @ ascii ''/device'', hex_text 4 (unat (cd_device a_card)) @ [0x0a]),
       (card_dir a_card @ ascii ''/subsystem_vendor'', hex_text 4 (unat (cd_subvendor a_card)) @ [0x0a]),
       (card_dir a_card @ ascii ''/subsystem_device'', hex_text 4 (unat (cd_subdevice a_card)) @ [0x0a]),
       (card_dir a_card @ ascii ''/class'', hex_text 6 (unat (cd_class a_card)) @ [0x0a]),
       (card_dir a_card @ ascii ''/resource'', concat (map resource_text (cd_res a_card)))],
     os_alloc = (\<lambda>_. True), os_tail = (\<lambda>_. []), os_open = (\<lambda>_. 7), os_mmap = (\<lambda>_ _. Some 0x7f0000000000),
     os_cfg_read = (\<lambda>_ _. None), os_lock_open = 8, os_lock_fcntl = []\<rparr>"

lemma a_system_card: "in_sysfs a_system a_card"
  by (simp add: in_sysfs_def a_system_def ascii_def) (simp add: a_card_def PCI_MAX_RESOURCE_def)

lemma a_system_lists:
  "os_list a_system (sys_devices @ [0x2f]) = Some ([[0x2e], [0x2e, 0x2e]] @ pci_pri_fmt (cd_addr a_card) # [])"
  "os_list a_system (card_dir a_card @ ascii ''/uio'') = Some ([[0x2e]] @ (ascii ''uio'' @ fmt_dec (unat (3 :: u32))) # [])"
  by (simp_all add: a_system_def card_dir_def ascii_def)

lemma a_system_mapped:
  "map (\<lambda>i. mapped a_system (cd_addr a_card) i (res_of (cd_res a_card ! i))) [0..<PCI_MAX_RESOURCE] =
    \<lparr>mr_phys_addr = 0xe0000000, mr_len = 0x1000000, mr_addr = 0x7f0000000000\<rparr> # replicate 5 no_resource"
proof -
  have u: "[0..<PCI_MAX_RESOURCE] = 0 # map Suc [0..<5]" by (simp add: PCI_MAX_RESOURCE_def upt_rec)
  have z: "mapped a_system (cd_addr a_card) (Suc i) (res_of (cd_res a_card ! Suc i)) = no_resource" if "i < 5" for i
    using that by (simp add: a_card_def mapped_def res_of_def no_resource_def)
  have "map (\<lambda>i. mapped a_system (cd_addr a_card) (Suc i) (res_of (cd_res a_card ! Suc i))) [0..<5] = replicate 5 no_resource"
    using z by (intro replicate_eqI) auto
  moreover have "mapped a_system (cd_addr a_card) 0 (res_of (cd_res a_card ! 0)) =
      \<lparr>mr_phys_addr = 0xe0000000, mr_len = 0x1000000, mr_addr = 0x7f0000000000\<rparr>"
    by (simp add: mapped_def res_of_def a_card_def a_system_def IORESOURCE_MEM_def)
  ultimately show ?thesis unfolding u by (simp add: comp_def)
qed

end
