(* ===== verification/Mem_Zone.thy ===== *)
theory Mem_Zone
  imports C_Text Byte_Codec
begin

text \<open>
  Memory that the card can reach (user/lib/memzone.c, memzone.h): a table of 1024 zones, each a mapped
  file of huge pages with its physical address. The allocator refines a map from handles to zones.
  The answers of the operating system are arguments (record \<open>mz_os\<close>).
\<close>

unbundle bit_operations_syntax

section \<open>State\<close>

definition MAX_MEMZONES :: nat where "MAX_MEMZONES = 1024"
definition MEMZONE_HANDLE_INVALID :: u16 where "MEMZONE_HANDLE_INVALID = 1025"
definition PFN_MASK_SIZE :: nat where "PFN_MASK_SIZE = 8"
definition MEMZONE_BAD_IOVA :: u64 where "MEMZONE_BAD_IOVA = -1"
definition MEMZONE_FILENAME_LEN :: nat where "MEMZONE_FILENAME_LEN = 64"
definition CFG_PAGE_SIZE :: u64 where "CFG_PAGE_SIZE = 0x1000"
definition HUGE_PAGE_SIZE :: u64 where "HUGE_PAGE_SIZE = 0x200000"

record memzone =
  iova :: u64
  mz_addr :: u64
  mz_len :: u64
  mz_flags :: u16
  handle :: u16

text \<open>The two static variables.\<close>

record memzones =
  mz :: "memzone list"
  free_mz :: u16

text \<open>A pointer to a zone: NULL, an element of the table, or a structure outside of it.\<close>

datatype mz_ptr = MzNull | MzZone nat | MzOther memzone

record mz_os =
  mo_open :: "u8 list \<Rightarrow> int"
  mo_mmap :: "u8 list \<Rightarrow> u64 \<Rightarrow> u64 option"
  mo_munmap :: "u64 \<Rightarrow> u64 \<Rightarrow> int"
  mo_pagemap_open :: int
  mo_pagemap_seek :: "u64 \<Rightarrow> bool"
  mo_pagemap_read :: "u64 \<Rightarrow> u8 list option"

section \<open>Operations\<close>

definition ALIGN_FLOOR :: "u64 \<Rightarrow> u64 \<Rightarrow> u64" where
  "ALIGN_FLOOR val align = val AND NOT (align - 1)"

definition ALIGN_CEIL :: "u64 \<Rightarrow> u64 \<Rightarrow> u64" where
  "ALIGN_CEIL val align = ALIGN_FLOOR (val + (align - 1)) align"

definition mem_virt2phy :: "mz_os \<Rightarrow> u64 \<Rightarrow> u64" where
  "mem_virt2phy os virtaddr =
     (if mo_pagemap_open os < 0 then MEMZONE_BAD_IOVA
      else
        let virt_pfn = virtaddr div CFG_PAGE_SIZE; offset = 8 * virt_pfn
        in if \<not> mo_pagemap_seek os offset then MEMZONE_BAD_IOVA
           else case mo_pagemap_read os offset of
             None \<Rightarrow> MEMZONE_BAD_IOVA
           | Some bs \<Rightarrow>
               if length bs \<noteq> PFN_MASK_SIZE then MEMZONE_BAD_IOVA
               else
                 let page = (le_word bs :: u64)
                 in if page AND 0x7fffffffffffff = 0 then MEMZONE_BAD_IOVA
                    else (page AND 0x7fffffffffffff) * CFG_PAGE_SIZE + virtaddr mod CFG_PAGE_SIZE)"

fun alloc_loop :: "nat list \<Rightarrow> memzones \<Rightarrow> nat option \<times> memzones" where
  "alloc_loop [] s = (None, s)"
| "alloc_loop (idx # is) s =
     (if handle (mz s ! idx) = MEMZONE_HANDLE_INVALID
      then (Some idx, s\<lparr>mz := (mz s)[idx := (mz s ! idx)\<lparr>handle := of_nat idx\<rparr>], free_mz := free_mz s - 1\<rparr>)
      else alloc_loop is s)"

definition alloc_memzone :: "memzones \<Rightarrow> nat option \<times> memzones" where
  "alloc_memzone s = (if free_mz s = 0 then (None, s) else alloc_loop [0..<MAX_MEMZONES] s)"

definition free_zone :: "nat \<Rightarrow> memzones \<Rightarrow> memzones" where
  "free_zone idx s = s\<lparr>mz := (mz s)[idx := (mz s ! idx)\<lparr>handle := MEMZONE_HANDLE_INVALID\<rparr>], free_mz := free_mz s + 1\<rparr>"

definition free_memzone :: "mz_ptr \<Rightarrow> memzones \<Rightarrow> memzones" where
  "free_memzone p s =
     (case p of
        MzNull \<Rightarrow> s
      | MzZone i \<Rightarrow>
          let idx = unat (handle (mz s ! i))
          in if idx \<ge> MAX_MEMZONES then s else if i \<noteq> idx then s else free_zone idx s
      | MzOther z \<Rightarrow> s)"

definition memzone_file :: "u16 \<Rightarrow> u8 list" where
  "memzone_file h = snprintf MEMZONE_FILENAME_LEN (ascii ''/mnt/huge/memzone-'' @ fmt_dec (unat h))"

definition memzone_reserve :: "mz_os \<Rightarrow> u64 \<Rightarrow> memzones \<Rightarrow> nat option \<times> memzones" where
  "memzone_reserve os len s =
     (let len = ALIGN_CEIL len HUGE_PAGE_SIZE
      in case alloc_memzone s of
           (None, s) \<Rightarrow> (None, s)
         | (Some i, s) \<Rightarrow>
             let filename = memzone_file (handle (mz s ! i))
             in if mo_open os filename < 0 then (None, free_memzone (MzZone i) s)
                else case mo_mmap os filename len of
                  None \<Rightarrow> (None, free_memzone (MzZone i) s)
                | Some addr \<Rightarrow>
                    let phyaddr = mem_virt2phy os addr
                    in if phyaddr = MEMZONE_BAD_IOVA then (None, free_memzone (MzZone i) s)
                       else (Some i, s\<lparr>mz := (mz s)[i := (mz s ! i)\<lparr>mz_addr := addr, mz_len := len, iova := phyaddr, mz_flags := 0\<rparr>]\<rparr>))"

text \<open>The zone that a pointer leads to; reading it decides what is unmapped.\<close>

definition memzone_free :: "mz_os \<Rightarrow> mz_ptr \<Rightarrow> memzones \<Rightarrow> int \<times> memzones" where
  "memzone_free os p s =
     (case p of
        MzNull \<Rightarrow> (0, s)
      | MzZone i \<Rightarrow> (mo_munmap os (mz_addr (mz s ! i)) (mz_len (mz s ! i)), free_memzone p s)
      | MzOther z \<Rightarrow> (mo_munmap os (mz_addr z) (mz_len z), free_memzone p s))"

fun init_loop :: "nat list \<Rightarrow> memzones \<Rightarrow> memzones" where
  "init_loop [] s = s"
| "init_loop (idx # is) s = init_loop is (s\<lparr>mz := (mz s)[idx := (mz s ! idx)\<lparr>handle := MEMZONE_HANDLE_INVALID\<rparr>]\<rparr>)"

definition memzone_init :: "memzones \<Rightarrow> memzones" where
  "memzone_init s = (init_loop [0..<MAX_MEMZONES] s)\<lparr>free_mz := of_nat MAX_MEMZONES\<rparr>"

section \<open>The invariant\<close>

text \<open>A zone in use carries its own index; the counter is the number of the others.\<close>

definition live :: "memzones \<Rightarrow> nat \<Rightarrow> bool" where
  "live s i \<longleftrightarrow> i < MAX_MEMZONES \<and> handle (mz s ! i) = of_nat i"

definition mz_wf :: "memzones \<Rightarrow> bool" where
  "mz_wf s \<longleftrightarrow> length (mz s) = MAX_MEMZONES
     \<and> (\<forall>i<MAX_MEMZONES. handle (mz s ! i) = of_nat i \<or> handle (mz s ! i) = MEMZONE_HANDLE_INVALID)
     \<and> unat (free_mz s) = card {i. i < MAX_MEMZONES \<and> \<not> live s i}"

text \<open>The abstract allocator: the zones in use.\<close>

definition zones :: "memzones \<Rightarrow> nat \<rightharpoonup> memzone" where
  "zones s i = (if live s i then Some (mz s ! i) else None)"

lemma of_nat_small: "i < MAX_MEMZONES \<Longrightarrow> unat (of_nat i :: u16) = i"
  by (simp add: MAX_MEMZONES_def unat_of_nat)

lemma not_invalid: "i < MAX_MEMZONES \<Longrightarrow> (of_nat i :: u16) \<noteq> MEMZONE_HANDLE_INVALID"
  using of_nat_small [of i] by (auto simp: MAX_MEMZONES_def MEMZONE_HANDLE_INVALID_def)

lemma live_invalid: "mz_wf s \<Longrightarrow> i < MAX_MEMZONES \<Longrightarrow> \<not> live s i \<longleftrightarrow> handle (mz s ! i) = MEMZONE_HANDLE_INVALID"
  using not_invalid [of i] by (auto simp: mz_wf_def live_def)

lemma live_update:
  assumes "length (mz s) = MAX_MEMZONES" "i < MAX_MEMZONES"
  shows "live (s\<lparr>mz := (mz s)[i := z], free_mz := k\<rparr>) j \<longleftrightarrow> (if j = i then handle z = of_nat i else live s j)"
  using assms by (auto simp: live_def)

text \<open>Taking a free zone into use, giving one back, and filling one in.\<close>

lemma wf_take:
  assumes "mz_wf s" "i < MAX_MEMZONES" "\<not> live s i" "handle z = of_nat i"
  shows "mz_wf (s\<lparr>mz := (mz s)[i := z], free_mz := free_mz s - 1\<rparr>)"
proof -
  have l: "length (mz s) = MAX_MEMZONES" using assms(1) by (simp add: mz_wf_def)
  let ?s = "s\<lparr>mz := (mz s)[i := z], free_mz := free_mz s - 1\<rparr>" and ?F = "\<lambda>s. {i. i < MAX_MEMZONES \<and> \<not> live s i}"
  have F: "?F ?s = ?F s - {i}" using live_update [OF l assms(2)] assms(4) by auto
  have c: "card (?F s) = unat (free_mz s)" "i \<in> ?F s" "finite (?F s)" using assms by (simp_all add: mz_wf_def)
  then have "free_mz s \<noteq> 0" by (metis card_0_eq empty_iff unat_0)
  then have "unat (free_mz s - 1) = unat (free_mz s) - 1" by (rule unat_minus_one)
  then show ?thesis using assms(1,2,4) c F by (auto simp: mz_wf_def nth_list_update)
qed

lemma wf_give:
  assumes "mz_wf s" "live s i"
  shows "mz_wf (free_zone i s)" "live (free_zone i s) j \<longleftrightarrow> j \<noteq> i \<and> live s j"
proof -
  have l: "length (mz s) = MAX_MEMZONES" and i: "i < MAX_MEMZONES" using assms by (simp_all add: mz_wf_def live_def)
  let ?F = "\<lambda>s. {i. i < MAX_MEMZONES \<and> \<not> live s i}"
  show L: "live (free_zone i s) j \<longleftrightarrow> j \<noteq> i \<and> live s j" for j
    unfolding free_zone_def live_update [OF l i] using not_invalid [OF i] by simp
  have F: "?F (free_zone i s) = insert i (?F s)" using L i by auto
  have c: "card (?F s) = unat (free_mz s)" "i \<notin> ?F s" "finite (?F s)" using assms by (simp_all add: mz_wf_def)
  have "insert i (?F s) \<subseteq> {..<MAX_MEMZONES}" using i by auto
  then have "card (insert i (?F s)) \<le> MAX_MEMZONES" using card_mono [of "{..<MAX_MEMZONES}"] by simp
  then have "unat (free_mz s) + 1 < 2 ^ 16" using c by (simp add: MAX_MEMZONES_def)
  then have "unat (free_mz s + 1) = unat (free_mz s) + 1" by (simp add: unat_word_ariths)
  moreover have "card (?F (free_zone i s)) = unat (free_mz s) + 1" unfolding F using c by simp
  moreover have "free_mz (free_zone i s) = free_mz s + 1" by (simp add: free_zone_def)
  ultimately show "mz_wf (free_zone i s)"
    using assms(1) i by (auto simp: mz_wf_def free_zone_def nth_list_update)
qed

section \<open>Allocation\<close>

lemma alloc_loop_least:
  assumes "\<forall>j\<in>set is. j < MAX_MEMZONES" "mz_wf s"
  shows "alloc_loop is s = (case List.find (\<lambda>i. \<not> live s i) is of
     None \<Rightarrow> (None, s)
   | Some i \<Rightarrow> (Some i, s\<lparr>mz := (mz s)[i := (mz s ! i)\<lparr>handle := of_nat i\<rparr>], free_mz := free_mz s - 1\<rparr>))"
  using assms(1)
proof (induction "is")
  case (Cons i "is")
  then show ?case using live_invalid [OF assms(2), of i] by (auto split: option.splits)
qed simp

lemma free_exists: "mz_wf s \<Longrightarrow> free_mz s = 0 \<longleftrightarrow> (\<forall>i<MAX_MEMZONES. live s i)"
proof -
  assume wf: "mz_wf s"
  have "free_mz s = 0 \<longleftrightarrow> card {i. i < MAX_MEMZONES \<and> \<not> live s i} = 0" using wf by (metis mz_wf_def unat_eq_zero)
  then show ?thesis by auto
qed

lemma find_upt: "i < n \<Longrightarrow> P i \<Longrightarrow> (\<And>j. j < i \<Longrightarrow> \<not> P j) \<Longrightarrow> List.find P [0..<n] = Some i"
  unfolding find_Some_iff by (rule exI [of _ i]) simp

lemma least_free:
  assumes "k < MAX_MEMZONES" "\<not> live s k"
  shows "\<not> live s (LEAST i. \<not> live s i)" "(LEAST i. \<not> live s i) < MAX_MEMZONES" "j < (LEAST i. \<not> live s i) \<Longrightarrow> live s j"
proof -
  show "\<not> live s (LEAST i. \<not> live s i)" by (rule LeastI [of "\<lambda>i. \<not> live s i", OF assms(2)])
  have "(LEAST i. \<not> live s i) \<le> k" by (rule Least_le [of "\<lambda>i. \<not> live s i", OF assms(2)])
  then show "(LEAST i. \<not> live s i) < MAX_MEMZONES" using assms(1) by simp
  show "j < (LEAST i. \<not> live s i) \<Longrightarrow> live s j" using not_less_Least by blast
qed

text \<open>The allocation takes the least free index, and fails only when all zones are in use.\<close>

lemma alloc_least:
  assumes "mz_wf s"
  shows "alloc_memzone s = (if \<forall>i<MAX_MEMZONES. live s i then (None, s)
    else let i = (LEAST i. \<not> live s i) in
      (Some i, s\<lparr>mz := (mz s)[i := (mz s ! i)\<lparr>handle := of_nat i\<rparr>], free_mz := free_mz s - 1\<rparr>))"
proof (cases "\<forall>i<MAX_MEMZONES. live s i")
  case True
  then show ?thesis using free_exists [OF assms] by (simp add: alloc_memzone_def)
next
  case False
  let ?i = "LEAST i. \<not> live s i"
  obtain k where k: "k < MAX_MEMZONES" "\<not> live s k" using False by blast
  note i = least_free [OF k]
  have "List.find (\<lambda>i. \<not> live s i) [0..<MAX_MEMZONES] = Some ?i" by (rule find_upt) (use i in blast)+
  then show ?thesis
    using False free_exists [OF assms] alloc_loop_least [OF _ assms, of "[0..<MAX_MEMZONES]"] by (simp add: alloc_memzone_def Let_def)
qed

lemma free_memzone_zone:
  "mz_wf s \<Longrightarrow> i < MAX_MEMZONES \<Longrightarrow> free_memzone (MzZone i) s = (if live s i then free_zone i s else s)"
proof (cases "live s i")
  case True
  assume i: "i < MAX_MEMZONES"
  have "unat (handle (mz s ! i)) = i" using True of_nat_small [OF i] by (simp add: live_def)
  then show ?thesis using True i by (simp add: free_memzone_def)
next
  case False
  assume "mz_wf s" "i < MAX_MEMZONES"
  then have "unat (handle (mz s ! i)) = 1025" using live_invalid [of s i] False by (simp add: MEMZONE_HANDLE_INVALID_def)
  then show ?thesis using False by (simp add: free_memzone_def MAX_MEMZONES_def)
qed

text \<open>An allocation that is given back leaves the table as it was.\<close>

lemma take_give:
  assumes "mz_wf s" "i < MAX_MEMZONES" "\<not> live s i"
  shows "free_memzone (MzZone i) (s\<lparr>mz := (mz s)[i := (mz s ! i)\<lparr>handle := of_nat i\<rparr>], free_mz := free_mz s - 1\<rparr>) = s"
proof -
  let ?t = "s\<lparr>mz := (mz s)[i := (mz s ! i)\<lparr>handle := of_nat i\<rparr>], free_mz := free_mz s - 1\<rparr>"
  have l: "length (mz s) = MAX_MEMZONES" using assms(1) by (simp add: mz_wf_def)
  have "mz_wf ?t" by (rule wf_take) (use assms in simp_all)
  moreover have "live ?t i" unfolding live_update [OF l assms(2)] by simp
  ultimately have "free_memzone (MzZone i) ?t = free_zone i ?t" using free_memzone_zone assms(2) by simp
  also have "\<dots> = s"
  proof -
    have h: "handle (mz s ! i) = MEMZONE_HANDLE_INVALID" using live_invalid [OF assms(1,2)] assms(3) by simp
    then have "(mz s ! i)\<lparr>handle := MEMZONE_HANDLE_INVALID\<rparr> = mz s ! i" by (cases "mz s ! i") simp
    then show ?thesis using assms(2) l by (simp add: free_zone_def)
  qed
  finally show ?thesis .
qed

section \<open>Reservation and release\<close>

text \<open>What a successful reservation puts into the zone.\<close>

definition new_zone :: "mz_os \<Rightarrow> u64 \<Rightarrow> nat \<Rightarrow> memzone \<Rightarrow> bool" where
  "new_zone os len i z \<longleftrightarrow> handle z = of_nat i \<and> mz_len z = ALIGN_CEIL len HUGE_PAGE_SIZE \<and> mz_flags z = 0
     \<and> 0 \<le> mo_open os (memzone_file (of_nat i)) \<and> mo_mmap os (memzone_file (of_nat i)) (mz_len z) = Some (mz_addr z)
     \<and> iova z = mem_virt2phy os (mz_addr z) \<and> iova z \<noteq> MEMZONE_BAD_IOVA"

lemma zones_eqI: "(\<And>j. live s j \<longleftrightarrow> live t j) \<Longrightarrow> (\<And>j. live s j \<Longrightarrow> mz s ! j = mz t ! j) \<Longrightarrow> zones s = zones t"
  by (rule ext) (simp add: zones_def)

lemma reserve_cases:
  assumes "mz_wf s"
  obtains (fails) "memzone_reserve os len s = (None, s)"
  | (works) i z s' where "memzone_reserve os len s = (Some i, s')" "i = (LEAST i. \<not> live s i)" "i < MAX_MEMZONES" "\<not> live s i"
      "mz_wf s'" "zones s' = (zones s)(i \<mapsto> z)" "new_zone os len i z" "mz s' ! i = z"
proof (cases "\<forall>i<MAX_MEMZONES. live s i")
  case True
  then show ?thesis using fails alloc_least [OF assms] by (simp add: memzone_reserve_def)
next
  case False
  let ?i = "LEAST i. \<not> live s i" let ?t = "s\<lparr>mz := (mz s)[?i := (mz s ! ?i)\<lparr>handle := of_nat ?i\<rparr>], free_mz := free_mz s - 1\<rparr>"
  obtain k where k: "k < MAX_MEMZONES" "\<not> live s k" using False by blast
  note i = least_free(1,2) [OF k]
  have l: "length (mz s) = MAX_MEMZONES" using assms by (simp add: mz_wf_def)
  have al: "alloc_memzone s = (Some ?i, ?t)" using False by (simp add: alloc_least [OF assms] Let_def)
  have h: "handle (mz ?t ! ?i) = of_nat ?i" using i(2) l by simp
  note undo = take_give [OF assms i(2,1)]
  let ?len = "ALIGN_CEIL len HUGE_PAGE_SIZE" and ?f = "memzone_file (of_nat ?i)"
  show ?thesis
  proof (cases "mo_open os ?f < 0 \<or> mo_mmap os ?f ?len = None \<or> mem_virt2phy os (the (mo_mmap os ?f ?len)) = MEMZONE_BAD_IOVA")
    case True
    then have "memzone_reserve os len s = (None, s)"
      unfolding memzone_reserve_def Let_def al prod.case option.case h undo by (auto split: option.splits)
    then show ?thesis by (rule fails)
  next
    case ok: False
    then obtain a where a: "mo_mmap os ?f ?len = Some a" by auto
    let ?z = "(mz s ! ?i)\<lparr>handle := of_nat ?i, mz_addr := a, mz_len := ?len, iova := mem_virt2phy os a, mz_flags := 0\<rparr>"
    let ?s = "s\<lparr>mz := (mz s)[?i := ?z], free_mz := free_mz s - 1\<rparr>"
    have "memzone_reserve os len s = (Some ?i, ?s)"
      unfolding memzone_reserve_def Let_def al prod.case option.case h using ok a i(2) l by simp
    moreover have "mz_wf ?s" by (rule wf_take [OF assms i(2,1)]) simp
    moreover have "zones ?s = (zones s)(?i \<mapsto> ?z)"
    proof
      fix j
      show "zones ?s j = ((zones s)(?i \<mapsto> ?z)) j"
        unfolding zones_def live_update [OF l i(2)] using i(2) l by simp
    qed
    moreover have "new_zone os len ?i ?z" using ok a by (simp add: new_zone_def)
    moreover have "mz ?s ! ?i = ?z" using i(2) l by simp
    ultimately show ?thesis using works i by blast
  qed
qed

text \<open>With a free zone and an operating system that gives memory, the reservation succeeds.\<close>

lemma reserve_succeeds:
  assumes "mz_wf s" "zones s = (\<lambda>_. None)" "\<forall>f. 0 \<le> mo_open os f" "\<forall>f. mo_mmap os f (ALIGN_CEIL len HUGE_PAGE_SIZE) = Some a"
    and "mem_virt2phy os a \<noteq> MEMZONE_BAD_IOVA"
  shows "memzone_reserve os len s \<noteq> (None, s)"
proof -
  have "\<not> live s j" for j using assms(2) by (metis option.discI zones_def)
  then have "\<not> (\<forall>i<MAX_MEMZONES. live s i)" by (auto simp: MAX_MEMZONES_def intro: exI [of _ 0])
  moreover have "\<not> mo_open os f < 0" for f using assms(3) by (simp add: not_less)
  ultimately show ?thesis using assms(4,5) by (simp add: memzone_reserve_def alloc_least [OF assms(1)] Let_def)
qed

lemma release_refines:
  assumes "mz_wf s" "i < MAX_MEMZONES" "memzone_free os (MzZone i) s = (r, s')"
  shows "mz_wf s'" "zones s' = (zones s)(i := None)" "r = mo_munmap os (mz_addr (mz s ! i)) (mz_len (mz s ! i))"
proof -
  have s': "s' = (if live s i then free_zone i s else s)" and r: "r = mo_munmap os (mz_addr (mz s ! i)) (mz_len (mz s ! i))"
    using assms(3) free_memzone_zone [OF assms(1,2)] by (simp_all add: memzone_free_def)
  show "mz_wf s'" using s' assms(1) wf_give(1) by simp
  have "zones s' j = ((zones s)(i := None)) j" for j
  proof (cases "live s i")
    case True
    then show ?thesis using s' wf_give(2) [OF assms(1) True, of j] by (auto simp: zones_def free_zone_def)
  qed (use s' in \<open>simp add: zones_def\<close>)
  then show "zones s' = (zones s)(i := None)" by blast
  show "r = mo_munmap os (mz_addr (mz s ! i)) (mz_len (mz s ! i))" by (rule r)
qed

lemma init_wf:
  assumes "length (mz s) = MAX_MEMZONES"
  shows "mz_wf (memzone_init s)" "zones (memzone_init s) = (\<lambda>_. None)"
proof -
  have L: "length (mz (init_loop is s)) = length (mz s)
      \<and> (\<forall>j. j < length (mz s) \<and> j \<in> set is \<longrightarrow> handle (mz (init_loop is s) ! j) = MEMZONE_HANDLE_INVALID)
      \<and> (\<forall>j. j \<notin> set is \<longrightarrow> mz (init_loop is s) ! j = mz s ! j)" for "is" s
  proof (induction "is" arbitrary: s)
    case (Cons i "is")
    let ?s = "s\<lparr>mz := (mz s)[i := (mz s ! i)\<lparr>handle := MEMZONE_HANDLE_INVALID\<rparr>]\<rparr>"
    show ?case
    proof (intro conjI allI impI)
      fix j assume j: "j < length (mz s) \<and> j \<in> set (i # is)"
      show "handle (mz (init_loop (i # is) s) ! j) = MEMZONE_HANDLE_INVALID"
        using Cons.IH [of ?s] j by (cases "j \<in> set is") auto
    qed (use Cons.IH [of ?s] in auto)
  qed simp
  have h: "handle (mz (memzone_init s) ! j) = MEMZONE_HANDLE_INVALID" if "j < MAX_MEMZONES" for j
    using L [of "[0..<MAX_MEMZONES]" s] assms that by (simp add: memzone_init_def)
  then have n: "\<not> live (memzone_init s) j" for j using not_invalid [of j] by (auto simp: live_def)
  have "{i. i < MAX_MEMZONES \<and> \<not> live (memzone_init s) i} = {..<MAX_MEMZONES}" using n by auto
  then show "mz_wf (memzone_init s)"
    using h L [of "[0..<MAX_MEMZONES]" s] assms by (simp add: mz_wf_def memzone_init_def MAX_MEMZONES_def)
  show "zones (memzone_init s) = (\<lambda>_. None)" by (rule ext) (simp add: zones_def n)
qed

text \<open>The rounding, and the translation inside of a page.\<close>

lemma align_ceil:
  assumes "unat len \<le> 2 ^ 64 - 2 ^ 21"
  shows "unat len \<le> unat (ALIGN_CEIL len HUGE_PAGE_SIZE)" "2 ^ 21 dvd unat (ALIGN_CEIL len HUGE_PAGE_SIZE)"
    "unat (ALIGN_CEIL len HUGE_PAGE_SIZE) < unat len + 2 ^ 21"
proof -
  let ?x = "len + (HUGE_PAGE_SIZE - 1)"
  have hp: "unat (HUGE_PAGE_SIZE - 1) = 2 ^ 21 - 1" by (simp add: HUGE_PAGE_SIZE_def)
  then have x: "unat ?x = unat len + (2 ^ 21 - 1)" using assms by (simp add: unat_word_ariths)
  have m: "HUGE_PAGE_SIZE - 1 = mask 21" by (simp add: HUGE_PAGE_SIZE_def mask_eq_exp_minus_1)
  have "ALIGN_CEIL len HUGE_PAGE_SIZE = push_bit 21 (drop_bit 21 ?x)"
    unfolding ALIGN_CEIL_def ALIGN_FLOOR_def m by (rule bit_word_eqI) (auto simp: bit_simps)
  also have "unat (push_bit 21 (drop_bit 21 ?x)) = unat ?x div 2 ^ 21 * 2 ^ 21"
  proof -
    have d: "unat (drop_bit 21 ?x) = unat ?x div 2 ^ 21" unfolding unat_drop_bit_eq by (simp add: drop_bit_eq_div)
    have "unat ?x div 2 ^ 21 * 2 ^ 21 \<le> unat ?x" by simp
    also have "\<dots> < 2 ^ 64" using unsigned_less [of ?x, where 'a = nat] by simp
    finally show ?thesis by (simp add: push_bit_eq_mult unat_word_ariths d)
  qed
  finally have e: "unat (ALIGN_CEIL len HUGE_PAGE_SIZE) = (unat len + (2 ^ 21 - 1)) div 2 ^ 21 * 2 ^ 21" using x by simp
  let ?q = "(unat len + (2 ^ 21 - 1)) div 2 ^ 21 * 2 ^ 21" and ?r = "(unat len + (2 ^ 21 - 1)) mod 2 ^ 21"
  have "?q + ?r = unat len + (2 ^ 21 - 1)" by (rule div_mult_mod_eq)
  moreover have "?r < 2 ^ 21" by (rule mod_less_divisor) simp
  ultimately have c: "unat len \<le> ?q" "?q < unat len + 2 ^ 21" by linarith+
  show "2 ^ 21 dvd unat (ALIGN_CEIL len HUGE_PAGE_SIZE)" unfolding e by simp
  show "unat len \<le> unat (ALIGN_CEIL len HUGE_PAGE_SIZE)" "unat (ALIGN_CEIL len HUGE_PAGE_SIZE) < unat len + 2 ^ 21"
    unfolding e by (rule c)+
qed

section \<open>The contract\<close>

text \<open>A store of zones under handles: taking gives a handle that was not in use and changes no other
  zone, giving back forgets one zone, and an attempt that fails changes nothing.\<close>

locale zone_store =
  fixes wf :: "'s \<Rightarrow> bool" and contents :: "'s \<Rightarrow> nat \<rightharpoonup> 'z" and lim :: nat
    and take_zone :: "'r \<Rightarrow> 's \<Rightarrow> nat option \<times> 's" and give_zone :: "'e \<Rightarrow> nat \<Rightarrow> 's \<Rightarrow> 's"
    and filled :: "'r \<Rightarrow> nat \<Rightarrow> 'z \<Rightarrow> bool"
  assumes take_none: "wf s \<Longrightarrow> take_zone r s = (None, s') \<Longrightarrow> s' = s"
    and take_some: "wf s \<Longrightarrow> take_zone r s = (Some i, s') \<Longrightarrow>
      wf s' \<and> i < lim \<and> contents s i = None \<and> (\<exists>z. filled r i z \<and> contents s' = (contents s)(i \<mapsto> z))"
    and give: "wf s \<Longrightarrow> i < lim \<Longrightarrow> wf (give_zone e i s) \<and> contents (give_zone e i s) = (contents s)(i := None)"
begin

definition step :: "'r + ('e \<times> nat) \<Rightarrow> 's \<Rightarrow> 's" where
  "step x s = (case x of Inl r \<Rightarrow> snd (take_zone r s) | Inr (e, i) \<Rightarrow> if i < lim then give_zone e i s else s)"

lemma step_keeps:
  assumes "wf s"
  shows "wf (step x s)" "contents s i = Some z \<Longrightarrow> \<forall>e. x \<noteq> Inr (e, i) \<Longrightarrow> contents (step x s) i = Some z"
proof -
  have "wf (step x s) \<and> (contents s i = Some z \<and> (\<forall>e. x \<noteq> Inr (e, i)) \<longrightarrow> contents (step x s) i = Some z)"
  proof (cases x)
    case (Inl r)
    obtain h s' where t: "take_zone r s = (h, s')" by (cases "take_zone r s")
    show ?thesis
    proof (cases h)
      case None
      then show ?thesis using t take_none assms Inl by (auto simp: step_def)
    next
      case (Some j)
      then show ?thesis using take_some [OF assms, of r j s'] t Inl by (auto simp: step_def)
    qed
  next
    case (Inr y)
    then show ?thesis using give [OF assms, of "snd y" "fst y"] assms by (cases y) (auto simp: step_def)
  qed
  then show "wf (step x s)" "contents s i = Some z \<Longrightarrow> \<forall>e. x \<noteq> Inr (e, i) \<Longrightarrow> contents (step x s) i = Some z" by blast+
qed

lemma run_keeps:
  assumes "wf s"
  shows "wf (fold step xs s)" "contents s i = Some z \<Longrightarrow> \<forall>e. Inr (e, i) \<notin> set xs \<Longrightarrow> contents (fold step xs s) i = Some z"
proof -
  have "wf (fold step xs s) \<and> (contents s i = Some z \<and> (\<forall>e. Inr (e, i) \<notin> set xs) \<longrightarrow> contents (fold step xs s) i = Some z)"
    using assms
  proof (induction xs arbitrary: s)
    case (Cons x xs)
    have "contents s i = Some z \<Longrightarrow> \<forall>e. Inr (e, i) \<notin> set (x # xs) \<Longrightarrow> contents (step x s) i = Some z"
      by (rule step_keeps(2) [OF Cons.prems]) auto
    then show ?case using Cons.IH [OF step_keeps(1) [OF Cons.prems]] by auto
  qed simp
  then show "wf (fold step xs s)" "contents s i = Some z \<Longrightarrow> \<forall>e. Inr (e, i) \<notin> set xs \<Longrightarrow> contents (fold step xs s) i = Some z" by blast+
qed

end

definition reserve_with :: "mz_os \<times> u64 \<Rightarrow> memzones \<Rightarrow> nat option \<times> memzones" where
  "reserve_with r = memzone_reserve (fst r) (snd r)"

definition release_with :: "mz_os \<Rightarrow> nat \<Rightarrow> memzones \<Rightarrow> memzones" where
  "release_with os i s = snd (memzone_free os (MzZone i) s)"

interpretation zs: zone_store mz_wf zones MAX_MEMZONES reserve_with release_with "\<lambda>r. new_zone (fst r) (snd r)"
proof
  fix s r s' assume wf: "mz_wf s" and t: "reserve_with r s = (None, s')"
  from wf show "s' = s" by (rule reserve_cases [of s "fst r" "snd r"]) (use t in \<open>simp_all add: reserve_with_def\<close>)
next
  fix s r i s' assume wf: "mz_wf s" and t: "reserve_with r s = (Some i, s')"
  from wf show "mz_wf s' \<and> i < MAX_MEMZONES \<and> zones s i = None \<and> (\<exists>z. new_zone (fst r) (snd r) i z \<and> zones s' = (zones s)(i \<mapsto> z))"
  proof (rule reserve_cases [of s "fst r" "snd r"])
    assume "memzone_reserve (fst r) (snd r) s = (None, s)"
    then show ?thesis using t by (simp add: reserve_with_def)
  next
    fix j z u
    assume "memzone_reserve (fst r) (snd r) s = (Some j, u)" "j < MAX_MEMZONES" "\<not> live s j" "mz_wf u"
      "zones u = (zones s)(j \<mapsto> z)" "new_zone (fst r) (snd r) j z"
    then show ?thesis using t by (auto simp: reserve_with_def zones_def [of s])
  qed
next
  fix s i e assume "mz_wf s" "i < MAX_MEMZONES"
  then show "mz_wf (release_with e i s) \<and> zones (release_with e i s) = (zones s)(i := None)"
    using release_refines(1,2) [of s i e] by (simp add: release_with_def) (metis prod.collapse)
qed

text \<open>Requests of a program, in any order.\<close>

definition mz_step :: "(mz_os \<times> u64) + (mz_os \<times> nat) \<Rightarrow> memzones \<Rightarrow> memzones" where
  "mz_step x s = (case x of Inl (os, len) \<Rightarrow> snd (memzone_reserve os len s)
     | Inr (os, i) \<Rightarrow> if i < MAX_MEMZONES then snd (memzone_free os (MzZone i) s) else s)"

lemma mz_step_eq: "mz_step = zs.step"
  by (intro ext) (auto simp: mz_step_def zs.step_def reserve_with_def release_with_def split: sum.splits)

lemma free_count: "mz_wf s \<Longrightarrow> unat (free_mz s) + card (dom (zones s)) = MAX_MEMZONES"
proof -
  assume wf: "mz_wf s"
  let ?F = "{i. i < MAX_MEMZONES \<and> \<not> live s i}"
  have "dom (zones s) = {..<MAX_MEMZONES} - ?F" by (auto simp: zones_def live_def split: if_splits)
  moreover have "card ?F \<le> MAX_MEMZONES" using card_mono [of "{..<MAX_MEMZONES}" ?F] by auto
  moreover have "card ({..<MAX_MEMZONES} - ?F) = MAX_MEMZONES - card ?F" by (subst card_Diff_subset) auto
  ultimately show ?thesis using wf by (simp add: mz_wf_def)
qed

end
