(* ===== verification/Cdev_Wire.thy ===== *)
theory Cdev_Wire
  imports Byte_Codec
begin

text \<open>
  The socket between the device server (user/nfpcore/nfp_cpp_dev.c) and the shim that is loaded into
  client programs (shim/interpose.c): the system calls, operation codes, request codes and structures
  (user/nfpcore/nfp_ioctl.h, nfp_cpp_dev.h), and the loops that both sides use to move data.
\<close>

unbundle bit_operations_syntax

section \<open>System calls\<close>

text \<open>The state \<open>'s\<close> is that of the sockets; a read gives a count or -1 and the bytes, a write a count or -1.\<close>

record 's sys =
  sys_read :: "int \<Rightarrow> u64 \<Rightarrow> 's \<Rightarrow> int \<times> u8 list \<times> 's"
  sys_write :: "int \<Rightarrow> u8 list \<Rightarrow> 's \<Rightarrow> int \<times> 's"
  sys_close :: "int \<Rightarrow> 's \<Rightarrow> int \<times> 's"

text \<open>The comparison \<open>ret < sizeof(x)\<close> is made in \<open>unsigned long\<close>: -1 is not smaller.\<close>

definition lt_sizeof :: "int \<Rightarrow> nat \<Rightarrow> bool" where
  "lt_sizeof ret k \<longleftrightarrow> (word_of_int ret :: u64) < of_nat k"

text \<open>Reading into a variable or structure that has a value: the bytes that do not arrive keep it.\<close>

definition read_into :: "'s sys \<Rightarrow> int \<Rightarrow> u8 list \<Rightarrow> 's \<Rightarrow> int \<times> u8 list \<times> 's" where
  "read_into S fd old s =
     (let (ret, bs, s) = sys_read S fd (of_nat (length old)) s
      in (ret, take (length old) (bs @ drop (length bs) old), s))"

definition read_u64 :: "'s sys \<Rightarrow> int \<Rightarrow> u64 \<Rightarrow> 's \<Rightarrow> int \<times> u64 \<times> 's" where
  "read_u64 S fd old s = (let (ret, bs, s) = read_into S fd (le_bytes 8 old) s in (ret, le_word bs, s))"

definition write_u64 :: "'s sys \<Rightarrow> int \<Rightarrow> u64 \<Rightarrow> 's \<Rightarrow> int \<times> 's" where
  "write_u64 S fd v s = sys_write S fd (le_bytes 8 v) s"

text \<open>The loops that move \<open>count\<close> bytes. They end on an error; when nothing is moved they go on, and may
  do so for ever: then their value is \<open>None\<close>.\<close>

partial_function (option) read_loop :: "'s sys \<Rightarrow> int \<Rightarrow> u64 \<Rightarrow> u8 list \<Rightarrow> 's \<Rightarrow> (u8 list option \<times> 's) option" where
  "read_loop S fd count buf s =
     (if \<not> of_nat (length buf) < count then Some (Some buf, s)
      else
        case sys_read S fd (count - of_nat (length buf)) s of (ret, bs, s) \<Rightarrow>
          if ret < 0 then Some (None, s) else read_loop S fd count (buf @ bs) s)"

partial_function (option) write_loop :: "'s sys \<Rightarrow> int \<Rightarrow> u8 list \<Rightarrow> 's \<Rightarrow> (bool \<times> 's) option" where
  "write_loop S fd buf s =
     (if buf = [] then Some (True, s)
      else
        case sys_write S fd buf s of (ret, s) \<Rightarrow>
          if ret < 0 then Some (False, s) else write_loop S fd (drop (nat ret) buf) s)"

section \<open>Codes\<close>

definition OP_PREAD :: u64 where "OP_PREAD = 1"
definition OP_PWRITE :: u64 where "OP_PWRITE = 2"
definition OP_IOCTL :: u64 where "OP_IOCTL = 3"

text \<open>Request codes: direction, size, type and number.\<close>

definition ioc :: "u64 \<Rightarrow> u64 \<Rightarrow> u64 \<Rightarrow> u64 \<Rightarrow> u64" where
  "ioc dir type nr sz = push_bit 30 dir OR push_bit 16 sz OR push_bit 8 type OR nr"

definition NFP_IOCTL :: u64 where "NFP_IOCTL = 0x6e"
definition area_request_size :: nat where "area_request_size = 32"
definition explicit_request_size :: nat where "explicit_request_size = 168"
definition identification_size :: nat where "identification_size = 20"
definition event_request_size :: nat where "event_request_size = 16"
definition NFP_FIRMWARE_MAX :: nat where "NFP_FIRMWARE_MAX = 256"
definition NFP_IOCTL_CPP_AREA_REQUEST :: u64 where "NFP_IOCTL_CPP_AREA_REQUEST = ioc 3 NFP_IOCTL 0x80 (of_nat area_request_size)"
definition NFP_IOCTL_CPP_AREA_RELEASE :: u64 where "NFP_IOCTL_CPP_AREA_RELEASE = ioc 1 NFP_IOCTL 0x81 (of_nat area_request_size)"
definition NFP_IOCTL_CPP_AREA_RELEASE_OBSOLETE :: u64 where "NFP_IOCTL_CPP_AREA_RELEASE_OBSOLETE = ioc 1 NFP_IOCTL 0x81 8"
definition NFP_IOCTL_CPP_EXPL_REQUEST :: u64 where "NFP_IOCTL_CPP_EXPL_REQUEST = ioc 1 NFP_IOCTL 0x82 (of_nat explicit_request_size)"
definition NFP_IOCTL_CPP_EVENT_ACQUIRE :: u64 where "NFP_IOCTL_CPP_EVENT_ACQUIRE = ioc 1 NFP_IOCTL 0x83 (of_nat event_request_size)"
definition NFP_IOCTL_CPP_EVENT_RELEASE :: u64 where "NFP_IOCTL_CPP_EVENT_RELEASE = ioc 1 NFP_IOCTL 0x84 (of_nat event_request_size)"
definition NFP_IOCTL_FIRMWARE_LOAD :: u64 where "NFP_IOCTL_FIRMWARE_LOAD = ioc 1 NFP_IOCTL 0x8d (of_nat NFP_FIRMWARE_MAX)"
definition NFP_IOCTL_FIRMWARE_LAST :: u64 where "NFP_IOCTL_FIRMWARE_LAST = ioc 2 NFP_IOCTL 0x8e (of_nat NFP_FIRMWARE_MAX)"
definition NFP_IOCTL_CPP_IDENTIFICATION :: u64 where "NFP_IOCTL_CPP_IDENTIFICATION = ioc 1 NFP_IOCTL 0x8f 4"

section \<open>Structures\<close>

text \<open>The padding behind \<open>cpp_id\<close> travels with the structure.\<close>

record nfp_cpp_area_request =
  rq_offset :: u64
  rq_cpp_id :: u32
  rq_pad :: u32
  rq_cpp_addr :: u64
  rq_size :: u64

definition area_request_of_bytes :: "u8 list \<Rightarrow> nfp_cpp_area_request" where
  "area_request_of_bytes bs = \<lparr>rq_offset = le_word (take 8 bs), rq_cpp_id = le_word (take 4 (drop 8 bs)),
     rq_pad = le_word (take 4 (drop 12 bs)), rq_cpp_addr = le_word (take 8 (drop 16 bs)), rq_size = le_word (take 8 (drop 24 bs))\<rparr>"

definition area_request_bytes :: "nfp_cpp_area_request \<Rightarrow> u8 list" where
  "area_request_bytes r = le_bytes 8 (rq_offset r) @ le_bytes 4 (rq_cpp_id r) @ le_bytes 4 (rq_pad r)
     @ le_bytes 8 (rq_cpp_addr r) @ le_bytes 8 (rq_size r)"

record nfp_cpp_identification =
  id_size :: u32
  id_model :: u32
  id_interface :: u32
  id_serial_lo :: u32
  id_serial_hi :: u32

definition identification_bytes :: "nfp_cpp_identification \<Rightarrow> u8 list" where
  "identification_bytes i = le_bytes 4 (id_size i) @ le_bytes 4 (id_model i) @ le_bytes 4 (id_interface i)
     @ le_bytes 4 (id_serial_lo i) @ le_bytes 4 (id_serial_hi i)"

section \<open>Facts\<close>

lemma request_roundtrip [simp]: "area_request_of_bytes (area_request_bytes r) = r"
  by (simp add: area_request_of_bytes_def area_request_bytes_def)

lemma request_length [simp]: "length (area_request_bytes r) = 32" "length (identification_bytes i) = 20"
  by (simp_all add: area_request_bytes_def identification_bytes_def)

lemma lt_sizeof_nat: "0 \<le> ret \<Longrightarrow> ret < 2 ^ 63 \<Longrightarrow> lt_sizeof ret k \<longleftrightarrow> nat ret < unat (of_nat k :: u64)"
proof -
  assume r: "0 \<le> ret" "ret < 2 ^ 63"
  then have "unat (word_of_int ret :: u64) = nat ret"
    by (simp add: unsigned_of_int take_bit_int_eq_self)
  then show ?thesis by (simp add: lt_sizeof_def word_less_nat_alt)
qed

lemma lt_sizeof_full: "k < 2 ^ 63 \<Longrightarrow> \<not> lt_sizeof (int k) k"
  using lt_sizeof_nat [of "int k" k] by (simp add: unat_of_nat)

text \<open>An error of the system call passes the comparison.\<close>

lemma lt_sizeof_error: "k < 2 ^ 63 \<Longrightarrow> \<not> lt_sizeof (-1) k"
proof -
  assume k: "k < 2 ^ 63"
  then have "unat (of_nat k :: u64) = k" by (simp add: unat_of_nat)
  moreover have "unat (word_of_int (-1) :: u64) = 2 ^ 64 - 1" by (simp add: unsigned_minus_1_eq_mask mask_eq_exp_minus_1)
  ultimately show ?thesis using k by (simp add: lt_sizeof_def word_less_nat_alt)
qed

end
