(* ===== verification/Cdev_Server.thy ===== *)
theory Cdev_Server
  imports Cdev_Wire C_Text Cpp_Start
begin

text \<open>
  The device server (user/nfpcore/nfp_cpp_dev.c, nfp_cpp_dev_ops.c): it answers the requests of clients on
  a socket with accesses to the CPP bus, and keeps the areas that clients have requested. A function
  that may not return has the value \<open>None\<close> then. Local variables that the code does not initialise are arguments.
\<close>

section \<open>State\<close>

record nfp_dev_cpp_area =
  da_interface :: u32
  da_req :: nfp_cpp_area_request
  da_area :: nfp_cpp_area
  da_vma :: "nat list"

record pollfd =
  pf_fd :: int
  pf_events :: u16
  pf_revents :: u16

record nfp_cpp_dev_data =
  dd_listen_fd :: int
  dd_connections :: "pollfd list"
  dd_count :: nat
  dd_req :: "nfp_dev_cpp_area list"

definition MAX_CONNECTIONS :: nat where "MAX_CONNECTIONS = 64"
definition NFP_CPP_MEMIO_BOUNDARY :: u64 where "NFP_CPP_MEMIO_BOUNDARY = push_bit 20 1"
definition POLLIN :: u16 where "POLLIN = 1"
definition POLLHUP :: u16 where "POLLHUP = 0x10"
definition DEV_PAGE_SIZE :: u64 where "DEV_PAGE_SIZE = push_bit 12 1"
definition DEV_PAGE_MASK :: u64 where "DEV_PAGE_MASK = NOT (DEV_PAGE_SIZE - 1)"

section \<open>Identification\<close>

definition do_cpp_identification ::
  "'h mmio \<Rightarrow> nfp_cpp_identification \<Rightarrow> 'h world \<Rightarrow> nfp_cpp_identification \<times> 'h world" where
  "do_cpp_identification M ident w =
     (let total = (4 :: u32);
          (ident, total, w) = (if id_size ident \<ge> 8
             then let (m, w) = nfp_cpp_model M w in (ident\<lparr>id_model := m\<rparr>, 8, w) else (ident, total, w));
          (ident, total) = (if id_size ident \<ge> 12
             then (ident\<lparr>id_interface := ucast (nfp_cpp_interface w)\<rparr>, 12) else (ident, total));
          (ident, total) = (if id_size ident \<ge> 20
             then let sn = serial (w_cpp w)
                  in (ident\<lparr>id_serial_hi := push_bit 8 (ucast (sn ! 0)) OR ucast (sn ! 1),
                        id_serial_lo := push_bit 24 (ucast (sn ! 2)) OR push_bit 16 (ucast (sn ! 3)) OR push_bit 8 (ucast (sn ! 4)) OR ucast (sn ! 5)\<rparr>, 20)
             else (ident, total))
      in (ident\<lparr>id_size := total\<rparr>, w))"

definition ioctl_cpp_identification ::
  "'s sys \<Rightarrow> 'h mmio \<Rightarrow> nfp_cpp_identification \<Rightarrow> int \<Rightarrow> 's \<Rightarrow> 'h world \<Rightarrow> int \<times> 's \<times> 'h world" where
  "ioctl_cpp_identification S M ident fd s w =
     (let (ret, bs, s) = read_into S fd (le_bytes 4 (id_size ident)) s
      in if lt_sizeof ret 4 then (-1, s, w)
         else
           let (ident, w) = do_cpp_identification M (ident\<lparr>id_size := le_word bs\<rparr>) w;
               (ret, s) = write_u64 S fd (of_nat identification_size) s
           in if lt_sizeof ret 8 then (-1, s, w)
              else
                let (ret, s) = sys_write S fd (identification_bytes ident) s
                in (if lt_sizeof ret identification_size then -1 else 0, s, w))"

section \<open>Areas of clients\<close>

definition collides :: "nfp_cpp_area_request \<Rightarrow> nfp_cpp_area_request \<Rightarrow> bool" where
  "collides r a \<longleftrightarrow> rq_offset r < rq_offset a + rq_size a \<and> rq_offset r + rq_size r > rq_offset a"

definition nfp_dev_cpp_range_check :: "nfp_dev_cpp_area list \<Rightarrow> nfp_cpp_area_request \<Rightarrow> int" where
  "nfp_dev_cpp_range_check req_list area_req =
     (if \<exists>area\<in>set req_list. collides area_req (da_req area) then - errno_code ETXTBSY else 0)"

definition cdev_name :: "u64 \<Rightarrow> string" where
  "cdev_name off = map (\<lambda>c. char_of (unat c)) (snprintf 64 (ascii ''cdev@0x'' @ fmt_hex 1 (unat off)))"

definition nfp_dev_cpp_area_alloc ::
  "'h mmio \<Rightarrow> nfp_cpp_dev_data \<Rightarrow> u16 \<Rightarrow> nfp_cpp_area_request \<Rightarrow> 'h world \<Rightarrow> int \<times> nfp_cpp_dev_data \<times> 'h world" where
  "nfp_dev_cpp_area_alloc M cdev iface area_req w =
     (let (ok, w) = c_malloc w
      in if \<not> ok then (- errno_code ENOMEM, cdev, w)
         else case nfp_cpp_area_alloc_with_name M (rq_cpp_id area_req) (cdev_name (rq_offset area_req)) (rq_cpp_addr area_req)
                (rq_size area_req) w of
           (None, w) \<Rightarrow> (- errno_code EINVAL, cdev, w)
         | (Some cpp_area, w) \<Rightarrow>
             (0, cdev\<lparr>dd_req := dd_req cdev @ [\<lparr>da_interface = ucast iface, da_req = area_req, da_area = cpp_area, da_vma = []\<rparr>]\<rparr>, w))"

text \<open>The search for an offset behind one of the areas: the first that is free, or the last that was tried.\<close>

fun offset_search :: "nfp_dev_cpp_area list \<Rightarrow> nfp_dev_cpp_area list \<Rightarrow> int \<Rightarrow> nfp_cpp_area_request \<Rightarrow> int \<times> nfp_cpp_area_request" where
  "offset_search all [] err area_req = (err, area_req)"
| "offset_search all (area # as) err area_req =
     (let area_req = area_req\<lparr>rq_offset := rq_offset (da_req area) + rq_size (da_req area)\<rparr>;
          err = nfp_dev_cpp_range_check all area_req
      in if err = 0 then (err, area_req) else offset_search all as err area_req)"

definition do_cpp_area_request ::
  "'h mmio \<Rightarrow> nfp_cpp_dev_data \<Rightarrow> u16 \<Rightarrow> nfp_cpp_area_request \<Rightarrow> 'h world
     \<Rightarrow> int \<times> nfp_cpp_area_request \<times> nfp_cpp_dev_data \<times> 'h world" where
  "do_cpp_area_request M data iface area_req w =
     (if rq_size area_req AND NOT DEV_PAGE_SIZE \<noteq> 0 then (- errno_code EINVAL, area_req, data, w)
      else if rq_offset area_req \<noteq> -1 \<and> rq_offset area_req AND NOT DEV_PAGE_MASK \<noteq> 0
      then (- errno_code EINVAL, area_req, data, w)
      else
        let (err, area_req) =
              (if rq_offset area_req = -1
               then let area_req = area_req\<lparr>rq_offset := 0\<rparr>;
                        err = nfp_dev_cpp_range_check (dd_req data) area_req
                    in if err < 0 then offset_search (dd_req data) (dd_req data) err area_req else (err, area_req)
               else (0, area_req))
        in if err \<ge> 0
           then
             let err = nfp_dev_cpp_range_check (dd_req data) area_req
             in if err \<ge> 0
                then let (err, data, w) = nfp_dev_cpp_area_alloc M data iface area_req w in (err, area_req, data, w)
                else (err, area_req, data, w)
           else (err, area_req, data, w))"

text \<open>Releasing forgets the first area with the offset; no memory is mapped by this server.\<close>

fun release_search :: "u64 \<Rightarrow> nfp_dev_cpp_area list \<Rightarrow> int \<times> nfp_dev_cpp_area list \<times> nfp_cpp_area option" where
  "release_search off [] = (- errno_code ENOENT, [], None)"
| "release_search off (area # as) =
     (if rq_offset (da_req area) = off
      then if da_vma area = [] then (0, as, Some (da_area area)) else (- errno_code EBUSY, area # as, None)
      else case release_search off as of (err, as, freed) \<Rightarrow> (err, area # as, freed))"

definition do_cpp_area_release ::
  "nfp_cpp_dev_data \<Rightarrow> u16 \<Rightarrow> nfp_cpp_area_request \<Rightarrow> 'h world \<Rightarrow> int \<times> nfp_cpp_dev_data \<times> 'h world" where
  "do_cpp_area_release data iface area_req w =
     (case release_search (rq_offset area_req) (dd_req data) of
        (err, reqs, None) \<Rightarrow> (err, data\<lparr>dd_req := reqs\<rparr>, w)
      | (err, reqs, Some area) \<Rightarrow> (err, data\<lparr>dd_req := reqs\<rparr>, nfp_cpp_area_free area w))"

definition do_cpp_expl_request :: "u8 list \<Rightarrow> int" where
  "do_cpp_expl_request explicit_req = - errno_code EINVAL"

section \<open>Requests\<close>

text \<open>Each takes the uninitialised structure that it reads into.\<close>

definition ioctl_area_request ::
  "'s sys \<Rightarrow> 'h mmio \<Rightarrow> u8 list \<Rightarrow> nfp_cpp_dev_data \<Rightarrow> int \<Rightarrow> 's \<Rightarrow> 'h world \<Rightarrow> int \<times> nfp_cpp_dev_data \<times> 's \<times> 'h world" where
  "ioctl_area_request S M raw data fd s w =
     (let (err, bs, s) = read_into S fd raw s
      in if lt_sizeof err area_request_size then (-1, data, s, w)
         else
           let (err, area_req, data, w) = do_cpp_area_request M data (nfp_cpp_interface w) (area_request_of_bytes bs) w;
               (ret, s) = write_u64 S fd (word_of_int err) s
           in if lt_sizeof ret 8 then (-1, data, s, w)
              else
                let (ret, s) = sys_write S fd (area_request_bytes area_req) s
                in (if lt_sizeof ret area_request_size then -1 else 0, data, s, w))"

definition ioctl_area_release ::
  "'s sys \<Rightarrow> u8 list \<Rightarrow> nfp_cpp_dev_data \<Rightarrow> int \<Rightarrow> 's \<Rightarrow> 'h world \<Rightarrow> int \<times> nfp_cpp_dev_data \<times> 's \<times> 'h world" where
  "ioctl_area_release S raw data fd s w =
     (let (err, bs, s) = read_into S fd raw s
      in if lt_sizeof err area_request_size then (-1, data, s, w)
         else
           let (err, data, w) = do_cpp_area_release data (nfp_cpp_interface w) (area_request_of_bytes bs) w;
               (ret, s) = write_u64 S fd (word_of_int err) s
           in (if lt_sizeof ret 8 then -1 else 0, data, s, w))"

definition ioctl_expl_request :: "'s sys \<Rightarrow> u8 list \<Rightarrow> int \<Rightarrow> 's \<Rightarrow> int \<times> 's" where
  "ioctl_expl_request S raw fd s =
     (let (err, bs, s) = read_into S fd raw s
      in if lt_sizeof err explicit_request_size then (-1, s)
         else
           let (ret, s) = write_u64 S fd (word_of_int (do_cpp_expl_request bs)) s
           in if lt_sizeof ret 8 then (-1, s)
              else
                let (ret, s) = sys_write S fd bs s
                in (if lt_sizeof ret explicit_request_size then -1 else 0, s))"

text \<open>The uninitialised variables of one command.\<close>

record cmd_junk =
  cj_tmp :: u64
  cj_area :: "u8 list"
  cj_expl :: "u8 list"
  cj_ident :: nfp_cpp_identification

definition nfp_cpp_dev_ioctl ::
  "'s sys \<Rightarrow> 'h mmio \<Rightarrow> cmd_junk \<Rightarrow> nfp_cpp_dev_data \<Rightarrow> int \<Rightarrow> u64 \<Rightarrow> 's \<Rightarrow> 'h world \<Rightarrow> int \<times> nfp_cpp_dev_data \<times> 's \<times> 'h world" where
  "nfp_cpp_dev_ioctl S M j data fd request s w =
     (if request = NFP_IOCTL_CPP_IDENTIFICATION
      then case ioctl_cpp_identification S M (cj_ident j) fd s w of (r, s, w) \<Rightarrow> (r, data, s, w)
      else if request = NFP_IOCTL_CPP_AREA_REQUEST then ioctl_area_request S M (cj_area j) data fd s w
      else if request = NFP_IOCTL_CPP_AREA_RELEASE then ioctl_area_release S (cj_area j) data fd s w
      else if request = NFP_IOCTL_CPP_EXPL_REQUEST
      then case ioctl_expl_request S (cj_expl j) fd s of (r, s) \<Rightarrow> (r, data, s, w)
      else (-1, data, s, w))"

section \<open>Reading\<close>

definition cdev_cpp_id :: "u64 \<Rightarrow> u32" where
  "cdev_cpp_id offset = ucast (push_bit 8 (drop_bit 40 offset))"

definition cdev_offset :: "u64 \<Rightarrow> u64" where
  "cdev_offset offset = offset AND (push_bit 40 1 - 1)"

definition crosses_boundary :: "u64 \<Rightarrow> u64 \<Rightarrow> bool" where
  "crosses_boundary off count \<longleftrightarrow>
     (off + count - 1) AND NOT (NFP_CPP_MEMIO_BOUNDARY - 1) \<noteq> off AND NOT (NFP_CPP_MEMIO_BOUNDARY - 1)"

definition chunk_len :: "u64 \<Rightarrow> u32 \<Rightarrow> u32" where
  "chunk_len curlen pos = (let len = ucast (curlen - ucast pos) in if len > 64 then 64 else len)"

text \<open>Reading an area in pieces of 64 bytes: the error, the position, the data and the state. Without a
  buffer the copy is the fault.\<close>

partial_function (option) read_chunks ::
  "'h mmio \<Rightarrow> bool \<Rightarrow> nfp_cpp_area \<Rightarrow> u64 \<Rightarrow> u32 \<Rightarrow> int \<Rightarrow> u8 list \<Rightarrow> 'h world \<Rightarrow> (int \<times> u32 \<times> u8 list \<times> 'h world) option" where
  "read_chunks M ok area curlen pos err buf w =
     (if \<not> ucast pos < curlen then Some (err, pos, buf, w)
      else
        let len = chunk_len curlen pos
        in case nfp_cpp_area_read M area (ucast pos) (ucast len) w of (err, bs, w) \<Rightarrow>
             if err < 0 then Some (err, pos, buf, w)
             else read_chunks M ok area curlen (pos + len) err (buf @ bs) (if ok then w else null_deref w))"

text \<open>One turn of the outer loop for each area.\<close>

partial_function (option) dev_read_loop ::
  "'h mmio \<Rightarrow> bool \<Rightarrow> u32 \<Rightarrow> u64 \<Rightarrow> u64 \<Rightarrow> u64 \<Rightarrow> u64 \<Rightarrow> u8 list \<Rightarrow> 'h world \<Rightarrow> ((int + u64 \<times> u8 list) \<times> 'h world) option" where
  "dev_read_loop M ok cpp_id nfp_offset curlen count totlen buf w =
     (if count = 0 then Some (Inr (totlen, buf), w)
      else case nfp_cpp_area_alloc_with_name M cpp_id ''nfp.cdev'' nfp_offset curlen w of
        (None, w) \<Rightarrow> Some (Inl (- errno_code EIO), w)
      | (Some area, w) \<Rightarrow>
          (case nfp_cpp_area_acquire area w of (err, area, w) \<Rightarrow>
             if err < 0 then Some (Inl (- errno_code EIO), nfp_cpp_area_free area w)
             else case read_chunks M ok area curlen 0 err buf w of
               None \<Rightarrow> None
             | Some (err, pos, buf, w) \<Rightarrow>
                 (case nfp_cpp_area_release area w of (area, w) \<Rightarrow>
                    let w = nfp_cpp_area_free area w
                    in if err < 0 then Some (Inl err, w)
                       else
                         let count = count - ucast pos
                         in dev_read_loop M ok cpp_id (nfp_offset + ucast pos)
                              (if count > NFP_CPP_MEMIO_BOUNDARY then NFP_CPP_MEMIO_BOUNDARY else count) count (totlen + ucast pos) buf w)))"

definition nfp_cpp_dev_read ::
  "'s sys \<Rightarrow> 'h mmio \<Rightarrow> int \<Rightarrow> u64 \<Rightarrow> u64 \<Rightarrow> 's \<Rightarrow> 'h world \<Rightarrow> (int \<times> 's \<times> 'h world) option" where
  "nfp_cpp_dev_read S M fd count offset s w =
     (let (ok, w) = c_malloc w; cpp_id = cdev_cpp_id offset; nfp_offset = cdev_offset offset;
          curlen = (if crosses_boundary nfp_offset count
            then NFP_CPP_MEMIO_BOUNDARY - (nfp_offset AND (NFP_CPP_MEMIO_BOUNDARY - 1)) else count)
      in case dev_read_loop M ok cpp_id nfp_offset curlen count 0 [] w of
           None \<Rightarrow> None
         | Some (Inl err, w) \<Rightarrow>
             let (ret, s) = write_u64 S fd (word_of_int err) s in Some (if ret < 0 then -1 else 0, s, w)
         | Some (Inr (totlen, buf), w) \<Rightarrow>
             let (ret, s) = write_u64 S fd totlen s
             in if lt_sizeof ret 8 then Some (-1, s, w)
                else case write_loop S fd (take (unat totlen) buf) s of
                  None \<Rightarrow> None
                | Some (sent, s) \<Rightarrow> Some (if sent then 0 else -1, s, w))"

section \<open>Writing\<close>

partial_function (option) write_chunks ::
  "'h mmio \<Rightarrow> nfp_cpp_area \<Rightarrow> u64 \<Rightarrow> u32 \<Rightarrow> u8 list \<Rightarrow> 'h world \<Rightarrow> (u32 option \<times> 'h world) option" where
  "write_chunks M area curlen pos buff w =
     (if \<not> ucast pos < curlen then Some (Some pos, w)
      else
        let len = chunk_len curlen pos
        in case nfp_cpp_area_write M area (ucast pos) (take (unat len) (drop (unat pos) buff)) (ucast len) w of (err, w) \<Rightarrow>
             if err < 0 then Some (None, w)
             else write_chunks M area curlen (pos + len) buff w)"

partial_function (option) dev_write_loop ::
  "'h mmio \<Rightarrow> u32 \<Rightarrow> u64 \<Rightarrow> u64 \<Rightarrow> u64 \<Rightarrow> u64 \<Rightarrow> u8 list \<Rightarrow> 'h world \<Rightarrow> ((int + u64) \<times> 'h world) option" where
  "dev_write_loop M cpp_id nfp_offset curlen count totlen buff w =
     (if count = 0 then Some (Inr totlen, w)
      else case nfp_cpp_area_alloc_with_name M cpp_id ''nfp.cdev'' nfp_offset curlen w of
        (None, w) \<Rightarrow> Some (Inl (- errno_code EIO), w)
      | (Some area, w) \<Rightarrow>
          (case nfp_cpp_area_acquire area w of (err, area, w) \<Rightarrow>
             if err < 0 then Some (Inl (- errno_code EIO), nfp_cpp_area_free area w)
             else case write_chunks M area curlen 0 buff w of
               None \<Rightarrow> None
             | Some (None, w) \<Rightarrow> Some (Inl (- errno_code EIO), nfp_cpp_area_release_free area w)
             | Some (Some pos, w) \<Rightarrow>
                 let w = nfp_cpp_area_release_free area w; count = count - ucast pos
                 in dev_write_loop M cpp_id (nfp_offset + ucast pos)
                      (if count > NFP_CPP_MEMIO_BOUNDARY then NFP_CPP_MEMIO_BOUNDARY else count) count (totlen + ucast pos)
                      (drop (unat pos) buff) w))"

text \<open>The length that is computed from the boundary is overwritten before it is used.\<close>

definition nfp_cpp_dev_write ::
  "'s sys \<Rightarrow> 'h mmio \<Rightarrow> int \<Rightarrow> u64 \<Rightarrow> u64 \<Rightarrow> 's \<Rightarrow> 'h world \<Rightarrow> (int \<times> 's \<times> 'h world) option" where
  "nfp_cpp_dev_write S M fd count offset s w =
     (let (ok, w) = c_malloc w
      in if \<not> ok \<and> count \<noteq> 0 then Some (-1, s, w)
         else case read_loop S fd count [] s of
           None \<Rightarrow> None
         | Some (None, s) \<Rightarrow> Some (-1, s, w)
         | Some (Some buf, s) \<Rightarrow>
             (case dev_write_loop M (cdev_cpp_id offset) (cdev_offset offset) count count 0 buf w of
                None \<Rightarrow> None
              | Some (Inl err, w) \<Rightarrow>
                  let (ret, s) = write_u64 S fd (word_of_int err) s in Some (if ret < 0 then -1 else 0, s, w)
              | Some (Inr totlen, w) \<Rightarrow>
                  let (ret, s) = write_u64 S fd totlen s in Some (if lt_sizeof ret 8 then -1 else 0, s, w)))"

section \<open>Commands\<close>

definition nfp_cpp_dev_handle_cmd ::
  "'s sys \<Rightarrow> 'h mmio \<Rightarrow> cmd_junk \<Rightarrow> nfp_cpp_dev_data \<Rightarrow> int \<Rightarrow> 's \<Rightarrow> 'h world
     \<Rightarrow> (int \<times> nfp_cpp_dev_data \<times> 's \<times> 'h world) option" where
  "nfp_cpp_dev_handle_cmd S M j data fd s w =
     (let (ret, tmp, s) = read_u64 S fd (cj_tmp j) s
      in if ret < 0 then Some (ret, data, s, w)
         else if tmp = OP_PREAD \<or> tmp = OP_PWRITE
         then
           let op = tmp; (ret, tmp, s) = read_u64 S fd tmp s
           in if ret < 0 then Some (ret, data, s, w)
              else
                let count = tmp; (ret, tmp, s) = read_u64 S fd tmp s
                in if ret < 0 then Some (ret, data, s, w)
                   else
                     (case (if op = OP_PREAD then nfp_cpp_dev_read S M fd count tmp s w
                            else nfp_cpp_dev_write S M fd count tmp s w) of
                        None \<Rightarrow> None
                      | Some (r, s, w) \<Rightarrow> Some (r, data, s, w))
         else if tmp = OP_IOCTL
         then
           let (ret, tmp, s) = read_u64 S fd tmp s
           in if ret < 0 then Some (ret, data, s, w)
              else Some (nfp_cpp_dev_ioctl S M j data fd tmp s w)
         else Some (-1, data, s, w))"

section \<open>The poll loop\<close>

text \<open>What the system answers in one turn: the result of \<open>poll\<close>, the events of each connection, the
  descriptor of a new connection.\<close>

record poll_answer =
  pl_ret :: int
  pl_revents :: "nat \<Rightarrow> u16"
  pl_accept :: int

definition conn_update :: "nat \<Rightarrow> (pollfd \<Rightarrow> pollfd) \<Rightarrow> nfp_cpp_dev_data \<Rightarrow> nfp_cpp_dev_data" where
  "conn_update i f data = data\<lparr>dd_connections := (dd_connections data)[i := f (dd_connections data ! i)]\<rparr>"

fun poll_conns ::
  "'s sys \<Rightarrow> 'h mmio \<Rightarrow> (nat \<Rightarrow> cmd_junk) \<Rightarrow> nat list \<Rightarrow> nat \<Rightarrow> nfp_cpp_dev_data \<Rightarrow> 's \<Rightarrow> 'h world
     \<Rightarrow> (nat \<times> nfp_cpp_dev_data \<times> 's \<times> 'h world) option" where
  "poll_conns S M j [] cc data s w = Some (cc, data, s, w)"
| "poll_conns S M j (i # is) cc data s w =
     (let rev = pf_revents (dd_connections data ! i)
      in if rev = 0 then poll_conns S M j is cc data s w
         else case (if rev AND POLLIN \<noteq> 0
              then case nfp_cpp_dev_handle_cmd S M (j i) data (pf_fd (dd_connections data ! i)) s w of
                     None \<Rightarrow> None
                   | Some (ret, data, s, w) \<Rightarrow>
                       if ret < 0
                       then let (_, s) = sys_close S (pf_fd (dd_connections data ! i)) s
                            in Some (Suc cc, conn_update i (\<lambda>c. c\<lparr>pf_fd := -1\<rparr>) data, s, w)
                       else Some (cc, data, s, w)
              else Some (cc, data, s, w)) of
           None \<Rightarrow> None
         | Some (cc, data, s, w) \<Rightarrow>
             if pf_revents (dd_connections data ! i) AND POLLHUP \<noteq> 0
             then let (_, s) = sys_close S (pf_fd (dd_connections data ! i)) s
                  in poll_conns S M j is (Suc cc) (conn_update i (\<lambda>c. c\<lparr>pf_fd := -1\<rparr>) data) s w
             else poll_conns S M j is cc data s w)"

text \<open>Closed connections are removed from the list.\<close>

fun cleanup_conns :: "nat list \<Rightarrow> nat \<Rightarrow> nfp_cpp_dev_data \<Rightarrow> nat \<times> nfp_cpp_dev_data" where
  "cleanup_conns [] jx data = (jx, data)"
| "cleanup_conns (i # is) jx data =
     (if pf_fd (dd_connections data ! i) \<noteq> -1
      then cleanup_conns is (Suc jx)
             (conn_update jx (\<lambda>_. \<lparr>pf_fd = pf_fd (dd_connections data ! i), pf_events = POLLIN, pf_revents = 0\<rparr>) data)
      else cleanup_conns is jx data)"

definition poll_accept :: "poll_answer \<Rightarrow> nfp_cpp_dev_data \<Rightarrow> nfp_cpp_dev_data" where
  "poll_accept A data =
     (if pf_revents (dd_connections data ! 0) AND POLLIN \<noteq> 0 \<and> dd_count data < MAX_CONNECTIONS
      then (conn_update (dd_count data) (\<lambda>_. \<lparr>pf_fd = pl_accept A, pf_events = POLLIN, pf_revents = 0\<rparr>) data)
             \<lparr>dd_count := Suc (dd_count data)\<rparr>
      else data)"

definition poll_events :: "poll_answer \<Rightarrow> nfp_cpp_dev_data \<Rightarrow> nfp_cpp_dev_data" where
  "poll_events A data = data\<lparr>dd_connections := map (\<lambda>i. if i < dd_count data
     then (dd_connections data ! i)\<lparr>pf_revents := pl_revents A i\<rparr> else dd_connections data ! i) [0..<length (dd_connections data)]\<rparr>"

definition nfp_cpp_dev_poll_turn ::
  "'s sys \<Rightarrow> 'h mmio \<Rightarrow> (nat \<Rightarrow> cmd_junk) \<Rightarrow> poll_answer \<Rightarrow> nfp_cpp_dev_data \<Rightarrow> 's \<Rightarrow> 'h world
     \<Rightarrow> (nfp_cpp_dev_data \<times> 's \<times> 'h world) option" where
  "nfp_cpp_dev_poll_turn S M j A data s w =
     (let data = poll_events A data
      in if pl_ret A \<le> 0 then Some (data, s, w)
         else
           let data = poll_accept A data
           in case poll_conns S M j [1..<dd_count data] 0 data s w of
                None \<Rightarrow> None
              | Some (close_count, data, s, w) \<Rightarrow>
                  if close_count \<noteq> 0
                  then let (jx, data) = cleanup_conns [1..<dd_count data] 1 data in Some (data\<lparr>dd_count := jx\<rparr>, s, w)
                  else Some (data, s, w))"

end
