(* ===== verification/Cdev_Chunks.thy ===== *)
theory Cdev_Chunks
  imports Cdev_Server Rtsym_Proof
begin

text \<open>
  The server moves the data of an area in pieces of 64 bytes. On a bus that meets the contract of the PCIe
  window, the pieces together are one read or write of the range.
\<close>

lemma u32_up: "unat (ucast (x :: u32) :: u64) = unat x"
proof -
  have "unat x < 2 ^ 32" using unsigned_less [of x, where 'a = nat] by simp
  then have "unat x < 2 ^ 64" by simp
  then show ?thesis by (simp add: unsigned_ucast_eq take_bit_nat_eq_self)
qed

lemma u32_down_up: "ucast (ucast (x :: u32) :: u64) = x"
  by (rule bit_word_eqI) (simp add: bit_unsigned_iff)

lemma chunk_len_min:
  assumes "unat sz < 2 ^ 31" "unat pos < unat sz"
  shows "unat (chunk_len sz pos) = min 64 (unat sz - unat pos)"
proof -
  have "(ucast pos :: u64) \<le> sz" using assms(2) by (simp add: word_le_nat_alt u32_up)
  then have d: "unat (sz - ucast pos) = unat sz - unat pos" using u32_up by (simp add: unat_sub)
  then have u: "unat (ucast (sz - ucast pos) :: u32) = unat sz - unat pos"
    using assms(1) by (simp add: unsigned_ucast_eq take_bit_nat_eq_self)
  then show ?thesis unfolding chunk_len_def Let_def by (auto simp: word_less_nat_alt min_def)
qed

lemma low_bits_add:
  fixes a b :: u64
  assumes "a AND mask k = 0" "b AND mask k = 0" "k \<le> 64"
  shows "(a + b) AND mask k = 0"
proof -
  have z: "unat a mod 2 ^ k = 0" "unat b mod 2 ^ k = 0" using assms(1,2) unat_and_mask [of a k] unat_and_mask [of b k] by simp_all
  have "(2 :: nat) ^ k dvd 2 ^ 64" using assms(3) by (rule le_imp_power_dvd)
  then have "unat (a + b) mod 2 ^ k = (unat a + unat b) mod 2 ^ k" by (simp add: unat_word_ariths mod_mod_cancel)
  also have "\<dots> = 0" using z by auto
  finally have "unat ((a + b) AND mask k) = 0" by (simp add: unat_and_mask)
  then show ?thesis by (simp only: unat_eq_zero)
qed

lemma aligned_low_bits:
  fixes p :: u64
  assumes "unat p mod 64 = 0" "k \<le> 6"
  shows "p AND mask k = 0"
proof -
  have "(2 :: nat) ^ k dvd 2 ^ 6" using assms(2) by (rule le_imp_power_dvd)
  then have "2 ^ k dvd unat p" using assms(1) by (auto elim: dvd_trans)
  then have "unat (p AND mask k) = 0" unfolding unat_and_mask by simp
  then show ?thesis by (simp only: unat_eq_zero)
qed

lemma chunk_multiple:
  fixes s p k :: nat
  assumes "p mod 64 = 0" "k dvd 64" "s mod k = 0"
  shows "min 64 (s - p) mod k = 0"
proof -
  have "k dvd p" using assms(1,2) by (auto elim: dvd_trans)
  then have "k dvd s - p" using assms(3) by (simp add: dvd_diff_nat mod_0_imp_dvd)
  then show ?thesis using assms(2) by (simp add: min_def)
qed

text \<open>The checks of an access hold for every piece when they hold for the whole range.\<close>

lemma chunk_check:
  assumes ck: "area_access_check wd priv 0 (ucast sz) = Inr is64" and wd: "wd = 4 \<or> wd = 8"
    and sz: "unat sz < 2 ^ 31" "ap_size priv = sz" and pos: "unat pos mod 64 = 0" "unat pos < unat sz"
  shows "area_access_check wd priv (ucast pos) (chunk_len sz pos) = Inr is64"
proof -
  let ?p = "ucast pos :: u64" and ?l = "chunk_len sz pos"
  have l: "unat ?l = min 64 (unat sz - unat pos)" by (rule chunk_len_min [OF sz(1) pos(2)])
  have "unat (?p + ucast ?l) = unat pos + unat ?l"
  proof -
    have "unat ?p + unat (ucast ?l :: u64) < 2 ^ 64" using sz(1) pos(2) l by (simp add: u32_up min_def split: if_splits)
    then show ?thesis using u32_up by (simp add: unat_add_small)
  qed
  moreover have "unat pos + unat ?l \<le> unat sz" using pos(2) l by linarith
  ultimately have e: "\<not> ?p + ucast ?l > ap_size priv" using sz(2) by (simp add: word_less_nat_alt not_less)
  have u: "unat (ucast sz :: u32) = unat sz" using block_lengths(2) [OF sz(1)] .
  have m: "word_of_int (wd - 1) = (mask (if wd = 4 then 2 else 3) :: u64)" using wd by (auto simp: mask_eq_exp_minus_1)
  have "ap_offset priv AND word_of_int (wd - 1) = 0" using ck wd by (auto simp: area_access_check_def Let_def split: if_splits)
  moreover have "?p AND word_of_int (wd - 1) = 0" unfolding m by (rule aligned_low_bits) (use pos(1) in \<open>simp_all add: u32_up\<close>)
  ultimately have al: "(ap_offset priv + ?p) AND word_of_int (wd - 1) = 0" unfolding m by (rule low_bits_add) simp
  have p8: "?p mod 8 = 0" "?p mod 4 = 0"
  proof -
    have "unat ?p mod 8 = 0" "unat ?p mod 4 = 0" unfolding u32_up using pos(1) by presburger+
    then have "unat (?p mod 8) = 0" "unat (?p mod 4) = 0" by (simp_all add: unat_mod)
    then show "?p mod 8 = 0" "?p mod 4 = 0" by (simp_all only: unat_eq_zero)
  qed
  have l8: "(ucast sz :: u32) mod 8 = 0 \<Longrightarrow> ?l mod 8 = 0" and l4: "(ucast sz :: u32) mod 4 = 0 \<Longrightarrow> ?l mod 4 = 0"
  proof -
    have c: "unat ((ucast sz :: u32) mod 8) = unat sz mod 8" "unat ((ucast sz :: u32) mod 4) = unat sz mod 4" "unat (?l mod 8) = unat ?l mod 8"
      "unat (?l mod 4) = unat ?l mod 4" using u by (simp_all add: unat_mod)
    have "unat sz mod 8 = 0 \<Longrightarrow> unat ?l mod 8 = 0" "unat sz mod 4 = 0 \<Longrightarrow> unat ?l mod 4 = 0"
      unfolding l using chunk_multiple [OF pos(1), of 8] chunk_multiple [OF pos(1), of 4] by simp_all
    then show "(ucast sz :: u32) mod 8 = 0 \<Longrightarrow> ?l mod 8 = 0" "(ucast sz :: u32) mod 4 = 0 \<Longrightarrow> ?l mod 4 = 0"
      using c by (metis unat_0 unat_eq_zero)+
  qed
  show ?thesis
    using ck wd e al p8 l8 l4 unfolding area_access_check_def Let_def by (auto split: if_splits)
qed

section \<open>An open area\<close>

lemma area_widths:
  assumes rdy: "bus_ready n w" and acc: "block_access n d a sz"
    and tr: "nfp_target_cpp dest address (Some (\<lambda>i. imb_cat_table (w_cpp w) ! i)) = Inr (d, a)"
    and al: "nfp_cpp_area_alloc_acquire M dest address sz w = (Some ar, w1)"
  shows "width_read (area_priv ar) = 4 \<or> width_read (area_priv ar) = 8"
    "width_write (area_priv ar) = 4 \<or> width_write (area_priv ar) = 8"
proof -
  have cm: "c_malloc w = (True, w)" using rdy by (simp add: bus_ready_def c_malloc_def)
  have aw: "width_read q = width_read p \<and> width_write q = width_write p" if "nfp6000_area_acquire p u = (e, q, u')"
    for p q e and u u' :: "'a world"
    using that by (auto simp: nfp6000_area_acquire_def Let_def split: option.splits if_splits)
  from rdy acc have "(width_read (area_priv ar) = 4 \<or> width_read (area_priv ar) = 8)
      \<and> (width_write (area_priv ar) = 4 \<or> width_write (area_priv ar) = 8)"
  proof (rule area_init_block [where M = M and ?p0.0 = area_priv_zero])
    fix b k priv
    assume k: "block_widths k priv sz" and r: "fst (nfp6000_area_init M d a sz area_priv_zero w) = 0"
      and pr: "fst (snd (nfp6000_area_init M d a sz area_priv_zero w)) = priv" and wd: "width_read priv = k" "width_write priv = k"
    define v where "v = snd (snd (nfp6000_area_init M d a sz area_priv_zero w))"
    have in1: "nfp6000_area_init M d a sz area_priv_zero w = (0, priv, v)" using r pr by (simp add: v_def prod_eq_iff)
    have "width_read (area_priv ar) = k \<and> width_write (area_priv ar) = k"
      using al tr in1 cm wd aw [of priv "v\<lparr>w_errno := w_errno w\<rparr>"]
      by (auto simp: nfp_cpp_area_alloc_acquire_def nfp_cpp_area_alloc_def nfp_cpp_area_alloc_with_name_def
          nfp_cpp_area_acquire_def Let_def split: if_splits prod.splits)
    then show ?thesis using k by (auto simp: block_widths_def)
  qed
  then show "width_read (area_priv ar) = 4 \<or> width_read (area_priv ar) = 8"
    "width_write (area_priv ar) = 4 \<or> width_write (area_priv ar) = 8" by simp_all
qed

context pcie2cpp
begin

lemma chunk_addr:
  assumes op: "area_open M n w d a sz b c ar w1" and wf: "cfg (w_pcie w) = win" "pcie_wf n (w_pcie w)"
    and a: "take_bit 40 a = a" "0 < unat sz" "unat sz < 2 ^ 31" and pos: "unat pos < unat sz"
  shows "ap_iomem (area_priv ar) + ucast pos = win + of_nat (Suc b * 2 ^ n + (unat a mod 2 ^ n + unat pos))"
    "p2c_base c + of_nat (unat a mod 2 ^ n + unat pos) = a + ucast (pos :: u32)"
    "unat a mod 2 ^ n + unat pos + unat (chunk_len sz pos) \<le> 2 ^ n"
    "\<not> ucast pos + ucast (chunk_len sz pos) > area_size ar"
proof -
  note ad = open_area_addr [OF op wf a]
  have p: "(of_nat (unat pos) :: u64) = ucast pos" unfolding u32_up [symmetric] by simp
  show "ap_iomem (area_priv ar) + ucast pos = win + of_nat (Suc b * 2 ^ n + (unat a mod 2 ^ n + unat pos))"
    unfolding ad(1) of_nat_add p by (simp only: add.assoc)
  show "p2c_base c + of_nat (unat a mod 2 ^ n + unat pos) = a + ucast pos"
    using ad(2) unfolding of_nat_add p by (simp only: add.assoc [symmetric])
  have l: "unat (chunk_len sz pos) = min 64 (unat sz - unat pos)" by (rule chunk_len_min [OF a(3) pos])
  then have s: "unat pos + unat (chunk_len sz pos) \<le> unat sz" using pos by linarith
  then show "unat a mod 2 ^ n + unat pos + unat (chunk_len sz pos) \<le> 2 ^ n" using ad(3) by linarith
  have "unat (ucast pos :: u64) + unat (ucast (chunk_len sz pos) :: u64) < 2 ^ 64" using s a(3) unfolding u32_up by simp
  then have "unat ((ucast pos :: u64) + ucast (chunk_len sz pos)) = unat pos + unat (chunk_len sz pos)"
    using u32_up by (simp add: unat_add_small)
  then show "\<not> ucast pos + ucast (chunk_len sz pos) > area_size ar"
    using s op by (simp add: area_open_def word_less_nat_alt)
qed

lemma chunk_sint:
  assumes "unat sz < 2 ^ 31" "unat pos < unat sz"
  shows "sint (chunk_len sz pos) = int (unat (chunk_len sz pos))" "0 < unat (chunk_len sz pos)"
proof -
  have l: "unat (chunk_len sz pos) = min 64 (unat sz - unat pos)" by (rule chunk_len_min [OF assms])
  then show "0 < unat (chunk_len sz pos)" using assms(2) by simp
  have "unat (ucast (chunk_len sz pos) :: u64) < 2 ^ 31" unfolding u32_up l by simp
  from sint_small [OF this] show "sint (chunk_len sz pos) = int (unat (chunk_len sz pos))" by (simp add: u32_up)
qed

text \<open>One piece of a read, from any state in which the BAR still has the configuration of the area.\<close>

lemma chunk_read:
  assumes op: "area_open M n w d a sz b c ar w1" and wf: "cfg (w_pcie w) = win" "pcie_wf n (w_pcie w)"
    and a: "take_bit 40 a = a" "0 < unat sz" "unat sz < 2 ^ 31" and pos: "unat pos mod 64 = 0" "unat pos < unat sz"
    and ck: "area_access_check wd (area_priv ar) 0 (ucast sz) = Inr is64" "wd = 4 \<or> wd = 8" "wd = width_read (area_priv ar)"
    and v: "csr (w_hw v) (Suc b) = c"
  shows "nfp_cpp_area_read M ar (ucast pos) (ucast (chunk_len sz pos)) v =
    (int (unat (chunk_len sz pos)), mem_rd (cmem (w_hw v) (port_of d)) (a + ucast pos) (unat (chunk_len sz pos)), v)"
proof -
  let ?l = "chunk_len sz pos" and ?o = "unat a mod 2 ^ n + unat pos"
  note ad = open_area_addr [OF op wf a] and ca = chunk_addr [OF op wf a pos(2)]
  have ps: "ap_size (area_priv ar) = sz" using op by (simp add: area_open_def)
  have c: "area_access_check (width_read (area_priv ar)) (area_priv ar) (ucast pos) ?l = Inr is64"
    using chunk_check [OF ck(1,2) a(3) ps pos] ck(3) by simp
  note wd = access_check_words [OF c]
  have "(if is64 then rd64s M (ap_iomem (area_priv ar) + ucast pos) (unat ?l div 8) (w_hw v)
      else rd32s M (ap_iomem (area_priv ar) + ucast pos) (unat ?l div 4) (w_hw v)) =
      (mem_rd (cmem (w_hw v) (port_of d)) (a + ucast pos) (unat ?l), w_hw v)"
    using rd64s_mem [OF ad(4,5), of ?o "unat ?l div 8" "w_hw v"] rd32s_mem [OF ad(4,5), of ?o "unat ?l div 4" "w_hw v"]
      ca(3) ad(8) v wd unfolding ca(1) ca(2) [symmetric] by (simp split: if_split)
  moreover have "(ucast (ucast ?l :: u64) :: u32) = ?l" by (rule u32_down_up)
  ultimately show ?thesis
    using c ca(4) chunk_sint(1) [OF a(3) pos(2)] by (simp add: nfp_cpp_area_read_def nfp6000_area_read_def)
qed

lemma chunk_write:
  assumes op: "area_open M n w d a sz b c ar w1" and wf: "cfg (w_pcie w) = win" "pcie_wf n (w_pcie w)"
    and a: "take_bit 40 a = a" "0 < unat sz" "unat sz < 2 ^ 31" and pos: "unat pos mod 64 = 0" "unat pos < unat sz"
    and ck: "area_access_check wd (area_priv ar) 0 (ucast sz) = Inr is64" "wd = 4 \<or> wd = 8" "wd = width_write (area_priv ar)"
    and v: "csr (w_hw v) (Suc b) = c" and bs: "length bs = unat (chunk_len sz pos)"
  obtains h where "nfp_cpp_area_write M ar (ucast pos) bs (ucast (chunk_len sz pos)) v =
      (int (unat (chunk_len sz pos)), v\<lparr>w_hw := h\<rparr>)" "csr h = csr (w_hw v)"
    "cmem h = (cmem (w_hw v))(port_of d := mem_wr (cmem (w_hw v) (port_of d)) (a + ucast pos) bs)"
proof -
  let ?l = "chunk_len sz pos" and ?o = "unat a mod 2 ^ n + unat pos"
  note ad = open_area_addr [OF op wf a] and ca = chunk_addr [OF op wf a pos(2)]
  have ps: "ap_size (area_priv ar) = sz" using op by (simp add: area_open_def)
  have c: "area_access_check (width_write (area_priv ar)) (area_priv ar) (ucast pos) ?l = Inr is64"
    using chunk_check [OF ck(1,2) a(3) ps pos] ck(3) by simp
  note wd = access_check_words [OF c]
  define h where "h = (if is64 then wr64s M (ap_iomem (area_priv ar) + ucast pos) (unat ?l div 8) bs (w_hw v)
      else wr32s M (ap_iomem (area_priv ar) + ucast pos) (unat ?l div 4) bs (w_hw v))"
  have "csr h = csr (w_hw v) \<and> cmem h = (cmem (w_hw v))(port_of d := mem_wr (cmem (w_hw v) (port_of d)) (a + ucast pos) bs)"
    using wr64s_mem [OF ad(4,5), of ?o "unat ?l div 8" bs "w_hw v"] wr32s_mem [OF ad(4,5), of ?o "unat ?l div 4" bs "w_hw v"]
      ca(3) ad(8) v wd bs unfolding h_def ca(1) ca(2) [symmetric] by (simp split: if_split)
  moreover have "(ucast (ucast ?l :: u64) :: u32) = ?l" by (rule u32_down_up)
  then have "nfp_cpp_area_write M ar (ucast pos) bs (ucast ?l) v = (int (unat ?l), v\<lparr>w_hw := h\<rparr>)"
    using c ca(4) chunk_sint(1) [OF a(3) pos(2)] by (simp add: nfp_cpp_area_write_def nfp6000_area_write_def h_def Let_def)
  ultimately show thesis using that by blast
qed

lemma chunk_next:
  assumes "unat sz < 2 ^ 31" "unat pos mod 64 = 0" "unat pos < unat sz"
  shows "unat (pos + chunk_len sz pos) = unat pos + unat (chunk_len sz pos)" "unat (pos + chunk_len sz pos) \<le> unat sz"
    "unat (pos + chunk_len sz pos) mod 64 = 0 \<or> unat (pos + chunk_len sz pos) = unat sz"
proof -
  have l: "unat (chunk_len sz pos) = min 64 (unat sz - unat pos)" by (rule chunk_len_min [OF assms(1,3)])
  have "unat pos + unat (chunk_len sz pos) \<le> unat sz" unfolding l using assms(3) by linarith
  then show e: "unat (pos + chunk_len sz pos) = unat pos + unat (chunk_len sz pos)" using assms(1) by (simp add: unat_add_small)
  show "unat (pos + chunk_len sz pos) \<le> unat sz" unfolding e l using assms(3) by linarith
  show "unat (pos + chunk_len sz pos) mod 64 = 0 \<or> unat (pos + chunk_len sz pos) = unat sz"
    unfolding e l using assms(2,3) by (cases "64 \<le> unat sz - unat pos") simp_all
qed

text \<open>All pieces of a range.\<close>

lemma read_chunks_range:
  assumes op: "area_open M n w d a sz b c ar w1" and wf: "cfg (w_pcie w) = win" "pcie_wf n (w_pcie w)"
    and a: "take_bit 40 a = a" "0 < unat sz" "unat sz < 2 ^ 31"
    and ck: "area_access_check wd (area_priv ar) 0 (ucast sz) = Inr is64" "wd = 4 \<or> wd = 8" "wd = width_read (area_priv ar)"
    and v: "csr (w_hw v) (Suc b) = c"
    and pos: "unat pos mod 64 = 0 \<or> unat pos = unat sz" "unat pos \<le> unat sz" "0 \<le> err"
  shows "\<exists>e. 0 \<le> e \<and> read_chunks M True ar sz pos err buf v =
    Some (e, ucast sz, buf @ mem_rd (cmem (w_hw v) (port_of d)) (a + ucast pos) (unat sz - unat pos), v)"
  using pos
proof (induction "unat sz - unat pos" arbitrary: pos err buf rule: less_induct)
  case less
  show ?case
  proof (cases "unat pos < unat sz")
    case False
    then have e: "unat pos = unat sz" using less.prems by simp
    then have "\<not> (ucast pos :: u64) < sz" by (simp add: word_less_nat_alt u32_up)
    moreover have "ucast sz = pos" using e block_lengths(2) [OF a(3)] by (metis word_unat_eq_iff)
    ultimately show ?thesis using e less.prems(3) by (simp add: read_chunks.simps [of _ _ _ _ pos])
  next
    case True
    have m: "unat pos mod 64 = 0" using less.prems(1) True by auto
    let ?l = "chunk_len sz pos" let ?m = "cmem (w_hw v) (port_of d)"
    have lt: "(ucast pos :: u64) < sz" using True by (simp add: word_less_nat_alt u32_up)
    note nx = chunk_next [OF a(3) m True] and cp = chunk_sint [OF a(3) True]
    have "read_chunks M True ar sz pos err buf v =
        read_chunks M True ar sz (pos + ?l) (int (unat ?l)) (buf @ mem_rd ?m (a + ucast pos) (unat ?l)) v"
      using lt chunk_read [OF op wf a m True ck v] by (simp add: read_chunks.simps [of _ _ _ _ pos] Let_def)
    moreover have "unat sz - unat (pos + ?l) < unat sz - unat pos" using nx(1,2) cp(2) True by linarith
    from less.hyps [OF this nx(3,2), of "int (unat ?l)" "buf @ mem_rd ?m (a + ucast pos) (unat ?l)"]
    obtain e where "0 \<le> e" "read_chunks M True ar sz (pos + ?l) (int (unat ?l)) (buf @ mem_rd ?m (a + ucast pos) (unat ?l)) v =
        Some (e, ucast sz, (buf @ mem_rd ?m (a + ucast pos) (unat ?l)) @ mem_rd ?m (a + ucast (pos + ?l)) (unat sz - unat (pos + ?l)), v)"
      by auto
    moreover have "(ucast (pos + ?l) :: u64) = ucast pos + of_nat (unat ?l)"
    proof -
      have "unat (ucast pos + of_nat (unat ?l) :: u64) = unat pos + unat ?l"
        using nx(1,2) a(3) by (simp add: unat_word_ariths u32_up)
      then show ?thesis using nx(1) by (simp add: word_unat_eq_iff u32_up)
    qed
    ultimately have "read_chunks M True ar sz pos err buf v = Some (e, ucast sz, buf @ mem_rd ?m (a + ucast pos)
        (unat ?l + (unat sz - unat (pos + ?l))), v)"
      using mem_rd_split [of ?m "a + ucast pos" "unat ?l" "unat sz - unat (pos + ?l)"] by (simp add: add.assoc)
    moreover have "unat ?l + (unat sz - unat (pos + ?l)) = unat sz - unat pos" using nx(1,2) by linarith
    ultimately show ?thesis using \<open>0 \<le> e\<close> by auto
  qed
qed

lemma chunk_advance:
  assumes "unat sz < 2 ^ 31" "unat pos mod 64 = 0" "unat pos < unat sz"
  shows "(ucast (pos + chunk_len sz pos) :: u64) = ucast pos + of_nat (unat (chunk_len sz pos))"
proof -
  note nx = chunk_next [OF assms]
  have "unat (ucast pos + of_nat (unat (chunk_len sz pos)) :: u64) = unat pos + unat (chunk_len sz pos)"
    using nx(1,2) assms(1) by (simp add: unat_word_ariths u32_up)
  then show ?thesis using nx(1) by (simp add: word_unat_eq_iff u32_up)
qed

lemma write_chunks_range:
  assumes op: "area_open M n w d a sz b c ar w1" and wf: "cfg (w_pcie w) = win" "pcie_wf n (w_pcie w)"
    and a: "take_bit 40 a = a" "0 < unat sz" "unat sz < 2 ^ 31"
    and ck: "area_access_check wd (area_priv ar) 0 (ucast sz) = Inr is64" "wd = 4 \<or> wd = 8" "wd = width_write (area_priv ar)"
    and buff: "unat sz \<le> length buff"
    and v: "csr (w_hw v) (Suc b) = c" and pos: "unat pos mod 64 = 0 \<or> unat pos = unat sz" "unat pos \<le> unat sz"
  shows "\<exists>h. write_chunks M ar sz pos buff v = Some (Some (ucast sz), v\<lparr>w_hw := h\<rparr>)
    \<and> cmem h = (cmem (w_hw v))(port_of d :=
        mem_wr (cmem (w_hw v) (port_of d)) (a + ucast pos) (take (unat sz - unat pos) (drop (unat pos) buff)))"
  using v pos
proof (induction "unat sz - unat pos" arbitrary: pos v rule: less_induct)
  case less
  show ?case
  proof (cases "unat pos < unat sz")
    case False
    then have e: "unat pos = unat sz" using less.prems by simp
    then have "\<not> (ucast pos :: u64) < sz" by (simp add: word_less_nat_alt u32_up)
    moreover have "ucast sz = pos" using e block_lengths(2) [OF a(3)] by (metis word_unat_eq_iff)
    ultimately show ?thesis using e by (intro exI [of _ "w_hw v"]) (simp add: write_chunks.simps [of _ _ _ pos])
  next
    case True
    have m: "unat pos mod 64 = 0" using less.prems(2) True by auto
    let ?l = "chunk_len sz pos" let ?m = "cmem (w_hw v) (port_of d)"
    let ?bs = "take (unat ?l) (drop (unat pos) buff)"
    have lt: "(ucast pos :: u64) < sz" using True by (simp add: word_less_nat_alt u32_up)
    note nx = chunk_next [OF a(3) m True] and cp = chunk_sint [OF a(3) True] and ad = chunk_advance [OF a(3) m True]
    have lb: "length ?bs = unat ?l" using buff nx(1,2) by simp
    obtain h where h: "nfp_cpp_area_write M ar (ucast pos) ?bs (ucast ?l) v = (int (unat ?l), v\<lparr>w_hw := h\<rparr>)"
      "csr h = csr (w_hw v)" "cmem h = (cmem (w_hw v))(port_of d := mem_wr ?m (a + ucast pos) ?bs)"
      by (rule chunk_write [OF op wf a m True ck less.prems(1) lb])
    have "write_chunks M ar sz pos buff v = write_chunks M ar sz (pos + ?l) buff (v\<lparr>w_hw := h\<rparr>)"
      using lt h(1) by (simp add: write_chunks.simps [of _ _ _ pos] Let_def)
    moreover have "unat sz - unat (pos + ?l) < unat sz - unat pos" using nx(1,2) cp(2) True by linarith
    from less.hyps [OF this _ nx(3,2), of "v\<lparr>w_hw := h\<rparr>"]
    obtain h2 where "write_chunks M ar sz (pos + ?l) buff (v\<lparr>w_hw := h\<rparr>) = Some (Some (ucast sz), v\<lparr>w_hw := h2\<rparr>)"
      "cmem h2 = (cmem h)(port_of d := mem_wr (cmem h (port_of d)) (a + ucast (pos + ?l))
         (take (unat sz - unat (pos + ?l)) (drop (unat (pos + ?l)) buff)))"
      using h(2) less.prems(1) by auto
    moreover have "take (unat sz - unat pos) (drop (unat pos) buff) =
        ?bs @ take (unat sz - unat (pos + ?l)) (drop (unat (pos + ?l)) buff)"
    proof -
      have s: "unat sz - unat pos = unat ?l + (unat sz - unat (pos + ?l))" using nx(1,2) by linarith
      show ?thesis unfolding s take_add nx(1) by (simp add: add.commute)
    qed
    ultimately show ?thesis
      using h(3) mem_wr_append [of ?m "a + ucast pos" ?bs] lb ad by (auto simp: add.assoc intro!: exI [of _ h2])
  qed
qed

section \<open>One area\<close>

lemma named_area:
  assumes "nfp_cpp_area_alloc_acquire M dest address sz w = (Some ar, w1)"
  obtains ar0 w0 where "nfp_cpp_area_alloc_with_name M dest nm address sz w = (Some ar0, w0)"
    "nfp_cpp_area_acquire ar0 w0 = (0, ar\<lparr>area_name := nm\<rparr>, w1)"
proof -
  obtain ar1 w2 where al: "nfp_cpp_area_alloc M dest address sz w = (Some ar1, w2)" "nfp_cpp_area_acquire ar1 w2 = (0, ar, w1)"
    using assms by (auto simp: nfp_cpp_area_alloc_acquire_def split: option.splits prod.splits if_splits)
  have "nfp_cpp_area_alloc_with_name M dest nm address sz w = (Some (ar1\<lparr>area_name := nm\<rparr>), w2)"
    using al(1) by (auto simp: nfp_cpp_area_alloc_def nfp_cpp_area_alloc_with_name_def Let_def split: if_splits sum.splits prod.splits)
  moreover have "nfp_cpp_area_acquire (ar1\<lparr>area_name := nm\<rparr>) w2 = (0, ar\<lparr>area_name := nm\<rparr>, w1)"
    using al(2) by (auto simp: nfp_cpp_area_acquire_def Let_def split: prod.splits if_splits)
  ultimately show thesis by (rule that)
qed

lemma release_name: "nfp_cpp_area_release_free (ar\<lparr>area_name := nm\<rparr>) u = nfp_cpp_area_release_free ar u"
  by (simp add: nfp_cpp_area_release_free_def nfp_cpp_area_release_def nfp_cpp_area_free_def Let_def split: prod.splits)

lemma opened_released_ready:
  fixes w w1 w2 :: "'h world"
  assumes rdy: "bus_ready n w" "cfg (w_pcie w) = win" and al: "nfp_cpp_area_alloc_acquire M dest address sz w = (Some ar, w1)"
    and op: "area_open M n w d a sz b c ar w1"
    and mid: "w_pcie w2 = w_pcie w1" "w_cpp w2 = w_cpp w1" "w_fault w2 = w_fault w1" "w_mallocs w2 = w_mallocs w1"
  shows "bus_ready n (nfp_cpp_area_release_free ar w2)" "cfg (w_pcie (nfp_cpp_area_release_free ar w2)) = win"
    "w_cpp (nfp_cpp_area_release_free ar w2) = w_cpp w" "w_fault (nfp_cpp_area_release_free ar w2) = w_fault w"
    "w_hw (nfp_cpp_area_release_free ar w2) = w_hw w2"
proof -
  have wf: "pcie_wf n (w_pcie w)" and m0: "w_mallocs w = []" using rdy by (simp_all add: bus_ready_def)
  have same: "bus_same n w (nfp_cpp_area_release_free ar w2)" by (rule opened_and_released [OF al wf mid(1-3)])
  have "w_mallocs w2 = []" using alloc_acquire_mallocs [OF m0, of M dest address sz] al mid(4) by simp
  then show "bus_ready n (nfp_cpp_area_release_free ar w2)"
    using bus_ready_same [OF rdy(1) same] release_mallocs [of ar w2] by simp
  have pv: "ap_bar (area_priv ar) = Some b" "pcie_wf n (w_pcie w2)" "cfg (w_pcie w1) = win"
    using op rdy(2) mid(1) by (simp_all add: area_open_def)
  show "cfg (w_pcie (nfp_cpp_area_release_free ar w2)) = win" "w_hw (nfp_cpp_area_release_free ar w2) = w_hw w2"
    using release_unlocks(5,6) [OF pv(1,2)] pv(3) mid(1) by simp_all
  show "w_cpp (nfp_cpp_area_release_free ar w2) = w_cpp w" "w_fault (nfp_cpp_area_release_free ar w2) = w_fault w"
    using same by (simp_all add: bus_same_def)
qed

lemma read_piece:
  assumes rdy: "bus_ready n w" "cfg (w_pcie w) = win" and b: "device_block n (cmem (w_hw w)) (w_cpp w) dest address bs"
    and sz: "sz = of_nat (length bs)" "count \<noteq> 0"
  obtains w' where "dev_read_loop M True dest address sz count tot buf w =
      dev_read_loop M True dest (address + sz) (if count - sz > NFP_CPP_MEMIO_BOUNDARY then NFP_CPP_MEMIO_BOUNDARY else count - sz)
        (count - sz) (tot + sz) (buf @ bs) w'"
    "bus_ready n w'" "cfg (w_pcie w') = win" "w_cpp w' = w_cpp w" "cmem (w_hw w') = cmem (w_hw w)" "w_fault w' = w_fault w"
proof -
  obtain d a where t: "nfp_target_cpp dest address (Some (\<lambda>i. imb_cat_table (w_cpp w) ! i)) = Inr (d, a)"
    and k: "block_access n d a sz" "take_bit 40 a = a" "address + sz \<le> push_bit 40 1"
      "mem_rd (cmem (w_hw w) (port_of d)) a (length bs) = bs" using b unfolding device_block_def sz(1) by blast
  have s: "0 < unat sz" "unat sz < 2 ^ 31" using k(1) by (simp_all add: block_access_def)
  have wf: "pcie_wf n (w_pcie w)" using rdy by (simp add: bus_ready_def)
  obtain ar w1 is64 where al: "nfp_cpp_area_alloc_acquire M dest address sz w = (Some ar, w1)"
    and ck: "area_access_check (width_read (area_priv ar)) (area_priv ar) 0 (ucast sz) = Inr is64"
    by (rule alloc_acquire_block [OF rdy(1) k(1) t k(3), of M]) blast
  note wd = area_widths(1) [OF rdy(1) k(1) t al]
  obtain x c where op: "area_open M n w d a sz x c ar w1" by (rule alloc_acquire_open [OF al wf t k(2)]) blast
  note ad = open_area_addr [OF op rdy(2) wf k(2) s]
  let ?ar = "ar\<lparr>area_name := ''nfp.cdev''\<rparr>"
  have op': "area_open M n w d a sz x c ?ar w1" using op by (simp add: area_open_def)
  have ck': "area_access_check (width_read (area_priv ar)) (area_priv ?ar) 0 (ucast sz) = Inr is64"
    "width_read (area_priv ar) = width_read (area_priv ?ar)" using ck by simp_all
  have u: "unat (0 :: u32) mod 64 = 0 \<or> unat (0 :: u32) = unat sz" "unat (0 :: u32) \<le> unat sz" "(0 :: int) \<le> 0" by simp_all
  have lb: "length bs < 2 ^ 31" using b unfolding device_block_def by blast
  then have us: "unat sz = length bs" unfolding sz(1) by (simp add: unat_of_nat)
  from read_chunks_range [OF op' rdy(2) wf k(2) s ck'(1) wd ck'(2) ad(6) u, of buf]
  obtain e where "0 \<le> e" "read_chunks M True ?ar sz 0 0 buf w1 =
      Some (e, ucast sz, buf @ mem_rd (cmem (w_hw w1) (port_of d)) (a + ucast (0 :: u32)) (unat sz - unat (0 :: u32)), w1)" by blast
  then have e: "0 \<le> e" "read_chunks M True ?ar sz 0 0 buf w1 = Some (e, ucast sz, buf @ bs, w1)" using ad(7) k(4) us by simp_all
  obtain ar0 w0 where nm: "nfp_cpp_area_alloc_with_name M dest ''nfp.cdev'' address sz w = (Some ar0, w0)"
    "nfp_cpp_area_acquire ar0 w0 = (0, ?ar, w1)" by (rule named_area [OF al])
  let ?w = "nfp_cpp_area_release_free ar w1"
  note rl = opened_released_ready [OF rdy al op refl refl refl refl]
  obtain ar3 w3 where rf: "nfp_cpp_area_release ?ar w1 = (ar3, w3)" by (metis surj_pair)
  have w3: "nfp_cpp_area_free ar3 w3 = ?w" using rf release_name [of "''nfp.cdev''" ar w1] by (simp add: nfp_cpp_area_release_free_def)
  have "dev_read_loop M True dest address sz count tot buf w =
      dev_read_loop M True dest (address + sz) (if count - sz > NFP_CPP_MEMIO_BOUNDARY then NFP_CPP_MEMIO_BOUNDARY else count - sz)
        (count - sz) (tot + sz) (buf @ bs) ?w"
    using sz(2) nm e rf w3 block_lengths(3) [OF s(2)] by (simp add: dev_read_loop.simps [of _ _ _ _ sz] Let_def)
  then show thesis using that rl ad(7) by simp
qed

lemma write_piece:
  assumes rdy: "bus_ready n w" "cfg (w_pcie w) = win" and acc: "block_access n d a sz" "take_bit 40 a = a"
    and t: "nfp_target_cpp dest address (Some (\<lambda>i. imb_cat_table (w_cpp w) ! i)) = Inr (d, a)" "address + sz \<le> push_bit 40 1"
    and bs: "unat sz = length bs"
  obtains w' where "dev_write_loop M dest address sz sz 0 bs w = Some (Inr sz, w')"
    "bus_ready n w'" "cfg (w_pcie w') = win" "w_cpp w' = w_cpp w" "w_fault w' = w_fault w"
    "cmem (w_hw w') = (cmem (w_hw w))(port_of d := mem_wr (cmem (w_hw w) (port_of d)) a bs)"
proof -
  have s: "0 < unat sz" "unat sz < 2 ^ 31" using acc(1) by (simp_all add: block_access_def)
  have wf: "pcie_wf n (w_pcie w)" using rdy by (simp add: bus_ready_def)
  obtain ar w1 is64 where al: "nfp_cpp_area_alloc_acquire M dest address sz w = (Some ar, w1)"
    and ck: "area_access_check (width_write (area_priv ar)) (area_priv ar) 0 (ucast sz) = Inr is64"
    by (rule alloc_acquire_block [OF rdy(1) acc(1) t, of M]) blast
  note wd = area_widths(2) [OF rdy(1) acc(1) t(1) al]
  obtain x c where op: "area_open M n w d a sz x c ar w1" by (rule alloc_acquire_open [OF al wf t(1) acc(2)]) blast
  note ad = open_area_addr [OF op rdy(2) wf acc(2) s]
  let ?ar = "ar\<lparr>area_name := ''nfp.cdev''\<rparr>"
  have op': "area_open M n w d a sz x c ?ar w1" using op by (simp add: area_open_def)
  have ck': "area_access_check (width_write (area_priv ar)) (area_priv ?ar) 0 (ucast sz) = Inr is64"
    "width_write (area_priv ar) = width_write (area_priv ?ar)" using ck by simp_all
  have u: "unat (0 :: u32) mod 64 = 0 \<or> unat (0 :: u32) = unat sz" "unat (0 :: u32) \<le> unat sz" "unat sz \<le> length bs" using bs by simp_all
  from write_chunks_range [OF op' rdy(2) wf acc(2) s ck'(1) wd ck'(2) u(3) ad(6) u(1,2)]
  obtain h where "write_chunks M ?ar sz 0 bs w1 = Some (Some (ucast sz), w1\<lparr>w_hw := h\<rparr>)"
    "cmem h = (cmem (w_hw w1))(port_of d := mem_wr (cmem (w_hw w1) (port_of d)) (a + ucast (0 :: u32))
       (take (unat sz - unat (0 :: u32)) (drop (unat (0 :: u32)) bs)))" by blast
  then have h: "write_chunks M ?ar sz 0 bs w1 = Some (Some (ucast sz), w1\<lparr>w_hw := h\<rparr>)"
    "cmem h = (cmem (w_hw w))(port_of d := mem_wr (cmem (w_hw w) (port_of d)) a bs)" using ad(7) bs by simp_all
  obtain ar0 w0 where nm: "nfp_cpp_area_alloc_with_name M dest ''nfp.cdev'' address sz w = (Some ar0, w0)"
    "nfp_cpp_area_acquire ar0 w0 = (0, ?ar, w1)" by (rule named_area [OF al])
  let ?w = "nfp_cpp_area_release_free ar (w1\<lparr>w_hw := h\<rparr>)"
  have mid: "w_pcie (w1\<lparr>w_hw := h\<rparr>) = w_pcie w1" "w_cpp (w1\<lparr>w_hw := h\<rparr>) = w_cpp w1" "w_fault (w1\<lparr>w_hw := h\<rparr>) = w_fault w1"
    "w_mallocs (w1\<lparr>w_hw := h\<rparr>) = w_mallocs w1" by simp_all
  note rl = opened_released_ready [OF rdy al op mid]
  have "dev_write_loop M dest address sz sz 0 bs w = Some (Inr sz, ?w)"
    using s nm h release_name [of "''nfp.cdev''" ar "w1\<lparr>w_hw := h\<rparr>"] block_lengths(3) [OF s(2)]
    by (auto simp: dev_write_loop.simps [of _ _ _ sz] dev_write_loop.simps [of _ _ _ _ 0] Let_def)
  then show thesis using that rl h(2) by simp
qed

end

end
