(* ===== verification/Cdev_Shim.thy ===== *)
theory Cdev_Shim
  imports Cdev_Wire C_Text
begin

text \<open>
  The shim (shim/interpose.c): it is loaded into a client program and replaces the calls that open, read, write
  and control files. Calls on the device file become messages to the device server, all others go to
  the C library. An access outside of an array, and a loop that does not end, are \<open>None\<close>.
\<close>

section \<open>State\<close>

datatype fd_type = FD_UNUSED | FD_CPP | FD_LIBC

definition MAX_FD :: int where "MAX_FD = 1024 * 1024"
definition EMFILE :: int where "EMFILE = 24"

record 's shim =
  fd_status :: "int \<Rightarrow> fd_type"
  sh_errno :: int
  sh_sock :: 's

text \<open>The C library: results, the value of \<open>errno\<close> afterwards, and the state.\<close>

record 's libc =
  libc_sys :: "'s sys"
  libc_socket :: "'s \<Rightarrow> int \<times> int \<times> 's"
  libc_connect :: "int \<Rightarrow> u8 list \<Rightarrow> 's \<Rightarrow> int \<times> int \<times> 's"
  libc_open :: "u8 list \<Rightarrow> int \<Rightarrow> 's \<Rightarrow> int \<times> int \<times> 's"
  libc_open64 :: "u8 list \<Rightarrow> int \<Rightarrow> 's \<Rightarrow> int \<times> int \<times> 's"
  libc_pread :: "int \<Rightarrow> u64 \<Rightarrow> u64 \<Rightarrow> 's \<Rightarrow> (int \<times> u8 list) \<times> int \<times> 's"
  libc_pread64 :: "int \<Rightarrow> u64 \<Rightarrow> u64 \<Rightarrow> 's \<Rightarrow> (int \<times> u8 list) \<times> int \<times> 's"
  libc_pwrite :: "int \<Rightarrow> u8 list \<Rightarrow> u64 \<Rightarrow> u64 \<Rightarrow> 's \<Rightarrow> int \<times> int \<times> 's"
  libc_pwrite64 :: "int \<Rightarrow> u8 list \<Rightarrow> u64 \<Rightarrow> u64 \<Rightarrow> 's \<Rightarrow> int \<times> int \<times> 's"
  libc_ioctl :: "int \<Rightarrow> u64 \<Rightarrow> u8 list option \<Rightarrow> 's \<Rightarrow> (int \<times> u8 list option) \<times> int \<times> 's"

definition status_of :: "'s shim \<Rightarrow> int \<Rightarrow> fd_type option" where
  "status_of st fd = (if 0 \<le> fd \<and> fd < MAX_FD then Some (fd_status st fd) else None)"

section \<open>Opening and closing\<close>

text \<open>The connection to the server: the descriptor, or -1.\<close>

definition shim_connect :: "'s libc \<Rightarrow> 's shim \<Rightarrow> int \<times> 's shim" where
  "shim_connect L st =
     (case libc_socket L (sh_sock st) of (fd, e, s) \<Rightarrow>
        if fd < 0 then (-1, st\<lparr>sh_errno := e, sh_sock := s\<rparr>)
        else if fd \<ge> MAX_FD then (-1, st\<lparr>sh_errno := EMFILE, sh_sock := s\<rparr>)
        else case libc_connect L fd (ascii ''/tmp/nfp_cpp'') s of (r, e, s) \<Rightarrow>
          if r < 0
          then let (_, s) = sys_close (libc_sys L) fd s in (-1, st\<lparr>sh_errno := e, sh_sock := s\<rparr>)
          else (fd, st\<lparr>fd_status := (fd_status st)(fd := FD_CPP), sh_sock := s\<rparr>))"

definition shim_open :: "'s libc \<Rightarrow> u8 list \<Rightarrow> int \<Rightarrow> 's shim \<Rightarrow> int \<times> 's shim" where
  "shim_open L pathname flags st =
     (if pathname = ascii ''/dev/nfp-cpp-0''
      then case shim_connect L st of (fd, st) \<Rightarrow> if fd < 0 then (-1, st) else (0, st)
      else case libc_open L pathname flags (sh_sock st) of (r, e, s) \<Rightarrow> (r, st\<lparr>sh_errno := e, sh_sock := s\<rparr>))"

definition shim_open64 :: "'s libc \<Rightarrow> u8 list \<Rightarrow> int \<Rightarrow> 's shim \<Rightarrow> int \<times> 's shim" where
  "shim_open64 L pathname flags st =
     (if pathname = ascii ''/dev/nfp-cpp-0'' then shim_connect L st
      else case libc_open64 L pathname flags (sh_sock st) of (r, e, s) \<Rightarrow> (r, st\<lparr>sh_errno := e, sh_sock := s\<rparr>))"

definition shim_openat :: "'s libc \<Rightarrow> int \<Rightarrow> u8 list \<Rightarrow> int \<Rightarrow> 's shim \<Rightarrow> int \<times> 's shim" where
  "shim_openat L dirfd pathname flags st =
     (if (pathname @ [0]) ! 0 = 0x2f then shim_open L pathname flags st else (-1, st\<lparr>sh_errno := errno_code ENOTDIR\<rparr>))"

definition shim_close :: "'s libc \<Rightarrow> int \<Rightarrow> 's shim \<Rightarrow> (int \<times> 's shim) option" where
  "shim_close L fd st =
     (case sys_close (libc_sys L) fd (sh_sock st) of (ret, s) \<Rightarrow>
        if ret = 0
        then if 0 \<le> fd \<and> fd < MAX_FD
             then Some (ret, st\<lparr>fd_status := (fd_status st)(fd := FD_UNUSED), sh_sock := s\<rparr>) else None
        else Some (ret, st\<lparr>sh_sock := s\<rparr>))"

text \<open>The common end of a call that failed on the socket.\<close>

definition socket_error :: "'s libc \<Rightarrow> int \<Rightarrow> 's shim \<Rightarrow> 's shim option" where
  "socket_error L fd st = map_option (\<lambda>(_, st). st\<lparr>sh_errno := errno_code EIO\<rparr>) (shim_close L fd st)"

section \<open>Reading and writing\<close>

text \<open>The three words of a request; \<open>False\<close> when a write was short.\<close>

definition send_request :: "'s sys \<Rightarrow> int \<Rightarrow> u64 \<Rightarrow> u64 \<Rightarrow> u64 \<Rightarrow> 's \<Rightarrow> bool \<times> 's" where
  "send_request S fd op count offset s =
     (let (ret, s) = write_u64 S fd op s
      in if lt_sizeof ret 8 then (False, s)
         else
           let (ret, s) = write_u64 S fd count s
           in if lt_sizeof ret 8 then (False, s)
              else let (ret, s) = write_u64 S fd offset s in (\<not> lt_sizeof ret 8, s))"

definition as_int :: "u64 \<Rightarrow> int" where
  "as_int temp = sint (ucast temp :: u32)"

definition cpp_pread :: "'s libc \<Rightarrow> int \<Rightarrow> u64 \<Rightarrow> u64 \<Rightarrow> 's shim \<Rightarrow> ((int \<times> u8 list) \<times> 's shim) option" where
  "cpp_pread L fd count offset st =
     (let S = libc_sys L; (ok, s) = send_request S fd OP_PREAD count offset (sh_sock st);
          fail = (\<lambda>s. map_option (\<lambda>st. ((-1, []), st)) (socket_error L fd (st\<lparr>sh_sock := s\<rparr>)))
      in if \<not> ok then fail s
         else
           let (ret, temp, s) = read_u64 S fd offset s
           in if lt_sizeof ret 8 then fail s
              else if as_int temp < 0 then Some ((-1, []), st\<lparr>sh_errno := - as_int temp, sh_sock := s\<rparr>)
              else case read_loop S fd temp [] s of
                None \<Rightarrow> None
              | Some (None, s) \<Rightarrow> fail s
              | Some (Some buf, s) \<Rightarrow> Some ((sint temp, buf), st\<lparr>sh_sock := s\<rparr>))"

definition cpp_pwrite :: "'s libc \<Rightarrow> int \<Rightarrow> u8 list \<Rightarrow> u64 \<Rightarrow> u64 \<Rightarrow> 's shim \<Rightarrow> (int \<times> 's shim) option" where
  "cpp_pwrite L fd buf count offset st =
     (let S = libc_sys L; (ok, s) = send_request S fd OP_PWRITE count offset (sh_sock st);
          fail = (\<lambda>s. map_option (\<lambda>st. (-1, st)) (socket_error L fd (st\<lparr>sh_sock := s\<rparr>)))
      in if \<not> ok then fail s
         else case write_loop S fd (take (unat count) buf) s of
           None \<Rightarrow> None
         | Some (False, s) \<Rightarrow> fail s
         | Some (True, s) \<Rightarrow>
             let (ret, temp, s) = read_u64 S fd offset s
             in if lt_sizeof ret 8 then fail s
                else if as_int temp < 0 then Some (-1, st\<lparr>sh_errno := - as_int temp, sh_sock := s\<rparr>)
                else Some (sint temp, st\<lparr>sh_sock := s\<rparr>))"

definition pread_with ::
  "'s libc \<Rightarrow> (int \<Rightarrow> u64 \<Rightarrow> u64 \<Rightarrow> 's \<Rightarrow> (int \<times> u8 list) \<times> int \<times> 's) \<Rightarrow> int \<Rightarrow> u64 \<Rightarrow> u64 \<Rightarrow> 's shim
     \<Rightarrow> ((int \<times> u8 list) \<times> 's shim) option" where
  "pread_with L lib fd count offset st =
     (case status_of st fd of
        None \<Rightarrow> None
      | Some k \<Rightarrow>
          if k = FD_CPP then cpp_pread L fd count offset st
          else case lib fd count offset (sh_sock st) of (r, e, s) \<Rightarrow> Some (r, st\<lparr>sh_errno := e, sh_sock := s\<rparr>))"

definition shim_pread :: "'s libc \<Rightarrow> int \<Rightarrow> u64 \<Rightarrow> u64 \<Rightarrow> 's shim \<Rightarrow> ((int \<times> u8 list) \<times> 's shim) option" where
  "shim_pread L = pread_with L (libc_pread L)"

definition shim_pread64 :: "'s libc \<Rightarrow> int \<Rightarrow> u64 \<Rightarrow> u64 \<Rightarrow> 's shim \<Rightarrow> ((int \<times> u8 list) \<times> 's shim) option" where
  "shim_pread64 L = pread_with L (libc_pread64 L)"

definition pwrite_with ::
  "'s libc \<Rightarrow> (int \<Rightarrow> u8 list \<Rightarrow> u64 \<Rightarrow> u64 \<Rightarrow> 's \<Rightarrow> int \<times> int \<times> 's) \<Rightarrow> int \<Rightarrow> u8 list \<Rightarrow> u64 \<Rightarrow> u64 \<Rightarrow> 's shim
     \<Rightarrow> (int \<times> 's shim) option" where
  "pwrite_with L lib fd buf count offset st =
     (case status_of st fd of
        None \<Rightarrow> None
      | Some k \<Rightarrow>
          if k = FD_CPP then cpp_pwrite L fd buf count offset st
          else case lib fd buf count offset (sh_sock st) of (r, e, s) \<Rightarrow> Some (r, st\<lparr>sh_errno := e, sh_sock := s\<rparr>))"

definition shim_pwrite :: "'s libc \<Rightarrow> int \<Rightarrow> u8 list \<Rightarrow> u64 \<Rightarrow> u64 \<Rightarrow> 's shim \<Rightarrow> (int \<times> 's shim) option" where
  "shim_pwrite L = pwrite_with L (libc_pwrite L)"

definition shim_pwrite64 :: "'s libc \<Rightarrow> int \<Rightarrow> u8 list \<Rightarrow> u64 \<Rightarrow> u64 \<Rightarrow> 's shim \<Rightarrow> (int \<times> 's shim) option" where
  "shim_pwrite64 L = pwrite_with L (libc_pwrite64 L)"

section \<open>Control requests\<close>

text \<open>The number of argument bytes that are sent, \<open>None\<close> for an unknown request.\<close>

definition ioctl_arg_size :: "u64 \<Rightarrow> nat option" where
  "ioctl_arg_size request =
     (if request = NFP_IOCTL_CPP_IDENTIFICATION then Some 4
      else if request = NFP_IOCTL_FIRMWARE_LOAD then Some NFP_FIRMWARE_MAX
      else if request = NFP_IOCTL_FIRMWARE_LAST then Some 0
      else if request = NFP_IOCTL_CPP_AREA_REQUEST \<or> request = NFP_IOCTL_CPP_AREA_RELEASE then Some area_request_size
      else if request = NFP_IOCTL_CPP_AREA_RELEASE_OBSOLETE then Some 8
      else if request = NFP_IOCTL_CPP_EXPL_REQUEST then Some explicit_request_size
      else if request = NFP_IOCTL_CPP_EVENT_ACQUIRE \<or> request = NFP_IOCTL_CPP_EVENT_RELEASE then Some event_request_size
      else None)"

definition overlay :: "u8 list \<Rightarrow> u8 list \<Rightarrow> u8 list" where
  "overlay new old = new @ drop (length new) old"

text \<open>The answer behind the result word. The comparison is with the size of the identification for the other
  two structures too; \<open>Some None\<close> is the error, the outer \<open>None\<close> a copy that leaves its buffer.\<close>

definition ioctl_answer :: "'s sys \<Rightarrow> int \<Rightarrow> u64 \<Rightarrow> u8 list \<Rightarrow> u8 list \<Rightarrow> 's \<Rightarrow> (u8 list option \<times> 's) option" where
  "ioctl_answer S fd request junk argp s =
     (if request = NFP_IOCTL_CPP_IDENTIFICATION
      then case read_into S fd (take identification_size junk) s of (ret, ident, s) \<Rightarrow>
             if lt_sizeof ret identification_size then Some (None, s)
             else
               let sz = unat (le_word (take 4 ident) :: u32)
               in if sz > identification_size \<or> sz > length argp then None
                  else Some (Some (overlay (take sz ident) argp), s)
      else if request = NFP_IOCTL_FIRMWARE_LAST
      then if length argp < NFP_FIRMWARE_MAX then None
           else case read_into S fd (take NFP_FIRMWARE_MAX argp) s of (ret, bs, s) \<Rightarrow>
             Some (if lt_sizeof ret 4 then None else Some (overlay bs argp), s)
      else if request = NFP_IOCTL_CPP_AREA_REQUEST
      then case read_into S fd (take area_request_size junk) s of (ret, bs, s) \<Rightarrow>
             Some (if lt_sizeof ret identification_size then None else Some (overlay bs argp), s)
      else if request = NFP_IOCTL_CPP_EXPL_REQUEST
      then case read_into S fd (take explicit_request_size junk) s of (ret, bs, s) \<Rightarrow>
             Some (if lt_sizeof ret identification_size then None else Some (overlay bs argp), s)
      else Some (Some argp, s))"

text \<open>\<open>argp\<close> is the caller's buffer, \<open>None\<close> is NULL; \<open>junk\<close> are the structures that are not initialised.\<close>

definition shim_ioctl ::
  "'s libc \<Rightarrow> u8 list \<Rightarrow> int \<Rightarrow> u64 \<Rightarrow> u8 list option \<Rightarrow> 's shim \<Rightarrow> ((int \<times> u8 list option) \<times> 's shim) option" where
  "shim_ioctl L junk fd request argp st =
     (case status_of st fd of
        None \<Rightarrow> None
      | Some k \<Rightarrow>
          if k \<noteq> FD_CPP
          then case libc_ioctl L fd request argp (sh_sock st) of (r, e, s) \<Rightarrow> Some (r, st\<lparr>sh_errno := e, sh_sock := s\<rparr>)
          else
            let S = libc_sys L; (ret, s) = write_u64 S fd OP_IOCTL (sh_sock st);
                fail = (\<lambda>s. map_option (\<lambda>st. ((-1, argp), st)) (socket_error L fd (st\<lparr>sh_sock := s\<rparr>)))
            in if lt_sizeof ret 8 then fail s
               else if request = NFP_IOCTL_CPP_IDENTIFICATION \<and> argp = None
               then Some ((int identification_size, argp), st\<lparr>sh_sock := s\<rparr>)
               else case ioctl_arg_size request of
                 None \<Rightarrow> Some ((-1, argp), st\<lparr>sh_errno := errno_code EINVAL, sh_sock := s\<rparr>)
               | Some arg_size \<Rightarrow>
                   if (case argp of None \<Rightarrow> False | Some bs \<Rightarrow> length bs < arg_size) then None
                   else
                   let (ret, s) = write_u64 S fd request s
                   in if lt_sizeof ret 8 then fail s
                      else
                        let (ret, s) = (if arg_size > 0
                              then case argp of None \<Rightarrow> (-1, s) | Some bs \<Rightarrow> sys_write S fd (take arg_size bs) s
                              else (0, s))
                        in if arg_size > 0 \<and> lt_sizeof ret arg_size then fail s
                           else
                             let (ret, temp, s) = read_u64 S fd request s
                             in if lt_sizeof ret 8 then fail s
                                else if as_int temp < 0
                                then Some ((-1, argp), st\<lparr>sh_errno := - as_int temp, sh_sock := s\<rparr>)
                                else case argp of
                                  None \<Rightarrow>
                                    if request = NFP_IOCTL_CPP_AREA_REQUEST \<or> request = NFP_IOCTL_CPP_EXPL_REQUEST
                                    then (case ioctl_answer S fd request junk [] s of Some (None, s) \<Rightarrow> fail s | _ \<Rightarrow> None)
                                    else Some ((as_int temp, None), st\<lparr>sh_sock := s\<rparr>)
                                | Some bs \<Rightarrow>
                                    (case ioctl_answer S fd request junk bs s of
                                       None \<Rightarrow> None
                                     | Some (None, s) \<Rightarrow> fail s
                                     | Some (Some bs, s) \<Rightarrow> Some ((as_int temp, Some bs), st\<lparr>sh_sock := s\<rparr>)))"

end
