(* ===== verification/Cdev_Stream.thy ===== *)
theory Cdev_Stream
  imports Cdev_Chunks Cdev_Shim
begin

text \<open>
  The contract of a connected stream socket (locale \<open>stream\<close>), what the transfer loops do on it, and
  what the server and the shim make of a request.
\<close>

section \<open>Streams\<close>

text \<open>Transfers of up to 32 bytes are made in one piece, longer ones in pieces that are not empty; \<open>aux\<close> is what
  a transfer does not touch.\<close>

locale stream =
  fixes S :: "'s sys" and fd :: int and inp out :: "'s \<Rightarrow> u8 list" and aux :: "'s \<Rightarrow> 'x"
  assumes rd: "0 < unat n \<Longrightarrow> inp s \<noteq> [] \<Longrightarrow> \<exists>k s'. 0 < k \<and> k \<le> unat n \<and> k \<le> length (inp s)
      \<and> sys_read S fd n s = (int k, take k (inp s), s') \<and> inp s' = drop k (inp s) \<and> out s' = out s \<and> aux s' = aux s"
    and rd_small: "0 < unat n \<Longrightarrow> unat n \<le> 32 \<Longrightarrow> unat n \<le> length (inp s) \<Longrightarrow> \<exists>s'.
      sys_read S fd n s = (int (unat n), take (unat n) (inp s), s') \<and> inp s' = drop (unat n) (inp s) \<and> out s' = out s \<and> aux s' = aux s"
    and wr: "bs \<noteq> [] \<Longrightarrow> \<exists>k s'. 0 < k \<and> k \<le> length bs \<and> sys_write S fd bs s = (int k, s')
      \<and> out s' = out s @ take k bs \<and> inp s' = inp s \<and> aux s' = aux s"
    and wr_small: "length bs \<le> 32 \<Longrightarrow> \<exists>s'. sys_write S fd bs s = (int (length bs), s')
      \<and> out s' = out s @ bs \<and> inp s' = inp s \<and> aux s' = aux s"
begin

lemma read_into_full:
  assumes "inp s = bs @ rest" "length bs = length old" "0 < length old" "length old \<le> 32"
  obtains s' where "read_into S fd old s = (int (length bs), bs, s')" "inp s' = rest" "out s' = out s" "aux s' = aux s"
proof -
  have n: "unat (of_nat (length old) :: u64) = length old" using assms(4) by (simp add: unat_of_nat)
  then obtain s' where "sys_read S fd (of_nat (length old)) s = (int (length old), take (length old) (inp s), s')"
      "inp s' = drop (length old) (inp s)" "out s' = out s" "aux s' = aux s"
    using rd_small [of "of_nat (length old)" s] assms by auto
  then show thesis using that assms by (simp add: read_into_def)
qed

lemma read_u64_ok:
  assumes "inp s = le_bytes 8 v @ rest"
  obtains s' where "read_u64 S fd old s = (8, v, s')" "inp s' = rest" "out s' = out s" "aux s' = aux s"
proof -
  obtain s' where "read_into S fd (le_bytes 8 old) s = (int (length (le_bytes 8 v)), le_bytes 8 v, s')"
      "inp s' = rest" "out s' = out s" "aux s' = aux s"
    by (rule read_into_full [OF assms, of "le_bytes 8 old"]) simp_all
  then show thesis using that by (simp add: read_u64_def)
qed

lemma write_u64_ok:
  obtains s' where "write_u64 S fd v s = (8, s')" "out s' = out s @ le_bytes 8 v" "inp s' = inp s" "aux s' = aux s"
  using wr_small [of "le_bytes 8 v" s] that by (auto simp: write_u64_def)

lemma read_loop_ok:
  assumes "inp s = bs @ rest" "count = of_nat (length buf + length bs)" "length buf + length bs < 2 ^ 63"
  obtains s' where "read_loop S fd count buf s = Some (Some (buf @ bs), s')" "inp s' = rest" "out s' = out s" "aux s' = aux s"
proof -
  have "\<exists>s'. read_loop S fd count buf s = Some (Some (buf @ bs), s') \<and> inp s' = rest \<and> out s' = out s \<and> aux s' = aux s"
    using assms
  proof (induction "length bs" arbitrary: bs buf s rule: less_induct)
    case less
    have c: "unat count = length buf + length bs" "unat (of_nat (length buf) :: u64) = length buf"
      using less.prems(3) unfolding less.prems(2) by (simp_all add: unat_of_nat del: of_nat_add)
    show ?case
    proof (cases "bs = []")
      case True
      then show ?thesis using less.prems by (simp add: read_loop.simps)
    next
      case False
      have lt: "of_nat (length buf) < count" using c False by (simp add: word_less_nat_alt)
      have d: "unat (count - of_nat (length buf)) = length bs" using c by (simp add: unat_sub word_le_nat_alt)
      obtain k s1 where k: "0 < k" "k \<le> length bs" "sys_read S fd (count - of_nat (length buf)) s = (int k, take k bs, s1)"
        "inp s1 = drop k bs @ rest" "out s1 = out s" "aux s1 = aux s"
        using rd [of "count - of_nat (length buf)" s] less.prems(1) False unfolding d by auto
      have "read_loop S fd count buf s = read_loop S fd count (buf @ take k bs) s1"
        using lt k(3) by (simp add: read_loop.simps [of _ _ _ buf])
      moreover have "\<exists>s'. read_loop S fd count (buf @ take k bs) s1 = Some (Some ((buf @ take k bs) @ drop k bs), s')
          \<and> inp s' = rest \<and> out s' = out s1 \<and> aux s' = aux s1"
        by (rule less.hyps) (use k less.prems False in simp_all)
      ultimately show ?thesis using k by simp
    qed
  qed
  then show thesis using that by blast
qed

lemma write_loop_ok:
  obtains s' where "write_loop S fd bs s = Some (True, s')" "out s' = out s @ bs" "inp s' = inp s" "aux s' = aux s"
proof -
  have "\<exists>s'. write_loop S fd bs s = Some (True, s') \<and> out s' = out s @ bs \<and> inp s' = inp s \<and> aux s' = aux s"
  proof (induction "length bs" arbitrary: bs s rule: less_induct)
    case less
    show ?case
    proof (cases "bs = []")
      case True
      then show ?thesis by (simp add: write_loop.simps)
    next
      case False
      then obtain k s1 where k: "0 < k" "k \<le> length bs" "sys_write S fd bs s = (int k, s1)"
        "out s1 = out s @ take k bs" "inp s1 = inp s" "aux s1 = aux s" using wr [of bs s] by blast
      have "write_loop S fd bs s = write_loop S fd (drop k bs) s1" using False k(3) by (simp add: write_loop.simps [of _ _ bs])
      moreover have "\<exists>s'. write_loop S fd (drop k bs) s1 = Some (True, s') \<and> out s' = out s1 @ drop k bs \<and> inp s' = inp s1 \<and> aux s' = aux s1"
        by (rule less.hyps) (use k in simp)
      ultimately show ?thesis using k by simp
    qed
  qed
  then show thesis using that by blast
qed

text \<open>The request of the shim on the wire.\<close>

lemma send_request_ok:
  obtains s' where "send_request S fd op count offset s = (True, s')"
    "out s' = out s @ le_bytes 8 op @ le_bytes 8 count @ le_bytes 8 offset" "inp s' = inp s" "aux s' = aux s"
proof -
  obtain s1 where 1: "write_u64 S fd op s = (8, s1)" "out s1 = out s @ le_bytes 8 op" "inp s1 = inp s" "aux s1 = aux s"
    by (rule write_u64_ok)
  obtain s2 where 2: "write_u64 S fd count s1 = (8, s2)" "out s2 = out s1 @ le_bytes 8 count" "inp s2 = inp s1" "aux s2 = aux s1"
    by (rule write_u64_ok)
  obtain s3 where 3: "write_u64 S fd offset s2 = (8, s3)" "out s3 = out s2 @ le_bytes 8 offset" "inp s3 = inp s2" "aux s3 = aux s2"
    by (rule write_u64_ok)
  show thesis by (rule that [of s3]) (use 1 2 3 lt_sizeof_full [of 8] in \<open>simp_all add: send_request_def\<close>)
qed

end

section \<open>The pieces of a read\<close>

text \<open>A range is cut at the boundaries of 1 MiB: the first piece has at most \<open>k\<close> bytes.\<close>

function chop :: "nat \<Rightarrow> u8 list \<Rightarrow> u8 list list" where
  "chop k bs = (if bs = [] \<or> k = 0 then [] else take k bs # chop (2 ^ 20) (drop k bs))"
  by pat_completeness auto
termination by (relation "measure (\<lambda>(k, bs). length bs)") auto

declare chop.simps [simp del]

fun blocks_at :: "nat \<Rightarrow> (cpp_port \<Rightarrow> mem) \<Rightarrow> nfp_cpp \<Rightarrow> u32 \<Rightarrow> u64 \<Rightarrow> u8 list list \<Rightarrow> bool" where
  "blocks_at n m c dest address [] \<longleftrightarrow> True"
| "blocks_at n m c dest address (p # ps) \<longleftrightarrow>
     device_block n m c dest address p \<and> blocks_at n m c dest (address + of_nat (length p)) ps"

text \<open>What a file offset of the device means: the CPP identifier and the address, and the range holds the bytes.\<close>

definition file_range :: "nat \<Rightarrow> (cpp_port \<Rightarrow> mem) \<Rightarrow> nfp_cpp \<Rightarrow> u64 \<Rightarrow> u8 list \<Rightarrow> bool" where
  "file_range n m c offset bs \<longleftrightarrow> length bs < 2 ^ 31
     \<and> blocks_at n m c (cdev_cpp_id offset) (cdev_offset offset) (chop (2 ^ 20 - unat (cdev_offset offset) mod 2 ^ 20) bs)"

lemma boundary_mask: "NFP_CPP_MEMIO_BOUNDARY - 1 = mask 20" "unat NFP_CPP_MEMIO_BOUNDARY = 2 ^ 20"
  by (simp_all add: NFP_CPP_MEMIO_BOUNDARY_def mask_eq_exp_minus_1)

lemma cdev_offset_bound: "unat (cdev_offset offset) < 2 ^ 40"
proof -
  have "cdev_offset offset = offset AND mask 40" by (simp add: cdev_offset_def mask_eq_exp_minus_1)
  then show ?thesis by (simp add: unat_and_mask)
qed

lemma and_not_mask_div: "unat (x AND NOT (mask 20) :: u64) = unat x div 2 ^ 20 * 2 ^ 20"
proof -
  have "x AND NOT (mask 20) = push_bit 20 (drop_bit 20 x)" by (rule bit_word_eqI) (auto simp: bit_simps)
  moreover have "unat (drop_bit 20 x) = unat x div 2 ^ 20" unfolding unat_drop_bit_eq by (simp add: drop_bit_eq_div)
  moreover have "unat x div 2 ^ 20 * 2 ^ 20 \<le> unat x" "unat x < 2 ^ 64"
    using unsigned_less [of x, where 'a = nat] by simp_all
  ultimately show ?thesis by (simp add: push_bit_eq_mult unat_word_ariths)
qed

text \<open>The first length that the server computes.\<close>

lemma first_length:
  assumes "bs \<noteq> []" "length bs < 2 ^ 31" "unat off < 2 ^ 40"
  shows "(if crosses_boundary off (of_nat (length bs)) then NFP_CPP_MEMIO_BOUNDARY - (off AND (NFP_CPP_MEMIO_BOUNDARY - 1))
     else of_nat (length bs)) = of_nat (min (2 ^ 20 - unat off mod 2 ^ 20) (length bs))"
proof -
  let ?r = "unat off mod 2 ^ 20" and ?q = "unat off div 2 ^ 20"
  have l: "unat (of_nat (length bs) :: u64) = length bs" "0 < length bs" using assms(1,2) by (simp_all add: unat_of_nat)
  then have s: "unat (off + of_nat (length bs)) = unat off + length bs" using assms(2,3) by (simp add: unat_word_ariths)
  have e: "unat (off + of_nat (length bs) - 1) = unat off + length bs - 1"
    using s l(2) by (subst unat_sub) (simp_all add: word_le_nat_alt Suc_le_eq)
  have o: "unat off = ?q * 2 ^ 20 + ?r" by (rule div_mult_mod_eq [symmetric])
  have r: "?r < 2 ^ 20" by (rule mod_less_divisor) simp
  have "crosses_boundary off (of_nat (length bs)) \<longleftrightarrow> (unat off + length bs - 1) div 2 ^ 20 \<noteq> ?q"
    unfolding crosses_boundary_def boundary_mask word_unat_eq_iff and_not_mask_div e by simp
  also have "\<dots> \<longleftrightarrow> 2 ^ 20 \<le> ?r + length bs - 1"
  proof -
    have "unat off + length bs - 1 = (?r + length bs - 1) + ?q * 2 ^ 20" using o l(2) by linarith
    then have "(unat off + length bs - 1) div 2 ^ 20 = ?q + (?r + length bs - 1) div 2 ^ 20" by (simp only: div_mult_self1) simp
    then show ?thesis by (simp add: div_eq_0_iff not_less)
  qed
  finally have c: "crosses_boundary off (of_nat (length bs)) \<longleftrightarrow> 2 ^ 20 - ?r < length bs" using r l(2) by linarith
  have "unat (NFP_CPP_MEMIO_BOUNDARY - (off AND mask 20)) = 2 ^ 20 - ?r"
    using r by (subst unat_sub) (simp_all add: word_le_nat_alt boundary_mask unat_and_mask)
  then have "of_nat (unat (NFP_CPP_MEMIO_BOUNDARY - (off AND mask 20))) = (of_nat (2 ^ 20 - ?r) :: u64)" by (rule arg_cong)
  then have "NFP_CPP_MEMIO_BOUNDARY - (off AND (NFP_CPP_MEMIO_BOUNDARY - 1)) = of_nat (2 ^ 20 - ?r)"
    unfolding boundary_mask by (simp only: of_nat_unat ucast_id)
  then show ?thesis using c by (auto simp: min_def)
qed

end
