(* ===== verification/Cdev_Proof.thy ===== *)
theory Cdev_Proof
  imports Cdev_Stream
begin

text \<open>
  A client program that reads and writes the device file through the shim reads and writes the memory of
  the device: shim, socket, server and bus together.
\<close>

section \<open>The server\<close>

context pcie2cpp
begin

lemma read_range:
  fixes w :: "'h world"
  assumes "bus_ready n w" "cfg (w_pcie w) = win" "0 < k" "blocks_at n (cmem (w_hw w)) (w_cpp w) dest address (chop k bs)"
    and "length bs < 2 ^ 31"
  shows "\<exists>w'. dev_read_loop M True dest address (of_nat (min k (length bs))) (of_nat (length bs)) tot buf w =
      Some (Inr (tot + of_nat (length bs), buf @ bs), w') \<and> bus_ready n w' \<and> cfg (w_pcie w') = win \<and> w_cpp w' = w_cpp w
      \<and> cmem (w_hw w') = cmem (w_hw w) \<and> w_fault w' = w_fault w"
  using assms
proof (induction k bs arbitrary: address tot buf w rule: chop.induct)
  case (1 k bs)
  show ?case
  proof (cases "bs = []")
    case True
    then show ?thesis using 1(2,3) by (simp add: dev_read_loop.simps)
  next
    case False
    let ?p = "take k bs" and ?r = "drop k bs"
    have ch: "chop k bs = ?p # chop (2 ^ 20) ?r" using False 1(4) by (simp add: chop.simps [of k])
    have b: "device_block n (cmem (w_hw w)) (w_cpp w) dest address ?p"
      "blocks_at n (cmem (w_hw w)) (w_cpp w) dest (address + of_nat (length ?p)) (chop (2 ^ 20) ?r)" using 1(5) unfolding ch by simp_all
    have lp: "length ?p = min k (length bs)" by (simp add: min.commute)
    have u: "unat (of_nat (length bs) :: u64) = length bs" using 1(6) by (simp add: unat_of_nat)
    have nz: "(of_nat (length bs) :: u64) \<noteq> 0" using u False by auto
    have s: "length bs = length ?p + length ?r" by simp
    have rest: "of_nat (length bs) - of_nat (length ?p) = (of_nat (length ?r) :: u64)" by (subst s, subst of_nat_add) simp
    have ur: "unat (of_nat (length ?r) :: u64) = length ?r" using 1(6) by (subst unat_of_nat) simp
    have mn: "(if of_nat (length ?r) > NFP_CPP_MEMIO_BOUNDARY then NFP_CPP_MEMIO_BOUNDARY else of_nat (length ?r)) =
        (of_nat (min (2 ^ 20) (length ?r)) :: u64)"
      using ur boundary_mask(2) by (auto simp: word_less_nat_alt min_def NFP_CPP_MEMIO_BOUNDARY_def not_less)
    obtain w1 where w1: "dev_read_loop M True dest address (of_nat (length ?p)) (of_nat (length bs)) tot buf w =
        dev_read_loop M True dest (address + of_nat (length ?p)) (of_nat (min (2 ^ 20) (length ?r))) (of_nat (length ?r))
          (tot + of_nat (length ?p)) (buf @ ?p) w1"
      "bus_ready n w1" "cfg (w_pcie w1) = win" "w_cpp w1 = w_cpp w" "cmem (w_hw w1) = cmem (w_hw w)" "w_fault w1 = w_fault w"
      by (rule read_piece [OF 1(2,3) b(1) refl nz, of tot buf]) (simp only: rest mn)
    have nk: "\<not> (bs = [] \<or> k = 0)" using False 1(4) by simp
    have l2: "length ?r < 2 ^ 31" using 1(6) by simp
    obtain w2 where w2: "dev_read_loop M True dest (address + of_nat (length ?p)) (of_nat (min (2 ^ 20) (length ?r))) (of_nat (length ?r))
        (tot + of_nat (length ?p)) (buf @ ?p) w1 = Some (Inr (tot + of_nat (length ?p) + of_nat (length ?r), (buf @ ?p) @ ?r), w2)"
      "bus_ready n w2" "cfg (w_pcie w2) = win" "w_cpp w2 = w_cpp w1" "cmem (w_hw w2) = cmem (w_hw w1)" "w_fault w2 = w_fault w1"
      using 1(1) [OF nk w1(2,3) _ _ l2, of "address + of_nat (length ?p)" "tot + of_nat (length ?p)" "buf @ ?p"] b(2) w1(4,5) by auto
    have "(of_nat (length bs) :: u64) = of_nat (length ?p) + of_nat (length ?r)" by (simp only: s of_nat_add [symmetric])
    then have "tot + of_nat (length ?p) + of_nat (length ?r) = tot + of_nat (length bs)" by (simp only: add.assoc)
    then show ?thesis using w1 w2 unfolding lp by auto
  qed
qed

text \<open>A read request that is in the socket is answered with the length and the bytes of the range.\<close>

lemma serve_pread:
  fixes w :: "'h world"
  assumes st: "stream S fd inp out aux" and rdy: "bus_ready n w" "cfg (w_pcie w) = win"
    and fr: "file_range n (cmem (w_hw w)) (w_cpp w) off bs"
    and s: "inp s = le_bytes 8 OP_PREAD @ le_bytes 8 (of_nat (length bs) :: u64) @ le_bytes 8 off @ rest"
  obtains s' w' where "nfp_cpp_dev_handle_cmd S M j data fd s w = Some (0, data, s', w')" "inp s' = rest"
    "out s' = out s @ le_bytes 8 (of_nat (length bs) :: u64) @ bs" "bus_ready n w'" "cfg (w_pcie w') = win" "w_cpp w' = w_cpp w"
    "cmem (w_hw w') = cmem (w_hw w)" "w_fault w' = w_fault w"
proof -
  let ?a = "cdev_offset off" and ?d = "cdev_cpp_id off" let ?k = "2 ^ 20 - unat ?a mod 2 ^ 20"
  have lb: "length bs < 2 ^ 31" and bl: "blocks_at n (cmem (w_hw w)) (w_cpp w) ?d ?a (chop ?k bs)"
    using fr by (simp_all add: file_range_def)
  have k: "0 < ?k" using mod_less_divisor [of "2 ^ 20" "unat ?a"] by simp
  obtain s1 where s1: "read_u64 S fd (cj_tmp j) s = (8, OP_PREAD, s1)" "inp s1 = le_bytes 8 (of_nat (length bs) :: u64) @ le_bytes 8 off @ rest" "out s1 = out s" "aux s1 = aux s"
    by (rule stream.read_u64_ok [OF st s, where old = "cj_tmp j"])
  obtain s2 where s2: "read_u64 S fd OP_PREAD s1 = (8, of_nat (length bs), s2)" "inp s2 = le_bytes 8 off @ rest" "out s2 = out s1" "aux s2 = aux s1"
    by (rule stream.read_u64_ok [OF st s1(2)])
  obtain s3 where s3: "read_u64 S fd (of_nat (length bs)) s2 = (8, off, s3)" "inp s3 = rest" "out s3 = out s2" "aux s3 = aux s2"
    by (rule stream.read_u64_ok [OF st s2(2)])
  have cm: "c_malloc w = (True, w)" using rdy by (simp add: bus_ready_def c_malloc_def)
  let ?cl = "if crosses_boundary ?a (of_nat (length bs)) then NFP_CPP_MEMIO_BOUNDARY - (?a AND (NFP_CPP_MEMIO_BOUNDARY - 1)) else of_nat (length bs)"
  obtain w' where w': "dev_read_loop M True ?d ?a ?cl (of_nat (length bs)) 0 [] w = Some (Inr (of_nat (length bs), bs), w')"
    "bus_ready n w'" "cfg (w_pcie w') = win" "w_cpp w' = w_cpp w" "cmem (w_hw w') = cmem (w_hw w)" "w_fault w' = w_fault w"
  proof (cases "bs = []")
    case True
    then show thesis using that [of w] rdy by (simp add: dev_read_loop.simps)
  next
    case False
    note fl = first_length [OF False lb cdev_offset_bound]
    show thesis using read_range [OF rdy k bl lb, of 0 "[]"] that unfolding fl by auto
  qed
  obtain s4 where s4: "write_u64 S fd (of_nat (length bs)) s3 = (8, s4)" "out s4 = out s3 @ le_bytes 8 (of_nat (length bs) :: u64)" "inp s4 = inp s3" "aux s4 = aux s3"
    by (rule stream.write_u64_ok [OF st])
  obtain s5 where s5: "write_loop S fd bs s4 = Some (True, s5)" "out s5 = out s4 @ bs" "inp s5 = inp s4" "aux s5 = aux s4"
    by (rule stream.write_loop_ok [OF st])
  have "take (unat (of_nat (length bs) :: u64)) bs = bs" using lb by (simp add: unat_of_nat)
  then have "nfp_cpp_dev_read S M fd (of_nat (length bs)) off s3 w = Some (0, s5, w')"
    using cm w'(1) s4(1) s5(1) lt_sizeof_full [of 8] by (simp add: nfp_cpp_dev_read_def Let_def)
  then have "nfp_cpp_dev_handle_cmd S M j data fd s w = Some (0, data, s5, w')"
    using s1(1) s2(1) s3(1) by (simp add: nfp_cpp_dev_handle_cmd_def Let_def)
  then show thesis using that w' s1 s2 s3 s4 s5 by simp
qed

lemma serve_pwrite:
  fixes w :: "'h world"
  assumes st: "stream S fd inp out aux" and rdy: "bus_ready n w" "cfg (w_pcie w) = win"
    and acc: "block_access n d a (of_nat (length bs))" "take_bit 40 a = a" "length bs < 2 ^ 31"
    and t: "nfp_target_cpp (cdev_cpp_id off) (cdev_offset off) (Some (\<lambda>i. imb_cat_table (w_cpp w) ! i)) = Inr (d, a)"
      "cdev_offset off + of_nat (length bs) \<le> push_bit 40 1"
    and s: "inp s = le_bytes 8 OP_PWRITE @ le_bytes 8 (of_nat (length bs) :: u64) @ le_bytes 8 off @ bs @ rest"
  obtains s' w' where "nfp_cpp_dev_handle_cmd S M j data fd s w = Some (0, data, s', w')" "inp s' = rest"
    "out s' = out s @ le_bytes 8 (of_nat (length bs) :: u64)" "bus_ready n w'" "cfg (w_pcie w') = win" "w_cpp w' = w_cpp w"
    "cmem (w_hw w') = (cmem (w_hw w))(port_of d := mem_wr (cmem (w_hw w) (port_of d)) a bs)" "w_fault w' = w_fault w"
proof -
  obtain s1 where s1: "read_u64 S fd (cj_tmp j) s = (8, OP_PWRITE, s1)" "inp s1 = le_bytes 8 (of_nat (length bs) :: u64) @ le_bytes 8 off @ bs @ rest" "out s1 = out s" "aux s1 = aux s"
    by (rule stream.read_u64_ok [OF st s, where old = "cj_tmp j"])
  obtain s2 where s2: "read_u64 S fd OP_PWRITE s1 = (8, of_nat (length bs), s2)" "inp s2 = le_bytes 8 off @ bs @ rest" "out s2 = out s1" "aux s2 = aux s1"
    by (rule stream.read_u64_ok [OF st s1(2)])
  obtain s3 where s3: "read_u64 S fd (of_nat (length bs)) s2 = (8, off, s3)" "inp s3 = bs @ rest" "out s3 = out s2" "aux s3 = aux s2"
    by (rule stream.read_u64_ok [OF st s2(2)])
  have cm: "c_malloc w = (True, w)" using rdy by (simp add: bus_ready_def c_malloc_def)
  have u: "unat (of_nat (length bs) :: u64) = length bs" using acc(3) by (simp add: unat_of_nat)
  obtain s4 where s4: "read_loop S fd (of_nat (length bs)) [] s3 = Some (Some bs, s4)" "inp s4 = rest" "out s4 = out s3" "aux s4 = aux s3"
    by (rule stream.read_loop_ok [OF st s3(2), of "of_nat (length bs)" "[]"]) (use acc(3) in simp_all)
  obtain w' where w': "dev_write_loop M (cdev_cpp_id off) (cdev_offset off) (of_nat (length bs)) (of_nat (length bs)) 0 bs w = Some (Inr (of_nat (length bs)), w')"
    "bus_ready n w'" "cfg (w_pcie w') = win" "w_cpp w' = w_cpp w" "w_fault w' = w_fault w"
    "cmem (w_hw w') = (cmem (w_hw w))(port_of d := mem_wr (cmem (w_hw w) (port_of d)) a bs)"
    by (rule write_piece [OF rdy acc(1,2) t u])
  obtain s5 where s5: "write_u64 S fd (of_nat (length bs)) s4 = (8, s5)" "out s5 = out s4 @ le_bytes 8 (of_nat (length bs) :: u64)" "inp s5 = inp s4" "aux s5 = aux s4"
    by (rule stream.write_u64_ok [OF st])
  have "nfp_cpp_dev_write S M fd (of_nat (length bs)) off s3 w = Some (0, s5, w')"
    using cm w'(1) s4(1) s5(1) lt_sizeof_full [of 8] by (simp add: nfp_cpp_dev_write_def Let_def)
  then have "nfp_cpp_dev_handle_cmd S M j data fd s w = Some (0, data, s5, w')"
    using s1(1) s2(1) s3(1) by (simp add: nfp_cpp_dev_handle_cmd_def Let_def OP_PREAD_def OP_PWRITE_def)
  then show thesis using that w' s1 s2 s3 s4 s5 by simp
qed

end

end
