(* ===== verification/Cdev_Link.thy ===== *)
theory Cdev_Link
  imports Cdev_Proof
begin

text \<open>
  The connection between a client with the shim and the device server: the socket carries two streams of bytes, the
  server takes up a request when the client waits for an answer. A client that reads and writes the device
  file reads and writes the memory of the device.
\<close>

section \<open>The socket\<close>

text \<open>A transfer of more than 32 bytes moves any number of them, at least one: the \<open>i\<close>-th transfer moves at most
  \<open>c i\<close>, where \<open>c\<close> is any function. The words of a request and of an answer, at most 32 bytes, are written
  by one call and arrive as a whole, as they do on a local stream socket with room; the code relies on
  that, for it tests their transfers for an error only and does not go on with one that came short.\<close>

definition sock_cut :: "nat \<Rightarrow> nat \<Rightarrow> nat" where
  "sock_cut c n = (if n \<le> 32 then n else min n (max 1 c))"

text \<open>The end of the server: what has arrived, what it has answered, and the number of transfers so far.\<close>

record pipe =
  pp_in :: "u8 list"
  pp_out :: "u8 list"
  pp_turn :: nat

definition pipe_sys :: "(nat \<Rightarrow> nat) \<Rightarrow> pipe sys" where
  "pipe_sys c = \<lparr>
     sys_read = \<lambda>fd n s. let k = sock_cut (c (pp_turn s)) (min (unat n) (length (pp_in s)))
       in (int k, take k (pp_in s), s\<lparr>pp_in := drop k (pp_in s), pp_turn := pp_turn s + 1\<rparr>),
     sys_write = \<lambda>fd bs s. let k = sock_cut (c (pp_turn s)) (length bs)
       in (int k, s\<lparr>pp_out := pp_out s @ take k bs, pp_turn := pp_turn s + 1\<rparr>),
     sys_close = \<lambda>fd s. (0, s)\<rparr>"

text \<open>The whole: both directions, the server and the device. When the client reads and there is no
  answer, the server handles a command; a server that does not answer is seen as the end of the stream.\<close>

record 'h link =
  lk_up :: "u8 list"
  lk_down :: "u8 list"
  lk_turn :: nat
  lk_data :: nfp_cpp_dev_data
  lk_world :: "'h world"

definition link_serve :: "(nat \<Rightarrow> nat) \<Rightarrow> 'h mmio \<Rightarrow> cmd_junk \<Rightarrow> 'h link \<Rightarrow> 'h link" where
  "link_serve c M j l =
     (case nfp_cpp_dev_handle_cmd (pipe_sys c) M j (lk_data l) 0
         \<lparr>pp_in = lk_up l, pp_out = [], pp_turn = lk_turn l\<rparr> (lk_world l) of
        None \<Rightarrow> l
      | Some (ret, data, s, w) \<Rightarrow> \<lparr>lk_up = pp_in s, lk_down = pp_out s, lk_turn = pp_turn s, lk_data = data, lk_world = w\<rparr>)"

definition link_wait :: "(nat \<Rightarrow> nat) \<Rightarrow> 'h mmio \<Rightarrow> cmd_junk \<Rightarrow> 'h link \<Rightarrow> 'h link" where
  "link_wait c M j l = (if lk_down l = [] then link_serve c M j l else l)"

definition link_sys :: "(nat \<Rightarrow> nat) \<Rightarrow> 'h mmio \<Rightarrow> cmd_junk \<Rightarrow> 'h link sys" where
  "link_sys c M j = \<lparr>
     sys_read = \<lambda>fd n l. let l = link_wait c M j l; k = sock_cut (c (lk_turn l)) (min (unat n) (length (lk_down l)))
       in (int k, take k (lk_down l), l\<lparr>lk_down := drop k (lk_down l), lk_turn := lk_turn l + 1\<rparr>),
     sys_write = \<lambda>fd bs l. let k = sock_cut (c (lk_turn l)) (length bs)
       in (int k, l\<lparr>lk_up := lk_up l @ take k bs, lk_turn := lk_turn l + 1\<rparr>),
     sys_close = \<lambda>fd l. (0, l)\<rparr>"

lemma sock_cut_bounds: "sock_cut c n \<le> n" "0 < n \<Longrightarrow> 0 < sock_cut c n" "n \<le> 32 \<Longrightarrow> sock_cut c n = n"
  by (auto simp: sock_cut_def)

interpretation pipe: stream "pipe_sys c" fd pp_in pp_out "\<lambda>_. ()" for c fd
proof unfold_locales
  fix n :: u64 and s :: pipe
  assume n: "0 < unat n" "pp_in s \<noteq> []"
  let ?k = "sock_cut (c (pp_turn s)) (min (unat n) (length (pp_in s)))"
  have "0 < ?k" "?k \<le> unat n" "?k \<le> length (pp_in s)"
    using sock_cut_bounds [where c = "c (pp_turn s)" and n = "min (unat n) (length (pp_in s))"] n by auto
  then show "\<exists>k s'. 0 < k \<and> k \<le> unat n \<and> k \<le> length (pp_in s) \<and> sys_read (pipe_sys c) fd n s = (int k, take k (pp_in s), s')
      \<and> pp_in s' = drop k (pp_in s) \<and> pp_out s' = pp_out s \<and> () = ()"
    by (intro exI [of _ ?k]) (simp add: pipe_sys_def Let_def)
next
  fix n :: u64 and s :: pipe
  assume "0 < unat n" "unat n \<le> 32" "unat n \<le> length (pp_in s)"
  then show "\<exists>s'. sys_read (pipe_sys c) fd n s = (int (unat n), take (unat n) (pp_in s), s')
      \<and> pp_in s' = drop (unat n) (pp_in s) \<and> pp_out s' = pp_out s \<and> () = ()"
    by (simp add: pipe_sys_def Let_def min_absorb1 sock_cut_bounds(3))
next
  fix bs :: "u8 list" and s :: pipe
  assume "bs \<noteq> []"
  then have "0 < sock_cut (c (pp_turn s)) (length bs)" "sock_cut (c (pp_turn s)) (length bs) \<le> length bs"
    using sock_cut_bounds [where c = "c (pp_turn s)" and n = "length bs"] by simp_all
  then show "\<exists>k s'. 0 < k \<and> k \<le> length bs \<and> sys_write (pipe_sys c) fd bs s = (int k, s')
      \<and> pp_out s' = pp_out s @ take k bs \<and> pp_in s' = pp_in s \<and> () = ()"
    by (intro exI [of _ "sock_cut (c (pp_turn s)) (length bs)"]) (simp add: pipe_sys_def Let_def)
next
  fix bs :: "u8 list" and s :: pipe
  assume "length bs \<le> 32"
  then show "\<exists>s'. sys_write (pipe_sys c) fd bs s = (int (length bs), s') \<and> pp_out s' = pp_out s @ bs \<and> pp_in s' = pp_in s \<and> () = ()"
    by (simp add: pipe_sys_def Let_def sock_cut_bounds(3))
qed

interpretation link: stream "link_sys c M j" fd lk_down lk_up "\<lambda>l. (lk_data l, lk_world l)" for c and M :: "'h mmio" and j fd
proof unfold_locales
  fix n :: u64 and s :: "'h link"
  assume n: "0 < unat n" "lk_down s \<noteq> []"
  let ?k = "sock_cut (c (lk_turn s)) (min (unat n) (length (lk_down s)))"
  have "0 < ?k" "?k \<le> unat n" "?k \<le> length (lk_down s)"
    using sock_cut_bounds [where c = "c (lk_turn s)" and n = "min (unat n) (length (lk_down s))"] n by auto
  then show "\<exists>k s'. 0 < k \<and> k \<le> unat n \<and> k \<le> length (lk_down s) \<and> sys_read (link_sys c M j) fd n s = (int k, take k (lk_down s), s')
      \<and> lk_down s' = drop k (lk_down s) \<and> lk_up s' = lk_up s \<and> (lk_data s', lk_world s') = (lk_data s, lk_world s)"
    using n(2) by (intro exI [of _ ?k]) (simp add: link_sys_def Let_def link_wait_def)
next
  fix n :: u64 and s :: "'h link"
  assume n: "0 < unat n" "unat n \<le> 32" "unat n \<le> length (lk_down s)"
  then have "lk_down s \<noteq> []" by auto
  then show "\<exists>s'. sys_read (link_sys c M j) fd n s = (int (unat n), take (unat n) (lk_down s), s')
      \<and> lk_down s' = drop (unat n) (lk_down s) \<and> lk_up s' = lk_up s \<and> (lk_data s', lk_world s') = (lk_data s, lk_world s)"
    using n by (simp add: link_sys_def Let_def link_wait_def min_absorb1 sock_cut_bounds(3))
next
  fix bs :: "u8 list" and s :: "'h link"
  assume "bs \<noteq> []"
  then have "0 < sock_cut (c (lk_turn s)) (length bs)" "sock_cut (c (lk_turn s)) (length bs) \<le> length bs"
    using sock_cut_bounds [where c = "c (lk_turn s)" and n = "length bs"] by simp_all
  then show "\<exists>k s'. 0 < k \<and> k \<le> length bs \<and> sys_write (link_sys c M j) fd bs s = (int k, s')
      \<and> lk_up s' = lk_up s @ take k bs \<and> lk_down s' = lk_down s \<and> (lk_data s', lk_world s') = (lk_data s, lk_world s)"
    by (intro exI [of _ "sock_cut (c (lk_turn s)) (length bs)"]) (simp add: link_sys_def Let_def)
next
  fix bs :: "u8 list" and s :: "'h link"
  assume "length bs \<le> 32"
  then show "\<exists>s'. sys_write (link_sys c M j) fd bs s = (int (length bs), s')
      \<and> lk_up s' = lk_up s @ bs \<and> lk_down s' = lk_down s \<and> (lk_data s', lk_world s') = (lk_data s, lk_world s)"
    by (simp add: link_sys_def Let_def sock_cut_bounds(3))
qed

text \<open>The first read of an answer is a read behind the turn of the server.\<close>

lemma read_answer:
  assumes "lk_down (link_wait c M j l) \<noteq> []"
  shows "read_u64 (link_sys c M j) fd old l = read_u64 (link_sys c M j) fd old (link_wait c M j l)"
  using assms by (simp add: read_u64_def read_into_def link_sys_def link_wait_def Let_def)

end
