(* ===== verification/Cdev_Client.thy ===== *)
theory Cdev_Client
  imports Cdev_Link
begin

text \<open>The calls of a client on the device file, from the shim through the server to the memory of the device and back.\<close>

definition client_ready :: "nat \<Rightarrow> u64 \<Rightarrow> int \<Rightarrow> 'h link shim \<Rightarrow> bool" where
  "client_ready n win fd st \<longleftrightarrow> status_of st fd = Some FD_CPP \<and> lk_up (sh_sock st) = [] \<and> lk_down (sh_sock st) = []
     \<and> bus_ready n (lk_world (sh_sock st)) \<and> cfg (w_pcie (lk_world (sh_sock st))) = win"

abbreviation client_world :: "'h link shim \<Rightarrow> 'h world" where
  "client_world st \<equiv> lk_world (sh_sock st)"

lemma as_int_small: "k < 2 ^ 31 \<Longrightarrow> as_int (of_nat k) = int k"
proof -
  assume k: "k < 2 ^ 31"
  then have "(ucast (of_nat k :: u64) :: u32) = of_nat k" by (simp add: word_eq_iff_unsigned unsigned_ucast_eq unsigned_of_nat take_bit_nat_eq_self)
  moreover have "sint (of_nat k :: u32) = int k" using k by (simp add: signed_of_nat signed_take_bit_int_eq_self)
  ultimately show ?thesis by (simp add: as_int_def)
qed

lemma sint64_small: "k < 2 ^ 31 \<Longrightarrow> sint (of_nat k :: u64) = int k"
  by (simp add: signed_of_nat signed_take_bit_int_eq_self)

context pcie2cpp
begin

lemma link_answers_pread:
  fixes l :: "'h link"
  assumes rdy: "bus_ready n (lk_world l)" "cfg (w_pcie (lk_world l)) = win"
    and fr: "file_range n (cmem (w_hw (lk_world l))) (w_cpp (lk_world l)) off bs"
    and l: "lk_up l = le_bytes 8 OP_PREAD @ le_bytes 8 (of_nat (length bs) :: u64) @ le_bytes 8 off" "lk_down l = []"
  obtains w' t where "link_wait c M j l = \<lparr>lk_up = [], lk_down = le_bytes 8 (of_nat (length bs) :: u64) @ bs, lk_turn = t, lk_data = lk_data l, lk_world = w'\<rparr>"
    "bus_ready n w'" "cfg (w_pcie w') = win" "w_cpp w' = w_cpp (lk_world l)" "cmem (w_hw w') = cmem (w_hw (lk_world l))"
    "w_fault w' = w_fault (lk_world l)"
proof -
  have i: "pp_in \<lparr>pp_in = lk_up l, pp_out = [], pp_turn = lk_turn l\<rparr> = le_bytes 8 OP_PREAD @ le_bytes 8 (of_nat (length bs) :: u64) @ le_bytes 8 off @ []"
    using l(1) by simp
  obtain s' w' where s': "nfp_cpp_dev_handle_cmd (pipe_sys c) M j (lk_data l) 0 \<lparr>pp_in = lk_up l, pp_out = [], pp_turn = lk_turn l\<rparr> (lk_world l) = Some (0, lk_data l, s', w')"
    "pp_in s' = []" "pp_out s' = pp_out \<lparr>pp_in = lk_up l, pp_out = [], pp_turn = lk_turn l\<rparr> @ le_bytes 8 (of_nat (length bs) :: u64) @ bs"
    "bus_ready n w'" "cfg (w_pcie w') = win" "w_cpp w' = w_cpp (lk_world l)" "cmem (w_hw w') = cmem (w_hw (lk_world l))"
    "w_fault w' = w_fault (lk_world l)"
    by (rule serve_pread [OF pipe.stream_axioms rdy fr i])
  then show thesis using that [of "pp_turn s'" w'] l(2) by (simp add: link_wait_def link_serve_def)
qed

lemma link_answers_pwrite:
  fixes l :: "'h link"
  assumes rdy: "bus_ready n (lk_world l)" "cfg (w_pcie (lk_world l)) = win"
    and acc: "block_access n d a (of_nat (length bs))" "take_bit 40 a = a" "length bs < 2 ^ 31"
    and t: "nfp_target_cpp (cdev_cpp_id off) (cdev_offset off) (Some (\<lambda>i. imb_cat_table (w_cpp (lk_world l)) ! i)) = Inr (d, a)"
      "cdev_offset off + of_nat (length bs) \<le> push_bit 40 1"
    and l: "lk_up l = le_bytes 8 OP_PWRITE @ le_bytes 8 (of_nat (length bs) :: u64) @ le_bytes 8 off @ bs" "lk_down l = []"
  obtains w' t where "link_wait c M j l = \<lparr>lk_up = [], lk_down = le_bytes 8 (of_nat (length bs) :: u64), lk_turn = t, lk_data = lk_data l, lk_world = w'\<rparr>"
    "bus_ready n w'" "cfg (w_pcie w') = win" "w_cpp w' = w_cpp (lk_world l)"
    "cmem (w_hw w') = (cmem (w_hw (lk_world l)))(port_of d := mem_wr (cmem (w_hw (lk_world l)) (port_of d)) a bs)"
    "w_fault w' = w_fault (lk_world l)"
proof -
  have i: "pp_in \<lparr>pp_in = lk_up l, pp_out = [], pp_turn = lk_turn l\<rparr> = le_bytes 8 OP_PWRITE @ le_bytes 8 (of_nat (length bs) :: u64) @ le_bytes 8 off @ bs @ []"
    using l(1) by simp
  obtain s' w' where s': "nfp_cpp_dev_handle_cmd (pipe_sys c) M j (lk_data l) 0 \<lparr>pp_in = lk_up l, pp_out = [], pp_turn = lk_turn l\<rparr> (lk_world l) = Some (0, lk_data l, s', w')"
    "pp_in s' = []" "pp_out s' = pp_out \<lparr>pp_in = lk_up l, pp_out = [], pp_turn = lk_turn l\<rparr> @ le_bytes 8 (of_nat (length bs) :: u64)"
    "bus_ready n w'" "cfg (w_pcie w') = win" "w_cpp w' = w_cpp (lk_world l)"
    "cmem (w_hw w') = (cmem (w_hw (lk_world l)))(port_of d := mem_wr (cmem (w_hw (lk_world l)) (port_of d)) a bs)"
    "w_fault w' = w_fault (lk_world l)"
    by (rule serve_pwrite [OF pipe.stream_axioms rdy acc t i])
  then show thesis using that [of "pp_turn s'" w'] l(2) by (simp add: link_wait_def link_serve_def)
qed

lemma client_pread:
  fixes st :: "'h link shim"
  assumes L: "libc_sys L = link_sys c M j" and rdy: "client_ready n win fd st"
    and fr: "file_range n (cmem (w_hw (client_world st))) (w_cpp (client_world st)) off bs"
  obtains st' where "cpp_pread L fd (of_nat (length bs)) off st = Some ((int (length bs), bs), st')" "client_ready n win fd st'"
    "fd_status st' = fd_status st" "sh_errno st' = sh_errno st" "lk_data (sh_sock st') = lk_data (sh_sock st)"
    "w_cpp (client_world st') = w_cpp (client_world st)" "cmem (w_hw (client_world st')) = cmem (w_hw (client_world st))"
    "w_fault (client_world st') = w_fault (client_world st)"
proof -
  let ?S = "link_sys c M j" and ?n = "of_nat (length bs) :: u64"
  have r: "status_of st fd = Some FD_CPP" "lk_up (sh_sock st) = []" "lk_down (sh_sock st) = []" "bus_ready n (client_world st)"
    "cfg (w_pcie (client_world st)) = win" using rdy by (simp_all add: client_ready_def)
  have lb: "length bs < 2 ^ 31" using fr by (simp add: file_range_def)
  obtain s1 where s1: "send_request ?S fd OP_PREAD ?n off (sh_sock st) = (True, s1)"
    "lk_up s1 = lk_up (sh_sock st) @ le_bytes 8 OP_PREAD @ le_bytes 8 ?n @ le_bytes 8 off" "lk_down s1 = lk_down (sh_sock st)"
    "(lk_data s1, lk_world s1) = (lk_data (sh_sock st), client_world st)"
    by (rule link.send_request_ok)
  then have w1: "lk_world s1 = client_world st" "lk_data s1 = lk_data (sh_sock st)" "lk_down s1 = []"
    and u1: "lk_up s1 = le_bytes 8 OP_PREAD @ le_bytes 8 ?n @ le_bytes 8 off" using r(2,3) by simp_all
  obtain w' t where w': "link_wait c M j s1 = \<lparr>lk_up = [], lk_down = le_bytes 8 ?n @ bs, lk_turn = t, lk_data = lk_data s1, lk_world = w'\<rparr>"
    "bus_ready n w'" "cfg (w_pcie w') = win" "w_cpp w' = w_cpp (lk_world s1)" "cmem (w_hw w') = cmem (w_hw (lk_world s1))"
    "w_fault w' = w_fault (lk_world s1)"
    by (rule link_answers_pread [OF _ _ _ u1 w1(3)]) (use r fr w1(1) in simp_all)
  let ?l = "\<lparr>lk_up = [], lk_down = le_bytes 8 ?n @ bs, lk_turn = t, lk_data = lk_data s1, lk_world = w'\<rparr>"
  have d: "lk_down ?l = le_bytes 8 ?n @ bs" by simp
  obtain s2 where s2: "read_u64 ?S fd off ?l = (8, ?n, s2)" "lk_down s2 = bs" "lk_up s2 = lk_up ?l"
    "(lk_data s2, lk_world s2) = (lk_data ?l, lk_world ?l)"
    by (rule link.read_u64_ok [OF d])
  have ne: "lk_down (link_wait c M j s1) \<noteq> []" unfolding w'(1) using length_le_bytes [of 8 ?n] by (metis append_is_Nil_conv d length_0_conv zero_neq_numeral)
  have rd: "read_u64 ?S fd off s1 = (8, ?n, s2)" unfolding read_answer [OF ne] w'(1) by (rule s2(1))
  have d2: "lk_down s2 = bs @ []" using s2(2) by simp
  obtain s3 where s3: "read_loop ?S fd ?n [] s2 = Some (Some ([] @ bs), s3)" "lk_down s3 = []" "lk_up s3 = lk_up s2"
    "(lk_data s3, lk_world s3) = (lk_data s2, lk_world s2)"
    by (rule link.read_loop_ok [OF d2, of ?n "[]"]) (use lb in simp_all)
  have "cpp_pread L fd ?n off st = Some ((int (length bs), bs), st\<lparr>sh_sock := s3\<rparr>)"
    using L s1(1) rd s3(1) as_int_small [OF lb] sint64_small [OF lb] lt_sizeof_full [of 8] by (simp add: cpp_pread_def Let_def)
  then show thesis by (rule that) (use r s2 s3 w' w1 in \<open>simp_all add: client_ready_def status_of_def split: if_splits\<close>)
qed

lemma client_pwrite:
  fixes st :: "'h link shim"
  assumes L: "libc_sys L = link_sys c M j" and rdy: "client_ready n win fd st"
    and acc: "block_access n d a (of_nat (length bs))" "take_bit 40 a = a" "length bs < 2 ^ 31"
    and t: "nfp_target_cpp (cdev_cpp_id off) (cdev_offset off) (Some (\<lambda>i. imb_cat_table (w_cpp (client_world st)) ! i)) = Inr (d, a)"
      "cdev_offset off + of_nat (length bs) \<le> push_bit 40 1"
  obtains st' where "cpp_pwrite L fd bs (of_nat (length bs)) off st = Some (int (length bs), st')" "client_ready n win fd st'"
    "fd_status st' = fd_status st" "sh_errno st' = sh_errno st" "lk_data (sh_sock st') = lk_data (sh_sock st)"
    "w_cpp (client_world st') = w_cpp (client_world st)"
    "cmem (w_hw (client_world st')) = (cmem (w_hw (client_world st)))(port_of d := mem_wr (cmem (w_hw (client_world st)) (port_of d)) a bs)"
    "w_fault (client_world st') = w_fault (client_world st)"
proof -
  let ?S = "link_sys c M j" and ?n = "of_nat (length bs) :: u64"
  have r: "status_of st fd = Some FD_CPP" "lk_up (sh_sock st) = []" "lk_down (sh_sock st) = []" "bus_ready n (client_world st)"
    "cfg (w_pcie (client_world st)) = win" using rdy by (simp_all add: client_ready_def)
  have u: "take (unat ?n) bs = bs" using acc(3) by (simp add: unat_of_nat)
  obtain s0 where s0: "send_request ?S fd OP_PWRITE ?n off (sh_sock st) = (True, s0)"
    "lk_up s0 = lk_up (sh_sock st) @ le_bytes 8 OP_PWRITE @ le_bytes 8 ?n @ le_bytes 8 off" "lk_down s0 = lk_down (sh_sock st)"
    "(lk_data s0, lk_world s0) = (lk_data (sh_sock st), client_world st)"
    by (rule link.send_request_ok)
  obtain s1 where s1: "write_loop ?S fd bs s0 = Some (True, s1)" "lk_up s1 = lk_up s0 @ bs" "lk_down s1 = lk_down s0"
    "(lk_data s1, lk_world s1) = (lk_data s0, lk_world s0)"
    by (rule link.write_loop_ok)
  have w1: "lk_world s1 = client_world st" "lk_data s1 = lk_data (sh_sock st)" "lk_down s1 = []"
    and u1: "lk_up s1 = le_bytes 8 OP_PWRITE @ le_bytes 8 ?n @ le_bytes 8 off @ bs" using s0 s1 r(2,3) by simp_all
  obtain w' t where w': "link_wait c M j s1 = \<lparr>lk_up = [], lk_down = le_bytes 8 ?n, lk_turn = t, lk_data = lk_data s1, lk_world = w'\<rparr>"
    "bus_ready n w'" "cfg (w_pcie w') = win" "w_cpp w' = w_cpp (lk_world s1)"
    "cmem (w_hw w') = (cmem (w_hw (lk_world s1)))(port_of d := mem_wr (cmem (w_hw (lk_world s1)) (port_of d)) a bs)"
    "w_fault w' = w_fault (lk_world s1)"
    by (rule link_answers_pwrite [OF _ _ acc _ t(2) u1 w1(3)]) (use r t(1) w1(1) in simp_all)
  let ?l = "\<lparr>lk_up = [], lk_down = le_bytes 8 ?n, lk_turn = t, lk_data = lk_data s1, lk_world = w'\<rparr>"
  have d: "lk_down ?l = le_bytes 8 ?n @ []" by simp
  obtain s2 where s2: "read_u64 ?S fd off ?l = (8, ?n, s2)" "lk_down s2 = []" "lk_up s2 = lk_up ?l"
    "(lk_data s2, lk_world s2) = (lk_data ?l, lk_world ?l)"
    by (rule link.read_u64_ok [OF d])
  have ne: "lk_down (link_wait c M j s1) \<noteq> []" unfolding w'(1) using length_le_bytes [of 8 ?n] by (metis append_Nil2 d length_0_conv zero_neq_numeral)
  have rd: "read_u64 ?S fd off s1 = (8, ?n, s2)" unfolding read_answer [OF ne] w'(1) by (rule s2(1))
  have "cpp_pwrite L fd bs ?n off st = Some (int (length bs), st\<lparr>sh_sock := s2\<rparr>)"
    using L s0(1) s1(1) rd u as_int_small [OF acc(3)] sint64_small [OF acc(3)] lt_sizeof_full [of 8] by (simp add: cpp_pwrite_def Let_def)
  then show thesis by (rule that) (use r s2 w' w1 in \<open>simp_all add: client_ready_def status_of_def split: if_splits\<close>)
qed

end

section \<open>A range within 1 MiB\<close>

lemma chop_one: "bs \<noteq> [] \<Longrightarrow> length bs \<le> k \<Longrightarrow> chop k bs = [bs]"
  by (cases bs) (simp_all add: chop.simps [of k] chop.simps [of _ "[]"])

lemma file_range_one:
  assumes acc: "block_access n d a (of_nat (length bs))" "take_bit 40 a = a" "length bs < 2 ^ 31"
    and t: "nfp_target_cpp (cdev_cpp_id off) (cdev_offset off) (Some (\<lambda>i. imb_cat_table c ! i)) = Inr (d, a)"
      "cdev_offset off + of_nat (length bs) \<le> push_bit 40 1"
    and one: "unat (cdev_offset off) mod 2 ^ 20 + length bs \<le> 2 ^ 20" and m: "mem_rd (m (port_of d)) a (length bs) = bs"
  shows "file_range n m c off bs"
proof -
  have "0 < unat (of_nat (length bs) :: u64)" using acc(1) by (simp add: block_access_def)
  then have ne: "bs \<noteq> []" by auto
  have "device_block n m c (cdev_cpp_id off) (cdev_offset off) bs"
    unfolding device_block_def using acc t m by blast
  moreover have "chop (2 ^ 20 - unat (cdev_offset off) mod 2 ^ 20) bs = [bs]" by (rule chop_one [OF ne]) (use one in linarith)
  ultimately show ?thesis using acc(3) by (simp add: file_range_def)
qed

text \<open>The calls as the client makes them.\<close>

lemma shim_calls:
  assumes "client_ready n win fd st"
  shows "shim_pread L fd count off st = cpp_pread L fd count off st" "shim_pread64 L fd count off st = cpp_pread L fd count off st"
    "shim_pwrite L fd bs count off st = cpp_pwrite L fd bs count off st"
    "shim_pwrite64 L fd bs count off st = cpp_pwrite L fd bs count off st"
  using assms by (simp_all add: client_ready_def shim_pread_def shim_pread64_def shim_pwrite_def shim_pwrite64_def
      pread_with_def pwrite_with_def)

section \<open>A client of the started device\<close>

definition dev_data :: nfp_cpp_dev_data where
  "dev_data = \<lparr>dd_listen_fd = 3, dd_connections = replicate MAX_CONNECTIONS \<lparr>pf_fd = -1, pf_events = 0, pf_revents = 0\<rparr>,
     dd_count = 1, dd_req = []\<rparr>"

definition dev_client :: "p2c_hw link shim" where
  "dev_client = \<lparr>fd_status = (\<lambda>_. FD_UNUSED)(5 := FD_CPP), sh_errno = 0,
     sh_sock = \<lparr>lk_up = [], lk_down = [], lk_turn = 0, lk_data = dev_data, lk_world = dev_world\<rparr>\<rparr>"

definition cmd_zero :: cmd_junk where
  "cmd_zero = \<lparr>cj_tmp = 0, cj_area = replicate 32 0, cj_expl = replicate 168 0,
     cj_ident = \<lparr>id_size = 0, id_model = 0, id_interface = 0, id_serial_lo = 0, id_serial_hi = 0\<rparr>\<rparr>"

definition dev_libc :: "(nat \<Rightarrow> nat) \<Rightarrow> p2c_hw link libc" where
  "dev_libc c = \<lparr>libc_sys = link_sys c (p2c_mmio dev_base) cmd_zero, libc_socket = \<lambda>s. (5, 0, s), libc_connect = \<lambda>_ _ s. (0, 0, s),
     libc_open = \<lambda>_ _ s. (-1, 2, s), libc_open64 = \<lambda>_ _ s. (-1, 2, s), libc_pread = \<lambda>_ _ _ s. ((-1, []), 9, s),
     libc_pread64 = \<lambda>_ _ _ s. ((-1, []), 9, s), libc_pwrite = \<lambda>_ _ _ _ s. (-1, 9, s), libc_pwrite64 = \<lambda>_ _ _ _ s. (-1, 9, s),
     libc_ioctl = \<lambda>_ _ p s. ((-1, p), 9, s)\<rparr>"

lemma dev_client_ready: "client_ready 21 dev_base 5 dev_client" "client_world dev_client = dev_world"
  using dev_ready by (simp_all add: client_ready_def status_of_def dev_client_def MAX_FD_def)

lemma dev_file:
  "cdev_cpp_id 0x0700200000001000 = NFP_CPP_ID 7 32 0" "cdev_offset 0x0700200000001000 = 0x1000"
  "block_access 21 (NFP_CPP_ID 7 32 0) 0x1000 64"
proof -
  show "cdev_cpp_id 0x0700200000001000 = NFP_CPP_ID 7 32 0" "cdev_offset 0x0700200000001000 = 0x1000" by code_simp+
  let ?p = "NFP_CPP_ID (ucast (NFP_CPP_ID_TARGET_of (NFP_CPP_ID 7 32 0))) (ucast (NFP_CPP_ID_ACTION_of (NFP_CPP_ID 7 32 0)))
     (ucast (NFP_CPP_ID_TOKEN_of (NFP_CPP_ID 7 32 0)))"
  have pp: "nfp6000_target_pushpull ?p 0x1000 = Inr 34" by code_simp
  have f: "ucast (NFP_CPP_ID_TARGET_of (NFP_CPP_ID 7 32 0)) = (7 :: u32)"
    "ucast (NFP_CPP_ID_ACTION_of (NFP_CPP_ID 7 32 0)) = NFP_CPP_ACTION_RW" by code_simp+
  show "block_access 21 (NFP_CPP_ID 7 32 0) 0x1000 64"
    using pp unfolding block_access_def Let_def f by (simp add: mask_eq_exp_minus_1)
qed

end
