(* ===== verification/Cdev_Areas.thy ===== *)
theory Cdev_Areas
  imports Cdev_Chunks
begin

text \<open>
  The areas that clients have requested from the device server: whatever requests arrive, their windows in
  the offsets of the device file are pages that do not overlap, except for the last page of the offset space.
\<close>

definition covers :: "nfp_cpp_area_request \<Rightarrow> u64 \<Rightarrow> bool" where
  "covers r k \<longleftrightarrow> (\<exists>i<unat (rq_size r). k = rq_offset r + of_nat i)"

definition request_ok :: "nfp_cpp_area_request \<Rightarrow> bool" where
  "request_ok r \<longleftrightarrow> rq_offset r AND mask 12 = 0 \<and> (rq_size r = 0 \<or> rq_size r = 4096)"

definition areas_wf :: "nfp_dev_cpp_area list \<Rightarrow> bool" where
  "areas_wf as \<longleftrightarrow> (\<forall>a\<in>set as. request_ok (da_req a)) \<and> sorted_wrt (\<lambda>a b. \<not> collides (da_req b) (da_req a)) as"

lemma page_size_cases:
  assumes "(x :: u64) AND NOT DEV_PAGE_SIZE = 0"
  shows "x = 0 \<or> x = 4096"
proof -
  have "x AND DEV_PAGE_SIZE = x"
  proof (rule bit_word_eqI)
    fix i assume i: "i < LENGTH(64)"
    have "\<not> bit (x AND NOT DEV_PAGE_SIZE) i" using assms by simp
    then show "bit (x AND DEV_PAGE_SIZE) i = bit x i" using i by (auto simp: bit_simps)
  qed
  moreover have "x AND DEV_PAGE_SIZE = (if bit x 12 then 4096 else 0)" 
  proof -
    have e: "DEV_PAGE_SIZE = 2 ^ 12" "(4096 :: u64) = 2 ^ 12" by (simp_all add: DEV_PAGE_SIZE_def)
    have b: "bit (2 ^ 12 :: u64) i \<longleftrightarrow> i = 12" for i using bit_exp_iff [of 12 i, where 'a = "64 word"] by auto
    show ?thesis unfolding e by (rule bit_word_eqI) (auto simp only: b bit_and_iff bit_0_eq bot_fun_def bot_bool_def split: if_split)
  qed
  ultimately show ?thesis by (metis (full_types))
qed

lemma page_low: "x AND NOT DEV_PAGE_MASK = x AND mask 12"
  by (simp add: DEV_PAGE_MASK_def DEV_PAGE_SIZE_def mask_eq_exp_minus_1)

lemma page_sum:
  assumes "(a :: u64) AND mask 12 = 0" "b = 0 \<or> b = 4096"
  shows "(a + b) AND mask 12 = 0"
  using low_bits_add [of a 12 b] assms by (auto simp: mask_eq_exp_minus_1)

lemma range_check_free: "nfp_dev_cpp_range_check as r = 0 \<longleftrightarrow> (\<forall>a\<in>set as. \<not> collides r (da_req a))"
  "nfp_dev_cpp_range_check as r \<le> 0"
  using errno_code_pos [of ETXTBSY] by (auto simp: nfp_dev_cpp_range_check_def)

lemma offset_search_ok:
  assumes "\<forall>a\<in>set all \<union> set as. request_ok (da_req a)" "request_ok r" "offset_search all as err r = (err', r')"
  shows "request_ok r' \<and> rq_size r' = rq_size r"
  using assms
proof (induction as arbitrary: r err)
  case (Cons a as)
  let ?r = "r\<lparr>rq_offset := rq_offset (da_req a) + rq_size (da_req a)\<rparr>"
  have r: "request_ok ?r" using Cons.prems(1,2) page_sum [of "rq_offset (da_req a)" "rq_size (da_req a)"] by (simp add: request_ok_def)
  show ?case
  proof (cases "nfp_dev_cpp_range_check all ?r = 0")
    case True
    then show ?thesis using Cons.prems(3) r by (auto simp: Let_def)
  next
    case False
    then have "offset_search all as (nfp_dev_cpp_range_check all ?r) ?r = (err', r')" using Cons.prems(3) by (simp add: Let_def)
    from Cons.IH [OF _ r this] show ?thesis using Cons.prems(1) by simp
  qed
qed simp

text \<open>A request that is accepted is put at the end of the list; one that is refused changes nothing.\<close>

lemma area_request_cases:
  assumes wf: "areas_wf (dd_req data)" and rq: "do_cpp_area_request M data iface r w = (err, r', data', w')"
  shows "areas_wf (dd_req data') \<and> (err = 0 \<longrightarrow> (\<exists>a. dd_req data' = dd_req data @ [a] \<and> da_req a = r'))
    \<and> (err \<noteq> 0 \<longrightarrow> err < 0 \<and> data' = data)"
proof -
  have al: "(e = 0 \<longrightarrow> (\<exists>a. dd_req d' = dd_req data @ [a] \<and> da_req a = q)) \<and> (e \<noteq> 0 \<longrightarrow> e < 0 \<and> d' = data)"
    if "nfp_dev_cpp_area_alloc M data iface q w = (e, d', v)" for e d' q v
    using that errno_code_pos [of ENOMEM] errno_code_pos [of EINVAL]
    by (auto simp: nfp_dev_cpp_area_alloc_def split: if_splits option.splits prod.splits)
  have put: "areas_wf (dd_req data @ [a])" if "request_ok (da_req a)" "\<forall>b\<in>set (dd_req data). \<not> collides (da_req a) (da_req b)" for a
    using wf that by (auto simp: areas_wf_def sorted_wrt_append)
  show ?thesis
  proof (cases "rq_size r AND NOT DEV_PAGE_SIZE \<noteq> 0 \<or> rq_offset r \<noteq> -1 \<and> rq_offset r AND NOT DEV_PAGE_MASK \<noteq> 0")
    case True
    then have "do_cpp_area_request M data iface r w = (- errno_code EINVAL, r, data, w)"
      unfolding do_cpp_area_request_def by (elim disjE) simp_all
    then show ?thesis using rq wf errno_code_pos [of EINVAL] by auto
  next
    case False
    then have sz: "rq_size r = 0 \<or> rq_size r = 4096" and off: "rq_offset r = -1 \<or> rq_offset r AND mask 12 = 0"
      using page_size_cases by (auto simp: page_low)
    define eq where "eq = (if rq_offset r = -1
      then let r = r\<lparr>rq_offset := 0\<rparr>; err = nfp_dev_cpp_range_check (dd_req data) r
           in if err < 0 then offset_search (dd_req data) (dd_req data) err r else (err, r)
      else (0, r))"
    obtain e q where eq: "eq = (e, q)" by (metis surj_pair)
    have z: "request_ok (r\<lparr>rq_offset := 0\<rparr>)" using sz by (simp add: request_ok_def)
    have q: "request_ok q"
    proof (cases "rq_offset r = -1")
      case True
      then show ?thesis using eq z wf offset_search_ok [of "dd_req data" "dd_req data" "r\<lparr>rq_offset := 0\<rparr>"]
        by (auto simp: eq_def Let_def areas_wf_def split: if_splits)
    next
      case False
      then show ?thesis using eq off sz by (simp add: eq_def request_ok_def)
    qed
    have st: "do_cpp_area_request M data iface r w = (if e \<ge> 0
        then let err = nfp_dev_cpp_range_check (dd_req data) q
             in if err \<ge> 0 then let (err, data, w) = nfp_dev_cpp_area_alloc M data iface q w in (err, q, data, w) else (err, q, data, w)
        else (e, q, data, w))"
    proof -
      have "\<not> (rq_size r AND NOT DEV_PAGE_SIZE \<noteq> 0)" "\<not> (rq_offset r \<noteq> -1 \<and> rq_offset r AND NOT DEV_PAGE_MASK \<noteq> 0)"
        using False by blast+
      then show ?thesis unfolding do_cpp_area_request_def eq_def [symmetric] eq by (simp only: if_False prod.case Let_def)
    qed
    show ?thesis
    proof (cases "e \<ge> 0 \<and> nfp_dev_cpp_range_check (dd_req data) q \<ge> 0")
      case True
      then have free: "\<forall>b\<in>set (dd_req data). \<not> collides q (da_req b)" using range_check_free [of "dd_req data" q] by auto
      obtain e2 d2 v where a: "nfp_dev_cpp_area_alloc M data iface q w = (e2, d2, v)" by (metis prod_cases3)
      then have "err = e2" "r' = q" "data' = d2" using st rq True by (simp_all add: Let_def)
      then show ?thesis using al [OF a] put q free wf by auto
    next
      case False
      then show ?thesis using st rq wf by (auto simp: Let_def split: if_splits)
    qed
  qed
qed

lemma release_search_sub:
  "release_search off as = (err, bs, freed) \<Longrightarrow> set bs \<subseteq> set as \<and> (sorted_wrt P as \<longrightarrow> sorted_wrt P bs)"
proof (induction as arbitrary: err bs freed)
  case (Cons a as)
  then show ?case by (auto split: if_splits prod.splits) blast+
qed simp

lemma area_release_wf:
  assumes "areas_wf (dd_req data)" "do_cpp_area_release data iface r w = (err, data', w')"
  shows "areas_wf (dd_req data')"
proof -
  obtain e bs freed where s: "release_search (rq_offset r) (dd_req data) = (e, bs, freed)" by (metis prod_cases3)
  then have "dd_req data' = bs" using assms(2) by (auto simp: do_cpp_area_release_def split: option.splits)
  then show ?thesis using release_search_sub [OF s] assms(1) by (auto simp: areas_wf_def)
qed

text \<open>Windows that do not collide share no byte, except for the last page, whose end wraps to 0.\<close>

lemma page_cover:
  assumes "request_ok r" "covers r k"
  shows "k AND NOT (mask 12) = rq_offset r" "rq_size r = 4096"
proof -
  obtain i where i: "i < unat (rq_size r)" "k = rq_offset r + of_nat i" using assms(2) by (auto simp: covers_def)
  show s: "rq_size r = 4096" using i(1) assms(1) by (auto simp: request_ok_def)
  have u: "unat (of_nat i :: u64) = i" "i < 4096" using i(1) s by (simp_all add: unat_of_nat)
  have o: "rq_offset r AND mask 12 = 0" using assms(1) by (simp add: request_ok_def)
  have m: "(of_nat i :: u64) AND mask 12 = of_nat i"
    using u by (simp add: word_unat_eq_iff unat_and_mask)
  have "rq_offset r AND of_nat i = 0"
  proof -
    have "rq_offset r AND of_nat i = rq_offset r AND (of_nat i AND mask 12)" by (simp only: m)
    also have "\<dots> = (rq_offset r AND mask 12) AND of_nat i" by (simp only: ac_simps)
    finally show ?thesis using o by simp
  qed
  then have "k = rq_offset r OR of_nat i" unfolding i(2) by (simp add: disjunctive_add_eq_or)
  moreover have "of_nat i AND NOT (mask 12 :: u64) = 0" by (subst m [symmetric]) (simp add: and.assoc)
  moreover have "rq_offset r AND NOT (mask 12) = rq_offset r"
  proof -
    have "rq_offset r = (rq_offset r AND mask 12) OR (rq_offset r AND NOT (mask 12))" by (rule bit_word_eqI) (auto simp: bit_simps)
    then show ?thesis using o by simp
  qed
  ultimately show "k AND NOT (mask 12) = rq_offset r" by (simp add: bit.conj_disj_distrib2)
qed

lemma apart_disjoint:
  assumes "request_ok r" "request_ok q" "\<not> collides r q" "covers r k" "covers q k"
  shows "rq_offset r = - 4096"
proof (rule ccontr)
  assume n: "rq_offset r \<noteq> - 4096"
  note c = page_cover [OF assms(1,4)] page_cover [OF assms(2,5)]
  have o: "rq_offset q = rq_offset r" using c by simp
  have a: "unat (rq_offset r) mod 4096 = 0"
    using assms(1) unat_and_mask [of "rq_offset r" 12] by (simp add: request_ok_def)
  have "unat (rq_offset r) + 4096 < 2 ^ 64"
  proof (rule ccontr)
    assume "\<not> unat (rq_offset r) + 4096 < 2 ^ 64"
    moreover have "unat (rq_offset r) < 2 ^ 64" using unsigned_less [of "rq_offset r", where 'a = nat] by simp
    moreover obtain m where "unat (rq_offset r) = 4096 * m" using a by (auto simp: mod_eq_0_iff_dvd)
    ultimately have "unat (rq_offset r) = 2 ^ 64 - 4096" by simp
    moreover have "unat (- 4096 :: u64) = 2 ^ 64 - 4096" by simp
    ultimately show False using n by (simp add: word_unat_eq_iff)
  qed
  then have "unat (rq_offset r + 4096) = unat (rq_offset r) + 4096" by (simp add: unat_word_ariths)
  then have "rq_offset r < rq_offset r + 4096" by (simp add: word_less_nat_alt)
  then show False using assms(3) c o by (simp add: collides_def)
qed

lemma wf_disjoint:
  assumes "areas_wf as" "i < j" "j < length as" "covers (da_req (as ! i)) k" "covers (da_req (as ! j)) k"
  shows "rq_offset (da_req (as ! i)) = - 4096"
proof -
  have "\<not> collides (da_req (as ! j)) (da_req (as ! i))" "request_ok (da_req (as ! j))" "request_ok (da_req (as ! i))"
    using assms(1-3) by (auto simp: areas_wf_def sorted_wrt_iff_nth_less)
  from apart_disjoint [OF this(2,3,1) assms(5,4)] page_cover(1) [OF this(2) assms(5)] page_cover(1) [OF this(3) assms(4)]
  show ?thesis by simp
qed

section \<open>Commands and turns\<close>

lemma handle_cmd_areas:
  assumes wf: "areas_wf (dd_req data)" and h: "nfp_cpp_dev_handle_cmd S M j data fd s w = Some (r, data', s', w')"
  shows "areas_wf (dd_req data')"
proof -
  have rq: "areas_wf (dd_req d')" if "ioctl_area_request S M raw data fd t v = (e, d', t', v')" for raw t v e d' t' v'
    using that wf area_request_cases [OF wf, THEN conjunct1]
    by (auto simp: ioctl_area_request_def Let_def split: prod.splits if_splits)
  have rl: "areas_wf (dd_req d')" if "ioctl_area_release S raw data fd t v = (e, d', t', v')" for raw t v e d' t' v'
    using that wf area_release_wf [OF wf]
    by (auto simp: ioctl_area_release_def Let_def split: prod.splits if_splits)
  have io: "areas_wf (dd_req d')" if "nfp_cpp_dev_ioctl S M j data fd q t v = (e, d', t', v')" for q t v e d' t' v'
    using that wf rq rl by (auto simp: nfp_cpp_dev_ioctl_def split: if_splits prod.splits)
  show ?thesis using h wf io
    by (auto simp: nfp_cpp_dev_handle_cmd_def Let_def split: prod.splits if_splits option.splits)
qed

lemma conn_update_req [simp]: "dd_req (conn_update i f data) = dd_req data"
  by (simp add: conn_update_def)

lemma poll_conns_areas:
  "areas_wf (dd_req data) \<Longrightarrow> poll_conns S M j is cc data s w = Some (cc', data', s', w') \<Longrightarrow> areas_wf (dd_req data')"
proof (induction "is" arbitrary: cc data s w)
  case (Cons i "is")
  show ?case
  proof (cases "nfp_cpp_dev_handle_cmd S M (j i) data (pf_fd (dd_connections data ! i)) s w")
    case None
    then show ?thesis using Cons.prems by (auto simp: Let_def split: if_splits prod.splits dest: Cons.IH [rotated])
  next
    case (Some x)
    obtain r d1 s1 w1 where x: "x = (r, d1, s1, w1)" by (metis prod_cases4)
    have "areas_wf (dd_req d1)" by (rule handle_cmd_areas [OF Cons.prems(1) Some [unfolded x]])
    then show ?thesis using Cons.prems Some x by (auto simp: Let_def split: if_splits prod.splits dest: Cons.IH [rotated])
  qed
qed simp

lemma cleanup_req: "dd_req (snd (cleanup_conns is jx data)) = dd_req data"
  by (induction "is" jx data rule: cleanup_conns.induct) simp_all

lemma poll_turn_areas:
  assumes "areas_wf (dd_req data)" "nfp_cpp_dev_poll_turn S M j A data s w = Some (data', s', w')"
  shows "areas_wf (dd_req data')"
proof -
  let ?d = "poll_events A data"
  have e: "areas_wf (dd_req ?d)" "areas_wf (dd_req (poll_accept A ?d))"
    using assms(1) by (simp_all add: poll_events_def poll_accept_def)
  show ?thesis
  proof (cases "pl_ret A \<le> 0")
    case True
    then show ?thesis using assms(2) e(1) by (auto simp: nfp_cpp_dev_poll_turn_def)
  next
    case False
    then obtain cc d1 s1 w1 where c: "poll_conns S M j [1..<dd_count (poll_accept A ?d)] 0 (poll_accept A ?d) s w = Some (cc, d1, s1, w1)"
      using assms(2) by (auto simp: nfp_cpp_dev_poll_turn_def Let_def split: option.splits)
    obtain jx d2 where k: "cleanup_conns [1..<dd_count d1] 1 d1 = (jx, d2)" by (metis surj_pair)
    have "areas_wf (dd_req d1)" by (rule poll_conns_areas [OF e(2) c])
    moreover have "dd_req d2 = dd_req d1" using cleanup_req [of "[1..<dd_count d1]" 1 d1] k by simp
    ultimately show ?thesis using assms(2) False c k by (auto simp: nfp_cpp_dev_poll_turn_def Let_def split: if_splits)
  qed
qed

section \<open>Two requested areas\<close>

text \<open>The two lowest pages of the file, both onto one range of the memory unit.\<close>

definition page_area :: "u64 \<Rightarrow> nfp_dev_cpp_area" where
  "page_area off = \<lparr>da_interface = 1,
     da_req = \<lparr>rq_offset = off, rq_cpp_id = 0x07200000, rq_pad = 0, rq_cpp_addr = 0x1000, rq_size = 4096\<rparr>,
     da_area = \<lparr>area_name = [], area_offset = 0x1000, area_size = 4096,
       area_priv = \<lparr>ap_bar = None, bar_offset = 0, ap_target = 7, ap_action = 32, ap_token = 0, ap_offset = 0x1000,
         width_read = 4, width_write = 4, width_bar = 8, ap_size = 4096, ap_iomem = 0\<rparr>\<rparr>, da_vma = []\<rparr>"

definition dev_areas :: "nfp_dev_cpp_area list" where
  "dev_areas = [page_area 0, page_area 4096]"

lemma dev_areas_wf: "areas_wf dev_areas" "length dev_areas = 2" "rq_offset (da_req (dev_areas ! 0)) \<noteq> - 4096"
  "covers (da_req (dev_areas ! 0)) 4095"
proof -
  have m: "0 AND mask 12 = (0 :: u64)" "4096 AND mask 12 = (0 :: u64)" by (simp_all add: mask_eq_exp_minus_1)
  show "areas_wf dev_areas"
    using m by (simp add: areas_wf_def dev_areas_def request_ok_def page_area_def collides_def)
  show "length dev_areas = 2" by (simp add: dev_areas_def)
  show "rq_offset (da_req (dev_areas ! 0)) \<noteq> - 4096" by (simp add: dev_areas_def page_area_def)
  show "covers (da_req (dev_areas ! 0)) 4095"
    unfolding covers_def by (rule exI [of _ 4095]) (simp add: dev_areas_def page_area_def)
qed

end
