(* ===== verification/Spec2Isabelle.thy ===== *)
theory Spec2Isabelle
  imports Sdk_Instance Cpp_Start_Proof Mu_Device Info_Device Nsp_Device Eth_Proof Rtsym_Device Nsp_Cmds Pci_Proof Mem_Zone Cdev_Client Cdev_Areas
begin

text \<open>
  A verification of nfp-udp-echo: a UDP echo service on a Netronome NFP network card. The card's
  micro-engines receive packets, rewrite the headers so that the packet goes back to its sender, and
  pass it through a ring in host memory to a user-space program; the program passes it on through a
  second ring, from which the micro-engines transmit it. The program reaches the card through a
  user-space driver for the chip's internal bus (CPP), which is the larger part of the sources.

  \<^bold>\<open>Parts and how they interact.\<close>

  \<^item> The \<^emph>\<open>firmware\<close> (firmware/): the receive engine (rx.c, and multi_rx.c with several contexts)
    filters and rewrites packets (rxops.c, pktdef.h) and copies them into a ring slot by DMA (dma.c); the
    transmit engine (tx.c, multi_tx.c, txops.c) copies slots into fresh packet buffers and sends them.
  \<^item> The \<^emph>\<open>host worker\<close> (user/app_main.c) moves packets from the receive ring to the transmit ring
    (user/lib/ring_buffer.[ch]). Host and firmware share the block of cursors in devcfg.h.
  \<^item> The \<^emph>\<open>bus driver\<close> (user/nfpcore/): CPP identifiers, address translation and targets; the PCIe transport
    with its base address registers (BARs); areas, reads and writes; locks in device memory; the
    resource table; and on top of these the hardware information table, the service processor
    with its port table, and the symbols of the loaded firmware.
  \<^item> The \<^emph>\<open>card driver\<close> (user/lib/driver.c) finds the card in sysfs, maps it and brings the bus driver up;
    user/lib/memzone.c gives the worker memory that the card can reach.

  \<^bold>\<open>Theories and sources.\<close>  Nfp_Prelude has the machine integers, error numbers, byte-addressed memory
  and the collections of facts that the other theories share; Byte_Codec, C_String, C_Text and Nfp_Field
  have words as bytes, C strings, numbers in text and bit fields.

  \<^item> Echo service. Ring_Arith, Ring_Buffer (ring_buffer.[ch]); Device_Config (devcfg.h, user/config.h,
    user/lib/io.h); Firmware_Packet (pktdef.h, rxops.[ch], txops.[ch], dma.[ch]); Firmware_Rx, Firmware_Tx
    (rx.c, tx.c); Multi_Context (multi_rx.c, multi_tx.c); Host_App (the worker of app_main.c). Packet_Echo
    relates the packet operations to the bytes of a frame. Echo_System composes the three programs,
    Echo_Proof and Echo_Progress prove its invariant and that it moves, Sdk_Instance has a concrete
    environment.
  \<^item> Bus. Cpp_Ids (nfp_resid.h), Cpp_At (nfp_cppat.h), Cpp_Target (nfp_target.h), Cpp_World (nfp_cpp.h: the state
    of handle, transport and device), Cpp_Bar and Cpp_Area (nfp_cpp_pcie_ops.c), Cpp_Core and Cpp_Start
    (nfp_cppcore.c, start-up of the transport). Cpp_Locks has the invariant of the BARs, Cpp_Memory and
    Cpp_Progress the meaning of reads and writes, Cpp_Start_Proof the start-up; Cpp_Device is a device.
  \<^item> Locks and resources. Nfp_Mutex (nfp_mutex.c) with Mutex_Cache (the handles refine a list), Cpp_Atomic and
    Mutex_Lock (single operations), Mutex_Exclusion (several masters); Nfp_Crc (nfp_crc.c), Nfp_Resource
    (nfp_resource.c) and Resource_Proof; Mu_Device is a device with an atomic engine.
  \<^item> Information. Nfp_Hwinfo and Hwinfo_Read (nfp_hwinfo.[ch]), Info_Device; Nfp_Nsp (nfp_nsp.[ch]), Nsp_Protocol,
    Nsp_Bus and Nsp_Device; Nsp_Cmds (nfp_nsp_cmds.c); Nfp_Eth (nfp_nsp_eth.c) and Eth_Proof; Nfp_Mip (nfp_nffw.[ch],
    nfp_mip.c), Nfp_Rtsym (nfp_rtsym.[ch]), Rtsym_Proof and Rtsym_Device.
  \<^item> Card. Pci_Driver (driver.c, rte_pci.h) and Pci_Proof.
  \<^item> Memory for the rings. Mem_Zone (memzone.[ch]).
  \<^item> Other programs. Cdev_Wire (nfp_ioctl.h and the transfers on the socket), Cdev_Server (nfp_cpp_dev.c, nfp_cpp_dev_ops.c),
    Cdev_Shim (shim/interpose.c); Cdev_Areas has the windows that clients request, Cdev_Chunks and Cdev_Proof what the server does
    on the bus, Cdev_Stream the contract of a socket, Cdev_Link the connection and Cdev_Client the calls of a client.


  \<^bold>\<open>How the code is modelled.\<close>  A C struct is a record with the fields of the struct, an enumeration a datatype or
  its codes, an integer a word of its width. A function of the sources is a definition of the same name
  (leading underscores are dropped) that takes and returns the state it changes; a failing assertion,
  a division by zero and an access outside of a buffer are outcomes of their own (\<open>None\<close>, or a trap).
  The programs that run concurrently, the engines and the worker, are step functions with an explicit program
  counter, one step for each access to shared memory, and the system interleaves their steps in any order.
  Code outside of the repository is an argument: the Netronome SDK (record \<open>sdk\<close>), loads and stores to the
  mapped window (record \<open>mmio\<close>), what other masters and the service processor do in the meantime, and the
  answers of the operating system (record \<open>pci_os\<close>).

  \<^bold>\<open>Interfaces.\<close>  The contracts between the parts are locales. \<open>slot_ring\<close> (Ring_Arith) is a bounded first-in first-out ring; the host
  ring buffer interprets it. \<open>p2c_window\<close> and \<open>pcie2cpp\<close> (Cpp_Memory) say what the mapped window does: a store to a
  BAR's register sets it, a load or store through a configured BAR reaches the memory behind its target; Cpp_Device
  interprets them. \<open>mu_engine\<close> (Cpp_Atomic) extends the window with the atomic commands of a memory
  unit; Mu_Device interprets it. \<open>nsp_port\<close> (Nsp_Protocol) is a register block of the service processor;
  Nsp_Device interprets it on the bus. The theorems about the driver are proved in these locales and
  stated here over the definitions, with the contract as a hypothesis, and with a witness on the interpretation.
  \<open>zone_store\<close> (Mem_Zone) is a store of zones under handles; the zone table interprets it.
  \<open>stream\<close> (Cdev_Stream) is a connected socket that cuts transfers of more than 32 bytes anywhere; both ends of the connection in Cdev_Link interpret it.


  \<^bold>\<open>What is shown.\<close>

  \<^item> The echo service as a whole: in every interleaving the frames on the wire are the replies to a prefix of the
    accepted frames, in order and without loss (\<open>echo_prefix\<close>); nothing is missing when the system is quiet
    (\<open>quiescent_complete\<close>); a packet can always be answered (\<open>packet_is_answered\<close>); no assertion fails
    (\<open>worker_never_traps\<close>); transfers use free and full slots only. The byte-level meaning of the filter, the
    rewriting and both DMA directions is separate (\<open>rx_accept_bytes\<close>, \<open>dma_send_frame\<close>, \<open>dma_recv_frame\<close>). The
    firmware computes the address of the MU part of a packet in 32 bits: the two DMA theorems are about buffers
    below 4 GiB, and \<open>dma_cuts_mu_address\<close> shows what happens above. The 64-byte frames of the echo service
    have no such part.
  \<^item> The multi-context engines: contexts hold distinct slots and publish them in order, but a stale sample of
    the head lets the ring overrun (\<open>stale_head_overruns\<close>), so the echo theorems are about the engines of rx.c and tx.c.
  \<^item> The bus: encoded addresses decode to their island, but for one case that \<open>cpp_address_roundtrip\<close> names; a read gives the bytes of the range, a write followed by a
    read gives what was written, the BAR is given back. A range that crosses an aperture fails and keeps its BAR.
  \<^item> Locks: at most one master holds a lock in every interleaving of bus accesses; every outcome of an attempt on a bus that answers; waiting ends
    when the lock is free; the first attempt at a damaged lock hides damage of its lowest four bits; the cache of handles refines a list.
  \<^item> Resources and tables: a resource is acquired and released, the checksum is the shift register of its polynomial,
    the hardware information table is a map from keys to values, a command to the service processor
    completes or gives up, the port table means what a direct description says, a symbol is read by its name.
  \<^item> The card: printed addresses are parsed back, and the first supported card is found and mapped.
  \<^item> Memory zones: the table refines a map from handles to zones.
  \<^item> Other programs: a client of the device file reads and writes the memory of the device, and the windows that clients
    request do not overlap, except for the last page (\<open>requested_areas_apart\<close>).


  \<^bold>\<open>Bounds and fuel.\<close>  Loops over data are structural recursion or have a measure. Waits whose number of rounds the code
  bounds (the XPB wait, the two waits of a service processor command) count the rounds of the code. The
  waits that the code does not bound (for a lock, for a resource, for an update of the hardware information) take
  the number of rounds that are looked at; \<open>mutex_lock_waits\<close> shows how many are enough. Areas, BARs and
  mutex handles are allocated from a supply whose exhaustion is \<open>malloc\<close> returning NULL.

  \<^bold>\<open>Not modelled.\<close>  Printing and logging; the threads of app_main.c that only print, and the creation of threads; packet
  counters of the multi-context engines; the debug ring of the firmware, which nothing reads; making a device
  node (\<open>pci_mknod_uio_dev\<close>), whose failure changes nothing; the vendored headers (list.h, the DPDK helpers), whose lists,
  barriers and accessors are lists, sequential steps and the bus of the model; code that is commented out.
  Of the device server, the set-up of its own BARs (nfp_enable_bars), which no command uses, and the creation of its socket; of
  the shim, the look-up of the library functions. The server and the client take turns on the connection: the server handles a
  command when the client waits for an answer.
\<close>

section \<open>The running system\<close>

text \<open>C1: in every state the system can reach, whatever the interleaving of the
  receive engine, the host worker and the transmit engine, the frames handed to the network are
  the replies to the accepted frames, in the order of arrival, without loss, duplication or
  corruption up to the point transmission has reached.\<close>

theorem echo_prefix:
  assumes "env_ok K H" "echo_reach K H s"
  shows "\<exists>k \<le> length (accepted s). wire_out s = map echo_frame (take k (accepted s))"
proof -
  obtain a h a0 d d0 where v: "echo_view K H a h a0 d d0 s"
    using echo_reach_inv [OF assms(2,1)] by (auto simp: echo_inv_def)
  let ?k = "d - tx_unsent (tx_at s)"
  have "published (host_at s) \<le> copied (host_at s)" by (simp add: progress_defs)
  moreover have "d \<le> h + published (host_at s)" "h + copied (host_at s) \<le> a0" "a0 \<le> a"
    "a \<le> length (accepted s)" using echo_viewD(2) [OF v] by (simp_all add: inv_cursor_def)
  ultimately have k: "?k \<le> length (accepted s)" by linarith
  have "wire_out s = map (\<lambda>i. echo_frame (accepted s ! i)) [0..<?k]"
    using echo_viewD(7) [OF v] unfolding inv_wire_def echoed_def .
  also have "\<dots> = map echo_frame (take ?k (accepted s))"
    using k by (intro nth_equalityI) simp_all
  finally show ?thesis using k by blast
qed

theorem echo_prefix_witness:
  "\<exists>s. echo_reach ref_sdk ref_host s \<and> quiescent s
     \<and> (\<exists>k \<le> length (accepted s). wire_out s = map echo_frame (take k (accepted s)))"
  using ref_quiescent echo_prefix [OF ref_env_ok] by blast

text \<open>C2: when both rings are empty, the worker is between two turns of its
  loop and the engines hold no packet, every accepted frame has been answered.\<close>

theorem quiescent_complete:
  assumes "env_ok K H" "echo_reach K H s" "quiescent s"
  shows "wire_out s = map echo_frame (accepted s)"
  using quiescent_view [OF assms] by metis

theorem quiescent_complete_witness:
  "\<exists>s. echo_reach ref_sdk ref_host s \<and> wire_out s = map echo_frame (accepted s)"
  using ref_quiescent quiescent_complete [OF ref_env_ok] by blast

text \<open>C3: the system makes progress. From a reachable quiescent state, an
  arriving packet that the filter accepts can be received, moved through both rings by the worker
  and transmitted, after which the system is quiescent again and the reply is the last frame on
  the wire.\<close>

theorem packet_is_answered:
  assumes "env_ok K H" "echo_reach K H s" "quiescent s"
    and "arrival_ok K s meta mm" "free_buffer K num buf"
    and "accept_frame 64 (rx_frame K meta (unat (pkt_len meta) - 8) mm)"
  shows "\<exists>t. echo_reach K H t \<and> quiescent t
    \<and> wire_out t = wire_out s @ [echo_frame (rx_frame K meta 64 mm)]"
proof -
  obtain t where t: "echo_reach K H t" "quiescent t" "accepted t = accepted s @ [rx_frame K meta 64 mm]"
    "wire_out t = map echo_frame (accepted t)" using packet_answered [OF assms(1-5,6)] by blast
  moreover have "wire_out s = map echo_frame (accepted s)"
    using quiescent_view [OF assms(1-3)] by metis
  ultimately show ?thesis by auto
qed

theorem packet_is_answered_witness:
  "\<exists>s t. echo_reach ref_sdk ref_host s \<and> echo_reach ref_sdk ref_host t
     \<and> wire_out t = wire_out s @ [echo_frame ref_frame]"
proof -
  obtain s where s: "echo_reach ref_sdk ref_host s" "quiescent s" using ref_quiescent by blast
  then have "arrival_ok ref_sdk s ref_meta ref_mem" by (intro ref_arrival) (simp add: quiescent_def)
  from packet_is_answered [OF ref_env_ok s this ref_free_buffer]
  have "\<exists>t. echo_reach ref_sdk ref_host t \<and> quiescent t
      \<and> wire_out t = wire_out s @ [echo_frame ref_frame]"
    using ref_accept by (simp add: ref_len ref_rx_frame)
  with s(1) show ?thesis by blast
qed

text \<open>C4: the assertions of the ring buffer operations and the division in the
  full test never fail in the worker.\<close>

theorem worker_never_traps:
  assumes "env_ok K H" "echo_reach K H s"
  shows "host_at s \<noteq> HTrap t"
proof -
  obtain a h a0 d d0 where v: "echo_view K H a h a0 d d0 s"
    using echo_reach_inv [OF assms(2,1)] by (auto simp: echo_inv_def)
  show ?thesis using echo_viewD(1) [OF v] by (simp add: inv_static_def)
qed

theorem worker_never_traps_witness: "host_at ref_start \<noteq> HTrap AssertFail"
  by (rule worker_never_traps [OF ref_env_ok ref_start_reach])

text \<open>C6: when the receive engine starts the transfer of a packet, the slot
  at its tail is free: no slot between the published head and the tail has that offset, and the
  bytes written there leave every slot the host may still read unchanged.\<close>

theorem rx_dma_into_free_slot:
  assumes "env_ok K H" "echo_reach K H s" "rx_at s = RxDma p t u"
  shows "t = rx_tail (shared_cfg s)
    \<and> ringbuffer_full \<lparr>base_addr = rx_addr H, entry_size = 64, capacity = 512,
         rb_head = rx_head (shared_cfg s), rb_tail = rx_tail (shared_cfg s)\<rparr> = Inr False"
proof -
  obtain a h a0 d d0 where v: "echo_view K H a h a0 d d0 s"
    using echo_reach_inv [OF assms(2,1)] by (auto simp: echo_inv_def)
  have b: "t = pos a" "rx_tail (shared_cfg s) = pos a" "rx_head (shared_cfg s) = pos h"
    "Suc a < h + 8" "h \<le> a"
    using echo_viewD(2,3) [OF v] assms(3) by (auto simp: inv_cursor_def inv_rx_def)
  have "rb_view 64 8 h a \<lparr>base_addr = rx_addr H, entry_size = 64, capacity = 512,
      rb_head = pos h, rb_tail = pos a\<rparr>" using b geo by (simp add: rb_view_def)
  from rb_view_full [OF this] show ?thesis using b by simp
qed

theorem rx_dma_into_free_slot_witness:
  "\<exists>s p t u. echo_reach ref_sdk ref_host s \<and> rx_at s = RxDma p t u \<and> t = rx_tail (shared_cfg s)"
proof -
  obtain s p t u where "echo_reach ref_sdk ref_host s" "rx_at s = RxDma p t u" using ref_rx_dma by blast
  then show ?thesis using rx_dma_into_free_slot [OF ref_env_ok] by blast
qed

text \<open>C7: when the transmit engine starts the transfer of a packet, the
  transmit ring is not empty and the slot at its head holds the reply to the first accepted frame
  that was not transmitted yet.\<close>

theorem tx_dma_from_full_slot:
  assumes "env_ok K H" "echo_reach K H s" "tx_at s = TxDma p t u"
  shows "t = tx_head (shared_cfg s) \<and> t \<noteq> tx_tail (shared_cfg s)
    \<and> length (wire_out s) < length (accepted s)
    \<and> mem_rd (pci_mem (dev s)) (tx_iova H + ucast t) 64 = echo_frame (accepted s ! length (wire_out s))"
proof -
  obtain a h a0 d d0 where v: "echo_view K H a h a0 d d0 s"
    using echo_reach_inv [OF assms(2,1)] by (auto simp: echo_inv_def)
  have b: "t = pos d" "tx_head (shared_cfg s) = pos d" "d < h + published (host_at s)"
    "tx_tail (shared_cfg s) = pos (h + published (host_at s))" "h + published (host_at s) < d + 8"
    "h + published (host_at s) \<le> h + copied (host_at s)" "h + copied (host_at s) \<le> length (accepted s)"
    using echo_viewD(2,4) [OF v] assms(3)
    by (auto simp: inv_cursor_def inv_tx_def progress_defs split: if_splits)
  have w: "length (wire_out s) = d" using echo_viewD(7) [OF v] assms(3) by (simp add: inv_wire_def)
  have "slot_at (tx_iova H) d (pci_mem (dev s)) = echoed s d"
    using echo_viewD(5) [OF v] b by (simp add: inv_slots_def)
  moreover have "t \<noteq> tx_tail (shared_cfg s)"
    using b pos_eq [of d "h + published (host_at s)"] by simp
  ultimately show ?thesis using b w by (simp add: slot_at_def echoed_def)
qed

theorem tx_dma_from_full_slot_witness:
  "\<exists>s p t u. echo_reach ref_sdk ref_host s \<and> tx_at s = TxDma p t u \<and> t \<noteq> tx_tail (shared_cfg s)"
proof -
  obtain s p t u where "echo_reach ref_sdk ref_host s" "tx_at s = TxDma p t u" using ref_tx_dma by blast
  then show ?thesis using tx_dma_from_full_slot [OF ref_env_ok] by blast
qed


section \<open>Packets\<close>

text \<open>C8: receiving, filtering, rewriting and writing back the header are, on the
  bytes of the frame, the test \<open>accept_frame\<close> and the function \<open>echo_frame\<close>: a frame that is not
  IPv4 carrying UDP or ICMP, or has another length, is dropped and its buffers freed; any other
  frame is replaced in device memory by its reply, and no byte outside the packet changes.\<close>

theorem rx_accept_bytes:
  assumes "env_ok K H" "packet_size lm = 64"
    and "pkt_bufs_ok K meta 64" "8 \<le> unat (pkt_len meta)"
  shows "case rx_accept K lm meta s of
      (None, t) \<Rightarrow> \<not> accept_frame 64 (rx_frame K meta (unat (pkt_len meta) - 8) (mem40 s))
        \<and> mem40 t = mem40 s \<and> pci_mem t = pci_mem s
        \<and> events t = events s @ [BlmFree (muptr meta) (bls meta), CtmFree (isl meta) (pnum meta),
            NbiDrop (isl meta) (pnum meta) (pkt_len meta) (seqr meta) (seq meta)]
    | (Some p, t) \<Rightarrow> accept_frame 64 (rx_frame K meta (unat (pkt_len meta) - 8) (mem40 s))
        \<and> nbi_meta p = meta \<and> pci_mem t = pci_mem s
        \<and> rx_frame K meta 64 (mem40 t) = echo_frame (rx_frame K meta 64 (mem40 s))
        \<and> (\<forall>x. x \<notin> pkt_range K meta 64 \<longrightarrow> mem40 t x = mem40 s x)"
  by (rule rx_accept_cases [OF assms(1,2) refl assms(3,4), of s])
    (simp_all add: drop_packet_def free_packet_def Let_def)

theorem rx_accept_bytes_witness:
  "case rx_accept ref_sdk \<lparr>buffer_capacity = 512, packet_size = 64\<rparr> ref_meta (ref_dev\<lparr>mem40 := ref_mem\<rparr>) of
      (None, t) \<Rightarrow> \<not> accept_frame 64 ref_frame
    | (Some p, t) \<Rightarrow> accept_frame 64 ref_frame \<and> rx_frame ref_sdk ref_meta 64 (mem40 t) = echo_frame ref_frame"
  using rx_accept_bytes [OF ref_env_ok, of "\<lparr>buffer_capacity = 512, packet_size = 64\<rparr>" ref_meta
      "ref_dev\<lparr>mem40 := ref_mem\<rparr>"] ref_bufs_ok [of ref_meta 64]
  by (auto simp: ref_rx_frame ref_len ref_meta_def split: prod.splits option.splits)





text \<open>C15: the address of the part behind the first 256 bytes is computed in 32 bits. For a
  buffer number of 2^21 and more, whose buffer begins at 4 GiB or above, both DMA functions use another
  address: the one of the buffer modulo 2^32, plus 256. A packet that is sent gets the bytes found there,
  and a packet that is received overwrites them.\<close>

theorem dma_cuts_mu_address:
  assumes "dma_engine_ok K" "m = nbi_meta pkt" "2 ^ 21 \<le> unat (muptr m)" "192 < unat (pkt_len m)" "188 < unat len"
  shows "\<exists>a. unat a = unat (mu_addr (muptr m)) mod 2 ^ 32 + 256 \<and> a \<noteq> mu_addr (muptr m) + 256
    \<and> pci_mem (dma_packet_send K cx pkt pa s) = mem_wr (pci_mem s) pa
        (mem_rd (mem40 s) (pkt_ctm_ptr40 K (isl m) (pnum m) 72) 184 @ mem_rd (mem40 s) a (unat (pkt_len m) - 192))
    \<and> mem40 (dma_packet_recv K cx pkt len pa s) =
        mem_wr (mem_wr (mem40 s) (pkt_ctm_ptr40 K (isl m) (pnum m) 68) (mem_rd (pci_mem s) pa 188))
          a (mem_rd (pci_mem s) (pa + 188) (unat len - 188))"
  using dma_packet_send_bytes [OF assms(1), of pkt cx pa s] dma_packet_recv_writes [OF assms(1), of len cx pkt pa s]
    mu_part_unat [of "muptr m"] mu_part_cut [OF assms(3)] assms(2,4,5) by (intro exI [of _ "pkt_mu_buffer (muptr m)"]) simp

theorem dma_cuts_mu_address_witness:
  "pci_mem (dma_packet_send ref_sdk 0 \<lparr>nbi_meta = ref_meta\<lparr>pkt_len := 300, muptr := 0x200007\<rparr>, hdr = rfc_bytes_hdr (replicate 52 0)\<rparr>
      0x90000 (ref_dev\<lparr>mem40 := ref_long_mem\<rparr>)) = mem_wr (\<lambda>_. 0) 0x90000 (replicate 184 1 @ replicate 108 2)
    \<and> mu_addr 0x200007 \<noteq> mu_addr 7"
proof -
  let ?m = "ref_meta\<lparr>pkt_len := 300, muptr := 0x200007\<rparr>"
  let ?p = "\<lparr>nbi_meta = ?m, hdr = rfc_bytes_hdr (replicate 52 0)\<rparr>" and ?s = "ref_dev\<lparr>mem40 := ref_long_mem\<rparr>"
  have K: "dma_engine_ok ref_sdk" using ref_sdk_ok by (simp add: sdk_ok_def)
  have l: "?m = nbi_meta ?p" "2 ^ 21 \<le> unat (muptr ?m)" "192 < unat (pkt_len ?m)" "188 < unat (300 :: u32)" by simp_all
  obtain a where a: "unat a = unat (mu_addr (muptr ?m)) mod 2 ^ 32 + 256"
    "pci_mem (dma_packet_send ref_sdk 0 ?p 0x90000 ?s) = mem_wr (pci_mem ?s) 0x90000
      (mem_rd (mem40 ?s) (pkt_ctm_ptr40 ref_sdk (isl ?m) (pnum ?m) 72) 184 @ mem_rd (mem40 ?s) a (unat (pkt_len ?m) - 192))"
    using dma_cuts_mu_address [OF K l, of 0 "0x90000" ?s] by blast
  have "unat a = unat (mu_addr 7 + 256)" unfolding a(1) by (simp add: unat_mu_addr unat_word_ariths)
  then have "a = mu_addr 7 + 256" by (simp only: word_unat_eq_iff)
  then have "mem_rd ref_long_mem (pkt_ctm_ptr40 ref_sdk (isl ?m) (pnum ?m) 72) 184 @ mem_rd ref_long_mem a 108
      = replicate 184 1 @ replicate 108 2" using ref_long_parts by simp
  moreover have "mu_addr 0x200007 \<noteq> mu_addr 7" by (simp add: word_unat_eq_iff unat_mu_addr)
  ultimately show ?thesis using a(2) by (simp add: ref_dev_def)
qed

text \<open>On a ring with room, \<open>rx_process\<close> as one call computes what the step
  function of the receive engine computes when it runs alone, and the engine is back in its idle
  state after six steps.\<close>

theorem rx_process_steps:
  assumes "rx_accept K lm meta s = (Some pkt, s1)"
    and "ring_advance (packet_size lm) (buffer_capacity lm) (rx_tail c) \<noteq> rx_head c"
  shows "rx_process K cx lm meta [rx_head c] c s =
      Some (snd (snd ((rx_step K cx meta ^^ 6) (lm, RxIdle, c, s))))
    \<and> fst (snd ((rx_step K cx meta ^^ 6) (lm, RxIdle, c, s))) = RxIdle"
  by (rule rx_steps_process [OF assms])

theorem rx_process_steps_witness:
  "\<exists>r. rx_process ref_sdk 0 \<lparr>buffer_capacity = 512, packet_size = 64\<rparr> ref_meta [0] ref_cfg
      (ref_dev\<lparr>mem40 := ref_mem\<rparr>) = Some r"
proof -
  let ?lm = "\<lparr>buffer_capacity = 512, packet_size = 64\<rparr>" and ?s = "ref_dev\<lparr>mem40 := ref_mem\<rparr>"
  obtain p d where "rx_accept ref_sdk ?lm ref_meta ?s = (Some p, d)" by (rule ref_rx_accept)
  moreover have "ring_advance (packet_size ?lm) (buffer_capacity ?lm) (rx_tail ref_cfg) \<noteq> rx_head ref_cfg"
    and h: "rx_head ref_cfg = 0" by (simp_all add: ref_cfg_def ring_advance_def)
  ultimately show ?thesis using rx_process_steps [of ref_sdk ?lm ref_meta ?s p d ref_cfg 0] unfolding h by blast
qed

section \<open>Rings\<close>

text \<open>C27: the host's ring buffer is a bounded first-in first-out queue of slots. On a
  well-formed buffer, push refuses exactly when one more entry would fill the last slot, and
  otherwise appends the free slot; pop refuses exactly on an empty ring and otherwise removes the
  oldest slot; both keep the buffer well-formed, and occupied slots are distinct.\<close>

theorem ring_fifo:
  assumes "rb_wf rb"
  shows "(rb_push_opt rb = None \<longleftrightarrow> Suc (length (rb_slots rb)) = rb_nslots rb)
    \<and> (\<forall>rb'. rb_push_opt rb = Some rb' \<longrightarrow> rb_wf rb' \<and> rb_slots rb' = rb_slots rb @ [rb_free_slot rb])
    \<and> (rb_pop_opt rb = None \<longleftrightarrow> rb_slots rb = [])
    \<and> (\<forall>rb'. rb_pop_opt rb = Some rb' \<longrightarrow> rb_wf rb' \<and> rb_slots rb' = tl (rb_slots rb))
    \<and> distinct (rb_free_slot rb # rb_slots rb)"
proof -
  have "rb_push_opt rb = None \<longleftrightarrow> Suc (length (rb_slots rb)) = rb_nslots rb"
    using host_ring.push_iff [OF assms] host_ring.slots_bound [OF assms] by linarith
  moreover have "rb_pop_opt rb = None \<longleftrightarrow> rb_slots rb = []"
    using host_ring.pop_iff [OF assms] by blast
  moreover have "distinct (rb_free_slot rb # rb_slots rb)"
    using host_ring.slots_distinct [OF assms] host_ring.slot_free [OF assms] by simp
  ultimately show ?thesis
    using host_ring.push_Some [OF assms] host_ring.pop_Some [OF assms] by blast
qed

theorem ring_fifo_witness:
  "rb_push_opt \<lparr>base_addr = 0, entry_size = 64, capacity = 512, rb_head = 64, rb_tail = 448\<rparr> \<noteq> None"
proof -
  have "rb_wf \<lparr>base_addr = 0, entry_size = 64, capacity = 512, rb_head = 64, rb_tail = 448\<rparr>"
    by (simp add: rb_wf_def)
  from ring_fifo [OF this] show ?thesis by (simp add: rb_slots_def rb_nslots_def Let_def)
qed

text \<open>A sequence of pushes and pops that all succeed on an initially empty
  ring never has more than the number of slots minus one pushes ahead of its pops, and the
  occupancy afterwards is their difference.\<close>

theorem ring_run_balance:
  assumes "host_ring.ring_run ops rb = Some rb'" "rb_wf rb" "rb_slots rb = []"
  shows "count_list ops True < rb_nslots rb + count_list ops False
    \<and> length (rb_slots rb') + count_list ops False = count_list ops True"
  using host_ring.ring_run_bounded [OF assms] host_ring.ring_run_occupancy [OF assms(1,2)] assms(3)
  by simp

theorem ring_run_balance_witness:
  "count_list [True, False] True < rb_nslots \<lparr>base_addr = 0, entry_size = 64, capacity = 512,
      rb_head = 64, rb_tail = 64\<rparr> + count_list [True, False] False"
proof -
  let ?rb = "\<lparr>base_addr = 0, entry_size = 64, capacity = 512, rb_head = 64, rb_tail = 64\<rparr>"
  have run: "host_ring.ring_run [True, False] ?rb = Some (?rb\<lparr>rb_head := 128, rb_tail := 128\<rparr>)"
    by (simp add: rb_push_opt_def rb_pop_opt_def ringbuffer_push_def ringbuffer_pop_def ringbuffer_full_def
        ringbuffer_empty_def Let_def)
  have "rb_wf ?rb" "rb_slots ?rb = []" by (simp_all add: rb_wf_def rb_slots_def Let_def)
  from ring_run_balance [OF run this] show ?thesis by blast
qed

text \<open>\<open>ringbuffer_size\<close> is the number of occupied slots times the entry size, also
  when the tail has wrapped around.\<close>

theorem ring_size:
  assumes "rb_wf rb"
  shows "unat (ringbuffer_size rb) = length (rb_slots rb) * unat (entry_size rb)"
proof -
  obtain e n h t where v: "rb_view e n h t rb" using rb_wf_view [OF assms] by blast
  show ?thesis using rb_view_size [OF v] rb_view_slots(1) [OF v] rb_viewD(2) [OF v] by simp
qed

theorem ring_size_witness:
  "unat (ringbuffer_size \<lparr>base_addr = 0, entry_size = 64, capacity = 512, rb_head = 448, rb_tail = 64\<rparr>) = 2 * 64"
proof -
  have "rb_wf \<lparr>base_addr = 0, entry_size = 64, capacity = 512, rb_head = 448, rb_tail = 64\<rparr>"
    by (simp add: rb_wf_def)
  from ring_size [OF this] show ?thesis by (simp add: rb_slots_def rb_nslots_def Let_def)
qed

text \<open>A 64-bit register access made of two 32-bit ones reads back what it
  wrote.\<close>

theorem register_roundtrip: "nn_readq (nn_writeq v a m) a = v"
  by (rule nn_readq_writeq)

section \<open>Several contexts\<close>

text \<open>C29: in the multi-context receive engine, two contexts never
  transfer into the same slot, whatever the interleaving.\<close>

theorem contexts_hold_distinct_slots:
  assumes "mrx_reach K s" "i < 8" "j < 8" "i \<noteq> j"
    and "mrx_slot (mx_pcs s i) = Some (t, u)" "mrx_slot (mx_pcs s j) = Some (t', u')"
  shows "t \<noteq> t'"
  by (rule mrx_slots_distinct [OF assms])

theorem contexts_hold_distinct_slots_witness:
  "\<exists>s t u t' u'. mrx_reach ref_sdk s \<and> mrx_slot (mx_pcs s 0) = Some (t, u)
     \<and> mrx_slot (mx_pcs s 1) = Some (t', u') \<and> t \<noteq> t'"
proof -
  obtain s t u t' u' where "mrx_reach ref_sdk s" "mrx_slot (mx_pcs s 0) = Some (t, u)"
    "mrx_slot (mx_pcs s 1) = Some (t', u')" using ref_two_contexts by blast
  then show ?thesis using contexts_hold_distinct_slots [of ref_sdk s 0 1 t u t' u'] by auto
qed

text \<open>C30: a context that publishes its slot moves the public tail to the
  next slot: slots become visible to the host in the order they were reserved, none is skipped.\<close>

theorem contexts_publish_in_order:
  assumes "mrx_reach K s" "i < 8" "mx_pcs s i = MrxCommit p u"
  shows "u = ring_advance 64 512 (rx_tail (mx_cfg s))"
  by (rule mrx_commit_next [OF assms])

theorem contexts_publish_in_order_witness:
  "\<exists>s p u. mrx_reach ref_sdk s \<and> mx_pcs s 0 = MrxCommit p u
     \<and> u = ring_advance 64 512 (rx_tail (mx_cfg s))"
  using ref_commit contexts_publish_in_order [of ref_sdk _ 0] by fastforce

text \<open>C31: the test for a full ring in \<open>multi_rx.c\<close> uses a head that was
  sampled before the context was swapped out. If the ring has become full for the current head in
  the meantime, a context with an older sample still reserves a slot, and the reserved tail then
  equals the head, which the host takes for an empty ring.\<close>

theorem stale_head_overruns:
  assumes "mrx_view c r own s" "cx < 8" "mx_pcs s cx = MrxTest p (pos h0)"
    and "rx_head (mx_cfg s) = pos h" "Suc r = h + 8" "pos h0 \<noteq> pos h"
  shows "mx_pcs (mrx_ctx_step K cx meta s) cx = MrxDma p (pos r) (pos (Suc r))
    \<and> shadow (mx_shared (mrx_ctx_step K cx meta s)) = rx_head (mx_cfg (mrx_ctx_step K cx meta s))"
  by (rule mrx_stale_head [OF assms])

theorem stale_head_overruns_witness:
  "shadow (mx_shared (mrx_ctx_step ref_sdk 0 ref_meta ref_full)) =
     rx_head (mx_cfg (mrx_ctx_step ref_sdk 0 ref_meta ref_full))"
  using stale_head_overruns [OF ref_full_view(1), of 0 ref_pkt 0 1 ref_sdk ref_meta] ref_full_view(2-5) by simp

section \<open>CPP addresses\<close>

text \<open>C39: for every target, translation mode and address width, decoding an
  address that was encoded for an island gives that island back, with one exception: an island that
  mode 3 of the memory unit forces to direct locality, in an address whose lower locality bit is set.
  There the encoder's \<open>or\<close> does not make the address direct, and the decoder reads the upper bits of
  the island number as an index and low bits of one of the two configured islands.\<close>

theorem cpp_address_roundtrip:
  assumes "nfp6000_cppat_addr_encode addr d tgt mode a40 isld1 isld0 = Inr addr'"
    and "0 \<le> d" "d < 64"
  shows "nfp6000_cppat_addr_decode addr' tgt mode a40 isld1 isld0 = Inr
    (if tgt = NFP6000_CPPTGT_MU \<and> mode = 3 \<and> 0 < d \<and> (d < 24 \<or> 26 < d) \<and> bit addr (mu_locality a40)
     then (if 32 \<le> d then isld1 AND NOT 3 else isld0 AND NOT 3) OR d div 8 mod 4 else d)"
  by (rule decode_encode_all [OF assms])

theorem cpp_address_roundtrip_witness:
  "nfp6000_cppat_addr_decode (iid_place 0x1234 34 32) NFP6000_CPPTGT_CLS 0 True 0 0 = Inr 32
    \<and> nfp6000_cppat_addr_decode 0xDE00000000 NFP6000_CPPTGT_MU 3 True 28 24 = Inr 27"
proof
  have e: "nfp6000_cppat_addr_encode 0x1234 32 NFP6000_CPPTGT_CLS 0 True 0 0 = Inr (iid_place 0x1234 34 32)"
    by (simp add: nfp6000_cppat_addr_encode_def nfp6000_encode_basic_def basic_target_def cpptgt_defs)
  show "nfp6000_cppat_addr_decode (iid_place 0x1234 34 32) NFP6000_CPPTGT_CLS 0 True 0 0 = Inr 32"
    using cpp_address_roundtrip [OF e] by (simp add: cpptgt_defs)
  show "nfp6000_cppat_addr_decode 0xDE00000000 NFP6000_CPPTGT_MU 3 True 28 24 = Inr 27"
    using cpp_address_roundtrip [OF mu_locality_or(1)] by (simp add: mu_locality_def bit_push_bit_iff)
qed

text \<open>The island bits that the clearing function removes are the bits the
  encoder writes: encoding after clearing gives what encoding alone gives.\<close>

theorem cpp_clear_then_encode:
  assumes "basic_target tgt" "tgt \<noteq> NFP6000_CPPTGT_VQDR \<or> a40" "mode \<in> {0, 1, 2, 3}"
    and "nfp6000_cppat_addr_iid_clear addr tgt mode a40 = Inr addr'"
  shows "nfp6000_cppat_addr_encode addr' d tgt mode a40 isld1 isld0 =
    nfp6000_cppat_addr_encode addr d tgt mode a40 isld1 isld0"
  by (rule encode_after_clear [OF assms])

theorem cpp_clear_then_encode_witness:
  "nfp6000_cppat_addr_encode (0xFFFFFFFFFF AND NOT (push_bit 34 0x3F)) 32 NFP6000_CPPTGT_CLS 0 True 0 0 =
    nfp6000_cppat_addr_encode 0xFFFFFFFFFF 32 NFP6000_CPPTGT_CLS 0 True 0 0"
  by (rule cpp_clear_then_encode)
    (simp_all add: basic_target_def nfp6000_cppat_addr_iid_clear_def Let_def cpptgt_defs)

text \<open>The translation of an island address with the IMB table
  yields an identifier without island, with the same action and token, and an address that the
  hardware decodes to the requested island.\<close>

theorem cpp_translation_reaches_island:
  assumes "nfp_target_cpp c addr (Some tbl) = Inr (c', addr')"
    and "island_of c \<noteq> 0" "island_of c < 64"
    and "target = uint (NFP_CPP_ID_TARGET_of c)" "imb = tbl (nat target)"
    and "target = NFP6000_CPPTGT_MU \<and> drop_bit 13 imb AND 7 = 3
       \<and> (island_of c < 24 \<or> 26 < island_of c) \<longrightarrow> \<not> bit addr (mu_locality (drop_bit 12 imb AND 1 \<noteq> 0))"
  shows "nfp6000_cppat_addr_decode addr' target (uint (drop_bit 13 imb AND 7))
      (drop_bit 12 imb AND 1 \<noteq> 0) (uint (drop_bit 6 imb AND 0x3f)) (uint (drop_bit 0 imb AND 0x3f)) =
      Inr (island_of c)
    \<and> island_of c' = 0 \<and> NFP_CPP_ID_ACTION_of c' = NFP_CPP_ID_ACTION_of c
    \<and> NFP_CPP_ID_TOKEN_of c' = NFP_CPP_ID_TOKEN_of c"
  using target_cpp_island [OF assms(1-5)] assms(6) by blast

theorem cpp_translation_reaches_island_witness:
  "nfp6000_cppat_addr_decode (iid_place 0x40 34 32) 15 0 True 0 0 = Inr 32"
proof -
  have i: "island_of (NFP_CPP_ISLAND_ID 15 32 0 32) = 32" "uint (NFP_CPP_ID_TARGET_of (NFP_CPP_ISLAND_ID 15 32 0 32)) = 15"
    by code_simp+
  have t: "nfp_target_cpp (NFP_CPP_ISLAND_ID 15 32 0 32) 0x40 (Some (\<lambda>_. 0x1000)) =
      Inr (NFP_CPP_ID 15 32 0, iid_place 0x40 34 32)"
    by (simp add: nfp_target_cpp_def i Let_def nfp6000_cppat_addr_encode_def nfp6000_encode_basic_def
        basic_target_def cpptgt_defs cpp_island_id_fields)
  show ?thesis
    using cpp_translation_reaches_island [OF t] by (simp add: i cpptgt_defs)
qed

text \<open>For every target, action and address the width of the data is 4 or 8
  bytes or an error, and an identifier with the read/write wildcard action that a target accepts
  has one width for both directions.\<close>

theorem cpp_action_widths:
  "(nfp6000_target_action_width c a w = Inr x \<longrightarrow> x = 4 \<or> x = 8)
    \<and> (NFP_CPP_ID_ACTION_of c = 32 \<and> nfp6000_target_pushpull c a = Inr pp \<longrightarrow>
       (\<exists>y. nfp6000_target_action_width c a True = Inr y \<and> nfp6000_target_action_width c a False = Inr y))"
  using action_width_4_8 [of c a w x] action_width_rw [of c a pp] by blast

theorem cpp_action_widths_witness:
  "\<exists>y. nfp6000_target_action_width (NFP_CPP_ID 7 32 0) 0 True = Inr y
     \<and> nfp6000_target_action_width (NFP_CPP_ID 7 32 0) 0 False = Inr y"
proof -
  have "NFP_CPP_ID_ACTION_of (NFP_CPP_ID 7 32 0) = 32" "nfp6000_target_pushpull (NFP_CPP_ID 7 32 0) 0 = Inr 34"
    by code_simp+
  then show ?thesis using cpp_action_widths [of "NFP_CPP_ID 7 32 0" 0 True 8 34] by blast
qed

text \<open>The accessors of a CPP identifier return the components it was built
  from; the target is read with five bits although seven are stored.\<close>

theorem cpp_id_roundtrip:
  "NFP_CPP_ID_TARGET_of (NFP_CPP_ISLAND_ID t a k i) = ucast (take_bit 5 t)
    \<and> NFP_CPP_ID_TOKEN_of (NFP_CPP_ISLAND_ID t a k i) = ucast k
    \<and> NFP_CPP_ID_ACTION_of (NFP_CPP_ISLAND_ID t a k i) = ucast a
    \<and> NFP_CPP_ID_ISLAND_of (NFP_CPP_ISLAND_ID t a k i) = ucast i"
  by (simp add: cpp_island_id_fields)

text \<open>A micro-engine identifier built from a valid island and engine number is
  valid and gives both back.\<close>

theorem meid_fields:
  assumes "0 \<le> a" "a < 64" "0 \<le> b" "b < 12"
  shows "NFP6000_MEID_IS_VALID (NFP6000_MEID a b)
    \<and> NFP6000_MEID_ISLAND_of (NFP6000_MEID a b) = a \<and> NFP6000_MEID_MENUM_of (NFP6000_MEID a b) = b
    \<and> NFP6000_MEID_MEGRP_of (NFP6000_MEID a b) = b div 2"
  using meid_roundtrip [OF assms] by blast

theorem meid_fields_witness: "NFP6000_MEID_ISLAND_of (NFP6000_MEID 32 5) = 32"
  using meid_fields [of 32 5] by simp

section \<open>The CPP bus\<close>

text \<open>C14: on a device that meets the contract of the PCIe window, with a free BAR,
  writing a 32-bit word to a target and reading it back succeed and give the word that was written,
  and the bus is ready again.\<close>

theorem cpp_write_then_read:
  assumes "pcie2cpp M win n csr cmem" "bus_ready n w" "cfg (w_pcie w) = win"
    and "nfp_target_cpp dest address (Some (\<lambda>i. imb_cat_table (w_cpp w) ! i)) = Inr (d, a)"
    and "word_access d a" "take_bit 40 a = a" "address + 4 \<le> push_bit 40 1"
  shows "\<exists>w1 w2. nfp_cpp_writel M dest address v w = (0, w1)
    \<and> nfp_cpp_readl M dest address w1 = (Inr v, w2) \<and> bus_ready n w2"
  by (rule pcie2cpp.writel_readl [OF assms(1-3,5,6,4,7)])

theorem cpp_write_then_read_witness:
  "\<exists>w1 w2. nfp_cpp_writel (p2c_mmio dev_base) (NFP_CPP_ID 7 32 0) 0x1000 0xcafe dev_world = (0, w1)
    \<and> nfp_cpp_readl (p2c_mmio dev_base) (NFP_CPP_ID 7 32 0) 0x1000 w1 = (Inr 0xcafe, w2) \<and> bus_ready 21 w2"
  by (rule cpp_write_then_read [OF dev.pcie2cpp_axioms dev_ready(1,3) dev_translation dev_word(1)]) simp_all

text \<open>C13: whenever \<open>nfp_cpp_read\<close> reports success it has read all bytes, they
  are the bytes of the CPP memory that the translated identifier and address select, the memory is
  unchanged and the BARs are as before.\<close>

theorem cpp_read_is_memory_read:
  assumes "pcie2cpp M win n csr cmem" "nfp_cpp_read M dest address len w = (r, bs, w')" "0 \<le> r"
    and "pcie_wf n (w_pcie w)" "cfg (w_pcie w) = win"
    and "nfp_target_cpp dest address (Some (\<lambda>i. imb_cat_table (w_cpp w) ! i)) = Inr (d, a)"
    and "take_bit 40 a = a" "0 < unat len" "unat len < 2 ^ 31"
  shows "r = int (unat len) \<and> bs = mem_rd (cmem (w_hw w) (port_of d)) a (unat len)
    \<and> cmem (w_hw w') = cmem (w_hw w) \<and> bus_same n w w'"
  using pcie2cpp.cpp_read_mem [OF assms(1-9)] by blast

theorem cpp_read_is_memory_read_witness:
  "fst (snd (nfp_cpp_read (p2c_mmio dev_base) (NFP_CPP_ID 7 32 0) 0x1000 4 dev_world)) =
    mem_rd (p_mem (w_hw dev_world) (port_of (NFP_CPP_ID 7 32 0))) 0x1000 4"
proof -
  obtain r bs w' where rd: "nfp_cpp_read (p2c_mmio dev_base) (NFP_CPP_ID 7 32 0) 0x1000 4 dev_world = (r, bs, w')"
    by (metis prod_cases3)
  have "0 \<le> r"
    using read_word_succeeds [OF dev_ready(1) dev_word(1) dev_translation, of "p2c_mmio dev_base"] rd by simp
  from cpp_read_is_memory_read [OF dev.pcie2cpp_axioms rd this dev_ready(2,3) dev_translation]
  show ?thesis by (simp add: rd)
qed

text \<open>A read or write that does not fail to open its area leaves every BAR
  lock, the well-formedness of the BARs and the handle as they were, and no operation dereferences
  a null pointer on the way.\<close>

theorem cpp_access_gives_bar_back:
  assumes "pcie_wf n (w_pcie w)"
  shows "(nfp_cpp_read M dest address len w = (r, bs, w1) \<and> 0 \<le> r \<longrightarrow> bus_same n w w1)
    \<and> (nfp_cpp_write M dest address buf len w = (s, w2) \<and> 0 \<le> s \<longrightarrow> bus_same n w w2)"
  using read_gives_back [OF _ _ assms] write_gives_back [OF _ _ assms] by blast

theorem cpp_access_gives_bar_back_witness:
  "bus_same 21 dev_world (snd (snd (nfp_cpp_read (p2c_mmio dev_base) (NFP_CPP_ID 7 32 0) 0x1000 4 dev_world)))"
proof -
  obtain r bs w' where rd: "nfp_cpp_read (p2c_mmio dev_base) (NFP_CPP_ID 7 32 0) 0x1000 4 dev_world = (r, bs, w')"
    by (metis prod_cases3)
  have "0 \<le> r"
    using read_word_succeeds [OF dev_ready(1) dev_word(1) dev_translation, of "p2c_mmio dev_base"] rd by simp
  with rd show ?thesis
    using cpp_access_gives_bar_back [OF dev_ready(2), of "p2c_mmio dev_base" "NFP_CPP_ID 7 32 0" "0x1000" 4 r bs w'
        "[]" 0 dev_world] by simp
qed

text \<open>C28: a read of a range that no single aperture covers fails, and the BAR it
  had taken stays locked: each such read uses up one of the three BARs.\<close>

theorem crossing_read_keeps_bar:
  assumes "bus_ready n w" "nfp_target_cpp dest address (Some (\<lambda>i. imb_cat_table (w_cpp w) ! i)) = Inr (d, a)"
    and "address + sz \<le> push_bit 40 1"
    and "nfp6000_target_pushpull (NFP_CPP_ID (ucast (NFP_CPP_ID_TARGET_of d))
        (ucast (NFP_CPP_ID_ACTION_of d)) (ucast (NFP_CPP_ID_TOKEN_of d))) a = Inr pp"
    and "PUSH_WIDTH pp = Inr k" "PULL_WIDTH pp = Inr k"
    and "(a + sz - 1) AND NOT (mask n) \<noteq> a AND NOT (mask n)"
  shows "\<exists>b w'. nfp_cpp_read M dest address sz w = (-1, [], w') \<and> b \<in> {1, 2, 3}
    \<and> \<not> bar_locks w ! b \<and> bar_locks w' = (bar_locks w)[b := True]"
  by (rule crossing_read_leaks [OF assms, of M]) blast

theorem crossing_read_keeps_bar_witness:
  "\<exists>b w'. nfp_cpp_read (p2c_mmio dev_base) (NFP_CPP_ID 7 32 0) 0x1ffff8 16 dev_world = (-1, [], w') \<and> b \<in> {1, 2, 3}
    \<and> \<not> bar_locks dev_world ! b \<and> bar_locks w' = (bar_locks dev_world)[b := True]"
  by (rule crossing_read_keeps_bar [OF dev_ready(1) dev_translation _ dev_word(4), of _ 8])
    (simp_all add: width_values mask_eq_exp_minus_1)

text \<open>A configuration that \<open>nfp_compute_bar\<close> accepts maps the whole range: the base
  is the start of the range rounded down to the aperture, its last byte has the same base, and the
  device reads base, target, token and action back from the configuration word.\<close>

theorem bar_reaches_range:
  assumes "nfp_compute_bar bar tgt act tok offset sz width = Inr (c, base)"
    and "unat (bitsize bar) < 32" "take_bit 40 offset = offset"
  shows "base = offset AND NOT (mask (unat (bitsize bar)))
    \<and> (offset + sz - 1) AND NOT (mask (unat (bitsize bar))) = base
    \<and> p2c_base c = base \<and> fld 23 4 c = take_bit 4 (word_of_int tgt) \<and> fld 21 2 c = take_bit 2 (word_of_int tok)
    \<and> p2c_action c = (if act = 32 \<or> act = 0 then 0 else take_bit 5 (word_of_int act))"
  using compute_bar_reaches [OF assms] by blast

theorem bar_reaches_range_witness:
  "\<exists>c base. nfp_compute_bar (bars dev_pcie ! 1) 7 32 0 0x201000 4 4 = Inr (c, base)
    \<and> base = 0x201000 AND NOT (mask 21) \<and> p2c_base c = base"
proof -
  have g: "unat (bitsize (bars dev_pcie ! 1)) = 21"
    using bar_geomD(2) [OF pcie_wf_bar [OF dev_ready(2), of 1]] by (simp add: dev_world_def)
  obtain c base where "nfp_compute_bar (bars dev_pcie ! 1) 7 32 0 0x201000 4 4 = Inr (c, base)"
    using compute_bar_block [OF g, of 7 32 4 "0x201000" 4 0] word_in_aperture [of "0x201000" 21] by auto
  with bar_reaches_range [OF this] g show ?thesis by simp
qed

text \<open>When \<open>nfp6000_init\<close> succeeds on a resource of 4 MiB to 4 GiB, the BARs are
  well-formed for the size of the resource and all of them are free.\<close>

theorem start_leaves_free_bars:
  assumes "nfp6000_init pdev w = Some (0, w')" "length (bars (w_pcie w)) = 7"
    and "res_addr pdev \<noteq> 0" "2 ^ 22 \<le> unat (res_len pdev)" "unat (res_len pdev) < 2 ^ 32"
    and "unat (res_addr pdev) + unat (res_len pdev) \<le> 2 ^ 64"
  shows "\<exists>n. pcie_wf n (w_pcie w') \<and> (\<forall>b\<in>{1, 2, 3}. \<not> bar_lock (bars (w_pcie w') ! b))
    \<and> cfg (w_pcie w') = res_addr pdev \<and> 2 ^ (n + 3) \<le> unat (res_len pdev) \<and> unat (res_len pdev) < 2 ^ (n + 4)"
  by (rule init_ready [OF assms]) blast

theorem start_leaves_free_bars_witness:
  "\<exists>w'. nfp6000_init dev_pci dev_world = Some (0, w')
    \<and> (\<exists>n. pcie_wf n (w_pcie w') \<and> 2 ^ (n + 3) \<le> unat (res_len dev_pci))"
proof -
  obtain w' where w': "nfp6000_init dev_pci dev_world = Some (0, w')" using dev_pci_init by blast
  have "length (bars (w_pcie dev_world)) = 7" using dev_ready(2) by (simp add: pcie_wf_def)
  from start_leaves_free_bars [OF w' this] w' show ?thesis by (auto simp: dev_pci_def dev_base_def)
qed

text \<open>C35: \<open>nfp_xpb_waitlm\<close> with a timeout of \<open>us\<close> microseconds. When the value is found after
  \<open>k\<close> reads that miss it, it returns \<open>us - 100 k\<close>; a read that fails ends it with -1; after
  \<open>us div 100 + 1\<close> misses it gives up with ETIMEDOUT. A negative timeout, which the comment calls
  waiting forever, gives up after a single read that misses.\<close>

theorem xpb_wait_ends:
  "(0 \<le> us \<and> xpb_misses M t m v k w = Some wk \<and> int k * 100 \<le> us \<and> nfp_xpb_readl M t wk = (Inr x, w1)
      \<and> x AND m = v AND m \<longrightarrow> nfp_xpb_waitlm M t m v us w = (us - int k * 100, w1))
    \<and> (0 \<le> us \<and> xpb_misses M t m v k w = Some wk \<and> int k * 100 \<le> us \<and> nfp_xpb_readl M t wk = (Inl e, w1)
      \<longrightarrow> nfp_xpb_waitlm M t m v us w = (-1, w1))
    \<and> (0 \<le> us \<and> xpb_misses M t m v k w = Some wk \<and> int k = us div 100 + 1
      \<longrightarrow> nfp_xpb_waitlm M t m v us w = (-1, wk\<lparr>w_errno := errno_code ETIMEDOUT\<rparr>))
    \<and> (us < 0 \<and> nfp_xpb_readl M t w = (Inr x, w1) \<longrightarrow> nfp_xpb_waitlm M t m v us w =
        (if x AND m = v AND m then (0, w1) else (-1, w1\<lparr>w_errno := errno_code ETIMEDOUT\<rparr>)))
    \<and> (us < 0 \<and> nfp_xpb_readl M t w = (Inl e, w1) \<longrightarrow> nfp_xpb_waitlm M t m v us w = (-1, w1))"
  using waitlm_misses [of M t m v k w wk us] waitlm_found [of M t wk x w1 m v "us - int k * 100"]
    waitlm_failed [of M t wk e w1 m v "us - int k * 100"] waitlm_failed [of M t w e w1 m v us]
    waitlm_negative [of us M t w x w1 m v] by auto

theorem xpb_wait_ends_witness:
  "\<exists>w1 w2. nfp_xpb_readl (p2c_mmio dev_base) 4 xpb_world = (Inr 0, w1) \<and> nfp_xpb_readl (p2c_mmio dev_base) 4 w1 = (Inr 0, w2)
    \<and> nfp_xpb_waitlm (p2c_mmio dev_base) 4 1 2 150 xpb_world = (150, w1)
    \<and> nfp_xpb_waitlm (p2c_mmio dev_base) 4 1 1 150 xpb_world = (-1, w2\<lparr>w_errno := errno_code ETIMEDOUT\<rparr>)
    \<and> nfp_xpb_waitlm (p2c_mmio dev_base) 4 1 1 (-1) xpb_world = (-1, w1\<lparr>w_errno := errno_code ETIMEDOUT\<rparr>)"
proof -
  have up: "bus_ready 21 xpb_world" "cfg (w_pcie xpb_world) = dev_base" "p_mem (w_hw xpb_world) = p_mem (w_hw dev_world)"
    using dev_ready by (simp_all add: xpb_world_def bus_ready_def)
  obtain w1 where w1: "nfp_xpb_readl (p2c_mmio dev_base) 4 xpb_world = (Inr 0, w1)"
    "bus_ready 21 w1" "cfg (w_pcie w1) = dev_base" "w_cpp w1 = w_cpp xpb_world" "p_mem (w_hw w1) = p_mem (w_hw dev_world)"
    by (rule xpb_zero [OF up(1,2) refl up(3)])
  obtain w2 where w2: "nfp_xpb_readl (p2c_mmio dev_base) 4 w1 = (Inr 0, w2)" by (rule xpb_zero [OF w1(2-5)])
  have m: "xpb_misses (p2c_mmio dev_base) 4 1 1 2 xpb_world = Some w2" by (simp add: numeral_2_eq_2 w1(1) w2)
  show ?thesis
    using xpb_wait_ends [of 150 "p2c_mmio dev_base" 4 1 2 0 xpb_world xpb_world 0 w1]
      xpb_wait_ends [of 150 "p2c_mmio dev_base" 4 1 1 2 xpb_world w2]
      xpb_wait_ends [of "-1" "p2c_mmio dev_base" 4 1 1 0 xpb_world xpb_world 0 w1] w1(1) w2 m by simp
qed

text \<open>A capability is found at a multiple of 4 in the extended configuration
  space whose header was read and has the wanted identifier.\<close>

theorem pci_capability_position:
  assumes "nfp_pci_find_next_ext_capability pdev cap = r" "r \<noteq> 0" "r \<noteq> -1"
  shows "256 \<le> r \<and> r < 4096 \<and> 4 dvd r
    \<and> (\<exists>bs. cfg_read pdev 4 r = Some bs \<and> PCI_EXT_CAP_ID (le_word bs) = cap)"
  by (rule find_capability [OF assms])

theorem pci_capability_position_witness:
  "4 dvd nfp_pci_find_next_ext_capability dev_pci 3"
  using pci_capability_position [of dev_pci 3 256] dev_pci_cap by simp

section \<open>Locks and resources\<close>

text \<open>C5: masters of the bus with distinct non-zero interface numbers that run the lock and
  unlock operations of nfp_mutex.c on one lock, interleaved at single bus accesses in any order, never
  hold the lock at the same time, and while one holds it the lock word carries its interface.\<close>

theorem mutex_exclusion:
  assumes "mu_engine M win n csr mu" "lock_place a" "0 \<notin> S" "\<forall>j. idle_master n win a k j (A0 j)"
    and "mem_word (mu h0) a = 0" "mem_word (mu h0) (a + 4) = k" "mtx_reach M S (h0, A0) (h, A)"
    and "holds_lock (A i)"
  shows "(holds_lock (A j) \<longrightarrow> i = j) \<and> mem_word (mu h) a = MUTEX_LOCKED i"
proof -
  note e = assms(1)
  have ok: "mu_engine.system_ok win n mu a k (h, A)"
    by (rule mu_engine.system_reach [OF e assms(7) _ assms(3)], rule mu_engine.idle_system [OF e assms(4,2,5,6)])
  show ?thesis
    using mu_engine.one_holder(1) [OF e ok, of i j] mu_engine.one_holder(2) [OF e ok, of i] assms(8) by blast
qed

theorem mutex_exclusion_witness:
  "\<exists>h A. mtx_reach (mu_mmio dev_base) {1, 2} (w_hw (mu_world 1 (\<lambda>_. 0)), mu_master) (h, A)
    \<and> holds_lock (A 1) \<and> \<not> holds_lock (A 2) \<and> mem_word (e_mem h) res_base = MUTEX_LOCKED 1"
proof -
  let ?h = "w_hw (mu_world 1 (\<lambda>_. 0))"
  have z: "mem_word (e_mem ?h) res_base = 0" "mem_word (e_mem ?h) (res_base + 4) = 0"
    by (simp_all add: mu_world_def mem_word_zero)
  obtain h A where r: "mtx_reach (mu_mmio dev_base) {1, 2} (?h, mu_master) (h, A)" and l: "holds_lock (A 1)"
    using eng.idle_takes [OF mu_masters res_place z, of 1 "{1, 2}"] by fastforce
  have "(holds_lock (A j) \<longrightarrow> 1 = j) \<and> mem_word (e_mem h) res_base = MUTEX_LOCKED 1" for j
    by (rule mutex_exclusion [OF eng.mu_engine_axioms res_place _ mu_masters z r l]) simp
  from this [of 2] r l show ?thesis by auto
qed

text \<open>C12: an attempt at a lock, on a bus that answers. Where the handle does not
  hold the lock it ends as the documented protocol says: -1 with EPERM, EBUSY or EINVAL in errno and the
  handle unchanged, or 0 with depth 1 and the interface of the master in the lock word; nothing else of
  the memory and nothing of the driver changes. Where it holds the lock the attempt does not touch the
  bus: it counts the depth up, or is E2BIG at the largest depth.\<close>

theorem mutex_trylock_outcome:
  assumes "mu_engine M win n csr mu" "bus_ready n w" "cfg (w_pcie w) = win" "mtx_ok mx"
    and "trylock_abs (nfp_cpp_interface w) (mtx_key mx) (lock_key (mu (w_hw w)) mx) (lock_word (mu (w_hw w)) mx) = (e, v)"
  shows "(mtx_depth mx = 0 \<longrightarrow> (\<exists>w'. mutex_trylock M mx w =
      (case e of None \<Rightarrow> (0, mx\<lparr>mtx_depth := 1\<rparr>, w') | Some _ \<Rightarrow> (-1, mx, w'))
    \<and> (e \<noteq> None \<longrightarrow> w_errno w' = errno_code (the e))
    \<and> mu (w_hw w') = put_lock mx v (mu (w_hw w)) \<and> bus_ready n w' \<and> w_cpp w' = w_cpp w \<and> w_fault w' = w_fault w))
    \<and> (0 < mtx_depth mx \<longrightarrow> mutex_trylock M mx w = (if mtx_depth mx = 0xffff then (-1, mx, w\<lparr>w_errno := errno_code E2BIG\<rparr>)
       else (0, mx\<lparr>mtx_depth := mtx_depth mx + 1\<rparr>, w)))"
proof (intro conjI impI)
  assume d: "mtx_depth mx = 0"
  have "mu_engine.engine_ready win n w" using assms(2,3) by (simp add: mu_engine.engine_ready_def [OF assms(1)])
  from mu_engine.trylock_result [OF assms(1) this assms(4) d] assms(5)
  show "\<exists>w'. mutex_trylock M mx w = (case e of None \<Rightarrow> (0, mx\<lparr>mtx_depth := 1\<rparr>, w') | Some _ \<Rightarrow> (-1, mx, w'))
    \<and> (e \<noteq> None \<longrightarrow> w_errno w' = errno_code (the e))
    \<and> mu (w_hw w') = put_lock mx v (mu (w_hw w)) \<and> bus_ready n w' \<and> w_cpp w' = w_cpp w \<and> w_fault w' = w_fault w"
    by (cases e) (auto simp: mu_engine.op_result_def [OF assms(1)] mu_engine.goes_on_def [OF assms(1)]
        mu_engine.engine_same_def [OF assms(1)] mu_engine.engine_ready_def [OF assms(1)])
qed (rule mu_engine.trylock_nested [OF assms(1)])

theorem mutex_trylock_outcome_witness:
  "(\<exists>w'. mutex_trylock (mu_mmio dev_base) res_mutex (mu_world 5 (\<lambda>_. 0)) = (0, res_mutex\<lparr>mtx_depth := 1\<rparr>, w')
    \<and> e_mem (w_hw w') = set_word (\<lambda>_. 0) res_base (MUTEX_LOCKED 5))
    \<and> mutex_trylock (mu_mmio dev_base) (res_mutex\<lparr>mtx_depth := 0xffff\<rparr>) (mu_world 5 (\<lambda>_. 0))
      = (-1, res_mutex\<lparr>mtx_depth := 0xffff\<rparr>, (mu_world 5 (\<lambda>_. 0))\<lparr>w_errno := errno_code E2BIG\<rparr>)"
proof -
  have ok: "mtx_ok (res_mutex\<lparr>mtx_depth := k\<rparr>)" for k using res_place by (simp add: mtx_ok_def res_mutex_def)
  have "trylock_abs (nfp_cpp_interface (mu_world 5 (\<lambda>_. 0))) (mtx_key (res_mutex\<lparr>mtx_depth := k\<rparr>))
      (lock_key (e_mem (w_hw (mu_world 5 (\<lambda>_. 0)))) (res_mutex\<lparr>mtx_depth := k\<rparr>))
      (lock_word (e_mem (w_hw (mu_world 5 (\<lambda>_. 0)))) (res_mutex\<lparr>mtx_depth := k\<rparr>)) = (None, MUTEX_LOCKED 5)" for k
    by (simp add: trylock_abs_def lock_key_def lock_word_def mu_ready mu_world_def mem_word_zero res_mutex_def word_marks)
      (simp add: mu_ready(3) [unfolded mu_world_def])
  note out = mutex_trylock_outcome [OF eng.mu_engine_axioms mu_ready(1,2) ok this]
  show ?thesis using out [of 0] out [of "0xffff"] by (auto simp: put_lock_def res_mutex_def mu_world_def)
qed

text \<open>C33: while another master holds the lock, \<open>nfp_cpp_mutex_lock\<close> keeps trying, and when
  the holder has released it the call returns 0 with the lock taken.\<close>

theorem mutex_lock_waits:
  assumes "mu_engine M win n csr mu" "bus_ready n (drv_world s)" "cfg (w_pcie (drv_world s)) = win"
    and "mtx_heap s p = Some mx" "mtx_ok mx" "mtx_depth mx = 0"
    and "lock_waits mx (nfp_cpp_interface (drv_world s)) fs (mu (w_hw (drv_world s)))"
    and "list_all2 (\<lambda>e f. \<forall>h. mu (e h) = f (mu h)) envs fs"
  shows "\<exists>s'. nfp_cpp_mutex_lock M envs p s = Some (0, s') \<and> mtx_heap s' p = Some (mx\<lparr>mtx_depth := 1\<rparr>)
    \<and> lock_word (mu (w_hw (drv_world s'))) mx = MUTEX_LOCKED (nfp_cpp_interface (drv_world s))"
proof -
  have "mu_engine.engine_ready win n (drv_world s)" using assms(2,3) by (simp add: mu_engine.engine_ready_def [OF assms(1)])
  from mu_engine.lock_eventually [OF assms(1,4,5,6) this assms(7,8)] show ?thesis by blast
qed

theorem mutex_lock_waits_witness:
  "\<exists>s'. nfp_cpp_mutex_lock (mu_mmio dev_base) [\<lambda>h. h\<lparr>e_mem := put_lock res_mutex 0 (e_mem h)\<rparr>] 0
      \<lparr>drv_world = mu_world 5 (put_lock res_mutex (MUTEX_LOCKED 9) (\<lambda>_. 0)), mtx_heap = [0 \<mapsto> res_mutex],
       mutex_cache = Some 0, mtx_brk = 1\<rparr> = Some (0, s')
    \<and> lock_word (e_mem (w_hw (drv_world s'))) res_mutex = MUTEX_LOCKED 5"
proof -
  let ?m = "put_lock res_mutex (MUTEX_LOCKED 9) (\<lambda>_. 0)"
  let ?s = "\<lparr>drv_world = mu_world 5 ?m, mtx_heap = [0 \<mapsto> res_mutex], mutex_cache = Some 0, mtx_brk = 1\<rparr>"
  have ok: "mtx_ok res_mutex" "mtx_depth res_mutex = 0" using res_place by (simp_all add: mtx_ok_def res_mutex_def)
  have k: "lock_key (\<lambda>_. 0) res_mutex = mtx_key res_mutex" by (simp add: lock_key_def mem_word_zero res_mutex_def)
  have w: "lock_waits res_mutex (nfp_cpp_interface (drv_world ?s)) [put_lock res_mutex 0] (e_mem (w_hw (drv_world ?s)))"
    using k word_marks(3) by (simp add: mu_ready(3)) (simp add: mu_world_def)
  have "bus_ready 24 (drv_world ?s)" "cfg (w_pcie (drv_world ?s)) = dev_base" "mtx_heap ?s 0 = Some res_mutex"
    by (simp_all add: mu_ready)
  from mutex_lock_waits [OF eng.mu_engine_axioms this ok w, of "[\<lambda>h. h\<lparr>e_mem := put_lock res_mutex 0 (e_mem h)\<rparr>]"]
  show ?thesis by (auto simp: mu_ready(3))
qed

text \<open>C37: a mark that is neither that of a free nor of a held lock is damaged. The first
  attempt reports EINVAL, and its test-and-set sets the lowest four bits of the mark. Where the damage
  was in those bits only, that hides it: the word is now that of a held lock, and the next attempt is
  EBUSY (so \<open>nfp_cpp_mutex_lock\<close> waits for a holder that does not exist), or takes the lock where the
  upper half names this very interface. Where another bit was set the next attempt is EINVAL again.
  The second attempt leaves the memory as the first one left it.\<close>

theorem mutex_damage_hidden:
  assumes "mu_engine M win n csr mu" "bus_ready n w" "cfg (w_pcie w) = win" "mtx_ok mx" "mtx_depth mx = 0"
    and "lock_key (mu (w_hw w)) mx = mtx_key mx" "u = lock_word (mu (w_hw w)) mx"
    and "\<not> MUTEX_IS_LOCKED u" "\<not> MUTEX_IS_UNLOCKED u"
  shows "\<exists>w1 w2. mutex_trylock M mx w = (-1, mx, w1) \<and> w_errno w1 = errno_code EINVAL
    \<and> mu (w_hw w1) = put_lock mx (u OR 0xf) (mu (w_hw w))
    \<and> (if u AND 0xfff0 \<noteq> 0 then mutex_trylock M mx w1 = (-1, mx, w2) \<and> w_errno w2 = errno_code EINVAL
       else if ucast (MUTEX_INTERFACE u) = nfp_cpp_interface w
       then mutex_trylock M mx w1 = (0, mx\<lparr>mtx_depth := 1\<rparr>, w2)
       else mutex_trylock M mx w1 = (-1, mx, w2) \<and> w_errno w2 = errno_code EBUSY)
    \<and> mu (w_hw w2) = mu (w_hw w1)"
proof -
  have r: "mu_engine.engine_ready win n w" using assms(2,3) by (simp add: mu_engine.engine_ready_def [OF assms(1)])
  show ?thesis
    by (rule mu_engine.damaged_lock [OF assms(1) r assms(4,5,6) assms(8,9) [unfolded assms(7)], folded assms(7)]) blast
qed

theorem mutex_damage_hidden_witness:
  "(\<exists>w1 w2. mutex_trylock (mu_mmio dev_base) res_mutex (mu_world 5 (put_lock res_mutex 1 (\<lambda>_. 0))) = (-1, res_mutex, w1)
    \<and> mutex_trylock (mu_mmio dev_base) res_mutex w1 = (-1, res_mutex, w2) \<and> w_errno w2 = errno_code EBUSY)
    \<and> (\<exists>w1 w2. mutex_trylock (mu_mmio dev_base) res_mutex (mu_world 5 (put_lock res_mutex 0x10 (\<lambda>_. 0))) = (-1, res_mutex, w1)
    \<and> mutex_trylock (mu_mmio dev_base) res_mutex w1 = (-1, res_mutex, w2) \<and> w_errno w2 = errno_code EINVAL)"
proof -
  have ok: "mtx_ok res_mutex" "mtx_depth res_mutex = 0" using res_place by (simp_all add: mtx_ok_def res_mutex_def)
  have m: "e_mem (w_hw (mu_world 5 (put_lock res_mutex u (\<lambda>_. 0)))) = put_lock res_mutex u (\<lambda>_. 0)" for u
    by (simp add: mu_world_def)
  have k: "lock_key (e_mem (w_hw (mu_world 5 (put_lock res_mutex u (\<lambda>_. 0))))) res_mutex = mtx_key res_mutex"
    "u = lock_word (e_mem (w_hw (mu_world 5 (put_lock res_mutex u (\<lambda>_. 0))))) res_mutex" for u
    unfolding m lock_put by (simp_all add: lock_key_def mem_word_zero res_mutex_def)
  note out = mutex_damage_hidden [OF eng.mu_engine_axioms mu_ready(1,2) ok k]
  have marks: "\<not> MUTEX_IS_LOCKED 1" "\<not> MUTEX_IS_UNLOCKED 1" "\<not> MUTEX_IS_LOCKED 0x10" "\<not> MUTEX_IS_UNLOCKED 0x10"
    "(1 :: u32) AND 0xfff0 = 0" "(0x10 :: u32) AND 0xfff0 \<noteq> 0" "MUTEX_INTERFACE 1 = 0"
    by code_simp+
  show ?thesis using out [of 1] out [of "0x10"] marks mu_ready(3) by auto
qed

text \<open>C26: the doubly linked cache of handles refines a list of counted entries. A search
  ends; an allocation counts up a matching entry, refuses one with another key, or adds a fresh
  handle in front; a release counts down, and the last one unlinks and frees the handle.\<close>

theorem mutex_cache_is_list:
  assumes "cache_rep s L"
  shows "(\<exists>r s' L'. nfp_cpp_mutex_alloc M target address key s = Some (r, s')
      \<and> cache_alloc target address key L r L' \<and> cache_rep s' L')
    \<and> ((p, v) \<in> set L \<longrightarrow> cache_rep (nfp_cpp_mutex_free p s) (cache_free p v L)
      \<and> drv_world (nfp_cpp_mutex_free p s) = drv_world s)"
  using alloc_refines [OF assms] free_refines [OF assms] by blast

theorem mutex_cache_is_list_witness:
  "\<exists>r s' L'. nfp_cpp_mutex_alloc (mu_mmio dev_base) 7 res_base 0 a_drv = Some (r, s')
    \<and> cache_alloc 7 res_base 0 [] r L' \<and> cache_rep s' L'"
  using mutex_cache_is_list [OF a_drv_rep] by blast

text \<open>C11: acquiring a resource that is in the table and free, with no handles open, returns
  the region of the first entry whose key is the checksum of the name, leaves one handle in the cache,
  the entry locked by this master and the table unlocked; releasing it frees the entry and the handle.\<close>

theorem resource_acquire_holds:
  assumes "mu_engine M win n csr mu" "bus_ready n (drv_world s)" "cfg (w_pcie (drv_world s)) = win"
    and "NFP_CPP_MODEL_IS_6000 (model (w_cpp (drv_world s)))" "cache_rep s []"
    and "resource_free (mu (w_hw (drv_world s))) name i"
  shows "\<exists>p res s' m. nfp_resource_acquire M envs pause name s = Some (Some res, s')
    \<and> m = mu (w_hw (drv_world s'))
    \<and> rs_name res = take 8 name \<and> rs_mutex res = Some p
    \<and> rs_addr res = push_bit 8 (ucast (en_page_offset (table_entry (mu (w_hw (drv_world s))) i)))
    \<and> rs_size res = push_bit 8 (ucast (en_page_size (table_entry (mu (w_hw (drv_world s))) i)))
    \<and> mem_word m (entry_addr i) = MUTEX_LOCKED (nfp_cpp_interface (drv_world s)) \<and> mem_word m (entry_addr 0) = 0
    \<and> w_fault (drv_world s') = w_fault (drv_world s)
    \<and> mem_word (mu (w_hw (drv_world (nfp_resource_release M res s')))) (entry_addr i) = 0
    \<and> cache_rep (nfp_resource_release M res s') []"
proof -
  note e = assms(1)
  let ?w = "drv_world s" let ?m = "mu (w_hw ?w)" and ?l = "MUTEX_LOCKED (nfp_cpp_interface ?w)"
  let ?m' = "set_word (set_word (set_word ?m (entry_addr 0) ?l) (entry_addr i) ?l) (entry_addr 0) 0"
  let ?res = "\<lparr>rs_name = take 8 name, rs_cpp_id = 0, rs_addr = 0, rs_size = 0, rs_mutex = None\<rparr>"
  have i: "i < 128" "i \<noteq> 0" and k: "mem_word ?m (entry_addr i + 4) = nfp_crc32_posix (padded 8 (take 8 name))"
    using assms(6) by (auto simp: resource_free_def find_Some_iff table_entry_key)
  have rdy: "mu_engine.engine_ready win n ?w" using assms(2,3) by (simp add: mu_engine.engine_ready_def [OF e])
  obtain p s' where a: "nfp_resource_acquire M envs pause name s = Some (Some (found_at (table_entry ?m i) p ?res), s')"
    and d: "mu_engine.drv_ok win n mu ?w [(p, (new_mutex (entry_addr i) (nfp_crc32_posix (padded 8 (take 8 name))))\<lparr>mtx_depth := 1\<rparr>)] ?m' s'"
    using mu_engine.acquire_free [OF e assms(4,6) rdy assms(5), of envs pause] by blast
  have w: "mem_word ?m' (entry_addr i) = ?l" "mem_word ?m' (entry_addr 0) = 0"
      "mem_word ?m' (entry_addr i + 4) = nfp_crc32_posix (padded 8 (take 8 name))"
    using entry_words [of 0 i] i k by (simp_all add: mem_word_next)
  have "mu_engine.drv_ok win n mu ?w [] (set_word ?m' (entry_addr i) 0) (nfp_resource_release M (found_at (table_entry ?m i) p ?res) s')"
    by (rule mu_engine.release_held [OF e d i(1) w(3,1)]) (simp add: found_at_def)
  then show ?thesis using a w mu_engine.drv_okD(3,6) [OF e d] mu_engine.drv_okD(1,3) [OF e]
    by (intro exI [of _ p] exI [of _ "found_at (table_entry ?m i) p ?res"] exI [of _ s'] exI [of _ ?m'])
      (simp add: found_at_def)
qed

theorem resource_acquire_holds_witness:
  "\<exists>res s'. nfp_resource_acquire (mu_mmio dev_base) (\<lambda>_. []) (\<lambda>_ h. h) a_name a_drv = Some (Some res, s')
    \<and> mem_word (e_mem (w_hw (drv_world s'))) (entry_addr 1) = MUTEX_LOCKED 1"
proof -
  have w: "bus_ready 24 (drv_world a_drv)" "cfg (w_pcie (drv_world a_drv)) = dev_base"
    "resource_free (e_mem (w_hw (drv_world a_drv))) a_name 1" "nfp_cpp_interface (drv_world a_drv) = 1"
    using a_table_free by (simp_all add: a_drv_def mu_ready) (simp add: mu_world_def)
  from resource_acquire_holds [OF eng.mu_engine_axioms w(1,2) a_drv_model a_drv_rep w(3)] w(4)
  show ?thesis by metis
qed

text \<open>The loop that is to wait for a busy resource makes one attempt: no result of an
  attempt is -EBUSY, since a busy lock is reported as -1 with errno.\<close>

theorem resource_never_retries:
  "acquire_loop M envs pause dev_mutex count res s = nfp_resource_try_acquire M (envs count) dev_mutex res s"
  by (rule acquire_tries_once)

text \<open>C38: the table-free CRC of nfp_crc.c equals the textbook shift register that takes in
  one message bit at a time: the checksum of a buffer is the complement of the register after the
  bytes of the buffer and of its length.\<close>

theorem crc_is_shift_register:
  "nfp_crc32_posix buff = NOT (crc_register CRCPOLY_BE 0 (buff @ len_bytes (length buff)))"
  by (rule crc_posix_register)

section \<open>The hardware information table\<close>

text \<open>C16: when the resource table describes the region of the hardware information, the region holds
  the image of a list of pairs and no handles are open, \<open>nfp_hwinfo_read\<close> returns a buffer in which
  every search gives the value of the first pair with that key (or nothing), and leaves the locks of
  the entry and of the table free and no handle open, whatever other masters do meanwhile.\<close>

theorem hwinfo_read_from_device:
  assumes "mu_engine M win n csr mu" "bus_ready n (drv_world s)" "cfg (w_pcie (drv_world s)) = win"
    and "NFP_CPP_MODEL_IS_6000 (model (w_cpp (drv_world s)))" "cache_rep s []"
    and "plain_resource n (mu (w_hw (drv_world s))) NFP_RESOURCE_NFP_HWINFO i"
    and "mem_rd (mu (w_hw (drv_world s))) (res_page (mu (w_hw (drv_world s))) i)
      (unat (res_extent (mu (w_hw (drv_world s))) i)) = hwinfo_image resv kvs pad @ rest"
    and "\<forall>kv\<in>set kvs. pair_ok kv" "length resv = 8" "HWINFO_SIZE_MIN \<le> res_extent (mu (w_hw (drv_world s))) i"
  shows "\<exists>db s'. nfp_hwinfo_read M junk es nap s = Some (Some db, s')
    \<and> (\<forall>name. value_at db (nfp_hwinfo_lookup (Some db) (Some name)) = Some (map_of kvs name))
    \<and> mem_word (mu (w_hw (drv_world s'))) (entry_addr i) = 0 \<and> mem_word (mu (w_hw (drv_world s'))) (entry_addr 0) = 0
    \<and> cache_rep s' [] \<and> w_fault (drv_world s') = w_fault (drv_world s)"
proof -
  note e = assms(1)
  have "mu_engine.engine_ready win n (drv_world s)" using assms(2,3) by (simp add: mu_engine.engine_ready_def [OF e])
  from mu_engine.hwinfo_read_table [OF e assms(4) this assms(5-10), of junk es nap]
  show ?thesis using mu_engine.drv_okD(1,3,6) [OF e] by metis
qed

theorem hwinfo_read_from_device_witness:
  "\<exists>db s'. nfp_hwinfo_read (mu_mmio dev_base) (\<lambda>_. 0xff) (\<lambda>_. \<lparr>oth_lock = \<lambda>_. [], oth_pause = \<lambda>_ h. h\<rparr>) (\<lambda>_ h. h) info_drv
      = Some (Some db, s')
    \<and> value_at db (nfp_hwinfo_lookup (Some db) (Some [0x6d, 0x65, 0x2e, 0x63, 0x6f, 0x75, 0x6e, 0x74])) = Some (Some [0x34, 0x30])"
proof -
  have img: "mem_rd info_mem (res_page info_mem 1) (unat (res_extent info_mem 1))
      = hwinfo_image (replicate 8 0) info_pairs (replicate 223 0) @ []"
    unfolding info_resource(2,3) using info_page_rd by (simp add: info_image_def)
  have sz: "HWINFO_SIZE_MIN \<le> res_extent info_mem 1" unfolding info_resource(3) by (simp add: HWINFO_SIZE_MIN_def)
  from hwinfo_read_from_device [OF eng.mu_engine_axioms info_drv_ok(3,4,2,1), unfolded info_drv_ok(5),
      OF info_resource(1) img info_pairs_ok _ sz, of "\<lambda>_. 0xff" "\<lambda>_. \<lparr>oth_lock = \<lambda>_. [], oth_pause = \<lambda>_ h. h\<rparr>" "\<lambda>_ h. h"]
  obtain db s' where db: "nfp_hwinfo_read (mu_mmio dev_base) (\<lambda>_. 0xff) (\<lambda>_. \<lparr>oth_lock = \<lambda>_. [], oth_pause = \<lambda>_ h. h\<rparr>)
      (\<lambda>_ h. h) info_drv = Some (Some db, s')"
    "\<forall>name. value_at db (nfp_hwinfo_lookup (Some db) (Some name)) = Some (map_of info_pairs name)" by auto
  then have "value_at db (nfp_hwinfo_lookup (Some db) (Some [0x6d, 0x65, 0x2e, 0x63, 0x6f, 0x75, 0x6e, 0x74])) = Some (Some [0x34, 0x30])"
    by (simp add: info_pairs_def)
  with db(1) show ?thesis by blast
qed



text \<open>The image of a list of pairs, with any header padding and any bytes behind it,
  is accepted by the validation, and every search in it gives what the list gives.\<close>

theorem hwinfo_image_roundtrip:
  assumes "\<forall>kv\<in>set kvs. pair_ok kv" "length resv = 8" "length (hwinfo_image resv kvs pad) \<le> unat len"
  shows "nfp_hwinfo_db_validate (hwinfo_image resv kvs pad @ rest) len = Some 0
    \<and> value_at (hwinfo_image resv kvs pad @ rest) (nfp_hwinfo_lookup (Some (hwinfo_image resv kvs pad @ rest)) (Some name))
      = Some (map_of kvs name)"
  using image_reads [OF assms refl] by blast

theorem hwinfo_image_roundtrip_witness:
  "nfp_hwinfo_db_validate (info_image @ [0]) 0x100 = Some 0"
proof -
  have "length (hwinfo_image (replicate 8 0) info_pairs (replicate 223 0)) \<le> unat (0x100 :: u32)"
    by (simp add: info_image_def [symmetric] length_info_image)
  from hwinfo_image_roundtrip [OF info_pairs_ok _ this, of "[0]"] show ?thesis by (simp add: info_image_def)
qed

text \<open>C32: the walk is bounded by \<open>data + size\<close>, past the end of the table. A buffer with a correct
  checksum that the table fills and that has no zero byte behind the header, other than the one that
  is appended, makes the validation read outside of the buffer.\<close>

theorem hwinfo_walk_overruns:
  assumes "length body = unat (hwinfo_size db) - 4" "db = body @ le_bytes 4 (nfp_crc32_posix body) @ [0]"
    and "16 < length body" "unat (hwinfo_size db) = unat len" "zfree (drop 16 (body @ le_bytes 4 (nfp_crc32_posix body)))"
  shows "nfp_hwinfo_db_validate db len = None"
  by (rule walk_overrun [OF assms])

theorem hwinfo_walk_overruns_witness:
  "nfp_hwinfo_db_validate ([0x00, 0x02, 0x49, 0x48, 24, 0, 0, 0, 0, 0, 0, 0, 0, 0, 0, 0, 0x61, 0x62, 0x63, 0x64,
     0x70, 0x62, 0x1b, 0xa3, 0]) 24 = None"
proof -
  let ?b = "[0x00, 0x02, 0x49, 0x48, 24, 0, 0, 0, 0, 0, 0, 0, 0, 0, 0, 0, 0x61, 0x62, 0x63, 0x64] :: u8 list"
  have c: "nfp_crc32_posix ?b = 0xa31b6270" by (simp add: crc_eval)
  have l: "le_bytes 4 (0xa31b6270 :: u32) = [0x70, 0x62, 0x1b, 0xa3]" by code_simp
  have "nfp_hwinfo_db_validate (?b @ [0x70, 0x62, 0x1b, 0xa3] @ [0]) 24 = None"
    by (rule hwinfo_walk_overruns [of ?b, unfolded c l]) (simp_all add: hwinfo_size_def zfree_def)
  then show ?thesis by simp
qed

section \<open>The service processor\<close>

text \<open>C17: on a bus that meets the contract of the PCIe window, a command to a processor that is alive
  (its status register has the magic number, a supported version and is not busy) returns, when the
  processor clears the start bit within 1001 sleeps of the first wait and is not busy within 1001 sleeps
  of the second, exactly the result that it left in its registers; the handle has the version of the
  processor. \<open>S\<close> and \<open>D\<close> say what the processor does to its registers in each sleep.\<close>

theorem nsp_command_completes:
  assumes bus: "pcie2cpp M win n csr cmem" "nsp_window n c cid base d a"
    and up: "nsp_up n win c w" "nsp_at cid base state" "nsp_alive (nsp_reg cmem d a (w_hw w) NSP_STATUS)"
    and fit: "FIELD_FIT NSP_BUFFER_ADDRESS buff_addr"
    and acts: "nsp_acts (nsp_reg cmem d a) (ne_start ne) S" "nsp_acts (nsp_reg cmem d a) (ne_done ne) D"
    and R1: "R1 = commanded code opt buff_cpp buff_addr (nsp_reg cmem d a (w_hw w))"
    and i: "i \<le> 1001" "\<forall>j<i. seen S 0 R1 j NSP_COMMAND AND NSP_COMMAND_START \<noteq> 0"
      "seen S 0 R1 i NSP_COMMAND AND NSP_COMMAND_START = 0" "R2 = seen S 0 R1 i"
    and k: "k \<le> 1001" "\<forall>j<k. seen D 0 R2 j NSP_STATUS AND NSP_STATUS_BUSY \<noteq> 0"
      "seen D 0 R2 k NSP_STATUS AND NSP_STATUS_BUSY = 0" "R3 = seen D 0 R2 k"
  shows "\<exists>w'. nfp_nsp_command M ne state code opt buff_cpp buff_addr w =
      (nsp_result (R3 NSP_STATUS) (R3 NSP_COMMAND), nsp_versioned (nsp_reg cmem d a (w_hw w) NSP_STATUS) state, w')
    \<and> nsp_up n win c w' \<and> same_regs (nsp_reg cmem d a (w_hw w')) R3"
  by (rule nsp_port.command_returns [OF pcie2cpp.nsp_port_window [OF bus] up fit cpp_fits(1) acts R1 i k])

theorem nsp_command_completes_witness:
  "\<exists>w'. nfp_nsp_command (p2c_mmio dev_base) nsp_answer nsp_handle (spcode SPCODE_NOOP) 0 0 0 nsp_world =
     (42, nsp_versioned nsp_idle nsp_handle, w')"
proof -
  let ?S = "\<lambda>k R. R(NSP_COMMAND := 0x2a00000000) :: nsp_regs" and ?D = "\<lambda>k R. R :: nsp_regs"
  define R0 where "R0 = nsp_reg p_mem nsp_id 0x1000 (w_hw nsp_world)"
  define R1 where "R1 = commanded (spcode SPCODE_NOOP) 0 0 0 R0"
  have s0: "R0 NSP_STATUS = nsp_idle" unfolding R0_def by (rule nsp_world_status)
  have fit: "FIELD_FIT NSP_BUFFER_ADDRESS 0" by (simp add: FIELD_FIT_def)
  have st: "R1 NSP_COMMAND AND NSP_COMMAND_START \<noteq> 0" by (rule commanded_fields(3) [OF fit R1_def])
  have s1: "R1 NSP_STATUS = nsp_idle"
    using s0 by (simp add: R1_def commanded_def NSP_COMMAND_def NSP_BUFFER_def NSP_STATUS_def)
  define R2 where "R2 = seen ?S 0 R1 1"
  have r2: "R2 NSP_COMMAND = 0x2a00000000" "R2 NSP_STATUS = nsp_idle"
    using s1 by (simp_all add: R2_def NSP_COMMAND_def NSP_STATUS_def)
  have v: "nsp_result nsp_idle 0x2a00000000 = 42" "0x2a00000000 AND NSP_COMMAND_START = 0" "nsp_idle AND NSP_STATUS_BUSY = 0"
    by code_simp+
  have al: "nsp_alive (nsp_reg p_mem nsp_id 0x1000 (w_hw nsp_world) NSP_STATUS)"
    unfolding nsp_world_status by (rule nsp_idle_alive)
  have "\<exists>w'. nfp_nsp_command (p2c_mmio dev_base) nsp_answer nsp_handle (spcode SPCODE_NOOP) 0 0 0 nsp_world =
     (nsp_result (R2 NSP_STATUS) (R2 NSP_COMMAND),
      nsp_versioned (nsp_reg p_mem nsp_id 0x1000 (w_hw nsp_world) NSP_STATUS) nsp_handle, w')
     \<and> nsp_up 21 dev_base (w_cpp dev_world) w' \<and> same_regs (nsp_reg p_mem nsp_id 0x1000 (w_hw w')) R2"
    by (rule nsp_command_completes [OF dev.pcie2cpp_axioms nsp_dev_window nsp_world_up al fit nsp_answer_acts
          R1_def [unfolded R0_def], where i = 1 and k = 0])
      (use st r2 v R2_def in \<open>simp_all add: fun_upd_def\<close>)
  then show ?thesis unfolding r2 v nsp_world_status by blast
qed

text \<open>The two words that are written for a command hold their fields apart: the processor
  reads the option, the code, a set start bit, the buffer's identifier (its upper 24 bits) and its
  address back, and the other registers are untouched.\<close>

theorem nsp_command_fields:
  assumes "FIELD_FIT NSP_BUFFER_ADDRESS buff_addr" "R1 = commanded code opt buff_cpp buff_addr R"
  shows "FIELD_GET NSP_COMMAND_OPTION (R1 NSP_COMMAND) = ucast opt \<and> FIELD_GET NSP_COMMAND_CODE (R1 NSP_COMMAND) = ucast code
    \<and> R1 NSP_COMMAND AND NSP_COMMAND_START \<noteq> 0
    \<and> FIELD_GET NSP_BUFFER_CPP (R1 NSP_BUFFER) = ucast (drop_bit 8 buff_cpp)
    \<and> FIELD_GET NSP_BUFFER_ADDRESS (R1 NSP_BUFFER) = buff_addr
    \<and> R1 NSP_STATUS = R NSP_STATUS"
  using commanded_fields [OF assms] assms(2) by (simp add: commanded_def NSP_COMMAND_def NSP_BUFFER_def NSP_STATUS_def)

theorem nsp_command_fields_witness:
  "FIELD_GET NSP_COMMAND_CODE (commanded 7 1536 0x07200000 0x1000 (\<lambda>_. 0) NSP_COMMAND) = 7"
proof -
  have "FIELD_FIT NSP_BUFFER_ADDRESS 0x1000" by code_simp
  from nsp_command_fields [OF this refl, of 7 1536 "0x07200000" "\<lambda>_. 0"] show ?thesis by simp
qed

text \<open>A command to a processor that is alive but does not clear the start bit in any of the
  1002 sleeps of the wait returns -ETIMEDOUT.\<close>

theorem nsp_command_gives_up:
  assumes bus: "pcie2cpp M win n csr cmem" "nsp_window n c cid base d a"
    and up: "nsp_up n win c w" "nsp_at cid base state" "nsp_alive (nsp_reg cmem d a (w_hw w) NSP_STATUS)"
    and fit: "FIELD_FIT NSP_BUFFER_ADDRESS buff_addr" and acts: "nsp_acts (nsp_reg cmem d a) (ne_start ne) S"
    and stuck: "\<forall>j\<le>1001. seen S 0 (commanded code opt buff_cpp buff_addr (nsp_reg cmem d a (w_hw w))) j NSP_COMMAND
      AND NSP_COMMAND_START \<noteq> 0"
  shows "\<exists>w'. nfp_nsp_command M ne state code opt buff_cpp buff_addr w =
      (- errno_code ETIMEDOUT, nsp_versioned (nsp_reg cmem d a (w_hw w) NSP_STATUS) state, w') \<and> nsp_up n win c w'"
  by (rule nsp_port.command_times_out [OF pcie2cpp.nsp_port_window [OF bus] up fit cpp_fits(1) acts stuck])

lemma seen_id: "seen (\<lambda>k R. R) c R j = R"
  by (induction j arbitrary: c) simp_all

theorem nsp_command_gives_up_witness:
  "\<exists>w'. nfp_nsp_command (p2c_mmio dev_base) \<lparr>ne_start = \<lambda>k h. h, ne_done = \<lambda>k h. h\<rparr> nsp_handle (spcode SPCODE_NOOP) 0 0 0
     nsp_world = (- errno_code ETIMEDOUT, nsp_versioned nsp_idle nsp_handle, w')"
proof -
  let ?R = "nsp_reg p_mem nsp_id 0x1000 (w_hw nsp_world)"
  have fit: "FIELD_FIT NSP_BUFFER_ADDRESS 0" by (simp add: FIELD_FIT_def)
  have al: "nsp_alive (?R NSP_STATUS)" unfolding nsp_world_status by (rule nsp_idle_alive)
  have ac: "nsp_acts (nsp_reg p_mem nsp_id 0x1000) (ne_start \<lparr>ne_start = \<lambda>k h. h, ne_done = \<lambda>k h. h\<rparr>) (\<lambda>k R. R)"
    by (simp add: nsp_acts_def)
  have "\<forall>j\<le>1001. seen (\<lambda>k R. R) 0 (commanded (spcode SPCODE_NOOP) 0 0 0 ?R) j NSP_COMMAND AND NSP_COMMAND_START \<noteq> 0"
    unfolding seen_id using commanded_fields(3) [OF fit refl] by blast
  from nsp_command_gives_up [OF dev.pcie2cpp_axioms nsp_dev_window nsp_world_up al fit ac this]
  show ?thesis unfolding nsp_world_status by blast
qed

text \<open>C36: \<open>nfp_nsp_wait\<close> for a processor that has not started (its magic number is missing) returns
  -ENODEV at once: its loop repeats only on -EAGAIN, which no command reports for that reason.\<close>

theorem nsp_wait_gives_up:
  assumes "pcie2cpp M win n csr cmem" "nsp_window n c cid base d a"
    and "nsp_up n win c w" "nsp_at cid base state"
    and "FIELD_GET NSP_STATUS_MAGIC (nsp_reg cmem d a (w_hw w) NSP_STATUS) \<noteq> NSP_MAGIC"
  shows "\<exists>w'. nfp_nsp_wait M nes nap state w = (- errno_code ENODEV, state, w') \<and> nsp_up n win c w'"
  by (rule nsp_port.wait_gives_up [OF pcie2cpp.nsp_port_window [OF assms(1,2)] assms(3-5)])

theorem nsp_wait_gives_up_witness:
  "\<exists>w'. nfp_nsp_wait (p2c_mmio dev_base) (\<lambda>_. nsp_answer) (\<lambda>_ h. h) nsp_handle
     (nsp_world\<lparr>w_hw := nsp_poke NSP_STATUS 0 (w_hw nsp_world)\<rparr>) = (- errno_code ENODEV, nsp_handle, w')"
proof -
  let ?w = "nsp_world\<lparr>w_hw := nsp_poke NSP_STATUS 0 (w_hw nsp_world)\<rparr>"
  have "nsp_up 21 dev_base (w_cpp dev_world) ?w" by (rule nspdev.up_hw [OF nsp_world_up(1)])
  moreover have "nsp_reg p_mem nsp_id 0x1000 (w_hw ?w) NSP_STATUS = 0"
    using nsp_poke_reg [of NSP_STATUS 0 "w_hw nsp_world"] by (simp add: same_regs_def)
  moreover have "FIELD_GET NSP_STATUS_MAGIC 0 \<noteq> NSP_MAGIC" by code_simp
  ultimately show ?thesis
    using nsp_wait_gives_up [OF dev.pcie2cpp_axioms nsp_dev_window _ nsp_world_up(2), where w = ?w] by fastforce
qed

section \<open>The port table\<close>

text \<open>C19: the table that the driver makes of the 48 entries has one port for each entry in use, in
  the order of the entries; its largest index, the lanes of each physical port and the split flags,
  which nested loops compute in place, are those of a direct definition over the finished table.\<close>

theorem eth_table_meaning:
  assumes "t = eth_table_of nsp entries" "used = filter (entry_used entries) [0..<NSP_ETH_MAX_COUNT]"
  shows "unat (eth_count t) = length (eth_ports t) \<and> map chan_index (eth_ports t) = map of_nat used
    \<and> max_index t = fold max (map of_nat used) 0
    \<and> (\<forall>i<length (eth_ports t).
        port_lanes (eth_ports t ! i) =
          sum_list (map eth_lanes (filter (\<lambda>q. label_port q = label_port (eth_ports t ! i)) (eth_ports t)))
        \<and> is_split (eth_ports t ! i) =
          (if \<exists>j<length (eth_ports t). j \<noteq> i \<and> label_port (eth_ports t ! j) = label_port (eth_ports t ! i) then 1 else 0))"
  unfolding assms using table_reference [where nsp = nsp and entries = entries] by blast

theorem eth_table_meaning_witness:
  "unat (eth_count (eth_table_of nsp_handle (1 # replicate 1535 0)))
     = length (eth_ports (eth_table_of nsp_handle (1 # replicate 1535 0)))"
  using eth_table_meaning [OF refl refl, of nsp_handle "1 # replicate 1535 0"] by blast

text \<open>C18: with a supported processor and a loaded table, changing a setting of the selected port succeeds.
  When the field has the value already nothing changes; otherwise the field of the word gets the value
  and its other bits stay, the control word gets the control bit, every other word of every entry
  stays, and the change is marked for the commit.\<close>

theorem eth_setting_changes_field:
  assumes "17 \<le> ver_minor nsp" "nsp_entries nsp = Some entries" "table_ok entries"
    and "unat (nsp_idx nsp) < NSP_ETH_MAX_COUNT" "field_mask msk h l" "h < 32" "FIELD_FIT msk (ucast val)"
    and "raw \<noteq> NSP_ETH_RAW_CONTROL"
  shows "\<exists>nsp' entries' reg ctl. NFP_ETH_SET_BIT_CONFIG raw msk val ctrl_bit nsp = Some (0, nsp')
    \<and> nsp_entries nsp' = Some entries' \<and> table_ok entries'
    \<and> entry_raw entries (unat (nsp_idx nsp)) raw = Some reg \<and> entry_raw entries (unat (nsp_idx nsp)) NSP_ETH_RAW_CONTROL = Some ctl
    \<and> FIELD_GET msk (field_put msk (ucast val) reg) = ucast val \<and> field_put msk (ucast val) reg AND NOT msk = reg AND NOT msk
    \<and> (if FIELD_GET msk reg = ucast val then nsp' = nsp
       else nsp_modified nsp' = 1 \<and> (\<forall>j k. entry_raw entries' j k =
         (if (j, k) = (unat (nsp_idx nsp), raw) then Some (field_put msk (ucast val) reg)
          else if (j, k) = (unat (nsp_idx nsp), NSP_ETH_RAW_CONTROL) then Some (ctl OR ctrl_bit)
          else entry_raw entries j k)))"
proof -
  have "unat (ucast val :: u64) < 2 ^ (64 - l)"
    unfolding unat_less_bits using assms(6,7) FIELD_FIT_iff [OF assms(5)] assms(5)
    by (fastforce simp: field_mask_def bit_unsigned_iff dest: bit_imp_le_length)
  note put = field_put_get [OF assms(5,7) this]
  obtain nsp' entries' reg ctl where r: "NFP_ETH_SET_BIT_CONFIG raw msk val ctrl_bit nsp = Some (0, nsp')"
    "nsp_entries nsp' = Some entries'" "table_ok entries'" "entry_raw entries (unat (nsp_idx nsp)) raw = Some reg"
    "entry_raw entries (unat (nsp_idx nsp)) NSP_ETH_RAW_CONTROL = Some ctl"
    "if FIELD_GET msk reg = ucast val then nsp' = nsp
     else nsp_modified nsp' = 1 \<and> (\<forall>j k. entry_raw entries' j k =
       (if (j, k) = (unat (nsp_idx nsp), raw) then Some (field_put msk (ucast val) reg)
        else if (j, k) = (unat (nsp_idx nsp), NSP_ETH_RAW_CONTROL) then Some (ctl OR ctrl_bit)
        else entry_raw entries j k))"
    using set_bit_config [OF assms, of ctrl_bit] by (elim exE conjE)
  show ?thesis
    by (intro exI [of _ nsp'] exI [of _ entries'] exI [of _ reg] exI [of _ ctl] conjI r put [of reg])
qed

theorem eth_setting_changes_field_witness:
  "\<exists>nsp'. NFP_ETH_SET_BIT_CONFIG NSP_ETH_RAW_STATE NSP_ETH_STATE_FEC 2 NSP_ETH_CTRL_SET_FEC
      (nsp_handle\<lparr>ver_minor := 24, nsp_entries := Some (replicate 1536 0), nsp_idx := 3\<rparr>) = Some (0, nsp')"
proof -
  have m: "field_mask NSP_ETH_STATE_FEC 27 26" by (simp add: NSP_ETH_STATE_FEC_def field_GENMASK)
  have "FIELD_FIT NSP_ETH_STATE_FEC (ucast (2 :: u32))" by code_simp
  moreover have "table_ok (replicate 1536 0)"
    by (simp add: table_ok_def NSP_ETH_TABLE_SIZE_def NSP_ETH_MAX_COUNT_def NSP_ETH_NBI_PORT_COUNT_def eth_entry_size_def)
  ultimately show ?thesis
    using eth_setting_changes_field [OF _ _ _ _ m, of "nsp_handle\<lparr>ver_minor := 24, nsp_entries := Some (replicate 1536 0), nsp_idx := 3\<rparr>"
        "replicate 1536 0" 2 NSP_ETH_RAW_STATE NSP_ETH_CTRL_SET_FEC]
    by (simp add: NSP_ETH_MAX_COUNT_def NSP_ETH_NBI_PORT_COUNT_def) blast
qed

section \<open>Symbols of the firmware\<close>

text \<open>C21: on a bus that meets the contract of the PCIe window, with the symbol table and the names of
  the firmware in device memory as its linker writes them, the driver reads the table, and reading a
  symbol of 4 or 8 bytes by its name gives the value in device memory of the first symbol of that name;
  a name that no symbol has gives -ENOENT.\<close>

theorem symbol_value_by_name:
  assumes bus: "pcie2cpp M win n csr cmem" "bus_ready n w" "cfg (w_pcie w) = win"
    and L: "L = round_up (mip_strtab_size mip) 8"
    and sy: "device_block n (cmem (w_hw w)) (w_cpp w) rtsym_dram (ucast (mip_symtab_addr mip))
      (concat (map rtsym_entry_bytes (map snd syms)))"
    and st: "device_block n (cmem (w_hw w)) (w_cpp w) rtsym_dram (ucast (mip_strtab_addr mip)) str"
    and l: "linked syms" "str = name_table (map fst syms) @ fill" "syms \<noteq> []"
    and sz: "unat (mip_symtab_size mip) = 16 * length syms" "unat L = length str" "mip_strtab_size mip \<noteq> 0"
      "40 * length syms + length str < 2 ^ 31 - 32"
    and fd: "find (\<lambda>sy. fst sy = name) syms = Some (name, e)"
    and v: "device_block n (cmem (w_hw w)) (w_cpp w) (sym_dest (nfp_rtsym_sw_entry_init L e))
        (sym_addr (nfp_rtsym_sw_entry_init L e)) bs"
      "unat (sym_size (nfp_rtsym_sw_entry_init L e)) = length bs" "length bs = 4 \<or> length bs = 8"
  shows "\<exists>t w1 w2. rtsym_table_read M (Some mip) w = (Some t, w1)
    \<and> nfp_rtsym_read_le M (Some t) name w1 = Some (le_word bs, 0, w2) \<and> bus_ready n w2
    \<and> (\<forall>other. find (\<lambda>sy. fst sy = other) syms = None \<longrightarrow>
         nfp_rtsym_read_le M (Some t) other w1 = Some (-1, - errno_code ENOENT, w1))"
proof (rule pcie2cpp.table_recovered [OF bus sy st l sz(1) sz(2) [unfolded L] sz(3,4)])
  fix t w1
  assume t: "rtsym_table_read M (Some mip) w = (Some t, w1)"
    and lk: "\<And>name. nfp_rtsym_lookup (Some t) name =
      Some (map_option (\<lambda>sy. nfp_rtsym_sw_entry_init (round_up (mip_strtab_size mip) 8) (snd sy)) (find (\<lambda>sy. fst sy = name) syms))"
    and w1: "bus_ready n w1" "cfg (w_pcie w1) = win" "w_cpp w1 = w_cpp w" "cmem (w_hw w1) = cmem (w_hw w)"
  have s: "nfp_rtsym_lookup (Some t) name = Some (Some (nfp_rtsym_sw_entry_init L e))" using lk fd by (simp add: L)
  have "device_block n (cmem (w_hw w1)) (w_cpp w1) (sym_dest (nfp_rtsym_sw_entry_init L e))
      (sym_addr (nfp_rtsym_sw_entry_init L e)) bs" using v(1) w1(3,4) by simp
  from pcie2cpp.symbol_read [OF bus(1) w1(1,2) s this v(2,3)] obtain w2
    where "nfp_rtsym_read_le M (Some t) name w1 = Some (le_word bs, 0, w2)" "bus_ready n w2" .
  moreover have "nfp_rtsym_read_le M (Some t) other w1 = Some (-1, - errno_code ENOENT, w1)"
    if "find (\<lambda>sy. fst sy = other) syms = None" for other using lk that by (simp add: nfp_rtsym_read_le_def)
  ultimately show ?thesis using t by blast
qed

theorem symbol_value_by_name_witness:
  "\<exists>t w1 w2. rtsym_table_read (p2c_mmio dev_base) (Some fw_mip) fw_world = (Some t, w1)
    \<and> nfp_rtsym_read_le (p2c_mmio dev_base) (Some t) cnt_name w1 = Some (42, 0, w2)"
proof -
  have sz: "unat (mip_symtab_size fw_mip) = 16 * length fw_syms" "unat (8 :: u32) = length fw_strtab"
    "mip_strtab_size fw_mip \<noteq> 0" "40 * length fw_syms + length fw_strtab < 2 ^ 31 - 32" "fw_syms \<noteq> []"
    by (simp_all add: fw_mip_def fw_syms_def fw_strtab_def name_table_def cnt_name_def)
  have fd: "find (\<lambda>sy. fst sy = cnt_name) fw_syms = Some (cnt_name, cnt_entry)"
    by (simp add: fw_syms_def cnt_name_def)
  have v: "device_block 21 (p_mem (w_hw fw_world)) (w_cpp fw_world) (sym_dest (nfp_rtsym_sw_entry_init 8 cnt_entry))
      (sym_addr (nfp_rtsym_sw_entry_init 8 cnt_entry)) (le_bytes 4 (42 :: u32))"
    "unat (sym_size (nfp_rtsym_sw_entry_init 8 cnt_entry)) = length (le_bytes 4 (42 :: u32))"
    unfolding fw_symbol using fw_blocks(3) by simp_all
  have w: "(le_word (le_bytes 4 (42 :: u32)) :: u64) = 42" by code_simp
  from symbol_value_by_name [OF dev.pcie2cpp_axioms fw_ready(1,2) fw_symbol(4) [symmetric] fw_blocks(1,2) fw_linked
      fw_strtab_def sz(5,1-4) fd v, unfolded w]
  show ?thesis by auto
qed

text \<open>C25: for a string table whose size, as the device gives it, is below 2^31 - 8 (above, the
  signed rounding of the size overflows), and whatever the two tables hold: in a table that was read every
  name starts inside of the string table and the search by name, which is the search for the first symbol of that name, never
  reads outside of it.\<close>

theorem symbol_names_inside:
  assumes "rtsym_table_read M (Some mip) w = (Some t, w')" "unat (mip_strtab_size mip) < 2 ^ 31 - 8"
  shows "nfp_rtsym_lookup (Some t) name = Some (find (\<lambda>sy. name = c_str (rt_strtab t) (sym_name sy)) (rt_symtab t))
    \<and> (\<forall>sy\<in>set (rt_symtab t). sym_name sy < length (rt_strtab t)) \<and> nfp_rtsym_count (Some t) = int (length (rt_symtab t))"
  using lookup_is_find [OF assms] by (simp add: nfp_rtsym_count_def)

theorem symbol_names_inside_witness:
  "\<exists>t w'. rtsym_table_read (p2c_mmio dev_base) (Some fw_mip) fw_world = (Some t, w')
    \<and> nfp_rtsym_lookup (Some t) [] \<noteq> None"
proof -
  have sz: "unat (mip_symtab_size fw_mip) = 16 * length fw_syms" "unat (round_up (mip_strtab_size fw_mip) 8) = length fw_strtab"
    "mip_strtab_size fw_mip \<noteq> 0" "40 * length fw_syms + length fw_strtab < 2 ^ 31 - 32" "fw_syms \<noteq> []"
    unfolding fw_symbol by (simp_all add: fw_mip_def fw_syms_def fw_strtab_def name_table_def cnt_name_def)
  obtain t w' where t: "rtsym_table_read (p2c_mmio dev_base) (Some fw_mip) fw_world = (Some t, w')"
    by (rule dev.table_recovered [OF fw_ready(1,2) fw_blocks(1,2) fw_linked fw_strtab_def sz(5,1-4)])
  from symbol_names_inside [OF t] show ?thesis using t by (simp add: fw_mip_def)
qed


section \<open>Finding the card\<close>

text \<open>A bus address that was printed is parsed to the same address, as long as the function
  number has one decimal digit (the parser reads the function as decimal, the printer writes it as
  hexadecimal), and the parser stays inside of its copy of the text.\<close>

theorem pci_addr_roundtrip:
  assumes "unat (pa_function a) < 10" "length (pci_pri_fmt a) < n"
  shows "parse_pci_addr_format True (pci_pri_fmt a) n = Some (Some a)"
  by (rule addr_roundtrip [OF assms])

theorem pci_addr_roundtrip_witness:
  "parse_pci_addr_format True (pci_pri_fmt \<lparr>pa_domain = 0x10000, pa_bus = 0x5a, pa_devid = 0x1f, pa_function = 7\<rparr>) 256 =
    Some (Some \<lparr>pa_domain = 0x10000, pa_bus = 0x5a, pa_devid = 0x1f, pa_function = 7\<rparr>)"
proof (rule pci_addr_roundtrip)
  let ?a = "\<lparr>pa_domain = 0x10000, pa_bus = 0x5a, pa_devid = 0x1f, pa_function = 7\<rparr>"
  show f: "unat (pa_function ?a) < 10" by simp
  show "length (pci_pri_fmt ?a) < 256" using pri_fmt_length [OF f] by simp
qed

text \<open>C22: when sysfs lists a supported card behind entries that are no supported card, with its
  files as the kernel prints them, the scan returns that card with its identification and its memory
  resources, and mapping it opens the interrupt file of the number in its directory and maps the file
  of every resource that it has, at its length, and no other.\<close>

theorem card_is_brought_up:
  assumes list: "os_list os (sys_devices @ [0x2f]) = Some (es @ pci_pri_fmt (cd_addr c) # fs)"
    and skip: "\<forall>e\<in>set es. scan_skips os e"
    and card: "in_sysfs os c" "scan_match (ucast (cd_vendor c)) (ucast (cd_device c))"
    and uio: "os_list os (card_dir c @ ascii ''/uio'') = Some (us @ (ascii ''uio'' @ fmt_dec (unat k)) # vs)"
      "\<forall>e\<in>set us. take 3 e \<noteq> ascii ''uio''" "0 \<le> os_open os (uio_file k)" "0 \<le> os_open os (uio_config k)"
    and res: "\<forall>i<PCI_MAX_RESOURCE. can_map os (cd_addr c) i (res_of (cd_res c ! i))"
  shows "\<exists>dev dev'. pci_scan os = Some (Some dev) \<and> pd_addr dev = cd_addr c
    \<and> vendor_id (pd_id dev) = cd_vendor c \<and> device_id (pd_id dev) = cd_device c \<and> mem_resource dev = map res_of (cd_res c)
    \<and> pci_map_device os dev = (0, dev') \<and> pd_fd dev' = os_open os (uio_file k) \<and> pd_uio_cfg_fd dev' = os_open os (uio_config k)
    \<and> mem_resource dev' = map (\<lambda>i. mapped os (cd_addr c) i (res_of (cd_res c ! i))) [0..<PCI_MAX_RESOURCE]"
proof -
  have f: "unat (pa_function (cd_addr c)) < 10" "length (cd_res c) = PCI_MAX_RESOURCE" using card(1) by (simp_all add: in_sysfs_def)
  let ?d = "card_device c"
  have d: "pd_addr ?d = cd_addr c" "vendor_id (pd_id ?d) = cd_vendor c" "device_id (pd_id ?d) = cd_device c"
    "mem_resource ?d = map res_of (cd_res c)" by (simp_all add: card_device_def pci_dev_zero_def)
  let ?e = "?d\<lparr>pd_fd := os_open os (uio_file k), pd_uio_cfg_fd := os_open os (uio_config k), pd_uio := True\<rparr>"
  have "pci_map_device os ?d = (0, ?e\<lparr>mem_resource := map (\<lambda>i. mapped os (pd_addr ?d) i (mem_resource ?d ! i)) [0..<PCI_MAX_RESOURCE]\<rparr>)"
    by (rule map_device [OF get_card [OF f(1) d(1) uio]]) (use f(2) d res in simp_all)
  moreover have "map (\<lambda>i. mapped os (pd_addr ?d) i (mem_resource ?d ! i)) [0..<PCI_MAX_RESOURCE] =
      map (\<lambda>i. mapped os (cd_addr c) i (res_of (cd_res c ! i))) [0..<PCI_MAX_RESOURCE]"
    using f(2) d by simp
  ultimately show ?thesis using scan_finds [OF list skip card] d by auto
qed

theorem card_is_brought_up_witness:
  "\<exists>dev dev'. pci_scan a_system = Some (Some dev) \<and> vendor_id (pd_id dev) = 0x19ee \<and> device_id (pd_id dev) = 0x4000
    \<and> pci_map_device a_system dev = (0, dev') \<and> pd_fd dev' = 7
    \<and> mem_resource dev' = \<lparr>mr_phys_addr = 0xe0000000, mr_len = 0x1000000, mr_addr = 0x7f0000000000\<rparr> # replicate 5 no_resource"
proof -
  have s: "\<forall>e\<in>set [[0x2e], [0x2e, 0x2e]]. scan_skips a_system e" by (simp add: scan_skips_def)
  have m: "scan_match (ucast (cd_vendor a_card)) (ucast (cd_device a_card))"
    by (simp add: scan_match_def a_card_def PCI_VENDOR_ID_NETRONOME_def PCI_DEVICE_ID_NFP4000_PF_NIC_def)
  have u: "\<forall>e\<in>set [[0x2e]]. take 3 e \<noteq> ascii ''uio''" "0 \<le> os_open a_system (uio_file 3)" "0 \<le> os_open a_system (uio_config 3)"
    by (simp_all add: ascii_def a_system_def)
  have r: "\<forall>i<PCI_MAX_RESOURCE. can_map a_system (cd_addr a_card) i (res_of (cd_res a_card ! i))"
    by (simp add: can_map_def a_system_def)
  from card_is_brought_up [OF a_system_lists(1) s a_system_card m a_system_lists(2) u r, unfolded a_system_mapped]
  show ?thesis by (auto simp: a_card_def a_system_def)
qed


section \<open>Memory for the rings\<close>

text \<open>C40: after any sequence of reservations and releases, whatever the operating system answers, the
  table is a map from handles to zones in use: the counter is the number of free entries, a zone that was not
  released is unchanged, and a further reservation either fails and changes nothing, or takes the least free
  handle and puts in a zone whose length is the requested one rounded up to whole huge pages, mapped from
  the file of that handle, with its physical address.\<close>

theorem memzone_refines_map:
  assumes s0: "length (mz s0) = MAX_MEMZONES" and s: "s = fold mz_step reqs (memzone_init s0)"
    and r: "s2 = fold mz_step later s" and len: "unat n \<le> 2 ^ 64 - 2 ^ 21"
  shows "unat (free_mz s) + card (dom (zones s)) = MAX_MEMZONES
    \<and> (\<forall>i z. zones s i = Some z \<and> (\<forall>e. Inr (e, i) \<notin> set later) \<longrightarrow> zones s2 i = Some z)
    \<and> (memzone_reserve os n s = (None, s)
       \<or> (\<exists>i z s'. memzone_reserve os n s = (Some i, s') \<and> i = (LEAST i. zones s i = None) \<and> i < MAX_MEMZONES
            \<and> zones s' = (zones s)(i \<mapsto> z) \<and> new_zone os n i z
            \<and> unat n \<le> unat (mz_len z) \<and> 2 ^ 21 dvd unat (mz_len z) \<and> unat (mz_len z) < unat n + 2 ^ 21))"
proof (intro conjI)
  have wf: "mz_wf s" unfolding s mz_step_eq by (rule zs.run_keeps(1) [OF init_wf(1) [OF s0]])
  show "unat (free_mz s) + card (dom (zones s)) = MAX_MEMZONES" by (rule free_count [OF wf])
  show "\<forall>i z. zones s i = Some z \<and> (\<forall>e. Inr (e, i) \<notin> set later) \<longrightarrow> zones s2 i = Some z"
    unfolding r mz_step_eq using zs.run_keeps(2) [OF wf] by blast
  have l: "(LEAST i. \<not> live s i) = (LEAST i. zones s i = None)" by (simp add: zones_def)
  from wf show "memzone_reserve os n s = (None, s)
       \<or> (\<exists>i z s'. memzone_reserve os n s = (Some i, s') \<and> i = (LEAST i. zones s i = None) \<and> i < MAX_MEMZONES
            \<and> zones s' = (zones s)(i \<mapsto> z) \<and> new_zone os n i z
            \<and> unat n \<le> unat (mz_len z) \<and> 2 ^ 21 dvd unat (mz_len z) \<and> unat (mz_len z) < unat n + 2 ^ 21)"
  proof (cases rule: reserve_cases [of s os n])
    case (works i z s')
    have "mz_len z = ALIGN_CEIL n HUGE_PAGE_SIZE" using works(7) by (simp add: new_zone_def)
    then show ?thesis using works(1,2,3,6,7) align_ceil [OF len] l by auto
  qed simp
qed

theorem memzone_refines_map_witness:
  "\<exists>i z s'. memzone_reserve \<lparr>mo_open = \<lambda>_. 3, mo_mmap = \<lambda>_ _. Some 0x200000, mo_munmap = \<lambda>_ _. 0, mo_pagemap_open = 4,
       mo_pagemap_seek = \<lambda>_. True, mo_pagemap_read = \<lambda>_. Some [1, 2, 0, 0, 0, 0, 0, 0]\<rparr> 512
      (memzone_init \<lparr>mz = replicate MAX_MEMZONES \<lparr>iova = 0, mz_addr = 0, mz_len = 0, mz_flags = 0, handle = 0\<rparr>, free_mz = 1024\<rparr>) =
      (Some i, s') \<and> zones s' i = Some z \<and> mz_len z = 0x200000 \<and> iova z = 0x201000"
proof -
  let ?os = "\<lparr>mo_open = \<lambda>_. 3, mo_mmap = \<lambda>_ _. Some 0x200000, mo_munmap = \<lambda>_ _. 0, mo_pagemap_open = 4,
       mo_pagemap_seek = \<lambda>_. True, mo_pagemap_read = \<lambda>_. Some [1, 2, 0, 0, 0, 0, 0, 0]\<rparr>"
  let ?init = "\<lparr>mz = replicate MAX_MEMZONES \<lparr>iova = 0, mz_addr = 0, mz_len = 0, mz_flags = 0, handle = 0\<rparr>, free_mz = 1024\<rparr>"
  let ?s = "memzone_init ?init"
  have l: "length (mz ?init) = MAX_MEMZONES" "unat (512 :: u64) \<le> 2 ^ 64 - 2 ^ 21" by simp_all
  have e: "?s = fold mz_step [] ?s" "?s = fold mz_step [] ?s" by simp_all
  have v: "ALIGN_CEIL 512 HUGE_PAGE_SIZE = 0x200000" "mem_virt2phy ?os 0x200000 = 0x201000" by code_simp+
  have n: "memzone_reserve ?os 512 ?s \<noteq> (None, ?s)"
    by (rule reserve_succeeds [OF init_wf [OF l(1)], where a = "0x200000"]) (simp_all add: v MEMZONE_BAD_IOVA_def)
  from memzone_refines_map [OF l(1) e l(2), of ?os] n obtain i z s' where
    "memzone_reserve ?os 512 ?s = (Some i, s')" "zones s' = (zones ?s)(i \<mapsto> z)" "new_zone ?os 512 i z" by blast
  moreover have "mz_len z = 0x200000" "iova z = 0x201000" using \<open>new_zone ?os 512 i z\<close> v by (simp_all add: new_zone_def)
  ultimately show ?thesis by auto
qed


section \<open>Other programs: the device server and the shim\<close>

text \<open>C23: on a device that meets the contract of the PCIe window, a client that reads \<open>length bs\<close> bytes of
  the device file at an offset whose range holds the bytes \<open>bs\<close> gets exactly these bytes, across the
  1 MiB boundaries of the server and wherever the socket cuts a transfer of more than 32 bytes; the memory is unchanged, and the
  connection and the bus are as before.\<close>

theorem shim_read_is_device_memory:
  assumes "pcie2cpp M win n csr cmem" "libc_sys L = link_sys c M j" "client_ready n win fd st"
    and "file_range n (cmem (w_hw (client_world st))) (w_cpp (client_world st)) off bs"
  shows "\<exists>st'. shim_pread L fd (of_nat (length bs)) off st = Some ((int (length bs), bs), st')
    \<and> shim_pread64 L fd (of_nat (length bs)) off st = Some ((int (length bs), bs), st')
    \<and> client_ready n win fd st' \<and> sh_errno st' = sh_errno st \<and> lk_data (sh_sock st') = lk_data (sh_sock st)
    \<and> cmem (w_hw (client_world st')) = cmem (w_hw (client_world st)) \<and> w_fault (client_world st') = w_fault (client_world st)"
  unfolding shim_calls [OF assms(3)]
  by (rule pcie2cpp.client_pread [OF assms]) blast

theorem shim_read_is_device_memory_witness:
  "\<exists>st'. shim_pread (dev_libc Suc) 5 64 0x0700200000001000 dev_client = Some ((64, replicate 64 0), st')"
proof -
  have z: "mem_rd (\<lambda>_. 0) a k = replicate k 0" for a :: u64 and k
    by (intro nth_equalityI) (simp_all add: nth_mem_rd)
  have "file_range 21 (p_mem (w_hw (client_world dev_client))) (w_cpp (client_world dev_client)) 0x0700200000001000 (replicate 64 0)"
    unfolding dev_client_ready(2)
    by (rule file_range_one [where d = "NFP_CPP_ID 7 32 0" and a = "0x1000"])
      (use dev_file dev_translation z in \<open>simp_all add: take_bit_word_eq_self dev_world_def\<close>)
  from shim_read_is_device_memory [OF dev.pcie2cpp_axioms _ dev_client_ready(1) this, of "dev_libc Suc" Suc cmd_zero]
  show ?thesis by (auto simp: dev_libc_def)
qed

text \<open>C24: on such a device, what a client writes to a range of the device file that one area of the bus can
  serve is in the CPP memory behind the translated offset, nothing else changes there, and reading the range back gives
  the bytes that were written.\<close>

theorem shim_write_then_read:
  assumes "pcie2cpp M win n csr cmem" "libc_sys L = link_sys c M j" "client_ready n win fd st"
    and "block_access n d a (of_nat (length bs))" "take_bit 40 a = a" "length bs < 2 ^ 31"
    and "nfp_target_cpp (cdev_cpp_id off) (cdev_offset off) (Some (\<lambda>i. imb_cat_table (w_cpp (client_world st)) ! i)) = Inr (d, a)"
    and "unat (cdev_offset off) mod 2 ^ 20 + length bs \<le> 2 ^ 20" "cdev_offset off + of_nat (length bs) \<le> push_bit 40 1"
  shows "\<exists>st1 st2. shim_pwrite L fd bs (of_nat (length bs)) off st = Some (int (length bs), st1)
    \<and> cmem (w_hw (client_world st1)) = (cmem (w_hw (client_world st)))(port_of d :=
        mem_wr (cmem (w_hw (client_world st)) (port_of d)) a bs)
    \<and> shim_pread L fd (of_nat (length bs)) off st1 = Some ((int (length bs), bs), st2) \<and> client_ready n win fd st2"
proof -
  obtain st1 where w: "cpp_pwrite L fd bs (of_nat (length bs)) off st = Some (int (length bs), st1)" "client_ready n win fd st1"
    "w_cpp (client_world st1) = w_cpp (client_world st)" "cmem (w_hw (client_world st1)) = (cmem (w_hw (client_world st)))(port_of d :=
        mem_wr (cmem (w_hw (client_world st)) (port_of d)) a bs)"
    by (rule pcie2cpp.client_pwrite [OF assms(1-7,9)])
  have "file_range n (cmem (w_hw (client_world st1))) (w_cpp (client_world st1)) off bs"
    by (rule file_range_one [OF assms(4-6) _ assms(9,8)]) (use assms(6,7) w(3,4) in \<open>simp_all add: mem_rd_wr_same\<close>)
  from pcie2cpp.client_pread [OF assms(1,2) w(2) this]
  obtain st2 where "cpp_pread L fd (of_nat (length bs)) off st1 = Some ((int (length bs), bs), st2)" "client_ready n win fd st2" by blast
  then show ?thesis using w(1,4) shim_calls [OF assms(3), of L] shim_calls [OF w(2), of L] by auto
qed

theorem shim_write_then_read_witness:
  "\<exists>st1 st2. shim_pwrite (dev_libc Suc) 5 (replicate 64 9) 64 0x0700200000001000 dev_client = Some (64, st1)
    \<and> shim_pread (dev_libc Suc) 5 64 0x0700200000001000 st1 = Some ((64, replicate 64 9), st2)"
proof -
  have s: "libc_sys (dev_libc Suc) = link_sys Suc (p2c_mmio dev_base) cmd_zero" by (simp add: dev_libc_def)
  have "block_access 21 (NFP_CPP_ID 7 32 0) 0x1000 (of_nat (length (replicate 64 (9 :: u8))))" using dev_file(3) by simp
  from shim_write_then_read [OF dev.pcie2cpp_axioms s dev_client_ready(1) this, of "0x0700200000001000"]
  show ?thesis using dev_translation unfolding dev_file(1,2) dev_client_ready(2) by (auto simp: take_bit_word_eq_self)
qed

text \<open>C34: a turn of the device server, whatever the connections ask for and whatever the sockets answer,
  keeps the requested windows whole pages of the offset space of which no two share a byte, with the exception of the last page,
  whose end wraps to 0.\<close>

theorem requested_areas_apart:
  assumes "areas_wf (dd_req data)" "nfp_cpp_dev_poll_turn S M j A data s w = Some (data', s', w')"
  shows "areas_wf (dd_req data')
    \<and> (\<forall>i k x y. i < k \<and> k < length (dd_req data') \<and> covers (da_req (dd_req data' ! i)) x \<and> covers (da_req (dd_req data' ! k)) y
         \<and> rq_offset (da_req (dd_req data' ! i)) \<noteq> - 4096 \<longrightarrow> x \<noteq> y)"
  using poll_turn_areas [OF assms] wf_disjoint by blast

theorem requested_areas_apart_witness:
  "\<exists>data' s' w'. nfp_cpp_dev_poll_turn (pipe_sys Suc) (p2c_mmio dev_base) (\<lambda>_. cmd_zero)
      \<lparr>pl_ret = 1, pl_revents = (\<lambda>i. if i = 0 then POLLIN else 0), pl_accept = 4\<rparr> (dev_data\<lparr>dd_req := dev_areas\<rparr>)
      \<lparr>pp_in = [], pp_out = [], pp_turn = 0\<rparr> dev_world = Some (data', s', w')
    \<and> dd_count data' = 2 \<and> dd_req data' = dev_areas \<and> areas_wf dev_areas
    \<and> covers (da_req (dev_areas ! 0)) 4095 \<and> \<not> covers (da_req (dev_areas ! 1)) 4095"
proof -
  let ?A = "\<lparr>pl_ret = 1, pl_revents = (\<lambda>i. if i = 0 then POLLIN else 0), pl_accept = 4\<rparr>"
  let ?s = "\<lparr>pp_in = [], pp_out = [], pp_turn = 0\<rparr>"
  obtain data' where d: "nfp_cpp_dev_poll_turn (pipe_sys Suc) (p2c_mmio dev_base) (\<lambda>_. cmd_zero) ?A (dev_data\<lparr>dd_req := dev_areas\<rparr>) ?s dev_world
      = Some (data', ?s, dev_world)" "dd_count data' = 2" "dd_req data' = dev_areas"
    by (simp add: nfp_cpp_dev_poll_turn_def poll_events_def poll_accept_def conn_update_def dev_data_def MAX_CONNECTIONS_def POLLIN_def)
  have "areas_wf (dd_req (dev_data\<lparr>dd_req := dev_areas\<rparr>))" using dev_areas_wf(1) by simp
  from requested_areas_apart [OF this d(1)] have "areas_wf dev_areas"
    "covers (da_req (dev_areas ! 0)) 4095 \<longrightarrow> \<not> covers (da_req (dev_areas ! 1)) 4095"
    unfolding d(3) using dev_areas_wf(2,3) by fastforce+
  then show ?thesis using d dev_areas_wf(4) by blast
qed

end
